(* ===== verification/PyCore.thy ===== *)
theory PyCore imports Main "HOL-Library.Sublist" "HOL-Library.List_Lexorder" "HOL-Library.AList" begin

text \<open>
  Prelude: the part of Python that the modelled code of the repository is written in.
  It holds text (\<open>str\<close>) as a list of code points with the string methods the code calls,
  the dynamic values of JSON documents with truth, \<open>str()\<close>, \<open>int()\<close>, \<open>dict()\<close> and iteration,
  dictionaries as association lists in insertion order, the exceptions of the modelled
  modules, and the state-and-exception programs in which the stateful modules are written.
  The generic facts about them that the components share are collected in
  \<open>py_simps\<close> and \<open>prog_simps\<close>.

  Limits: \<open>lower\<close> and \<open>casefold\<close> treat ASCII and Latin-1 letters exactly and leave every other
  code point alone; JSON numbers with a fraction are not values of the model.
\<close>

named_theorems py_simps \<open>evaluation of the Python primitives\<close>
named_theorems prog_simps \<open>running a program on a state\<close>

section \<open>Text\<close>

type_synonym pystr = "int list"

definition lit :: "string \<Rightarrow> pystr" where
  "lit s = map of_char s"

lemma lit_inject [simp]: "lit s = lit t \<longleftrightarrow> s = t"
proof
  have inj: "inj (of_char :: char \<Rightarrow> int)"
    by (rule inj_of_char)
  assume "lit s = lit t"
  then show "s = t"
    using inj by (simp add: lit_def)
qed simp

lemma lit_Nil [simp]: "lit [] = []"
  by (simp add: lit_def)

lemma lit_eq_Nil [simp]: "lit s = [] \<longleftrightarrow> s = []" "[] = lit s \<longleftrightarrow> s = []"
  by (auto simp: lit_def)

lemma length_lit [simp]: "length (lit s) = length s"
  by (simp add: lit_def)

lemma lit_append [simp]: "lit s @ lit t = lit (s @ t)"
  by (simp add: lit_def)

lemma lit_append_cancel [simp]: "lit s @ x = lit s @ y \<longleftrightarrow> x = y"
  by simp

definition is_space :: "int \<Rightarrow> bool" where
  "is_space c \<longleftrightarrow>
     (9 \<le> c \<and> c \<le> 13) \<or> (28 \<le> c \<and> c \<le> 32) \<or> c = 133 \<or> c = 160 \<or> c = 5760
     \<or> (8192 \<le> c \<and> c \<le> 8202) \<or> c = 8232 \<or> c = 8233 \<or> c = 8239 \<or> c = 8287 \<or> c = 12288"

definition lstrip :: "pystr \<Rightarrow> pystr" where
  "lstrip s = dropWhile is_space s"

definition rstrip_by :: "(int \<Rightarrow> bool) \<Rightarrow> pystr \<Rightarrow> pystr" where
  "rstrip_by p s = rev (dropWhile p (rev s))"

definition strip :: "pystr \<Rightarrow> pystr" where
  "strip s = rstrip_by is_space (lstrip s)"

definition strip_chars :: "pystr \<Rightarrow> pystr \<Rightarrow> pystr" where
  "strip_chars cs s = rstrip_by (\<lambda>c. c \<in> set cs) (dropWhile (\<lambda>c. c \<in> set cs) s)"

definition lower_char :: "int \<Rightarrow> int" where
  "lower_char c =
     (if (65 \<le> c \<and> c \<le> 90) \<or> (192 \<le> c \<and> c \<le> 222 \<and> c \<noteq> 215) then c + 32 else c)"

definition lower :: "pystr \<Rightarrow> pystr" where
  "lower s = map lower_char s"

definition casefold_char :: "int \<Rightarrow> pystr" where
  "casefold_char c =
     (if c = 223 then [115, 115] else if c = 181 then [956] else [lower_char c])"

definition casefold :: "pystr \<Rightarrow> pystr" where
  "casefold s = concat (map casefold_char s)"

definition is_ascii :: "pystr \<Rightarrow> bool" where
  "is_ascii s \<longleftrightarrow> list_all (\<lambda>c. c < 128) s"

fun contains :: "pystr \<Rightarrow> pystr \<Rightarrow> bool" where
  "contains t [] \<longleftrightarrow> t = []"
| "contains t (c # cs) \<longleftrightarrow> prefix t (c # cs) \<or> contains t cs"

lemma contains_sublist: "contains t s \<longleftrightarrow> sublist t s"
proof (induction s)
  case (Cons c cs)
  then show ?case by (auto simp: sublist_Cons_right)
qed simp

fun split_ws_aux :: "pystr \<Rightarrow> pystr \<Rightarrow> pystr list" where
  "split_ws_aux acc [] = (if acc = [] then [] else [rev acc])"
| "split_ws_aux acc (c # cs) =
     (if is_space c then (if acc = [] then split_ws_aux [] cs else rev acc # split_ws_aux [] cs)
      else split_ws_aux (c # acc) cs)"

definition split_ws :: "pystr \<Rightarrow> pystr list" where
  "split_ws s = split_ws_aux [] s"

fun split_on_aux :: "int \<Rightarrow> pystr \<Rightarrow> pystr \<Rightarrow> pystr list" where
  "split_on_aux d acc [] = [rev acc]"
| "split_on_aux d acc (c # cs) =
     (if c = d then rev acc # split_on_aux d [] cs else split_on_aux d (c # acc) cs)"

definition split_on :: "int \<Rightarrow> pystr \<Rightarrow> pystr list" where
  "split_on d s = split_on_aux d [] s"

definition is_linebreak :: "int \<Rightarrow> bool" where
  "is_linebreak c \<longleftrightarrow>
     (10 \<le> c \<and> c \<le> 13) \<or> (28 \<le> c \<and> c \<le> 30) \<or> c = 133 \<or> c = 8232 \<or> c = 8233"

fun splitlines_aux :: "pystr \<Rightarrow> pystr \<Rightarrow> pystr list" where
  "splitlines_aux acc [] = (if acc = [] then [] else [rev acc])"
| "splitlines_aux acc [c] = (if is_linebreak c then [rev acc] else [rev (c # acc)])"
| "splitlines_aux acc (c # d # cs) =
     (if c = 13 \<and> d = 10 then rev acc # splitlines_aux [] cs
      else if is_linebreak c then rev acc # splitlines_aux [] (d # cs)
      else splitlines_aux (c # acc) (d # cs))"

definition splitlines :: "pystr \<Rightarrow> pystr list" where
  "splitlines s = splitlines_aux [] s"

fun join :: "pystr \<Rightarrow> pystr list \<Rightarrow> pystr" where
  "join sep [] = []"
| "join sep [x] = x"
| "join sep (x # y # ys) = x @ sep @ join sep (y # ys)"

definition last_n :: "nat \<Rightarrow> 'a list \<Rightarrow> 'a list" where
  "last_n n xs = (if n = 0 then xs else drop (length xs - n) xs)"

fun nat_str :: "nat \<Rightarrow> pystr" where
  "nat_str n = (if n < 10 then [48 + int n] else nat_str (n div 10) @ [48 + int (n mod 10)])"

declare nat_str.simps [simp del]

definition int_str :: "int \<Rightarrow> pystr" where
  "int_str i = (if i < 0 then 45 # nat_str (nat (- i)) else nat_str (nat i))"

text \<open>\<open>list(dict.fromkeys(xs))\<close>: the first occurrence of each element, in order.\<close>

fun dedup :: "'a list \<Rightarrow> 'a list" where
  "dedup [] = []"
| "dedup (x # xs) = x # dedup (filter (\<lambda>y. y \<noteq> x) xs)"

lemma set_dedup [simp]: "set (dedup xs) = set xs"
  by (induction xs rule: dedup.induct) auto

lemma distinct_dedup [simp]: "distinct (dedup xs)"
  by (induction xs rule: dedup.induct) auto

text \<open>
  \<open>last_n n xs\<close> is the slice \<open>xs[-n:]\<close>; for \<open>n = 0\<close> that slice is \<open>xs[0:]\<close>, the whole list.
\<close>

lemma length_last_n: "0 < n \<Longrightarrow> length (last_n n xs) = min n (length xs)"
  by (auto simp: last_n_def)

lemma set_last_n: "set (last_n n xs) \<subseteq> set xs"
  by (auto simp: last_n_def dest: in_set_dropD)

lemma strip_Nil [simp, py_simps]: "strip [] = []"
  by (simp add: strip_def lstrip_def rstrip_by_def)

lemma set_rstrip_by: "set (rstrip_by p s) \<subseteq> set s"
  by (auto simp: rstrip_by_def dest: set_dropWhileD)

lemma set_strip: "set (strip s) \<subseteq> set s"
  using set_rstrip_by [of is_space "lstrip s"] by (auto simp: strip_def lstrip_def dest: set_dropWhileD)

lemma rstrip_by_Nil_iff: "rstrip_by p s = [] \<longleftrightarrow> list_all p s"
  by (simp add: rstrip_by_def list_all_iff)

lemma strip_eq_Nil: "strip s = [] \<longleftrightarrow> list_all is_space s"
proof -
  have "list_all is_space (dropWhile is_space s) \<longleftrightarrow> list_all is_space s"
    by (induction s) auto
  then show ?thesis
    by (simp add: strip_def lstrip_def rstrip_by_Nil_iff)
qed

lemma dropWhile_rstrip_by:
  assumes "s = [] \<or> \<not> p (hd s)"
  shows "dropWhile p (rstrip_by p s) = rstrip_by p s"
proof (cases s)
  case (Cons c cs)
  with assms have "\<not> p c" by simp
  with Cons show ?thesis
    by (simp add: rstrip_by_def dropWhile_append)
qed (simp add: rstrip_by_def)

lemma strip_idem [simp]: "strip (strip s) = strip s"
proof -
  let ?t = "lstrip s"
  have "lstrip (rstrip_by is_space ?t) = rstrip_by is_space ?t"
    unfolding lstrip_def by (rule dropWhile_rstrip_by) (metis hd_dropWhile)
  then show ?thesis
    by (simp add: strip_def rstrip_by_def dropWhile_idem)
qed

section \<open>Values of JSON documents\<close>

datatype pyval =
    PyNone
  | PyBool bool
  | PyInt int
  | PyStr pystr
  | PyList "pyval list"
  | PyDict "(pystr \<times> pyval) list"

type_synonym pydict = "(pystr \<times> pyval) list"

datatype py_exn =
    ValueError pystr
  | TypeError pystr
  | KeyError pystr
  | JSONDecodeError
  | LoopTransitionError pystr
  | LoopNotFoundError pystr
  | TimeoutError pystr
  | AttributeError pystr
  | IndexError pystr
  | OtherError pystr

type_synonym 'a result = "py_exn + 'a"

fun truthy :: "pyval \<Rightarrow> bool" where
  "truthy PyNone = False"
| "truthy (PyBool b) = b"
| "truthy (PyInt i) = (i \<noteq> 0)"
| "truthy (PyStr s) = (s \<noteq> [])"
| "truthy (PyList xs) = (xs \<noteq> [])"
| "truthy (PyDict d) = (d \<noteq> [])"

definition dget :: "pydict \<Rightarrow> pystr \<Rightarrow> pyval" where
  "dget d k = (case map_of d k of None \<Rightarrow> PyNone | Some v \<Rightarrow> v)"

definition dset :: "pydict \<Rightarrow> pystr \<Rightarrow> pyval \<Rightarrow> pydict" where
  "dset d k v = AList.update k v d"

definition dupdate :: "pydict \<Rightarrow> pydict \<Rightarrow> pydict" where
  "dupdate d e = fold (\<lambda>(k, v) acc. dset acc k v) e d"

definition dsetdefault :: "pydict \<Rightarrow> pystr \<Rightarrow> pyval \<Rightarrow> pydict" where
  "dsetdefault d k v = (case map_of d k of None \<Rightarrow> dset d k v | Some _ \<Rightarrow> d)"

definition hex_digit :: "int \<Rightarrow> int" where
  "hex_digit n = (if n < 10 then 48 + n else 87 + n)"

definition repr_char :: "int \<Rightarrow> int \<Rightarrow> pystr" where
  "repr_char q c =
     (if c = q \<or> c = 92 then [92, c]
      else if c = 10 then [92, 110]
      else if c = 13 then [92, 114]
      else if c = 9 then [92, 116]
      else if c < 32 \<or> (127 \<le> c \<and> c \<le> 160) \<or> c = 173
        then [92, 120, hex_digit (c div 16), hex_digit (c mod 16)]
      else [c])"

definition str_repr :: "pystr \<Rightarrow> pystr" where
  "str_repr s =
     (let q = (if 39 \<in> set s \<and> 34 \<notin> set s then 34 else 39)
      in q # concat (map (repr_char q) s) @ [q])"

fun py_repr :: "pyval \<Rightarrow> pystr" where
  "py_repr PyNone = lit ''None''"
| "py_repr (PyBool b) = (if b then lit ''True'' else lit ''False'')"
| "py_repr (PyInt i) = int_str i"
| "py_repr (PyStr s) = str_repr s"
| "py_repr (PyList xs) = lit ''['' @ join (lit '', '') (map py_repr xs) @ lit '']''"
| "py_repr (PyDict d) =
     lit ''{''
       @ join (lit '', '') (map (\<lambda>kv. str_repr (fst kv) @ lit '': '' @ py_repr (snd kv)) d)
       @ lit ''}''"

fun py_str :: "pyval \<Rightarrow> pystr" where
  "py_str (PyStr s) = s"
| "py_str v = py_repr v"

text \<open>\<open>or_str v d\<close> is \<open>str(v or d)\<close> for a text \<open>d\<close>.\<close>

definition or_str :: "pyval \<Rightarrow> pystr \<Rightarrow> pystr" where
  "or_str v d = (if truthy v then py_str v else d)"

definition or_none :: "pystr \<Rightarrow> pyval" where
  "or_none s = (if s = [] then PyNone else PyStr s)"

fun opt_val :: "pystr option \<Rightarrow> pyval" where
  "opt_val None = PyNone"
| "opt_val (Some s) = PyStr s"

fun opt_int :: "int option \<Rightarrow> pyval" where
  "opt_int None = PyNone"
| "opt_int (Some i) = PyInt i"

text \<open>
  \<open>int(value)\<close>: integers and booleans as they are; a text is stripped, may carry a sign, and
  is a sequence of digits in which single underscores may separate digits.
\<close>

fun digits_val :: "bool \<Rightarrow> int \<Rightarrow> pystr \<Rightarrow> int option" where
  "digits_val after acc [] = (if after then Some acc else None)"
| "digits_val after acc (c # cs) =
     (if 48 \<le> c \<and> c \<le> 57 then digits_val True (10 * acc + (c - 48)) cs
      else if c = 95 \<and> after then digits_val False acc cs
      else None)"

fun parse_int :: "pystr \<Rightarrow> int option" where
  "parse_int [] = None"
| "parse_int (c # cs) =
     (if c = 45 then map_option uminus (digits_val False 0 cs)
      else if c = 43 then digits_val False 0 cs
      else digits_val False 0 (c # cs))"

fun py_int :: "pyval \<Rightarrow> int result" where
  "py_int (PyInt i) = Inr i"
| "py_int (PyBool b) = Inr (if b then 1 else 0)"
| "py_int (PyStr s) =
     (case parse_int (strip s) of Some i \<Rightarrow> Inr i | None \<Rightarrow> Inl (ValueError (lit ''invalid literal for int()'')))"
| "py_int v = Inl (TypeError (lit ''int() argument''))"

fun py_iter :: "pyval \<Rightarrow> pyval list result" where
  "py_iter (PyList xs) = Inr xs"
| "py_iter (PyStr s) = Inr (map (\<lambda>c. PyStr [c]) s)"
| "py_iter (PyDict d) = Inr (map (\<lambda>kv. PyStr (fst kv)) d)"
| "py_iter v = Inl (TypeError (lit ''object is not iterable''))"

section \<open>Results\<close>

fun bindR :: "'a result \<Rightarrow> ('a \<Rightarrow> 'b result) \<Rightarrow> 'b result" where
  "bindR (Inl e) f = Inl e"
| "bindR (Inr a) f = f a"

fun mapR :: "('a \<Rightarrow> 'b result) \<Rightarrow> 'a list \<Rightarrow> 'b list result" where
  "mapR f [] = Inr []"
| "mapR f (x # xs) = bindR (f x) (\<lambda>y. bindR (mapR f xs) (\<lambda>ys. Inr (y # ys)))"

definition dict_pair :: "pyval \<Rightarrow> (pystr \<times> pyval) result" where
  "dict_pair v =
     bindR (py_iter v) (\<lambda>xs. case xs of
         [PyStr k, x] \<Rightarrow> Inr (k, x)
       | [_, _] \<Rightarrow> Inl (TypeError (lit ''dictionary key is not a text''))
       | _ \<Rightarrow> Inl (ValueError (lit ''dictionary update sequence element'')))"

text \<open>
  \<open>dict(value)\<close>. A key that is not a text is outside the model's dictionaries (a JSON document
  has text keys only) and is reported as a \<open>TypeError\<close>.
\<close>

fun py_dict :: "pyval \<Rightarrow> pydict result" where
  "py_dict (PyDict d) = Inr d"
| "py_dict v = bindR (py_iter v) (\<lambda>xs. bindR (mapR dict_pair xs) (\<lambda>kvs. Inr (dupdate [] kvs)))"

section \<open>Programs: state and exceptions\<close>

type_synonym ('w, 'a) prog = "'w \<Rightarrow> 'a result \<times> 'w"

definition ret :: "'a \<Rightarrow> ('w, 'a) prog" where
  "ret a w = (Inr a, w)"

definition raise :: "py_exn \<Rightarrow> ('w, 'a) prog" where
  "raise e w = (Inl e, w)"

definition bindP :: "('w, 'a) prog \<Rightarrow> ('a \<Rightarrow> ('w, 'b) prog) \<Rightarrow> ('w, 'b) prog" where
  "bindP m f w = (case m w of (Inl e, w') \<Rightarrow> (Inl e, w') | (Inr a, w') \<Rightarrow> f a w')"

definition lift_result :: "'a result \<Rightarrow> ('w, 'a) prog" where
  "lift_result r w = (r, w)"

definition check :: "bool \<Rightarrow> py_exn \<Rightarrow> ('w, unit) prog" where
  "check b e = (if b then ret () else raise e)"

definition asks :: "('w \<Rightarrow> 'a) \<Rightarrow> ('w, 'a) prog" where
  "asks f w = (Inr (f w), w)"

definition change :: "('w \<Rightarrow> 'w) \<Rightarrow> ('w, unit) prog" where
  "change f w = (Inr (), f w)"

definition try_catch :: "('w, 'a) prog \<Rightarrow> (py_exn \<Rightarrow> ('w, 'a) prog) \<Rightarrow> ('w, 'a) prog" where
  "try_catch m handler w = (case m w of (Inl e, w') \<Rightarrow> handler e w' | (Inr a, w') \<Rightarrow> (Inr a, w'))"

fun mapP :: "('a \<Rightarrow> ('w, 'b) prog) \<Rightarrow> 'a list \<Rightarrow> ('w, 'b list) prog" where
  "mapP f [] = ret []"
| "mapP f (x # xs) = bindP (f x) (\<lambda>y. bindP (mapP f xs) (\<lambda>ys. ret (y # ys)))"

fun foldP :: "('a \<Rightarrow> 's \<Rightarrow> ('w, 's) prog) \<Rightarrow> 'a list \<Rightarrow> 's \<Rightarrow> ('w, 's) prog" where
  "foldP f [] s = ret s"
| "foldP f (x # xs) s = bindP (f x s) (foldP f xs)"

lemma run_basic [simp, prog_simps]:
  "ret a w = (Inr a, w)"
  "raise e w = (Inl e, w)"
  "lift_result r w = (r, w)"
  "asks f w = (Inr (f w), w)"
  "change g w = (Inr (), g w)"
  by (simp_all add: ret_def raise_def lift_result_def asks_def change_def)

lemma run_check [simp, prog_simps]:
  "check b e w = (if b then Inr () else Inl e, w)"
  by (simp add: check_def)

lemma bindP_Inr_iff:
  "bindP m f w = (Inr b, w'') \<longleftrightarrow> (\<exists>a w'. m w = (Inr a, w') \<and> f a w' = (Inr b, w''))"
  by (auto simp: bindP_def split: prod.splits sum.splits)

lemma bindP_Inl_iff:
  "bindP m f w = (Inl e, w'') \<longleftrightarrow>
     m w = (Inl e, w'') \<or> (\<exists>a w'. m w = (Inr a, w') \<and> f a w' = (Inl e, w''))"
  by (auto simp: bindP_def split: prod.splits sum.splits)

lemma bindP_run [prog_simps]:
  "m w = (Inr a, w') \<Longrightarrow> bindP m f w = f a w'"
  "m w = (Inl e, w') \<Longrightarrow> bindP m f w = (Inl e, w')"
  by (simp_all add: bindP_def)

lemma bindP_pure [simp, prog_simps]:
  "bindP (ret a) f = f a"
  "bindP (raise e) f = raise e"
  "bindP (lift_result (Inr a)) f = f a"
  "bindP (lift_result (Inl e)) f = raise e"
  "bindP (asks g) h w = h (g w) w"
  "bindP (change k) l w = l () (k w)"
  by (simp_all add: fun_eq_iff bindP_def)

lemma bindP_check [simp, prog_simps]:
  "bindP (check b e) f = (if b then f () else raise e)"
  by (simp add: fun_eq_iff bindP_def)

lemma bindR_Inr_iff: "bindR m f = Inr b \<longleftrightarrow> (\<exists>a. m = Inr a \<and> f a = Inr b)"
  by (cases m) auto

lemma mapR_Inr: "mapR f xs = Inr ys \<longleftrightarrow> list_all2 (\<lambda>x y. f x = Inr y) xs ys"
  by (induction xs arbitrary: ys) (auto simp: bindR_Inr_iff list_all2_Cons1)

lemma mapR_all_Inr: "(\<And>x. x \<in> set xs \<Longrightarrow> f x = Inr (g x)) \<Longrightarrow> mapR f xs = Inr (map g xs)"
  by (induction xs) auto

subsection \<open>Weakest preconditions\<close>

text \<open>
  \<open>wp m Q E w\<close>: run from \<open>w\<close>, the program \<open>m\<close> ends with a value and a state in \<open>Q\<close>, or with an
  exception and a state in \<open>E\<close>. The rules in \<open>wp_rules\<close> take a program apart.
\<close>

named_theorems wp_rules \<open>weakest precondition rules\<close>

definition wp ::
  "('w, 'a) prog \<Rightarrow> ('a \<Rightarrow> 'w \<Rightarrow> bool) \<Rightarrow> (py_exn \<Rightarrow> 'w \<Rightarrow> bool) \<Rightarrow> 'w \<Rightarrow> bool" where
  "wp m Q E w = (case m w of (Inr a, w') \<Rightarrow> Q a w' | (Inl e, w') \<Rightarrow> E e w')"

lemma wp_bindP [wp_rules]:
  "wp m (\<lambda>a w'. wp (f a) Q E w') E w \<Longrightarrow> wp (bindP m f) Q E w"
  by (auto simp: wp_def bindP_def split: prod.splits sum.splits)

lemma wp_ret [wp_rules]: "Q a w \<Longrightarrow> wp (ret a) Q E w"
  by (simp add: wp_def)

lemma wp_raise [wp_rules]: "E e w \<Longrightarrow> wp (raise e) Q E w"
  by (simp add: wp_def)

lemma wp_check [wp_rules]:
  "(b \<Longrightarrow> Q () w) \<Longrightarrow> (\<not> b \<Longrightarrow> E e w) \<Longrightarrow> wp (check b e) Q E w"
  by (simp add: wp_def)

lemma wp_lift_result [wp_rules]:
  "(\<And>a. r = Inr a \<Longrightarrow> Q a w) \<Longrightarrow> (\<And>e. r = Inl e \<Longrightarrow> E e w) \<Longrightarrow> wp (lift_result r) Q E w"
  by (cases r) (simp_all add: wp_def)

lemma wp_change [wp_rules]: "Q () (f w) \<Longrightarrow> wp (change f) Q E w"
  by (simp add: wp_def)

lemma wp_if [wp_rules]:
  "(b \<Longrightarrow> wp m Q E w) \<Longrightarrow> (\<not> b \<Longrightarrow> wp n Q E w) \<Longrightarrow> wp (if b then m else n) Q E w"
  by simp

lemma wp_try_catch [wp_rules]:
  "wp m Q (\<lambda>e w'. wp (h e) Q E w') w \<Longrightarrow> wp (try_catch m h) Q E w"
  by (auto simp: wp_def try_catch_def split: prod.splits sum.splits)

lemma wp_Inr: "wp m Q E w \<Longrightarrow> m w = (Inr a, w') \<Longrightarrow> Q a w'"
  by (simp add: wp_def)

lemma wp_Inl: "wp m Q E w \<Longrightarrow> m w = (Inl e, w') \<Longrightarrow> E e w'"
  by (simp add: wp_def)

lemma wp_mono:
  "wp m Q E w \<Longrightarrow> (\<And>a w'. Q a w' \<Longrightarrow> Q' a w') \<Longrightarrow> (\<And>e w'. E e w' \<Longrightarrow> E' e w') \<Longrightarrow> wp m Q' E' w"
  by (auto simp: wp_def split: prod.splits sum.splits)

section \<open>Dictionaries\<close>

lemma map_of_dset [simp]: "map_of (dset d k v) = (map_of d)(k \<mapsto> v)"
  by (simp add: dset_def update_conv')

lemma dget_dset [simp]: "dget (dset d k v) k' = (if k' = k then v else dget d k')"
  by (simp add: dget_def)

lemma dget_Cons [simp]: "dget ((k, v) # d) k' = (if k' = k then v else dget d k')"
  by (simp add: dget_def)

lemma dget_Nil [simp]: "dget [] k = PyNone"
  by (simp add: dget_def)

lemma dget_append: "dget (d @ e) k = (case map_of d k of None \<Rightarrow> dget e k | Some v \<Rightarrow> v)"
  by (simp add: dget_def map_add_def split: option.splits)

lemma distinct_dset: "distinct (map fst d) \<Longrightarrow> distinct (map fst (dset d k v))"
  by (simp add: dset_def distinct_update)

lemma map_of_dupdate: "map_of (dupdate d e) = map_of d ++ map_of (rev e)"
proof -
  have "map_of (fold (\<lambda>(k, v) acc. dset acc k v) e d) = map_of d ++ map_of (rev e)" for d
    by (induction e arbitrary: d) (auto simp: map_add_def fun_eq_iff split: option.splits)
  then show ?thesis by (simp add: dupdate_def)
qed

end
