(* ===== verification/PyTime.thy ===== *)
theory PyTime imports PyCore begin

text \<open>
  The part of \<open>datetime\<close> that the modelled code uses: points in time with an optional offset
  from UTC, the replacement of a missing offset by UTC, the conversion to UTC, and the ISO text
  and compact stamp of a UTC time. A time is its wall clock in microseconds since 1970-01-01
  together with the offset; the calendar conversion is the proleptic Gregorian one.
\<close>

record py_datetime =
  dt_wall :: int
  dt_offset :: "int option"

definition us_per_second :: int where "us_per_second = 1000000"
definition us_per_day :: int where "us_per_day = 86400 * us_per_second"

definition is_aware :: "py_datetime \<Rightarrow> bool" where
  "is_aware t \<longleftrightarrow> dt_offset t \<noteq> None"

text \<open>\<open>value.replace(tzinfo=timezone.utc)\<close> where the offset is missing.\<close>

definition aware :: "py_datetime \<Rightarrow> py_datetime" where
  "aware t = (case dt_offset t of None \<Rightarrow> t\<lparr>dt_offset := Some 0\<rparr> | Some _ \<Rightarrow> t)"

text \<open>The instant of an aware time in microseconds since the epoch.\<close>

definition instant :: "py_datetime \<Rightarrow> int" where
  "instant t = dt_wall t - (case dt_offset t of None \<Rightarrow> 0 | Some d \<Rightarrow> d)"

definition utc_of :: "int \<Rightarrow> py_datetime" where
  "utc_of i = \<lparr>dt_wall = i, dt_offset = Some 0\<rparr>"

text \<open>\<open>value.astimezone(timezone.utc)\<close> of an aware time.\<close>

definition to_utc :: "py_datetime \<Rightarrow> py_datetime" where
  "to_utc t = utc_of (instant t)"

lemma instant_aware [simp]: "instant (aware t) = instant t"
  by (simp add: instant_def aware_def split: option.splits)

lemma is_aware_aware [simp]: "is_aware (aware t)"
  by (simp add: is_aware_def aware_def split: option.splits)

lemma instant_to_utc [simp]: "instant (to_utc t) = instant t"
  by (simp add: to_utc_def utc_of_def instant_def)

lemma aware_idem [simp]: "aware (aware t) = aware t"
  by (simp add: aware_def split: option.splits)

section \<open>Calendar\<close>

text \<open>Year, month and day of a count of days since 1970-01-01.\<close>

definition civil_from_days :: "int \<Rightarrow> int \<times> int \<times> int" where
  "civil_from_days n =
     (let z = n + 719468;
          era = z div 146097;
          doe = z mod 146097;
          yoe = (doe - doe div 1460 + doe div 36524 - doe div 146096) div 365;
          doy = doe - (365 * yoe + yoe div 4 - yoe div 100);
          mp = (5 * doy + 2) div 153;
          d = doy - (153 * mp + 2) div 5 + 1;
          m = (if mp < 10 then mp + 3 else mp - 9)
      in (yoe + era * 400 + (if m \<le> 2 then 1 else 0), m, d))"

fun pad_left :: "nat \<Rightarrow> pystr \<Rightarrow> pystr" where
  "pad_left n s = replicate (n - length s) 48 @ s"

definition zpad :: "nat \<Rightarrow> int \<Rightarrow> pystr" where
  "zpad n i = pad_left n (int_str i)"

text \<open>The wall clock of \<open>isoformat()\<close>; the fraction is written when it is not zero.\<close>

definition wall_text :: "int \<Rightarrow> pystr" where
  "wall_text i =
     (let (y, m, d) = civil_from_days (i div us_per_day);
          us = i mod us_per_day;
          s = us div us_per_second;
          f = us mod us_per_second
      in zpad 4 y @ lit ''-'' @ zpad 2 m @ lit ''-'' @ zpad 2 d @ lit ''T''
         @ zpad 2 (s div 3600) @ lit '':'' @ zpad 2 ((s div 60) mod 60) @ lit '':''
         @ zpad 2 (s mod 60)
         @ (if f = 0 then [] else lit ''.'' @ zpad 6 f))"

definition isoformat_utc :: "int \<Rightarrow> pystr" where
  "isoformat_utc i = wall_text i @ lit ''+00:00''"

text \<open>The offset: hours and minutes, then seconds and microseconds where they are not zero.\<close>

definition offset_text :: "int \<Rightarrow> pystr" where
  "offset_text d =
     (let a = \<bar>d\<bar>; s = a div us_per_second; f = a mod us_per_second
      in (if d < 0 then lit ''-'' else lit ''+'') @ zpad 2 (s div 3600) @ lit '':'' @ zpad 2 ((s div 60) mod 60)
         @ (if s mod 60 = 0 \<and> f = 0 then [] else lit '':'' @ zpad 2 (s mod 60))
         @ (if f = 0 then [] else lit ''.'' @ zpad 6 f))"

definition isoformat :: "py_datetime \<Rightarrow> pystr" where
  "isoformat t = wall_text (dt_wall t) @ (case dt_offset t of None \<Rightarrow> [] | Some d \<Rightarrow> offset_text d)"

text \<open>\<open>strftime("%Y%m%d-%H%M%S")\<close> of a UTC time.\<close>

definition compact_stamp :: "int \<Rightarrow> pystr" where
  "compact_stamp i =
     (let (y, m, d) = civil_from_days (i div us_per_day);
          s = (i mod us_per_day) div us_per_second
      in zpad 4 y @ zpad 2 m @ zpad 2 d @ lit ''-''
         @ zpad 2 (s div 3600) @ zpad 2 ((s div 60) mod 60) @ zpad 2 (s mod 60))"

end
