(* ===== verification/LoopTypes.thy ===== *)
theory LoopTypes imports PyTime begin

text \<open>
  The data of the loop ledger, \<^verbatim>\<open>agent_brain/memory/loops/loop_types.py\<close> and
  \<^verbatim>\<open>loop_state.py\<close>: the status and event names, the run and event records with their
  conversions to and from JSON documents, the identifiers made from a goal, the table of
  permitted status changes and the evidence gate of completion. Random suffixes
  (\<open>uuid4().hex\<close>) and the clock are arguments.
\<close>

section \<open>Status and event names\<close>

datatype loop_status = Created | Running | Blocked | Failed | Completed | Cancelled

fun status_value :: "loop_status \<Rightarrow> pystr" where
  "status_value Created = lit ''created''"
| "status_value Running = lit ''running''"
| "status_value Blocked = lit ''blocked''"
| "status_value Failed = lit ''failed''"
| "status_value Completed = lit ''completed''"
| "status_value Cancelled = lit ''cancelled''"

datatype loop_event_type =
    Ev_created | Ev_status_changed | Ev_checkpoint_added | Ev_verification_added
  | Ev_artifact_added | Ev_human_gate_opened | Ev_human_gate_approved | Ev_human_gate_rejected
  | Ev_completed | Ev_failed | Ev_cancelled | Ev_step_added | Ev_step_changed
  | Ev_blocker_opened | Ev_blocker_resolved

fun event_value :: "loop_event_type \<Rightarrow> pystr" where
  "event_value Ev_created = lit ''created''"
| "event_value Ev_status_changed = lit ''status_changed''"
| "event_value Ev_checkpoint_added = lit ''checkpoint_added''"
| "event_value Ev_verification_added = lit ''verification_added''"
| "event_value Ev_artifact_added = lit ''artifact_added''"
| "event_value Ev_human_gate_opened = lit ''human_gate_opened''"
| "event_value Ev_human_gate_approved = lit ''human_gate_approved''"
| "event_value Ev_human_gate_rejected = lit ''human_gate_rejected''"
| "event_value Ev_completed = lit ''completed''"
| "event_value Ev_failed = lit ''failed''"
| "event_value Ev_cancelled = lit ''cancelled''"
| "event_value Ev_step_added = lit ''step_added''"
| "event_value Ev_step_changed = lit ''step_changed''"
| "event_value Ev_blocker_opened = lit ''blocker_opened''"
| "event_value Ev_blocker_resolved = lit ''blocker_resolved''"

section \<open>Runs\<close>

record loop_run =
  lr_loop_id :: pystr
  lr_created_at :: pystr
  lr_updated_at :: pystr
  lr_status :: pystr
  lr_goal :: pystr
  lr_trigger :: pydict
  lr_project :: "pystr option"
  lr_cwd :: "pystr option"
  lr_adapter :: "pystr option"
  lr_session_id :: "pystr option"
  lr_budget :: pydict
  lr_context :: pydict
  lr_metadata :: pydict
  lr_verification_plan :: "pystr list"
  lr_verification_results :: "pydict list"
  lr_checkpoints :: "pydict list"
  lr_artifacts :: "pydict list"
  lr_outcome :: "pydict option"
  lr_memory_candidates :: "pydict list"
  lr_steps :: "pydict list"
  lr_blockers :: "pydict list"
  lr_sensitivity :: pystr

definition rows_val :: "pydict list \<Rightarrow> pyval" where
  "rows_val rows = PyList (map PyDict rows)"

definition run_to_dict :: "loop_run \<Rightarrow> pydict" where
  "run_to_dict l =
    [(lit ''loop_id'', PyStr (lr_loop_id l)),
     (lit ''created_at'', PyStr (lr_created_at l)),
     (lit ''updated_at'', PyStr (lr_updated_at l)),
     (lit ''status'', PyStr (lr_status l)),
     (lit ''goal'', PyStr (lr_goal l)),
     (lit ''trigger'', PyDict (lr_trigger l)),
     (lit ''project'', opt_val (lr_project l)),
     (lit ''cwd'', opt_val (lr_cwd l)),
     (lit ''adapter'', opt_val (lr_adapter l)),
     (lit ''session_id'', opt_val (lr_session_id l)),
     (lit ''budget'', PyDict (lr_budget l)),
     (lit ''context'', PyDict (lr_context l)),
     (lit ''metadata'', PyDict (lr_metadata l)),
     (lit ''verification_plan'', PyList (map PyStr (lr_verification_plan l))),
     (lit ''verification_results'', rows_val (lr_verification_results l)),
     (lit ''checkpoints'', rows_val (lr_checkpoints l)),
     (lit ''artifacts'', rows_val (lr_artifacts l)),
     (lit ''outcome'', case lr_outcome l of None \<Rightarrow> PyNone | Some d \<Rightarrow> PyDict d),
     (lit ''memory_candidates'', rows_val (lr_memory_candidates l)),
     (lit ''steps'', rows_val (lr_steps l)),
     (lit ''blockers'', rows_val (lr_blockers l)),
     (lit ''sensitivity'', PyStr (lr_sensitivity l))]"

fun optional_str :: "pyval \<Rightarrow> pystr option" where
  "optional_str PyNone = None"
| "optional_str v = (let text = py_str v in if text = [] then None else Some text)"

text \<open>\<open>data[key]\<close> of a document, \<open>dict(data.get(key) or default)\<close> and \<open>data.get(key) or []\<close>.\<close>

definition doc_item :: "pydict \<Rightarrow> pystr \<Rightarrow> pyval result" where
  "doc_item d k = (case map_of d k of None \<Rightarrow> Inl (KeyError k) | Some v \<Rightarrow> Inr v)"

definition dict_or :: "pyval \<Rightarrow> pydict \<Rightarrow> pydict result" where
  "dict_or v d = (if truthy v then py_dict v else Inr d)"

definition iter_or_nil :: "pyval \<Rightarrow> pyval list result" where
  "iter_or_nil v = (if truthy v then py_iter v else Inr [])"

definition rows_or_nil :: "pyval \<Rightarrow> pydict list result" where
  "rows_or_nil v = bindR (iter_or_nil v) (mapR py_dict)"

definition doc_str :: "pydict \<Rightarrow> pystr \<Rightarrow> pystr result" where
  "doc_str d k = bindR (doc_item d k) (\<lambda>v. Inr (py_str v))"

definition default_trigger :: pydict where
  "default_trigger = [(lit ''kind'', PyStr (lit ''manual''))]"

definition run_of_fields :: "pydict \<Rightarrow> loop_run result" where
  "run_of_fields d =
     bindR (doc_str d (lit ''loop_id'')) (\<lambda>v_id.
     bindR (doc_str d (lit ''created_at'')) (\<lambda>v_created.
     bindR (doc_str d (lit ''updated_at'')) (\<lambda>v_updated.
     bindR (doc_str d (lit ''status'')) (\<lambda>v_status.
     bindR (doc_str d (lit ''goal'')) (\<lambda>v_goal.
     bindR (dict_or (dget d (lit ''trigger'')) default_trigger) (\<lambda>v_trigger.
     bindR (dict_or (dget d (lit ''budget'')) []) (\<lambda>v_budget.
     bindR (dict_or (dget d (lit ''context'')) []) (\<lambda>v_context.
     bindR (dict_or (dget d (lit ''metadata'')) []) (\<lambda>v_metadata.
     bindR (iter_or_nil (dget d (lit ''verification_plan''))) (\<lambda>v_plan.
     bindR (rows_or_nil (dget d (lit ''verification_results''))) (\<lambda>v_results.
     bindR (rows_or_nil (dget d (lit ''checkpoints''))) (\<lambda>v_checkpoints.
     bindR (rows_or_nil (dget d (lit ''artifacts''))) (\<lambda>v_artifacts.
     bindR (rows_or_nil (dget d (lit ''memory_candidates''))) (\<lambda>v_candidates.
     bindR (rows_or_nil (dget d (lit ''steps''))) (\<lambda>v_steps.
     bindR (rows_or_nil (dget d (lit ''blockers''))) (\<lambda>v_blockers.
     Inr \<lparr>lr_loop_id = v_id, lr_created_at = v_created, lr_updated_at = v_updated,
          lr_status = v_status, lr_goal = v_goal, lr_trigger = v_trigger,
          lr_project = optional_str (dget d (lit ''project'')),
          lr_cwd = optional_str (dget d (lit ''cwd'')),
          lr_adapter = optional_str (dget d (lit ''adapter'')),
          lr_session_id = optional_str (dget d (lit ''session_id'')),
          lr_budget = v_budget, lr_context = v_context, lr_metadata = v_metadata,
          lr_verification_plan = map py_str v_plan,
          lr_verification_results = v_results, lr_checkpoints = v_checkpoints,
          lr_artifacts = v_artifacts,
          lr_outcome = (case dget d (lit ''outcome'') of PyDict m \<Rightarrow> Some m | _ \<Rightarrow> None),
          lr_memory_candidates = v_candidates, lr_steps = v_steps, lr_blockers = v_blockers,
          lr_sensitivity = or_str (dget d (lit ''sensitivity'')) (lit ''internal'')\<rparr>))))))))))))))))"

fun run_from_dict :: "pyval \<Rightarrow> loop_run result" where
  "run_from_dict (PyDict d) = run_of_fields d"
| "run_from_dict v = Inl (TypeError (lit ''indices must be integers''))"

section \<open>Events\<close>

record loop_event =
  le_event_id :: pystr
  le_loop_id :: pystr
  le_timestamp :: pystr
  le_event_type :: pystr
  le_actor :: pystr
  le_summary :: pystr
  le_payload :: pydict

definition event_to_dict :: "loop_event \<Rightarrow> pydict" where
  "event_to_dict e =
    [(lit ''event_id'', PyStr (le_event_id e)),
     (lit ''loop_id'', PyStr (le_loop_id e)),
     (lit ''timestamp'', PyStr (le_timestamp e)),
     (lit ''event_type'', PyStr (le_event_type e)),
     (lit ''actor'', PyStr (le_actor e)),
     (lit ''summary'', PyStr (le_summary e)),
     (lit ''payload'', PyDict (le_payload e))]"

definition event_from_dict :: "pydict \<Rightarrow> loop_event result" where
  "event_from_dict d =
     bindR (doc_str d (lit ''event_id'')) (\<lambda>v_id.
     bindR (doc_str d (lit ''loop_id'')) (\<lambda>v_loop.
     bindR (doc_str d (lit ''timestamp'')) (\<lambda>v_time.
     bindR (doc_str d (lit ''event_type'')) (\<lambda>v_type.
     bindR (dict_or (dget d (lit ''payload'')) []) (\<lambda>v_payload.
     Inr \<lparr>le_event_id = v_id, le_loop_id = v_loop, le_timestamp = v_time, le_event_type = v_type,
          le_actor = or_str (dget d (lit ''actor'')) (lit ''cli''),
          le_summary = or_str (dget d (lit ''summary'')) [],
          le_payload = v_payload\<rparr>)))))"

section \<open>Identifiers\<close>

definition timestamp :: "py_datetime \<Rightarrow> pystr" where
  "timestamp value = isoformat_utc (instant (aware value))"

definition stamp :: "py_datetime \<Rightarrow> pystr" where
  "stamp value = compact_stamp (instant (aware value))"

definition slug_char :: "int \<Rightarrow> int" where
  "slug_char c = (if (97 \<le> c \<and> c \<le> 122) \<or> (48 \<le> c \<and> c \<le> 57) then c else 45)"

definition slug :: "pystr \<Rightarrow> pystr" where
  "slug value =
     (let normalized = map slug_char (lower (strip value));
          parts = filter (\<lambda>p. p \<noteq> []) (split_on 45 normalized);
          s = strip_chars [45] (take 48 (join [45] parts))
      in if s = [] then lit ''loop'' else s)"

definition make_loop_id :: "pystr \<Rightarrow> py_datetime \<Rightarrow> pystr \<Rightarrow> pystr" where
  "make_loop_id goal now hex =
     lit ''loop-'' @ stamp now @ lit ''-'' @ slug goal @ lit ''-'' @ take 8 hex"

definition make_event_id :: "py_datetime \<Rightarrow> pystr \<Rightarrow> pystr" where
  "make_event_id now hex = lit ''lev-'' @ stamp now @ lit ''-'' @ take 8 hex"

definition make_step_id :: "pystr \<Rightarrow> pystr" where
  "make_step_id hex = lit ''step-'' @ take 12 hex"

definition bounded_trigger :: "pydict option \<Rightarrow> pydict" where
  "bounded_trigger t =
     (case t of None \<Rightarrow> default_trigger
      | Some d \<Rightarrow> if d = [] then default_trigger
                  else [(lit ''kind'', PyStr (or_str (dget d (lit ''kind'')) (lit ''manual'')))])"

section \<open>Status changes and the evidence gate\<close>

definition allowed_transitions :: "(pystr \<times> pystr list) list" where
  "allowed_transitions =
    [(status_value Created, [status_value Running, status_value Blocked, status_value Failed,
        status_value Cancelled]),
     (status_value Running, [status_value Blocked, status_value Failed, status_value Completed,
        status_value Cancelled]),
     (status_value Blocked, [status_value Running, status_value Failed, status_value Cancelled]),
     (status_value Failed, [status_value Running]),
     (status_value Completed, []),
     (status_value Cancelled, [])]"

definition allowed_targets :: "(pystr \<times> pystr list) list \<Rightarrow> pystr \<Rightarrow> pystr list" where
  "allowed_targets table current = (case map_of table current of None \<Rightarrow> [] | Some ts \<Rightarrow> ts)"

definition transition_message :: "string \<Rightarrow> pystr \<Rightarrow> pystr \<Rightarrow> pystr list \<Rightarrow> pystr" where
  "transition_message what current target allowed =
     (let text = join (lit '', '') (sort allowed)
      in lit what @ str_repr current @ lit '' -> '' @ str_repr target @ lit ''; allowed: ''
         @ (if text = [] then lit ''none'' else text))"

definition validate_transition :: "pystr \<Rightarrow> pystr \<Rightarrow> unit result" where
  "validate_transition current target =
     (let allowed = allowed_targets allowed_transitions current
      in if target \<in> set allowed then Inr ()
         else Inl (LoopTransitionError
           (transition_message ''illegal loop status transition '' current target allowed)))"

definition has_text :: "pyval \<Rightarrow> bool" where
  "has_text v \<longleftrightarrow> strip (or_str v []) \<noteq> []"

definition require_completion_evidence :: "pydict list \<Rightarrow> pystr option \<Rightarrow> unit result" where
  "require_completion_evidence existing evidence =
     (let has_existing = list_ex (\<lambda>row. has_text (dget row (lit ''evidence''))) existing;
          has_passed_feedback = list_ex (\<lambda>row. has_text (dget row (lit ''feedback_id''))
            \<and> dget row (lit ''status'') = PyStr (lit ''passed'')) existing;
          has_new = strip (case evidence of None \<Rightarrow> [] | Some e \<Rightarrow> e) \<noteq> []
      in if \<not> has_existing \<and> \<not> has_passed_feedback \<and> \<not> has_new
         then Inl (LoopTransitionError (lit ''loop completion requires verification evidence''))
         else Inr ())"

section \<open>Conversion laws\<close>

text \<open>
  The runs that survive a write and a read: no optional text is empty (the reader turns an empty
  text into a missing one), the trigger is not empty and the sensitivity is set.
\<close>

definition storable :: "loop_run \<Rightarrow> bool" where
  "storable l \<longleftrightarrow>
     lr_trigger l \<noteq> [] \<and> lr_sensitivity l \<noteq> []
     \<and> lr_project l \<noteq> Some [] \<and> lr_cwd l \<noteq> Some [] \<and> lr_adapter l \<noteq> Some []
     \<and> lr_session_id l \<noteq> Some []"

lemma optional_str_opt_val [simp]: "x \<noteq> Some [] \<Longrightarrow> optional_str (opt_val x) = x"
  by (cases x) auto

lemma mapR_py_dict [simp]: "mapR py_dict (map PyDict rows) = Inr rows"
  by (induction rows) auto

lemma rows_or_nil_rows [simp]: "rows_or_nil (rows_val rows) = Inr rows"
  by (cases rows) (auto simp: rows_or_nil_def rows_val_def iter_or_nil_def)

lemma dict_or_PyDict [simp]: "dict_or (PyDict d) [] = Inr d"
  by (simp add: dict_or_def)

lemma dict_or_nonempty [simp]: "d \<noteq> [] \<Longrightarrow> dict_or (PyDict d) e = Inr d"
  by (simp add: dict_or_def)

lemma iter_or_nil_list [simp]: "iter_or_nil (PyList xs) = Inr xs"
  by (simp add: iter_or_nil_def)

lemma or_str_PyStr [simp]: "or_str (PyStr s) d = (if s = [] then d else s)"
  by (simp add: or_str_def)

lemma doc_item_Cons [simp]: "doc_item ((k, v) # d) k' = (if k' = k then Inr v else doc_item d k')"
  by (simp add: doc_item_def)

lemma run_round_trip: "storable l \<Longrightarrow> run_from_dict (PyDict (run_to_dict l)) = Inr l"
  by (cases l) (simp add: storable_def run_to_dict_def run_of_fields_def doc_str_def o_def
      split: option.splits)

lemma event_round_trip:
  "le_actor e \<noteq> [] \<Longrightarrow> event_from_dict (event_to_dict e) = Inr e"
  by (cases e) (simp add: event_to_dict_def event_from_dict_def doc_str_def)

section \<open>Tables of permitted changes\<close>

text \<open>
  The contract that the loop table and the task-step table share: some states are terminal and
  permit no change. A history of permitted changes then never leaves a terminal state.
\<close>

locale transition_table =
  fixes targets :: "'s \<Rightarrow> 's list"
    and terminal :: "'s \<Rightarrow> bool"
  assumes terminal_no_targets: "terminal s \<Longrightarrow> targets s = []"
begin

lemma terminal_stuck: "terminal s \<Longrightarrow> t \<notin> set (targets s)"
  by (simp add: terminal_no_targets)

lemma terminal_forever:
  assumes "(\<lambda>a b. a = b \<or> b \<in> set (targets a))\<^sup>*\<^sup>* s t" and "terminal s"
  shows "t = s"
  using assms by (induction rule: rtranclp_induct) (auto simp: terminal_no_targets)

end

definition loop_terminal :: "pystr \<Rightarrow> bool" where
  "loop_terminal s \<longleftrightarrow> s \<in> {status_value Completed, status_value Cancelled}"

lemma status_value_inject [simp]: "status_value a = status_value b \<longleftrightarrow> a = b"
  by (cases a; cases b) simp_all

declare status_value.simps [simp del] event_value.simps [simp del]

lemma allowed_targets_simps [simp]:
  "allowed_targets allowed_transitions (status_value Created) =
     map status_value [Running, Blocked, Failed, Cancelled]"
  "allowed_targets allowed_transitions (status_value Running) =
     map status_value [Blocked, Failed, Completed, Cancelled]"
  "allowed_targets allowed_transitions (status_value Blocked) =
     map status_value [Running, Failed, Cancelled]"
  "allowed_targets allowed_transitions (status_value Failed) = [status_value Running]"
  "allowed_targets allowed_transitions (status_value Completed) = []"
  "allowed_targets allowed_transitions (status_value Cancelled) = []"
  by (simp_all add: allowed_transitions_def allowed_targets_def)

interpretation loop_table: transition_table "allowed_targets allowed_transitions" loop_terminal
  by unfold_locales (auto simp: loop_terminal_def)

lemma validate_transition_Inr_iff:
  "validate_transition a b = Inr () \<longleftrightarrow> b \<in> set (allowed_targets allowed_transitions a)"
  by (simp add: validate_transition_def Let_def)

lemma completed_only_from_running:
  "status_value Completed \<in> set (allowed_targets allowed_transitions a) \<Longrightarrow>
     a = status_value Running"
  by (auto simp: allowed_targets_def allowed_transitions_def split: option.splits if_splits)

section \<open>Slugs\<close>

lemma set_split_on_aux: "p \<in> set (split_on_aux d acc s) \<Longrightarrow> set p \<subseteq> set acc \<union> (set s - {d})"
  by (induction d acc s arbitrary: p rule: split_on_aux.induct) (fastforce split: if_splits)+

lemma set_join: "set (join sep ps) \<subseteq> set sep \<union> \<Union> (set ` set ps)"
  by (induction sep ps rule: join.induct) auto

lemma set_strip_chars: "set (strip_chars cs s) \<subseteq> set s"
  using set_rstrip_by [of "\<lambda>c. c \<in> set cs" "dropWhile (\<lambda>c. c \<in> set cs) s"]
  by (auto simp: strip_chars_def dest: set_dropWhileD)

lemma length_rstrip_by: "length (rstrip_by p s) \<le> length s"
  using length_dropWhile_le [of p "rev s"] by (simp add: rstrip_by_def)

lemma length_strip_chars: "length (strip_chars cs s) \<le> length s"
  using length_rstrip_by length_dropWhile_le unfolding strip_chars_def by (rule le_trans)

lemma last_rstrip_by: "rstrip_by p s \<noteq> [] \<Longrightarrow> \<not> p (last (rstrip_by p s))"
  by (simp add: rstrip_by_def last_rev hd_dropWhile)

lemma hd_rstrip_by: "rstrip_by p s \<noteq> [] \<Longrightarrow> hd (rstrip_by p s) = hd s"
proof -
  assume ne: "rstrip_by p s \<noteq> []"
  have "s = rstrip_by p s @ rev (takeWhile p (rev s))"
    unfolding rstrip_by_def by (metis rev_append rev_rev_ident takeWhile_dropWhile_id)
  with ne show ?thesis by (metis hd_append2)
qed

lemma strip_chars_ends:
  assumes "strip_chars cs s \<noteq> []"
  shows "hd (strip_chars cs s) \<notin> set cs" and "last (strip_chars cs s) \<notin> set cs"
proof -
  let ?t = "dropWhile (\<lambda>c. c \<in> set cs) s"
  from assms have ne: "rstrip_by (\<lambda>c. c \<in> set cs) ?t \<noteq> []"
    by (simp add: strip_chars_def)
  then have "?t \<noteq> []"
    by (metis dropWhile.simps(1) rev.simps(1) rstrip_by_def)
  with ne show "hd (strip_chars cs s) \<notin> set cs"
    by (metis hd_dropWhile hd_rstrip_by strip_chars_def)
  from ne show "last (strip_chars cs s) \<notin> set cs"
    using last_rstrip_by [OF ne] unfolding strip_chars_def by simp
qed

definition slug_letter :: "int \<Rightarrow> bool" where
  "slug_letter c \<longleftrightarrow> (97 \<le> c \<and> c \<le> 122) \<or> (48 \<le> c \<and> c \<le> 57)"

lemma slug_char_cases: "slug_letter (slug_char c) \<or> slug_char c = 45"
  by (simp add: slug_char_def slug_letter_def)

lemma slug_body:
  fixes v
  defines "b \<equiv> strip_chars [45] (take 48 (join [45] (filter (\<lambda>p. p \<noteq> [])
      (split_on 45 (map slug_char (lower (strip v)))))))"
  shows "set b \<subseteq> {c. slug_letter c \<or> c = 45}" and "length b \<le> 48"
proof -
  let ?n = "map slug_char (lower (strip v))"
  let ?ps = "filter (\<lambda>p. p \<noteq> []) (split_on 45 ?n)"
  have n: "set ?n \<subseteq> {c. slug_letter c \<or> c = 45}"
    using slug_char_cases by auto
  have "p \<in> set ?ps \<Longrightarrow> set p \<subseteq> set ?n" for p
    using set_split_on_aux [of p 45 "[]" ?n] by (auto simp: split_on_def)
  then have "set (join [45] ?ps) \<subseteq> {45} \<union> set ?n"
    using set_join [of "[45]" ?ps] by fastforce
  then have "set (take 48 (join [45] ?ps)) \<subseteq> {c. slug_letter c \<or> c = 45}"
    using n by (auto dest: in_set_takeD)
  then show "set b \<subseteq> {c. slug_letter c \<or> c = 45}"
    unfolding b_def using set_strip_chars by (meson order_trans)
  show "length b \<le> 48"
    unfolding b_def by (rule le_trans [OF length_strip_chars]) simp
qed

text \<open>The slug that a goal contributes to a loop identifier, and so to the name of the loop's file, is
  never empty, has at most 48 characters, consists of lower-case ASCII letters, digits and
  hyphens, and neither starts nor ends with a hyphen, whatever the goal is.
\<close>

theorem slug_shape:
  "slug v \<noteq> [] \<and> length (slug v) \<le> 48
     \<and> list_all (\<lambda>c. slug_letter c \<or> c = 45) (slug v)
     \<and> hd (slug v) \<noteq> 45 \<and> last (slug v) \<noteq> 45"
proof -
  define b where "b = strip_chars [45] (take 48 (join [45] (filter (\<lambda>p. p \<noteq> [])
      (split_on 45 (map slug_char (lower (strip v)))))))"
  have slug_eq: "slug v = (if b = [] then lit ''loop'' else b)"
    by (simp add: slug_def b_def Let_def)
  have b: "set b \<subseteq> {c. slug_letter c \<or> c = 45}" "length b \<le> 48"
    unfolding b_def by (rule slug_body)+
  have ends: "b \<noteq> [] \<Longrightarrow> hd b \<noteq> 45 \<and> last b \<noteq> 45"
    using strip_chars_ends [of "[45]"] unfolding b_def by fastforce
  show ?thesis
  proof (cases "b = []")
    case True
    then show ?thesis by (simp add: slug_eq lit_def slug_letter_def)
  next
    case False
    then show ?thesis using b ends by (auto simp: slug_eq list_all_iff)
  qed
qed

end
