(* ===== verification/LoopFeedback.thy ===== *)
theory LoopFeedback imports LoopTypes begin

text \<open>
  Verification commands and their feedback, \<^verbatim>\<open>agent_brain/memory/loops/loop_feedback.py\<close>:
  the allowlist of commands behind a model of \<open>shlex.split\<close>, the bounded output summary, the
  classification of results, the feedback record with its JSON conversions and the readable
  view with the completion readiness of a contract. The digest (\<open>hashlib.sha256\<close>) and the
  decoding of bytes are arguments.
\<close>

section \<open>Splitting a command line\<close>

text \<open>
  \<open>shlex.split(command)\<close> in its POSIX mode: the state is between tokens, in a word, in a
  quotation, or after a backslash (remembering the quotation it interrupts).
\<close>

datatype shlex_mode = Between | InWord | InQuote int | AfterEscape "int option"

definition shlex_space :: "int \<Rightarrow> bool" where
  "shlex_space c \<longleftrightarrow> c \<in> {32, 9, 13, 10}"

definition shlex_quote :: "int \<Rightarrow> bool" where
  "shlex_quote c \<longleftrightarrow> c = 39 \<or> c = 34"

definition emit_token :: "pystr \<Rightarrow> bool \<Rightarrow> pystr list result \<Rightarrow> pystr list result" where
  "emit_token tok quoted rest =
     (if tok \<noteq> [] \<or> quoted then bindR rest (\<lambda>ts. Inr (rev tok # ts)) else rest)"

fun shlex_go :: "shlex_mode \<Rightarrow> pystr \<Rightarrow> bool \<Rightarrow> pystr \<Rightarrow> pystr list result" where
  "shlex_go Between tok quoted [] = Inr []"
| "shlex_go InWord tok quoted [] = emit_token tok quoted (Inr [])"
| "shlex_go (InQuote q) tok quoted [] = Inl (ValueError (lit ''No closing quotation''))"
| "shlex_go (AfterEscape e) tok quoted [] = Inl (ValueError (lit ''No escaped character''))"
| "shlex_go Between tok quoted (c # cs) =
     (if shlex_space c then shlex_go Between [] False cs
      else if c = 92 then shlex_go (AfterEscape None) [] False cs
      else if shlex_quote c then shlex_go (InQuote c) [] False cs
      else shlex_go InWord [c] False cs)"
| "shlex_go InWord tok quoted (c # cs) =
     (if shlex_space c then emit_token tok quoted (shlex_go Between [] False cs)
      else if shlex_quote c then shlex_go (InQuote c) tok quoted cs
      else if c = 92 then shlex_go (AfterEscape None) tok quoted cs
      else shlex_go InWord (c # tok) quoted cs)"
| "shlex_go (InQuote q) tok quoted (c # cs) =
     (if c = q then shlex_go InWord tok True cs
      else if c = 92 \<and> q = 34 then shlex_go (AfterEscape (Some q)) tok True cs
      else shlex_go (InQuote q) (c # tok) True cs)"
| "shlex_go (AfterEscape e) tok quoted (c # cs) =
     (case e of
        None \<Rightarrow> shlex_go InWord (c # tok) quoted cs
      | Some q \<Rightarrow>
          shlex_go (InQuote q) (if c \<noteq> 92 \<and> c \<noteq> q then c # 92 # tok else c # tok) quoted cs)"

definition shlex_split :: "pystr \<Rightarrow> pystr list result" where
  "shlex_split s = shlex_go Between [] False s"

section \<open>The command allowlist\<close>

definition allowed_command_prefixes :: "pystr list list" where
  "allowed_command_prefixes =
    [[lit ''python'', lit ''-m'', lit ''pytest''],
     [lit ''python'', lit ''-m'', lit ''compileall''],
     [lit ''python'', lit ''-m'', lit ''ruff'', lit ''check''],
     [lit ''git'', lit ''diff'', lit ''--check''],
     [lit ''git'', lit ''status'', lit ''--short''],
     [lit ''memory'', lit ''doctor''],
     [lit ''memory'', lit ''adapter'', lit ''doctor''],
     [lit ''memory'', lit ''adapter'', lit ''list''],
     [lit ''memory'', lit ''benchmark'', lit ''retrieval''],
     [lit ''memory'', lit ''benchmark'', lit ''compression''],
     [lit ''memory'', lit ''benchmark'', lit ''ml-advisory'']]"

definition shell_control_markers :: "pystr list" where
  "shell_control_markers =
    [lit ''&&'', lit ''||'', lit '';'', lit ''|'', [96], lit ''$('', lit ''>'', lit ''<'']"

record command_validation =
  cv_allowed :: bool
  cv_argv :: "pystr list"
  cv_reason :: "pystr option"

definition validate_verification_command :: "pystr \<Rightarrow> command_validation" where
  "validate_verification_command command =
     (if list_ex (\<lambda>marker. contains marker command) shell_control_markers
      then \<lparr>cv_allowed = False, cv_argv = [], cv_reason = Some (lit ''shell_control'')\<rparr>
      else case shlex_split command of
        Inl _ \<Rightarrow> \<lparr>cv_allowed = False, cv_argv = [], cv_reason = Some (lit ''parse_error'')\<rparr>
      | Inr argv \<Rightarrow>
          if argv = [] then \<lparr>cv_allowed = False, cv_argv = [], cv_reason = Some (lit ''empty'')\<rparr>
          else if list_ex (\<lambda>p. take (length p) argv = p) allowed_command_prefixes
          then \<lparr>cv_allowed = True, cv_argv = argv, cv_reason = None\<rparr>
          else \<lparr>cv_allowed = False, cv_argv = argv, cv_reason = Some (lit ''not_allowlisted'')\<rparr>)"

section \<open>Output summaries and classification\<close>

record output_summary =
  os_text :: pystr
  os_sha256 :: pystr
  os_line_count :: int
  os_truncated :: bool

datatype raw_output = NoOutput | OutText pystr | OutBytes "int list"

definition output_value :: "(int list \<Rightarrow> pystr) \<Rightarrow> raw_output \<Rightarrow> pystr" where
  "output_value decode out =
     (case out of NoOutput \<Rightarrow> [] | OutText t \<Rightarrow> t | OutBytes b \<Rightarrow> decode b)"

definition truncated_marker :: pystr where
  "truncated_marker = [10] @ lit ''... [truncated] ...'' @ [10]"

definition summarize_output ::
  "(pystr \<Rightarrow> pystr) \<Rightarrow> (int list \<Rightarrow> pystr) \<Rightarrow> raw_output \<Rightarrow> nat \<Rightarrow> output_summary" where
  "summarize_output sha decode out max_chars =
     (let value = output_value decode out;
          digest = sha value;
          stripped = strip value;
          line_count = int (length (splitlines value))
      in if stripped = [] then \<lparr>os_text = lit ''no output'', os_sha256 = digest,
             os_line_count = line_count, os_truncated = False\<rparr>
         else if length stripped \<le> max_chars then \<lparr>os_text = stripped, os_sha256 = digest,
             os_line_count = line_count, os_truncated = False\<rparr>
         else let half = max 1 (max_chars div 2)
           in \<lparr>os_text = take half stripped @ truncated_marker @ last_n half stripped,
               os_sha256 = digest, os_line_count = line_count, os_truncated = True\<rparr>)"

definition classify_feedback ::
  "int option \<Rightarrow> pystr option \<Rightarrow> bool \<Rightarrow> bool \<Rightarrow> pystr \<times> pystr" where
  "classify_feedback exit_code invalid_reason timed_out runner_error =
     (if timed_out then (lit ''timed_out'', lit ''timeout'')
      else if invalid_reason \<noteq> None \<and> invalid_reason \<noteq> Some []
        then (lit ''blocked'', lit ''invalid_action'')
      else if runner_error then (lit ''blocked'', lit ''runner_error'')
      else if exit_code = Some 0 then (lit ''passed'', lit ''successful_execution'')
      else (lit ''failed'', lit ''verification_failed''))"

section \<open>Feedback records\<close>

record loop_feedback =
  lf_feedback_id :: pystr
  lf_timestamp :: pystr
  lf_command :: pystr
  lf_cwd :: "pystr option"
  lf_status :: pystr
  lf_category :: pystr
  lf_exit_code :: "int option"
  lf_duration_ms :: int
  lf_stdout_summary :: pystr
  lf_stderr_summary :: pystr
  lf_stdout_sha256 :: pystr
  lf_stderr_sha256 :: pystr
  lf_stdout_lines :: int
  lf_stderr_lines :: int
  lf_truncated :: bool
  lf_artifact :: "pystr option"
  lf_verifier_id :: "pystr option"
  lf_contract_id :: "pystr option"

definition feedback_to_dict :: "loop_feedback \<Rightarrow> pydict" where
  "feedback_to_dict f =
    [(lit ''feedback_id'', PyStr (lf_feedback_id f)),
     (lit ''timestamp'', PyStr (lf_timestamp f)),
     (lit ''command'', PyStr (lf_command f)),
     (lit ''cwd'', opt_val (lf_cwd f)),
     (lit ''status'', PyStr (lf_status f)),
     (lit ''category'', PyStr (lf_category f)),
     (lit ''exit_code'', opt_int (lf_exit_code f)),
     (lit ''duration_ms'', PyInt (lf_duration_ms f)),
     (lit ''stdout_summary'', PyStr (lf_stdout_summary f)),
     (lit ''stderr_summary'', PyStr (lf_stderr_summary f)),
     (lit ''stdout_sha256'', PyStr (lf_stdout_sha256 f)),
     (lit ''stderr_sha256'', PyStr (lf_stderr_sha256 f)),
     (lit ''stdout_lines'', PyInt (lf_stdout_lines f)),
     (lit ''stderr_lines'', PyInt (lf_stderr_lines f)),
     (lit ''truncated'', PyBool (lf_truncated f)),
     (lit ''artifact'', opt_val (lf_artifact f)),
     (lit ''verifier_id'', opt_val (lf_verifier_id f)),
     (lit ''contract_id'', opt_val (lf_contract_id f))]"

fun some_str :: "pyval \<Rightarrow> pystr option" where
  "some_str PyNone = None"
| "some_str v = Some (py_str v)"

definition int_or_zero :: "pyval \<Rightarrow> int result" where
  "int_or_zero v = (if truthy v then py_int v else Inr 0)"

fun some_int :: "pyval \<Rightarrow> int option result" where
  "some_int PyNone = Inr None"
| "some_int v = bindR (py_int v) (\<lambda>i. Inr (Some i))"

definition feedback_from_dict :: "pydict \<Rightarrow> loop_feedback result" where
  "feedback_from_dict d =
     bindR (doc_str d (lit ''feedback_id'')) (\<lambda>v_id.
     bindR (doc_str d (lit ''timestamp'')) (\<lambda>v_time.
     bindR (doc_str d (lit ''command'')) (\<lambda>v_command.
     bindR (doc_str d (lit ''status'')) (\<lambda>v_status.
     bindR (doc_str d (lit ''category'')) (\<lambda>v_category.
     bindR (some_int (dget d (lit ''exit_code''))) (\<lambda>v_exit.
     bindR (int_or_zero (dget d (lit ''duration_ms''))) (\<lambda>v_duration.
     bindR (int_or_zero (dget d (lit ''stdout_lines''))) (\<lambda>v_out_lines.
     bindR (int_or_zero (dget d (lit ''stderr_lines''))) (\<lambda>v_err_lines.
     Inr \<lparr>lf_feedback_id = v_id, lf_timestamp = v_time, lf_command = v_command,
          lf_cwd = some_str (dget d (lit ''cwd'')),
          lf_status = v_status, lf_category = v_category, lf_exit_code = v_exit,
          lf_duration_ms = v_duration,
          lf_stdout_summary = or_str (dget d (lit ''stdout_summary'')) [],
          lf_stderr_summary = or_str (dget d (lit ''stderr_summary'')) [],
          lf_stdout_sha256 = or_str (dget d (lit ''stdout_sha256'')) [],
          lf_stderr_sha256 = or_str (dget d (lit ''stderr_sha256'')) [],
          lf_stdout_lines = v_out_lines, lf_stderr_lines = v_err_lines,
          lf_truncated = truthy (dget d (lit ''truncated'')),
          lf_artifact = some_str (dget d (lit ''artifact'')),
          lf_verifier_id = some_str (dget d (lit ''verifier_id'')),
          lf_contract_id = some_str (dget d (lit ''contract_id''))\<rparr>)))))))))"

definition make_feedback_id :: "py_datetime \<Rightarrow> pystr \<Rightarrow> pystr" where
  "make_feedback_id now hex = lit ''lfb-'' @ stamp now @ lit ''-'' @ take 8 hex"

record verification_summary =
  vs_loop_id :: pystr
  vs_attempted :: int
  vs_passed :: int
  vs_failed :: int
  vs_blocked :: int
  vs_timed_out :: int
  vs_feedback :: "loop_feedback list"

definition summary_to_dict :: "verification_summary \<Rightarrow> pydict" where
  "summary_to_dict v =
    [(lit ''loop_id'', PyStr (vs_loop_id v)),
     (lit ''attempted'', PyInt (vs_attempted v)),
     (lit ''passed'', PyInt (vs_passed v)),
     (lit ''failed'', PyInt (vs_failed v)),
     (lit ''blocked'', PyInt (vs_blocked v)),
     (lit ''timed_out'', PyInt (vs_timed_out v)),
     (lit ''feedback'', rows_val (map feedback_to_dict (vs_feedback v)))]"

section \<open>The feedback view\<close>

fun feedback_rows :: "pydict list \<Rightarrow> loop_feedback list result" where
  "feedback_rows [] = Inr []"
| "feedback_rows (row # rows) =
     (if truthy (dget row (lit ''feedback_id''))
      then bindR (feedback_from_dict row) (\<lambda>f. bindR (feedback_rows rows) (\<lambda>fs. Inr (f # fs)))
      else feedback_rows rows)"

definition one_line :: "pystr \<Rightarrow> pystr" where
  "one_line value =
     (let s = join (lit '' / '') (map strip (filter (\<lambda>part. strip part \<noteq> []) (splitlines value)))
      in if s = [] then lit ''no output'' else s)"

text \<open>Rows of a list-valued metadata entry that are dictionaries.\<close>

fun dict_rows :: "pyval \<Rightarrow> pydict list" where
  "dict_rows (PyList xs) = List.map_filter (\<lambda>v. case v of PyDict d \<Rightarrow> Some d | _ \<Rightarrow> None) xs"
| "dict_rows v = []"

definition required_verifiers :: "pydict \<Rightarrow> pydict list" where
  "required_verifiers metadata =
     filter (\<lambda>row. truthy (dget row (lit ''required'')))
       (dict_rows (dget metadata (lit ''contract_verifiers'')))"

definition open_human_gate_ids :: "pydict \<Rightarrow> pystr list" where
  "open_human_gate_ids metadata =
     map (\<lambda>row. or_str (dget row (lit ''id'')) [])
       (filter (\<lambda>row. truthy (dget row (lit ''id'')))
         (dict_rows (dget metadata (lit ''open_human_gates''))))"

fun latest_by :: "(loop_feedback \<Rightarrow> pystr option) \<Rightarrow> loop_feedback list \<Rightarrow> pystr \<Rightarrow> loop_feedback option" where
  "latest_by key [] k = None"
| "latest_by key (f # fs) k =
     (case latest_by key fs k of
        Some g \<Rightarrow> Some g
      | None \<Rightarrow> if key f = Some k then Some f else None)"

definition by_id :: "loop_feedback \<Rightarrow> pystr option" where
  "by_id f = (case lf_verifier_id f of None \<Rightarrow> None | Some i \<Rightarrow> if i = [] then None else Some i)"

definition by_command :: "loop_feedback \<Rightarrow> pystr option" where
  "by_command f = Some (lf_command f)"

definition verifier_feedback :: "loop_feedback list \<Rightarrow> pydict \<Rightarrow> loop_feedback option" where
  "verifier_feedback feedback verifier =
     (case latest_by by_id feedback (or_str (dget verifier (lit ''id'')) []) of
        Some f \<Rightarrow> Some f
      | None \<Rightarrow> latest_by by_command feedback (or_str (dget verifier (lit ''command'')) []))"

definition verifier_label :: "pydict \<Rightarrow> pystr" where
  "verifier_label verifier =
     (let i = or_str (dget verifier (lit ''id'')) []
      in if i = [] then or_str (dget verifier (lit ''command'')) [] else i)"

definition missing_verifiers :: "loop_feedback list \<Rightarrow> pydict list \<Rightarrow> pystr list" where
  "missing_verifiers feedback required =
     map verifier_label (filter (\<lambda>v. verifier_feedback feedback v = None) required)"

definition failed_verifiers :: "loop_feedback list \<Rightarrow> pydict list \<Rightarrow> pystr list" where
  "failed_verifiers feedback required =
     map verifier_label (filter (\<lambda>v. case verifier_feedback feedback v of
         None \<Rightarrow> False | Some f \<Rightarrow> lf_status f \<noteq> lit ''passed'') required)"

definition contract_readiness :: "loop_feedback list \<Rightarrow> pydict \<Rightarrow> pystr list" where
  "contract_readiness feedback metadata =
     (let required = required_verifiers metadata;
          missing = missing_verifiers feedback required;
          failed = failed_verifiers feedback required;
          open_gates = open_human_gate_ids metadata
      in if required = [] then []
         else if missing = [] \<and> failed = [] \<and> open_gates = [] then
           [lit ''completion_readiness: ready'', lit ''stop_conditions:'',
            lit ''- all_required_verifiers_pass: satisfied'',
            lit ''- no_open_human_gate: satisfied'']
         else
           [lit ''completion_readiness: blocked'', lit ''stop_conditions:'',
            (if missing = [] \<and> failed = [] then lit ''- all_required_verifiers_pass: satisfied''
             else lit ''- all_required_verifiers_pass: unsatisfied'')]
           @ (if missing = [] then []
              else [lit ''- missing_required_verifiers: '' @ join (lit '', '') missing])
           @ (if failed = [] then []
              else [lit ''- failed_required_verifiers: '' @ join (lit '', '') failed])
           @ (if open_gates = [] then []
              else [lit ''- no_open_human_gate: unsatisfied'',
                    lit ''- open_human_gates: '' @ join (lit '', '') open_gates]))"

text \<open>The slice \<open>xs[-limit:]\<close> for any integer limit.\<close>

definition last_slice :: "int \<Rightarrow> 'a list \<Rightarrow> 'a list" where
  "last_slice limit xs = (if limit < 0 then drop (nat (- limit)) xs else last_n (nat limit) xs)"

definition feedback_line :: "loop_feedback \<Rightarrow> pystr" where
  "feedback_line item =
     (let output = (if lf_stdout_summary item \<noteq> lit ''no output'' then lf_stdout_summary item
                    else lf_stderr_summary item);
          verifier = (case lf_verifier_id item of None \<Rightarrow> [] | Some i \<Rightarrow>
                        if i = [] then [] else lit '' ['' @ i @ lit '']'')
      in lit ''- '' @ lf_category item @ verifier @ lit '': '' @ lf_command item @ lit '' -> ''
         @ one_line output)"

definition format_feedback_view :: "pystr \<Rightarrow> pydict list \<Rightarrow> int \<Rightarrow> pydict \<Rightarrow> pystr result" where
  "format_feedback_view loop_id rows limit metadata =
     bindR (feedback_rows rows) (\<lambda>all_rows.
       let feedback = last_slice limit all_rows;
           head = lit ''loop '' @ loop_id @ lit '' feedback:'';
           readiness = contract_readiness feedback metadata
       in if feedback = [] then
            Inr (head @ [10] @ lit ''- no structured feedback recorded'')
          else Inr (join [10] (head # map feedback_line feedback
            @ (if readiness \<noteq> [] then readiness
               else if list_all (\<lambda>f. lf_status f = lit ''passed'') feedback then
                 [lit ''next: evidence is strong enough for completion if implementation scope matches these checks.'']
               else if list_ex (\<lambda>f. lf_status f \<in> {lit ''failed'', lit ''timed_out'', lit ''blocked''}) feedback then
                 [lit ''next: inspect failed or blocked feedback before completing this loop.'']
               else []))))"

section \<open>Facts\<close>

lemma shlex_go_word:
  "list_all (\<lambda>c. \<not> shlex_space c \<and> \<not> shlex_quote c \<and> c \<noteq> 92) w \<Longrightarrow>
     shlex_go InWord tok quoted (w @ rest) = shlex_go InWord (rev w @ tok) quoted rest"
  by (induction w arbitrary: tok) auto

definition plain_word :: "pystr \<Rightarrow> bool" where
  "plain_word w \<longleftrightarrow>
     w \<noteq> [] \<and> list_all (\<lambda>c. \<not> shlex_space c \<and> \<not> shlex_quote c \<and> c \<noteq> 92) w"

lemma shlex_go_plain_word:
  assumes "plain_word w"
  shows "shlex_go Between [] False (w @ rest) = shlex_go InWord (rev w) False rest"
proof -
  from assms obtain c cs where w: "w = c # cs"
    and c: "\<not> shlex_space c" "\<not> shlex_quote c" "c \<noteq> 92"
    and cs: "list_all (\<lambda>c. \<not> shlex_space c \<and> \<not> shlex_quote c \<and> c \<noteq> 92) cs"
    by (cases w) (auto simp: plain_word_def)
  from c have "shlex_go Between [] False (w @ rest) = shlex_go InWord [c] False (cs @ rest)"
    by (simp add: w)
  also have "\<dots> = shlex_go InWord (rev cs @ [c]) False rest"
    using cs by (rule shlex_go_word)
  finally show ?thesis by (simp add: w)
qed

lemma shlex_split_words:
  "list_all plain_word ws \<Longrightarrow> shlex_split (join [32] ws) = Inr ws"
proof -
  assume "list_all plain_word ws"
  then have "shlex_go Between [] False (join [32] ws) = Inr ws"
  proof (induction "[32::int]" ws rule: join.induct)
    case 1
    show ?case by simp
  next
    case (2 x)
    then show ?case
      using shlex_go_plain_word [of x "[]"] by (simp add: emit_token_def plain_word_def)
  next
    case (3 x y ys)
    then have "shlex_go Between [] False (join [32] (x # y # ys))
        = shlex_go InWord (rev x) False (32 # join [32] (y # ys))"
      using shlex_go_plain_word [of x "32 # join [32] (y # ys)"] by simp
    then show ?case
      using 3 by (simp add: shlex_space_def emit_token_def plain_word_def)
  qed
  then show ?thesis by (simp add: shlex_split_def)
qed

lemma take_eq_prefix: "take (length p) xs = p \<longleftrightarrow> prefix p xs"
  by (metis append_eq_conv_conj prefix_def)

text \<open>A verification command is accepted exactly when it contains none of the shell control
  markers, splits without an error, and its argument vector begins with one of the allowlisted
  command prefixes. The argument vector that is run is then the split command.
\<close>

theorem command_allowed_iff:
  "cv_allowed (validate_verification_command c) \<longleftrightarrow>
     \<not> list_ex (\<lambda>m. sublist m c) shell_control_markers
     \<and> (\<exists>p. list_ex ((=) p) allowed_command_prefixes
          \<and> (\<exists>argv. shlex_split c = Inr argv \<and> prefix p argv
               \<and> cv_argv (validate_verification_command c) = argv))"
proof (cases "shlex_split c")
  case (Inl e)
  then show ?thesis by (simp add: validate_verification_command_def)
next
  case (Inr argv)
  have "[] \<notin> set allowed_command_prefixes"
    by (simp add: allowed_command_prefixes_def)
  then have "list_ex (\<lambda>p. prefix p argv) allowed_command_prefixes \<Longrightarrow> argv \<noteq> []"
    by (auto simp: list_ex_iff)
  with Inr show ?thesis
    by (auto simp: validate_verification_command_def contains_sublist take_eq_prefix list_ex_iff)
qed

lemma allowed_reason:
  "cv_allowed (validate_verification_command c) \<longleftrightarrow>
     cv_reason (validate_verification_command c) = None"
  by (auto simp: validate_verification_command_def split: sum.splits)

text \<open>Reading back a stored feedback row gives the record that was stored, for every record.
\<close>

theorem feedback_round_trip: "feedback_from_dict (feedback_to_dict f) = Inr f"
proof -
  have [simp]: "some_str (opt_val x) = x" "some_int (opt_int y) = Inr y"
    "int_or_zero (PyInt i) = Inr i" for x y i
    by (cases x, auto, cases y, auto simp: int_or_zero_def)
  show ?thesis
    by (cases f) (simp add: feedback_to_dict_def feedback_from_dict_def doc_str_def)
qed

text \<open>The bounded output summary: the flag says exactly whether the stripped text is longer
  than the limit, an unflagged text is kept whole, a flagged one is the head and the tail of
  the stripped text around the marker, and the text is at most the marker longer than the limit.
\<close>

theorem summarize_output_bounds:
  assumes "2 \<le> max_chars"
  shows "(os_truncated (summarize_output sha dec out max_chars)
             \<longleftrightarrow> max_chars < length (strip (output_value dec out)))
         \<and> length (os_text (summarize_output sha dec out max_chars))
             \<le> max_chars + length truncated_marker
         \<and> os_text (summarize_output sha dec out max_chars) \<noteq> []"
  using assms
  by (auto simp: summarize_output_def Let_def length_last_n truncated_marker_def)

theorem summarize_output_bounds_witness:
  "os_truncated (summarize_output id id (OutText (lit ''abcdefg'')) 4)"
  using summarize_output_bounds [of 4 id id "OutText (lit ''abcdefg'')"]
  by (simp add: output_value_def strip_def lstrip_def rstrip_by_def lit_def is_space_def)

lemma latest_by_Some:
  "latest_by key fs k = Some f \<longleftrightarrow>
     (\<exists>pre post. fs = pre @ f # post \<and> key f = Some k \<and> (\<forall>g \<in> set post. key g \<noteq> Some k))"
proof (induction fs)
  case (Cons g fs)
  have none: "latest_by key fs k = None \<longleftrightarrow> (\<forall>g \<in> set fs. key g \<noteq> Some k)" for fs
    by (induction fs) (auto split: option.splits)
  show ?case
  proof (cases "latest_by key fs k")
    case None
    then have *: "\<forall>h \<in> set fs. key h \<noteq> Some k" by (simp add: none)
    show ?thesis
    proof
      assume "latest_by key (g # fs) k = Some f"
      then have "g = f \<and> key f = Some k" using None by (simp split: if_splits)
      then show "\<exists>pre post. g # fs = pre @ f # post \<and> key f = Some k \<and> (\<forall>g \<in> set post. key g \<noteq> Some k)"
        using * by (metis append_Nil)
    next
      assume "\<exists>pre post. g # fs = pre @ f # post \<and> key f = Some k \<and> (\<forall>g \<in> set post. key g \<noteq> Some k)"
      then obtain pre post where eq: "g # fs = pre @ f # post" and k: "key f = Some k" by blast
      with * have "pre = []" by (cases pre) auto
      with eq k None show "latest_by key (g # fs) k = Some f" by simp
    qed
  next
    case (Some f')
    then show ?thesis
      using Cons.IH by (auto simp: Cons_eq_append_conv) (metis none option.distinct(1))+
  qed
qed simp

lemma latest_by_None: "latest_by key fs k = None \<longleftrightarrow> (\<forall>g \<in> set fs. key g \<noteq> Some k)"
  by (induction fs) (auto split: option.splits)

definition verifier_passed :: "loop_feedback list \<Rightarrow> pydict \<Rightarrow> bool" where
  "verifier_passed feedback v \<longleftrightarrow>
     (case verifier_feedback feedback v of None \<Rightarrow> False | Some f \<Rightarrow> lf_status f = lit ''passed'')"

text \<open>The view reports a contract as ready exactly when it has required verifiers, the latest
  feedback of each of them says passed, and no human gate is open.
\<close>

theorem readiness_iff:
  "(\<exists>rest. contract_readiness feedback metadata = lit ''completion_readiness: ready'' # rest) \<longleftrightarrow>
     required_verifiers metadata \<noteq> []
     \<and> list_all (verifier_passed feedback) (required_verifiers metadata)
     \<and> open_human_gate_ids metadata = []"
proof -
  have split: "list_all (verifier_passed feedback) vs \<longleftrightarrow>
      missing_verifiers feedback vs = [] \<and> failed_verifiers feedback vs = []" for vs
    by (induction vs) (auto simp: missing_verifiers_def failed_verifiers_def verifier_passed_def
        split: option.splits)
  show ?thesis
    by (auto simp: contract_readiness_def Let_def split)
qed

end
