(* ===== verification/LoopContract.thy ===== *)
theory LoopContract imports LoopFeedback begin

text \<open>
  Loop contracts, \<^verbatim>\<open>agent_brain/memory/loops/loop_contract.py\<close> and
  \<^verbatim>\<open>loop_contract_validator.py\<close>: the contract records, the parser from the loaded
  document and the validator. The document is the value that \<open>json.loads\<close> or
  \<open>yaml.safe_load\<close> returned for the file; fractional numbers are not values of the model.
\<close>

section \<open>Contracts\<close>

definition schema_version :: pystr where
  "schema_version = lit ''loop-contract/v1''"

definition default_feedback_categories :: "pystr list" where
  "default_feedback_categories =
    [lit ''successful_execution'', lit ''verification_failed'', lit ''invalid_action'',
     lit ''timeout'', lit ''runner_error'']"

definition default_retain_policy :: pydict where
  "default_retain_policy =
    [(lit ''stdout'', PyStr (lit ''bounded_summary'')),
     (lit ''stderr'', PyStr (lit ''bounded_summary'')),
     (lit ''raw_output'', PyStr (lit ''artifact_path_only''))]"

record loop_goal =
  lg_statement :: pystr
  lg_success :: "pystr list"
  lg_failure :: "pystr list"

record loop_scope =
  ls_project :: "pystr option"
  ls_repo :: "pystr option"
  ls_branch_policy :: pystr
  ls_allowed_paths :: "pystr list"
  ls_protected_paths :: "pystr list"

record loop_state_policy =
  sp_memory_queries :: "pystr list"
  sp_required_snapshots :: "pystr list"
  sp_evidence_refs :: "pystr list"

record loop_action =
  la_id :: pystr
  la_kind :: pystr
  la_risk :: pystr
  la_command :: "pystr option"
  la_paths :: "pystr list"
  la_requires_gate :: "pystr option"

record loop_verifier_spec =
  lv_id :: pystr
  lv_command :: pystr
  lv_required :: bool
  lv_timeout_seconds :: "int option"
  lv_cwd :: "pystr option"
  lv_success_pattern :: "pystr option"

record loop_feedback_policy =
  fp_classify :: "pystr list"
  fp_retain :: pydict

record loop_budget =
  lb_max_iterations :: int
  lb_max_verifier_runs :: int
  lb_timeout_per_action_seconds :: int
  lb_max_parallel_agents :: int
  lb_token_budget_hint :: "int option"

record loop_stop_conditions =
  sc_complete_when :: "pystr list"
  sc_fail_when :: "pyval list"

record loop_human_gate =
  hg_id :: pystr
  hg_trigger :: pystr
  hg_reason :: pystr

record loop_record_policy =
  rp_runtime_events :: pystr
  rp_memory_candidates :: pystr
  rp_artifacts :: pystr
  rp_include_contract_digest :: bool

record loop_contract =
  lc_schema_version :: pystr
  lc_id :: pystr
  lc_title :: pystr
  lc_goal :: loop_goal
  lc_scope :: loop_scope
  lc_state :: loop_state_policy
  lc_actions :: "loop_action list"
  lc_verifiers :: "loop_verifier_spec list"
  lc_feedback :: loop_feedback_policy
  lc_budget :: loop_budget
  lc_stop_conditions :: loop_stop_conditions
  lc_human_gates :: "loop_human_gate list"
  lc_record_policy :: loop_record_policy
  lc_source_path :: "pystr option"

section \<open>Parsing\<close>

fun mapping :: "pyval \<Rightarrow> pydict" where
  "mapping (PyDict d) = d"
| "mapping v = []"

fun sequence :: "pyval \<Rightarrow> pyval list" where
  "sequence (PyList xs) = xs"
| "sequence v = []"

definition str_list :: "pyval \<Rightarrow> pystr list" where
  "str_list v = map py_str (sequence v)"

fun optional_int :: "pyval \<Rightarrow> int option result" where
  "optional_int PyNone = Inr None"
| "optional_int v = bindR (py_int v) (\<lambda>i. Inr (Some i))"

fun int_or_default :: "pyval \<Rightarrow> int \<Rightarrow> int result" where
  "int_or_default PyNone d = Inr d"
| "int_or_default v d = py_int v"

definition parse_goal :: "pydict \<Rightarrow> loop_goal" where
  "parse_goal data = \<lparr>lg_statement = or_str (dget data (lit ''statement'')) [],
     lg_success = str_list (dget data (lit ''success'')),
     lg_failure = str_list (dget data (lit ''failure''))\<rparr>"

definition parse_scope :: "pydict \<Rightarrow> loop_scope" where
  "parse_scope data = \<lparr>ls_project = optional_str (dget data (lit ''project'')),
     ls_repo = optional_str (dget data (lit ''repo'')),
     ls_branch_policy = or_str (dget data (lit ''branch_policy'')) (lit ''current''),
     ls_allowed_paths = str_list (dget data (lit ''allowed_paths'')),
     ls_protected_paths = str_list (dget data (lit ''protected_paths''))\<rparr>"

definition parse_state :: "pydict \<Rightarrow> loop_state_policy" where
  "parse_state data = \<lparr>sp_memory_queries = str_list (dget data (lit ''memory_queries'')),
     sp_required_snapshots = str_list (dget data (lit ''required_snapshots'')),
     sp_evidence_refs = str_list (dget data (lit ''evidence_refs''))\<rparr>"

definition parse_action :: "pydict \<Rightarrow> loop_action" where
  "parse_action data = \<lparr>la_id = or_str (dget data (lit ''id'')) [],
     la_kind = or_str (dget data (lit ''kind'')) [],
     la_risk = or_str (dget data (lit ''risk'')) [],
     la_command = optional_str (dget data (lit ''command'')),
     la_paths = str_list (dget data (lit ''paths'')),
     la_requires_gate = optional_str (dget data (lit ''requires_gate''))\<rparr>"

definition parse_verifier :: "pydict \<Rightarrow> loop_verifier_spec result" where
  "parse_verifier data =
     bindR (optional_int (dget data (lit ''timeout_seconds''))) (\<lambda>timeout.
     Inr \<lparr>lv_id = or_str (dget data (lit ''id'')) [],
       lv_command = or_str (dget data (lit ''command'')) [],
       lv_required = truthy (dget data (lit ''required'')),
       lv_timeout_seconds = timeout,
       lv_cwd = optional_str (dget data (lit ''cwd'')),
       lv_success_pattern = optional_str (dget data (lit ''success_pattern''))\<rparr>)"

definition parse_feedback :: "pydict \<Rightarrow> loop_feedback_policy" where
  "parse_feedback data =
     (let retain = dupdate default_retain_policy
            (map (\<lambda>kv. (fst kv, PyStr (py_str (snd kv)))) (mapping (dget data (lit ''retain''))));
          classify = str_list (dget data (lit ''classify''))
      in \<lparr>fp_classify = (if classify = [] then default_feedback_categories else classify),
          fp_retain = retain\<rparr>)"

definition parse_budget :: "pydict \<Rightarrow> loop_budget result" where
  "parse_budget data =
     bindR (int_or_default (dget data (lit ''max_iterations'')) 3) (\<lambda>iterations.
     bindR (int_or_default (dget data (lit ''max_verifier_runs'')) 10) (\<lambda>runs.
     bindR (int_or_default (dget data (lit ''timeout_per_action_seconds'')) 60) (\<lambda>timeout.
     bindR (int_or_default (dget data (lit ''max_parallel_agents'')) 1) (\<lambda>agents.
     bindR (optional_int (dget data (lit ''token_budget_hint''))) (\<lambda>hint.
     Inr \<lparr>lb_max_iterations = iterations, lb_max_verifier_runs = runs,
       lb_timeout_per_action_seconds = timeout, lb_max_parallel_agents = agents,
       lb_token_budget_hint = hint\<rparr>)))))"

definition parse_stop_conditions :: "pydict \<Rightarrow> loop_stop_conditions" where
  "parse_stop_conditions data = \<lparr>sc_complete_when = str_list (dget data (lit ''complete_when'')),
     sc_fail_when = sequence (dget data (lit ''fail_when''))\<rparr>"

definition parse_human_gate :: "pydict \<Rightarrow> loop_human_gate" where
  "parse_human_gate data = \<lparr>hg_id = or_str (dget data (lit ''id'')) [],
     hg_trigger = or_str (dget data (lit ''trigger'')) [],
     hg_reason = or_str (dget data (lit ''reason'')) []\<rparr>"

definition parse_record_policy :: "pydict \<Rightarrow> loop_record_policy" where
  "parse_record_policy data =
     \<lparr>rp_runtime_events = or_str (dget data (lit ''runtime_events'')) (lit ''redacted''),
      rp_memory_candidates = or_str (dget data (lit ''memory_candidates'')) (lit ''review_only''),
      rp_artifacts = or_str (dget data (lit ''artifacts'')) (lit ''paths_only''),
      rp_include_contract_digest =
        (case map_of data (lit ''include_contract_digest'') of None \<Rightarrow> True | Some v \<Rightarrow> truthy v)\<rparr>"

definition parse_contract_fields :: "pystr \<Rightarrow> pydict \<Rightarrow> loop_contract result" where
  "parse_contract_fields path data =
     bindR (mapR (\<lambda>v. parse_verifier (mapping v)) (sequence (dget data (lit ''verifiers''))))
       (\<lambda>verifiers.
     bindR (parse_budget (mapping (dget data (lit ''budget'')))) (\<lambda>budget.
     Inr \<lparr>lc_schema_version = or_str (dget data (lit ''schema_version'')) [],
       lc_id = or_str (dget data (lit ''id'')) [],
       lc_title = or_str (dget data (lit ''title'')) [],
       lc_goal = parse_goal (mapping (dget data (lit ''goal''))),
       lc_scope = parse_scope (mapping (dget data (lit ''scope''))),
       lc_state = parse_state (mapping (dget data (lit ''state''))),
       lc_actions = map (\<lambda>v. parse_action (mapping v)) (sequence (dget data (lit ''actions''))),
       lc_verifiers = verifiers,
       lc_feedback = parse_feedback (mapping (dget data (lit ''feedback''))),
       lc_budget = budget,
       lc_stop_conditions = parse_stop_conditions (mapping (dget data (lit ''stop_conditions''))),
       lc_human_gates =
         map (\<lambda>v. parse_human_gate (mapping v)) (sequence (dget data (lit ''human_gates''))),
       lc_record_policy = parse_record_policy (mapping (dget data (lit ''record_policy''))),
       lc_source_path = Some path\<rparr>))"

fun parse_loop_contract :: "pystr \<Rightarrow> pyval \<Rightarrow> loop_contract result" where
  "parse_loop_contract path (PyDict data) = parse_contract_fields path data"
| "parse_loop_contract path v = Inl (ValueError (lit ''loop contract must be a mapping''))"

section \<open>Contracts as mappings, and their digest\<close>

definition strs_val :: "pystr list \<Rightarrow> pyval" where
  "strs_val xs = PyList (map PyStr xs)"

definition goal_to_dict :: "loop_goal \<Rightarrow> pydict" where
  "goal_to_dict g =
    [(lit ''statement'', PyStr (lg_statement g)), (lit ''success'', strs_val (lg_success g)),
     (lit ''failure'', strs_val (lg_failure g))]"

definition scope_to_dict :: "loop_scope \<Rightarrow> pydict" where
  "scope_to_dict s =
    [(lit ''project'', opt_val (ls_project s)), (lit ''repo'', opt_val (ls_repo s)),
     (lit ''branch_policy'', PyStr (ls_branch_policy s)),
     (lit ''allowed_paths'', strs_val (ls_allowed_paths s)),
     (lit ''protected_paths'', strs_val (ls_protected_paths s))]"

definition state_to_dict :: "loop_state_policy \<Rightarrow> pydict" where
  "state_to_dict st =
    [(lit ''memory_queries'', strs_val (sp_memory_queries st)),
     (lit ''required_snapshots'', strs_val (sp_required_snapshots st)),
     (lit ''evidence_refs'', strs_val (sp_evidence_refs st))]"

definition action_to_dict :: "loop_action \<Rightarrow> pydict" where
  "action_to_dict a =
    [(lit ''id'', PyStr (la_id a)), (lit ''kind'', PyStr (la_kind a)),
     (lit ''risk'', PyStr (la_risk a)), (lit ''command'', opt_val (la_command a)),
     (lit ''paths'', strs_val (la_paths a)), (lit ''requires_gate'', opt_val (la_requires_gate a))]"

definition verifier_to_dict :: "loop_verifier_spec \<Rightarrow> pydict" where
  "verifier_to_dict v =
    [(lit ''id'', PyStr (lv_id v)), (lit ''command'', PyStr (lv_command v)),
     (lit ''required'', PyBool (lv_required v)),
     (lit ''timeout_seconds'', opt_int (lv_timeout_seconds v)), (lit ''cwd'', opt_val (lv_cwd v)),
     (lit ''success_pattern'', opt_val (lv_success_pattern v))]"

definition budget_to_dict :: "loop_budget \<Rightarrow> pydict" where
  "budget_to_dict b =
    [(lit ''max_iterations'', PyInt (lb_max_iterations b)),
     (lit ''max_verifier_runs'', PyInt (lb_max_verifier_runs b)),
     (lit ''timeout_per_action_seconds'', PyInt (lb_timeout_per_action_seconds b)),
     (lit ''max_parallel_agents'', PyInt (lb_max_parallel_agents b)),
     (lit ''token_budget_hint'', opt_int (lb_token_budget_hint b))]"

definition human_gate_to_dict :: "loop_human_gate \<Rightarrow> pydict" where
  "human_gate_to_dict g =
    [(lit ''id'', PyStr (hg_id g)), (lit ''trigger'', PyStr (hg_trigger g)),
     (lit ''reason'', PyStr (hg_reason g))]"

definition record_policy_to_dict :: "loop_record_policy \<Rightarrow> pydict" where
  "record_policy_to_dict r =
    [(lit ''runtime_events'', PyStr (rp_runtime_events r)),
     (lit ''memory_candidates'', PyStr (rp_memory_candidates r)),
     (lit ''artifacts'', PyStr (rp_artifacts r)),
     (lit ''include_contract_digest'', PyBool (rp_include_contract_digest r))]"

definition contract_to_dict :: "loop_contract \<Rightarrow> pydict" where
  "contract_to_dict c =
    [(lit ''schema_version'', PyStr (lc_schema_version c)), (lit ''id'', PyStr (lc_id c)),
     (lit ''title'', PyStr (lc_title c)), (lit ''goal'', PyDict (goal_to_dict (lc_goal c))),
     (lit ''scope'', PyDict (scope_to_dict (lc_scope c))),
     (lit ''state'', PyDict (state_to_dict (lc_state c))),
     (lit ''actions'', PyList (map (\<lambda>a. PyDict (action_to_dict a)) (lc_actions c))),
     (lit ''verifiers'', PyList (map (\<lambda>v. PyDict (verifier_to_dict v)) (lc_verifiers c))),
     (lit ''feedback'', PyDict [(lit ''classify'', strs_val (fp_classify (lc_feedback c))),
        (lit ''retain'', PyDict (fp_retain (lc_feedback c)))]),
     (lit ''budget'', PyDict (budget_to_dict (lc_budget c))),
     (lit ''stop_conditions'', PyDict
       [(lit ''complete_when'', strs_val (sc_complete_when (lc_stop_conditions c))),
        (lit ''fail_when'', PyList (sc_fail_when (lc_stop_conditions c)))]),
     (lit ''human_gates'', PyList (map (\<lambda>g. PyDict (human_gate_to_dict g)) (lc_human_gates c))),
     (lit ''record_policy'', PyDict (record_policy_to_dict (lc_record_policy c)))]"

text \<open>
  \<open>json.dumps(value, ensure_ascii=False, separators=(",", ":"), sort_keys=True)\<close> and the digest
  over it; the hash function is a parameter.
\<close>

definition json_char :: "int \<Rightarrow> pystr" where
  "json_char c =
     (if c = 34 \<or> c = 92 then [92, c]
      else if c = 10 then [92, 110] else if c = 13 then [92, 114] else if c = 9 then [92, 116]
      else if c = 12 then [92, 102] else if c = 8 then [92, 98]
      else if c < 32 then [92, 117, 48, 48, hex_digit (c div 16), hex_digit (c mod 16)]
      else [c])"

definition json_str :: "pystr \<Rightarrow> pystr" where
  "json_str s = 34 # concat (map json_char s) @ [34]"

fun json_compact :: "pyval \<Rightarrow> pystr" where
  "json_compact PyNone = lit ''null''"
| "json_compact (PyBool b) = (if b then lit ''true'' else lit ''false'')"
| "json_compact (PyInt i) = int_str i"
| "json_compact (PyStr s) = json_str s"
| "json_compact (PyList xs) = lit ''['' @ join (lit '','') (map json_compact xs) @ lit '']''"
| "json_compact (PyDict d) = lit ''{''
     @ join (lit '','') (map (\<lambda>(k, text). json_str k @ lit '':'' @ text)
         (sort_key fst (map (\<lambda>kv. (fst kv, json_compact (snd kv))) d)))
     @ lit ''}''"

definition contract_digest :: "(pystr \<Rightarrow> pystr) \<Rightarrow> loop_contract \<Rightarrow> pystr" where
  "contract_digest sha256 c = sha256 (json_compact (PyDict (contract_to_dict c)))"

section \<open>Validation\<close>

record violation =
  vi_path :: pystr
  vi_code :: pystr
  vi_message :: pystr

definition error_at :: "pystr \<Rightarrow> string \<Rightarrow> string \<Rightarrow> violation" where
  "error_at path code message = \<lparr>vi_path = path, vi_code = lit code, vi_message = lit message\<rparr>"

definition indexed :: "string \<Rightarrow> nat \<Rightarrow> string \<Rightarrow> pystr" where
  "indexed base i field = lit base @ lit ''['' @ nat_str i @ lit '']'' @ lit field"

definition opt_text :: "pystr option \<Rightarrow> bool" where
  "opt_text x \<longleftrightarrow> x \<noteq> None \<and> x \<noteq> Some []"

text \<open>
  \<open>re.match("^[A-Za-z0-9._-]+$", s)\<close>: the dollar sign also matches just before a line feed that
  ends the text.
\<close>

definition contract_id_char :: "int \<Rightarrow> bool" where
  "contract_id_char c \<longleftrightarrow> (65 \<le> c \<and> c \<le> 90) \<or> (97 \<le> c \<and> c \<le> 122) \<or> (48 \<le> c \<and> c \<le> 57)
     \<or> c = 46 \<or> c = 95 \<or> c = 45"

definition contract_id_match :: "pystr \<Rightarrow> bool" where
  "contract_id_match s \<longleftrightarrow>
     (let body = (if s \<noteq> [] \<and> last s = 10 then butlast s else s)
      in body \<noteq> [] \<and> list_all contract_id_char body)"

definition gated_risks :: "pystr list" where
  "gated_risks = [lit ''mutation'', lit ''external_side_effect'', lit ''destructive'']"

definition gated_kinds :: "pystr list" where
  "gated_kinds = [lit ''write_memory'', lit ''external_call'']"

definition range_check :: "pystr \<Rightarrow> int \<Rightarrow> int \<Rightarrow> int \<Rightarrow> violation list" where
  "range_check path value minimum maximum =
     (if value < minimum \<or> value > maximum then
        [\<lparr>vi_path = path, vi_code = lit ''out_of_range'',
          vi_message = path @ lit '' must be between '' @ int_str minimum @ lit '' and ''
            @ int_str maximum\<rparr>]
      else [])"

definition validate_budget :: "loop_contract \<Rightarrow> violation list" where
  "validate_budget contract =
     (let b = lc_budget contract
      in range_check (lit ''budget.max_iterations'') (lb_max_iterations b) 1 20
         @ range_check (lit ''budget.max_verifier_runs'') (lb_max_verifier_runs b) 1 100
         @ range_check (lit ''budget.timeout_per_action_seconds'')
             (lb_timeout_per_action_seconds b) 1 600
         @ range_check (lit ''budget.max_parallel_agents'') (lb_max_parallel_agents b) 1 8)"

definition normalize_path :: "pystr \<Rightarrow> pystr" where
  "normalize_path path =
     (let p = rstrip_by (\<lambda>c. c = 47) (strip path) in if p = [] then lit ''.'' else p)"

definition validate_paths :: "loop_contract \<Rightarrow> violation list" where
  "validate_paths contract =
     (let allowed = map normalize_path (ls_allowed_paths (lc_scope contract))
      in concat (map (\<lambda>(index, path).
           if normalize_path path \<in> set allowed then
             [error_at (indexed ''scope.protected_paths'' index '''')
                ''protected_path_in_allowed_paths'' ''protected path must not also be allowed'']
           else [])
         (List.enumerate 0 (ls_protected_paths (lc_scope contract)))))"

definition command_error :: "pystr \<Rightarrow> string \<Rightarrow> command_validation \<Rightarrow> violation list" where
  "command_error path message validation =
     (if cv_allowed validation then []
      else [\<lparr>vi_path = path,
             vi_code = (if opt_text (cv_reason validation) then the (cv_reason validation)
                        else lit ''invalid_command''),
             vi_message = lit message\<rparr>])"

definition validate_verifier :: "nat \<Rightarrow> loop_verifier_spec \<Rightarrow> violation list" where
  "validate_verifier index verifier =
     (if lv_id verifier = [] then
        [error_at (indexed ''verifiers'' index ''.id'') ''required'' ''verifier id is required'']
      else [])
     @ (if lv_command verifier = [] then
          [error_at (indexed ''verifiers'' index ''.command'') ''required''
             ''verifier command is required'']
        else
          command_error (indexed ''verifiers'' index ''.command'')
            ''verifier command is not allowed''
            (validate_verification_command (lv_command verifier))
          @ (case lv_timeout_seconds verifier of
               None \<Rightarrow> []
             | Some t \<Rightarrow> if 1 \<le> t \<and> t \<le> 600 then []
                 else [error_at (indexed ''verifiers'' index ''.timeout_seconds'')
                   ''out_of_range'' ''verifier timeout must be between 1 and 600 seconds'']))"

definition validate_verifiers :: "loop_contract \<Rightarrow> violation list" where
  "validate_verifiers contract =
     concat (map (\<lambda>(i, v). validate_verifier i v) (List.enumerate 0 (lc_verifiers contract)))"

definition gate_needed :: "loop_action \<Rightarrow> bool" where
  "gate_needed action \<longleftrightarrow>
     la_risk action \<in> set gated_risks \<or> la_kind action \<in> set gated_kinds"

definition validate_action :: "pystr list \<Rightarrow> nat \<Rightarrow> loop_action \<Rightarrow> violation list" where
  "validate_action gate_ids index action =
     (if la_id action = [] then
        [error_at (indexed ''actions'' index ''.id'') ''required'' ''action id is required'']
      else [])
     @ (if la_kind action = [] then
          [error_at (indexed ''actions'' index ''.kind'') ''required'' ''action kind is required'']
        else [])
     @ (if la_risk action = [] then
          [error_at (indexed ''actions'' index ''.risk'') ''required'' ''action risk is required'']
        else [])
     @ (case la_command action of
          None \<Rightarrow> []
        | Some command \<Rightarrow>
            if command \<noteq> [] \<and> la_kind action \<in> {lit ''inspect_command'', lit ''verify_command''}
            then command_error (indexed ''actions'' index ''.command'')
              ''action command is not allowed'' (validate_verification_command command)
            else [])
     @ (if gate_needed action \<and> \<not> opt_text (la_requires_gate action) then
          [error_at (indexed ''actions'' index ''.requires_gate'') ''missing_gate''
             ''risk or action kind requires a human gate'']
        else if opt_text (la_requires_gate action)
            \<and> the (la_requires_gate action) \<notin> set gate_ids then
          [error_at (indexed ''actions'' index ''.requires_gate'') ''unknown_gate''
             ''requires_gate must reference human_gates.id'']
        else [])"

definition validate_actions :: "loop_contract \<Rightarrow> violation list" where
  "validate_actions contract =
     concat (map (\<lambda>(i, a). validate_action (map hg_id (lc_human_gates contract)) i a)
       (List.enumerate 0 (lc_actions contract)))"

definition validate_loop_contract :: "loop_contract \<Rightarrow> violation list" where
  "validate_loop_contract contract =
     (if lc_schema_version contract \<noteq> schema_version then
        [error_at (lit ''schema_version'') ''invalid_schema_version''
           ''schema_version must be loop-contract/v1'']
      else [])
     @ (if lc_id contract = [] then [error_at (lit ''id'') ''required'' ''id is required'']
        else if \<not> contract_id_match (lc_id contract) then
          [error_at (lit ''id'') ''invalid_id'' ''id contains unsupported characters'']
        else [])
     @ (if strip (lc_title contract) = [] then
          [error_at (lit ''title'') ''required'' ''title is required'']
        else [])
     @ (if strip (lg_statement (lc_goal contract)) = [] then
          [error_at (lit ''goal.statement'') ''required'' ''goal.statement is required'']
        else [])
     @ (if lc_verifiers contract = [] \<or> \<not> list_ex lv_required (lc_verifiers contract) then
          [error_at (lit ''verifiers'') ''missing_required_verifier''
             ''at least one verifier must be required'']
        else [])
     @ (if lit ''all_required_verifiers_pass''
            \<notin> set (sc_complete_when (lc_stop_conditions contract)) then
          [error_at (lit ''stop_conditions.complete_when'') ''missing_required_stop_condition''
             ''complete_when must include all_required_verifiers_pass'']
        else [])
     @ validate_budget contract
     @ validate_paths contract
     @ validate_verifiers contract
     @ validate_actions contract"

text \<open>\<open>LoopContractValidationResult.valid\<close>.\<close>

definition contract_valid :: "loop_contract \<Rightarrow> bool" where
  "contract_valid contract \<longleftrightarrow> validate_loop_contract contract = []"

section \<open>What a valid contract guarantees\<close>

lemma enumerate_concat_Nil:
  "concat (map (\<lambda>(i, x). f i x) (List.enumerate n xs)) = [] \<longleftrightarrow>
     (\<forall>(i, x) \<in> set (List.enumerate n xs). f i x = [])"
  by auto

lemma enumerate_concat_Nil_elem:
  assumes "concat (map (\<lambda>(i, x). f i x) (List.enumerate n xs)) = []" and "x \<in> set xs"
  shows "\<exists>i. f i x = []"
proof -
  from assms(2) obtain k where "k < length xs" "xs ! k = x"
    by (auto simp: in_set_conv_nth)
  then have "(n + k, x) \<in> set (List.enumerate n xs)"
    by (force simp: in_set_enumerate_eq)
  with assms(1) show ?thesis by fastforce
qed

lemma command_error_Nil [simp]: "command_error p m v = [] \<longleftrightarrow> cv_allowed v"
  by (simp add: command_error_def)

lemma valid_verifier_command:
  assumes "contract_valid c" and "v \<in> set (lc_verifiers c)"
  shows "lv_command v \<noteq> [] \<and> cv_allowed (validate_verification_command (lv_command v))"
proof -
  from assms(1) have "validate_verifiers c = []"
    by (simp add: contract_valid_def validate_loop_contract_def)
  then obtain i where "validate_verifier i v = []"
    using enumerate_concat_Nil_elem [of validate_verifier 0 "lc_verifiers c" v] assms(2)
    by (auto simp: validate_verifiers_def)
  then show ?thesis
    by (simp add: validate_verifier_def split: if_splits)
qed

lemma valid_required_verifier:
  "contract_valid c \<Longrightarrow> \<exists>v \<in> set (lc_verifiers c). lv_required v"
  by (auto simp: contract_valid_def validate_loop_contract_def list_ex_iff split: if_splits)

lemma valid_action_gate:
  assumes "contract_valid c" and "a \<in> set (lc_actions c)"
  shows "(gate_needed a \<longrightarrow> opt_text (la_requires_gate a))
    \<and> (opt_text (la_requires_gate a) \<longrightarrow>
         the (la_requires_gate a) \<in> set (map hg_id (lc_human_gates c)))"
proof -
  let ?ids = "map hg_id (lc_human_gates c)"
  from assms(1) have "validate_actions c = []"
    by (simp add: contract_valid_def validate_loop_contract_def)
  then obtain i where "validate_action ?ids i a = []"
    using enumerate_concat_Nil_elem [of "validate_action ?ids" 0 "lc_actions c" a] assms(2)
    by (auto simp: validate_actions_def)
  then show ?thesis
    by (auto simp: validate_action_def split: if_splits)
qed

end
