(* ===== verification/LoopStore.thy ===== *)
theory LoopStore imports LoopContract begin

text \<open>
  The loop ledger, \<^verbatim>\<open>agent_brain/memory/loops/loop_store.py\<close> with
  \<^verbatim>\<open>loop_events.py\<close>: a directory of one JSON file per loop, an append-only event log,
  and the operations that create a loop and move it and its task steps and human gates.

  The state \<open>hub\<close> is what the operations read and write: the loop files (by loop id; the
  content is what \<open>json.loads\<close> returns, or nothing when the text is not JSON), the rows of the
  event log, the learning outcomes that were handed to the best-effort sidecar, and the
  sources the operations draw from: the clock, the random suffixes, the latest injection
  cohort and path resolution. An operation that is given \<open>now\<close> uses it; without it every use
  reads the clock anew. Key order inside stored JSON objects is not modelled.
\<close>

section \<open>State\<close>

record injection_cohort =
  co_cohort_id :: pystr
  co_cwd :: "pystr option"
  co_timestamp :: "py_datetime option"
  co_item_ids :: "pystr list"

record task_outcome =
  to_task_id :: pystr
  to_question :: pystr
  to_outcome :: pystr
  to_signals :: "pystr list"
  to_confidence_percent :: int
  to_injected_ids :: "pystr list"
  to_adapter :: pystr
  to_session_id :: "pystr option"
  to_cwd :: "pystr option"
  to_project :: "pystr option"
  to_cohort_id :: "pystr option"

text \<open>
  What \<open>subprocess.run\<close> may do: return an exit code and two outputs, time out, raise an
  \<open>OSError\<close>, or raise a \<open>ValueError\<close> (an argument with a null character, an output that is not
  valid in the locale's encoding).
\<close>

datatype process_result =
    Exited int raw_output raw_output
  | TimedOut raw_output raw_output
  | OsError pystr
  | OutputError pystr

record hub =
  h_files :: "(pystr \<times> pyval option) list"
  h_events :: "pyval list"
  h_outcomes :: "task_outcome list"
  h_clock :: "nat \<Rightarrow> py_datetime"
  h_ticks :: nat
  h_uuid :: "nat \<Rightarrow> pystr"
  h_uuids :: nat
  h_cohort :: "pystr \<Rightarrow> pystr \<Rightarrow> injection_cohort option"
  h_resolve :: "pystr \<Rightarrow> pystr"
  h_path_exists :: "pystr \<Rightarrow> bool"
  h_process :: "pystr list \<Rightarrow> pystr option \<Rightarrow> int \<Rightarrow> nat \<Rightarrow> process_result"
  h_elapsed :: "nat \<Rightarrow> int"
  h_process_runs :: "(pystr list \<times> pystr option \<times> int) list"
  h_sha256 :: "pystr \<Rightarrow> pystr"
  h_decode :: "int list \<Rightarrow> pystr"

type_synonym 'a op = "(hub, 'a) prog"

definition read_clock :: "py_datetime option \<Rightarrow> py_datetime op" where
  "read_clock now h =
     (case now of Some t \<Rightarrow> (Inr t, h)
      | None \<Rightarrow> (Inr (h_clock h (h_ticks h)), h\<lparr>h_ticks := Suc (h_ticks h)\<rparr>))"

definition fresh_uuid :: "pystr op" where
  "fresh_uuid h = (Inr (h_uuid h (h_uuids h)), h\<lparr>h_uuids := Suc (h_uuids h)\<rparr>)"

definition now_text :: "py_datetime option \<Rightarrow> pystr op" where
  "now_text now = bindP (read_clock now) (\<lambda>t. ret (timestamp t))"

section \<open>Files and events\<close>

definition store_get :: "pystr \<Rightarrow> loop_run op" where
  "store_get loop_id h =
     (case map_of (h_files h) loop_id of
        None \<Rightarrow> (Inl (LoopNotFoundError (lit ''loop not found: '' @ loop_id)), h)
      | Some None \<Rightarrow> (Inl JSONDecodeError, h)
      | Some (Some doc) \<Rightarrow> (run_from_dict doc, h))"

definition store_write :: "loop_run \<Rightarrow> unit op" where
  "store_write l = change (\<lambda>h. h\<lparr>h_files :=
     AList.update (lr_loop_id l) (Some (PyDict (run_to_dict l))) (h_files h)\<rparr>)"

definition append_loop_event :: "loop_event \<Rightarrow> unit op" where
  "append_loop_event e = change (\<lambda>h. h\<lparr>h_events := h_events h @ [PyDict (event_to_dict e)]\<rparr>)"

definition store_event ::
  "loop_run \<Rightarrow> loop_event_type \<Rightarrow> pystr \<Rightarrow> pystr \<Rightarrow> pydict \<Rightarrow> py_datetime option \<Rightarrow> unit op" where
  "store_event l event_type actor summary payload now =
     bindP (read_clock now) (\<lambda>t1.
     bindP fresh_uuid (\<lambda>hex.
     bindP (read_clock now) (\<lambda>t2.
     append_loop_event \<lparr>le_event_id = make_event_id t1 hex, le_loop_id = lr_loop_id l,
       le_timestamp = timestamp t2, le_event_type = event_value event_type, le_actor = actor,
       le_summary = summary, le_payload = payload\<rparr>)))"

text \<open>
  \<open>iter_loop_events\<close>: the reader drops rows that are no mapping or no event, and gives up on
  the whole file when it has more than 20000 rows (\<^verbatim>\<open>platform/bounded_jsonl.py\<close>).
\<close>

definition max_jsonl_total_rows :: nat where
  "max_jsonl_total_rows = 20000"

definition bounded_rows :: "pyval list \<Rightarrow> pydict list" where
  "bounded_rows rows = (if length rows > max_jsonl_total_rows then [] else dict_rows (PyList rows))"

definition iter_loop_events :: "pystr option \<Rightarrow> hub \<Rightarrow> loop_event list" where
  "iter_loop_events loop_id h =
     filter (\<lambda>e. case loop_id of None \<Rightarrow> True | Some i \<Rightarrow> i = [] \<or> le_loop_id e = i)
       (List.map_filter (\<lambda>d. case event_from_dict d of Inl _ \<Rightarrow> None | Inr e \<Rightarrow> Some e)
         (bounded_rows (h_events h)))"

section \<open>Learning sidecar and injection candidates\<close>

definition row_text :: "pydict \<Rightarrow> string \<Rightarrow> pystr option" where
  "row_text row key =
     (if truthy (dget row (lit key)) then Some (py_str (dget row (lit key))) else None)"

text \<open>
  The call that \<open>_record_learning_outcome\<close> makes. Whatever the sidecar does with it, an error
  there is caught and never reaches the caller.
\<close>

definition learning_outcome :: "loop_run \<Rightarrow> bool \<Rightarrow> task_outcome" where
  "learning_outcome l success =
     \<lparr>to_task_id = lit ''loop:'' @ lr_loop_id l, to_question = lr_goal l,
      to_outcome = (if success then lit ''success'' else lit ''failed''),
      to_signals = (if success then [lit ''loop_verified'', lit ''implicit_task_success'']
                    else [lit ''loop_failed'']),
      to_confidence_percent = (if success then 95 else 80),
      to_injected_ids = List.map_filter (\<lambda>row. row_text row ''id'') (lr_memory_candidates l),
      to_adapter = (case lr_adapter l of None \<Rightarrow> lit ''unknown''
                    | Some a \<Rightarrow> if a = [] then lit ''unknown'' else a),
      to_session_id = lr_session_id l, to_cwd = lr_cwd l, to_project = lr_project l,
      to_cohort_id =
        (case List.map_filter (\<lambda>row. row_text row ''cohort_id'') (lr_memory_candidates l) of
           [] \<Rightarrow> None | c # _ \<Rightarrow> Some c)\<rparr>"

definition record_learning_outcome :: "loop_run \<Rightarrow> bool \<Rightarrow> unit op" where
  "record_learning_outcome l success =
     change (\<lambda>h. h\<lparr>h_outcomes := h_outcomes h @ [learning_outcome l success]\<rparr>)"

definition memory_item_id_match :: "pystr \<Rightarrow> bool" where
  "memory_item_id_match s \<longleftrightarrow>
     take 4 s = lit ''mem-''
     \<and> (case drop 4 s of [] \<Rightarrow> False
        | c # cs \<Rightarrow> slug_letter c \<and> length cs \<le> 127 \<and> list_all (\<lambda>x. slug_letter x \<or> x = 45) cs)"

definition candidate_row :: "injection_cohort \<Rightarrow> pystr \<Rightarrow> pydict" where
  "candidate_row cohort item_id =
     [(lit ''id'', PyStr item_id), (lit ''source'', PyStr (lit ''injection_cohort'')),
      (lit ''cohort_id'', PyStr (co_cohort_id cohort))]"

definition recent_injection_candidates ::
  "pystr option \<Rightarrow> pystr option \<Rightarrow> pystr option \<Rightarrow> py_datetime option \<Rightarrow> pydict list op" where
  "recent_injection_candidates adapter session_id cwd now h =
     (if \<not> opt_text adapter \<or> \<not> opt_text session_id \<or> \<not> opt_text cwd then (Inr [], h)
      else case h_cohort h (the adapter) (the session_id) of
        None \<Rightarrow> (Inr [], h)
      | Some cohort \<Rightarrow>
          if \<not> opt_text (co_cwd cohort)
             \<or> h_resolve h (the cwd) \<noteq> h_resolve h (the (co_cwd cohort)) then (Inr [], h)
          else case co_timestamp cohort of
            None \<Rightarrow> (Inr [], h)
          | Some observed \<Rightarrow>
              bindP (read_clock now) (\<lambda>current.
                let age = instant (aware current) - instant (aware observed)
                in if age < 0 \<or> age > 30 * 60 * us_per_second then ret []
                   else ret (map (candidate_row cohort)
                          (filter memory_item_id_match (co_item_ids cohort)))) h)"

section \<open>Create and list\<close>

record create_args =
  ca_goal :: pystr
  ca_project :: "pystr option"
  ca_adapter :: "pystr option"
  ca_session_id :: "pystr option"
  ca_cwd :: "pystr option"
  ca_verification_plan :: "pystr list"
  ca_trigger :: "pydict option"
  ca_budget :: pydict
  ca_context :: pydict
  ca_metadata :: pydict
  ca_sensitivity :: pystr
  ca_start :: bool
  ca_actor :: pystr

definition or_missing :: "pystr option \<Rightarrow> pystr option" where
  "or_missing x = (if opt_text x then x else None)"

definition change_payload :: "pystr \<Rightarrow> pystr \<Rightarrow> pydict" where
  "change_payload from_status to_status =
     [(lit ''from'', PyStr from_status), (lit ''to'', PyStr to_status)]"

definition store_create :: "create_args \<Rightarrow> py_datetime option \<Rightarrow> loop_run op" where
  "store_create args now =
     bindP (check (strip (ca_goal args) \<noteq> []) (ValueError (lit ''goal is required''))) (\<lambda>_.
     bindP (now_text now) (\<lambda>current_time.
     bindP (read_clock now) (\<lambda>t.
     bindP fresh_uuid (\<lambda>hex.
     bindP (recent_injection_candidates (ca_adapter args) (ca_session_id args) (ca_cwd args) now)
       (\<lambda>candidates.
     let l = \<lparr>lr_loop_id = make_loop_id (ca_goal args) t hex, lr_created_at = current_time,
           lr_updated_at = current_time,
           lr_status = status_value (if ca_start args then Running else Created),
           lr_goal = ca_goal args, lr_trigger = bounded_trigger (ca_trigger args),
           lr_project = or_missing (ca_project args), lr_cwd = or_missing (ca_cwd args),
           lr_adapter = or_missing (ca_adapter args),
           lr_session_id = or_missing (ca_session_id args),
           lr_budget = ca_budget args, lr_context = ca_context args,
           lr_metadata = ca_metadata args, lr_verification_plan = ca_verification_plan args,
           lr_verification_results = [], lr_checkpoints = [], lr_artifacts = [],
           lr_outcome = None, lr_memory_candidates = candidates, lr_steps = [],
           lr_blockers = [],
           lr_sensitivity = (if ca_sensitivity args = [] then lit ''internal''
                             else ca_sensitivity args)\<rparr>
     in bindP (store_write l) (\<lambda>_.
        bindP (store_event l Ev_created (ca_actor args) (lit ''loop created'')
          [(lit ''status'', PyStr (status_value Created))] now) (\<lambda>_.
        if ca_start args then
          bindP (store_event l Ev_status_changed (ca_actor args) (lit ''loop started'')
            (change_payload (status_value Created) (status_value Running)) now) (\<lambda>_. ret l)
        else ret l)))))))"

text \<open>
  \<open>list\<close> catches \<open>KeyError\<close>, \<open>TypeError\<close> and \<open>JSONDecodeError\<close> of a file and skips it; any
  other error of one file ends the listing.
\<close>

definition caught_by_list :: "py_exn \<Rightarrow> bool" where
  "caught_by_list e \<longleftrightarrow> (case e of KeyError _ \<Rightarrow> True | TypeError _ \<Rightarrow> True | JSONDecodeError \<Rightarrow> True
     | _ \<Rightarrow> False)"

fun list_rows :: "pystr option \<Rightarrow> pystr option \<Rightarrow> (pystr \<times> pyval option) list \<Rightarrow> loop_run list result" where
  "list_rows status project [] = Inr []"
| "list_rows status project ((_, content) # rest) =
     (case (case content of None \<Rightarrow> Inl JSONDecodeError | Some doc \<Rightarrow> run_from_dict doc) of
        Inl e \<Rightarrow> if caught_by_list e then list_rows status project rest else Inl e
      | Inr l \<Rightarrow>
          if (opt_text status \<and> lr_status l \<noteq> the status)
             \<or> (opt_text project \<and> lr_project l \<noteq> project)
          then list_rows status project rest
          else bindR (list_rows status project rest) (\<lambda>ls. Inr (l # ls)))"

definition store_list :: "pystr option \<Rightarrow> pystr option \<Rightarrow> loop_run list op" where
  "store_list status project h =
     (list_rows status project (sort_key (\<lambda>f. fst f @ lit ''.json'') (h_files h)), h)"

section \<open>Checkpoint, completion, failure, blocking\<close>

definition evidence_row :: "string \<Rightarrow> pystr \<Rightarrow> pystr \<Rightarrow> pystr \<Rightarrow> pydict" where
  "evidence_row key time value actor =
     [(lit ''timestamp'', PyStr time), (lit key, PyStr value), (lit ''actor'', PyStr actor)]"

definition artifact_row :: "pystr \<Rightarrow> pystr \<Rightarrow> pystr \<Rightarrow> pydict" where
  "artifact_row time value actor =
     [(lit ''timestamp'', PyStr time), (lit ''kind'', PyStr (lit ''artifact'')),
      (lit ''value'', PyStr value), (lit ''actor'', PyStr actor)]"

text \<open>A program run only when an optional text is given and not empty.\<close>

definition when_text :: "pystr option \<Rightarrow> (pystr \<Rightarrow> 'a op) \<Rightarrow> 'a \<Rightarrow> 'a op" where
  "when_text x f other = (case x of None \<Rightarrow> ret other | Some t \<Rightarrow> if t = [] then ret other else f t)"

definition status_change ::
  "loop_run \<Rightarrow> loop_status \<Rightarrow> string \<Rightarrow> pystr \<Rightarrow> py_datetime option \<Rightarrow> loop_run op" where
  "status_change l from_status summary actor now =
     bindP (lift_result (validate_transition (lr_status l) (status_value Running))) (\<lambda>_.
     let l' = l\<lparr>lr_status := status_value Running\<rparr>
     in bindP (store_event l' Ev_status_changed actor (lit summary)
          (change_payload (status_value from_status) (status_value Running)) now) (\<lambda>_. ret l'))"

definition store_checkpoint ::
  "pystr \<Rightarrow> pystr \<Rightarrow> pystr option \<Rightarrow> pystr \<Rightarrow> py_datetime option \<Rightarrow> loop_run op" where
  "store_checkpoint loop_id note_text artifact actor now =
     bindP (check (strip note_text \<noteq> [])
       (LoopTransitionError (lit ''loop checkpoint requires note''))) (\<lambda>_.
     bindP (store_get loop_id) (\<lambda>l0.
     bindP (check (lr_status l0 \<notin> {status_value Completed, status_value Cancelled})
       (LoopTransitionError (lit ''loop checkpoint requires active loop; current: '' @ lr_status l0)))
       (\<lambda>_.
     bindP (if lr_status l0 = status_value Failed then
              status_change l0 Failed ''loop restarted by checkpoint'' actor now
            else if lr_status l0 = status_value Created then
              status_change l0 Created ''loop started by checkpoint'' actor now
            else ret l0) (\<lambda>l.
     bindP (now_text now) (\<lambda>t_checkpoint.
     let row = evidence_row ''note'' t_checkpoint note_text actor
     in bindP (when_text artifact (\<lambda>a. bindP (now_text now) (\<lambda>t.
            ret (lr_artifacts l @ [artifact_row t a actor]))) (lr_artifacts l)) (\<lambda>artifacts.
     bindP (now_text now) (\<lambda>t_updated.
     let updated = l\<lparr>lr_updated_at := t_updated, lr_checkpoints := lr_checkpoints l @ [row],
           lr_artifacts := artifacts\<rparr>
     in bindP (store_write updated) (\<lambda>_.
     bindP (store_event updated Ev_checkpoint_added actor note_text row now) (\<lambda>_.
     bindP (when_text artifact (\<lambda>a. store_event updated Ev_artifact_added actor a
         [(lit ''artifact'', PyStr a)] now) ()) (\<lambda>_.
     ret updated))))))))))"

definition step_finished :: "pydict \<Rightarrow> bool" where
  "step_finished step \<longleftrightarrow>
     dget step (lit ''status'') \<in> {PyStr (lit ''verified''), PyStr (lit ''cancelled'')}"

definition unfinished_steps :: "loop_run \<Rightarrow> pystr list" where
  "unfinished_steps l =
     map (\<lambda>step. or_str (dget step (lit ''id'')) [])
       (filter (\<lambda>step. \<not> step_finished step) (lr_steps l))"

definition store_complete ::
  "pystr \<Rightarrow> pystr option \<Rightarrow> pystr option \<Rightarrow> pystr \<Rightarrow> py_datetime option \<Rightarrow> loop_run op" where
  "store_complete loop_id evidence artifact actor now =
     bindP (store_get loop_id) (\<lambda>l.
     bindP (check (unfinished_steps l = [])
       (LoopTransitionError (lit ''loop completion requires every task step verified or cancelled: ''
          @ join (lit '', '') (unfinished_steps l)))) (\<lambda>_.
     bindP (lift_result (require_completion_evidence (lr_verification_results l) evidence)) (\<lambda>_.
     bindP (lift_result (validate_transition (lr_status l) (status_value Completed))) (\<lambda>_.
     bindP (when_text evidence (\<lambda>e. bindP (now_text now) (\<lambda>t.
         ret (lr_verification_results l @ [evidence_row ''evidence'' t e actor])))
         (lr_verification_results l)) (\<lambda>results.
     bindP (when_text artifact (\<lambda>a. bindP (now_text now) (\<lambda>t.
         ret (lr_artifacts l @ [artifact_row t a actor]))) (lr_artifacts l)) (\<lambda>artifacts.
     bindP (now_text now) (\<lambda>t_updated.
     let updated = l\<lparr>lr_status := status_value Completed, lr_updated_at := t_updated,
           lr_verification_results := results, lr_artifacts := artifacts,
           lr_outcome := Some [(lit ''status'', PyStr (lit ''completed''))]\<rparr>
     in bindP (store_write updated) (\<lambda>_.
     bindP (when_text evidence (\<lambda>e. store_event updated Ev_verification_added actor e
         [(lit ''evidence'', PyStr e)] now) ()) (\<lambda>_.
     bindP (when_text artifact (\<lambda>a. store_event updated Ev_artifact_added actor a
         [(lit ''artifact'', PyStr a)] now) ()) (\<lambda>_.
     bindP (store_event updated Ev_completed actor (lit ''loop completed'') [] now) (\<lambda>_.
     bindP (record_learning_outcome updated True) (\<lambda>_.
     ret updated))))))))))))"

definition store_fail ::
  "pystr \<Rightarrow> pystr \<Rightarrow> pystr option \<Rightarrow> pystr \<Rightarrow> py_datetime option \<Rightarrow> loop_run op" where
  "store_fail loop_id reason evidence actor now =
     bindP (check (strip reason \<noteq> []) (LoopTransitionError (lit ''loop failure requires reason'')))
       (\<lambda>_.
     bindP (store_get loop_id) (\<lambda>l.
     bindP (lift_result (validate_transition (lr_status l) (status_value Failed))) (\<lambda>_.
     bindP (when_text evidence (\<lambda>e. bindP (now_text now) (\<lambda>t.
         ret (lr_verification_results l @ [evidence_row ''evidence'' t e actor])))
         (lr_verification_results l)) (\<lambda>results.
     bindP (now_text now) (\<lambda>t_updated.
     let updated = l\<lparr>lr_status := status_value Failed, lr_updated_at := t_updated,
           lr_verification_results := results,
           lr_outcome := Some [(lit ''status'', PyStr (lit ''failed'')), (lit ''reason'', PyStr reason)]\<rparr>
     in bindP (store_write updated) (\<lambda>_.
     bindP (when_text evidence (\<lambda>e. store_event updated Ev_verification_added actor e
         [(lit ''evidence'', PyStr e)] now) ()) (\<lambda>_.
     bindP (store_event updated Ev_failed actor reason [(lit ''reason'', PyStr reason)] now) (\<lambda>_.
     bindP (record_learning_outcome updated False) (\<lambda>_.
     ret updated)))))))))"

definition require_text :: "pystr \<Rightarrow> string \<Rightarrow> pystr result" where
  "require_text value what =
     (if strip value = [] then Inl (LoopTransitionError (lit what @ lit '' is required''))
      else Inr (strip value))"

definition store_block ::
  "pystr \<Rightarrow> pystr \<Rightarrow> pystr \<Rightarrow> py_datetime option \<Rightarrow> loop_run op" where
  "store_block loop_id reason0 actor now =
     bindP (lift_result (require_text reason0 ''loop block reason'')) (\<lambda>reason.
     bindP (store_get loop_id) (\<lambda>l.
     if lr_status l = status_value Blocked then ret l
     else
     bindP (lift_result (validate_transition (lr_status l) (status_value Blocked))) (\<lambda>_.
     bindP (now_text now) (\<lambda>t_updated.
     let updated = l\<lparr>lr_status := status_value Blocked, lr_updated_at := t_updated,
           lr_outcome := Some [(lit ''status'', PyStr (lit ''blocked'')), (lit ''reason'', PyStr reason)]\<rparr>
     in bindP (store_write updated) (\<lambda>_.
     bindP (store_event updated Ev_status_changed actor reason
       (change_payload (lr_status l) (status_value Blocked) @ [(lit ''reason'', PyStr reason)]) now)
       (\<lambda>_.
     ret updated))))))"

definition add_verification_feedback ::
  "pystr \<Rightarrow> loop_feedback \<Rightarrow> pystr \<Rightarrow> py_datetime option \<Rightarrow> loop_run op" where
  "add_verification_feedback loop_id f actor now =
     bindP (store_get loop_id) (\<lambda>l.
     bindP (now_text now) (\<lambda>t_updated.
     let updated = l\<lparr>lr_updated_at := t_updated,
           lr_verification_results := lr_verification_results l @ [feedback_to_dict f]\<rparr>;
         payload =
          [(lit ''feedback_id'', PyStr (lf_feedback_id f)), (lit ''command'', PyStr (lf_command f)),
           (lit ''status'', PyStr (lf_status f)), (lit ''category'', PyStr (lf_category f)),
           (lit ''exit_code'', opt_int (lf_exit_code f)),
           (lit ''duration_ms'', PyInt (lf_duration_ms f))]
          @ (if opt_text (lf_verifier_id f) then [(lit ''verifier_id'', opt_val (lf_verifier_id f))]
             else [])
          @ (if opt_text (lf_contract_id f) then [(lit ''contract_id'', opt_val (lf_contract_id f))]
             else [])
     in bindP (store_write updated) (\<lambda>_.
     bindP (store_event updated Ev_verification_added actor
       (lf_category f @ lit '': '' @ lf_command f) payload now) (\<lambda>_.
     ret updated))))"

section \<open>Task steps\<close>

definition step_transitions :: "(pystr \<times> pystr list) list" where
  "step_transitions =
    [(lit ''pending'', [lit ''running'', lit ''blocked'', lit ''cancelled'']),
     (lit ''running'', [lit ''blocked'', lit ''completed'', lit ''cancelled'']),
     (lit ''blocked'', [lit ''running'', lit ''cancelled'']),
     (lit ''completed'', [lit ''verified'', lit ''running'']),
     (lit ''verified'', []),
     (lit ''cancelled'', [])]"

definition store_add_step ::
  "pystr \<Rightarrow> pystr \<Rightarrow> pystr list \<Rightarrow> pystr option \<Rightarrow> pystr \<Rightarrow> py_datetime option \<Rightarrow> loop_run op" where
  "store_add_step loop_id title0 depends_on assignee actor now =
     bindP (lift_result (require_text title0 ''task step title'')) (\<lambda>title.
     bindP (store_get loop_id) (\<lambda>l.
     bindP (check (lr_status l \<notin> {status_value Completed, status_value Cancelled})
       (LoopTransitionError (lit ''cannot add a step to a terminal loop''))) (\<lambda>_.
     let dependencies = dedup depends_on;
         known = map (\<lambda>step. py_str (dget step (lit ''id''))) (lr_steps l);
         missing = filter (\<lambda>d. d \<notin> set known) dependencies
     in bindP (check (missing = [])
       (LoopTransitionError (lit ''unknown step dependencies: '' @ join (lit '', '') missing))) (\<lambda>_.
     bindP (now_text now) (\<lambda>current_time.
     bindP fresh_uuid (\<lambda>hex.
     let step =
          [(lit ''id'', PyStr (make_step_id hex)), (lit ''title'', PyStr title),
           (lit ''status'', PyStr (lit ''pending'')),
           (lit ''depends_on'', PyList (map PyStr dependencies)),
           (lit ''assignee'', opt_val (or_missing assignee)),
           (lit ''created_at'', PyStr current_time), (lit ''updated_at'', PyStr current_time),
           (lit ''evidence'', PyList [])];
         updated = l\<lparr>lr_updated_at := current_time, lr_steps := lr_steps l @ [step]\<rparr>
     in bindP (store_write updated) (\<lambda>_.
     bindP (store_event updated Ev_step_added actor title step now) (\<lambda>_.
     ret updated))))))))"

fun step_index :: "pystr \<Rightarrow> pydict list \<Rightarrow> nat option" where
  "step_index step_id [] = None"
| "step_index step_id (s # ss) =
     (if dget s (lit ''id'') = PyStr step_id then Some 0
      else map_option Suc (step_index step_id ss))"

definition row_status :: "pydict \<Rightarrow> pystr" where
  "row_status step = or_str (dget step (lit ''status'')) (lit ''pending'')"

definition step_status :: "pydict list \<Rightarrow> pystr \<Rightarrow> pystr option" where
  "step_status steps step_id =
     (case step_index step_id steps of None \<Rightarrow> None | Some i \<Rightarrow> Some (row_status (steps ! i)))"

definition incomplete_dependencies :: "pydict list \<Rightarrow> pyval list \<Rightarrow> pyval list" where
  "incomplete_dependencies steps deps =
     filter (\<lambda>d. step_status steps (py_str d) \<noteq> Some (lit ''verified'')) deps"

text \<open>\<open>", ".join(rows)\<close> raises \<open>TypeError\<close> when an element is no text.\<close>

definition dependency_error :: "pyval list \<Rightarrow> py_exn" where
  "dependency_error incomplete =
     (if list_all (\<lambda>v. case v of PyStr _ \<Rightarrow> True | _ \<Rightarrow> False) incomplete
      then LoopTransitionError (lit ''step dependencies are not verified: ''
             @ join (lit '', '') (map py_str incomplete))
      else TypeError (lit ''sequence item: expected str instance''))"

definition step_gate ::
  "pydict list \<Rightarrow> pydict \<Rightarrow> pystr \<Rightarrow> pystr option \<Rightarrow> pystr option \<Rightarrow> unit result" where
  "step_gate steps step status evidence blocker =
     bindR (let current = row_status step; allowed = allowed_targets step_transitions current
            in if status \<notin> set allowed
               then Inl (LoopTransitionError
                 (transition_message ''illegal task step transition '' current status allowed))
               else Inr ()) (\<lambda>_.
     bindR (if status = lit ''running'' then
              bindR (iter_or_nil (dget step (lit ''depends_on''))) (\<lambda>deps.
                let incomplete = incomplete_dependencies steps deps
                in if incomplete = [] then Inr () else Inl (dependency_error incomplete))
            else Inr ()) (\<lambda>_.
     if status = lit ''blocked'' \<and> strip (case blocker of None \<Rightarrow> [] | Some b \<Rightarrow> b) = []
     then Inl (LoopTransitionError (lit ''blocked task step requires --blocker''))
     else if status = lit ''verified'' \<and> strip (case evidence of None \<Rightarrow> [] | Some e \<Rightarrow> e) = []
     then Inl (LoopTransitionError (lit ''verified task step requires --evidence''))
     else Inr ()))"

definition moved_step ::
  "pydict \<Rightarrow> pystr \<Rightarrow> pystr \<Rightarrow> pyval list \<Rightarrow> pystr option \<Rightarrow> pydict" where
  "moved_step step status current_time evidence_rows assignee =
     (let s = dupdate step [(lit ''status'', PyStr status), (lit ''updated_at'', PyStr current_time),
            (lit ''evidence'', PyList evidence_rows)]
      in case assignee of None \<Rightarrow> s | Some a \<Rightarrow> dset s (lit ''assignee'') (or_none a))"

definition resolve_blocker :: "pystr \<Rightarrow> pystr \<Rightarrow> pystr \<Rightarrow> pydict \<Rightarrow> pydict" where
  "resolve_blocker step_id current_time actor row =
     (if dget row (lit ''step_id'') = PyStr step_id \<and> dget row (lit ''status'') = PyStr (lit ''open'')
      then dset (dset (dset row (lit ''status'') (PyStr (lit ''resolved'')))
             (lit ''resolved_at'') (PyStr current_time)) (lit ''resolved_by'') (PyStr actor)
      else row)"

definition open_blocker_of :: "pystr \<Rightarrow> pydict \<Rightarrow> bool" where
  "open_blocker_of step_id row \<longleftrightarrow>
     dget row (lit ''step_id'') = PyStr step_id \<and> dget row (lit ''status'') = PyStr (lit ''open'')"

text \<open>The blocker rows after the move, and the blocker event to write with its row.\<close>

definition moved_blockers ::
  "pydict list \<Rightarrow> pystr \<Rightarrow> pystr \<Rightarrow> pystr \<Rightarrow> pystr option \<Rightarrow> pystr \<Rightarrow> pystr
     \<Rightarrow> (pydict list \<times> (loop_event_type \<times> pydict) option) op" where
  "moved_blockers blockers step_id current status blocker current_time actor =
     (if status = lit ''blocked'' then
        bindP fresh_uuid (\<lambda>hex.
          let row = [(lit ''id'', PyStr (lit ''blocker-'' @ take 12 hex)),
                (lit ''step_id'', PyStr step_id),
                (lit ''reason'', PyStr (strip (case blocker of None \<Rightarrow> lit ''None'' | Some b \<Rightarrow> b))),
                (lit ''status'', PyStr (lit ''open'')),
                (lit ''opened_at'', PyStr current_time), (lit ''opened_by'', PyStr actor)]
          in ret (blockers @ [row], Some (Ev_blocker_opened, row)))
      else if current = lit ''blocked'' then
        let resolved = filter (open_blocker_of step_id) blockers
        in ret (map (resolve_blocker step_id current_time actor) blockers,
             if resolved = [] then None
             else Some (Ev_blocker_resolved,
               resolve_blocker step_id current_time actor (last resolved)))
      else ret (blockers, None))"

definition moved_loop_status :: "pystr \<Rightarrow> pystr \<Rightarrow> pydict list \<Rightarrow> pystr \<Rightarrow> pystr" where
  "moved_loop_status loop_status step_status_new blockers step_id =
     (if step_status_new = lit ''blocked''
         \<and> loop_status \<in> {status_value Created, status_value Running}
      then status_value Blocked
      else if step_status_new = lit ''running''
         \<and> loop_status \<in> {status_value Created, status_value Blocked}
         \<and> \<not> list_ex (\<lambda>row. dget row (lit ''status'') = PyStr (lit ''open'')
               \<and> dget row (lit ''step_id'') \<noteq> PyStr step_id) blockers
      then status_value Running
      else loop_status)"

definition transition_step ::
  "pystr \<Rightarrow> pystr \<Rightarrow> pystr \<Rightarrow> pystr option \<Rightarrow> pystr option \<Rightarrow> pystr option \<Rightarrow> pystr
     \<Rightarrow> py_datetime option \<Rightarrow> loop_run op" where
  "transition_step loop_id step_id status evidence blocker assignee actor now =
     bindP (store_get loop_id) (\<lambda>l.
     bindP (lift_result (case step_index step_id (lr_steps l) of
         None \<Rightarrow> Inl (LoopTransitionError (lit ''task step not found: '' @ step_id))
       | Some i \<Rightarrow> Inr i)) (\<lambda>position.
     let step = lr_steps l ! position; current = row_status step
     in bindP (lift_result (step_gate (lr_steps l) step status evidence blocker)) (\<lambda>_.
     bindP (now_text now) (\<lambda>current_time.
     bindP (lift_result (iter_or_nil (dget step (lit ''evidence'')))) (\<lambda>old_evidence.
     let evidence_rows = old_evidence
           @ (case evidence of None \<Rightarrow> [] | Some e \<Rightarrow> if e = [] then []
              else [PyDict (evidence_row ''value'' current_time e actor)]);
         steps = (lr_steps l)[position :=
           moved_step step status current_time evidence_rows assignee]
     in bindP (moved_blockers (lr_blockers l) step_id current status blocker current_time actor)
       (\<lambda>(blockers, blocker_event).
     let updated = l\<lparr>lr_status := moved_loop_status (lr_status l) status blockers step_id,
           lr_updated_at := current_time, lr_steps := steps, lr_blockers := blockers\<rparr>
     in bindP (store_write updated) (\<lambda>_.
     bindP (store_event updated Ev_step_changed actor
       (step_id @ lit '': '' @ current @ lit '' -> '' @ status)
       [(lit ''step_id'', PyStr step_id), (lit ''from'', PyStr current), (lit ''to'', PyStr status),
        (lit ''evidence'', opt_val (or_missing evidence))] now) (\<lambda>_.
     bindP (case blocker_event of
         None \<Rightarrow> ret ()
       | Some (event_type, payload) \<Rightarrow> store_event updated event_type actor
           (or_str (dget payload (lit ''reason'')) (step_id @ lit '' blocker resolved'')) payload now)
       (\<lambda>_.
     ret updated)))))))))"

section \<open>Human gates\<close>

definition gate_rows :: "string \<Rightarrow> loop_run \<Rightarrow> pydict list" where
  "gate_rows key l = dict_rows (dget (lr_metadata l) (lit key))"

definition open_human_gates :: "loop_run \<Rightarrow> pydict list" where
  "open_human_gates l = gate_rows ''open_human_gates'' l"

definition resolved_human_gates :: "loop_run \<Rightarrow> pydict list" where
  "resolved_human_gates l = gate_rows ''resolved_human_gates'' l"

definition contract_human_gates :: "loop_run \<Rightarrow> pydict list" where
  "contract_human_gates l = gate_rows ''contract_human_gates'' l"

definition validate_contract_gate :: "loop_run \<Rightarrow> pystr \<Rightarrow> unit result" where
  "validate_contract_gate l gate_id =
     (let gates = contract_human_gates l
      in if gates = [] \<or> list_ex (\<lambda>g. or_str (dget g (lit ''id'')) [] = gate_id) gates then Inr ()
         else Inl (LoopTransitionError (lit ''human gate not defined by contract: '' @ gate_id)))"

definition contract_gate_trigger :: "loop_run \<Rightarrow> pystr \<Rightarrow> pystr option" where
  "contract_gate_trigger l gate_id =
     (case filter (\<lambda>g. or_str (dget g (lit ''id'')) [] = gate_id) (contract_human_gates l) of
        [] \<Rightarrow> None
      | g # _ \<Rightarrow> some_str (dget g (lit ''trigger'')))"

definition open_human_gate ::
  "pystr \<Rightarrow> pystr \<Rightarrow> pystr \<Rightarrow> pystr option \<Rightarrow> pystr \<Rightarrow> py_datetime option \<Rightarrow> loop_run op" where
  "open_human_gate loop_id gate_id0 reason0 trigger actor now =
     bindP (lift_result (require_text gate_id0 ''human gate id'')) (\<lambda>gate_id.
     bindP (lift_result (require_text reason0 ''human gate reason'')) (\<lambda>reason.
     bindP (store_get loop_id) (\<lambda>l.
     bindP (lift_result (validate_contract_gate l gate_id)) (\<lambda>_.
     let open_gates = open_human_gates l
     in bindP (check (\<not> list_ex (\<lambda>g. dget g (lit ''id'') = PyStr gate_id) open_gates)
       (LoopTransitionError (lit ''human gate already open: '' @ gate_id))) (\<lambda>_.
     bindP (now_text now) (\<lambda>current_time.
     let gate =
          [(lit ''id'', PyStr gate_id), (lit ''reason'', PyStr reason),
           (lit ''trigger'', opt_val (if opt_text trigger then trigger
              else contract_gate_trigger l gate_id)),
           (lit ''opened_at'', PyStr current_time), (lit ''actor'', PyStr actor)];
         metadata = dsetdefault
           (dset (lr_metadata l) (lit ''open_human_gates'') (rows_val (open_gates @ [gate])))
           (lit ''resolved_human_gates'') (rows_val (resolved_human_gates l));
         updated = l\<lparr>lr_updated_at := current_time, lr_metadata := metadata\<rparr>
     in bindP (store_write updated) (\<lambda>_.
     bindP (store_event updated Ev_human_gate_opened actor
       (lit ''human gate opened: '' @ gate_id) gate now) (\<lambda>_.
     ret updated))))))))"

datatype gate_decision = Approved | Rejected

fun decision_value :: "gate_decision \<Rightarrow> pystr" where
  "decision_value Approved = lit ''approved''"
| "decision_value Rejected = lit ''rejected''"

definition resolve_human_gate ::
  "pystr \<Rightarrow> pystr \<Rightarrow> gate_decision \<Rightarrow> pystr \<Rightarrow> pystr option \<Rightarrow> pystr \<Rightarrow> py_datetime option
     \<Rightarrow> loop_run op" where
  "resolve_human_gate loop_id gate_id0 decision note0 evidence actor now =
     bindP (lift_result (require_text gate_id0 ''human gate id'')) (\<lambda>gate_id.
     bindP (lift_result (require_text note0 ''human gate resolution note'')) (\<lambda>note_text.
     bindP (store_get loop_id) (\<lambda>l.
     let open_gates = open_human_gates l
     in bindP (lift_result
         (case filter (\<lambda>g. dget g (lit ''id'') = PyStr gate_id) open_gates of
            [] \<Rightarrow> Inl (LoopTransitionError (lit ''human gate not open: '' @ gate_id))
          | g # _ \<Rightarrow> Inr g)) (\<lambda>gate.
     bindP (now_text now) (\<lambda>current_time.
     let remaining = filter (\<lambda>g. dget g (lit ''id'') \<noteq> PyStr gate_id) open_gates;
         resolved = dupdate gate
          [(lit ''decision'', PyStr (decision_value decision)), (lit ''note'', PyStr note_text),
           (lit ''evidence'', opt_val (or_missing evidence)),
           (lit ''closed_at'', PyStr current_time), (lit ''resolved_by'', PyStr actor)];
         metadata = dset (dset (lr_metadata l) (lit ''open_human_gates'') (rows_val remaining))
           (lit ''resolved_human_gates'') (rows_val (resolved_human_gates l @ [resolved]));
         updated = l\<lparr>lr_updated_at := current_time, lr_metadata := metadata\<rparr>
     in bindP (store_write updated) (\<lambda>_.
     bindP (store_event updated
       (case decision of Approved \<Rightarrow> Ev_human_gate_approved | Rejected \<Rightarrow> Ev_human_gate_rejected)
       actor (lit ''human gate '' @ decision_value decision @ lit '': '' @ gate_id) resolved now) (\<lambda>_.
     ret updated)))))))"

definition approve_human_gate ::
  "pystr \<Rightarrow> pystr \<Rightarrow> pystr \<Rightarrow> pystr option \<Rightarrow> pystr \<Rightarrow> py_datetime option \<Rightarrow> loop_run op" where
  "approve_human_gate loop_id gate_id note_text evidence actor now =
     resolve_human_gate loop_id gate_id Approved note_text evidence actor now"

definition reject_human_gate ::
  "pystr \<Rightarrow> pystr \<Rightarrow> pystr \<Rightarrow> pystr option \<Rightarrow> pystr \<Rightarrow> py_datetime option \<Rightarrow> loop_run op" where
  "reject_human_gate loop_id gate_id reason evidence actor now =
     resolve_human_gate loop_id gate_id Rejected reason evidence actor now"

end
