(* ===== verification/LoopLedger.thy ===== *)
theory LoopLedger imports LoopStore begin

text \<open>
  The abstract specification of the loop ledger and the proof that the operations of
  \<open>LoopStore\<close> implement it. The abstract ledger is a map from loop ids to runs; a move of the
  ledger replaces one run by another related by \<open>run_step\<close>, one rule per kind of operation.
  Every operation either performs one such move and appends its events, or fails and leaves
  the files as they were. Invariants of the moves then hold of every reachable ledger.
\<close>

section \<open>Rules for the primitives\<close>

text \<open>The states that differ only in how far the clock and the random source were read.\<close>

definition quiet :: "hub \<Rightarrow> hub \<Rightarrow> bool" where
  "quiet h h' \<longleftrightarrow> h\<lparr>h_ticks := 0, h_uuids := 0\<rparr> = h'\<lparr>h_ticks := 0, h_uuids := 0\<rparr>"

text \<open>What no operation of the ledger touches: the sources it draws from and the processes run.\<close>

definition world :: "hub \<Rightarrow> hub" where
  "world h = h\<lparr>h_files := [], h_events := [], h_outcomes := [], h_ticks := 0, h_uuids := 0\<rparr>"

text \<open>A log that grew by events about one loop.\<close>

definition event_of :: "pystr \<Rightarrow> pyval \<Rightarrow> bool" where
  "event_of loop_id row \<longleftrightarrow> (\<exists>e. row = PyDict (event_to_dict e) \<and> le_loop_id e = loop_id)"

definition log_grows :: "pystr \<Rightarrow> pyval list \<Rightarrow> pyval list \<Rightarrow> bool" where
  "log_grows loop_id old new \<longleftrightarrow> (\<exists>rows. new = old @ rows \<and> list_all (event_of loop_id) rows)"

lemma event_of_event [simp]: "le_loop_id e = i \<Longrightarrow> event_of i (PyDict (event_to_dict e))"
  by (auto simp: event_of_def)

lemma log_grows_append [simp]: "log_grows i old (old @ rows) \<longleftrightarrow> list_all (event_of i) rows"
  by (simp add: log_grows_def)

lemma log_grows_refl [simp]: "log_grows i old old"
  by (simp add: log_grows_def)

lemma log_grows_trans: "log_grows i a b \<Longrightarrow> log_grows i b c \<Longrightarrow> log_grows i a c"
  by (auto simp: log_grows_def)

lemma quiet_refl [simp, intro]: "quiet h h"
  by (simp add: quiet_def)

lemma quiet_trans [trans]: "quiet h h' \<Longrightarrow> quiet h' h'' \<Longrightarrow> quiet h h''"
  by (simp add: quiet_def)

lemma quiet_fields:
  assumes "quiet h h'"
  shows "h_files h' = h_files h" "h_events h' = h_events h" "h_outcomes h' = h_outcomes h"
    "world h' = world h"
  using assms by (cases h; cases h'; simp add: quiet_def world_def)+

lemma world_fields:
  assumes "world h' = world h"
  shows "h_process_runs h' = h_process_runs h" "h_process h' = h_process h"
    "h_path_exists h' = h_path_exists h" "h_sha256 h' = h_sha256 h" "h_decode h' = h_decode h"
  using assms by (cases h; cases h'; simp add: world_def)+

lemma wp_read_clock [wp_rules]:
  "(\<And>t h'. \<lbrakk>quiet h h'; h_files h' = h_files h; h_events h' = h_events h; world h' = world h\<rbrakk>
      \<Longrightarrow> Q t h') \<Longrightarrow> wp (read_clock now) Q E h"
  by (auto simp: wp_def read_clock_def quiet_def world_def split: option.splits)

lemma wp_fresh_uuid [wp_rules]:
  "(\<And>t h'. \<lbrakk>quiet h h'; h_files h' = h_files h; h_events h' = h_events h; world h' = world h\<rbrakk>
      \<Longrightarrow> Q t h') \<Longrightarrow> wp fresh_uuid Q E h"
  by (auto simp: wp_def fresh_uuid_def quiet_def world_def)

lemma wp_now_text [wp_rules]:
  "(\<And>t h'. \<lbrakk>quiet h h'; h_files h' = h_files h; h_events h' = h_events h; world h' = world h\<rbrakk>
      \<Longrightarrow> Q t h') \<Longrightarrow> wp (now_text now) Q E h"
  unfolding now_text_def by (intro wp_rules) blast

lemma wp_store_event [wp_rules]:
  assumes "\<And>e h'. h_files h' = h_files h \<Longrightarrow> world h' = world h \<Longrightarrow>
      h_events h' = h_events h @ [PyDict (event_to_dict e)] \<Longrightarrow> le_loop_id e = lr_loop_id l \<Longrightarrow>
      le_event_type e = event_value et \<Longrightarrow> le_payload e = payload \<Longrightarrow> Q () h'"
  shows "wp (store_event l et actor summary payload now) Q E h"
  unfolding store_event_def append_loop_event_def
proof (intro wp_rules)
  fix t1 h1 hex h2 t2 h3
  assume "quiet h h1" "quiet h1 h2" "quiet h2 h3"
  then have q: "quiet h h3" by (blast intro: quiet_trans)
  let ?e = "\<lparr>le_event_id = make_event_id t1 hex, le_loop_id = lr_loop_id l,
       le_timestamp = timestamp t2, le_event_type = event_value et, le_actor = actor,
       le_summary = summary, le_payload = payload\<rparr>"
  let ?h = "h3\<lparr>h_events := h_events h3 @ [PyDict (event_to_dict ?e)]\<rparr>"
  have "world ?h = world h"
    using quiet_fields(4) [OF q] by (simp add: world_def)
  then show "Q () ?h"
    by (intro assms [where e = ?e]) (simp_all add: quiet_fields [OF q])
qed

lemma wp_when_event [wp_rules]:
  assumes "\<And>rows h'. h_files h' = h_files h \<Longrightarrow> world h' = world h \<Longrightarrow>
      h_events h' = h_events h @ rows \<Longrightarrow> list_all (event_of (lr_loop_id l)) rows \<Longrightarrow> Q () h'"
  shows "wp (when_text x (\<lambda>a. store_event l et actor (s a) (p a) now) ()) Q E h"
proof (cases "opt_text x")
  case True
  then obtain a where "x = Some a" "a \<noteq> []" by (auto simp: opt_text_def split: option.splits)
  then show ?thesis
    by (simp add: when_text_def) (rule wp_store_event, rule assms, assumption+, simp)
next
  case False
  then show ?thesis
    using assms [of h "[]"] by (auto simp: when_text_def opt_text_def wp_def split: option.splits)
qed

lemma wp_when_row [wp_rules]:
  assumes "\<And>r h'. \<lbrakk>quiet h h'; h_files h' = h_files h; h_events h' = h_events h; world h' = world h\<rbrakk>
      \<Longrightarrow> \<not> opt_text x \<and> r = y \<or> (\<exists>a t. x = Some a \<and> a \<noteq> [] \<and> r = f a t) \<Longrightarrow> Q r h'"
  shows "wp (when_text x (\<lambda>a. bindP (now_text now) (\<lambda>t. ret (f a t))) y) Q E h"
proof (cases "opt_text x")
  case True
  then obtain a where "x = Some a" "a \<noteq> []" by (auto simp: opt_text_def split: option.splits)
  then show ?thesis
    by (simp add: when_text_def) (intro wp_rules assms; auto)
next
  case False
  then show ?thesis
    using assms [of h y] by (auto simp: when_text_def opt_text_def wp_def split: option.splits)
qed

definition read_run :: "hub \<Rightarrow> pystr \<Rightarrow> loop_run result" where
  "read_run h loop_id = fst (store_get loop_id h)"

lemma wp_store_get [wp_rules]:
  "(\<And>l. read_run h loop_id = Inr l \<Longrightarrow> Q l h) \<Longrightarrow> (\<And>e. read_run h loop_id = Inl e \<Longrightarrow> E e h) \<Longrightarrow>
     wp (store_get loop_id) Q E h"
  by (auto simp: wp_def read_run_def store_get_def split: option.splits sum.splits)

section \<open>The abstract moves\<close>

definition gate_ids :: "pydict list \<Rightarrow> pyval list" where
  "gate_ids gates = map (\<lambda>g. dget g (lit ''id'')) gates"

definition same_but_gates :: "pydict \<Rightarrow> pydict \<Rightarrow> bool" where
  "same_but_gates m m' \<longleftrightarrow>
     (\<forall>k. k \<notin> {lit ''open_human_gates'', lit ''resolved_human_gates''} \<longrightarrow> dget m' k = dget m k)"

text \<open>A step may be verified only with an evidence row of it that says something.\<close>

definition says_evidence :: "pyval \<Rightarrow> bool" where
  "says_evidence v \<longleftrightarrow> (case v of PyDict row \<Rightarrow> has_text (dget row (lit ''value'')) | _ \<Rightarrow> False)"

inductive run_step :: "loop_run \<Rightarrow> loop_run \<Rightarrow> bool" where
  rs_checkpoint:
    "\<lbrakk>\<not> loop_terminal (lr_status l);
      s = (if lr_status l \<in> {status_value Failed, status_value Created} then status_value Running
           else lr_status l)\<rbrakk>
     \<Longrightarrow> run_step l (l\<lparr>lr_status := s, lr_updated_at := t, lr_checkpoints := cs, lr_artifacts := as\<rparr>)"
| rs_complete:
    "\<lbrakk>unfinished_steps l = []; lr_status l = status_value Running;
      require_completion_evidence rs None = Inr ()\<rbrakk>
     \<Longrightarrow> run_step l (l\<lparr>lr_status := status_value Completed, lr_updated_at := t,
           lr_verification_results := rs, lr_artifacts := as, lr_outcome := out\<rparr>)"
| rs_fail:
    "validate_transition (lr_status l) (status_value Failed) = Inr ()
     \<Longrightarrow> run_step l (l\<lparr>lr_status := status_value Failed, lr_updated_at := t,
           lr_verification_results := lr_verification_results l @ rs, lr_outcome := out\<rparr>)"
| rs_block:
    "validate_transition (lr_status l) (status_value Blocked) = Inr ()
     \<Longrightarrow> run_step l (l\<lparr>lr_status := status_value Blocked, lr_updated_at := t, lr_outcome := out\<rparr>)"
| rs_blocked_already:
    "lr_status l = status_value Blocked \<Longrightarrow> run_step l l"
| rs_feedback:
    "run_step l (l\<lparr>lr_updated_at := t,
        lr_verification_results := lr_verification_results l @ [feedback_to_dict f]\<rparr>)"
| rs_add_step:
    "\<lbrakk>\<not> loop_terminal (lr_status l);
      set deps \<subseteq> set (map (\<lambda>s. py_str (dget s (lit ''id''))) (lr_steps l));
      dget step (lit ''id'') = PyStr i; dget step (lit ''status'') = PyStr (lit ''pending'');
      dget step (lit ''depends_on'') = PyList (map PyStr deps);
      dget step (lit ''evidence'') = PyList []\<rbrakk>
     \<Longrightarrow> run_step l (l\<lparr>lr_updated_at := t, lr_steps := lr_steps l @ [step]\<rparr>)"
| rs_move_step:
    "\<lbrakk>step_index i (lr_steps l) = Some n;
      step_gate (lr_steps l) (lr_steps l ! n) status ev bl = Inr ();
      bs = (if status = lit ''blocked'' then lr_blockers l @ [row]
            else if row_status (lr_steps l ! n) = lit ''blocked''
            then map (resolve_blocker i t actor) (lr_blockers l) else lr_blockers l);
      open_blocker_of i row; status = lit ''verified'' \<longrightarrow> list_ex says_evidence evs\<rbrakk>
     \<Longrightarrow> run_step l (l\<lparr>lr_status := moved_loop_status (lr_status l) status bs i, lr_updated_at := t,
           lr_steps := (lr_steps l)[n := moved_step (lr_steps l ! n) status t evs asg],
           lr_blockers := bs\<rparr>)"
| rs_open_gate:
    "\<lbrakk>PyStr g \<notin> set (gate_ids (open_human_gates l)); dget gate (lit ''id'') = PyStr g;
      dget m (lit ''open_human_gates'') = rows_val (open_human_gates l @ [gate]);
      same_but_gates (lr_metadata l) m\<rbrakk>
     \<Longrightarrow> run_step l (l\<lparr>lr_updated_at := t, lr_metadata := m\<rparr>)"
| rs_resolve_gate:
    "\<lbrakk>PyStr g \<in> set (gate_ids (open_human_gates l));
      dget m (lit ''open_human_gates'')
        = rows_val (filter (\<lambda>r. dget r (lit ''id'') \<noteq> PyStr g) (open_human_gates l));
      same_but_gates (lr_metadata l) m\<rbrakk>
     \<Longrightarrow> run_step l (l\<lparr>lr_updated_at := t, lr_metadata := m\<rparr>)"

inductive_cases run_step_cases: "run_step l l'"

text \<open>
  What every operation on an existing loop promises: with a result, the stored run made one
  move, the file of that run was rewritten and events about it were appended; with an error,
  no file changed.
\<close>

definition put_run :: "loop_run \<Rightarrow> (pystr \<times> pyval option) list \<Rightarrow> (pystr \<times> pyval option) list" where
  "put_run l files = AList.update (lr_loop_id l) (Some (PyDict (run_to_dict l))) files"

definition moves_run :: "hub \<Rightarrow> pystr \<Rightarrow> loop_run \<Rightarrow> hub \<Rightarrow> bool" where
  "moves_run h loop_id l' h' \<longleftrightarrow>
     world h' = world h \<and>
     (\<exists>l. read_run h loop_id = Inr l \<and> run_step l l' \<and> lr_loop_id l' = lr_loop_id l
       \<and> log_grows (lr_loop_id l) (h_events h) (h_events h')
       \<and> (h_files h' = put_run l' (h_files h) \<or> l' = l \<and> h_files h' = h_files h))"

text \<open>An error leaves the files, the log and the outcomes as they were.\<close>

abbreviation no_effect :: "hub \<Rightarrow> py_exn \<Rightarrow> hub \<Rightarrow> bool" where
  "no_effect h e h' \<equiv> quiet h h'"

lemma wp_store_write [wp_rules]:
  "(\<And>h'. h_files h' = put_run l (h_files h) \<Longrightarrow> h_events h' = h_events h \<Longrightarrow>
      world h' = world h \<Longrightarrow> Q () h') \<Longrightarrow> wp (store_write l) Q E h"
  by (simp add: wp_def store_write_def put_run_def world_def)

lemma wp_record_learning_outcome [wp_rules]:
  "(\<And>h'. h_files h' = h_files h \<Longrightarrow> h_events h' = h_events h \<Longrightarrow> world h' = world h \<Longrightarrow> Q () h') \<Longrightarrow>
     wp (record_learning_outcome l success) Q E h"
  by (simp add: wp_def record_learning_outcome_def world_def)

lemma moves_runI:
  "read_run h i = Inr l \<Longrightarrow> run_step l l' \<Longrightarrow> lr_loop_id l' = lr_loop_id l \<Longrightarrow>
     h_files h' = put_run l' (h_files h) \<Longrightarrow> world h' = world h \<Longrightarrow>
     log_grows (lr_loop_id l) (h_events h) (h_events h') \<Longrightarrow> moves_run h i l' h'"
  by (auto simp: moves_run_def)

lemma not_terminal: "s \<notin> {status_value Completed, status_value Cancelled} \<longleftrightarrow> \<not> loop_terminal s"
  by (simp add: loop_terminal_def)

lemma evidence_kept:
  "require_completion_evidence rs None = Inr () \<Longrightarrow> require_completion_evidence (rs @ rs') None = Inr ()"
  by (auto simp: require_completion_evidence_def Let_def split: if_splits)

lemma evidence_added:
  assumes "require_completion_evidence rs evidence = Inr ()"
  shows "evidence = Some e \<Longrightarrow>
      require_completion_evidence (rs @ [evidence_row ''evidence'' t e actor]) None = Inr ()"
    and "\<not> opt_text evidence \<Longrightarrow> require_completion_evidence rs None = Inr ()"
  using assms
  by (auto simp: require_completion_evidence_def Let_def evidence_row_def has_text_def opt_text_def
      split: if_splits option.splits)

text \<open>The rules with the new run as a variable: its written fields are read off the run itself.\<close>

lemma rs_checkpointI:
  "\<lbrakk>\<not> loop_terminal (lr_status l);
    lr_status l' = (if lr_status l \<in> {status_value Failed, status_value Created}
      then status_value Running else lr_status l);
    l' = l\<lparr>lr_status := lr_status l', lr_updated_at := lr_updated_at l',
      lr_checkpoints := lr_checkpoints l', lr_artifacts := lr_artifacts l'\<rparr>\<rbrakk>
   \<Longrightarrow> run_step l l'"
  by (erule ssubst [of l'], rule rs_checkpoint) simp_all

lemma rs_completeI:
  "\<lbrakk>unfinished_steps l = []; lr_status l = status_value Running;
    lr_status l' = status_value Completed;
    require_completion_evidence (lr_verification_results l') None = Inr ();
    l' = l\<lparr>lr_status := lr_status l', lr_updated_at := lr_updated_at l',
      lr_verification_results := lr_verification_results l', lr_artifacts := lr_artifacts l',
      lr_outcome := lr_outcome l'\<rparr>\<rbrakk>
   \<Longrightarrow> run_step l l'"
  using rs_complete [where l = l and rs = "lr_verification_results l'" and t = "lr_updated_at l'"
      and as = "lr_artifacts l'" and out = "lr_outcome l'"]
  by simp

lemma rs_failI:
  "\<lbrakk>validate_transition (lr_status l) (status_value Failed) = Inr ();
    lr_status l' = status_value Failed;
    prefix (lr_verification_results l) (lr_verification_results l');
    l' = l\<lparr>lr_status := lr_status l', lr_updated_at := lr_updated_at l',
      lr_verification_results := lr_verification_results l', lr_outcome := lr_outcome l'\<rparr>\<rbrakk>
   \<Longrightarrow> run_step l l'"
  using rs_fail [where l = l and t = "lr_updated_at l'" and out = "lr_outcome l'"]
  by (metis prefixE)

lemma store_block_spec:
  "wp (store_block loop_id reason actor now) (\<lambda>l' h'. moves_run h loop_id l' h') (no_effect h) h"
  unfolding store_block_def Let_def
  by (intro wp_rules)
    (auto simp: moves_run_def intro!: rs_block rs_blocked_already)

lemma store_fail_spec:
  "wp (store_fail loop_id reason evidence actor now) (\<lambda>l' h'. moves_run h loop_id l' h') (no_effect h) h"
  unfolding store_fail_def Let_def
  by (intro wp_rules) (auto intro!: moves_runI rs_failI)

lemma store_checkpoint_spec:
  "wp (store_checkpoint loop_id note_text artifact actor now)
     (\<lambda>l' h'. moves_run h loop_id l' h') (no_effect h) h"
  unfolding store_checkpoint_def status_change_def Let_def not_terminal
  by (intro wp_rules) (auto intro!: moves_runI rs_checkpointI)

lemma completedI:
  assumes "read_run h loop_id = Inr l" "unfinished_steps l = []"
    "require_completion_evidence (lr_verification_results l) evidence = Inr u"
    "validate_transition (lr_status l) (status_value Completed) = Inr v"
    "\<not> opt_text evidence \<and> rs = lr_verification_results l \<or>
     (\<exists>e t. evidence = Some e \<and> e \<noteq> [] \<and> rs = lr_verification_results l @ [evidence_row ''evidence'' t e actor])"
    "h_files h' = put_run (l\<lparr>lr_status := status_value Completed, lr_updated_at := t,
           lr_verification_results := rs, lr_artifacts := as, lr_outcome := out\<rparr>) (h_files h)"
    "world h' = world h" "log_grows (lr_loop_id l) (h_events h) (h_events h')"
  shows "moves_run h loop_id (l\<lparr>lr_status := status_value Completed, lr_updated_at := t,
           lr_verification_results := rs, lr_artifacts := as, lr_outcome := out\<rparr>) h'"
proof (rule moves_runI [OF assms(1)])
  have "require_completion_evidence rs None = Inr ()"
    using assms(3,5) evidence_added by (cases u) fastforce
  moreover have "lr_status l = status_value Running"
    using assms(4) by (cases v) (auto simp: validate_transition_Inr_iff dest: completed_only_from_running)
  ultimately show "run_step l (l\<lparr>lr_status := status_value Completed, lr_updated_at := t,
           lr_verification_results := rs, lr_artifacts := as, lr_outcome := out\<rparr>)"
    using assms(2) by (auto intro: rs_complete)
qed (use assms in simp_all)

lemma store_complete_spec:
  "wp (store_complete loop_id evidence artifact actor now)
     (\<lambda>l' h'. moves_run h loop_id l' h') (no_effect h) h"
  unfolding store_complete_def Let_def
  by (intro wp_rules; (erule (4) completedI; simp)?) (blast intro: quiet_trans)+

lemma add_verification_feedback_spec:
  "wp (add_verification_feedback loop_id f actor now)
     (\<lambda>l' h'. moves_run h loop_id l' h') (no_effect h) h"
  unfolding add_verification_feedback_def Let_def
  by (intro wp_rules) (auto intro!: moves_runI rs_feedback)

lemma store_add_step_spec:
  "wp (store_add_step loop_id title depends_on assignee actor now)
     (\<lambda>l' h'. moves_run h loop_id l' h') (no_effect h) h"
  unfolding store_add_step_def Let_def not_terminal
  by (intro wp_rules)
    (auto simp: filter_empty_conv intro!: moves_runI
      rs_add_step [where deps = "dedup depends_on"])

lemma same_but_gates_open [simp]:
  "same_but_gates m (dsetdefault (dset m (lit ''open_human_gates'') v) (lit ''resolved_human_gates'') w)"
  by (auto simp: same_but_gates_def dsetdefault_def split: option.splits)

lemma same_but_gates_resolve [simp]:
  "same_but_gates m (dset (dset m (lit ''open_human_gates'') v) (lit ''resolved_human_gates'') w)"
  by (auto simp: same_but_gates_def)

lemma dget_dsetdefault_other [simp]:
  "k' \<noteq> k \<Longrightarrow> dget (dsetdefault d k v) k' = dget d k'"
  by (simp add: dsetdefault_def split: option.splits)

lemma rs_open_gate_made:
  "PyStr g \<notin> set (gate_ids (open_human_gates l)) \<Longrightarrow>
   run_step l (l\<lparr>lr_updated_at := t, lr_metadata :=
     dsetdefault (dset (lr_metadata l) (lit ''open_human_gates'')
         (rows_val (open_human_gates l @ [(lit ''id'', PyStr g) # rest])))
       (lit ''resolved_human_gates'') w\<rparr>)"
  by (rule rs_open_gate [where gate = "(lit ''id'', PyStr g) # rest" and g = g]) simp_all

lemma rs_resolve_gate_made:
  "PyStr g \<in> set (gate_ids (open_human_gates l)) \<Longrightarrow>
   run_step l (l\<lparr>lr_updated_at := t, lr_metadata :=
     dset (dset (lr_metadata l) (lit ''open_human_gates'')
         (rows_val (filter (\<lambda>r. dget r (lit ''id'') \<noteq> PyStr g) (open_human_gates l))))
       (lit ''resolved_human_gates'') w\<rparr>)"
  by (rule rs_resolve_gate [where g = g]) simp_all

lemma gate_open_iff [simp]:
  "list_ex (\<lambda>g. dget g (lit ''id'') = PyStr i) gates \<longleftrightarrow> PyStr i \<in> set (gate_ids gates)"
  by (induction gates) (auto simp: gate_ids_def)

lemma gate_listed:
  "filter (\<lambda>g. dget g (lit ''id'') = PyStr i) gates = x # xs \<Longrightarrow> PyStr i \<in> set (gate_ids gates)"
  by (force simp: gate_ids_def filter_eq_Cons_iff)

lemma open_human_gate_spec:
  "wp (open_human_gate loop_id gate_id reason trigger actor now)
     (\<lambda>l' h'. moves_run h loop_id l' h') (no_effect h) h"
  unfolding open_human_gate_def Let_def
  by (intro wp_rules)
    (auto intro!: moves_runI rs_open_gate_made)

lemma resolve_human_gate_spec:
  "wp (resolve_human_gate loop_id gate_id decision note_text evidence actor now)
     (\<lambda>l' h'. moves_run h loop_id l' h') (no_effect h) h"
  unfolding resolve_human_gate_def Let_def
  by (intro wp_rules)
    (auto split: list.splits dest: gate_listed
      intro!: moves_runI rs_resolve_gate_made)

lemma wp_moved_blockers [wp_rules]:
  assumes made: "\<And>bs ev row h'. \<lbrakk>quiet h h'; h_files h' = h_files h; h_events h' = h_events h;
      world h' = world h\<rbrakk> \<Longrightarrow> open_blocker_of step_id row \<Longrightarrow>
    bs = (if status = lit ''blocked'' then blockers @ [row]
            else if current = lit ''blocked''
            then map (resolve_blocker step_id t actor) blockers else blockers) \<Longrightarrow> Q (bs, ev) h'"
  shows "wp (moved_blockers blockers step_id current status blocker t actor) Q E h"
proof (cases "status = lit ''blocked''")
  case True
  then show ?thesis
    unfolding moved_blockers_def Let_def
    by simp (intro wp_rules, auto intro!: made simp: open_blocker_of_def)
next
  case False
  have row: "open_blocker_of step_id
      [(lit ''step_id'', PyStr step_id), (lit ''status'', PyStr (lit ''open''))]"
    by (simp add: open_blocker_of_def)
  show ?thesis
    using False made [OF quiet_refl refl refl refl row]
    by (cases "current = lit ''blocked''") (simp_all add: moved_blockers_def Let_def wp_def ret_def)
qed

lemma wp_case_pair [wp_rules]:
  "(\<And>a b. p = (a, b) \<Longrightarrow> wp (f a b) Q E h) \<Longrightarrow> wp (case p of (a, b) \<Rightarrow> f a b) Q E h"
  by (simp add: split_beta)

lemma wp_case_option [wp_rules]:
  "(x = None \<Longrightarrow> wp f Q E h) \<Longrightarrow> (\<And>y. x = Some y \<Longrightarrow> wp (g y) Q E h) \<Longrightarrow>
     wp (case x of None \<Rightarrow> f | Some y \<Rightarrow> g y) Q E h"
  by (cases x) simp_all

lemma verified_evidence:
  "step_gate steps s status evidence bl = Inr () \<Longrightarrow> status = lit ''verified'' \<longrightarrow> list_ex says_evidence
     (old @ (case evidence of None \<Rightarrow> [] | Some e \<Rightarrow> if e = [] then []
       else [PyDict (evidence_row ''value'' t e actor)]))"
  by (auto simp: step_gate_def Let_def bindR_Inr_iff says_evidence_def evidence_row_def has_text_def
      split: if_splits option.splits)

lemma moved_stepI:
  assumes "read_run h loop_id = Inr l"
    "(case step_index i (lr_steps l) of None \<Rightarrow> Inl e | Some n \<Rightarrow> Inr n) = Inr n"
    "step_gate (lr_steps l) (lr_steps l ! n) status evidence bl = Inr u"
    "open_blocker_of i row"
    "bs = (if status = lit ''blocked'' then lr_blockers l @ [row]
            else if row_status (lr_steps l ! n) = lit ''blocked''
            then map (resolve_blocker i t actor) (lr_blockers l) else lr_blockers l)"
    "(bs, ev) = (blockers, blocker_event)"
    "h_files h' = put_run (l\<lparr>lr_status := moved_loop_status (lr_status l) status blockers i,
           lr_updated_at := t,
           lr_steps := (lr_steps l)[n := moved_step (lr_steps l ! n) status t (old @
             (case evidence of None \<Rightarrow> [] | Some e \<Rightarrow> if e = [] then []
              else [PyDict (evidence_row ''value'' t e actor)])) assignee],
           lr_blockers := blockers\<rparr>) (h_files h)"
    "world h' = world h" "log_grows (lr_loop_id l) (h_events h) (h_events h')"
  shows "moves_run h loop_id (l\<lparr>lr_status := moved_loop_status (lr_status l) status blockers i,
           lr_updated_at := t,
           lr_steps := (lr_steps l)[n := moved_step (lr_steps l ! n) status t (old @
             (case evidence of None \<Rightarrow> [] | Some e \<Rightarrow> if e = [] then []
              else [PyDict (evidence_row ''value'' t e actor)])) assignee],
           lr_blockers := blockers\<rparr>) h'"
proof (rule moves_runI [OF assms(1)])
  have gate: "step_gate (lr_steps l) (lr_steps l ! n) status evidence bl = Inr ()"
    using assms(3) by (cases u) simp
  show "run_step l (l\<lparr>lr_status := moved_loop_status (lr_status l) status blockers i,
           lr_updated_at := t,
           lr_steps := (lr_steps l)[n := moved_step (lr_steps l ! n) status t (old @
             (case evidence of None \<Rightarrow> [] | Some e \<Rightarrow> if e = [] then []
              else [PyDict (evidence_row ''value'' t e actor)])) assignee],
           lr_blockers := blockers\<rparr>)"
    by (rule rs_move_step [OF _ gate _ assms(4)])
      (use assms verified_evidence [OF gate] in \<open>auto split: option.splits\<close>)
qed (use assms in simp_all)

lemma transition_step_spec:
  "wp (transition_step loop_id step_id status evidence blocker assignee actor now)
     (\<lambda>l' h'. moves_run h loop_id l' h') (no_effect h) h"
  unfolding transition_step_def Let_def
  by (intro wp_rules; (erule (5) moved_stepI; simp)?)
    (blast intro: quiet_trans)+

end
