(* ===== verification/LoopInvariants.thy ===== *)
theory LoopInvariants imports LoopLedger begin

text \<open>
  Invariants of the loop ledger. \<open>lifetime\<close> collects the runs that creation and the moves of
  \<open>run_step\<close> can produce; an invariant is proved once per move, through the contract
  \<open>run_invariant\<close>, and then holds of every run that any history of commands can store.
\<close>

section \<open>Runs that can exist\<close>

definition new_run :: "loop_run \<Rightarrow> bool" where
  "new_run l \<longleftrightarrow> storable l \<and> lr_status l \<in> {status_value Created, status_value Running}
     \<and> lr_verification_results l = [] \<and> lr_steps l = [] \<and> lr_blockers l = []
     \<and> open_human_gates l = []"

inductive lifetime :: "loop_run \<Rightarrow> bool" where
  lifetime_new: "new_run l \<Longrightarrow> lifetime l"
| lifetime_step: "lifetime l \<Longrightarrow> run_step l l' \<Longrightarrow> lifetime l'"

locale run_invariant =
  fixes I :: "loop_run \<Rightarrow> bool"
  assumes created: "new_run l \<Longrightarrow> I l"
    and kept: "run_step l l' \<Longrightarrow> I l \<Longrightarrow> I l'"
begin

lemma always: "lifetime l \<Longrightarrow> I l"
  by (induction rule: lifetime.induct) (simp_all add: created kept)

end

section \<open>Facts about single moves\<close>

interpretation step_table: transition_table "allowed_targets step_transitions"
    "\<lambda>s. s \<in> {lit ''verified'', lit ''cancelled''}"
  by unfold_locales (auto simp: allowed_targets_def step_transitions_def)

lemma loop_id_kept: "run_step l l' \<Longrightarrow> lr_loop_id l' = lr_loop_id l"
  by (erule run_step_cases) auto

lemma moved_loop_status_cases:
  "moved_loop_status s t bs i = s \<or>
   moved_loop_status s t bs i \<in> set (allowed_targets allowed_transitions s)"
  by (auto simp: moved_loop_status_def)

lemma status_moves:
  "run_step l l' \<Longrightarrow> lr_status l' = lr_status l \<or>
     lr_status l' \<in> set (allowed_targets allowed_transitions (lr_status l))"
  by (erule run_step_cases) (use moved_loop_status_cases in \<open>auto simp: validate_transition_Inr_iff\<close>)

lemma step_index_Some:
  "step_index i steps = Some n \<Longrightarrow> n < length steps \<and> dget (steps ! n) (lit ''id'') = PyStr i"
  by (induction steps arbitrary: n) (auto split: if_splits)

lemma step_index_append:
  "step_index i (steps @ new) =
     (case step_index i steps of Some n \<Rightarrow> Some n
      | None \<Rightarrow> map_option (\<lambda>n. length steps + n) (step_index i new))"
  by (cases "step_index i new"; induction steps) (auto split: option.splits)

lemma step_index_update:
  "dget s (lit ''id'') = dget (steps ! n) (lit ''id'') \<Longrightarrow> step_index i (steps[n := s]) = step_index i steps"
  by (induction steps arbitrary: n) (auto split: nat.splits)

lemma moved_step_fields [simp]:
  "dget (moved_step s st t evs asg) (lit ''id'') = dget s (lit ''id'')"
  "dget (moved_step s st t evs asg) (lit ''depends_on'') = dget s (lit ''depends_on'')"
  "dget (moved_step s st t evs asg) (lit ''status'') = PyStr st"
  by (auto simp: moved_step_def Let_def dupdate_def split: option.splits)

lemma row_status_moved [simp]: "st \<noteq> [] \<Longrightarrow> row_status (moved_step s st t evs asg) = st"
  by (simp add: row_status_def)

text \<open>A step that may move to \<open>status\<close>: the change is in the table, its other demands are met.\<close>

lemma step_gate_Inr:
  "step_gate steps s status ev bl = Inr () \<Longrightarrow>
     status \<in> set (allowed_targets step_transitions (row_status s)) \<and>
     (status = lit ''running'' \<longrightarrow>
       (\<exists>ds. iter_or_nil (dget s (lit ''depends_on'')) = Inr ds \<and> incomplete_dependencies steps ds = []))"
  by (auto simp: step_gate_def Let_def bindR_Inr_iff split: if_splits)

lemma step_targets:
  "status \<in> set (allowed_targets step_transitions current) \<longleftrightarrow>
     (current, status) \<in> {(lit ''pending'', lit ''running''), (lit ''pending'', lit ''blocked''),
       (lit ''pending'', lit ''cancelled''), (lit ''running'', lit ''blocked''),
       (lit ''running'', lit ''completed''), (lit ''running'', lit ''cancelled''),
       (lit ''blocked'', lit ''running''), (lit ''blocked'', lit ''cancelled''),
       (lit ''completed'', lit ''verified''), (lit ''completed'', lit ''running'')}"
  by (auto simp: allowed_targets_def step_transitions_def split: if_splits)

lemma step_status_append:
  "step_status (steps @ [s]) j =
     (case step_status steps j of Some v \<Rightarrow> Some v
      | None \<Rightarrow> if dget s (lit ''id'') = PyStr j then Some (row_status s) else None)"
  by (auto simp: step_status_def step_index_append nth_append dest: step_index_Some split: option.splits)

lemma step_status_moved:
  assumes "step_index i steps = Some n" and "st \<noteq> []"
  shows "step_status (steps[n := moved_step (steps ! n) st t evs asg]) j =
     (if j = i then Some st else step_status steps j)"
proof -
  have "step_index j steps = Some m \<Longrightarrow> j \<noteq> i \<Longrightarrow> m \<noteq> n" for m
    using step_index_Some [OF assms(1)] step_index_Some [of j steps m] by auto
  then show ?thesis
    using assms step_index_Some [OF assms(1)]
    by (auto simp: step_status_def step_index_update nth_list_update split: option.splits)
qed

lemma step_status_of_index:
  "step_index i steps = Some n \<Longrightarrow> step_status steps i = Some (row_status (steps ! n))"
  by (simp add: step_status_def)

section \<open>Completion needs finished steps and evidence\<close>

definition completion_sound :: "loop_run \<Rightarrow> bool" where
  "completion_sound l \<longleftrightarrow> (lr_status l = status_value Completed \<longrightarrow>
     list_all step_finished (lr_steps l)
     \<and> require_completion_evidence (lr_verification_results l) None = Inr ())"

lemma unfinished_Nil: "unfinished_steps l = [] \<longleftrightarrow> list_all step_finished (lr_steps l)"
  by (simp add: unfinished_steps_def filter_empty_conv list_all_iff)

lemma finished_stuck:
  "step_finished s \<Longrightarrow> step_gate steps s status ev bl \<noteq> Inr ()"
  by (auto simp: step_finished_def row_status_def step_targets dest: step_gate_Inr)

lemma moved_not_completed:
  "moved_loop_status s t bs i = status_value Completed \<longleftrightarrow> s = status_value Completed"
  by (auto simp: moved_loop_status_def)

interpretation completion: run_invariant completion_sound
proof
  fix l l'
  assume "run_step l l'" and "completion_sound l"
  then show "completion_sound l'"
  proof (cases rule: run_step.cases)
    case (rs_add_step deps step i t)
    then show ?thesis
      using \<open>completion_sound l\<close> by (auto simp: completion_sound_def loop_terminal_def)
  next
    case (rs_move_step i n status ev bl bs row t actor evs asg)
    then have "\<not> step_finished (lr_steps l ! n)" "n < length (lr_steps l)"
      using finished_stuck step_index_Some by blast+
    then have "\<not> list_all step_finished (lr_steps l)"
      by (auto simp: list_all_length)
    then show ?thesis
      using rs_move_step \<open>completion_sound l\<close> by (simp add: completion_sound_def moved_not_completed)
  qed (auto simp: completion_sound_def unfinished_Nil intro: evidence_kept)
qed (auto simp: completion_sound_def new_run_def)

section \<open>A step runs only after its dependencies were verified\<close>

definition step_ready :: "pydict list \<Rightarrow> pydict \<Rightarrow> bool" where
  "step_ready steps s \<longleftrightarrow>
     (case iter_or_nil (dget s (lit ''depends_on'')) of Inl _ \<Rightarrow> False
      | Inr ds \<Rightarrow> list_all (\<lambda>d. step_status steps (py_str d) = Some (lit ''verified'')) ds)"

definition step_started :: "pydict \<Rightarrow> bool" where
  "step_started s \<longleftrightarrow>
     row_status s \<in> {lit ''running'', lit ''completed'', lit ''verified''}"

definition dependencies_sound :: "loop_run \<Rightarrow> bool" where
  "dependencies_sound l \<longleftrightarrow>
     list_all (\<lambda>s. step_started s \<longrightarrow> step_ready (lr_steps l) s) (lr_steps l)"

lemma incomplete_Nil:
  "incomplete_dependencies steps ds = [] \<longleftrightarrow>
     list_all (\<lambda>d. step_status steps (py_str d) = Some (lit ''verified'')) ds"
  by (auto simp: incomplete_dependencies_def filter_empty_conv list_all_iff)

lemma step_ready_mono:
  "step_ready steps s \<Longrightarrow>
   (\<And>j. step_status steps j = Some (lit ''verified'') \<Longrightarrow> step_status steps' j = Some (lit ''verified'')) \<Longrightarrow>
   step_ready steps' s"
  by (auto simp: step_ready_def list_all_iff split: sum.splits)

lemma step_ready_moved [simp]: "step_ready steps (moved_step s st t evs asg) = step_ready steps s"
  by (simp add: step_ready_def)

lemma moved_target:
  "step_gate steps s status ev bl = Inr () \<Longrightarrow> status \<noteq> [] \<and> row_status s \<noteq> lit ''verified''"
  by (auto dest!: step_gate_Inr simp: step_targets)

lemma moved_ready:
  assumes "step_gate steps s status ev bl = Inr ()" and "step_started s \<longrightarrow> step_ready steps s"
    and "status \<in> {lit ''running'', lit ''completed'', lit ''verified''}"
  shows "step_ready steps s"
  using step_gate_Inr [OF assms(1)] assms(2,3)
  by (auto simp: step_targets step_started_def step_ready_def incomplete_Nil)

interpretation dependencies: run_invariant dependencies_sound
proof
  fix l l'
  assume "run_step l l'" and inv: "dependencies_sound l"
  then show "dependencies_sound l'"
  proof (cases rule: run_step.cases)
    case (rs_add_step deps step i t)
    then have "\<not> step_started step"
      by (simp add: step_started_def row_status_def)
    then show ?thesis
      using rs_add_step inv
      by (auto simp: dependencies_sound_def list_all_iff step_status_append elim!: step_ready_mono)
  next
    case (rs_move_step i n status ev bl bs row t actor evs asg)
    let ?s = "lr_steps l ! n" and ?steps = "lr_steps l"
    note idx = step_index_Some [OF \<open>step_index i ?steps = Some n\<close>]
    note moved = moved_target [OF \<open>step_gate ?steps ?s status ev bl = Inr ()\<close>]
    have old: "step_started s \<longrightarrow> step_ready ?steps s" if "s \<in> set ?steps" for s
      using inv that by (simp add: dependencies_sound_def list_all_iff)
    have keep: "step_status ?steps j = Some (lit ''verified'') \<Longrightarrow>
        step_status (?steps[n := moved_step ?s status t evs asg]) j = Some (lit ''verified'')" for j
      using moved idx step_status_of_index [OF \<open>step_index i ?steps = Some n\<close>]
      by (subst step_status_moved [OF \<open>step_index i ?steps = Some n\<close>]) auto
    have "step_started s \<longrightarrow> step_ready (?steps[n := moved_step ?s status t evs asg]) s"
      if "s \<in> set (?steps[n := moved_step ?s status t evs asg])" for s
    proof -
      from that have "s \<in> set ?steps \<or> s = moved_step ?s status t evs asg"
        using set_update_subset_insert by fastforce
      then have "step_started s \<Longrightarrow> step_ready ?steps s"
        using old moved idx moved_ready [OF \<open>step_gate ?steps ?s status ev bl = Inr ()\<close>]
        by (auto simp: step_started_def)
      then show ?thesis
        using keep by (auto elim!: step_ready_mono)
    qed
    then show ?thesis
      using rs_move_step by (simp add: dependencies_sound_def list_all_iff)
  qed (simp_all add: dependencies_sound_def)
qed (simp add: dependencies_sound_def new_run_def)

section \<open>A step is blocked exactly while a blocker of it is open\<close>

definition blocker_open :: "loop_run \<Rightarrow> pystr \<Rightarrow> bool" where
  "blocker_open l i \<longleftrightarrow> list_ex (open_blocker_of i) (lr_blockers l)"

definition blockers_sound :: "loop_run \<Rightarrow> bool" where
  "blockers_sound l \<longleftrightarrow>
     (\<forall>i. blocker_open l i \<longleftrightarrow> step_status (lr_steps l) i = Some (lit ''blocked''))"

lemma resolve_blocker_open [simp]:
  "open_blocker_of j (resolve_blocker i t actor row) \<longleftrightarrow> j \<noteq> i \<and> open_blocker_of j row"
  by (auto simp: resolve_blocker_def open_blocker_of_def)

lemma open_blocker_unique: "open_blocker_of i row \<Longrightarrow> open_blocker_of j row \<longleftrightarrow> j = i"
  by (auto simp: open_blocker_of_def)

interpretation blockers: run_invariant blockers_sound
proof
  fix l l'
  assume "run_step l l'" and inv: "blockers_sound l"
  then show "blockers_sound l'"
  proof (cases rule: run_step.cases)
    case (rs_add_step deps step i t)
    then have "row_status step = lit ''pending''"
      by (simp add: row_status_def)
    then show ?thesis
      using rs_add_step inv
      by (auto simp: blockers_sound_def blocker_open_def step_status_append split: option.splits)
  next
    case (rs_move_step i n status ev bl bs row t actor evs asg)
    note idx = \<open>step_index i (lr_steps l) = Some n\<close>
    have "(row_status (lr_steps l ! n), status) \<noteq> (lit ''blocked'', lit ''blocked'')" "status \<noteq> []"
      using step_gate_Inr [OF \<open>step_gate (lr_steps l) (lr_steps l ! n) status ev bl = Inr ()\<close>]
      by (auto simp: step_targets)
    then show ?thesis
      using rs_move_step inv step_status_of_index [OF idx]
      by (auto simp: blockers_sound_def blocker_open_def step_status_moved [OF idx] list_ex_iff
          open_blocker_unique)
  qed (simp_all add: blockers_sound_def blocker_open_def)
qed (simp add: blockers_sound_def blocker_open_def new_run_def step_status_def)

section \<open>A verified step carries its evidence\<close>

definition step_evidence :: "pydict \<Rightarrow> pyval list" where
  "step_evidence s = (case dget s (lit ''evidence'') of PyList es \<Rightarrow> es | _ \<Rightarrow> [])"

definition evidence_sound :: "loop_run \<Rightarrow> bool" where
  "evidence_sound l \<longleftrightarrow> list_all (\<lambda>s. row_status s = lit ''verified'' \<longrightarrow>
     list_ex says_evidence (step_evidence s)) (lr_steps l)"

lemma step_evidence_moved [simp]: "step_evidence (moved_step s st t evs asg) = evs"
  by (simp add: step_evidence_def moved_step_def Let_def dupdate_def split: option.splits)

interpretation evidence: run_invariant evidence_sound
proof
  fix l l'
  assume "run_step l l'" and inv: "evidence_sound l"
  then show "evidence_sound l'"
  proof (cases rule: run_step.cases)
    case (rs_add_step deps step i t)
    then show ?thesis
      using inv by (simp add: evidence_sound_def row_status_def)
  next
    case (rs_move_step i n status ev bl bs row t actor evs asg)
    have "status \<noteq> []"
      using moved_target [OF \<open>step_gate (lr_steps l) (lr_steps l ! n) status ev bl = Inr ()\<close>] by simp
    then show ?thesis
      using rs_move_step inv
      by (auto simp: evidence_sound_def list_all_iff dest!: set_update_subset_insert [THEN subsetD])
  qed (simp_all add: evidence_sound_def)
qed (simp add: evidence_sound_def new_run_def)

section \<open>Dependencies of a step come before it\<close>

text \<open>
  Every dependency of a step is the id of an earlier row, so the steps of a loop form an
  acyclic plan whatever the order in which they move.
\<close>

definition deps_before :: "pydict list \<Rightarrow> nat \<Rightarrow> bool" where
  "deps_before steps n \<longleftrightarrow>
     (\<exists>ds. dget (steps ! n) (lit ''depends_on'') = PyList (map PyStr ds) \<and>
       list_all (\<lambda>d. list_ex (\<lambda>s. py_str (dget s (lit ''id'')) = d) (take n steps)) ds)"

definition plan_acyclic :: "loop_run \<Rightarrow> bool" where
  "plan_acyclic l \<longleftrightarrow> list_all (deps_before (lr_steps l)) [0..<length (lr_steps l)]"

lemma deps_before_append [simp]:
  "n < length steps \<Longrightarrow> deps_before (steps @ [s]) n = deps_before steps n"
  by (simp add: deps_before_def nth_append)

lemma deps_before_moved:
  assumes "n < length steps" "m < length steps"
  shows "deps_before (steps[m := moved_step (steps ! m) st t evs asg]) n = deps_before steps n"
proof -
  let ?s = "moved_step (steps ! m) st t evs asg"
  have "list_ex (\<lambda>s. py_str (dget s (lit ''id'')) = d) (take n (steps[m := ?s])) \<longleftrightarrow>
        list_ex (\<lambda>s. py_str (dget s (lit ''id'')) = d) (take n steps)" for d
    using assms by (auto simp: list_ex_length nth_list_update)
  then show ?thesis
    using assms by (simp add: deps_before_def nth_list_update)
qed

interpretation plan: run_invariant plan_acyclic
proof
  fix l l'
  assume "run_step l l'" and inv: "plan_acyclic l"
  then show "plan_acyclic l'"
  proof (cases rule: run_step.cases)
    case (rs_add_step deps step i t)
    then have "deps_before (lr_steps l @ [step]) (length (lr_steps l))"
      by (auto simp: deps_before_def list_all_iff list_ex_iff)
    then show ?thesis
      using rs_add_step inv by (simp add: plan_acyclic_def list_all_iff less_Suc_eq)
  next
    case (rs_move_step i n status ev bl bs row t actor evs asg)
    then show ?thesis
      using inv step_index_Some [of i "lr_steps l" n]
      by (simp add: plan_acyclic_def list_all_iff deps_before_moved)
  qed (simp_all add: plan_acyclic_def)
qed (simp add: plan_acyclic_def new_run_def)

section \<open>The evidence of a step is a list\<close>

definition steps_listed :: "loop_run \<Rightarrow> bool" where
  "steps_listed l \<longleftrightarrow>
     list_all (\<lambda>s. \<exists>es. dget s (lit ''evidence'') = PyList es) (lr_steps l)"

lemma moved_evidence [simp]: "dget (moved_step s st t evs asg) (lit ''evidence'') = PyList evs"
  by (simp add: moved_step_def Let_def dupdate_def split: option.splits)

interpretation step_rows: run_invariant steps_listed
proof
  fix l l'
  assume "run_step l l'" and inv: "steps_listed l"
  then show "steps_listed l'"
  proof (cases rule: run_step.cases)
    case (rs_move_step i n status ev bl bs row t actor evs asg)
    then show ?thesis
      using inv by (auto simp: steps_listed_def list_all_iff dest!: set_update_subset_insert [THEN subsetD])
  qed (use inv in \<open>simp_all add: steps_listed_def\<close>)
qed (simp add: steps_listed_def new_run_def)

section \<open>Gates and storage\<close>

definition gates_distinct :: "loop_run \<Rightarrow> bool" where
  "gates_distinct l \<longleftrightarrow> distinct (gate_ids (open_human_gates l))"

lemma dict_rows_val [simp]: "dict_rows (rows_val rows) = rows"
  by (induction rows) (simp_all add: rows_val_def)

lemma distinct_gate_filter:
  "distinct (gate_ids rows) \<Longrightarrow> distinct (gate_ids (filter p rows))"
  by (induction rows) (auto simp: gate_ids_def)

interpretation gates: run_invariant gates_distinct
proof
  fix l l'
  assume "run_step l l'" and inv: "gates_distinct l"
  then show "gates_distinct l'"
    by (cases rule: run_step.cases)
      (auto simp: gates_distinct_def open_human_gates_def gate_rows_def distinct_map inj_on_def gate_ids_def)
qed (simp add: gates_distinct_def new_run_def gate_ids_def)

interpretation storage: run_invariant storable
proof
  fix l l'
  assume "run_step l l'" and "storable l"
  then show "storable l'"
    by (cases rule: run_step.cases) (auto simp: storable_def)
qed (simp add: new_run_def)

definition known_status :: "pystr \<Rightarrow> bool" where
  "known_status s \<longleftrightarrow> s \<in> status_value ` {Created, Running, Blocked, Failed, Completed, Cancelled}"

lemma allowed_known: "t \<in> set (allowed_targets allowed_transitions s) \<Longrightarrow> known_status t"
  by (auto simp: allowed_targets_def allowed_transitions_def known_status_def split: if_splits)

interpretation statuses: run_invariant "\<lambda>l. known_status (lr_status l)"
proof
  fix l l'
  assume "run_step l l'" and "known_status (lr_status l)"
  then show "known_status (lr_status l')"
    using status_moves [of l l'] allowed_known by auto
qed (auto simp: new_run_def known_status_def)

end
