(* ===== verification/LoopHistory.thy ===== *)
theory LoopHistory imports LoopInvariants begin

text \<open>
  Histories of the loop ledger: the commands a client can give, the hubs they can lead to, and
  what holds of every stored run of such a hub. The properties here say what a reader of a loop
  file can rely on, whatever commands (failed ones included) came before.
\<close>

section \<open>Commands\<close>

datatype loop_command =
    Cmd_create create_args
  | Cmd_checkpoint pystr pystr "pystr option" pystr
  | Cmd_complete pystr "pystr option" "pystr option" pystr
  | Cmd_fail pystr pystr "pystr option" pystr
  | Cmd_block pystr pystr pystr
  | Cmd_feedback pystr loop_feedback pystr
  | Cmd_add_step pystr pystr "pystr list" "pystr option" pystr
  | Cmd_move_step pystr pystr pystr "pystr option" "pystr option" "pystr option" pystr
  | Cmd_open_gate pystr pystr pystr "pystr option" pystr
  | Cmd_resolve_gate pystr pystr gate_decision pystr "pystr option" pystr

fun run_command :: "loop_command \<Rightarrow> py_datetime option \<Rightarrow> loop_run op" where
  "run_command (Cmd_create args) now = store_create args now"
| "run_command (Cmd_checkpoint i text art actor) now = store_checkpoint i text art actor now"
| "run_command (Cmd_complete i ev art actor) now = store_complete i ev art actor now"
| "run_command (Cmd_fail i reason ev actor) now = store_fail i reason ev actor now"
| "run_command (Cmd_block i reason actor) now = store_block i reason actor now"
| "run_command (Cmd_feedback i f actor) now = add_verification_feedback i f actor now"
| "run_command (Cmd_add_step i title deps asg actor) now = store_add_step i title deps asg actor now"
| "run_command (Cmd_move_step i s st ev bl asg actor) now = transition_step i s st ev bl asg actor now"
| "run_command (Cmd_open_gate i g reason tr actor) now = open_human_gate i g reason tr actor now"
| "run_command (Cmd_resolve_gate i g d text ev actor) now = resolve_human_gate i g d text ev actor now"

fun command_target :: "loop_command \<Rightarrow> pystr option" where
  "command_target (Cmd_create args) = None"
| "command_target (Cmd_checkpoint i text art actor) = Some i"
| "command_target (Cmd_complete i ev art actor) = Some i"
| "command_target (Cmd_fail i reason ev actor) = Some i"
| "command_target (Cmd_block i reason actor) = Some i"
| "command_target (Cmd_feedback i f actor) = Some i"
| "command_target (Cmd_add_step i title deps asg actor) = Some i"
| "command_target (Cmd_move_step i s st ev bl asg actor) = Some i"
| "command_target (Cmd_open_gate i g reason tr actor) = Some i"
| "command_target (Cmd_resolve_gate i g d text ev actor) = Some i"

text \<open>A creation brings no open gate of its own in its metadata, as no caller in the code does.\<close>

fun command_ok :: "loop_command \<Rightarrow> bool" where
  "command_ok (Cmd_create args) \<longleftrightarrow> dict_rows (dget (ca_metadata args) (lit ''open_human_gates'')) = []"
| "command_ok c \<longleftrightarrow> True"

lemmas operation_specs =
  store_checkpoint_spec store_complete_spec store_fail_spec store_block_spec
  add_verification_feedback_spec store_add_step_spec transition_step_spec open_human_gate_spec
  resolve_human_gate_spec

lemma command_spec:
  "command_target c = Some i \<Longrightarrow>
     wp (run_command c now) (\<lambda>l' h'. moves_run h i l' h') (no_effect h) h"
  by (cases c) (auto intro: operation_specs)

section \<open>Creation\<close>

definition creates_run :: "hub \<Rightarrow> loop_run \<Rightarrow> hub \<Rightarrow> bool" where
  "creates_run h l h' \<longleftrightarrow> h_files h' = put_run l (h_files h) \<and> world h' = world h
     \<and> log_grows (lr_loop_id l) (h_events h) (h_events h')"

lemma wp_recent_injection_candidates [wp_rules]:
  assumes "\<And>rows h'. \<lbrakk>quiet h h'; h_files h' = h_files h; h_events h' = h_events h; world h' = world h\<rbrakk>
      \<Longrightarrow> Q rows h'"
  shows "wp (recent_injection_candidates adapter session_id cwd now) Q E h"
  using assms
  by (auto simp: wp_def recent_injection_candidates_def bindP_def read_clock_def ret_def quiet_def
      world_def Let_def split: option.splits)

lemma bounded_trigger_nonempty [simp]: "bounded_trigger t \<noteq> []"
  by (auto simp: bounded_trigger_def Let_def default_trigger_def split: option.splits)

lemma or_missing_nonempty [simp]: "or_missing x \<noteq> Some []"
  by (auto simp: or_missing_def opt_text_def split: option.splits)

lemma store_create_spec:
  "wp (store_create args now)
     (\<lambda>l h'. creates_run h l h' \<and>
        (dict_rows (dget (ca_metadata args) (lit ''open_human_gates'')) = [] \<longrightarrow> new_run l))
     (no_effect h) h"
  unfolding store_create_def Let_def
  by (intro wp_rules)
    (auto simp: creates_run_def new_run_def storable_def open_human_gates_def gate_rows_def)

section \<open>Ledgers that commands can produce\<close>

inductive reachable :: "hub \<Rightarrow> bool" where
  reachable_empty: "h_files h = [] \<Longrightarrow> reachable h"
| reachable_command: "\<lbrakk>reachable h; command_ok c; run_command c now h = (r, h')\<rbrakk> \<Longrightarrow> reachable h'"
| reachable_other: "\<lbrakk>reachable h; h_files h' = h_files h\<rbrakk> \<Longrightarrow> reachable h'"

definition file_sound :: "pystr \<times> pyval option \<Rightarrow> bool" where
  "file_sound f \<longleftrightarrow>
     (\<exists>l. snd f = Some (PyDict (run_to_dict l)) \<and> lr_loop_id l = fst f \<and> lifetime l)"

lemma file_sound_read: "file_sound (i, c) \<Longrightarrow> \<exists>l. c = Some (PyDict (run_to_dict l)) \<and>
    run_from_dict (PyDict (run_to_dict l)) = Inr l \<and> lr_loop_id l = i \<and> lifetime l"
  using storage.always run_round_trip by (fastforce simp: file_sound_def)

lemma read_run_put [simp]:
  "h_files h' = put_run l files \<Longrightarrow> storable l \<Longrightarrow> read_run h' (lr_loop_id l) = Inr l"
  by (simp add: read_run_def store_get_def put_run_def update_conv' run_round_trip [simplified])

lemma read_run_put_other:
  "h_files h' = put_run l (h_files h) \<Longrightarrow> i \<noteq> lr_loop_id l \<Longrightarrow> read_run h' i = read_run h i"
  by (simp add: read_run_def store_get_def put_run_def update_conv' split: option.splits)

lemma read_run_files: "h_files h' = h_files h \<Longrightarrow> read_run h' i = read_run h i"
  by (simp add: read_run_def store_get_def split: option.splits)

lemma files_sound_read:
  assumes "list_all file_sound (h_files h)" and "read_run h i = Inr l"
  shows "lr_loop_id l = i \<and> lifetime l"
proof -
  obtain c where "map_of (h_files h) i = Some c"
    using assms(2) by (auto simp: read_run_def store_get_def split: option.splits)
  then have "(i, c) \<in> set (h_files h)" by (rule map_of_SomeD)
  then obtain l' where "c = Some (PyDict (run_to_dict l'))"
      "run_from_dict (PyDict (run_to_dict l')) = Inr l'" "lr_loop_id l' = i" "lifetime l'"
    using assms(1) file_sound_read [of i c] by (metis (no_types, lifting) list_all_iff)
  then show ?thesis
    using assms(2) \<open>map_of (h_files h) i = Some c\<close> by (simp add: read_run_def store_get_def)
qed

lemma read_new_run:
  "h_files h' = put_run l files \<Longrightarrow> storable l \<Longrightarrow> i = lr_loop_id l \<Longrightarrow> read_run h' i = Inr l"
  by simp

lemma store_create_details:
  "wp (store_create args now)
     (\<lambda>l h'. strip (ca_goal args) \<noteq> [] \<and> read_run h' (lr_loop_id l) = Inr l
        \<and> lr_status l = status_value (if ca_start args then Running else Created)
        \<and> lr_goal l = ca_goal args \<and> lr_steps l = [] \<and> lr_blockers l = []
        \<and> lr_verification_results l = [] \<and> lr_metadata l = ca_metadata args
        \<and> lr_verification_plan l = ca_verification_plan args \<and> world h' = world h
        \<and> (\<exists>t hex. lr_loop_id l = make_loop_id (ca_goal args) t hex))
     (\<lambda>e h'. strip (ca_goal args) = [] \<and> e = ValueError (lit ''goal is required'') \<and> h' = h) h"
  unfolding store_create_def Let_def
  by (intro wp_rules) (auto simp: storable_def intro!: read_new_run)

lemma set_put: "f \<in> set (AList.update k v al) \<Longrightarrow> f = (k, v) \<or> f \<in> set al"
  by (induction al) (auto split: if_splits)

lemma put_run_sound:
  "list_all file_sound files \<Longrightarrow> lifetime l \<Longrightarrow> list_all file_sound (put_run l files)"
  by (auto simp: list_all_iff put_run_def file_sound_def dest!: set_put)

lemma moves_run_sound:
  assumes "moves_run h i l' h'" and "list_all file_sound (h_files h)"
  shows "list_all file_sound (h_files h') \<and> lr_loop_id l' = i \<and> lifetime l'"
proof -
  obtain l where l: "read_run h i = Inr l" "run_step l l'" "lr_loop_id l' = lr_loop_id l"
      "h_files h' = put_run l' (h_files h) \<or> l' = l \<and> h_files h' = h_files h"
    using assms(1) by (auto simp: moves_run_def)
  then have "lr_loop_id l = i" "lifetime l'"
    using files_sound_read [OF assms(2) l(1)] by (auto intro: lifetime_step)
  then show ?thesis
    using l put_run_sound [OF assms(2)] assms(2) by auto
qed

lemma command_effect:
  assumes "run_command c now h = (r, h')" and "command_ok c"
  shows "case r of Inl e \<Rightarrow> quiet h h'
    | Inr l' \<Rightarrow> (case command_target c of None \<Rightarrow> creates_run h l' h' \<and> new_run l'
        | Some i \<Rightarrow> moves_run h i l' h')"
proof (cases "command_target c")
  case None
  then obtain args where c: "c = Cmd_create args" by (cases c) simp_all
  show ?thesis
    using assms wp_Inr [OF store_create_spec] wp_Inl [OF store_create_spec]
    by (cases r) (fastforce simp: c)+
next
  case (Some i)
  show ?thesis
    using assms wp_Inr [OF command_spec [OF Some]] wp_Inl [OF command_spec [OF Some]]
    by (cases r) (simp_all add: Some)
qed

lemma command_sound:
  assumes "list_all file_sound (h_files h)" "command_ok c" "run_command c now h = (r, h')"
  shows "list_all file_sound (h_files h')"
proof (cases r)
  case (Inl e)
  then show ?thesis
    using command_effect [OF assms(3,2)] assms(1) by (simp add: quiet_fields)
next
  case (Inr l')
  then show ?thesis
    using command_effect [OF assms(3,2)] assms(1) moves_run_sound put_run_sound lifetime_new
    by (auto simp: creates_run_def split: option.splits)
qed

lemma reachable_sound: "reachable h \<Longrightarrow> list_all file_sound (h_files h)"
  by (induction rule: reachable.induct) (simp, blast intro: command_sound, simp)

lemma reachable_read: "reachable h \<Longrightarrow> read_run h i = Inr l \<Longrightarrow> lr_loop_id l = i \<and> lifetime l"
  by (rule files_sound_read [OF reachable_sound])

text \<open>The file of a finished command is the run it returned.\<close>

lemma command_stores:
  assumes "reachable h" "command_target c = Some i" "run_command c now h = (Inr l', h')"
  shows "read_run h' i = Inr l'"
proof -
  have m: "moves_run h i l' h'"
    using wp_Inr [OF command_spec [OF assms(2)] assms(3)] .
  then obtain l where l: "read_run h i = Inr l"
      "h_files h' = put_run l' (h_files h) \<or> l' = l \<and> h_files h' = h_files h"
    by (auto simp: moves_run_def)
  have "lr_loop_id l' = i" "storable l'"
    using moves_run_sound [OF m reachable_sound [OF assms(1)]] storage.always by auto
  with l show ?thesis
    using read_run_put [of h' l' "h_files h"] read_run_files [of h' h i] by auto
qed

end
