(* ===== verification/LoopExample.thy ===== *)
theory LoopExample imports LoopHistory begin

text \<open>
  One concrete history, used to show that the premises of the properties can be met: a loop is
  created and started, gets a step and a second step that depends on it, the first is verified,
  the second blocked, a human gate is opened; then the second step is finished and the loop
  completed.
\<close>

definition demo_now :: py_datetime where
  "demo_now = \<lparr>dt_wall = 0, dt_offset = Some 0\<rparr>"

definition demo_hub :: hub where
  "demo_hub = \<lparr>h_files = [], h_events = [], h_outcomes = [], h_clock = (\<lambda>_. demo_now), h_ticks = 0,
     h_uuid = (\<lambda>_. lit ''0abcdefabcdef''), h_uuids = 0, h_cohort = (\<lambda>_ _. None),
     h_resolve = (\<lambda>p. p), h_path_exists = (\<lambda>_. True),
     h_process = (\<lambda>_ _ _ _. Exited 0 NoOutput NoOutput), h_elapsed = (\<lambda>_. 0),
     h_process_runs = [],
     h_sha256 = (\<lambda>_. lit ''0''), h_decode = (\<lambda>_. [])\<rparr>"

definition demo_args :: create_args where
  "demo_args = \<lparr>ca_goal = lit ''ship it'', ca_project = None, ca_adapter = None,
     ca_session_id = None, ca_cwd = None, ca_verification_plan = [], ca_trigger = None,
     ca_budget = [], ca_context = [], ca_metadata = [], ca_sensitivity = [], ca_start = True,
     ca_actor = lit ''cli''\<rparr>"

definition demo_id :: pystr where
  "demo_id = make_loop_id (lit ''ship it'') demo_now (lit ''0abcdefabcdef'')"

definition demo_time :: pystr where
  "demo_time = timestamp demo_now"

definition demo_run :: loop_run where
  "demo_run = \<lparr>lr_loop_id = demo_id, lr_created_at = demo_time, lr_updated_at = demo_time,
     lr_status = status_value Running, lr_goal = lit ''ship it'', lr_trigger = bounded_trigger None,
     lr_project = None, lr_cwd = None, lr_adapter = None, lr_session_id = None, lr_budget = [],
     lr_context = [], lr_metadata = [], lr_verification_plan = [], lr_verification_results = [],
     lr_checkpoints = [], lr_artifacts = [], lr_outcome = None, lr_memory_candidates = [],
     lr_steps = [], lr_blockers = [], lr_sensitivity = lit ''internal''\<rparr>"

definition demo_next :: "loop_command \<Rightarrow> string \<Rightarrow> hub \<Rightarrow> hub" where
  "demo_next c u h = snd (run_command c (Some demo_now) (h\<lparr>h_uuid := \<lambda>_. lit u\<rparr>))"

lemma demo_texts [simp]:
  "strip (lit ''ship it'') = lit ''ship it''" "strip (lit ''build'') = lit ''build''"
  "strip (lit ''test'') = lit ''test''" "strip (lit ''ok'') = lit ''ok''"
  "strip (lit ''deploy'') = lit ''deploy''"
  by code_simp+

lemmas run_simps = prog_simps Let_def now_text_def read_clock_def fresh_uuid_def opt_text_def
  or_missing_def store_write_def store_event_def append_loop_event_def require_text_def
  demo_time_def [symmetric]

lemma demo_create_run:
  "fst (run_command (Cmd_create demo_args) (Some demo_now) demo_hub) = Inr demo_run"
  by (simp add: store_create_def demo_args_def recent_injection_candidates_def demo_hub_def
      demo_run_def demo_id_def run_simps)

definition demo_hub1 :: hub where
  "demo_hub1 = snd (run_command (Cmd_create demo_args) (Some demo_now) demo_hub)"

lemma demo1: "reachable demo_hub1 \<and> read_run demo_hub1 demo_id = Inr demo_run"
proof -
  have run: "run_command (Cmd_create demo_args) (Some demo_now) demo_hub = (Inr demo_run, demo_hub1)"
    using demo_create_run by (simp add: demo_hub1_def prod_eq_iff)
  have "command_ok (Cmd_create demo_args)" by (simp add: demo_args_def)
  with run have "reachable demo_hub1" "creates_run demo_hub demo_run demo_hub1 \<and> new_run demo_run"
    using command_effect [OF run] reachable_command [OF reachable_empty _ run]
    by (simp_all add: demo_hub_def)
  then show ?thesis
    using read_run_put [of demo_hub1 demo_run]
    by (simp add: creates_run_def new_run_def demo_run_def)
qed

lemma demo_step:
  assumes "reachable h" "command_ok c" "command_target c = Some i"
    "fst (run_command c (Some demo_now) (h\<lparr>h_uuid := \<lambda>_. lit u\<rparr>)) = Inr l"
  shows "reachable (demo_next c u h) \<and> read_run (demo_next c u h) i = Inr l"
proof -
  let ?h = "h\<lparr>h_uuid := \<lambda>_. lit u\<rparr>"
  have "reachable ?h" using assms(1) by (rule reachable_other) simp
  moreover have "run_command c (Some demo_now) ?h = (Inr l, demo_next c u h)"
    using assms(4) by (simp add: demo_next_def prod_eq_iff)
  ultimately show ?thesis
    using assms(2,3) reachable_command command_stores by blast
qed

lemma store_get_read: "read_run h i = Inr l \<Longrightarrow> store_get i (h\<lparr>h_uuid := f\<rparr>) = (Inr l, h\<lparr>h_uuid := f\<rparr>)"
  by (auto simp: read_run_def store_get_def split: option.splits)

text \<open>The two steps, in every state they pass.\<close>

definition demo_row :: "string \<Rightarrow> string \<Rightarrow> string list \<Rightarrow> string \<Rightarrow> pyval list \<Rightarrow> pydict" where
  "demo_row i title deps status evs =
    [(lit ''id'', PyStr (lit i)), (lit ''title'', PyStr (lit title)),
     (lit ''status'', PyStr (lit status)), (lit ''depends_on'', PyList (map (\<lambda>d. PyStr (lit d)) deps)),
     (lit ''assignee'', PyNone), (lit ''created_at'', PyStr demo_time),
     (lit ''updated_at'', PyStr demo_time),
     (lit ''evidence'', PyList evs)]"

definition row_a :: "string \<Rightarrow> pyval list \<Rightarrow> pydict" where
  "row_a = demo_row ''step-aaa'' ''build'' []"

definition row_b :: "string \<Rightarrow> pyval list \<Rightarrow> pydict" where
  "row_b = demo_row ''step-bbb'' ''test'' [''step-aaa'']"

abbreviation demo_ok :: "pyval list" where
  "demo_ok \<equiv> [PyDict (evidence_row ''value'' demo_time (lit ''ok'') (lit ''cli''))]"

definition demo_blocker :: "string \<Rightarrow> pydict" where
  "demo_blocker status =
    [(lit ''id'', PyStr (lit ''blocker-ccc'')), (lit ''step_id'', PyStr (lit ''step-bbb'')),
     (lit ''reason'', PyStr (lit ''ok'')), (lit ''status'', PyStr (lit status)),
     (lit ''opened_at'', PyStr demo_time), (lit ''opened_by'', PyStr (lit ''cli''))]"

lemma demo_ids [simp]:
  "make_step_id (lit ''aaa'') = lit ''step-aaa''" "make_step_id (lit ''bbb'') = lit ''step-bbb''"
  "lit ''blocker-'' @ take 12 (lit ''ccc'') = lit ''blocker-ccc''"
  by code_simp+

lemmas demo_defs = demo_row_def row_a_def row_b_def demo_blocker_def demo_run_def

definition add_step_cmd :: "string \<Rightarrow> string list \<Rightarrow> loop_command" where
  "add_step_cmd title deps = Cmd_add_step demo_id (lit title) (map lit deps) None (lit ''cli'')"

definition move_cmd :: "string \<Rightarrow> string \<Rightarrow> loop_command" where
  "move_cmd i status = Cmd_move_step demo_id (lit i) (lit status)
     (if status = ''verified'' then Some (lit ''ok'') else None)
     (if status = ''blocked'' then Some (lit ''ok'') else None) None (lit ''cli'')"

lemma demo_add_a:
  "reachable h \<Longrightarrow> read_run h demo_id = Inr demo_run \<Longrightarrow>
   reachable (demo_next (add_step_cmd ''build'' []) ''aaa'' h) \<and>
   read_run (demo_next (add_step_cmd ''build'' []) ''aaa'' h) demo_id =
     Inr (demo_run\<lparr>lr_steps := [row_a ''pending'' []]\<rparr>)"
  by (rule demo_step)
    (simp_all add: add_step_cmd_def store_add_step_def demo_defs run_simps store_get_read)

lemma demo_add_b:
  "reachable h \<Longrightarrow> read_run h demo_id = Inr (demo_run\<lparr>lr_steps := [row_a ''pending'' []]\<rparr>) \<Longrightarrow>
   reachable (demo_next (add_step_cmd ''test'' [''step-aaa'']) ''bbb'' h) \<and>
   read_run (demo_next (add_step_cmd ''test'' [''step-aaa'']) ''bbb'' h) demo_id =
     Inr (demo_run\<lparr>lr_steps := [row_a ''pending'' [], row_b ''pending'' []]\<rparr>)"
  by (rule demo_step)
    (simp_all add: add_step_cmd_def store_add_step_def demo_defs run_simps store_get_read)

lemma bind_now_text: "bindP (now_text (Some t)) f = f (timestamp t)"
  by (simp add: fun_eq_iff now_text_def read_clock_def bindP_def)

lemma bind_uuid: "bindP fresh_uuid f h = f (h_uuid h (h_uuids h)) (h\<lparr>h_uuids := Suc (h_uuids h)\<rparr>)"
  by (simp add: fresh_uuid_def bindP_def)

lemma bind_event:
  "bindP (store_event l et a s p (Some t)) f h = f () (snd (store_event l et a s p (Some t) h))"
  by (simp add: store_event_def append_loop_event_def read_clock_def fresh_uuid_def bindP_def)

lemma bind_get:
  "bindP (store_get i) f h = (case read_run h i of Inl e \<Rightarrow> (Inl e, h) | Inr l \<Rightarrow> f l h)"
  by (auto simp: read_run_def store_get_def bindP_def split: option.splits sum.splits)

lemma bind_if: "bindP (if b then m else m') f h = (if b then bindP m f h else bindP m' f h)"
  by simp

lemma bind_assoc: "bindP (bindP m f) g = bindP m (\<lambda>x. bindP (f x) g)"
  by (auto simp: fun_eq_iff bindP_def split: prod.splits sum.splits)

lemma bind_Pair: "bindP (Pair (Inr a)) f = f a"
  by (simp add: fun_eq_iff bindP_def)

lemmas bind_simps = bind_Pair bind_now_text bind_uuid bind_event bind_get bind_if

lemma demo_row_fields [simp]:
  "dget (demo_row i title deps st evs) (lit ''id'') = PyStr (lit i)"
  "dget (demo_row i title deps st evs) (lit ''depends_on'') = PyList (map (\<lambda>d. PyStr (lit d)) deps)"
  "dget (demo_row i title deps st evs) (lit ''evidence'') = PyList evs"
  "dget (demo_row i title deps st evs) (lit ''status'') = PyStr (lit st)"
  "st \<noteq> [] \<Longrightarrow> row_status (demo_row i title deps st evs) = lit st"
  by (simp_all add: demo_row_def row_status_def)

lemma demo_row_moved [simp]:
  "moved_step (demo_row i title deps st evs) (lit st') demo_time evs' None =
     demo_row i title deps st' evs'"
  by (simp add: moved_step_def demo_row_def dupdate_def dset_def)

lemma demo_blocker_fields [simp]:
  "dget (demo_blocker st) (lit ''status'') = PyStr (lit st)"
  "dget (demo_blocker st) (lit ''step_id'') = PyStr (lit ''step-bbb'')"
  by (simp_all add: demo_blocker_def)

lemma demo_run_fields [simp]:
  "lr_loop_id demo_run = demo_id" "lr_status demo_run = status_value Running"
  "lr_blockers demo_run = []" "lr_verification_results demo_run = []" "lr_artifacts demo_run = []"
  "lr_metadata demo_run = []" "demo_run\<lparr>lr_updated_at := demo_time\<rparr> = demo_run"
  "demo_run\<lparr>lr_status := status_value Running\<rparr> = demo_run" 
  "demo_run\<lparr>lr_blockers := []\<rparr> = demo_run" 
  by (simp_all add: demo_run_def)

lemma read_uuid [simp]: "read_run (h\<lparr>h_uuid := f\<rparr>) i = read_run h i"
  by (rule read_run_files) simp

lemmas move_simps = move_cmd_def transition_step_def bind_simps row_a_def row_b_def
  step_gate_def step_status_def incomplete_dependencies_def allowed_targets_def step_transitions_def
  demo_time_def [symmetric] moved_blockers_def moved_loop_status_def store_write_def Let_def

definition demo_with :: "loop_status \<Rightarrow> pydict list \<Rightarrow> pydict list \<Rightarrow> loop_run" where
  "demo_with s steps bs = demo_run\<lparr>lr_status := status_value s, lr_steps := steps, lr_blockers := bs\<rparr>"

lemma demo_with_simps [simp]:
  "lr_loop_id (demo_with s steps bs) = demo_id"
  "lr_status (demo_with s steps bs) = status_value s"
  "lr_steps (demo_with s steps bs) = steps" "lr_blockers (demo_with s steps bs) = bs"
  "(demo_with s steps bs)\<lparr>lr_status := status_value s', lr_updated_at := demo_time, lr_steps := steps',
     lr_blockers := bs'\<rparr> = demo_with s' steps' bs'"
  "(demo_with s steps bs)\<lparr>lr_blockers := bs'\<rparr> = demo_with s steps bs'"
  "(demo_with s steps bs)\<lparr>lr_updated_at := demo_time, lr_steps := steps'\<rparr> = demo_with s steps' bs"
  "(demo_with s steps bs)\<lparr>lr_updated_at := demo_time, lr_steps := steps', lr_blockers := bs'\<rparr>
     = demo_with s steps' bs'"
  "(demo_with s steps bs)\<lparr>lr_status := status_value s', lr_updated_at := demo_time, lr_steps := steps'\<rparr>
     = demo_with s' steps' bs"
  by (simp_all add: demo_with_def demo_run_def)

lemma demo_a_running:
  "reachable h \<Longrightarrow> read_run h demo_id = Inr (demo_with Running [row_a ''pending'' [], row_b ''pending'' []] []) \<Longrightarrow>
   reachable (demo_next (move_cmd ''step-aaa'' ''running'') u h) \<and>
   read_run (demo_next (move_cmd ''step-aaa'' ''running'') u h) demo_id =
     Inr (demo_with Running [row_a ''running'' [], row_b ''pending'' []] [])"
  by (rule demo_step) (simp_all add: move_simps)

lemma demo_a_completed:
  "reachable h \<Longrightarrow> read_run h demo_id = Inr (demo_with Running [row_a ''running'' [], row_b ''pending'' []] []) \<Longrightarrow>
   reachable (demo_next (move_cmd ''step-aaa'' ''completed'') u h) \<and>
   read_run (demo_next (move_cmd ''step-aaa'' ''completed'') u h) demo_id =
     Inr (demo_with Running [row_a ''completed'' [], row_b ''pending'' []] [])"
  by (rule demo_step) (simp_all add: move_simps)

lemma demo_a_verified:
  "reachable h \<Longrightarrow> read_run h demo_id = Inr (demo_with Running [row_a ''completed'' [], row_b ''pending'' []] []) \<Longrightarrow>
   reachable (demo_next (move_cmd ''step-aaa'' ''verified'') u h) \<and>
   read_run (demo_next (move_cmd ''step-aaa'' ''verified'') u h) demo_id =
     Inr (demo_with Running [row_a ''verified'' demo_ok, row_b ''pending'' []] [])"
  by (rule demo_step) (simp_all add: move_simps)

lemma demo_b_blocked:
  "reachable h \<Longrightarrow> read_run h demo_id = Inr (demo_with Running [row_a ''verified'' demo_ok, row_b ''pending'' []] []) \<Longrightarrow>
   reachable (demo_next (move_cmd ''step-bbb'' ''blocked'') ''ccc'' h) \<and>
   read_run (demo_next (move_cmd ''step-bbb'' ''blocked'') ''ccc'' h) demo_id =
     Inr (demo_with Blocked [row_a ''verified'' demo_ok, row_b ''blocked'' []] [demo_blocker ''open''])"
  by (rule demo_step) (simp_all add: move_simps demo_blocker_def bind_assoc)

lemma demo_b_running:
  "reachable h \<Longrightarrow> read_run h demo_id = Inr (demo_with Running [row_a ''verified'' demo_ok, row_b ''pending'' []] []) \<Longrightarrow>
   reachable (demo_next (move_cmd ''step-bbb'' ''running'') u h) \<and>
   read_run (demo_next (move_cmd ''step-bbb'' ''running'') u h) demo_id =
     Inr (demo_with Running [row_a ''verified'' demo_ok, row_b ''running'' []] [])"
  by (rule demo_step) (simp_all add: move_simps)

lemma demo_b_completed:
  "reachable h \<Longrightarrow> read_run h demo_id = Inr (demo_with Running [row_a ''verified'' demo_ok, row_b ''running'' []] []) \<Longrightarrow>
   reachable (demo_next (move_cmd ''step-bbb'' ''completed'') u h) \<and>
   read_run (demo_next (move_cmd ''step-bbb'' ''completed'') u h) demo_id =
     Inr (demo_with Running [row_a ''verified'' demo_ok, row_b ''completed'' []] [])"
  by (rule demo_step) (simp_all add: move_simps)

lemma demo_b_verified:
  "reachable h \<Longrightarrow> read_run h demo_id = Inr (demo_with Running [row_a ''verified'' demo_ok, row_b ''completed'' []] []) \<Longrightarrow>
   reachable (demo_next (move_cmd ''step-bbb'' ''verified'') u h) \<and>
   read_run (demo_next (move_cmd ''step-bbb'' ''verified'') u h) demo_id =
     Inr (demo_with Running [row_a ''verified'' demo_ok, row_b ''verified'' demo_ok] [])"
  by (rule demo_step) (simp_all add: move_simps)

definition complete_cmd :: loop_command where
  "complete_cmd = Cmd_complete demo_id (Some (lit ''ok'')) None (lit ''cli'')"

definition demo_done :: loop_run where
  "demo_done = (demo_with Completed [row_a ''verified'' demo_ok, row_b ''verified'' demo_ok] [])
     \<lparr>lr_verification_results := [evidence_row ''evidence'' demo_time (lit ''ok'') (lit ''cli'')],
      lr_outcome := Some [(lit ''status'', PyStr (lit ''completed''))]\<rparr>"

lemma demo_completed:
  "reachable h \<Longrightarrow>
   read_run h demo_id = Inr (demo_with Running
     [row_a ''verified'' demo_ok, row_b ''verified'' demo_ok] []) \<Longrightarrow>
   reachable (demo_next complete_cmd u h) \<and>
   read_run (demo_next complete_cmd u h) demo_id = Inr demo_done"
  by (rule demo_step)
    (simp_all add: complete_cmd_def store_complete_def bind_simps when_text_def unfinished_steps_def
      step_finished_def row_a_def row_b_def require_completion_evidence_def validate_transition_def
      opt_text_def demo_time_def [symmetric] demo_done_def store_write_def Let_def
      record_learning_outcome_def demo_with_def demo_run_def)

definition gate_cmd :: loop_command where
  "gate_cmd = Cmd_open_gate demo_id (lit ''deploy'') (lit ''ok'') None (lit ''cli'')"

definition demo_gated :: loop_run where
  "demo_gated = demo_run\<lparr>lr_metadata :=
     [(lit ''open_human_gates'', rows_val [[(lit ''id'', PyStr (lit ''deploy'')),
        (lit ''reason'', PyStr (lit ''ok'')), (lit ''trigger'', PyNone),
        (lit ''opened_at'', PyStr demo_time), (lit ''actor'', PyStr (lit ''cli''))]]),
      (lit ''resolved_human_gates'', rows_val [])]\<rparr>"

lemma demo_gate_run:
  "read_run h demo_id = Inr demo_run \<Longrightarrow>
   fst (run_command gate_cmd (Some demo_now) (h\<lparr>h_uuid := \<lambda>_. lit u\<rparr>)) = Inr demo_gated"
  by (simp add: gate_cmd_def open_human_gate_def require_text_def bind_simps
      validate_contract_gate_def contract_human_gates_def open_human_gates_def
      resolved_human_gates_def gate_rows_def contract_gate_trigger_def opt_text_def
      demo_time_def [symmetric] dsetdefault_def dset_def store_write_def Let_def demo_gated_def
      gate_ids_def demo_run_def)

lemma demo_gate_opened:
  "reachable h \<Longrightarrow> read_run h demo_id = Inr demo_run \<Longrightarrow>
   reachable (demo_next gate_cmd u h) \<and> read_run (demo_next gate_cmd u h) demo_id = Inr demo_gated"
  by (rule demo_step) (simp_all add: demo_gate_run, simp_all add: gate_cmd_def)

section \<open>The hubs of the history\<close>

definition demo_plan :: "hub \<Rightarrow> hub" where
  "demo_plan h = demo_next (move_cmd ''step-aaa'' ''verified'') ''d''
     (demo_next (move_cmd ''step-aaa'' ''completed'') ''d''
     (demo_next (move_cmd ''step-aaa'' ''running'') ''d''
     (demo_next (add_step_cmd ''test'' [''step-aaa'']) ''bbb''
     (demo_next (add_step_cmd ''build'' []) ''aaa'' h))))"

definition hub_blocked :: hub where
  "hub_blocked = demo_next (move_cmd ''step-bbb'' ''blocked'') ''ccc'' (demo_plan demo_hub1)"

definition hub_done :: hub where
  "hub_done = demo_next complete_cmd ''d'' (demo_next (move_cmd ''step-bbb'' ''verified'') ''d''
     (demo_next (move_cmd ''step-bbb'' ''completed'') ''d''
     (demo_next (move_cmd ''step-bbb'' ''running'') ''d'' (demo_plan demo_hub1))))"

definition hub_gated :: hub where
  "hub_gated = demo_next gate_cmd ''d'' demo_hub1"

lemma demo_plan_reached:
  "reachable (demo_plan demo_hub1) \<and> read_run (demo_plan demo_hub1) demo_id =
     Inr (demo_with Running [row_a ''verified'' demo_ok, row_b ''pending'' []] [])"
proof -
  have steps: "demo_run\<lparr>lr_steps := ss\<rparr> = demo_with Running ss []" for ss
    by (simp add: demo_with_def demo_run_def)
  show ?thesis
    unfolding demo_plan_def
    using demo1 demo_add_a demo_add_b [unfolded steps] demo_a_running demo_a_completed demo_a_verified
    by (simp add: steps)
qed

lemma hub_blocked_reached:
  "reachable hub_blocked \<and> read_run hub_blocked demo_id =
     Inr (demo_with Blocked [row_a ''verified'' demo_ok, row_b ''blocked'' []] [demo_blocker ''open''])"
  unfolding hub_blocked_def using demo_plan_reached demo_b_blocked by simp

lemma hub_done_reached: "reachable hub_done \<and> read_run hub_done demo_id = Inr demo_done"
  unfolding hub_done_def
  using demo_plan_reached demo_b_running demo_b_completed demo_b_verified demo_completed by simp

lemma hub_gated_reached: "reachable hub_gated \<and> read_run hub_gated demo_id = Inr demo_gated"
  unfolding hub_gated_def using demo1 demo_gate_opened by simp

text \<open>The last command of the gated history, as one run on the hub before it.\<close>

definition hub_ready :: hub where
  "hub_ready = demo_hub1\<lparr>h_uuid := \<lambda>_. lit ''d''\<rparr>"

lemma hub_ready_reached: "reachable hub_ready \<and> read_run hub_ready demo_id = Inr demo_run"
  using demo1 reachable_other [of demo_hub1 hub_ready] by (simp add: hub_ready_def)

lemma hub_ready_run: "run_command gate_cmd (Some demo_now) hub_ready = (Inr demo_gated, hub_gated)"
  using demo1 demo_gate_run [of demo_hub1 "''d''"]
  by (simp add: hub_ready_def hub_gated_def demo_next_def prod_eq_iff)

lemma gate_cmd_target [simp]: "command_target gate_cmd = Some demo_id" "command_ok gate_cmd"
  by (simp_all add: gate_cmd_def)

end
