(* ===== verification/LoopLaws.thy ===== *)
theory LoopLaws imports LoopExample begin

text \<open>
  What a client of the loop ledger can rely on: the properties of single commands and of every
  stored run, for all histories. The invariants come from the interpretations of
  \<open>run_invariant\<close>, the permitted changes from those of \<open>transition_table\<close>; the witnesses
  use the worked history of \<open>LoopExample\<close>.
\<close>

section \<open>Single commands\<close>

text \<open>C4. Refinement: every command on an existing loop either fails and then no loop file, no
  event and no recorded outcome changes (only the clock and the random source were read), or it
  performs one move of the abstract ledger: the stored run of that loop makes one step of
  \<open>run_step\<close>, its file is rewritten, and the log grows only by events about that loop.\<close>

theorem command_refines_step:
  assumes "run_command c now h = (r, h')" and "command_target c = Some i"
  shows "case r of Inl e \<Rightarrow> quiet h h' | Inr l' \<Rightarrow> moves_run h i l' h'"
  using assms wp_Inr [OF command_spec [OF assms(2)]] wp_Inl [OF command_spec [OF assms(2)]]
  by (cases r) simp_all

lemma command_refines_step_witness: "moves_run hub_ready demo_id demo_gated hub_gated"
  using command_refines_step [OF hub_ready_run] by simp

text \<open>What a successful command returns is what the next read of that loop returns: the run
  survives being written as JSON and parsed again.\<close>

theorem command_result_is_stored:
  assumes "reachable h" "command_target c = Some i" "run_command c now h = (Inr l', h')"
  shows "read_run h' i = Inr l'"
  using assms by (rule command_stores)

lemma command_result_is_stored_witness: "read_run hub_gated demo_id = Inr demo_gated"
  using hub_ready_reached by (intro command_result_is_stored [OF _ _ hub_ready_run]) simp_all

lemma files_after:
  assumes "reachable h" "command_target c = Some i" "run_command c now h = (r, h')"
  shows "h_files h' = h_files h \<or> (\<exists>l'. lr_loop_id l' = i \<and> h_files h' = put_run l' (h_files h))"
proof (cases r)
  case (Inl e)
  have "quiet h h'" using wp_Inl [OF command_spec [OF assms(2)] assms(3) [unfolded Inl]] .
  then show ?thesis by (simp add: quiet_fields)
next
  case (Inr l')
  have m: "moves_run h i l' h'" using wp_Inr [OF command_spec [OF assms(2)] assms(3) [unfolded Inr]] .
  then have "lr_loop_id l' = i"
    using moves_run_sound [OF m reachable_sound [OF assms(1)]] by simp
  then show ?thesis
    using m by (auto simp only: moves_run_def)
qed

text \<open>A command on one loop changes no file of another loop.\<close>

theorem other_loops_untouched:
  assumes "reachable h" "command_target c = Some i" "run_command c now h = (r, h')" "j \<noteq> i"
  shows "map_of (h_files h') j = map_of (h_files h) j"
  using files_after [OF assms(1-3)] assms(4) by (auto simp: put_run_def update_conv')

lemma other_loops_untouched_witness:
  "map_of (h_files hub_gated) (demo_id @ [0]) = map_of (h_files hub_ready) (demo_id @ [0])"
  using hub_ready_reached
  by (intro other_loops_untouched [where i = demo_id, OF _ _ hub_ready_run]) simp_all

lemma command_moves:
  assumes "reachable h" "command_target c \<noteq> None" "run_command c now h = (r, h')"
    "read_run h i = Inr l"
  shows "\<exists>l'. read_run h' i = Inr l' \<and> (l' = l \<or> run_step l l')"
proof -
  obtain j where j: "command_target c = Some j" using assms(2) by auto
  show ?thesis
  proof (cases "\<exists>l'. r = Inr l' \<and> j = i")
    case True
    then obtain l' where r: "r = Inr l'" and "j = i" by auto
    then have "moves_run h i l' h'"
      using wp_Inr [OF command_spec [OF j] assms(3) [unfolded r]] by simp
    moreover have "read_run h' i = Inr l'"
      using command_stores [OF assms(1) j] assms(3) r \<open>j = i\<close> by simp
    ultimately show ?thesis using assms(4) by (auto simp: moves_run_def)
  next
    case False
    then have "h_files h' = h_files h \<or> i \<noteq> j"
    proof (cases r)
      case (Inl e)
      then have "quiet h h'" using wp_Inl [OF command_spec [OF j]] assms(3) by simp
      then show ?thesis by (simp add: quiet_fields)
    qed auto
    then show ?thesis
      using files_after [OF assms(1) j assms(3)] assms(4) read_run_files read_run_put_other by metis
  qed
qed



section \<open>Histories\<close>

type_synonym loop_history = "(loop_command \<times> py_datetime option) list"

fun run_all :: "loop_history \<Rightarrow> hub \<Rightarrow> hub" where
  "run_all [] h = h"
| "run_all ((c, now) # cs) h = run_all cs (snd (run_command c now h))"

text \<open>
  No creation of the history stores its new loop under the id \<open>i\<close>. The id is a stamp, the slug of the
  goal and eight random digits; a creation does not ask whether a loop of that id exists.
\<close>

fun spares_loop :: "pystr \<Rightarrow> loop_history \<Rightarrow> hub \<Rightarrow> bool" where
  "spares_loop i [] h \<longleftrightarrow> True"
| "spares_loop i ((c, now) # cs) h \<longleftrightarrow>
     (case run_command c now h of (r, h') \<Rightarrow>
        (case r of Inl e \<Rightarrow> True | Inr l \<Rightarrow> command_target c = None \<longrightarrow> lr_loop_id l \<noteq> i)
        \<and> spares_loop i cs h')"

lemma creation_spares:
  assumes "reachable h" "command_ok c" "command_target c = None" "run_command c now h = (r, h')"
    "\<And>l. r = Inr l \<Longrightarrow> lr_loop_id l \<noteq> i"
  shows "read_run h' i = read_run h i"
proof (cases r)
  case (Inl e)
  then have "h_files h' = h_files h" using command_effect [OF assms(4,2)] by (simp add: quiet_fields)
  then show ?thesis by (rule read_run_files)
next
  case (Inr l)
  then have "h_files h' = put_run l (h_files h)"
    using command_effect [OF assms(4,2)] assms(3) by (simp add: creates_run_def)
  then show ?thesis by (rule read_run_put_other) (use assms(5) Inr in blast)
qed

lemma spared_moves:
  assumes "reachable h" "command_ok c" "run_command c now h = (r, h')" "read_run h i = Inr l"
    "\<And>l'. command_target c = None \<Longrightarrow> r = Inr l' \<Longrightarrow> lr_loop_id l' \<noteq> i"
  shows "\<exists>l'. read_run h' i = Inr l' \<and> (l' = l \<or> run_step l l')"
proof (cases "command_target c = None")
  case True
  then show ?thesis using creation_spares [OF assms(1,2) True assms(3)] assms(4,5) by simp
next
  case False
  then show ?thesis by (rule command_moves [OF assms(1) _ assms(3,4)])
qed

lemma status_history:
  "\<lbrakk>reachable h; list_all (\<lambda>(c, now). command_ok c) cs; spares_loop i cs h; read_run h i = Inr l\<rbrakk> \<Longrightarrow>
   \<exists>l'. read_run (run_all cs h) i = Inr l' \<and>
     (\<lambda>a b. a = b \<or> b \<in> set (allowed_targets allowed_transitions a))\<^sup>*\<^sup>* (lr_status l) (lr_status l')"
proof (induction cs arbitrary: h l)
  case (Cons x cs)
  obtain c now where x: "x = (c, now)" by fastforce
  obtain r h' where run: "run_command c now h = (r, h')" by (cases "run_command c now h")
  from Cons.prems have c: "command_ok c" and rest: "spares_loop i cs h'" "list_all (\<lambda>(c, now). command_ok c) cs"
    and spared: "\<And>l'. command_target c = None \<Longrightarrow> r = Inr l' \<Longrightarrow> lr_loop_id l' \<noteq> i"
    by (auto simp: x run)
  obtain l' where l': "read_run h' i = Inr l'" "l' = l \<or> run_step l l'"
    using spared_moves [OF Cons.prems(1) c run Cons.prems(4)] spared by blast
  have "reachable h'" using Cons.prems(1) c run by (rule reachable_command)
  then obtain l'' where "read_run (run_all cs h') i = Inr l''"
      "(\<lambda>a b. a = b \<or> b \<in> set (allowed_targets allowed_transitions a))\<^sup>*\<^sup>* (lr_status l') (lr_status l'')"
    using Cons.IH [OF _ rest(2,1) l'(1)] by auto
  moreover have "lr_status l' = lr_status l \<or>
      lr_status l' \<in> set (allowed_targets allowed_transitions (lr_status l))"
    using l'(2) status_moves by auto
  ultimately show ?case
    by (auto simp: x run intro: converse_rtranclp_into_rtranclp)
qed auto

text \<open>C11. A completed or cancelled loop stays so through every further history of commands, creations of
  other loops included, in which no creation draws the id of the loop again and none brings an open gate
  in its metadata. A creation that does draw it replaces the loop, see \<open>creation_replaces\<close>.\<close>

theorem terminal_status_is_final:
  assumes "reachable h" "read_run h i = Inr l" "loop_terminal (lr_status l)"
    and "list_all (\<lambda>(c, now). command_ok c) cs" "spares_loop i cs h"
  shows "\<exists>l'. read_run (run_all cs h) i = Inr l' \<and> lr_status l' = lr_status l"
  using status_history [OF assms(1,4,5,2)] loop_table.terminal_forever [OF _ assms(3)] by blast

definition other_create :: loop_command where
  "other_create = Cmd_create (demo_args\<lparr>ca_goal := lit ''test''\<rparr>)"

definition hub_later :: hub where
  "hub_later = hub_done\<lparr>h_uuid := \<lambda>_. lit ''e''\<rparr>"

lemma other_create_id:
  "run_command other_create (Some demo_now) hub_later = (Inr l, h') \<Longrightarrow> lr_loop_id l \<noteq> demo_id"
proof -
  have "make_loop_id (lit ''test'') demo_now (lit ''e'') \<noteq> demo_id" by code_simp
  then show "run_command other_create (Some demo_now) hub_later = (Inr l, h') \<Longrightarrow> lr_loop_id l \<noteq> demo_id"
    by (auto simp: other_create_def store_create_def demo_args_def recent_injection_candidates_def hub_later_def run_simps)
qed

lemma terminal_status_is_final_witness:
  "\<exists>l'. read_run (run_all [(other_create, Some demo_now), (complete_cmd, None), (gate_cmd, None)] hub_later) demo_id = Inr l' \<and>
     lr_status l' = lr_status demo_done"
proof -
  have later: "reachable hub_later" "read_run hub_later demo_id = Inr demo_done"
    using hub_done_reached reachable_other [of hub_done hub_later] read_run_files [of hub_later hub_done]
    by (simp_all add: hub_later_def)
  have "spares_loop demo_id [(other_create, Some demo_now), (complete_cmd, None), (gate_cmd, None)] hub_later"
    using other_create_id by (auto simp: complete_cmd_def gate_cmd_def split: prod.splits sum.splits)
  then show ?thesis
    using later
    by (intro terminal_status_is_final)
      (simp_all add: demo_done_def loop_terminal_def other_create_def demo_args_def complete_cmd_def gate_cmd_def)
qed

text \<open>
  What a creation does to a loop of the id it draws: it replaces it, whatever was stored there.
\<close>

lemma creation_replaces:
  assumes "run_command (Cmd_create args) now h = (Inr l, h')"
  shows "read_run h' (lr_loop_id l) = Inr l" "\<not> loop_terminal (lr_status l)"
  using wp_Inr [OF store_create_details] assms by (auto simp: loop_terminal_def)

section \<open>Every stored run\<close>

text \<open>C5. A completed loop was verified: every task step is verified or cancelled, no blocker of a
  step is open, and the stored results hold completion evidence, whatever came after completion.\<close>

theorem completed_loop_was_verified:
  assumes "reachable h" "read_run h i = Inr l" "lr_status l = status_value Completed"
  shows "list_all step_finished (lr_steps l) \<and> \<not> blocker_open l s
    \<and> require_completion_evidence (lr_verification_results l) None = Inr ()"
proof -
  have life: "lifetime l" using reachable_read [OF assms(1,2)] by simp
  then have fin: "list_all step_finished (lr_steps l)"
      "require_completion_evidence (lr_verification_results l) None = Inr ()"
    using completion.always assms(3) by (auto simp: completion_sound_def)
  have "step_status (lr_steps l) s \<noteq> Some (lit ''blocked'')"
    using fin(1) step_index_Some [of s "lr_steps l"]
    by (auto simp: step_status_def list_all_length step_finished_def row_status_def split: option.splits)
  then have "\<not> blocker_open l s"
    using blockers.always [OF life] by (simp add: blockers_sound_def)
  with fin show ?thesis by simp
qed

lemma completed_loop_was_verified_witness:
  "list_all step_finished (lr_steps demo_done) \<and> \<not> blocker_open demo_done (lit ''step-bbb'')
    \<and> require_completion_evidence (lr_verification_results demo_done) None = Inr ()"
  using hub_done_reached
  by (intro completed_loop_was_verified [of hub_done demo_id]) (simp_all add: demo_done_def)

text \<open>C10. A step that runs, is completed or verified has all its dependencies verified, and every
  dependency is the id of an earlier step, so the steps form an acyclic plan.\<close>

theorem started_steps_have_verified_dependencies:
  assumes "reachable h" "read_run h i = Inr l" "n < length (lr_steps l)"
  shows "deps_before (lr_steps l) n \<and>
    (step_started (lr_steps l ! n) \<longrightarrow> step_ready (lr_steps l) (lr_steps l ! n))"
  using reachable_read [OF assms(1,2)] assms(3) dependencies.always [of l] plan.always [of l]
  by (auto simp: dependencies_sound_def plan_acyclic_def list_all_length)

lemma started_steps_have_verified_dependencies_witness:
  "deps_before (lr_steps demo_done) 1 \<and>
   step_ready (lr_steps demo_done) (row_b ''verified'' demo_ok)"
proof -
  have "step_started (lr_steps demo_done ! 1)"
    by (simp add: demo_done_def step_started_def row_status_def row_b_def demo_row_def dget_def)
  then show ?thesis
    using started_steps_have_verified_dependencies [of hub_done demo_id demo_done 1] hub_done_reached
    by (simp add: demo_done_def)
qed

text \<open>C18. A step is blocked exactly while the loop has an open blocker for it.\<close>

theorem step_blocked_iff_blocker_open:
  assumes "reachable h" "read_run h i = Inr l"
  shows "blocker_open l s \<longleftrightarrow> step_status (lr_steps l) s = Some (lit ''blocked'')"
  using reachable_read [OF assms] blockers.always [of l] by (auto simp: blockers_sound_def)

lemma step_blocked_iff_blocker_open_witness:
  "step_status (lr_steps (demo_with Blocked [row_a ''verified'' demo_ok, row_b ''blocked'' []]
     [demo_blocker ''open''])) (lit ''step-bbb'') = Some (lit ''blocked'')"
  using hub_blocked_reached
    step_blocked_iff_blocker_open [of hub_blocked demo_id _ "lit ''step-bbb''"]
  by (simp add: blocker_open_def open_blocker_of_def)

text \<open>C19. Every verified step carries an evidence row with a text that is not blank.\<close>

theorem verified_steps_have_evidence:
  assumes "reachable h" "read_run h i = Inr l" "s \<in> set (lr_steps l)"
    "row_status s = lit ''verified''"
  shows "list_ex says_evidence (step_evidence s)"
  using reachable_read [OF assms(1,2)] assms(3,4) evidence.always [of l]
  by (auto simp: evidence_sound_def list_all_iff)

lemma verified_steps_have_evidence_witness:
  "list_ex says_evidence (step_evidence (row_a ''verified'' demo_ok))"
  using hub_done_reached
  by (intro verified_steps_have_evidence [of hub_done demo_id demo_done])
    (simp_all add: demo_done_def row_a_def)

text \<open>A loop never has two open human gates of one id, and after a gate was resolved no open
  gate of that loop has its id.\<close>

theorem gates_open_once:
  assumes "reachable h" "read_run h i = Inr l"
  shows "distinct (gate_ids (open_human_gates l)) \<and>
    (case resolve_human_gate i g d text ev actor now h of (Inl e, h') \<Rightarrow> quiet h h'
     | (Inr l', h') \<Rightarrow> gate_ids (open_human_gates l') = remove1 (PyStr (strip g)) (gate_ids (open_human_gates l)))"
proof -
  have dist: "distinct (gate_ids (open_human_gates l))"
    using reachable_read [OF assms] gates.always [of l] by (simp add: gates_distinct_def)
  have remaining: "distinct (gate_ids gs) \<Longrightarrow>
      gate_ids (filter (\<lambda>r. dget r (lit ''id'') \<noteq> v) gs) = remove1 v (gate_ids gs)" for gs v
    by (induction gs) (auto simp: gate_ids_def remove1_idem)
  have "wp (resolve_human_gate i g d text ev actor now)
      (\<lambda>l' h'. gate_ids (open_human_gates l') = remove1 (PyStr (strip g)) (gate_ids (open_human_gates l)))
      (no_effect h) h"
    unfolding resolve_human_gate_def Let_def
    by (intro wp_rules)
      (auto simp: assms(2) require_text_def open_human_gates_def gate_rows_def
        remaining [OF dist [unfolded open_human_gates_def gate_rows_def]] split: if_splits)
  with dist show ?thesis
    by (auto simp: wp_def split: prod.splits sum.splits)
qed

lemma gates_open_once_witness:
  "distinct (gate_ids (open_human_gates demo_gated)) \<and>
    (case resolve_human_gate demo_id (lit ''deploy'') Approved (lit ''ok'') None (lit ''cli'') None hub_gated of
       (Inl e, h') \<Rightarrow> quiet hub_gated h'
     | (Inr l', h') \<Rightarrow> gate_ids (open_human_gates l') =
         remove1 (PyStr (strip (lit ''deploy''))) (gate_ids (open_human_gates demo_gated)))"
  using hub_gated_reached by (intro gates_open_once) simp_all

section \<open>When a command succeeds\<close>

lemma wp_succeeds:
  assumes "P \<Longrightarrow> wp m (\<lambda>_ _. True) (\<lambda>_ _. False) h" "\<not> P \<Longrightarrow> wp m (\<lambda>_ _. False) (\<lambda>_ _. True) h"
  shows "(\<exists>a. fst (m h) = Inr a) \<longleftrightarrow> P"
  using assms by (cases P; cases "m h"; cases "fst (m h)") (auto simp: wp_def)

definition evidence_text :: "pystr option \<Rightarrow> bool" where
  "evidence_text ev \<longleftrightarrow> (case ev of None \<Rightarrow> False | Some e \<Rightarrow> strip e \<noteq> [])"

text \<open>The rows that count as completion evidence.\<close>

definition counts_as_evidence :: "pydict \<Rightarrow> bool" where
  "counts_as_evidence row \<longleftrightarrow> has_text (dget row (lit ''evidence''))
     \<or> has_text (dget row (lit ''feedback_id'')) \<and> dget row (lit ''status'') = PyStr (lit ''passed'')"

lemma evidence_Inr:
  "require_completion_evidence rows ev = Inr u \<longleftrightarrow> list_ex counts_as_evidence rows \<or> evidence_text ev"
  by (auto simp: require_completion_evidence_def Let_def counts_as_evidence_def evidence_text_def
      list_ex_iff split: option.splits if_splits)

lemma evidence_Inl:
  "require_completion_evidence rows ev = Inl e \<Longrightarrow> \<not> list_ex counts_as_evidence rows \<and> \<not> evidence_text ev"
  using evidence_Inr [of rows ev "()"] by auto

text \<open>Completing a loop succeeds exactly when the loop can be read and is running, all its task
  steps are verified or cancelled, and there is evidence: a stored evidence text, a stored passed
  verifier feedback or a new evidence text. Open human gates are not asked for.\<close>

theorem complete_succeeds_iff:
  "(\<exists>l'. fst (store_complete i ev art actor now h) = Inr l') \<longleftrightarrow>
   (\<exists>l. read_run h i = Inr l \<and> lr_status l = status_value Running
      \<and> list_all step_finished (lr_steps l)
      \<and> (list_ex counts_as_evidence (lr_verification_results l) \<or> evidence_text ev))"
proof (rule wp_succeeds)
  assume "\<exists>l. read_run h i = Inr l \<and> lr_status l = status_value Running
      \<and> list_all step_finished (lr_steps l)
      \<and> (list_ex counts_as_evidence (lr_verification_results l) \<or> evidence_text ev)"
  then show "wp (store_complete i ev art actor now) (\<lambda>_ _. True) (\<lambda>_ _. False) h"
    unfolding store_complete_def Let_def
    by (intro wp_rules) (auto simp: unfinished_Nil validate_transition_def dest: evidence_Inl)
next
  assume "\<nexists>l. read_run h i = Inr l \<and> lr_status l = status_value Running
      \<and> list_all step_finished (lr_steps l)
      \<and> (list_ex counts_as_evidence (lr_verification_results l) \<or> evidence_text ev)"
  then show "wp (store_complete i ev art actor now) (\<lambda>_ _. False) (\<lambda>_ _. True) h"
    unfolding store_complete_def Let_def
    by (intro wp_rules)
      (auto simp: unfinished_Nil evidence_Inr validate_transition_Inr_iff dest: completed_only_from_running)
qed

text \<open>A move of a task step succeeds exactly when the step exists, the change is in the step
  table, a step that starts has verified dependencies only, a step that is blocked gets a blocker
  text and a step that is verified gets an evidence text.\<close>

theorem transition_step_succeeds_iff:
  assumes "reachable h" "read_run h i = Inr l"
  shows "(\<exists>l'. fst (transition_step i s st ev bl asg actor now h) = Inr l') \<longleftrightarrow>
   (\<exists>n. step_index s (lr_steps l) = Some n
      \<and> st \<in> set (allowed_targets step_transitions (row_status (lr_steps l ! n)))
      \<and> (st \<noteq> lit ''running'' \<or> step_ready (lr_steps l) (lr_steps l ! n))
      \<and> (st \<noteq> lit ''blocked'' \<or> evidence_text bl) \<and> (st \<noteq> lit ''verified'' \<or> evidence_text ev))"
    (is "_ \<longleftrightarrow> ?P")
proof -
  have life: "lifetime l" using reachable_read [OF assms] by simp
  have ev: "\<exists>es. iter_or_nil (dget (lr_steps l ! n) (lit ''evidence'')) = Inr es"
    if "step_index s (lr_steps l) = Some n" for n
    using step_rows.always [OF life] step_index_Some [OF that]
    by (auto simp: steps_listed_def list_all_length)
  have deps: "\<exists>ds. iter_or_nil (dget (lr_steps l ! n) (lit ''depends_on'')) = Inr ds"
    if "step_index s (lr_steps l) = Some n" for n
    using plan.always [OF life] step_index_Some [OF that]
    by (auto simp: plan_acyclic_def list_all_length deps_before_def)
  have gate: "step_gate (lr_steps l) (lr_steps l ! n) st ev bl = Inr () \<longleftrightarrow> ?P"
    if n: "step_index s (lr_steps l) = Some n" for n
    using deps [OF n] n
    by (auto simp: step_gate_def Let_def incomplete_Nil step_ready_def evidence_text_def
        split: option.splits if_splits)
  have gate_Inl: "step_gate (lr_steps l) (lr_steps l ! n) st ev bl = Inl e \<Longrightarrow> \<not> ?P"
    if "step_index s (lr_steps l) = Some n" for n e
    using gate [OF that] by auto
  show ?thesis
  proof (rule wp_succeeds)
    assume ?P
    then show "wp (transition_step i s st ev bl asg actor now) (\<lambda>_ _. True) (\<lambda>_ _. False) h"
      unfolding transition_step_def Let_def
      using gate_Inl ev
      by (intro wp_rules) (auto simp: assms(2) split: option.splits)
  next
    assume "\<not> ?P"
    then have no: "step_gate (lr_steps l) (lr_steps l ! n) st ev bl \<noteq> Inr u"
      if "step_index s (lr_steps l) = Some n" for n u
      using gate [OF that] by (cases u) simp
    have stop: "read_run h i = Inr l' \<Longrightarrow>
        (case step_index s (lr_steps l') of None \<Rightarrow> Inl e | Some n \<Rightarrow> Inr n) = Inr n \<Longrightarrow>
        step_gate (lr_steps l') (lr_steps l' ! n) st ev bl = Inr u \<Longrightarrow> R" for l' e n u R
      using assms(2) no by (auto split: option.split_asm)
    show "wp (transition_step i s st ev bl asg actor now) (\<lambda>_ _. False) (\<lambda>_ _. True) h"
      unfolding transition_step_def Let_def
      by (intro wp_rules TrueI) (erule (2) stop)+
  qed
qed

lemma transition_step_succeeds_iff_witness:
  "(\<exists>l'. fst (transition_step demo_id (lit ''step-bbb'') (lit ''running'') None None None (lit ''cli'') None
     hub_blocked) = Inr l') \<longleftrightarrow>
   (\<exists>n. step_index (lit ''step-bbb'') [row_a ''verified'' demo_ok, row_b ''blocked'' []] = Some n
      \<and> lit ''running'' \<in> set (allowed_targets step_transitions
            (row_status ([row_a ''verified'' demo_ok, row_b ''blocked'' []] ! n)))
      \<and> (lit ''running'' \<noteq> lit ''running'' \<or> step_ready [row_a ''verified'' demo_ok, row_b ''blocked'' []]
            ([row_a ''verified'' demo_ok, row_b ''blocked'' []] ! n))
      \<and> (lit ''running'' \<noteq> lit ''blocked'' \<or> evidence_text None)
      \<and> (lit ''running'' \<noteq> lit ''verified'' \<or> evidence_text None))"
  using transition_step_succeeds_iff [OF hub_blocked_reached [THEN conjunct1]
      hub_blocked_reached [THEN conjunct2], of "lit ''step-bbb''" "lit ''running''"]
  by (simp only: demo_with_simps)

text \<open>Creating a loop fails only for a blank goal; otherwise the new loop can be read back, is
  created or running as asked, holds no steps, blockers, results or checkpoints, and its id starts
  with the stamp and the slug of the goal.\<close>

theorem create_stores_new_loop:
  assumes "run_command (Cmd_create args) now h = (r, h')"
  shows "case r of
      Inl e \<Rightarrow> strip (ca_goal args) = [] \<and> e = ValueError (lit ''goal is required'') \<and> h' = h
    | Inr l \<Rightarrow> strip (ca_goal args) \<noteq> [] \<and> read_run h' (lr_loop_id l) = Inr l
        \<and> lr_status l = status_value (if ca_start args then Running else Created)
        \<and> lr_goal l = ca_goal args \<and> lr_steps l = [] \<and> lr_blockers l = []
        \<and> lr_verification_results l = [] \<and> lr_metadata l = ca_metadata args
        \<and> (\<exists>t hex. lr_loop_id l = make_loop_id (ca_goal args) t hex)"
  using assms wp_Inr [OF store_create_details] wp_Inl [OF store_create_details]
  by (cases r) fastforce+

lemma create_stores_new_loop_witness: "read_run demo_hub1 (lr_loop_id demo_run) = Inr demo_run"
proof -
  have "run_command (Cmd_create demo_args) (Some demo_now) demo_hub = (Inr demo_run, demo_hub1)"
    using demo_create_run by (simp add: demo_hub1_def prod_eq_iff)
  from create_stores_new_loop [OF this] show ?thesis by simp
qed

end
