(* ===== verification/LoopVerifier.thy ===== *)
theory LoopVerifier imports LoopExample begin

text \<open>
  \<^verbatim>\<open>agent_brain/memory/loops/loop_verifier.py\<close>: running the verification commands of a loop and
  recording their feedback. The child process is a parameter of the hub (\<open>h_process\<close>: what the
  n-th process returns for an argument vector, a working directory and a time limit); every
  process started is logged in \<open>h_process_runs\<close>.
\<close>

section \<open>Definitions\<close>

definition verifier_lookup :: "pydict \<Rightarrow> pystr \<Rightarrow> pydict" where
  "verifier_lookup metadata command =
     (case map_of (rev (map (\<lambda>row. (py_str (dget row (lit ''command'')), row))
         (filter (\<lambda>row. truthy (dget row (lit ''command'')))
           (dict_rows (dget metadata (lit ''contract_verifiers'')))))) command of
        None \<Rightarrow> [] | Some row \<Rightarrow> row)"

text \<open>\<open>_feedback\<close> with its two summaries and the fresh id.\<close>

definition make_feedback ::
  "pystr \<Rightarrow> pystr option \<Rightarrow> py_datetime \<Rightarrow> pystr \<Rightarrow> pystr \<Rightarrow> int option \<Rightarrow> int \<Rightarrow> raw_output \<Rightarrow> raw_output
     \<Rightarrow> pystr option \<Rightarrow> pystr option \<Rightarrow> loop_feedback op" where
  "make_feedback command cwd now status category exit_code duration_ms stdout stderr verifier_id
       contract_id =
     bindP (asks (\<lambda>h. summarize_output (h_sha256 h) (h_decode h) stdout 800)) (\<lambda>out.
     bindP (asks (\<lambda>h. summarize_output (h_sha256 h) (h_decode h) stderr 800)) (\<lambda>err.
     bindP fresh_uuid (\<lambda>hex.
     ret \<lparr>lf_feedback_id = make_feedback_id now hex, lf_timestamp = timestamp now,
        lf_command = command, lf_cwd = cwd, lf_status = status, lf_category = category,
        lf_exit_code = exit_code, lf_duration_ms = duration_ms, lf_stdout_summary = os_text out,
        lf_stderr_summary = os_text err, lf_stdout_sha256 = os_sha256 out,
        lf_stderr_sha256 = os_sha256 err, lf_stdout_lines = os_line_count out,
        lf_stderr_lines = os_line_count err, lf_truncated = (os_truncated out \<or> os_truncated err),
        lf_artifact = None, lf_verifier_id = verifier_id, lf_contract_id = contract_id\<rparr>)))"

definition start_process :: "pystr list \<Rightarrow> pystr option \<Rightarrow> int \<Rightarrow> (process_result \<times> int) op" where
  "start_process argv cwd timeout h =
     (Inr (h_process h argv cwd timeout (length (h_process_runs h)),
           h_elapsed h (length (h_process_runs h))),
      h\<lparr>h_process_runs := h_process_runs h @ [(argv, cwd, timeout)]\<rparr>)"

fun empty_output :: "raw_output \<Rightarrow> bool" where
  "empty_output NoOutput \<longleftrightarrow> True"
| "empty_output (OutText t) \<longleftrightarrow> t = []"
| "empty_output (OutBytes b) \<longleftrightarrow> b = []"

definition process_dir :: "pystr option \<Rightarrow> pystr option" where
  "process_dir cwd = (if opt_text cwd then cwd else None)"

definition run_verifier ::
  "pystr \<Rightarrow> pystr option \<Rightarrow> int \<Rightarrow> pystr option \<Rightarrow> pystr option \<Rightarrow> loop_feedback op" where
  "run_verifier command cwd timeout verifier_id contract_id =
     bindP (read_clock None) (\<lambda>now.
     let validation = validate_verification_command command;
         feedback = (\<lambda>status category exit_code duration stdout stderr.
           make_feedback command cwd now (lit status) (lit category) exit_code duration stdout stderr
             verifier_id contract_id)
     in if \<not> cv_allowed validation then
          feedback ''blocked'' ''invalid_action'' None 0 (OutText [])
            (OutText (case cv_reason validation of None \<Rightarrow> lit ''invalid action''
               | Some r \<Rightarrow> if r = [] then lit ''invalid action'' else r))
        else bindP (asks h_path_exists) (\<lambda>exists.
        if opt_text cwd \<and> \<not> exists (the cwd) then
          feedback ''blocked'' ''runner_error'' None 0 (OutText [])
            (OutText (lit ''cwd does not exist: '' @ the cwd))
        else bindP (start_process (cv_argv validation) (process_dir cwd) timeout)
          (\<lambda>(outcome, duration).
          case outcome of
            TimedOut stdout stderr \<Rightarrow>
              feedback ''timed_out'' ''timeout'' None duration stdout
                (if empty_output stderr
                 then OutText (lit ''timed out after '' @ int_str timeout @ lit ''s'') else stderr)
          | OsError message \<Rightarrow>
              feedback ''blocked'' ''runner_error'' None duration (OutText []) (OutText message)
          | OutputError message \<Rightarrow> raise (ValueError message)
          | Exited code stdout stderr \<Rightarrow>
              (let (status, category) = classify_feedback (Some code) None False False
               in make_feedback command cwd now status category (Some code) duration stdout stderr
                    verifier_id contract_id))))"

definition truthy_str :: "pyval \<Rightarrow> pystr option" where
  "truthy_str v = (if truthy v then Some (py_str v) else None)"

definition count_status :: "string \<Rightarrow> loop_feedback list \<Rightarrow> int" where
  "count_status s fs = int (length (filter (\<lambda>f. lf_status f = lit s) fs))"

definition summarize_feedback :: "pystr \<Rightarrow> loop_feedback list \<Rightarrow> verification_summary" where
  "summarize_feedback loop_id fs =
     \<lparr>vs_loop_id = loop_id, vs_attempted = int (length fs), vs_passed = count_status ''passed'' fs,
      vs_failed = count_status ''failed'' fs, vs_blocked = count_status ''blocked'' fs,
      vs_timed_out = count_status ''timed_out'' fs, vs_feedback = fs\<rparr>"

definition selected_commands :: "pystr list option \<Rightarrow> int option \<Rightarrow> loop_run \<Rightarrow> pystr list" where
  "selected_commands commands limit l =
     (let selected = (case commands of None \<Rightarrow> lr_verification_plan l | Some cs \<Rightarrow> cs)
      in case limit of None \<Rightarrow> selected | Some n \<Rightarrow> take (nat (max 0 n)) selected)"

definition verify_command ::
  "pystr \<Rightarrow> loop_run \<Rightarrow> pystr option \<Rightarrow> int \<Rightarrow> pystr \<Rightarrow> pystr \<Rightarrow> loop_feedback list \<Rightarrow> loop_feedback list op" where
  "verify_command loop_id l run_cwd timeout actor command fs =
     bindP (run_verifier command run_cwd timeout
         (truthy_str (dget (verifier_lookup (lr_metadata l) command) (lit ''id'')))
         (truthy_str (dget (lr_metadata l) (lit ''contract_id'')))) (\<lambda>item.
     bindP (add_verification_feedback loop_id item actor None) (\<lambda>_.
     ret (fs @ [item])))"

definition verify ::
  "pystr \<Rightarrow> int option \<Rightarrow> int \<Rightarrow> pystr option \<Rightarrow> pystr list option \<Rightarrow> pystr \<Rightarrow> verification_summary op" where
  "verify loop_id limit timeout cwd commands actor =
     bindP (check (1 \<le> timeout \<and> timeout \<le> 600)
       (ValueError (lit ''timeout must be between 1 and 600 seconds''))) (\<lambda>_.
     bindP (store_get loop_id) (\<lambda>l.
     bindP (foldP (verify_command loop_id l (if opt_text cwd then cwd else lr_cwd l) timeout actor)
         (selected_commands commands limit l) []) (\<lambda>fs.
     ret (summarize_feedback loop_id fs))))"

section \<open>One command\<close>

lemma wp_foldP:
  assumes "I [] s h"
    and "\<And>seen x rest s h. xs = seen @ x # rest \<Longrightarrow> I seen s h \<Longrightarrow> wp (f x s) (\<lambda>s' h'. I (seen @ [x]) s' h') E h"
  shows "wp (foldP f xs s) (\<lambda>s' h'. I xs s' h') E h"
proof -
  have "xs = seen @ rest \<Longrightarrow> I seen s h \<Longrightarrow> wp (foldP f rest s) (\<lambda>s' h'. I xs s' h') E h" for seen rest s h
  proof (induction rest arbitrary: seen s h)
    case Nil
    then show ?case by (simp add: wp_def)
  next
    case (Cons x rest)
    have "wp (f x s) (\<lambda>s' h'. wp (foldP f rest s') (\<lambda>s' h'. I xs s' h') E h') E h"
    proof (rule wp_mono [OF assms(2) [OF Cons.prems]])
      fix s' h' assume "I (seen @ [x]) s' h'"
      then show "wp (foldP f rest s') (\<lambda>s' h'. I xs s' h') E h'"
        using Cons.prems(1) by (intro Cons.IH [of "seen @ [x]"]) simp_all
    qed
    then show ?case by (simp add: wp_bindP)
  qed
  from this [of "[]" xs s h] assms(1) show ?thesis by simp
qed

definition four_statuses :: "pystr list" where
  "four_statuses = [lit ''passed'', lit ''failed'', lit ''blocked'', lit ''timed_out'']"

definition run_allowed :: "int \<Rightarrow> pystr list \<times> pystr option \<times> int \<Rightarrow> bool" where
  "run_allowed timeout run \<longleftrightarrow>
     (case run of (argv, d, t) \<Rightarrow> t = timeout \<and>
        list_ex (\<lambda>p. take (length p) argv = p) allowed_command_prefixes)"

definition command_passes :: "hub \<Rightarrow> pystr \<Rightarrow> pystr option \<Rightarrow> int \<Rightarrow> bool" where
  "command_passes h command cwd timeout \<longleftrightarrow>
     (let validation = validate_verification_command command
      in cv_allowed validation \<and> (\<not> opt_text cwd \<or> h_path_exists h (the cwd)) \<and>
         (case h_process h (cv_argv validation) (process_dir cwd) timeout
              (length (h_process_runs h)) of Exited code _ _ \<Rightarrow> code = 0 | _ \<Rightarrow> False))"

text \<open>A process whose output cannot be decoded, or that cannot be given its arguments.\<close>

definition output_error_possible :: "hub \<Rightarrow> int \<Rightarrow> bool" where
  "output_error_possible h timeout \<longleftrightarrow> (\<exists>argv d n m. h_process h argv d timeout n = OutputError m)"

text \<open>What starting the verifier of one command can do: it adds at most one process run.\<close>

definition verifier_ran :: "int \<Rightarrow> hub \<Rightarrow> hub \<Rightarrow> bool" where
  "verifier_ran timeout h h' \<longleftrightarrow>
     h_files h' = h_files h \<and> h_events h' = h_events h \<and> h_process h' = h_process h
     \<and> h_path_exists h' = h_path_exists h
     \<and> (\<exists>runs. h_process_runs h' = h_process_runs h @ runs \<and> length runs \<le> 1
          \<and> list_all (run_allowed timeout) runs)"

lemma wp_clock_here:
  assumes "\<And>t h'. \<lbrakk>h_files h' = h_files h; h_events h' = h_events h; h_process h' = h_process h;
      h_path_exists h' = h_path_exists h; h_process_runs h' = h_process_runs h\<rbrakk> \<Longrightarrow> Q t h'"
  shows "wp (read_clock now) Q E h"
  using assms by (auto simp: wp_def read_clock_def split: option.splits)

lemma wp_make_feedback:
  assumes "\<And>f h'. \<lbrakk>h_files h' = h_files h; h_events h' = h_events h; h_process h' = h_process h;
      h_path_exists h' = h_path_exists h; h_process_runs h' = h_process_runs h;
      lf_command f = command; lf_status f = status\<rbrakk> \<Longrightarrow> Q f h'"
  shows "wp (make_feedback command cwd now status category exit_code duration stdout stderr vid cid) Q E h"
  using assms
  by (simp add: make_feedback_def wp_def fresh_uuid_def bindP_def)

lemma allowed_argv:
  "cv_allowed (validate_verification_command c) \<Longrightarrow>
     list_ex (\<lambda>p. take (length p) (cv_argv (validate_verification_command c)) = p) allowed_command_prefixes"
  by (auto simp: validate_verification_command_def split: sum.splits if_splits)

lemma wp_asks [wp_rules]: "Q (f h) h \<Longrightarrow> wp (asks f) Q E h"
  by (simp add: wp_def)

lemma wp_start_process [wp_rules]:
  assumes "\<And>h'. h_files h' = h_files h \<Longrightarrow> h_events h' = h_events h \<Longrightarrow> h_process h' = h_process h \<Longrightarrow>
      h_path_exists h' = h_path_exists h \<Longrightarrow> h_process_runs h' = h_process_runs h @ [(argv, d, t)] \<Longrightarrow>
      Q (h_process h argv d t (length (h_process_runs h)), h_elapsed h (length (h_process_runs h))) h'"
  shows "wp (start_process argv d t) Q E h"
  using assms by (simp add: wp_def start_process_def)

lemma wp_case_process [wp_rules]:
  assumes "\<And>c out err. r = Exited c out err \<Longrightarrow> wp (f c out err) Q E h"
    and "\<And>out err. r = TimedOut out err \<Longrightarrow> wp (g out err) Q E h"
    and "\<And>m. r = OsError m \<Longrightarrow> wp (k m) Q E h" and "\<And>m. r = OutputError m \<Longrightarrow> wp (l m) Q E h"
  shows "wp (case r of Exited c out err \<Rightarrow> f c out err | TimedOut out err \<Rightarrow> g out err
    | OsError m \<Rightarrow> k m | OutputError m \<Rightarrow> l m) Q E h"
  using assms by (cases r) simp_all

lemma classify_exit:
  "classify_feedback (Some c) None False False = (status, category) \<Longrightarrow>
     c = 0 \<and> status = lit ''passed'' \<or> c \<noteq> 0 \<and> status = lit ''failed''"
  by (auto simp: classify_feedback_def split: if_splits)

lemmas verifier_rules = wp_bindP wp_clock_here wp_if wp_asks wp_start_process wp_case_pair
  wp_case_process wp_raise wp_make_feedback

lemma output_error_possibleI: "h_process h argv d timeout n = OutputError m \<Longrightarrow> output_error_possible h timeout"
  by (auto simp: output_error_possible_def)

lemma verifier_ran_none:
  "\<lbrakk>h_files h' = h_files h; h_events h' = h_events h; h_process h' = h_process h;
    h_path_exists h' = h_path_exists h; h_process_runs h' = h_process_runs h\<rbrakk> \<Longrightarrow> verifier_ran t h h'"
  by (simp add: verifier_ran_def)

lemma verifier_ran_one:
  "\<lbrakk>h_files h' = h_files h; h_events h' = h_events h; h_process h' = h_process h;
    h_path_exists h' = h_path_exists h;
    h_process_runs h' = h_process_runs h @ [(cv_argv (validate_verification_command c), d, t)];
    cv_allowed (validate_verification_command c)\<rbrakk> \<Longrightarrow> verifier_ran t h h'"
  by (simp add: verifier_ran_def run_allowed_def allowed_argv)

lemma run_verifier_spec:
  "wp (run_verifier command cwd timeout vid cid)
     (\<lambda>f h'. verifier_ran timeout h h' \<and> lf_command f = command \<and> lf_status f \<in> set four_statuses
        \<and> (lf_status f = lit ''passed'' \<longleftrightarrow> command_passes h command cwd timeout))
     (\<lambda>e h'. verifier_ran timeout h h' \<and> output_error_possible h timeout) h"
  unfolding run_verifier_def Let_def
  by (intro verifier_rules)
   (auto simp: four_statuses_def command_passes_def intro: verifier_ran_none verifier_ran_one
       output_error_possibleI dest!: classify_exit)

section \<open>A whole verification\<close>

text \<open>The state of a verification that has dealt with some commands.\<close>

definition verified_so_far ::
  "pystr \<Rightarrow> loop_run \<Rightarrow> int \<Rightarrow> hub \<Rightarrow> pystr list \<Rightarrow> loop_feedback list \<Rightarrow> hub \<Rightarrow> bool" where
  "verified_so_far i l timeout h seen fs h' \<longleftrightarrow>
     map lf_command fs = seen \<and> list_all (\<lambda>f. lf_status f \<in> set four_statuses) fs
     \<and> list_all (\<lambda>f. lf_status f \<noteq> lit ''passed'' \<or> cv_allowed (validate_verification_command (lf_command f))) fs
     \<and> reachable h' \<and> h_process h' = h_process h
     \<and> (\<exists>t. read_run h' i = Inr (l\<lparr>lr_updated_at := t,
          lr_verification_results := lr_verification_results l @ map feedback_to_dict fs\<rparr>))
     \<and> (\<exists>runs. h_process_runs h' = h_process_runs h @ runs \<and> length runs \<le> length seen
          \<and> list_all (run_allowed timeout) runs)"

definition runs_allowed :: "int \<Rightarrow> nat \<Rightarrow> hub \<Rightarrow> hub \<Rightarrow> bool" where
  "runs_allowed timeout n h h' \<longleftrightarrow>
     (\<exists>runs. h_process_runs h' = h_process_runs h @ runs \<and> length runs \<le> n
          \<and> list_all (run_allowed timeout) runs)"

lemma wp_add_feedback:
  assumes "reachable h" "read_run h i = Inr l"
    and "\<And>l' t h'. \<lbrakk>reachable h'; h_process_runs h' = h_process_runs h; h_process h' = h_process h;
        read_run h' i = Inr (l\<lparr>lr_updated_at := t,
          lr_verification_results := lr_verification_results l @ [feedback_to_dict f]\<rparr>)\<rbrakk> \<Longrightarrow> Q l' h'"
  shows "wp (add_verification_feedback i f actor None) Q E h"
proof -
  have "wp (add_verification_feedback i f actor None)
      (\<lambda>l' h'. \<exists>t. l' = l\<lparr>lr_updated_at := t,
          lr_verification_results := lr_verification_results l @ [feedback_to_dict f]\<rparr> \<and>
        h_process_runs h' = h_process_runs h \<and> h_process h' = h_process h) (\<lambda>_ _. False) h"
    unfolding add_verification_feedback_def Let_def
    by (intro wp_rules) (auto simp: assms(2) dest: world_fields(1,2))
  then obtain l' h' t where run: "add_verification_feedback i f actor None h = (Inr l', h')"
      and l': "l' = l\<lparr>lr_updated_at := t,
          lr_verification_results := lr_verification_results l @ [feedback_to_dict f]\<rparr>"
      "h_process_runs h' = h_process_runs h" "h_process h' = h_process h"
    by (auto simp: wp_def split: prod.splits sum.splits)
  have cmd: "run_command (Cmd_feedback i f actor) None h = (Inr l', h')" using run by simp
  have "reachable h'" "read_run h' i = Inr l'"
    using reachable_command [OF assms(1) _ cmd] command_stores [OF assms(1) _ cmd] by simp_all
  then show ?thesis
    using assms(3) l' run by (auto simp: wp_def)
qed
lemma verified_step:
  assumes before: "verified_so_far i l timeout h seen fs h1" and ran: "verifier_ran timeout h1 h2"
    and f: "lf_command f = c" "lf_status f \<in> set four_statuses"
      "lf_status f = lit ''passed'' \<longleftrightarrow> command_passes h1 c cwd timeout"
    and h3: "reachable h3" "h_process_runs h3 = h_process_runs h2" "h_process h3 = h_process h2"
      "read_run h3 i = Inr (l0\<lparr>lr_updated_at := t, lr_verification_results :=
         lr_verification_results l0 @ [feedback_to_dict f]\<rparr>)"
    and l0: "read_run h2 i = Inr l0"
  shows "verified_so_far i l timeout h (seen @ [c]) (fs @ [f]) h3"
proof -
  obtain runs where runs: "h_process_runs h1 = h_process_runs h @ runs" "length runs \<le> length seen"
      "list_all (run_allowed timeout) runs"
    using before by (auto simp: verified_so_far_def)
  obtain more where more: "h_process_runs h2 = h_process_runs h1 @ more" "length more \<le> 1"
      "list_all (run_allowed timeout) more"
    using ran by (auto simp: verifier_ran_def)
  have "read_run h1 i = Inr l0"
    using l0 ran read_run_files [of h2 h1 i] by (simp add: verifier_ran_def)
  then obtain t0 where "l0 = l\<lparr>lr_updated_at := t0,
      lr_verification_results := lr_verification_results l @ map feedback_to_dict fs\<rparr>"
    using before by (auto simp: verified_so_far_def)
  moreover have "command_passes h1 c cwd timeout \<Longrightarrow> cv_allowed (validate_verification_command c)"
    by (simp add: command_passes_def Let_def)
  moreover have "h_process h3 = h_process h"
    using before ran h3(3) by (simp add: verified_so_far_def verifier_ran_def)
  moreover have "h_process_runs h3 = h_process_runs h @ (runs @ more)" "length (runs @ more) \<le> length (seen @ [c])"
      "list_all (run_allowed timeout) (runs @ more)"
    using runs more h3(2) by simp_all
  ultimately show ?thesis
    using before f h3 unfolding verified_so_far_def by (auto intro: exI [of _ "runs @ more"])
qed

lemma verified_start:
  assumes "reachable h" "read_run h i = Inr l"
  shows "verified_so_far i l timeout h [] [] h"
proof -
  have "l = l\<lparr>lr_updated_at := lr_updated_at l, lr_verification_results := lr_verification_results l\<rparr>"
    by (cases l) simp
  with assms show ?thesis by (auto simp: verified_so_far_def intro: exI [of _ "lr_updated_at l"])
qed

lemma verifier_ran_reachable: "verifier_ran t h h' \<Longrightarrow> reachable h \<Longrightarrow> reachable h'"
  by (auto simp: verifier_ran_def intro: reachable_other)

lemma verify_spec:
  assumes "reachable h"
  shows "wp (verify i limit timeout cwd commands actor)
    (\<lambda>s h'. \<exists>l fs. read_run h i = Inr l \<and> s = summarize_feedback i fs
       \<and> verified_so_far i l timeout h (selected_commands commands limit l) fs h')
    (\<lambda>e h'. reachable h' \<and> runs_allowed timeout
       (case read_run h i of Inl _ \<Rightarrow> 0 | Inr l \<Rightarrow> length (selected_commands commands limit l)) h h'
       \<and> (\<not> (1 \<le> timeout \<and> timeout \<le> 600) \<or> (\<exists>e. read_run h i = Inl e) \<or> output_error_possible h timeout)) h"
proof -
  have fold: "wp (foldP (verify_command i l d timeout actor) (selected_commands commands limit l) [])
      (\<lambda>fs h'. verified_so_far i l timeout h (selected_commands commands limit l) fs h')
      (\<lambda>e h'. reachable h' \<and> runs_allowed timeout (length (selected_commands commands limit l)) h h'
         \<and> output_error_possible h timeout) h"
    if l: "read_run h i = Inr l" for l d
  proof (rule wp_foldP)
    show "verified_so_far i l timeout h [] [] h" by (rule verified_start [OF assms l])
  next
    fix seen c rest fs h1
    assume split: "selected_commands commands limit l = seen @ c # rest"
      and before: "verified_so_far i l timeout h seen fs h1"
    show "wp (verify_command i l d timeout actor c fs)
      (\<lambda>fs' h'. verified_so_far i l timeout h (seen @ [c]) fs' h')
      (\<lambda>e h'. reachable h' \<and> runs_allowed timeout (length (selected_commands commands limit l)) h h'
         \<and> output_error_possible h timeout) h1"
      unfolding verify_command_def
    proof (rule wp_bindP, rule wp_mono [OF run_verifier_spec])
      fix f :: loop_feedback and h2
      assume f: "verifier_ran timeout h1 h2 \<and> lf_command f = c \<and> lf_status f \<in> set four_statuses
        \<and> (lf_status f = lit ''passed'' \<longleftrightarrow> command_passes h1 c d timeout)"
      have "reachable h2" using f before verifier_ran_reachable by (auto simp: verified_so_far_def)
      moreover obtain l0 where "read_run h2 i = Inr l0"
        using f before read_run_files [of h2 h1 i] by (auto simp: verified_so_far_def verifier_ran_def)
      ultimately show "wp (bindP (add_verification_feedback i f actor None) (\<lambda>_. ret (fs @ [f])))
        (\<lambda>fs' h'. verified_so_far i l timeout h (seen @ [c]) fs' h')
        (\<lambda>e h'. reachable h' \<and> runs_allowed timeout (length (selected_commands commands limit l)) h h'
         \<and> output_error_possible h timeout) h2"
        using f before by (intro wp_bindP wp_add_feedback wp_ret) (auto intro: verified_step)
    next
      fix e h2
      assume "verifier_ran timeout h1 h2 \<and> output_error_possible h1 timeout"
      moreover from this have "reachable h2"
        using before verifier_ran_reachable by (auto simp: verified_so_far_def)
      ultimately show "reachable h2 \<and> runs_allowed timeout (length (selected_commands commands limit l)) h h2
          \<and> output_error_possible h timeout"
        using before split
        by (fastforce simp: runs_allowed_def verified_so_far_def verifier_ran_def output_error_possible_def)
    qed
  qed
  show ?thesis
    unfolding verify_def
    by (intro wp_rules wp_mono [OF fold]) (auto simp: assms runs_allowed_def)
qed
section \<open>Properties of the verifier\<close>

lemma count_status_total:
  "list_all (\<lambda>f. lf_status f \<in> set four_statuses) fs \<Longrightarrow>
   count_status ''passed'' fs + count_status ''failed'' fs + count_status ''blocked'' fs
     + count_status ''timed_out'' fs = int (length fs)"
  by (induction fs) (auto simp: count_status_def four_statuses_def)

lemma verify_timeout:
  "\<not> (1 \<le> timeout \<and> timeout \<le> 600) \<Longrightarrow> verify i limit timeout cwd commands actor h =
     (Inl (ValueError (lit ''timeout must be between 1 and 600 seconds'')), h)"
  by (auto simp: verify_def)

text \<open>C3. Whatever commands a verification is given and however it ends, every process it starts has
  an argument vector that begins with an entry of the allow list and a time limit between 1 and
  600 seconds, and there are at most as many processes as selected commands.\<close>

theorem only_allowlisted_commands_run:
  assumes "reachable h" "verify i limit timeout cwd commands actor h = (r, h')"
  shows "\<exists>runs. h_process_runs h' = h_process_runs h @ runs \<and>
    list_all (\<lambda>(argv, d, t). 1 \<le> t \<and> t \<le> 600 \<and> list_ex (\<lambda>p. take (length p) argv = p) allowed_command_prefixes) runs \<and>
    length runs \<le> (case read_run h i of Inl _ \<Rightarrow> 0 | Inr l \<Rightarrow> length (selected_commands commands limit l))"
proof (cases "1 \<le> timeout \<and> timeout \<le> 600")
  case False
  then show ?thesis using verify_timeout [OF False] assms(2) by auto
next
  case True
  have "runs_allowed timeout (case read_run h i of Inl _ \<Rightarrow> 0 | Inr l \<Rightarrow> length (selected_commands commands limit l)) h h'"
    using wp_Inr [OF verify_spec [OF assms(1)]] wp_Inl [OF verify_spec [OF assms(1)]] assms(2)
    by (cases r) (fastforce simp: verified_so_far_def runs_allowed_def)+
  then show ?thesis
    using True by (auto simp: runs_allowed_def run_allowed_def list_all_iff)
qed

lemma only_allowlisted_commands_run_witness:
  "\<exists>runs. h_process_runs (snd (verify demo_id None 60 None (Some [lit ''rm -rf /'']) (lit ''cli'') demo_hub1))
      = h_process_runs demo_hub1 @ runs \<and>
    list_all (\<lambda>(argv, d, t). 1 \<le> t \<and> t \<le> 600 \<and> list_ex (\<lambda>p. take (length p) argv = p) allowed_command_prefixes) runs \<and>
    length runs \<le> (case read_run demo_hub1 demo_id of Inl _ \<Rightarrow> 0
      | Inr l \<Rightarrow> length (selected_commands (Some [lit ''rm -rf /'']) None l))"
  using demo1 by (intro only_allowlisted_commands_run [OF _ prod.collapse [symmetric]]) simp

text \<open>A verifier counts as passed exactly when its command is allowed, its working directory
  exists and the process started for it exits with 0; every feedback has one of four statuses.\<close>

theorem verifier_passes_iff:
  "case run_verifier command cwd timeout vid cid h of
     (Inl e, h') \<Rightarrow> h_files h' = h_files h
   | (Inr f, h') \<Rightarrow> lf_command f = command \<and> lf_status f \<in> set four_statuses
       \<and> (lf_status f = lit ''passed'' \<longleftrightarrow> command_passes h command cwd timeout)"
  using run_verifier_spec [of command cwd timeout vid cid h]
  by (auto simp: wp_def verifier_ran_def split: prod.splits sum.splits)

text \<open>A verification that returns has dealt with the selected commands in their order, its four
  counts add up to the attempted one, and the feedback of every command is stored with the loop.\<close>

theorem verification_is_recorded:
  assumes "reachable h" "verify i limit timeout cwd commands actor h = (Inr s, h')"
  shows "\<exists>l l'. read_run h i = Inr l \<and> read_run h' i = Inr l'
    \<and> map lf_command (vs_feedback s) = selected_commands commands limit l
    \<and> vs_attempted s = int (length (selected_commands commands limit l))
    \<and> vs_passed s + vs_failed s + vs_blocked s + vs_timed_out s = vs_attempted s
    \<and> lr_verification_results l' = lr_verification_results l @ map feedback_to_dict (vs_feedback s)
    \<and> lr_status l' = lr_status l \<and> lr_steps l' = lr_steps l \<and> lr_metadata l' = lr_metadata l"
proof -
  obtain l fs t where "read_run h i = Inr l" "s = summarize_feedback i fs"
      "map lf_command fs = selected_commands commands limit l"
      "list_all (\<lambda>f. lf_status f \<in> set four_statuses) fs"
      "read_run h' i = Inr (l\<lparr>lr_updated_at := t,
         lr_verification_results := lr_verification_results l @ map feedback_to_dict fs\<rparr>)"
    using wp_Inr [OF verify_spec [OF assms(1)] assms(2)] by (auto simp: verified_so_far_def)
  moreover from this(3) have "length fs = length (selected_commands commands limit l)"
    by (metis length_map)
  ultimately show ?thesis
    using count_status_total [of fs] by (auto simp: summarize_feedback_def)
qed

lemma verify_nothing: "verify demo_id None 60 None (Some []) (lit ''cli'') demo_hub1 =
    (Inr (summarize_feedback demo_id []), demo_hub1)"
proof -
  have "store_get demo_id demo_hub1 = (Inr demo_run, demo_hub1)"
    using demo1 by (auto simp: read_run_def store_get_def split: option.splits)
  then show ?thesis
    by (simp add: verify_def selected_commands_def bindP_def)
qed

lemma verification_is_recorded_witness:
  "\<exists>l l'. read_run demo_hub1 demo_id = Inr l \<and> read_run demo_hub1 demo_id = Inr l'
    \<and> map lf_command (vs_feedback (summarize_feedback demo_id [])) = selected_commands (Some []) None l
    \<and> vs_attempted (summarize_feedback demo_id []) = int (length (selected_commands (Some []) None l))
    \<and> vs_passed (summarize_feedback demo_id []) + vs_failed (summarize_feedback demo_id [])
        + vs_blocked (summarize_feedback demo_id []) + vs_timed_out (summarize_feedback demo_id [])
        = vs_attempted (summarize_feedback demo_id [])
    \<and> lr_verification_results l' = lr_verification_results l
        @ map feedback_to_dict (vs_feedback (summarize_feedback demo_id []))
    \<and> lr_status l' = lr_status l \<and> lr_steps l' = lr_steps l \<and> lr_metadata l' = lr_metadata l"
  using demo1 by (intro verification_is_recorded [OF _ verify_nothing]) simp

end
