(* ===== verification/LoopOrchestrator.thy ===== *)
theory LoopOrchestrator imports LoopVerifier begin

text \<open>
  \<^verbatim>\<open>agent_brain/memory/loops/loop_orchestrator.py\<close>: one run of a loop contract. The contract is
  parsed and validated, a loop is created for it, its required verifiers run, and the loop ends
  failed, blocked on human gates, or completed. The document at the path is an argument (what
  loading the file gives), the digest's hash function is the hub's.
\<close>

section \<open>Definitions\<close>

record loop_run_summary =
  sm_loop_id :: pystr
  sm_contract_id :: pystr
  sm_decision :: pystr
  sm_completion_readiness :: pystr
  sm_status :: pystr
  sm_verification :: pydict
  sm_open_human_gates :: "pystr list"

definition contract_create_args :: "(pystr \<Rightarrow> pystr) \<Rightarrow> loop_contract \<Rightarrow> pystr \<Rightarrow> create_args" where
  "contract_create_args sha256 contract path =
     \<lparr>ca_goal = lg_statement (lc_goal contract), ca_project = ls_project (lc_scope contract),
      ca_adapter = None, ca_session_id = None, ca_cwd = ls_repo (lc_scope contract),
      ca_verification_plan = map lv_command (filter lv_required (lc_verifiers contract)),
      ca_trigger = None, ca_budget = budget_to_dict (lc_budget contract),
      ca_context = [(lit ''contract_title'', PyStr (lc_title contract)),
        (lit ''contract_state'', PyDict (state_to_dict (lc_state contract)))],
      ca_metadata =
       [(lit ''contract_id'', PyStr (lc_id contract)),
        (lit ''contract_schema_version'', PyStr (lc_schema_version contract)),
        (lit ''contract_digest'', PyStr (contract_digest sha256 contract)),
        (lit ''contract_source_path'', PyStr path),
        (lit ''contract_verifiers'', rows_val (map (\<lambda>v. [(lit ''id'', PyStr (lv_id v)),
           (lit ''command'', PyStr (lv_command v)), (lit ''required'', PyBool (lv_required v))])
           (lc_verifiers contract))),
        (lit ''contract_human_gates'', rows_val (map human_gate_to_dict (lc_human_gates contract)))],
      ca_sensitivity = lit ''internal'', ca_start = True, ca_actor = lit ''orchestrator''\<rparr>"

definition create_contract_loop :: "loop_contract \<Rightarrow> pystr \<Rightarrow> loop_run op" where
  "create_contract_loop contract path =
     bindP (asks h_sha256) (\<lambda>sha256. store_create (contract_create_args sha256 contract path) None)"

definition required_gate_ids :: "loop_contract \<Rightarrow> pystr list" where
  "required_gate_ids contract =
     fold (\<lambda>action ids. case la_requires_gate action of
         None \<Rightarrow> ids
       | Some g \<Rightarrow> if g \<noteq> [] \<and> g \<notin> set ids then ids @ [g] else ids)
       (lc_actions contract) []"

definition gate_reason :: "loop_contract \<Rightarrow> pystr \<Rightarrow> pystr" where
  "gate_reason contract gate_id =
     (case filter (\<lambda>g. hg_id g = gate_id) (lc_human_gates contract) of
        [] \<Rightarrow> lit ''human gate required: '' @ gate_id
      | g # _ \<Rightarrow> hg_reason g)"

definition open_gate_ids :: "pydict \<Rightarrow> pystr list" where
  "open_gate_ids metadata =
     map (\<lambda>row. or_str (dget row (lit ''id'')) [])
       (filter (\<lambda>row. truthy (dget row (lit ''id'')))
         (dict_rows (dget metadata (lit ''open_human_gates''))))"

definition verification_counts :: "verification_summary \<Rightarrow> pydict" where
  "verification_counts v =
    [(lit ''attempted'', PyInt (vs_attempted v)), (lit ''passed'', PyInt (vs_passed v)),
     (lit ''failed'', PyInt (vs_failed v)), (lit ''blocked'', PyInt (vs_blocked v)),
     (lit ''timed_out'', PyInt (vs_timed_out v))]"

definition verification_evidence :: "verification_summary \<Rightarrow> pystr" where
  "verification_evidence v =
     lit ''loop orchestrator verification: attempted='' @ int_str (vs_attempted v)
       @ lit '' passed='' @ int_str (vs_passed v) @ lit '' failed='' @ int_str (vs_failed v)
       @ lit '' blocked='' @ int_str (vs_blocked v) @ lit '' timed_out='' @ int_str (vs_timed_out v)"

definition run_summary ::
  "loop_run \<Rightarrow> loop_contract \<Rightarrow> string \<Rightarrow> string \<Rightarrow> verification_summary \<Rightarrow> pystr list \<Rightarrow> loop_run_summary" where
  "run_summary l contract decision readiness v gates =
     \<lparr>sm_loop_id = lr_loop_id l, sm_contract_id = lc_id contract, sm_decision = lit decision,
      sm_completion_readiness = lit readiness, sm_status = lr_status l,
      sm_verification = verification_counts v, sm_open_human_gates = gates\<rparr>"

definition invalid_contract_message :: "loop_contract \<Rightarrow> pystr" where
  "invalid_contract_message contract =
     lit ''invalid loop contract: '' @ join (lit '', '')
       (map (\<lambda>e. vi_path e @ lit '':'' @ vi_code e) (validate_loop_contract contract))"

text \<open>The part of \<open>run_contract\<close> after the verification.\<close>

definition conclude_contract :: "loop_contract \<Rightarrow> loop_run \<Rightarrow> verification_summary \<Rightarrow> loop_run_summary op" where
  "conclude_contract contract l0 v =
     (if vs_failed v \<noteq> 0 \<or> vs_blocked v \<noteq> 0 \<or> vs_timed_out v \<noteq> 0 then
       bindP (store_fail (lr_loop_id l0) (lit ''verification did not pass'')
           (Some (verification_evidence v)) (lit ''orchestrator'') None) (\<lambda>failed.
       ret (run_summary failed contract ''failed'' ''blocked'' v (open_gate_ids (lr_metadata failed))))
     else
       bindP (foldP (\<lambda>gate_id l. open_human_gate (lr_loop_id l) gate_id (gate_reason contract gate_id)
           None (lit ''orchestrator'') None) (required_gate_ids contract) l0) (\<lambda>l.
       let open_gates = open_gate_ids (lr_metadata l)
       in if open_gates \<noteq> [] then
            bindP (store_block (lr_loop_id l)
                (lit ''waiting for human gates: '' @ join (lit '', '') open_gates)
                (lit ''orchestrator'') None) (\<lambda>blocked.
            ret (run_summary blocked contract ''blocked'' ''blocked'' v open_gates))
          else
            bindP (store_complete (lr_loop_id l) (Some (verification_evidence v)) None
                (lit ''orchestrator'') None) (\<lambda>completed.
            ret (run_summary completed contract ''completed'' ''ready'' v []))))"

definition run_contract :: "pystr \<Rightarrow> pyval \<Rightarrow> int \<Rightarrow> loop_run_summary op" where
  "run_contract path doc timeout =
     bindP (lift_result (parse_loop_contract path doc)) (\<lambda>contract.
     bindP (check (contract_valid contract) (ValueError (invalid_contract_message contract))) (\<lambda>_.
     bindP (create_contract_loop contract path) (\<lambda>l0.
     bindP (verify (lr_loop_id l0) None timeout None None (lit ''orchestrator'')) (\<lambda>v.
     conclude_contract contract l0 v))))"

section \<open>Details of the operations that a run uses\<close>

lemma set_gates_fold:
  "set (fold (\<lambda>action ids. case la_requires_gate action of
       None \<Rightarrow> ids | Some g \<Rightarrow> if g \<noteq> [] \<and> g \<notin> set ids then ids @ [g] else ids) as ids) =
   set ids \<union> {g. \<exists>a \<in> set as. la_requires_gate a = Some g \<and> g \<noteq> []}"
  by (induction as arbitrary: ids) (auto split: option.splits)

lemma set_required_gates:
  "set (required_gate_ids c) = {g. \<exists>a \<in> set (lc_actions c). la_requires_gate a = Some g \<and> g \<noteq> []}"
  unfolding required_gate_ids_def by (subst set_gates_fold) simp

lemma no_gates_iff:
  "required_gate_ids c = [] \<longleftrightarrow> list_all (\<lambda>a. \<not> opt_text (la_requires_gate a)) (lc_actions c)"
proof -
  have "required_gate_ids c = [] \<longleftrightarrow> set (required_gate_ids c) = {}" by simp
  also have "\<dots> \<longleftrightarrow> list_all (\<lambda>a. \<not> opt_text (la_requires_gate a)) (lc_actions c)"
    unfolding set_required_gates
    by (auto simp: list_all_iff opt_text_def) (metis not_None_eq)
  finally show ?thesis .
qed

text \<open>A command on a stored loop keeps the ledger reachable and its result is what is stored.\<close>

lemma wp_tracked:
  assumes "reachable h" "command_target c = Some i" "wp (run_command c now) P P' h"
    and "\<And>l' h'. \<lbrakk>reachable h'; read_run h' i = Inr l'; lr_loop_id l' = i; P l' h'\<rbrakk> \<Longrightarrow> Q l' h'"
    and "\<And>e h'. \<lbrakk>reachable h'; P' e h'\<rbrakk> \<Longrightarrow> E e h'"
  shows "wp (run_command c now) Q E h"
proof -
  obtain r h' where run: "run_command c now h = (r, h')" by (cases "run_command c now h")
  have ok: "command_ok c" using assms(2) by (cases c) simp_all
  have reach: "reachable h'" using assms(1) ok run by (rule reachable_command)
  moreover have "read_run h' i = Inr l' \<and> lr_loop_id l' = i \<and> P l' h'" if "r = Inr l'" for l'
    using command_stores [OF assms(1,2)] reachable_read [OF reach] wp_Inr [OF assms(3)] run that by auto
  moreover have "P' e h'" if "r = Inl e" for e
    using wp_Inl [OF assms(3)] run that by auto
  ultimately show ?thesis
    using assms(4,5) run by (cases r) (auto simp: wp_def)
qed

text \<open>The gates a contract asks for can be opened: their ids and reasons are no blank texts, and
  the ids are written without spaces around them.\<close>

definition gates_openable :: "loop_contract \<Rightarrow> bool" where
  "gates_openable c \<longleftrightarrow>
     list_all (\<lambda>g. strip g = g \<and> strip (gate_reason c g) \<noteq> []) (required_gate_ids c)"

definition contract_metadata :: "loop_contract \<Rightarrow> pystr list \<Rightarrow> loop_run \<Rightarrow> bool" where
  "contract_metadata c gs l \<longleftrightarrow>
     gate_ids (open_human_gates l) = map (\<lambda>g. PyStr (strip g)) gs \<and> list_all (\<lambda>g. strip g \<noteq> []) gs
     \<and> contract_human_gates l = map human_gate_to_dict (lc_human_gates c)"

lemma open_gate_ids_of:
  assumes "gate_ids (dict_rows (dget m (lit ''open_human_gates''))) = map (\<lambda>g. PyStr (strip g)) gs"
    "list_all (\<lambda>g. strip g \<noteq> []) gs"
  shows "open_gate_ids m = map strip gs"
proof -
  have "gate_ids rows = map (\<lambda>g. PyStr (strip g)) gs \<Longrightarrow> list_all (\<lambda>g. strip g \<noteq> []) gs \<Longrightarrow>
      map (\<lambda>row. or_str (dget row (lit ''id'')) []) (filter (\<lambda>row. truthy (dget row (lit ''id''))) rows)
        = map strip gs" for rows
    by (induction rows arbitrary: gs) (auto simp: gate_ids_def Cons_eq_map_conv)
  then show ?thesis using assms by (simp add: open_gate_ids_def)
qed

lemma contract_metadata_open:
  "contract_metadata c gs l \<Longrightarrow> open_gate_ids (lr_metadata l) = map strip gs"
  using open_gate_ids_of [of "lr_metadata l" gs]
  by (simp add: contract_metadata_def open_human_gates_def gate_rows_def)

lemma or_str_gate_id [simp]: "or_str (dget (human_gate_to_dict g) (lit ''id'')) [] = hg_id g"
  by (simp add: human_gate_to_dict_def)

lemma open_gates_after [simp]:
  "open_human_gates (l\<lparr>lr_updated_at := t, lr_metadata :=
     dsetdefault (dset m (lit ''open_human_gates'') (rows_val rows)) (lit ''resolved_human_gates'') w\<rparr>) = rows"
  "contract_human_gates (l\<lparr>lr_updated_at := t, lr_metadata :=
     dsetdefault (dset m (lit ''open_human_gates'') v) (lit ''resolved_human_gates'') w\<rparr>)
     = dict_rows (dget m (lit ''contract_human_gates''))"
  by (simp_all add: open_human_gates_def contract_human_gates_def gate_rows_def)

lemma gate_ids_append [simp]: "gate_ids (rows @ [(lit ''id'', v) # rest]) = gate_ids rows @ [v]"
  by (simp add: gate_ids_def)

lemma contract_metadata_ids:
  "contract_metadata c gs l \<Longrightarrow> PyStr v \<in> set (gate_ids (open_human_gates l)) \<longleftrightarrow> v \<in> strip ` set gs"
  by (auto simp: contract_metadata_def)

lemma contract_gate_defined:
  "contract_metadata c gs l \<Longrightarrow>
     validate_contract_gate l g = Inl e \<Longrightarrow> g \<notin> set (map hg_id (lc_human_gates c))"
  by (auto simp: contract_metadata_def validate_contract_gate_def Let_def list_ex_iff split: if_splits)

lemma open_gate_details:
  assumes "read_run h i = Inr l" "contract_metadata c seen l"
  shows "wp (run_command (Cmd_open_gate i g reason tr actor) now)
    (\<lambda>l' h'. lr_status l' = lr_status l \<and> lr_steps l' = lr_steps l
       \<and> lr_verification_results l' = lr_verification_results l \<and> contract_metadata c (seen @ [g]) l')
    (\<lambda>e h'. strip g \<noteq> g \<or> g = [] \<or> strip reason = [] \<or> g \<notin> set (map hg_id (lc_human_gates c))
       \<or> g \<in> strip ` set seen) h"
  unfolding run_command.simps open_human_gate_def Let_def
  by (intro wp_rules)
    (use assms in \<open>auto simp: require_text_def contract_metadata_ids
       dest: contract_gate_defined split: if_splits\<close>,
     auto simp: contract_metadata_def contract_human_gates_def gate_rows_def)

section \<open>The end of a run\<close>

definition passed_all :: "loop_feedback list \<Rightarrow> bool" where
  "passed_all fs \<longleftrightarrow> list_all (\<lambda>f. lf_status f = lit ''passed'') fs"

text \<open>The loop after the verifiers of its contract ran.\<close>

definition verifiers_ran :: "loop_contract \<Rightarrow> loop_run \<Rightarrow> loop_feedback list \<Rightarrow> bool" where
  "verifiers_ran c l fs \<longleftrightarrow>
     map lf_command fs = map lv_command (filter lv_required (lc_verifiers c))
     \<and> list_all (\<lambda>f. lf_status f \<in> set four_statuses) fs
     \<and> prefix (map feedback_to_dict fs) (lr_verification_results l)"

definition ended_as :: "loop_status \<Rightarrow> loop_run \<Rightarrow> loop_run \<Rightarrow> bool" where
  "ended_as st l l' \<longleftrightarrow> lr_status l' = status_value st \<and> lr_metadata l' = lr_metadata l
     \<and> prefix (lr_verification_results l) (lr_verification_results l')"

lemma block_ends:
  assumes "read_run h i = Inr l" "lr_status l = status_value Running" "strip reason \<noteq> []"
  shows "wp (run_command (Cmd_block i reason actor) now) (\<lambda>l' h'. ended_as Blocked l l') (\<lambda>_ _. False) h"
  unfolding run_command.simps store_block_def Let_def
  by (intro wp_rules) (auto simp: assms ended_as_def require_text_def validate_transition_def)

lemma complete_ends:
  assumes "read_run h i = Inr l" "lr_status l = status_value Running" "lr_steps l = []" "strip ev \<noteq> []"
  shows "wp (run_command (Cmd_complete i (Some ev) art actor) now)
    (\<lambda>l' h'. ended_as Completed l l') (\<lambda>_ _. False) h"
  unfolding run_command.simps store_complete_def Let_def
  by (intro wp_rules)
    (auto simp: assms ended_as_def unfinished_steps_def validate_transition_def
      require_completion_evidence_def)

lemma fail_ends:
  assumes "read_run h i = Inr l" "lr_status l = status_value Running" "strip reason \<noteq> []"
  shows "wp (run_command (Cmd_fail i reason ev actor) now) (\<lambda>l' h'. ended_as Failed l l') (\<lambda>_ _. False) h"
  unfolding run_command.simps store_fail_def Let_def
  by (intro wp_rules) (auto simp: assms ended_as_def validate_transition_def)

lemma summary_fields [simp]:
  "sm_loop_id (run_summary l c d r v gs) = lr_loop_id l"
  "sm_contract_id (run_summary l c d r v gs) = lc_id c"
  "sm_decision (run_summary l c d r v gs) = lit d"
  "sm_status (run_summary l c d r v gs) = lr_status l"
  "sm_open_human_gates (run_summary l c d r v gs) = gs"
  "sm_verification (run_summary l c d r v gs) = verification_counts v"
  by (simp_all add: run_summary_def)

text \<open>How a run of a contract can end.\<close>

definition contract_ended :: "loop_contract \<Rightarrow> loop_run_summary \<Rightarrow> loop_run \<Rightarrow> loop_feedback list \<Rightarrow> bool" where
  "contract_ended c s l fs \<longleftrightarrow>
     sm_contract_id s = lc_id c \<and> sm_status s = lr_status l \<and> verifiers_ran c l fs \<and>
     (sm_decision s = lit ''failed'' \<and> lr_status l = status_value Failed
        \<and> \<not> passed_all fs \<and> sm_open_human_gates s = []
      \<or> sm_decision s = lit ''blocked'' \<and> lr_status l = status_value Blocked
        \<and> passed_all fs \<and> required_gate_ids c \<noteq> []
        \<and> sm_open_human_gates s = map strip (required_gate_ids c)
        \<and> open_gate_ids (lr_metadata l) = map strip (required_gate_ids c)
      \<or> sm_decision s = lit ''completed'' \<and> lr_status l = status_value Completed
        \<and> passed_all fs \<and> required_gate_ids c = [] \<and> sm_open_human_gates s = [])"

definition contract_run_done :: "loop_contract \<Rightarrow> loop_run_summary \<Rightarrow> hub \<Rightarrow> bool" where
  "contract_run_done c s h' \<longleftrightarrow> reachable h' \<and>
     (\<exists>l fs. read_run h' (sm_loop_id s) = Inr l \<and> contract_ended c s l fs)"

lemma wp_finish:
  assumes "reachable h" "command_target cmd = Some i" "verifiers_ran c l fs"
    and "wp (run_command cmd None) (\<lambda>l' h'. ended_as st l l') (\<lambda>_ _. False) h"
    and "\<And>l'. ended_as st l l' \<Longrightarrow> verifiers_ran c l' fs \<Longrightarrow> contract_ended c (summary l') l' fs"
    and "\<And>l'. sm_loop_id (summary l') = lr_loop_id l'"
  shows "wp (bindP (run_command cmd None) (\<lambda>l'. ret (summary l')))
    (\<lambda>s h'. contract_run_done c s h') E h"
proof (rule wp_bindP, rule wp_tracked [OF assms(1,2,4)])
  fix l' h'
  assume l': "reachable h'" "read_run h' i = Inr l'" "lr_loop_id l' = i" "ended_as st l l'"
  from l'(4) assms(3) have "verifiers_ran c l' fs"
    by (auto simp: verifiers_ran_def ended_as_def)
  then have "contract_run_done c (summary l') h'"
    using l' assms(5,6) by (auto simp: contract_run_done_def)
  then show "wp (ret (summary l')) (contract_run_done c) E h'"
    by (rule wp_ret)
qed simp

text \<open>The ledger after some gates of the contract were opened one after the other.\<close>

definition gates_opened ::
  "pystr \<Rightarrow> loop_contract \<Rightarrow> loop_feedback list \<Rightarrow> pystr list \<Rightarrow> loop_run \<Rightarrow> hub \<Rightarrow> bool" where
  "gates_opened i c fs gs l' h' \<longleftrightarrow>
     reachable h' \<and> lr_loop_id l' = i \<and> open_gate_ids (lr_metadata l') = map strip gs
     \<and> (\<exists>l. read_run h' i = Inr l \<and> lr_status l = status_value Running \<and> lr_steps l = []
          \<and> verifiers_ran c l fs \<and> contract_metadata c gs l)"

lemma required_gates_distinct_fold:
  "distinct ids \<Longrightarrow> distinct (fold (\<lambda>action ids. case la_requires_gate action of
       None \<Rightarrow> ids | Some g \<Rightarrow> if g \<noteq> [] \<and> g \<notin> set ids then ids @ [g] else ids) as ids)"
  by (induction as arbitrary: ids) (auto split: option.splits)

lemma distinct_required_gates: "distinct (required_gate_ids c)"
  by (simp only: required_gate_ids_def required_gates_distinct_fold distinct.simps(1))

lemma required_gate_known:
  assumes "contract_valid c" "g \<in> set (required_gate_ids c)"
  shows "g \<noteq> [] \<and> g \<in> set (map hg_id (lc_human_gates c))"
  using assms valid_action_gate [OF assms(1)] by (force simp: set_required_gates opt_text_def)

lemma open_gates_spec:
  assumes "gates_opened i c fs [] l0 h" "contract_valid c"
  shows "wp (foldP (\<lambda>g l. open_human_gate (lr_loop_id l) g (gate_reason c g) None actor None)
      (required_gate_ids c) l0)
    (gates_opened i c fs (required_gate_ids c)) (\<lambda>e h'. reachable h' \<and> \<not> gates_openable c) h"
proof (rule wp_foldP [where I = "gates_opened i c fs", OF assms(1)])
  fix seen g rest l1 h1
  assume split: "required_gate_ids c = seen @ g # rest" and inv: "gates_opened i c fs seen l1 h1"
  then obtain l2 where l2: "reachable h1" "read_run h1 i = Inr l2" "lr_status l2 = status_value Running"
      "lr_steps l2 = []" "verifiers_ran c l2 fs" "contract_metadata c seen l2"
    by (auto simp: gates_opened_def)
  have known: "g \<noteq> [] \<and> g \<in> set (map hg_id (lc_human_gates c))" "g \<notin> set seen"
    using required_gate_known [OF assms(2), of g] distinct_required_gates [of c] split by auto
  have "wp (run_command (Cmd_open_gate i g (gate_reason c g) None actor) None)
      (gates_opened i c fs (seen @ [g])) (\<lambda>e h'. reachable h' \<and> \<not> gates_openable c) h1"
  proof (rule wp_tracked [OF l2(1) _ open_gate_details [OF l2(2,6)]])
    fix l' h'
    assume "reachable h'" "read_run h' i = Inr l'" "lr_loop_id l' = i"
      "lr_status l' = lr_status l2 \<and> lr_steps l' = lr_steps l2
         \<and> lr_verification_results l' = lr_verification_results l2 \<and> contract_metadata c (seen @ [g]) l'"
    then show "gates_opened i c fs (seen @ [g]) l' h'"
      using l2 contract_metadata_open [of c "seen @ [g]" l']
      by (simp add: gates_opened_def verifiers_ran_def)
  next
    fix e h'
    assume "reachable h'" "strip g \<noteq> g \<or> g = [] \<or> strip (gate_reason c g) = []
       \<or> g \<notin> set (map hg_id (lc_human_gates c)) \<or> g \<in> strip ` set seen"
    moreover have "gates_openable c \<Longrightarrow> strip ` set seen = set seen"
      using split by (auto simp: gates_openable_def list_all_iff image_iff)
    moreover have "gates_openable c \<Longrightarrow> strip g = g \<and> strip (gate_reason c g) \<noteq> []"
      using split by (simp add: gates_openable_def)
    ultimately show "reachable h' \<and> \<not> gates_openable c"
      using known by auto
  qed simp
  then show "wp (open_human_gate (lr_loop_id l1) g (gate_reason c g) None actor None)
      (gates_opened i c fs (seen @ [g])) (\<lambda>e h'. reachable h' \<and> \<not> gates_openable c) h1"
    using inv by (simp add: gates_opened_def)
qed

lemma reason_texts [simp]:
  "strip (lit ''waiting for human gates: '' @ x) \<noteq> []"
  "strip (lit ''verification did not pass'') \<noteq> []"
  "strip (verification_evidence v) \<noteq> []"
proof -
  have "\<not> list_all is_space (lit ''waiting for human gates: '')"
    "\<not> list_all is_space (lit ''verification did not pass'')"
    "\<not> list_all is_space (lit ''loop orchestrator verification: attempted='')"
    by code_simp+
  then show "strip (lit ''waiting for human gates: '' @ x) \<noteq> []"
    "strip (lit ''verification did not pass'') \<noteq> []" "strip (verification_evidence v) \<noteq> []"
    by (simp_all add: strip_eq_Nil verification_evidence_def)
qed

lemma counts_zero:
  assumes "list_all (\<lambda>f. lf_status f \<in> set four_statuses) fs" and "v = summarize_feedback i fs"
  shows "vs_failed v = 0 \<and> vs_blocked v = 0 \<and> vs_timed_out v = 0 \<longleftrightarrow> passed_all fs"
  using assms(1) unfolding assms(2)
  by (induction fs) (auto simp: summarize_feedback_def passed_all_def count_status_def four_statuses_def)

lemma conclude_contract_spec:
  assumes start: "gates_opened (lr_loop_id l0) c fs [] l0 h" and valid: "contract_valid c"
    and v: "v = summarize_feedback (lr_loop_id l0) fs"
  shows "wp (conclude_contract c l0 v) (contract_run_done c) (\<lambda>e h'. reachable h' \<and> \<not> gates_openable c) h"
proof -
  let ?i = "lr_loop_id l0" and ?E = "\<lambda>e h'. reachable h' \<and> \<not> gates_openable c"
  from start obtain l where l: "reachable h" "read_run h ?i = Inr l" "lr_status l = status_value Running"
      "verifiers_ran c l fs" "contract_metadata c [] l"
    by (auto simp: gates_opened_def)
  then have zero: "vs_failed v = 0 \<and> vs_blocked v = 0 \<and> vs_timed_out v = 0 \<longleftrightarrow> passed_all fs"
    using counts_zero [OF _ v] by (simp add: verifiers_ran_def)
  show ?thesis
  proof (cases "passed_all fs")
    case False
    have "wp (bindP (run_command (Cmd_fail ?i (lit ''verification did not pass'')
        (Some (verification_evidence v)) (lit ''orchestrator'')) None)
        (\<lambda>l'. ret (run_summary l' c ''failed'' ''blocked'' v (open_gate_ids (lr_metadata l')))))
      (contract_run_done c) ?E h"
      by (rule wp_finish [OF l(1) _ l(4) fail_ends [OF l(2,3)]])
        (use False contract_metadata_open [OF l(5)] in \<open>simp_all add: contract_ended_def ended_as_def\<close>)
    then show ?thesis
      using False zero by (auto simp: conclude_contract_def)
  next
    case True
    have gates: "wp (let open_gates = open_gate_ids (lr_metadata l1)
       in if open_gates \<noteq> [] then
            bindP (store_block (lr_loop_id l1)
                (lit ''waiting for human gates: '' @ join (lit '', '') open_gates)
                (lit ''orchestrator'') None) (\<lambda>blocked.
            ret (run_summary blocked c ''blocked'' ''blocked'' v open_gates))
          else
            bindP (store_complete (lr_loop_id l1) (Some (verification_evidence v)) None
                (lit ''orchestrator'') None) (\<lambda>completed.
            ret (run_summary completed c ''completed'' ''ready'' v [])))
      (contract_run_done c) ?E h1"
      if opened: "gates_opened ?i c fs (required_gate_ids c) l1 h1" for l1 h1
    proof -
      from opened obtain l2 where l2: "reachable h1" "lr_loop_id l1 = ?i" "read_run h1 ?i = Inr l2"
          "lr_status l2 = status_value Running" "lr_steps l2 = []" "verifiers_ran c l2 fs"
          "open_gate_ids (lr_metadata l1) = map strip (required_gate_ids c)"
          "open_gate_ids (lr_metadata l2) = map strip (required_gate_ids c)"
        using contract_metadata_open by (auto simp: gates_opened_def)
      have blocked: "wp (bindP (run_command (Cmd_block ?i
            (lit ''waiting for human gates: '' @ x) (lit ''orchestrator'')) None)
          (\<lambda>l'. ret (run_summary l' c ''blocked'' ''blocked'' v (map strip (required_gate_ids c)))))
        (contract_run_done c) ?E h1" if "required_gate_ids c \<noteq> []" for x
        by (rule wp_finish [OF l2(1) _ l2(6) block_ends [OF l2(3,4)]])
          (use True that l2(8) in \<open>simp_all add: contract_ended_def ended_as_def\<close>)
      have completed: "wp (bindP (run_command (Cmd_complete ?i (Some (verification_evidence v)) None
              (lit ''orchestrator'')) None)
          (\<lambda>l'. ret (run_summary l' c ''completed'' ''ready'' v [])))
        (contract_run_done c) ?E h1" if "required_gate_ids c = []"
        by (rule wp_finish [OF l2(1) _ l2(6) complete_ends [OF l2(3,4,5)]])
          (use True that in \<open>simp_all add: contract_ended_def ended_as_def\<close>)
      show ?thesis
        using blocked completed l2(2,7) by (simp add: Let_def)
    qed
    show ?thesis
      unfolding conclude_contract_def
      using True zero
      by (simp only: not_False_eq_True simp_thms if_False de_Morgan_disj [symmetric])
        (rule wp_bindP, rule wp_mono [OF open_gates_spec [OF start valid]], simp_all add: gates)
  qed
qed

lemma create_contract_loop_spec:
  assumes "reachable h"
  shows "wp (create_contract_loop c path)
    (\<lambda>l h'. reachable h' \<and> read_run h' (lr_loop_id l) = Inr l \<and> world h' = world h
       \<and> lr_status l = status_value Running \<and> lr_verification_results l = [] \<and> lr_steps l = []
       \<and> lr_verification_plan l = map lv_command (filter lv_required (lc_verifiers c))
       \<and> contract_metadata c [] l)
    (\<lambda>e h'. h' = h \<and> strip (lg_statement (lc_goal c)) = []) h"
proof -
  let ?args = "contract_create_args (h_sha256 h) c path"
  have gates: "dict_rows (dget (ca_metadata ?args) (lit ''open_human_gates'')) = []"
    "dict_rows (dget (ca_metadata ?args) (lit ''contract_human_gates'')) = map human_gate_to_dict (lc_human_gates c)"
    by (simp_all add: contract_create_args_def)
  have "wp (store_create ?args None)
    (\<lambda>l h'. reachable h' \<and> read_run h' (lr_loop_id l) = Inr l \<and> world h' = world h
       \<and> lr_status l = status_value Running \<and> lr_verification_results l = [] \<and> lr_steps l = []
       \<and> lr_verification_plan l = map lv_command (filter lv_required (lc_verifiers c))
       \<and> contract_metadata c [] l)
    (\<lambda>e h'. h' = h \<and> strip (lg_statement (lc_goal c)) = []) h"
  proof (cases "store_create ?args None h")
    case (Pair r h')
    have ok: "command_ok (Cmd_create ?args)" using gates by simp
    have "reachable h'"
      using reachable_command [OF assms ok] Pair by simp
    then show ?thesis
      using wp_Inr [OF store_create_details, of ?args None h] wp_Inl [OF store_create_details, of ?args None h]
        Pair gates
      by (cases r) (auto simp: wp_def contract_create_args_def contract_metadata_def
          open_human_gates_def contract_human_gates_def gate_rows_def gate_ids_def)
  qed
  then show ?thesis
    by (simp add: create_contract_loop_def wp_def)
qed

text \<open>Why a run of a contract may raise.\<close>

definition contract_may_raise :: "loop_contract \<Rightarrow> int \<Rightarrow> hub \<Rightarrow> bool" where
  "contract_may_raise c timeout h \<longleftrightarrow>
     \<not> contract_valid c \<or> \<not> (1 \<le> timeout \<and> timeout \<le> 600) \<or> output_error_possible h timeout
     \<or> \<not> gates_openable c"

lemma valid_goal: "contract_valid c \<Longrightarrow> strip (lg_statement (lc_goal c)) \<noteq> []"
  by (auto simp: contract_valid_def validate_loop_contract_def split: if_splits)

lemma after_verify_spec:
  assumes l0: "reachable h" "read_run h (lr_loop_id l0) = Inr l0" "lr_status l0 = status_value Running"
    "lr_verification_results l0 = []" "lr_steps l0 = []"
    "lr_verification_plan l0 = map lv_command (filter lv_required (lc_verifiers c))"
    "contract_metadata c [] l0" and valid: "contract_valid c"
  shows "wp (bindP (verify (lr_loop_id l0) None timeout None None actor) (conclude_contract c l0))
    (contract_run_done c) (\<lambda>e h'. reachable h' \<and> contract_may_raise c timeout h) h"
proof (rule wp_bindP [OF wp_mono [OF verify_spec [OF l0(1)]]])
  fix v h2
  assume "\<exists>l fs. read_run h (lr_loop_id l0) = Inr l \<and> v = summarize_feedback (lr_loop_id l0) fs
    \<and> verified_so_far (lr_loop_id l0) l timeout h (selected_commands None None l) fs h2"
  then obtain fs where v: "v = summarize_feedback (lr_loop_id l0) fs"
      and far: "verified_so_far (lr_loop_id l0) l0 timeout h (lr_verification_plan l0) fs h2"
    using l0(2) by (auto simp: selected_commands_def)
  then obtain t where "read_run h2 (lr_loop_id l0) = Inr (l0\<lparr>lr_updated_at := t,
      lr_verification_results := map feedback_to_dict fs\<rparr>)" "reachable h2"
    using l0(4) by (auto simp: verified_so_far_def)
  moreover have "verifiers_ran c (l0\<lparr>lr_updated_at := t,
      lr_verification_results := map feedback_to_dict fs\<rparr>) fs"
    using far l0(6) by (simp add: verifiers_ran_def verified_so_far_def)
  moreover have "contract_metadata c [] (l0\<lparr>lr_updated_at := t,
      lr_verification_results := map feedback_to_dict fs\<rparr>)"
    using l0(7) by (simp add: contract_metadata_def open_human_gates_def contract_human_gates_def gate_rows_def)
  ultimately have "gates_opened (lr_loop_id l0) c fs [] l0 h2"
    using l0(3,5) contract_metadata_open [OF l0(7)] by (simp add: gates_opened_def)
  then show "wp (conclude_contract c l0 v) (contract_run_done c)
      (\<lambda>e h'. reachable h' \<and> contract_may_raise c timeout h) h2"
    by (intro wp_mono [OF conclude_contract_spec [OF _ valid v]]) (simp_all add: contract_may_raise_def)
qed (use l0(2) in \<open>auto simp: contract_may_raise_def\<close>)

lemma run_contract_spec:
  assumes "reachable h"
  shows "wp (run_contract path doc timeout)
    (\<lambda>s h'. \<exists>c. parse_loop_contract path doc = Inr c \<and> contract_valid c \<and> contract_run_done c s h')
    (\<lambda>e h'. reachable h' \<and> (case parse_loop_contract path doc of Inl _ \<Rightarrow> True
       | Inr c \<Rightarrow> contract_may_raise c timeout h)) h"
  unfolding run_contract_def
proof (intro wp_bindP wp_lift_result wp_check)
  fix c
  assume c: "parse_loop_contract path doc = Inr c" "contract_valid c"
  have same: "contract_may_raise c timeout h1 = contract_may_raise c timeout h" if "world h1 = world h" for h1
    using world_fields(2) [OF that] by (simp add: contract_may_raise_def output_error_possible_def)
  show "wp (create_contract_loop c path) (\<lambda>l0. wp (bindP (verify (lr_loop_id l0) None timeout None None
      (lit ''orchestrator'')) (conclude_contract c l0))
        (\<lambda>s h'. \<exists>c. parse_loop_contract path doc = Inr c \<and> contract_valid c \<and> contract_run_done c s h')
        (\<lambda>e h'. reachable h' \<and> (case parse_loop_contract path doc of Inl _ \<Rightarrow> True
          | Inr c \<Rightarrow> contract_may_raise c timeout h)))
      (\<lambda>e h'. reachable h' \<and> (case parse_loop_contract path doc of Inl _ \<Rightarrow> True
          | Inr c \<Rightarrow> contract_may_raise c timeout h)) h"
  proof (rule wp_mono [OF create_contract_loop_spec [OF assms]])
    fix l0 h1
    assume l0: "reachable h1 \<and> read_run h1 (lr_loop_id l0) = Inr l0 \<and> world h1 = world h
       \<and> lr_status l0 = status_value Running \<and> lr_verification_results l0 = [] \<and> lr_steps l0 = []
       \<and> lr_verification_plan l0 = map lv_command (filter lv_required (lc_verifiers c))
       \<and> contract_metadata c [] l0"
    then have "wp (bindP (verify (lr_loop_id l0) None timeout None None (lit ''orchestrator''))
        (conclude_contract c l0)) (contract_run_done c)
        (\<lambda>e h'. reachable h' \<and> contract_may_raise c timeout h1) h1"
      by (intro after_verify_spec) (simp_all add: c(2))
    then show "wp (bindP (verify (lr_loop_id l0) None timeout None None (lit ''orchestrator''))
        (conclude_contract c l0))
        (\<lambda>s h'. \<exists>c. parse_loop_contract path doc = Inr c \<and> contract_valid c \<and> contract_run_done c s h')
        (\<lambda>e h'. reachable h' \<and> (case parse_loop_contract path doc of Inl _ \<Rightarrow> True
          | Inr c \<Rightarrow> contract_may_raise c timeout h)) h1"
      by (rule wp_mono) (use c l0 same [of h1] in simp_all)
  qed (use valid_goal [OF c(2)] in simp)
qed (use assms in \<open>simp_all add: contract_may_raise_def\<close>)

section \<open>A worked contract\<close>

text \<open>A contract with one required verifier and the given actions.\<close>

definition demo_doc :: "pydict list \<Rightarrow> pyval" where
  "demo_doc actions = PyDict
    [(lit ''schema_version'', PyStr (lit ''loop-contract/v1'')), (lit ''id'', PyStr (lit ''ship'')),
     (lit ''title'', PyStr (lit ''ship'')),
     (lit ''goal'', PyDict [(lit ''statement'', PyStr (lit ''ship''))]),
     (lit ''actions'', rows_val actions),
     (lit ''verifiers'', rows_val [[(lit ''id'', PyStr (lit ''v'')),
        (lit ''command'', PyStr (lit ''git status --short'')), (lit ''required'', PyBool True)]]),
     (lit ''human_gates'', rows_val [[(lit ''id'', PyStr (lit ''g'')), (lit ''trigger'', PyStr (lit ''t'')),
        (lit ''reason'', PyStr (lit ''r''))]]),
     (lit ''stop_conditions'', PyDict
        [(lit ''complete_when'', PyList [PyStr (lit ''all_required_verifiers_pass'')])])]"

definition demo_action :: pydict where
  "demo_action = [(lit ''id'', PyStr (lit ''a'')), (lit ''kind'', PyStr (lit ''edit'')),
     (lit ''risk'', PyStr (lit ''mutation'')), (lit ''requires_gate'', PyStr (lit ''g''))]"

lemma demo_contract_facts:
  "case parse_loop_contract (lit ''c'') (demo_doc [demo_action]) of Inl _ \<Rightarrow> False
   | Inr c \<Rightarrow> contract_valid c \<and> gates_openable c \<and> list_ex gate_needed (lc_actions c)"
  by code_simp

lemma contract_returns:
  assumes "reachable h" "parse_loop_contract path doc = Inr c" "\<not> contract_may_raise c timeout h"
  shows "\<exists>s h'. run_contract path doc timeout h = (Inr s, h') \<and> contract_run_done c s h'"
  using run_contract_spec [OF assms(1), of path doc timeout] assms(2,3)
  by (cases "run_contract path doc timeout h"; cases "fst (run_contract path doc timeout h)")
    (auto simp: wp_def)

lemma demo_hub_start: "reachable demo_hub" "\<not> output_error_possible demo_hub 60"
  by (auto simp: demo_hub_def output_error_possible_def intro: reachable_empty)

lemma demo_gated_contract:
  "\<exists>c. parse_loop_contract (lit ''c'') (demo_doc [demo_action]) = Inr c \<and> list_ex gate_needed (lc_actions c)
     \<and> \<not> contract_may_raise c 60 demo_hub"
  using demo_contract_facts demo_hub_start(2) by (auto simp: contract_may_raise_def split: sum.splits)

lemma demo_gated_run:
  "\<exists>c s h'. parse_loop_contract (lit ''c'') (demo_doc [demo_action]) = Inr c \<and> list_ex gate_needed (lc_actions c)
     \<and> run_contract (lit ''c'') (demo_doc [demo_action]) 60 demo_hub = (Inr s, h')"
  using demo_gated_contract contract_returns [OF demo_hub_start(1)] by fastforce

section \<open>Properties of the orchestrator\<close>

text \<open>C17. A document that is no mapping, that cannot be parsed or that violates a rule of the contract
  validator is rejected before anything is written, logged or run.\<close>

theorem invalid_contract_changes_nothing:
  assumes "\<nexists>c. parse_loop_contract path doc = Inr c \<and> contract_valid c"
  shows "\<exists>e. run_contract path doc timeout h = (Inl e, h)"
  using assms by (cases "parse_loop_contract path doc") (simp_all add: run_contract_def)

lemma invalid_contract_changes_nothing_witness:
  "\<exists>e. run_contract (lit ''loop.yaml'') (PyDict []) 60 demo_hub1 = (Inl e, demo_hub1)"
  by (rule invalid_contract_changes_nothing)
    (auto simp: parse_contract_fields_def parse_budget_def contract_valid_def validate_loop_contract_def)

text \<open>C1. How a run of a contract that returns has ended: the contract is valid, the feedback of
  exactly its required verifiers is stored in their order, the reported status is the stored one,
  and the decision is \<open>failed\<close> when some verifier did not pass, \<open>blocked\<close> with exactly the gates
  the actions require when all passed and gates are required, \<open>completed\<close> when all passed and no
  action requires a gate.\<close>

theorem run_contract_outcome:
  assumes "reachable h" "run_contract path doc timeout h = (Inr s, h')"
  shows "\<exists>c l fs. parse_loop_contract path doc = Inr c \<and> contract_valid c
    \<and> read_run h' (sm_loop_id s) = Inr l \<and> contract_ended c s l fs"
  using wp_Inr [OF run_contract_spec [OF assms(1)] assms(2)] by (auto simp: contract_run_done_def)

lemma run_contract_outcome_witness:
  "\<exists>s h' c l fs. run_contract (lit ''c'') (demo_doc [demo_action]) 60 demo_hub = (Inr s, h')
    \<and> contract_valid c \<and> read_run h' (sm_loop_id s) = Inr l \<and> contract_ended c s l fs"
proof -
  obtain s h' where run: "run_contract (lit ''c'') (demo_doc [demo_action]) 60 demo_hub = (Inr s, h')"
    using demo_gated_run by auto
  from run_contract_outcome [OF demo_hub_start(1) run] run show ?thesis by blast
qed

text \<open>C2. A contract with an action whose risk or kind calls for a human gate never ends completed:
  the run of a valid one ends failed or waits, blocked, on open gates.\<close>

theorem gated_contract_never_completes:
  assumes "reachable h" "parse_loop_contract path doc = Inr c" "list_ex gate_needed (lc_actions c)"
    "run_contract path doc timeout h = (Inr s, h')"
  shows "sm_decision s \<noteq> lit ''completed'' \<and>
    (sm_decision s = lit ''failed'' \<or> sm_status s = status_value Blocked \<and> sm_open_human_gates s \<noteq> [])"
proof -
  obtain l fs where ended: "contract_valid c" "contract_ended c s l fs"
    using wp_Inr [OF run_contract_spec [OF assms(1)] assms(4)] assms(2)
    by (auto simp: contract_run_done_def)
  obtain a where "a \<in> set (lc_actions c)" "gate_needed a"
    using assms(3) by (auto simp: list_ex_iff)
  then have "required_gate_ids c \<noteq> []"
    using valid_action_gate [OF ended(1)] by (auto simp: no_gates_iff list_all_iff)
  then show ?thesis
    using ended(2) by (auto simp: contract_ended_def)
qed

lemma gated_contract_never_completes_witness:
  "\<exists>s h'. run_contract (lit ''c'') (demo_doc [demo_action]) 60 demo_hub = (Inr s, h')
    \<and> sm_decision s \<noteq> lit ''completed''"
proof -
  obtain c s h' where run: "parse_loop_contract (lit ''c'') (demo_doc [demo_action]) = Inr c"
      "list_ex gate_needed (lc_actions c)"
      "run_contract (lit ''c'') (demo_doc [demo_action]) 60 demo_hub = (Inr s, h')"
    using demo_gated_run by auto
  from gated_contract_never_completes [OF demo_hub_start(1) run] run(3) show ?thesis by blast
qed

text \<open>C16. A run of a valid contract returns a summary, and never stops half way, when the time limit is
  between 1 and 600 seconds, the gates it requires have ids without surrounding spaces and reasons
  that are not blank, and no process yields an output that cannot be decoded.\<close>

theorem valid_contract_run_returns:
  assumes "reachable h" "parse_loop_contract path doc = Inr c" "\<not> contract_may_raise c timeout h"
  shows "\<exists>s h'. run_contract path doc timeout h = (Inr s, h') \<and> contract_run_done c s h'"
  using assms by (rule contract_returns)

lemma valid_contract_run_returns_witness:
  "\<exists>c s h'. run_contract (lit ''c'') (demo_doc [demo_action]) 60 demo_hub = (Inr s, h') \<and> contract_run_done c s h'"
proof -
  obtain c where "parse_loop_contract (lit ''c'') (demo_doc [demo_action]) = Inr c"
      "\<not> contract_may_raise c 60 demo_hub"
    using demo_gated_contract by auto
  from valid_contract_run_returns [OF demo_hub_start(1) this] show ?thesis by auto
qed

end
