(* ===== verification/PyFloat.thy ===== *)
theory PyFloat imports Complex_Main PyCore begin

text \<open>
  Python's \<open>float\<close>: finite values are rationals, and every operation of the code is the exact
  operation followed by \<open>fl64\<close>, rounding to the nearest binary64 value with ties to even,
  subnormal values included. The exponent has no upper bound: the modelled code multiplies
  scores of at most 53 bits by configured penalties, far below the overflow threshold; infinities
  and NaN are not values of the model. The locale \<open>float_rounding\<close> states what the clients use of
  rounding (monotone, exact on small integers, relative error at most \<open>2^-53\<close>), and is interpreted
  on \<open>fl64\<close>.
\<close>

section \<open>Rounding to an integer\<close>

definition round_even :: "rat \<Rightarrow> int" where
  "round_even x =
     (let f = \<lfloor>x\<rfloor>; d = x - of_int f
      in if d < 1 / 2 then f else if 1 / 2 < d then f + 1 else if even f then f else f + 1)"

lemma round_even_of_int [simp]: "round_even (of_int i) = i"
  by (simp add: round_even_def)

lemma round_even_error: "\<bar>of_int (round_even x) - x\<bar> \<le> 1 / 2"
proof -
  have "of_int \<lfloor>x\<rfloor> \<le> x" "x < of_int \<lfloor>x\<rfloor> + 1"
    using floor_correct [of x] by simp_all
  then show ?thesis
    unfolding round_even_def Let_def abs_le_iff by (simp split: if_splits; linarith)
qed

lemma round_even_mono:
  assumes "x \<le> y"
  shows "round_even x \<le> round_even y"
proof (cases "\<lfloor>x\<rfloor> = \<lfloor>y\<rfloor>")
  case True
  with assms show ?thesis by (auto simp: round_even_def Let_def)
next
  case False
  with assms have less: "\<lfloor>x\<rfloor> + 1 \<le> \<lfloor>y\<rfloor>"
    using floor_mono [OF assms] by linarith
  have "round_even x \<le> \<lfloor>x\<rfloor> + 1" "\<lfloor>y\<rfloor> \<le> round_even y"
    by (auto simp: round_even_def Let_def)
  with less show ?thesis by linarith
qed

lemma round_even_minus: "round_even (- x) = - round_even x"
proof (cases "x = of_int \<lfloor>x\<rfloor>")
  case True
  then show ?thesis by (metis of_int_minus round_even_of_int)
next
  case False
  then have "\<lfloor>- x\<rfloor> = - \<lfloor>x\<rfloor> - 1"
    by (simp add: floor_minus ceiling_altdef)
  then show ?thesis
    by (auto simp: round_even_def Let_def)
qed

lemma round_even_ge: "of_int a \<le> x \<Longrightarrow> a \<le> round_even x"
  using round_even_mono [of "of_int a" x] by simp

lemma round_even_le: "x \<le> of_int b \<Longrightarrow> round_even x \<le> b"
  using round_even_mono [of x "of_int b"] by simp

section \<open>Binary exponents\<close>

fun bits :: "nat \<Rightarrow> nat" where
  "bits n = (if n = 0 then 0 else Suc (bits (n div 2)))"

declare bits.simps [simp del]

lemma bits_bounds: "0 < n \<Longrightarrow> 2 ^ (bits n - 1) \<le> n \<and> n < 2 ^ bits n \<and> 0 < bits n"
proof (induction n rule: bits.induct)
  case (1 n)
  show ?case
  proof (cases "n div 2 = 0")
    case True
    with 1 have "n = 1" by linarith
    then show ?thesis by (simp add: bits.simps [of "Suc 0"] bits.simps [of 0])
  next
    case False
    with 1 have IH: "2 ^ (bits (n div 2) - 1) \<le> n div 2" "n div 2 < 2 ^ bits (n div 2)"
        "0 < bits (n div 2)"
      by auto
    then obtain k where k: "bits (n div 2) = Suc k" by (cases "bits (n div 2)") auto
    have "bits n = Suc (Suc k)" using 1 k by (simp add: bits.simps [of n])
    moreover have "2 ^ Suc k \<le> n" using IH(1) k by simp
    moreover have "n < 2 ^ Suc (Suc k)" using IH(2) k by simp
    ultimately show ?thesis by simp
  qed
qed

definition floor_log2 :: "rat \<Rightarrow> int" where
  "floor_log2 x =
     (let (p, q) = quotient_of x;
          k = int (bits (nat p)) - int (bits (nat q))
      in if 2 powi k \<le> x then k else k - 1)"

lemma floor_log2_bounds:
  assumes "0 < x"
  shows "2 powi floor_log2 x \<le> x" and "x < 2 powi (floor_log2 x + 1)"
proof -
  obtain p q where pq: "quotient_of x = (p, q)" by force
  have q: "0 < q" using quotient_of_denom_pos [OF pq] .
  have x: "x = of_int p / of_int q" using quotient_of_div [OF pq] .
  with assms q have p: "0 < p" by (simp add: zero_less_divide_iff)
  define a where "a = bits (nat p)"
  define b where "b = bits (nat q)"
  have pa: "2 ^ (a - 1) \<le> nat p" "nat p < 2 ^ a" "0 < a"
    using bits_bounds [of "nat p"] p by (auto simp: a_def)
  have qb: "2 ^ (b - 1) \<le> nat q" "nat q < 2 ^ b" "0 < b"
    using bits_bounds [of "nat q"] q by (auto simp: b_def)
  have rp: "(2::rat) ^ (a - 1) \<le> of_int p" "of_int p < (2::rat) ^ a"
    using pa(1,2) p by (simp_all add: nat_le_iff nat_less_iff flip: of_nat_le_iff of_nat_less_iff)
  have rq: "(2::rat) ^ (b - 1) \<le> of_int q" "of_int q < (2::rat) ^ b"
    using qb(1,2) q by (simp_all add: nat_le_iff nat_less_iff flip: of_nat_le_iff of_nat_less_iff)
  let ?k = "int a - int b"
  obtain a' b' where ab: "a = Suc a'" "b = Suc b'"
    using pa(3) qb(3) by (cases a; cases b) auto
  have powers: "(2::rat) ^ a = 2 powi int a" "(2::rat) ^ b = 2 powi int b"
      "(2::rat) ^ (a - 1) = 2 powi (int a - 1)" "(2::rat) ^ (b - 1) = 2 powi (int b - 1)"
    unfolding ab by (simp_all add: power_int_add)
  have "2 powi (?k - 1) = (2::rat) powi (int a - 1) / 2 powi int b"
    by (simp add: power_int_diff)
  also have "\<dots> \<le> of_int p / of_int q"
    using rp(1) rq(2) q p unfolding powers by (intro frac_le) auto
  finally have low: "2 powi (?k - 1) \<le> x" by (simp add: x)
  have "x < (2::rat) powi int a / 2 powi (int b - 1)"
    using rp(2) rq(1) p unfolding powers x by (intro frac_less) auto
  also have "\<dots> = 2 powi (?k + 1)"
    by (simp add: power_int_diff power_int_add)
  finally have high: "x < 2 powi (?k + 1)" .
  show "2 powi floor_log2 x \<le> x" "x < 2 powi (floor_log2 x + 1)"
    using low high by (auto simp: floor_log2_def pq a_def b_def Let_def)
qed

lemma floor_log2_mono:
  assumes "0 < x" and "x \<le> y"
  shows "floor_log2 x \<le> floor_log2 y"
proof -
  have "2 powi floor_log2 x \<le> x" "y < 2 powi (floor_log2 y + 1)"
    using floor_log2_bounds assms by auto
  with assms have "(2::rat) powi floor_log2 x < 2 powi (floor_log2 y + 1)" by linarith
  then have "\<not> floor_log2 y + 1 \<le> floor_log2 x"
    using power_int_increasing [of "floor_log2 y + 1" "floor_log2 x" "2 :: rat"] by auto
  then show ?thesis by simp
qed

lemma floor_log2_less:
  assumes "0 < x" and "x < 2 powi e"
  shows "floor_log2 x < e"
proof (rule ccontr)
  assume "\<not> floor_log2 x < e"
  then have "(2::rat) powi e \<le> 2 powi floor_log2 x"
    by (intro power_int_increasing) auto
  with floor_log2_bounds(1) [OF assms(1)] assms(2) show False by linarith
qed

lemma floor_log2_ge:
  assumes "2 powi e \<le> x"
  shows "e \<le> floor_log2 x"
proof (rule ccontr)
  have pos: "0 < x" using assms zero_less_power_int [of "2 :: rat" e] by linarith
  assume "\<not> e \<le> floor_log2 x"
  then have "(2::rat) powi (floor_log2 x + 1) \<le> 2 powi e"
    by (intro power_int_increasing) auto
  with floor_log2_bounds(2) [OF pos] assms show False by linarith
qed

section \<open>Rounding to binary64\<close>

definition ulp_exponent :: "rat \<Rightarrow> int" where
  "ulp_exponent x = max (- 1074) (floor_log2 \<bar>x\<bar> - 52)"

definition fl64 :: "rat \<Rightarrow> rat" where
  "fl64 x =
     (if x = 0 then 0
      else let u = 2 powi ulp_exponent x in of_int (round_even (x / u)) * u)"

lemma fl64_0 [simp]: "fl64 0 = 0"
  by (simp add: fl64_def)

lemma fl64_minus: "fl64 (- x) = - fl64 x"
  by (simp add: fl64_def Let_def ulp_exponent_def round_even_minus)

lemma fl64_pos: "0 < x \<Longrightarrow> fl64 x = of_int (round_even (x / 2 powi ulp_exponent x)) * 2 powi ulp_exponent x"
  by (simp add: fl64_def Let_def)

lemma fl64_nonneg: "0 \<le> x \<Longrightarrow> 0 \<le> fl64 x"
  using round_even_ge [of 0 "x / 2 powi ulp_exponent x"]
  by (cases "x = 0") (simp_all add: fl64_pos)

lemma fl64_le_power:
  assumes "0 < x"
  shows "fl64 x \<le> 2 powi (ulp_exponent x + 53)"
proof -
  let ?e = "ulp_exponent x"
  have "x < 2 powi (floor_log2 x + 1)" using floor_log2_bounds(2) [OF assms] .
  also have "(2::rat) powi (floor_log2 x + 1) \<le> 2 powi (?e + 53)"
    using assms by (intro power_int_increasing) (auto simp: ulp_exponent_def)
  finally have "x / 2 powi ?e \<le> of_int (2 ^ 53)"
    by (simp add: power_int_add divide_le_eq field_simps)
  then have "round_even (x / 2 powi ?e) \<le> 2 ^ 53" by (rule round_even_le)
  then have "(of_int (round_even (x / 2 powi ?e)) :: rat) \<le> 2 ^ 53"
    by (metis of_int_le_iff of_int_numeral of_int_power)
  then show ?thesis
    using assms by (simp add: fl64_pos power_int_add)
qed

lemma fl64_ge_power:
  assumes "0 < x" and "- 1074 < ulp_exponent x"
  shows "2 powi (ulp_exponent x + 52) \<le> fl64 x"
proof -
  let ?e = "ulp_exponent x"
  from assms have "?e + 52 = floor_log2 x" by (auto simp: ulp_exponent_def)
  then have "2 powi (?e + 52) \<le> x" using floor_log2_bounds(1) [OF assms(1)] by simp
  then have "of_int (2 ^ 52) \<le> x / 2 powi ?e"
    by (simp add: power_int_add le_divide_eq field_simps)
  then have "2 ^ 52 \<le> round_even (x / 2 powi ?e)" by (rule round_even_ge)
  then have "2 ^ 52 \<le> (of_int (round_even (x / 2 powi ?e)) :: rat)"
    by (metis of_int_le_iff of_int_numeral of_int_power)
  then show ?thesis
    using assms by (simp add: fl64_pos power_int_add)
qed

lemma fl64_mono_pos:
  assumes "0 < x" and "x \<le> y"
  shows "fl64 x \<le> fl64 y"
proof -
  from assms have y: "0 < y" by linarith
  have le: "ulp_exponent x \<le> ulp_exponent y"
    using floor_log2_mono [OF assms] assms y by (auto simp: ulp_exponent_def)
  show ?thesis
  proof (cases "ulp_exponent x = ulp_exponent y")
    case True
    have "round_even (x / 2 powi ulp_exponent x) \<le> round_even (y / 2 powi ulp_exponent x)"
      using assms by (intro round_even_mono divide_right_mono) auto
    then show ?thesis using assms y True by (simp add: fl64_pos)
  next
    case False
    with le have less: "ulp_exponent x < ulp_exponent y" by simp
    have "fl64 x \<le> 2 powi (ulp_exponent x + 53)" using assms(1) by (rule fl64_le_power)
    also have "(2::rat) powi (ulp_exponent x + 53) \<le> 2 powi (ulp_exponent y + 52)"
      using less by (intro power_int_increasing) auto
    also have "\<dots> \<le> fl64 y"
      using less y by (intro fl64_ge_power) (auto simp: ulp_exponent_def)
    finally show ?thesis .
  qed
qed

lemma fl64_mono: "x \<le> y \<Longrightarrow> fl64 x \<le> fl64 y"
proof -
  assume le: "x \<le> y"
  consider "0 < x" | "x \<le> 0" "0 \<le> y" | "y < 0" by linarith
  then show "fl64 x \<le> fl64 y"
  proof cases
    case 1
    then show ?thesis using le by (rule fl64_mono_pos)
  next
    case 2
    then show ?thesis using fl64_nonneg [of y] fl64_nonneg [of "- x"] by (simp add: fl64_minus)
  next
    case 3
    with le fl64_mono_pos [of "- y" "- x"] show ?thesis by (simp add: fl64_minus)
  qed
qed

lemma fl64_exact_pos:
  assumes "0 < k" and "k < 2 ^ 53" and "- 1074 \<le> e"
  shows "fl64 (of_int k * 2 powi e) = of_int k * 2 powi e"
proof -
  let ?x = "of_int k * 2 powi e :: rat"
  define u where "u = ulp_exponent ?x"
  have pos: "0 < ?x" using assms by simp
  have "(of_int k :: rat) < 2 ^ 53"
    using assms(2) by (metis of_int_less_iff of_int_numeral of_int_power)
  then have "?x < 2 powi (53 + e)" by (simp add: power_int_add)
  then have u: "u \<le> e"
    using floor_log2_less [OF pos] assms(3) pos by (fastforce simp: ulp_exponent_def u_def)
  have "?x / 2 powi u = of_int k * 2 powi (e - u)"
    by (simp add: power_int_diff)
  also have "\<dots> = of_int (k * 2 ^ nat (e - u))"
    using u by (simp add: power_int_def)
  finally have "of_int (round_even (?x / 2 powi u)) = ?x / 2 powi u"
    by (metis round_even_of_int)
  then show ?thesis using fl64_pos [OF pos, folded u_def] by simp
qed

lemma fl64_of_int:
  assumes "\<bar>k\<bar> < 2 ^ 53"
  shows "fl64 (of_int k) = of_int k"
proof -
  have pos: "fl64 (of_int k) = of_int k" if "0 < k" "k < 2 ^ 53" for k
    using fl64_exact_pos [OF that, of 0] by simp
  consider "0 < k" | "k = 0" | "0 < - k" by linarith
  then show ?thesis
    using pos [of k] pos [of "- k"] assms by cases (auto simp: fl64_minus)
qed

lemma fl64_error:
  assumes "2 powi (- 1022) \<le> x"
  shows "\<bar>fl64 x - x\<bar> \<le> x / 2 ^ 53"
proof -
  have pos: "0 < x" using assms zero_less_power_int [of "2 :: rat" "- 1022"] by linarith
  let ?e = "ulp_exponent x"
  have e: "?e = floor_log2 x - 52"
    using floor_log2_ge [OF assms] pos by (simp add: ulp_exponent_def)
  let ?u = "2 powi ?e :: rat"
  have "fl64 x - x = (of_int (round_even (x / ?u)) - x / ?u) * ?u"
    using pos by (simp add: fl64_pos field_simps)
  then have "\<bar>fl64 x - x\<bar> = \<bar>of_int (round_even (x / ?u)) - x / ?u\<bar> * ?u"
    by (simp add: abs_mult)
  also have "\<dots> \<le> 1 / 2 * ?u"
    by (intro mult_right_mono round_even_error) simp
  also have "\<dots> = 2 powi floor_log2 x / 2 ^ 53"
    unfolding e by (simp add: power_int_diff)
  also have "\<dots> \<le> x / 2 ^ 53"
    using floor_log2_bounds(1) [OF pos] by (simp add: divide_right_mono)
  finally show ?thesis .
qed

section \<open>The text of a float\<close>

text \<open>
  \<open>repr(x)\<close>: the shortest decimal that rounds to \<open>x\<close> and is closest to it, in fixed notation when
  the decimal point falls from 3 places before to 16 places after the first digit. \<open>fixed2 x\<close> is
  \<open>f"{x:.2f}"\<close> for a value that is not negative.
\<close>

definition floor_log10 :: "rat \<Rightarrow> int" where
  "floor_log10 x =
     (let k = (floor_log2 x * 30103) div 100000
      in if 10 powi (k + 1) \<le> x then k + 1 else if x < 10 powi k then k - 1 else k)"

definition decimal_digits :: "rat \<Rightarrow> int \<Rightarrow> int \<Rightarrow> int option" where
  "decimal_digits x e n =
     (let u = 10 powi (e - n + 1); lo = \<lfloor>x / u\<rfloor>;
          ok = filter (\<lambda>d. fl64 (of_int d * u) = x) [lo, lo + 1]
      in case ok of [] \<Rightarrow> None | [d] \<Rightarrow> Some d
         | _ \<Rightarrow> Some (if x / u - of_int lo \<le> of_int (lo + 1) - x / u then lo else lo + 1))"

fun shortest_digits :: "nat \<Rightarrow> rat \<Rightarrow> int \<Rightarrow> int \<Rightarrow> int \<times> int" where
  "shortest_digits 0 x e n = (\<lfloor>x / 10 powi (e - n + 1)\<rfloor>, e - n + 1)"
| "shortest_digits (Suc k) x e n =
     (case decimal_digits x e n of Some d \<Rightarrow> (d, e - n + 1) | None \<Rightarrow> shortest_digits k x e (n + 1))"

definition exponent_str :: "int \<Rightarrow> pystr" where
  "exponent_str e =
     (let s = int_str \<bar>e\<bar>
      in lit ''e'' @ (if e < 0 then lit ''-'' else lit ''+'') @ replicate (2 - length s) 48 @ s)"

definition place_point :: "pystr \<Rightarrow> int \<Rightarrow> pystr" where
  "place_point ds point =
     (if - 4 < point \<and> point \<le> 16 then
        if point \<le> 0 then lit ''0.'' @ replicate (nat (- point)) 48 @ ds
        else if int (length ds) \<le> point
          then ds @ replicate (nat point - length ds) 48 @ lit ''.0''
        else take (nat point) ds @ lit ''.'' @ drop (nat point) ds
      else take 1 ds @ (if length ds = 1 then [] else lit ''.'' @ drop 1 ds)
           @ exponent_str (point - 1))"

definition float_repr :: "rat \<Rightarrow> pystr" where
  "float_repr x =
     (if x = 0 then lit ''0.0''
      else let (d, s) = shortest_digits 17 \<bar>x\<bar> (floor_log10 \<bar>x\<bar>) 1;
               text = int_str d
           in (if x < 0 then lit ''-'' else [])
              @ place_point (rstrip_by (\<lambda>c. c = 48) text) (int (length text) + s))"

definition fixed2 :: "rat \<Rightarrow> pystr" where
  "fixed2 x =
     (let h = round_even (x * 100); f = int_str (h mod 100)
      in int_str (h div 100) @ lit ''.'' @ replicate (2 - length f) 48 @ f)"

section \<open>What the clients use\<close>

locale float_rounding =
  fixes rnd :: "rat \<Rightarrow> rat"
  assumes rnd_mono: "x \<le> y \<Longrightarrow> rnd x \<le> rnd y"
    and rnd_of_int: "\<bar>k\<bar> < 2 ^ 53 \<Longrightarrow> rnd (of_int k) = of_int k"
    and rnd_error: "2 powi (- 1022) \<le> x \<Longrightarrow> \<bar>rnd x - x\<bar> \<le> x / 2 ^ 53"
begin

lemma rnd_0 [simp]: "rnd 0 = 0"
  using rnd_of_int [of 0] by simp

lemma rnd_nonneg: "0 \<le> x \<Longrightarrow> 0 \<le> rnd x"
  using rnd_mono [of 0 x] by simp

lemma rnd_low:
  assumes "1 \<le> x * 2 ^ 64"
  shows "x * (1 - 1 / 2 ^ 53) \<le> rnd x"
proof -
  have "(2 :: rat) powi (- 1022) \<le> 2 powi (- 64)" by (rule power_int_increasing) auto
  also have "\<dots> = 1 / 2 ^ 64" by (simp add: power_int_def power_one_over)
  also have "\<dots> \<le> x" using assms by (simp add: field_simps)
  finally have "\<bar>rnd x - x\<bar> \<le> x / 2 ^ 53" by (rule rnd_error)
  then have "x - x / 2 ^ 53 \<le> rnd x" unfolding abs_le_iff by linarith
  moreover have "x * (1 - 1 / 2 ^ 53) = x - x / 2 ^ 53" by (simp add: right_diff_distrib)
  ultimately show ?thesis by simp
qed

text \<open>
  An age in microseconds, converted to seconds and to hours with one rounding each, exceeds a
  whole number of hours exactly when the exact age does, for limits of up to a million hours.
\<close>

lemma hours_exceed_iff:
  assumes "0 \<le> us" and "0 \<le> ttl" and "ttl \<le> 1000000"
  shows "of_int ttl < rnd (rnd (of_int us / 1000000) / 3600) \<longleftrightarrow> ttl * 3600000000 < us"
proof
  assume less: "of_int ttl < rnd (rnd (of_int us / 1000000) / 3600)"
  show "ttl * 3600000000 < us"
  proof (rule ccontr)
    assume "\<not> ttl * 3600000000 < us"
    then have "(of_int us :: rat) \<le> of_int (ttl * 3600000000)" by (simp only: of_int_le_iff not_less)
    then have "of_int us / 1000000 \<le> (of_int (ttl * 3600) :: rat)" by simp
    then have "rnd (of_int us / 1000000) \<le> of_int (ttl * 3600)"
      using rnd_mono rnd_of_int [of "ttl * 3600"] assms by fastforce
    then have "rnd (of_int us / 1000000) / 3600 \<le> of_int ttl" by simp
    then have "rnd (rnd (of_int us / 1000000) / 3600) \<le> of_int ttl"
      using rnd_mono rnd_of_int [of ttl] assms by fastforce
    with less show False by simp
  qed
next
  let ?c = "1 - 1 / 2 ^ 53 :: rat"
  assume "ttl * 3600000000 < us"
  then have "ttl * 3600000000 + 1 \<le> us" by simp
  then have "(of_int (ttl * 3600000000 + 1) :: rat) \<le> of_int us" by (simp only: of_int_le_iff)
  then have us: "of_int ttl * 3600000000 + 1 \<le> (of_int us :: rat)" by simp
  have ttl: "0 \<le> (of_int ttl :: rat)" "(of_int ttl :: rat) \<le> 1000000"
    using assms by simp_all
  let ?s = "rnd (of_int us / 1000000)"
  have s: "of_int us / 1000000 * ?c \<le> ?s"
    using us ttl by (intro rnd_low) simp
  have "(of_int ttl * 3600000000 + 1) / 1000000 * ?c \<le> of_int us / 1000000 * ?c"
    using us by (intro mult_right_mono divide_right_mono) auto
  with s have s': "(of_int ttl * 3600000000 + 1) / 1000000 * ?c \<le> ?s" by linarith
  have "1 / 2 ^ 21 \<le> (of_int ttl * 3600000000 + 1) / 1000000 * ?c"
    using ttl by (simp add: field_simps)
  with s' have "1 \<le> ?s / 3600 * 2 ^ 64" by simp
  then have h: "?s / 3600 * ?c \<le> rnd (?s / 3600)" by (rule rnd_low)
  have "(of_int ttl * 3600000000 + 1) / 1000000 * ?c / 3600 * ?c \<le> ?s / 3600 * ?c"
    using s' by (intro mult_right_mono divide_right_mono) auto
  moreover have "of_int ttl < (of_int ttl * 3600000000 + 1) / 1000000 * ?c / 3600 * ?c"
    using ttl by (simp add: field_simps)
  ultimately show "of_int ttl < rnd (?s / 3600)" using h by linarith
qed

end

interpretation fl64: float_rounding fl64
  by (unfold_locales; erule fl64_mono fl64_of_int fl64_error)

end
