(* ===== verification/PyText.thy ===== *)
theory PyText imports PyFloat begin

text \<open>
  More of Python's text handling for the memory modules: the character classes of \<open>re\<close>, the
  maximal runs of a class (\<open>findall\<close> of \<open>[...]+\<close>), words between word boundaries, whitespace
  normalisation, and the text of a float.

  Limits: \<open>is_digit\<close> is the class of decimal digits of Unicode 14. \<open>is_alnum\<close> is exact on ASCII,
  Latin-1 and the CJK ideographs \<open>U+4E00..U+9FFF\<close> and counts every other code point as a letter.
\<close>

section \<open>Character classes\<close>

definition digit_zeros :: "int list" where
  "digit_zeros = [
    48, 1632, 1776, 1984, 2406, 2534, 2662, 2790, 2918, 3046, 3174, 3302, 3430, 3558, 3664,
    3792, 3872, 4160, 4240, 6112, 6160, 6470, 6608, 6784, 6800, 6992, 7088, 7232, 7248, 42528,
    43216, 43264, 43472, 43504, 43600, 44016, 65296, 66720, 68912, 69734, 69872, 69942, 70096,
    70384, 70736, 70864, 71248, 71360, 71472, 71904, 72016, 72784, 73040, 73120, 92768, 92864,
    93008, 120782, 120792, 120802, 120812, 120822, 123200, 123632, 125264, 130032]"

definition is_digit :: "int \<Rightarrow> bool" where
  "is_digit c \<longleftrightarrow> (48 \<le> c \<and> c \<le> 57) \<or> list_ex (\<lambda>z. z \<le> c \<and> c \<le> z + 9) digit_zeros"

definition is_cjk :: "int \<Rightarrow> bool" where
  "is_cjk c \<longleftrightarrow> 19968 \<le> c \<and> c \<le> 40959"

definition ascii_alnum :: "int \<Rightarrow> bool" where
  "ascii_alnum c \<longleftrightarrow> (48 \<le> c \<and> c \<le> 57) \<or> (65 \<le> c \<and> c \<le> 90) \<or> (97 \<le> c \<and> c \<le> 122)"

definition is_alnum :: "int \<Rightarrow> bool" where
  "is_alnum c \<longleftrightarrow> ascii_alnum c
     \<or> c \<in> {170, 178, 179, 181, 185, 186, 188, 189, 190}
     \<or> (192 \<le> c \<and> c \<noteq> 215 \<and> c \<noteq> 247 \<and> \<not> is_space c)"

definition is_word :: "int \<Rightarrow> bool" where
  "is_word c \<longleftrightarrow> is_alnum c \<or> c = 95"

section \<open>Searching\<close>

text \<open>\<open>re.findall("[class]+", text)\<close>: the maximal runs of a character class.\<close>

fun runs_aux :: "(int \<Rightarrow> bool) \<Rightarrow> pystr \<Rightarrow> pystr \<Rightarrow> pystr list" where
  "runs_aux p acc [] = (if acc = [] then [] else [rev acc])"
| "runs_aux p acc (c # cs) =
     (if p c then runs_aux p (c # acc) cs
      else if acc = [] then runs_aux p [] cs else rev acc # runs_aux p [] cs)"

definition runs :: "(int \<Rightarrow> bool) \<Rightarrow> pystr \<Rightarrow> pystr list" where
  "runs p s = runs_aux p [] s"

text \<open>\<open>re.search(r"\b(?:w1|w2|...)\b", text)\<close> for words made of word characters.\<close>

fun word_after :: "bool \<Rightarrow> pystr list \<Rightarrow> pystr \<Rightarrow> bool" where
  "word_after inside ws [] \<longleftrightarrow> False"
| "word_after inside ws (c # cs) \<longleftrightarrow>
     (\<not> inside \<and> list_ex (\<lambda>w. prefix w (c # cs)
         \<and> (case drop (length w) (c # cs) of [] \<Rightarrow> True | d # _ \<Rightarrow> \<not> is_word d)) ws)
     \<or> word_after (is_word c) ws cs"

definition has_word :: "pystr list \<Rightarrow> pystr \<Rightarrow> bool" where
  "has_word ws s = word_after False ws s"

definition contains_any :: "pystr \<Rightarrow> pystr list \<Rightarrow> bool" where
  "contains_any text terms \<longleftrightarrow> list_ex (\<lambda>t. contains t text) terms"

text \<open>\<open>" ".join(text.split())\<close>\<close>

definition squeeze :: "pystr \<Rightarrow> pystr" where
  "squeeze s = join [32] (split_ws s)"

subsection \<open>Whitespace normalisation\<close>

definition solid :: "pystr \<Rightarrow> bool" where
  "solid w \<longleftrightarrow> w \<noteq> [] \<and> list_all (\<lambda>c. \<not> is_space c) w"

lemma split_ws_aux_solid:
  "list_all (\<lambda>c. \<not> is_space c) acc \<Longrightarrow> list_all solid (split_ws_aux acc s)"
  by (induction acc s rule: split_ws_aux.induct) (simp_all add: solid_def)

lemma split_ws_solid: "list_all solid (split_ws s)"
  by (simp add: split_ws_def split_ws_aux_solid)

lemma split_ws_aux_append:
  "list_all (\<lambda>c. \<not> is_space c) w \<Longrightarrow> split_ws_aux acc (w @ s) = split_ws_aux (rev w @ acc) s"
  by (induction w arbitrary: acc) auto

lemma is_space_32 [simp]: "is_space 32"
  by (simp add: is_space_def)

lemma split_ws_join: "list_all solid ws \<Longrightarrow> split_ws (join [32] ws) = ws"
proof (induction ws)
  case (Cons w ws)
  then have w: "w \<noteq> []" "list_all (\<lambda>c. \<not> is_space c) w" by (simp_all add: solid_def)
  show ?case
  proof (cases ws)
    case Nil
    then show ?thesis using w split_ws_aux_append [OF w(2), of "[]" "[]"] by (simp add: split_ws_def)
  next
    case more: (Cons v vs)
    then have "join [32] (w # ws) = w @ 32 # join [32] ws" by simp
    then show ?thesis using w Cons by (simp add: split_ws_def split_ws_aux_append)
  qed
qed (simp add: split_ws_def)

lemma squeeze_idem [simp]: "squeeze (squeeze s) = squeeze s"
  by (simp add: squeeze_def split_ws_join split_ws_solid)

lemma length_join_Cons: "length (join [32] (x # xs)) \<le> length x + 1 + length (join [32] xs)"
  by (cases xs) auto

lemma length_split_ws_aux: "length (join [32] (split_ws_aux acc s)) \<le> length acc + length s"
proof (induction acc s rule: split_ws_aux.induct)
  case (2 acc c cs)
  then show ?case
    using length_join_Cons [of "rev acc" "split_ws_aux [] cs"] by auto
qed auto

lemma length_squeeze: "length (squeeze s) \<le> length s"
  using length_split_ws_aux [of "[]" s] by (simp add: squeeze_def split_ws_def)

end
