(* ===== verification/MemoryItem.thy ===== *)
theory MemoryItem imports PyTime PyText begin

text \<open>
  The memory item: the enumerations of \<open>contracts/memory_enums.py\<close> and the models and validators
  of \<open>contracts/memory_item.py\<close>. An item is a record of its validated fields. The mapping from which
  an item is made is a list of fields (\<open>field_value\<close>) and goes through \<open>auto_fill\<close>, the coercion of
  each field to its type (a function of the validation library, here the parameter \<open>coerce\<close>), and
  the repository's own validators. A field declared with an enumeration holds a member of it or
  the member's value: \<open>use_enum_values\<close> stores values, except in a default, which the library does
  not validate.
\<close>

section \<open>Enumerations\<close>

datatype memory_type =
  MT_fact | MT_episode | MT_decision | MT_artifact | MT_signal | MT_handoff | MT_policy | MT_skill
datatype abstraction_layer = AL_L0 | AL_L1 | AL_L2
datatype maturity = MA_raw | MA_consolidated | MA_skill
datatype decay_class = DC_architecture | DC_decision | DC_fact | DC_episode | DC_ephemeral
datatype sensitivity = SE_public | SE_internal | SE_private | SE_secret

fun memory_type_value :: "memory_type \<Rightarrow> pystr" where
  "memory_type_value MT_fact = lit ''fact''"
| "memory_type_value MT_episode = lit ''episode''"
| "memory_type_value MT_decision = lit ''decision''"
| "memory_type_value MT_artifact = lit ''artifact''"
| "memory_type_value MT_signal = lit ''signal''"
| "memory_type_value MT_handoff = lit ''handoff''"
| "memory_type_value MT_policy = lit ''policy''"
| "memory_type_value MT_skill = lit ''skill''"

fun abstraction_value :: "abstraction_layer \<Rightarrow> pystr" where
  "abstraction_value AL_L0 = lit ''L0''"
| "abstraction_value AL_L1 = lit ''L1''"
| "abstraction_value AL_L2 = lit ''L2''"

fun maturity_value :: "maturity \<Rightarrow> pystr" where
  "maturity_value MA_raw = lit ''raw''"
| "maturity_value MA_consolidated = lit ''consolidated''"
| "maturity_value MA_skill = lit ''skill''"

fun decay_class_value :: "decay_class \<Rightarrow> pystr" where
  "decay_class_value DC_architecture = lit ''architecture''"
| "decay_class_value DC_decision = lit ''decision''"
| "decay_class_value DC_fact = lit ''fact''"
| "decay_class_value DC_episode = lit ''episode''"
| "decay_class_value DC_ephemeral = lit ''ephemeral''"

fun sensitivity_value :: "sensitivity \<Rightarrow> pystr" where
  "sensitivity_value SE_public = lit ''public''"
| "sensitivity_value SE_internal = lit ''internal''"
| "sensitivity_value SE_private = lit ''private''"
| "sensitivity_value SE_secret = lit ''secret''"

definition decay_half_life_days :: "(pystr \<times> int) list" where
  "decay_half_life_days =
    [(lit ''architecture'', 180), (lit ''decision'', 90), (lit ''fact'', 60), (lit ''episode'', 30),
     (lit ''ephemeral'', 7)]"

definition type_to_decay_class :: "(pystr \<times> pystr) list" where
  "type_to_decay_class =
    [(lit ''fact'', lit ''fact''), (lit ''episode'', lit ''episode''), (lit ''decision'', lit ''decision''),
     (lit ''artifact'', lit ''architecture''), (lit ''signal'', lit ''ephemeral''),
     (lit ''handoff'', lit ''ephemeral''), (lit ''policy'', lit ''decision''),
     (lit ''skill'', lit ''architecture'')]"

text \<open>
  A field of an enumeration: a member or a value. \<open>str()\<close> of a member is its qualified name, whose
  last part is the value in every enumeration here; \<open>memory_enum_value\<close> gives the value of both.
\<close>

datatype 'a slot = Member 'a | Value 'a

fun memory_enum_value :: "('a \<Rightarrow> pystr) \<Rightarrow> 'a slot \<Rightarrow> pystr" where
  "memory_enum_value val (Member a) = val a"
| "memory_enum_value val (Value a) = val a"

fun slot_str :: "string \<Rightarrow> ('a \<Rightarrow> pystr) \<Rightarrow> 'a slot \<Rightarrow> pystr" where
  "slot_str cls val (Member a) = lit cls @ lit ''.'' @ val a"
| "slot_str cls val (Value a) = val a"

text \<open>
  The interface of an enumeration: members have different values without a dot, so a value
  determines the member and the name of a member is no value.
\<close>

locale enum_values =
  fixes val :: "'a \<Rightarrow> pystr"
  assumes value_inject: "val a = val b \<longleftrightarrow> a = b"
    and value_no_dot: "46 \<notin> set (val a)"
begin

lemma enum_value_eq: "memory_enum_value val s = val a \<longleftrightarrow> s \<in> {Member a, Value a}"
  by (cases s) (auto simp: value_inject)

lemma slot_str_eq: "slot_str cls val s = val a \<longleftrightarrow> s = Value a"
proof (cases s)
  case (Member b)
  have "46 \<in> set (slot_str cls val s)" by (simp add: Member lit_def)
  then have "slot_str cls val s \<noteq> val a" using value_no_dot [of a] by metis
  then show ?thesis by (simp add: Member)
qed (simp add: value_inject)

lemma slot_str_Value: "slot_str cls val (Value a) = memory_enum_value val (Value a)"
  by simp

end

interpretation types: enum_values memory_type_value
proof
  show "memory_type_value a = memory_type_value b \<longleftrightarrow> a = b" for a b by (cases a; cases b) simp_all
  show "46 \<notin> set (memory_type_value a)" for a by (cases a) (simp_all add: lit_def)
qed

interpretation layers: enum_values abstraction_value
proof
  show "abstraction_value a = abstraction_value b \<longleftrightarrow> a = b" for a b by (cases a; cases b) simp_all
  show "46 \<notin> set (abstraction_value a)" for a by (cases a) (simp_all add: lit_def)
qed

interpretation maturities: enum_values maturity_value
proof
  show "maturity_value a = maturity_value b \<longleftrightarrow> a = b" for a b by (cases a; cases b) simp_all
  show "46 \<notin> set (maturity_value a)" for a by (cases a) (simp_all add: lit_def)
qed

interpretation sensitivities: enum_values sensitivity_value
proof
  show "sensitivity_value a = sensitivity_value b \<longleftrightarrow> a = b" for a b by (cases a; cases b) simp_all
  show "46 \<notin> set (sensitivity_value a)" for a by (cases a) (simp_all add: lit_def)
qed

section \<open>The models\<close>

record retention =
  rt_last_accessed :: "py_datetime option"
  rt_access_count :: int
  rt_decay_class :: "decay_class slot"

record refs =
  rf_files :: "pystr list"
  rf_urls :: "pystr list"
  rf_mems :: "pystr list"
  rf_commits :: "pystr list"
  rf_resources :: "pystr list"
  rf_extractions :: "pystr list"

record item_source =
  so_kind :: pystr
  so_transcript_id :: "pystr option"
  so_span_hash :: "pystr option"
  so_extractor :: "pystr option"

record validity =
  va_observed_at :: "py_datetime option"
  va_ttl_hours :: "int option"
  va_cwd :: "pystr option"
  va_repo :: "pystr option"
  va_branch :: "pystr option"
  va_os :: "pystr option"
  va_adapter :: "pystr option"

record context_views =
  vw_locator :: pystr
  vw_overview :: pystr
  vw_detail_uri :: pystr

datatype signal_status = SS_open | SS_resolved | SS_obsolete | SS_deferred

record signal_lifecycle =
  sl_status :: signal_status
  sl_changed_at :: "py_datetime option"
  sl_deferred_until :: "py_datetime option"
  sl_resolution_item_id :: "pystr option"
  sl_reason :: "pystr option"

record memory_item =
  mi_id :: pystr
  mi_schema_version :: pystr
  mi_type :: "memory_type slot"
  mi_created_at :: py_datetime
  mi_agent :: "pystr option"
  mi_session :: "pystr option"
  mi_project :: "pystr option"
  mi_tenant_id :: "pystr option"
  mi_auth_context :: "pystr option"
  mi_tags :: "pystr list"
  mi_sensitivity :: "sensitivity slot"
  mi_title :: pystr
  mi_summary :: pystr
  mi_refs :: refs
  mi_confidence :: rat
  mi_retention :: retention
  mi_abstraction :: "abstraction_layer slot"
  mi_maturity :: "maturity slot"
  mi_context_views :: context_views
  mi_source :: item_source
  mi_validity :: validity
  mi_signal_state :: "signal_lifecycle option"
  mi_support_count :: int
  mi_contradict_count :: int
  mi_gain_score :: rat
  mi_evolved_from :: "pystr list"
  mi_superseded_by :: "pystr option"
  mi_version :: int

text \<open>\<open>str(item.type)\<close> and \<open>memory_enum_value(item.type)\<close>, and \<open>str(...)\<close> of the other fields.\<close>

definition item_type_str :: "memory_item \<Rightarrow> pystr" where
  "item_type_str item = slot_str ''MemoryType'' memory_type_value (mi_type item)"

definition item_type_value :: "memory_item \<Rightarrow> pystr" where
  "item_type_value item = memory_enum_value memory_type_value (mi_type item)"

definition item_abstraction_str :: "memory_item \<Rightarrow> pystr" where
  "item_abstraction_str item = slot_str ''AbstractionLayer'' abstraction_value (mi_abstraction item)"

definition item_maturity_str :: "memory_item \<Rightarrow> pystr" where
  "item_maturity_str item = slot_str ''Maturity'' maturity_value (mi_maturity item)"

definition item_sensitivity_value :: "memory_item \<Rightarrow> pystr" where
  "item_sensitivity_value item = memory_enum_value sensitivity_value (mi_sensitivity item)"

section \<open>Validators\<close>

type_synonym 'a validated = "pystr list + 'a"

text \<open>\<open>re.compile(r"^mem-\d{8}-\d{6}-[^\s/\\]{1,200}$").fullmatch(value)\<close>\<close>

definition item_id_char :: "int \<Rightarrow> bool" where
  "item_id_char c \<longleftrightarrow> \<not> is_space c \<and> c \<noteq> 47 \<and> c \<noteq> 92"

definition is_valid_memory_item_id :: "pystr \<Rightarrow> bool" where
  "is_valid_memory_item_id s \<longleftrightarrow>
     take 4 s = lit ''mem-''
     \<and> length (take 8 (drop 4 s)) = 8 \<and> list_all is_digit (take 8 (drop 4 s))
     \<and> take 1 (drop 12 s) = lit ''-''
     \<and> length (take 6 (drop 13 s)) = 6 \<and> list_all is_digit (take 6 (drop 13 s))
     \<and> take 1 (drop 19 s) = lit ''-''
     \<and> 1 \<le> length (drop 20 s) \<and> length (drop 20 s) \<le> 200 \<and> list_all item_id_char (drop 20 s)"

definition validate_validity :: "validity \<Rightarrow> validity" where
  "validate_validity v = v\<lparr>va_observed_at := map_option aware (va_observed_at v)\<rparr>"

definition normalize_reason :: "pystr option \<Rightarrow> pystr option validated" where
  "normalize_reason reason =
     (case reason of
        None \<Rightarrow> Inr None
      | Some v \<Rightarrow>
          if 240 < length v then Inl [lit ''String should have at most 240 characters'']
          else let normalized = squeeze v
               in if normalized = [] then Inr None
                  else if list_ex (\<lambda>c. c < 32) normalized
                    then Inl [lit ''reason must not contain control characters'']
                  else Inr (Some normalized))"

definition resolution_errors :: "pystr option \<Rightarrow> pystr list" where
  "resolution_errors item_id =
     (case item_id of
        None \<Rightarrow> []
      | Some v \<Rightarrow> if is_valid_memory_item_id v then []
                  else [lit ''resolution_item_id must be a canonical MemoryItem ID''])"

definition check_signal_lifecycle :: "signal_lifecycle \<Rightarrow> pystr option" where
  "check_signal_lifecycle s =
     (if sl_status s \<noteq> SS_open \<and> sl_changed_at s = None
        then Some (lit ''non-open signal state requires changed_at'')
      else if sl_status s = SS_deferred \<and> sl_deferred_until s = None
        then Some (lit ''deferred signal state requires deferred_until'')
      else if sl_status s = SS_deferred \<and> sl_changed_at s \<noteq> None
          \<and> instant (the (sl_deferred_until s)) \<le> instant (the (sl_changed_at s))
        then Some (lit ''deferred_until must be later than changed_at'')
      else if sl_status s \<noteq> SS_deferred \<and> sl_deferred_until s \<noteq> None
        then Some (lit ''deferred_until is only allowed for deferred signal state'')
      else if sl_status s \<noteq> SS_resolved \<and> sl_resolution_item_id s \<noteq> None
        then Some (lit ''resolution_item_id is only allowed for resolved signal state'')
      else None)"

text \<open>
  The fields are validated first and all their errors are reported; the check of the whole state
  runs on the normalised fields when none of them failed.
\<close>

definition validate_signal_lifecycle :: "signal_lifecycle \<Rightarrow> signal_lifecycle validated" where
  "validate_signal_lifecycle s =
     (let s' = s\<lparr>sl_changed_at := map_option aware (sl_changed_at s),
                 sl_deferred_until := map_option aware (sl_deferred_until s)\<rparr>;
          errors = resolution_errors (sl_resolution_item_id s)
      in case normalize_reason (sl_reason s) of
           Inl es \<Rightarrow> Inl (errors @ es)
         | Inr reason \<Rightarrow>
             if errors \<noteq> [] then Inl errors
             else let s'' = s'\<lparr>sl_reason := reason\<rparr>
                  in case check_signal_lifecycle s'' of Some e \<Rightarrow> Inl [e] | None \<Rightarrow> Inr s'')"

definition validated_errors :: "'a validated \<Rightarrow> pystr list" where
  "validated_errors v = (case v of Inl es \<Rightarrow> es | Inr _ \<Rightarrow> [])"

definition item_errors :: "memory_item \<Rightarrow> pystr list" where
  "item_errors item =
     (if is_valid_memory_item_id (mi_id item) then [] else [lit ''id must match''])
     @ (if 0 \<le> mi_confidence item \<and> mi_confidence item \<le> 1 then []
        else [lit ''confidence must be between 0 and 1''])
     @ (case mi_signal_state item of None \<Rightarrow> []
        | Some s \<Rightarrow> validated_errors (validate_signal_lifecycle s))"

definition normalize_item :: "memory_item \<Rightarrow> memory_item" where
  "normalize_item item = item
     \<lparr>mi_created_at := aware (mi_created_at item),
      mi_validity := validate_validity (mi_validity item),
      mi_signal_state := (case mi_signal_state item of None \<Rightarrow> None
        | Some s \<Rightarrow> (case validate_signal_lifecycle s of Inl _ \<Rightarrow> None | Inr s' \<Rightarrow> Some s'))\<rparr>"

definition validate_item :: "memory_item \<Rightarrow> memory_item validated" where
  "validate_item item =
     (if item_errors item \<noteq> [] then Inl (item_errors item)
      else if mi_signal_state item \<noteq> None \<and> item_type_value item \<noteq> lit ''signal''
        then Inl [lit ''signal_state is only allowed on signal memories'']
      else Inr (normalize_item item))"

section \<open>What validation establishes\<close>

definition lifecycle_ok :: "signal_lifecycle \<Rightarrow> bool" where
  "lifecycle_ok s \<longleftrightarrow>
     pred_option is_aware (sl_changed_at s) \<and> pred_option is_aware (sl_deferred_until s)
     \<and> (sl_status s \<noteq> SS_open \<longrightarrow> sl_changed_at s \<noteq> None)
     \<and> (sl_deferred_until s \<noteq> None \<longleftrightarrow> sl_status s = SS_deferred)
     \<and> (sl_status s = SS_deferred \<longrightarrow>
           instant (the (sl_changed_at s)) < instant (the (sl_deferred_until s)))
     \<and> (sl_resolution_item_id s \<noteq> None \<longrightarrow>
           sl_status s = SS_resolved \<and> is_valid_memory_item_id (the (sl_resolution_item_id s)))
     \<and> (sl_reason s \<noteq> None \<longrightarrow>
           the (sl_reason s) \<noteq> [] \<and> length (the (sl_reason s)) \<le> 240
           \<and> list_all (\<lambda>c. 32 \<le> c) (the (sl_reason s))
           \<and> squeeze (the (sl_reason s)) = the (sl_reason s))"

lemma normalize_reason_Inr:
  assumes "normalize_reason r = Inr r'"
  shows "normalize_reason r' = Inr r'"
    and "pred_option (\<lambda>t. t \<noteq> [] \<and> length t \<le> 240 \<and> list_all (\<lambda>c. 32 \<le> c) t \<and> squeeze t = t) r'"
proof -
  have "r' = None \<or> (\<exists>v. r' = Some (squeeze v) \<and> length v \<le> 240 \<and> squeeze v \<noteq> []
      \<and> \<not> list_ex (\<lambda>c. c < 32) (squeeze v))"
    using assms by (auto simp: normalize_reason_def Let_def split: option.splits if_splits)
  then show "normalize_reason r' = Inr r'"
    "pred_option (\<lambda>t. t \<noteq> [] \<and> length t \<le> 240 \<and> list_all (\<lambda>c. 32 \<le> c) t \<and> squeeze t = t) r'"
    using length_squeeze le_trans
    by (fastforce simp: normalize_reason_def Let_def list_ex_iff list_all_iff not_less)+
qed

lemma validate_signal_lifecycle_Inr:
  assumes "validate_signal_lifecycle s = Inr s'"
  shows "\<exists>reason. normalize_reason (sl_reason s) = Inr reason
    \<and> resolution_errors (sl_resolution_item_id s) = []
    \<and> s' = s\<lparr>sl_changed_at := map_option aware (sl_changed_at s),
            sl_deferred_until := map_option aware (sl_deferred_until s), sl_reason := reason\<rparr>
    \<and> check_signal_lifecycle s' = None"
  using assms
  by (auto simp: validate_signal_lifecycle_def Let_def split: sum.splits option.splits if_splits)

lemma check_signal_lifecycle_None:
  "check_signal_lifecycle s = None \<longleftrightarrow>
     (sl_status s \<noteq> SS_open \<longrightarrow> sl_changed_at s \<noteq> None)
     \<and> (sl_deferred_until s \<noteq> None \<longleftrightarrow> sl_status s = SS_deferred)
     \<and> (sl_status s = SS_deferred \<longrightarrow>
           instant (the (sl_changed_at s)) < instant (the (sl_deferred_until s)))
     \<and> (sl_resolution_item_id s \<noteq> None \<longrightarrow> sl_status s = SS_resolved)"
  by (auto simp: check_signal_lifecycle_def split: if_splits)

lemma map_option_aware: "pred_option is_aware (map_option aware t)"
  "map_option aware (map_option aware t) = map_option aware t"
  by (cases t; simp)+

lemma validate_signal_lifecycle_sound:
  assumes "validate_signal_lifecycle s = Inr s'"
  shows "lifecycle_ok s' \<and> validate_signal_lifecycle s' = Inr s'"
proof -
  obtain reason where r: "normalize_reason (sl_reason s) = Inr reason"
    and id: "resolution_errors (sl_resolution_item_id s) = []"
    and s': "s' = s\<lparr>sl_changed_at := map_option aware (sl_changed_at s),
            sl_deferred_until := map_option aware (sl_deferred_until s), sl_reason := reason\<rparr>"
    and ok: "check_signal_lifecycle s' = None"
    using validate_signal_lifecycle_Inr [OF assms] by auto
  have "lifecycle_ok s'"
    using ok id normalize_reason_Inr(2) [OF r] unfolding check_signal_lifecycle_None lifecycle_ok_def
    by (auto simp: s' map_option_aware resolution_errors_def pred_option_def split: option.splits if_splits)
  moreover have "s'\<lparr>sl_changed_at := map_option aware (sl_changed_at s'),
      sl_deferred_until := map_option aware (sl_deferred_until s'), sl_reason := reason\<rparr> = s'"
    by (simp add: s' map_option_aware)
  then have "validate_signal_lifecycle s' = Inr s'"
    using ok id normalize_reason_Inr(1) [OF r]
    by (simp add: validate_signal_lifecycle_def Let_def) (simp add: s' map_option_aware)
  ultimately show ?thesis by simp
qed

lemma validate_signal_lifecycle_Inl: "validate_signal_lifecycle s = Inl es \<Longrightarrow> es \<noteq> []"
proof -
  have "normalize_reason r = Inl es \<Longrightarrow> es \<noteq> []" for r es
    by (auto simp: normalize_reason_def Let_def split: option.splits if_splits)
  then show "validate_signal_lifecycle s = Inl es \<Longrightarrow> es \<noteq> []"
    by (auto simp: validate_signal_lifecycle_def Let_def split: sum.splits option.splits if_splits)
qed

definition item_ok :: "memory_item \<Rightarrow> bool" where
  "item_ok item \<longleftrightarrow>
     is_valid_memory_item_id (mi_id item) \<and> 0 \<le> mi_confidence item \<and> mi_confidence item \<le> 1
     \<and> is_aware (mi_created_at item)
     \<and> pred_option is_aware (va_observed_at (mi_validity item))
     \<and> pred_option (\<lambda>s. mi_type item \<in> {Member MT_signal, Value MT_signal} \<and> lifecycle_ok s)
         (mi_signal_state item)"

text \<open>C38. A validated item satisfies the invariant of the schema (id pattern, confidence between 0
  and 1, times with an offset, a signal state only on signals and only a consistent one), and
  validating it again gives the same item.\<close>

theorem validated_items_are_sound:
  assumes "validate_item item = Inr item'"
  shows "item_ok item' \<and> validate_item item' = Inr item'"
proof -
  have errors: "item_errors item = []" and item': "item' = normalize_item item"
    and sig: "mi_signal_state item \<noteq> None \<Longrightarrow> item_type_value item = lit ''signal''"
    using assms by (auto simp: validate_item_def split: if_splits)
  have state: "mi_signal_state item' = None \<and> mi_signal_state item = None \<or>
      (\<exists>s s'. mi_signal_state item = Some s \<and> mi_signal_state item' = Some s'
        \<and> validate_signal_lifecycle s = Inr s')"
    using errors validate_signal_lifecycle_Inl
    by (auto simp: item' item_errors_def validated_errors_def normalize_item_def
        split: option.splits sum.splits)
  have id: "is_valid_memory_item_id (mi_id item')" "0 \<le> mi_confidence item'" "mi_confidence item' \<le> 1"
    using errors by (auto simp: item_errors_def item' normalize_item_def split: if_splits)
  have times: "is_aware (mi_created_at item')" "pred_option is_aware (va_observed_at (mi_validity item'))"
      "aware (mi_created_at item') = mi_created_at item'"
      "validate_validity (mi_validity item') = mi_validity item'"
    by (simp_all add: item' normalize_item_def validate_validity_def map_option_aware)
  have type: "mi_type item' = mi_type item" by (simp add: item' normalize_item_def)
  from state show ?thesis
  proof
    assume none: "mi_signal_state item' = None \<and> mi_signal_state item = None"
    then have "item_errors item' = []" using id by (simp add: item_errors_def)
    moreover have "normalize_item item' = item'" using times none by (simp add: normalize_item_def)
    ultimately show ?thesis using id times none by (simp add: item_ok_def validate_item_def)
  next
    assume "\<exists>s s'. mi_signal_state item = Some s \<and> mi_signal_state item' = Some s'
        \<and> validate_signal_lifecycle s = Inr s'"
    then obtain s s' where s: "mi_signal_state item = Some s" "mi_signal_state item' = Some s'"
        "validate_signal_lifecycle s = Inr s'" by blast
    note s' = validate_signal_lifecycle_sound [OF s(3)]
    have "item_errors item' = []" using id s s' by (simp add: item_errors_def validated_errors_def)
    moreover have "normalize_item item' = item'" using times s s' by (simp add: normalize_item_def)
    moreover have "item_type_value item' = lit ''signal''"
      using sig s type by (simp add: item_type_value_def)
    then have "mi_type item' \<in> {Member MT_signal, Value MT_signal}"
      using types.enum_value_eq [of "mi_type item'" MT_signal] by (simp add: item_type_value_def)
    ultimately show ?thesis
      using id times s s' \<open>item_type_value item' = lit ''signal''\<close>
      by (simp add: item_ok_def validate_item_def)
  qed
qed

text \<open>A concrete item: a public fact observed on 2026-06-11, at 03:00 UTC.\<close>

definition sample_item :: memory_item where
  "sample_item =
    \<lparr>mi_id = lit ''mem-20260611-030000-cdn'', mi_schema_version = lit ''1'', mi_type = Value MT_fact,
     mi_created_at = \<lparr>dt_wall = 1781146800000000, dt_offset = None\<rparr>,
     mi_agent = None, mi_session = None, mi_project = None, mi_tenant_id = None, mi_auth_context = None,
     mi_tags = [lit ''cdn''], mi_sensitivity = Value SE_public, mi_title = lit ''CDN host'',
     mi_summary = lit ''static files'',
     mi_refs = \<lparr>rf_files = [lit ''cdn.yaml''], rf_urls = [], rf_mems = [], rf_commits = [],
       rf_resources = [], rf_extractions = []\<rparr>,
     mi_confidence = 1 / 2,
     mi_retention = \<lparr>rt_last_accessed = None, rt_access_count = 0, rt_decay_class = Value DC_fact\<rparr>,
     mi_abstraction = Value AL_L0, mi_maturity = Value MA_raw,
     mi_context_views = \<lparr>vw_locator = lit ''static files'', vw_overview = [],
       vw_detail_uri = lit ''memory://items/mem-20260611-030000-cdn/body''\<rparr>,
     mi_source = \<lparr>so_kind = lit ''manual'', so_transcript_id = None, so_span_hash = None,
       so_extractor = None\<rparr>,
     mi_validity = \<lparr>va_observed_at = None, va_ttl_hours = None, va_cwd = None, va_repo = None,
       va_branch = None, va_os = None, va_adapter = None\<rparr>,
     mi_signal_state = None, mi_support_count = 0, mi_contradict_count = 0, mi_gain_score = 0,
     mi_evolved_from = [], mi_superseded_by = None, mi_version = 1\<rparr>"

text \<open>An hour later.\<close>

definition sample_now :: py_datetime where
  "sample_now = \<lparr>dt_wall = 1781150400000000, dt_offset = Some 0\<rparr>"

lemma sample_item_valid: "item_errors sample_item = []"
  by (simp add: item_errors_def sample_item_def is_valid_memory_item_id_def lit_def is_digit_def
      item_id_char_def is_space_def)

lemma validated_items_are_sound_witness: "item_ok (normalize_item sample_item)"
proof -
  have "mi_signal_state sample_item = None" by (simp add: sample_item_def)
  then have "validate_item sample_item = Inr (normalize_item sample_item)"
    by (simp add: validate_item_def sample_item_valid)
  then show ?thesis using validated_items_are_sound by blast
qed

end
