(* ===== verification/MemoryDraft.thy ===== *)
theory MemoryDraft imports MemoryItem begin

text \<open>
  The mapping a memory item is made from, before its fields are coerced: the validator
  \<open>MemoryItem._auto_fill_retention\<close> that fills in confidence, retention, maturity and context views,
  and the whole construction of an item. Values of the mapping are what a caller passes: texts,
  numbers, lists, dictionaries, enumeration members and instances of other models. \<open>str()\<close> of a
  value that is neither a text, an integer nor a member is the standard library's and a
  parameter, \<open>repr_of\<close>.
\<close>

section \<open>Values and mappings\<close>

datatype field_value =
    FNone
  | FBool bool
  | FInt int
  | FReal rat
  | FStr pystr
  | FList "field_value list"
  | FDict "(pystr \<times> field_value) list"
  | FEnum pystr pystr
  | FInstance pystr

type_synonym fields = "(pystr \<times> field_value) list"

fun field_truthy :: "field_value \<Rightarrow> bool" where
  "field_truthy FNone = False"
| "field_truthy (FBool b) = b"
| "field_truthy (FInt i) = (i \<noteq> 0)"
| "field_truthy (FReal x) = (x \<noteq> 0)"
| "field_truthy (FStr s) = (s \<noteq> [])"
| "field_truthy (FList xs) = (xs \<noteq> [])"
| "field_truthy (FDict d) = (d \<noteq> [])"
| "field_truthy (FEnum c v) = (v \<noteq> [])"
| "field_truthy (FInstance c) = True"

fun field_str :: "(field_value \<Rightarrow> pystr) \<Rightarrow> field_value \<Rightarrow> pystr" where
  "field_str repr_of (FStr s) = s"
| "field_str repr_of (FInt i) = int_str i"
| "field_str repr_of (FEnum c v) = c @ lit ''.'' @ v"
| "field_str repr_of v = repr_of v"

definition fget :: "fields \<Rightarrow> string \<Rightarrow> field_value \<Rightarrow> field_value" where
  "fget d k missing = (case map_of d (lit k) of None \<Rightarrow> missing | Some v \<Rightarrow> v)"

definition fset :: "fields \<Rightarrow> string \<Rightarrow> field_value \<Rightarrow> fields" where
  "fset d k v = AList.update (lit k) v d"

definition has_field :: "fields \<Rightarrow> string \<Rightarrow> bool" where
  "has_field d k \<longleftrightarrow> map_of d (lit k) \<noteq> None"

definition fdefault :: "fields \<Rightarrow> string \<Rightarrow> field_value \<Rightarrow> fields" where
  "fdefault d k v = (if has_field d k then d else fset d k v)"

definition fpop :: "fields \<Rightarrow> string \<Rightarrow> fields" where
  "fpop d k = AList.delete (lit k) d"

definition table_get :: "(pystr \<times> 'a) list \<Rightarrow> pystr \<Rightarrow> 'a \<Rightarrow> 'a" where
  "table_get t k missing = (case map_of t k of None \<Rightarrow> missing | Some v \<Rightarrow> v)"

lemma map_of_fset [simp]: "map_of (fset d k v) = (map_of d)(lit k \<mapsto> v)"
  by (simp add: fset_def update_conv')

lemma map_of_fpop [simp]: "map_of (fpop d k) = (map_of d)(lit k := None)"
  by (simp add: fpop_def delete_conv')

lemma fget_simps [simp]:
  "fget (fset d k v) k' m = (if k' = k then v else fget d k' m)"
  "fget (fpop d k) k' m = (if k' = k then m else fget d k' m)"
  "k' \<noteq> k \<Longrightarrow> fget (fdefault d k v) k' m = fget d k' m"
  by (simp_all add: fget_def fdefault_def)

lemma has_field_simps [simp]:
  "has_field (fset d k v) k' \<longleftrightarrow> k' = k \<or> has_field d k'"
  "has_field (fpop d k) k' \<longleftrightarrow> k' \<noteq> k \<and> has_field d k'"
  "has_field (fdefault d k v) k' \<longleftrightarrow> k' = k \<or> has_field d k'"
  by (auto simp: has_field_def fdefault_def)

lemma fdefault_same: "has_field d k \<Longrightarrow> fdefault d k v = d"
  by (simp add: fdefault_def)

lemma update_same: "map_of d k = Some v \<Longrightarrow> AList.update k v d = d"
  by (induction d) auto

lemma fset_same: "has_field d k \<Longrightarrow> fget d k m = v \<Longrightarrow> fset d k v = d"
  by (auto simp: has_field_def fget_def fset_def update_same)

lemma fpop_same: "\<not> has_field d k \<Longrightarrow> fpop d k = d"
  by (simp add: has_field_def fpop_def map_of_eq_None_iff delete_id)

section \<open>Filling in the mapping\<close>

definition abstraction_to_maturity :: "(pystr \<times> maturity) list" where
  "abstraction_to_maturity = [(lit ''L0'', MA_raw), (lit ''L1'', MA_consolidated), (lit ''L2'', MA_skill)]"

definition legacy_tier_to_maturity :: "(pystr \<times> maturity) list" where
  "legacy_tier_to_maturity =
    [(lit ''raw'', MA_raw), (lit ''consolidated'', MA_consolidated), (lit ''skill'', MA_skill)]"

definition decay_class_of_type :: "(field_value \<Rightarrow> pystr) \<Rightarrow> fields \<Rightarrow> pystr" where
  "decay_class_of_type repr_of data =
     (let mem_type = (case fget data ''type'' (FStr (lit ''fact'')) of
                        FEnum c v \<Rightarrow> if c = lit ''MemoryType'' then FStr v else FEnum c v
                      | v \<Rightarrow> v)
      in table_get type_to_decay_class (field_str repr_of mem_type) (lit ''fact''))"

definition fill_retention :: "(field_value \<Rightarrow> pystr) \<Rightarrow> fields \<Rightarrow> fields" where
  "fill_retention repr_of data =
     (if \<not> has_field data ''retention'' then
        fset data ''retention''
          (FDict [(lit ''decay_class'', FStr (decay_class_of_type repr_of data)),
                  (lit ''access_count'', FInt 0)])
      else case fget data ''retention'' FNone of
        FDict r \<Rightarrow>
          if lower (field_str repr_of (fget r ''decay_class'' (FStr []))) = lit ''durable''
          then fset data ''retention''
                 (FDict (fset r ''decay_class'' (FStr (decay_class_of_type repr_of data))))
          else data
      | _ \<Rightarrow> data)"

definition tier_text :: "(field_value \<Rightarrow> pystr) \<Rightarrow> field_value \<Rightarrow> pystr" where
  "tier_text repr_of tier = (if field_truthy tier then field_str repr_of tier else [])"

definition maturity_of_abstraction :: "(field_value \<Rightarrow> pystr) \<Rightarrow> fields \<Rightarrow> maturity" where
  "maturity_of_abstraction repr_of data =
     table_get abstraction_to_maturity
       (field_str repr_of (fget data ''abstraction'' (FEnum (lit ''AbstractionLayer'') (lit ''L0'')))) MA_raw"

definition fill_maturity :: "(field_value \<Rightarrow> pystr) \<Rightarrow> fields \<Rightarrow> fields" where
  "fill_maturity repr_of data =
     (let tier = fget data ''tier'' FNone; data = fpop data ''tier''
      in if has_field data ''maturity'' then data
         else fset data ''maturity'' (FStr (maturity_value
           (case map_of legacy_tier_to_maturity (tier_text repr_of tier) of
              Some m \<Rightarrow> m
            | None \<Rightarrow> maturity_of_abstraction repr_of data))))"

definition fill_views :: "(field_value \<Rightarrow> pystr) \<Rightarrow> fields \<Rightarrow> fields" where
  "fill_views repr_of data =
     (let given = fget data ''context_views'' FNone
      in case if field_truthy given then given else FDict [] of
           FDict v \<Rightarrow>
             let v1 = fdefault v ''locator'' (fget data ''summary'' (FStr []));
                 v2 = fdefault v1 ''overview'' (FStr []);
                 item_id = fget data ''id'' FNone;
                 v3 = (if field_truthy item_id
                       then fdefault v2 ''detail_uri''
                              (FStr (lit ''memory://items/'' @ field_str repr_of item_id @ lit ''/body''))
                       else v2)
             in fset data ''context_views'' (FDict v3)
         | _ \<Rightarrow> data)"

definition auto_fill :: "(field_value \<Rightarrow> pystr) \<Rightarrow> fields \<Rightarrow> fields" where
  "auto_fill repr_of data =
     fill_views repr_of (fill_maturity repr_of (fill_retention repr_of
       (fdefault data ''confidence'' (FReal (fl64 (7 / 10))))))"

text \<open>
  Making an item: the mapping is filled in, its fields are coerced to their types by the
  validation library, and the repository's validators run on the result.
\<close>

definition make_item ::
  "(field_value \<Rightarrow> pystr) \<Rightarrow> (fields \<Rightarrow> memory_item validated) \<Rightarrow> fields \<Rightarrow> memory_item validated" where
  "make_item repr_of coerce data =
     (case coerce (auto_fill repr_of data) of Inl es \<Rightarrow> Inl es | Inr item \<Rightarrow> validate_item item)"

section \<open>What the filled mapping holds\<close>

text \<open>A step writes the fields it is about and leaves the others alone.\<close>

lemma fill_retention_other [simp]:
  assumes "k \<noteq> ''retention''"
  shows "fget (fill_retention repr_of d) k m = fget d k m"
    and "has_field (fill_retention repr_of d) k \<longleftrightarrow> has_field d k"
  using assms by (auto simp: fill_retention_def split: field_value.splits)

lemma fill_maturity_other [simp]:
  assumes "k \<noteq> ''maturity''" "k \<noteq> ''tier''"
  shows "fget (fill_maturity repr_of d) k m = fget d k m"
    and "has_field (fill_maturity repr_of d) k \<longleftrightarrow> has_field d k"
  using assms by (auto simp: fill_maturity_def Let_def)

lemma fill_views_other [simp]:
  assumes "k \<noteq> ''context_views''"
  shows "fget (fill_views repr_of d) k m = fget d k m"
    and "has_field (fill_views repr_of d) k \<longleftrightarrow> has_field d k"
  using assms by (auto simp: fill_views_def Let_def split: field_value.splits)

lemma decay_class_values:
  "decay_class_of_type repr_of d \<in> {lit ''fact'', lit ''episode'', lit ''decision'', lit ''architecture'', lit ''ephemeral''}"
proof -
  have "table_get type_to_decay_class t (lit ''fact'')
      \<in> {lit ''fact'', lit ''episode'', lit ''decision'', lit ''architecture'', lit ''ephemeral''}" for t
    by (simp add: table_get_def type_to_decay_class_def)
  then show ?thesis unfolding decay_class_of_type_def Let_def .
qed

lemma decay_class_not_durable: "lower (decay_class_of_type repr_of d) \<noteq> lit ''durable''"
  using decay_class_values [of repr_of d]
  by (auto simp: lower_def lower_char_def lit_def)

text \<open>The fields are complete: nothing is left for a step to fill in.\<close>

definition retention_full :: "(field_value \<Rightarrow> pystr) \<Rightarrow> fields \<Rightarrow> bool" where
  "retention_full repr_of d \<longleftrightarrow> has_field d ''retention''
     \<and> (\<forall>r. fget d ''retention'' FNone = FDict r \<longrightarrow>
          lower (field_str repr_of (fget r ''decay_class'' (FStr []))) \<noteq> lit ''durable'')"

definition maturity_full :: "fields \<Rightarrow> bool" where
  "maturity_full d \<longleftrightarrow> has_field d ''maturity'' \<and> \<not> has_field d ''tier''"

definition views_full :: "fields \<Rightarrow> bool" where
  "views_full d \<longleftrightarrow> field_truthy (fget d ''context_views'' FNone)
     \<and> (\<forall>v. fget d ''context_views'' FNone = FDict v \<longrightarrow>
          has_field v ''locator'' \<and> has_field v ''overview''
          \<and> (field_truthy (fget d ''id'' FNone) \<longrightarrow> has_field v ''detail_uri''))"

lemma fill_retention_full: "retention_full repr_of (fill_retention repr_of d)"
  using decay_class_not_durable [of repr_of d]
  by (auto simp: retention_full_def fill_retention_def fget_def [of "_ # _"] lit_inject
      split: field_value.splits)

lemma fill_retention_same: "retention_full repr_of d \<Longrightarrow> fill_retention repr_of d = d"
  by (auto simp: retention_full_def fill_retention_def split: field_value.splits)

lemma fill_maturity_full: "maturity_full (fill_maturity repr_of d)"
  by (simp add: maturity_full_def fill_maturity_def Let_def)

lemma fill_maturity_same: "maturity_full d \<Longrightarrow> fill_maturity repr_of d = d"
  by (simp add: maturity_full_def fill_maturity_def fpop_same)

lemma has_field_not_Nil: "has_field d k \<Longrightarrow> d \<noteq> []"
  by (auto simp: has_field_def)

lemma fill_views_full: "views_full (fill_views repr_of d)"
  by (auto simp: views_full_def fill_views_def Let_def fdefault_same
      intro!: has_field_not_Nil [where k = "''overview''"] split: field_value.splits)

lemma has_field_fget: "fget d k FNone = FDict v \<Longrightarrow> has_field d k"
  by (auto simp: fget_def has_field_def split: option.splits)

lemma fill_views_same: "views_full d \<Longrightarrow> fill_views repr_of d = d"
  by (auto simp: views_full_def fill_views_def Let_def fdefault_same fset_same has_field_fget
      split: field_value.splits)

text \<open>Filling in is idempotent: a mapping that was filled in once is left as it is.\<close>

theorem auto_fill_idempotent: "auto_fill repr_of (auto_fill repr_of data) = auto_fill repr_of data"
proof -
  let ?d = "auto_fill repr_of data"
  have confidence: "fdefault ?d ''confidence'' v = ?d" for v
    by (simp add: auto_fill_def fdefault_same)
  have "retention_full repr_of ?d"
    using fill_retention_full [of repr_of] by (simp add: retention_full_def auto_fill_def)
  moreover have "maturity_full ?d"
    using fill_maturity_full by (simp add: maturity_full_def auto_fill_def)
  moreover have "views_full ?d" by (simp add: auto_fill_def fill_views_full)
  ultimately show ?thesis
    unfolding auto_fill_def [of repr_of ?d]
    by (simp add: confidence fill_retention_same fill_maturity_same fill_views_same)
qed

text \<open>Maturity of a filled mapping: what the mapping says, else its legacy tier, else the level
  of its abstraction where that is given as a text. An abstraction given as a member of the
  enumeration never counts: the item becomes raw whatever its level.\<close>

theorem maturity_filled:
  "fget (auto_fill repr_of data) ''maturity'' FNone =
     (if has_field data ''maturity'' then fget data ''maturity'' FNone
      else FStr (maturity_value
        (case map_of legacy_tier_to_maturity (tier_text repr_of (fget data ''tier'' FNone)) of
           Some m \<Rightarrow> m
         | None \<Rightarrow>
             (case fget data ''abstraction'' (FEnum (lit ''AbstractionLayer'') (lit ''L0'')) of
                FEnum c v \<Rightarrow> MA_raw
              | a \<Rightarrow> table_get abstraction_to_maturity (field_str repr_of a) MA_raw))))"
proof -
  have dot: "46 \<in> set (c @ lit ''.'' @ v)" for c v by (simp add: lit_def)
  have dot_free: "46 \<notin> set (lit ''L0'')" "46 \<notin> set (lit ''L1'')" "46 \<notin> set (lit ''L2'')"
    by (simp_all add: lit_def)
  have "c @ lit ''.'' @ v \<notin> {lit ''L0'', lit ''L1'', lit ''L2''}" for c v
    using dot [of c v] by (metis (full_types) insertE emptyE dot_free)
  then have member: "table_get abstraction_to_maturity (c @ lit ''.'' @ v) MA_raw = MA_raw" for c v
    by (auto simp: table_get_def abstraction_to_maturity_def)
  show ?thesis
    by (auto simp: auto_fill_def fill_maturity_def Let_def maturity_of_abstraction_def member
        split: field_value.splits option.splits)
qed

end
