(* ===== verification/SignalState.thy ===== *)
theory SignalState imports MemoryItem begin

text \<open>
  \<open>memory/governance/signal_state.py\<close>: the lifecycle state of a signal memory, derived from its
  tags, its text and its explicit state, together with the contradictions found in them. Chinese
  closing phrases are lists of code points.
\<close>

section \<open>Tags and phrases\<close>

definition active_signal_tags :: "pystr list" where
  "active_signal_tags = [
     lit ''blocked'', lit ''in-progress'', lit ''in_progress'', lit ''needs-action'',
     lit ''open'', lit ''pending'', lit ''signal-open'', lit ''waiting'']"

definition resolved_signal_tags :: "pystr list" where
  "resolved_signal_tags = [
     lit ''closed'', lit ''completed'', lit ''done'', lit ''resolved'', lit ''signal-resolved'']"

definition obsolete_signal_tags :: "pystr list" where
  "obsolete_signal_tags = [lit ''obsolete'', lit ''signal-obsolete'']"

definition deferred_signal_tags :: "pystr list" where
  "deferred_signal_tags = [lit ''deferred'', lit ''signal-deferred'']"

definition lifecycle_signal_tags :: "pystr list" where
  "lifecycle_signal_tags =
     active_signal_tags @ resolved_signal_tags @ obsolete_signal_tags @ deferred_signal_tags"

definition closure_words :: "pystr list" where
  "closure_words = [
     lit ''closed'', lit ''completed'', lit ''done'', lit ''fixed'', lit ''obsolete'',
     lit ''resolved'']"

definition closure_phrases :: "pystr list" where
  "closure_phrases = [
     [19981, 20877, 36866, 29992], [20462, 22797, 23436, 25104],
     [38382, 39064, 24050, 35299, 20915], [24050, 19978, 32447], [24050, 20851, 38381],
     [24050, 23436, 25104], [24050, 25509, 36890], [24050, 35299, 20915],
     [24050, 20462, 22797], [38459, 22622, 24050, 35299, 38500]]"

definition closure_match :: "pystr \<Rightarrow> bool" where
  "closure_match text \<longleftrightarrow> has_word closure_words text \<or> contains_any text closure_phrases"

section \<open>Assessment\<close>

datatype signal_state = SA_open | SA_resolved | SA_obsolete | SA_deferred | SA_ambiguous

fun signal_state_value :: "signal_state \<Rightarrow> pystr" where
  "signal_state_value SA_open = lit ''open''"
| "signal_state_value SA_resolved = lit ''resolved''"
| "signal_state_value SA_obsolete = lit ''obsolete''"
| "signal_state_value SA_deferred = lit ''deferred''"
| "signal_state_value SA_ambiguous = lit ''ambiguous''"

fun state_of_status :: "signal_status \<Rightarrow> signal_state" where
  "state_of_status SS_open = SA_open"
| "state_of_status SS_resolved = SA_resolved"
| "state_of_status SS_obsolete = SA_obsolete"
| "state_of_status SS_deferred = SA_deferred"

record signal_assessment =
  as_state :: signal_state
  as_issues :: "string list"

definition assessment_consistent :: "signal_assessment \<Rightarrow> bool" where
  "assessment_consistent a \<longleftrightarrow> as_issues a = []"

text \<open>\<open>tag.strip().casefold()\<close> of the tags that are not blank, and whether one is in a group.\<close>

definition signal_tags :: "memory_item \<Rightarrow> pystr list" where
  "signal_tags item = map (\<lambda>t. casefold (strip t)) (filter (\<lambda>t. strip t \<noteq> []) (mi_tags item))"

definition tagged :: "memory_item \<Rightarrow> pystr list \<Rightarrow> bool" where
  "tagged item tags \<longleftrightarrow> list_ex (\<lambda>t. t \<in> set tags) (signal_tags item)"

definition closure_text :: "memory_item \<Rightarrow> bool" where
  "closure_text item \<longleftrightarrow> closure_match (casefold (mi_title item @ [10] @ mi_summary item))"

definition issue :: "bool \<Rightarrow> string \<Rightarrow> string list" where
  "issue found name = (if found then [name] else [])"

definition tag_issues :: "memory_item \<Rightarrow> string list" where
  "tag_issues item =
     (let active = tagged item active_signal_tags; resolved = tagged item resolved_signal_tags;
          obsolete = tagged item obsolete_signal_tags; deferred = tagged item deferred_signal_tags;
          implicit = mi_signal_state item = None
      in issue (active \<and> (resolved \<or> obsolete)) ''terminal_and_active_tags''
         @ issue (1 < of_bool resolved + of_bool obsolete + (of_bool deferred :: int))
             ''multiple_terminal_state_tags''
         @ issue (active \<and> closure_text item \<and> implicit) ''closure_text_with_active_tags''
         @ issue (closure_text item \<and> \<not> (resolved \<or> obsolete) \<and> implicit)
             ''closure_text_without_terminal_tag'')"

definition explicit_issues :: "memory_item \<Rightarrow> signal_status \<Rightarrow> string list" where
  "explicit_issues item status =
     (let active = tagged item active_signal_tags; resolved = tagged item resolved_signal_tags;
          obsolete = tagged item obsolete_signal_tags; deferred = tagged item deferred_signal_tags
      in (if status = SS_open \<and> (resolved \<or> obsolete \<or> deferred)
            then [''explicit_open_with_non_open_tags'']
          else if status = SS_resolved \<and> \<not> resolved
            then [''explicit_resolved_without_resolved_tag'']
          else if status = SS_obsolete \<and> \<not> obsolete
            then [''explicit_obsolete_without_obsolete_tag'']
          else if status = SS_deferred \<and> \<not> deferred
            then [''explicit_deferred_without_deferred_tag'']
          else [])
         @ (if status = SS_resolved \<and> (active \<or> obsolete \<or> deferred)
              then [''explicit_resolved_with_conflicting_tags'']
            else if status = SS_obsolete \<and> (active \<or> resolved \<or> deferred)
              then [''explicit_obsolete_with_conflicting_tags'']
            else if status = SS_deferred \<and> (resolved \<or> obsolete)
              then [''explicit_deferred_with_terminal_tags'']
            else []))"

text \<open>\<open>now\<close> is the time the caller passes, or the time of the call.\<close>

definition deferral_expired :: "signal_lifecycle \<Rightarrow> py_datetime \<Rightarrow> bool" where
  "deferral_expired s now \<longleftrightarrow> sl_status s = SS_deferred
     \<and> (case sl_deferred_until s of None \<Rightarrow> False | Some d \<Rightarrow> instant d \<le> instant now)"

definition assess_signal_state :: "memory_item \<Rightarrow> py_datetime \<Rightarrow> signal_assessment" where
  "assess_signal_state item now =
     (if item_type_value item \<noteq> lit ''signal''
         \<or> (mi_superseded_by item \<noteq> None \<and> mi_superseded_by item \<noteq> Some [])
      then \<lparr>as_state = SA_open, as_issues = []\<rparr>
      else case mi_signal_state item of
        Some s \<Rightarrow>
          (let issues = tag_issues item @ explicit_issues item (sl_status s)
           in if deferral_expired s now
              then \<lparr>as_state = SA_open, as_issues = dedup (issues @ [''expired_deferral''])\<rparr>
              else if issues \<noteq> [] then \<lparr>as_state = SA_ambiguous, as_issues = dedup issues\<rparr>
              else \<lparr>as_state = state_of_status (sl_status s), as_issues = []\<rparr>)
      | None \<Rightarrow>
          (let issues = tag_issues item
                 @ issue (tagged item deferred_signal_tags) ''deferred_without_explicit_deadline''
           in \<lparr>as_state = (if issues \<noteq> [] then SA_ambiguous
                else if tagged item resolved_signal_tags then SA_resolved
                else if tagged item obsolete_signal_tags then SA_obsolete
                else SA_open),
               as_issues = issues\<rparr>))"

section \<open>Properties\<close>

lemma explicit_issues_Nil:
  "explicit_issues item status = [] \<longleftrightarrow>
     (case status of
        SS_open \<Rightarrow> \<not> tagged item resolved_signal_tags \<and> \<not> tagged item obsolete_signal_tags
                   \<and> \<not> tagged item deferred_signal_tags
      | SS_resolved \<Rightarrow> tagged item resolved_signal_tags \<and> \<not> tagged item active_signal_tags
                   \<and> \<not> tagged item obsolete_signal_tags \<and> \<not> tagged item deferred_signal_tags
      | SS_obsolete \<Rightarrow> tagged item obsolete_signal_tags \<and> \<not> tagged item active_signal_tags
                   \<and> \<not> tagged item resolved_signal_tags \<and> \<not> tagged item deferred_signal_tags
      | SS_deferred \<Rightarrow> tagged item deferred_signal_tags \<and> \<not> tagged item resolved_signal_tags
                   \<and> \<not> tagged item obsolete_signal_tags)"
  by (cases status) (auto simp: explicit_issues_def Let_def)

lemma tag_issues_explicit_Nil:
  "mi_signal_state item \<noteq> None \<Longrightarrow> tag_issues item = [] \<longleftrightarrow>
     \<not> (tagged item active_signal_tags \<and> (tagged item resolved_signal_tags \<or> tagged item obsolete_signal_tags))
     \<and> \<not> (tagged item resolved_signal_tags \<and> tagged item obsolete_signal_tags)
     \<and> \<not> (tagged item resolved_signal_tags \<and> tagged item deferred_signal_tags)
     \<and> \<not> (tagged item obsolete_signal_tags \<and> tagged item deferred_signal_tags)"
  by (auto simp: tag_issues_def Let_def issue_def of_bool_def)

text \<open>Which groups of tags agree with a state.\<close>

definition tags_say :: "memory_item \<Rightarrow> signal_state \<Rightarrow> bool" where
  "tags_say item state =
     (case state of
        SA_open \<Rightarrow> \<not> tagged item resolved_signal_tags \<and> \<not> tagged item obsolete_signal_tags
                   \<and> \<not> tagged item deferred_signal_tags
      | SA_resolved \<Rightarrow> tagged item resolved_signal_tags \<and> \<not> tagged item active_signal_tags
                   \<and> \<not> tagged item obsolete_signal_tags \<and> \<not> tagged item deferred_signal_tags
      | SA_obsolete \<Rightarrow> tagged item obsolete_signal_tags \<and> \<not> tagged item active_signal_tags
                   \<and> \<not> tagged item resolved_signal_tags \<and> \<not> tagged item deferred_signal_tags
      | SA_deferred \<Rightarrow> tagged item deferred_signal_tags \<and> \<not> tagged item resolved_signal_tags
                   \<and> \<not> tagged item obsolete_signal_tags
      | SA_ambiguous \<Rightarrow> False)"

definition unsuperseded_signal :: "memory_item \<Rightarrow> bool" where
  "unsuperseded_signal item \<longleftrightarrow> item_type_value item = lit ''signal''
     \<and> (mi_superseded_by item = None \<or> mi_superseded_by item = Some [])"

lemma explicit_agrees:
  assumes "mi_signal_state item \<noteq> None" and "status \<noteq> SS_open"
  shows "tag_issues item = [] \<and> explicit_issues item status = [] \<longleftrightarrow>
    tags_say item (state_of_status status)"
  using assms(2) unfolding tag_issues_explicit_Nil [OF assms(1)] explicit_issues_Nil tags_say_def
  by (cases status) auto

lemma assess_explicit:
  assumes "unsuperseded_signal item" and "mi_signal_state item = Some s"
  shows "as_state (assess_signal_state item now) =
    (if deferral_expired s now then SA_open
     else if tag_issues item = [] \<and> explicit_issues item (sl_status s) = []
       then state_of_status (sl_status s) else SA_ambiguous)"
  using assms by (auto simp: assess_signal_state_def unsuperseded_signal_def Let_def)

lemma assess_implicit:
  assumes "unsuperseded_signal item" and "mi_signal_state item = None"
  shows "as_state (assess_signal_state item now) =
    (if tag_issues item \<noteq> [] \<or> tagged item deferred_signal_tags then SA_ambiguous
     else if tagged item resolved_signal_tags then SA_resolved
     else if tagged item obsolete_signal_tags then SA_obsolete
     else SA_open)"
  using assms by (auto simp: assess_signal_state_def unsuperseded_signal_def Let_def issue_def)

lemma tag_issues_implicit_Nil:
  assumes "mi_signal_state item = None" and "\<not> tagged item deferred_signal_tags"
    and "tagged item resolved_signal_tags \<or> tagged item obsolete_signal_tags"
  shows "tag_issues item = [] \<longleftrightarrow> \<not> tagged item active_signal_tags
     \<and> \<not> (tagged item resolved_signal_tags \<and> tagged item obsolete_signal_tags)"
  using assms by (auto simp: tag_issues_def Let_def issue_def)

text \<open>A live signal is taken as closed (resolved, obsolete or deferred) exactly when its tags
  say so and nothing else, and an explicit state, when there is one, says the same, a deferral
  only before its deadline; without an explicit state a signal is never deferred, and its text
  must not announce a closure its tags do not carry.\<close>

theorem signal_closed_iff:
  assumes "unsuperseded_signal item" and "state \<in> {SA_resolved, SA_obsolete, SA_deferred}"
  shows "as_state (assess_signal_state item now) = state \<longleftrightarrow>
    tags_say item state
    \<and> (case mi_signal_state item of
          None \<Rightarrow> state \<noteq> SA_deferred
        | Some s \<Rightarrow> state_of_status (sl_status s) = state \<and> \<not> deferral_expired s now)"
proof (cases "mi_signal_state item")
  case None
  then show ?thesis
    using assms(2) tag_issues_implicit_Nil [OF None]
    unfolding assess_implicit [OF assms(1) None] tags_say_def by auto
next
  case (Some s)
  have status: "state_of_status (sl_status s) = state \<Longrightarrow> sl_status s \<noteq> SS_open"
    using assms(2) by auto
  show ?thesis
    using assms(2) status explicit_agrees [of item "sl_status s"] Some
    unfolding assess_explicit [OF assms(1) Some] by auto
qed

definition sample_signal :: memory_item where
  "sample_signal = sample_item\<lparr>mi_type := Value MT_signal, mi_tags := [lit ''Done '']\<rparr>"

lemma sample_signal_tags: "signal_tags sample_signal = [lit ''done'']"
  by (simp add: signal_tags_def sample_signal_def casefold_def casefold_char_def lower_char_def
      strip_def lstrip_def rstrip_by_def is_space_def lit_def)

lemma signal_closed_iff_witness: "as_state (assess_signal_state sample_signal sample_now) = SA_resolved"
proof -
  have "unsuperseded_signal sample_signal"
    by (simp add: unsuperseded_signal_def item_type_value_def sample_signal_def sample_item_def)
  moreover have "tags_say sample_signal SA_resolved"
    by (simp add: tags_say_def tagged_def sample_signal_tags resolved_signal_tags_def
        active_signal_tags_def obsolete_signal_tags_def deferred_signal_tags_def)
  moreover have "mi_signal_state sample_signal = None"
    by (simp add: sample_signal_def sample_item_def)
  ultimately show ?thesis
    using signal_closed_iff [of sample_signal SA_resolved sample_now] by simp
qed

end
