(* ===== verification/TemporalState.thy ===== *)
theory TemporalState imports MemoryItem begin

text \<open>
  \<open>memory/governance/temporal_state.py\<close>: whether an item is an observation of a runtime state, and
  whether that observation is still current: its scope must match the current one and its age in
  whole days must not exceed the time to live of its category.
\<close>

section \<open>Types and terms\<close>

datatype temporal_category = TC_stable | TC_current | TC_negative | TC_positive
datatype temporal_status = TS_current | TS_stale | TS_scope_mismatch

fun category_value :: "temporal_category \<Rightarrow> string" where
  "category_value TC_stable = ''stable''"
| "category_value TC_current = ''current_state''"
| "category_value TC_negative = ''negative_state''"
| "category_value TC_positive = ''positive_state''"

record temporal_config =
  tg_negative_ttl_days :: int
  tg_positive_ttl_days :: int
  tg_current_ttl_days :: int

definition default_temporal_config :: temporal_config where
  "default_temporal_config =
     \<lparr>tg_negative_ttl_days = 2, tg_positive_ttl_days = 2, tg_current_ttl_days = 2\<rparr>"

record temporal_signal =
  ts_category :: temporal_category
  ts_status :: temporal_status
  ts_reasons :: "pystr list"
  ts_age_days :: int
  ts_ttl_days :: "int option"

definition strong_state_tags :: "pystr list" where
  "strong_state_tags = [
     lit ''state'', lit ''current-state'', lit ''runtime'', lit ''permission'',
     lit ''verification'', lit ''status'']"

definition weak_state_tags :: "pystr list" where
  "weak_state_tags = [
     lit ''test'', lit ''build'', lit ''release'', lit ''install'', lit ''browser'']"

definition state_terms :: "pystr list" where
  "state_terms = [
     [24403, 21069], [29366, 24577], [26435, 38480], [27983, 35272, 22120], [27979, 35797],
     [39564, 35777], [26500, 24314], [23433, 35013], [21457, 24067], lit ''current'',
     lit ''status'', lit ''runtime'', lit ''browser'', lit ''permission'', lit ''test passed'',
     lit ''tests passed'', lit ''test failed'', lit ''tests failed'', lit ''pytest'',
     lit ''build'', lit ''install'', lit ''release'']"

definition negative_terms :: "pystr list" where
  "negative_terms = [
     [22833, 36133], [21463, 38480], [19981, 21487, 29992], [26080, 26435, 38480],
     [25253, 38169], [26080, 27861], [19981, 33021], lit ''operation not permitted'',
     lit ''not permitted'', lit ''permission denied'', lit ''failed'', lit ''blocked'',
     lit ''unavailable'', lit ''error'']"

definition positive_terms :: "pystr list" where
  "positive_terms = [
     [36890, 36807], [25104, 21151], [21487, 29992], [24050, 20462, 22797], [24674, 22797],
     lit ''passed'', lit ''available'', lit ''fixed'', lit ''restored'', lit ''success'']"

definition scope_fields :: "pystr list" where
  "scope_fields = [
     lit ''cwd'', lit ''repo'', lit ''branch'', lit ''os'', lit ''adapter'']"

section \<open>Scope\<close>

text \<open>
  \<open>getattr(validity, field)\<close> for a scope field, and a scope as the mapping the caller passes. Here
  an empty text on either side is no statement about the scope.
\<close>

definition validity_field :: "validity \<Rightarrow> pystr \<Rightarrow> pystr option" where
  "validity_field v field =
     (if field = lit ''cwd'' then va_cwd v else if field = lit ''repo'' then va_repo v
      else if field = lit ''branch'' then va_branch v else if field = lit ''os'' then va_os v
      else if field = lit ''adapter'' then va_adapter v else None)"

type_synonym scope = "(pystr \<times> pystr) list"

definition given_text :: "pystr option \<Rightarrow> bool" where
  "given_text t \<longleftrightarrow> t \<noteq> None \<and> t \<noteq> Some []"

definition scope_field_differs :: "memory_item \<Rightarrow> scope \<Rightarrow> pystr \<Rightarrow> bool" where
  "scope_field_differs item scope field \<longleftrightarrow>
     given_text (validity_field (mi_validity item) field) \<and> given_text (map_of scope field)
     \<and> validity_field (mi_validity item) field \<noteq> map_of scope field"

definition temporal_scope_mismatches :: "memory_item \<Rightarrow> scope option \<Rightarrow> pystr list" where
  "temporal_scope_mismatches item scope =
     (case scope of None \<Rightarrow> [] | Some s \<Rightarrow> filter (scope_field_differs item s) scope_fields)"

section \<open>Classification\<close>

definition haystack :: "memory_item \<Rightarrow> pystr \<Rightarrow> pystr" where
  "haystack item body =
     lower (join [32] [mi_title item, mi_summary item, join [32] (mi_tags item), body])"

definition lowered_tags :: "memory_item \<Rightarrow> pystr list" where
  "lowered_tags item = map lower (mi_tags item)"

definition any_tag :: "memory_item \<Rightarrow> pystr list \<Rightarrow> bool" where
  "any_tag item tags \<longleftrightarrow> list_ex (\<lambda>t. t \<in> set tags) (lowered_tags item)"

definition classify :: "memory_item \<Rightarrow> pystr \<Rightarrow> temporal_category \<times> pystr list" where
  "classify item body =
     (if item_type_str item = lit ''artifact'' then (TC_stable, [])
      else
        let text = haystack item body;
            strong = any_tag item strong_state_tags; weak = any_tag item weak_state_tags;
            state_term = contains_any text state_terms;
            negative = contains_any text negative_terms; positive = contains_any text positive_terms;
            is_signal = item_type_str item = lit ''signal'';
            anchor = strong \<or> is_signal \<or> (weak \<and> (negative \<or> positive));
            reasons =
              (if strong \<or> (weak \<and> anchor) then [lit ''state_tag''] else [])
              @ (if state_term then [lit ''state_term''] else [])
              @ (if is_signal then [lit ''signal_type''] else [])
        in if negative \<and> anchor then (TC_negative, reasons @ [lit ''negative_state_term''])
           else if positive \<and> anchor then (TC_positive, reasons @ [lit ''positive_state_term''])
           else if strong \<or> is_signal then (TC_current, reasons)
           else (TC_stable, []))"

fun temporal_ttl_days :: "temporal_category \<Rightarrow> temporal_config \<Rightarrow> int option" where
  "temporal_ttl_days TC_negative c = Some (tg_negative_ttl_days c)"
| "temporal_ttl_days TC_positive c = Some (tg_positive_ttl_days c)"
| "temporal_ttl_days TC_current c = Some (tg_current_ttl_days c)"
| "temporal_ttl_days TC_stable c = None"

text \<open>\<open>(now - created_at).days\<close> of aware times, not below zero.\<close>

definition age_days :: "py_datetime \<Rightarrow> py_datetime \<Rightarrow> int" where
  "age_days created_at now = max 0 ((instant (aware now) - instant (aware created_at)) div us_per_day)"

definition temporal_evaluate ::
  "temporal_config \<Rightarrow> py_datetime \<Rightarrow> memory_item \<Rightarrow> pystr \<Rightarrow> scope option \<Rightarrow> temporal_signal" where
  "temporal_evaluate config now item body scope =
     (let age = age_days (mi_created_at item) now;
          (category, reasons) = classify item body;
          ttl = temporal_ttl_days category config;
          mismatches = (if category \<noteq> TC_stable then temporal_scope_mismatches item scope else [])
      in if mismatches \<noteq> [] then
           \<lparr>ts_category = category, ts_status = TS_scope_mismatch,
            ts_reasons = reasons @ map (\<lambda>f. lit ''scope_mismatch:'' @ f) mismatches,
            ts_age_days = age, ts_ttl_days = ttl\<rparr>
         else if ttl \<noteq> None \<and> the ttl < age then
           \<lparr>ts_category = category, ts_status = TS_stale,
            ts_reasons = reasons @ [lit (category_value category) @ lit ''_ttl_expired''],
            ts_age_days = age, ts_ttl_days = ttl\<rparr>
         else
           \<lparr>ts_category = category, ts_status = TS_current, ts_reasons = reasons,
            ts_age_days = age, ts_ttl_days = ttl\<rparr>)"

section \<open>Properties\<close>

lemma temporal_category: "ts_category (temporal_evaluate c now item body scope) = fst (classify item body)"
  by (simp add: temporal_evaluate_def Let_def split: prod.splits)

lemma temporal_status:
  "ts_status (temporal_evaluate c now item body scope) =
     (if fst (classify item body) \<noteq> TC_stable \<and> temporal_scope_mismatches item scope \<noteq> []
        then TS_scope_mismatch
      else if fst (classify item body) \<noteq> TC_stable
          \<and> the (temporal_ttl_days (fst (classify item body)) c) < age_days (mi_created_at item) now
        then TS_stale else TS_current)"
proof -
  obtain category reasons where c: "classify item body = (category, reasons)" by force
  show ?thesis by (cases category) (simp_all add: temporal_evaluate_def Let_def c)
qed

text \<open>The age in whole days exceeds a limit exactly when the age reaches the next day.\<close>

lemma age_days_exceeds:
  assumes "0 \<le> ttl"
  shows "ttl < age_days created now \<longleftrightarrow> (ttl + 1) * us_per_day \<le> instant now - instant created"
proof -
  have day: "0 < us_per_day" by (simp add: us_per_day_def us_per_second_def)
  have "ttl < x div us_per_day \<longleftrightarrow> (ttl + 1) * us_per_day \<le> x" for x
  proof
    assume "ttl < x div us_per_day"
    then have "(ttl + 1) * us_per_day \<le> x div us_per_day * us_per_day"
      using day by (intro mult_right_mono) auto
    also have "\<dots> \<le> x" using day by (simp add: minus_mod_eq_div_mult [symmetric])
    finally show "(ttl + 1) * us_per_day \<le> x" .
  next
    assume "(ttl + 1) * us_per_day \<le> x"
    then have "(ttl + 1) * us_per_day div us_per_day \<le> x div us_per_day"
      using day by (intro zdiv_mono1)
    then show "ttl < x div us_per_day" using day by simp
  qed
  then show ?thesis using assms by (simp add: age_days_def less_max_iff_disj not_less)
qed

lemma temporal_ttl_Some: "c \<noteq> TC_stable \<Longrightarrow> \<exists>ttl. temporal_ttl_days c config = Some ttl"
  by (cases c) auto

text \<open>An observation counts as current exactly when it is no state observation, or when no scope
  field given on both sides differs and fewer than \<open>ttl + 1\<close> full days have passed since the item
  was created: a time to live of two days lets an observation live for three.\<close>

theorem observation_current_iff:
  assumes "\<And>ttl. temporal_ttl_days (fst (classify item body)) config = Some ttl \<Longrightarrow> 0 \<le> ttl"
  shows "ts_status (temporal_evaluate config now item body scope) = TS_current \<longleftrightarrow>
    fst (classify item body) = TC_stable
    \<or> temporal_scope_mismatches item scope = []
      \<and> instant now - instant (mi_created_at item)
          < (the (temporal_ttl_days (fst (classify item body)) config) + 1) * us_per_day"
proof (cases "fst (classify item body) = TC_stable")
  case False
  then obtain ttl where ttl: "temporal_ttl_days (fst (classify item body)) config = Some ttl"
    using temporal_ttl_Some by blast
  show ?thesis
    using False age_days_exceeds [OF assms [OF ttl], of "mi_created_at item" now]
    by (simp add: temporal_status ttl)
qed (simp add: temporal_status)

lemma observation_current_iff_witness:
  "ts_status (temporal_evaluate default_temporal_config sample_now
      (sample_item\<lparr>mi_tags := [lit ''status'']\<rparr>) (lit ''The service is blocked.'') None) = TS_current"
proof -
  let ?item = "sample_item\<lparr>mi_tags := [lit ''status'']\<rparr>" and ?body = "lit ''The service is blocked.''"
  have ttl: "0 \<le> ttl" if "temporal_ttl_days (fst (classify ?item ?body)) default_temporal_config = Some ttl" for ttl
    using that by (cases "fst (classify ?item ?body)") (auto simp: default_temporal_config_def)
  have "fst (classify ?item ?body) = TC_negative" by code_simp
  moreover have "temporal_scope_mismatches ?item None = []"
    by (simp add: temporal_scope_mismatches_def)
  moreover have "instant sample_now - instant (mi_created_at ?item)
      < (the (temporal_ttl_days TC_negative default_temporal_config) + 1) * us_per_day"
    by (simp add: sample_item_def sample_now_def instant_def default_temporal_config_def us_per_day_def us_per_second_def)
  ultimately show ?thesis
    using observation_current_iff [where item = ?item and body = ?body and now = sample_now and scope = None, OF ttl]
    by simp
qed

end
