(* ===== verification/Validity.thy ===== *)
theory Validity imports SignalState TemporalState begin

text \<open>
  \<open>memory/validity\<close>: the lifecycle policy of an item and the evaluation of its validity, with the
  two thresholds of the firewall configuration that decide strong negative feedback
  (\<open>memory/context/context_firewall_types.py\<close> and \<open>context_firewall_rules.py\<close>).
\<close>

section \<open>Types\<close>

datatype validity_state =
  VS_active | VS_stale | VS_scope_mismatch | VS_superseded | VS_contradicted | VS_review_required
  | VS_historical
datatype validity_action = VA_include | VA_demote | VA_exclude | VA_history_only
datatype lifecycle_class =
  LC_handoff | LC_deployment_status | LC_verification_result | LC_runtime_state | LC_signal
  | LC_durable_decision | LC_skill | LC_artifact | LC_durable_fact | LC_unknown

record validity_policy =
  vp_policy_id :: string
  vp_lifecycle_class :: lifecycle_class
  vp_ttl_hours :: "int option"
  vp_evidence :: "string list"

record validity_evaluation =
  ve_state :: validity_state
  ve_action :: validity_action
  ve_lifecycle_class :: lifecycle_class
  ve_policy_id :: string
  ve_ttl_hours :: "int option"
  ve_reasons :: "pystr list"
  ve_evidence :: "pystr list"

section \<open>Policies\<close>

definition handoff_policy :: validity_policy where
  "handoff_policy = \<lparr>vp_policy_id = ''builtin.handoff.v1'', vp_lifecycle_class = LC_handoff,
     vp_ttl_hours = Some 720, vp_evidence = [''type:handoff'']\<rparr>"

definition deployment_policy :: validity_policy where
  "deployment_policy = \<lparr>vp_policy_id = ''builtin.deployment_status.v1'', vp_lifecycle_class = LC_deployment_status,
     vp_ttl_hours = Some 24, vp_evidence = [''deployment_terms'']\<rparr>"

definition verification_policy :: validity_policy where
  "verification_policy = \<lparr>vp_policy_id = ''builtin.verification_result.v1'', vp_lifecycle_class = LC_verification_result,
     vp_ttl_hours = Some 48, vp_evidence = [''verification_terms'']\<rparr>"

definition runtime_state_policy :: validity_policy where
  "runtime_state_policy = \<lparr>vp_policy_id = ''builtin.runtime_state.v1'', vp_lifecycle_class = LC_runtime_state,
     vp_ttl_hours = Some 48, vp_evidence = [''runtime_state_terms'']\<rparr>"

definition signal_policy :: validity_policy where
  "signal_policy = \<lparr>vp_policy_id = ''builtin.signal.v1'', vp_lifecycle_class = LC_signal,
     vp_ttl_hours = Some 336, vp_evidence = [''type:signal'']\<rparr>"

definition decision_policy :: validity_policy where
  "decision_policy = \<lparr>vp_policy_id = ''builtin.durable_decision.v1'', vp_lifecycle_class = LC_durable_decision,
     vp_ttl_hours = None, vp_evidence = [''type:decision'']\<rparr>"

definition skill_policy :: validity_policy where
  "skill_policy = \<lparr>vp_policy_id = ''builtin.skill.v1'', vp_lifecycle_class = LC_skill,
     vp_ttl_hours = None, vp_evidence = [''skill_maturity'']\<rparr>"

definition artifact_policy :: validity_policy where
  "artifact_policy = \<lparr>vp_policy_id = ''builtin.artifact.v1'', vp_lifecycle_class = LC_artifact,
     vp_ttl_hours = None, vp_evidence = [''type:artifact'']\<rparr>"

definition fact_policy :: validity_policy where
  "fact_policy = \<lparr>vp_policy_id = ''builtin.durable_fact.v1'', vp_lifecycle_class = LC_durable_fact,
     vp_ttl_hours = None, vp_evidence = [''type:fact'']\<rparr>"

definition unknown_policy :: validity_policy where
  "unknown_policy = \<lparr>vp_policy_id = ''builtin.unknown.v1'', vp_lifecycle_class = LC_unknown,
     vp_ttl_hours = None, vp_evidence = [''fallback'']\<rparr>"

definition deployment_terms :: "pystr list" where
  "deployment_terms = [
     lit ''deploy'', lit ''deployment'', lit ''release'', lit ''remote'', lit ''production'',
     lit ''prod'', lit ''health'', lit ''cdn'', lit ''rollout'', lit ''published'']"

definition verification_terms :: "pystr list" where
  "verification_terms = [
     lit ''verification'', lit ''verified'', lit ''pytest'', lit ''test'', lit ''tests'',
     lit ''smoke'', lit ''passed'', lit ''pass'', lit ''green'']"

definition runtime_state_terms :: "pystr list" where
  "runtime_state_terms = [
     lit ''runtime'', lit ''unavailable'', lit ''permission'', lit ''operation not permitted'',
     lit ''ghostty'', lit ''tcc'', lit ''browser'', lit ''environment'', lit ''blocked'']"

text \<open>\<open>re.compile(r"[a-z0-9_]+").findall(text)\<close>\<close>

definition token_char :: "int \<Rightarrow> bool" where
  "token_char c \<longleftrightarrow> (97 \<le> c \<and> c \<le> 122) \<or> (48 \<le> c \<and> c \<le> 57) \<or> c = 95"

definition normalize_text :: "pystr \<Rightarrow> pystr" where
  "normalize_text t = squeeze (lower t)"

definition term_match :: "pystr \<Rightarrow> pystr \<Rightarrow> bool" where
  "term_match text t =
     (let normalized = normalize_text t
      in if is_ascii normalized then
           if contains [32] normalized then contains normalized text
           else normalized \<in> set (runs token_char text)
         else contains normalized text)"

definition has_match :: "pystr \<Rightarrow> pystr list \<Rightarrow> pystr list \<Rightarrow> bool" where
  "has_match text tags terms \<longleftrightarrow>
     list_ex (\<lambda>t. t \<in> set terms) tags \<or> list_ex (term_match text) terms"

definition policy_text :: "memory_item \<Rightarrow> pystr \<Rightarrow> pystr" where
  "policy_text item body =
     normalize_text (join [32] [lower (item_type_value item), mi_title item, mi_summary item,
       lower (memory_enum_value maturity_value (mi_maturity item)), body])"

definition resolve_builtin_policy :: "memory_item \<Rightarrow> pystr \<Rightarrow> validity_policy" where
  "resolve_builtin_policy item body =
     (let item_type = lower (item_type_value item);
          maturity = lower (memory_enum_value maturity_value (mi_maturity item));
          text = policy_text item body;
          tags = map (\<lambda>t. normalize_text (lower t)) (mi_tags item)
      in if item_type = lit ''handoff'' then handoff_policy
         else if has_match text tags deployment_terms then deployment_policy
         else if has_match text tags verification_terms then verification_policy
         else if has_match text tags runtime_state_terms then runtime_state_policy
         else if item_type = lit ''signal'' then signal_policy
         else if item_type = lit ''decision'' then decision_policy
         else if item_type = lit ''skill'' \<or> maturity = lit ''skill'' then skill_policy
         else if item_type = lit ''artifact'' then artifact_policy
         else if item_type = lit ''fact'' then fact_policy
         else unknown_policy)"

section \<open>Feedback\<close>

record firewall_config =
  fc_allowed_sensitivities :: "pystr list"
  fc_stale_signal_days :: int
  fc_stale_handoff_days :: int
  fc_low_confidence_exclude_threshold :: rat
  fc_low_confidence_demote_threshold :: rat
  fc_low_confidence_penalty :: rat
  fc_negative_feedback_exclude_min_contradictions :: int
  fc_negative_feedback_exclude_gain_threshold :: rat
  fc_contested_penalty :: rat
  fc_l0_evidence_only_penalty :: rat
  fc_require_source_for_fact_decision :: bool
  fc_max_per_duplicate_cluster :: int
  fc_min_strong_term_coverage :: rat
  fc_topic_recency_min_shared_terms :: int
  fc_query_term_coverage_bonus :: rat
  fc_semantic_route_min_similarity :: rat
  fc_semantic_route_direct_min_similarity :: rat
  fc_semantic_route_direct_max_items :: int
  fc_semantic_route_min_margin :: rat
  fc_semantic_route_anchor_rescue_min_similarity :: rat
  fc_raw_route_min_coverage :: rat

definition default_firewall_config :: firewall_config where
  "default_firewall_config =
    \<lparr>fc_allowed_sensitivities = [lit ''public'', lit ''internal''],
     fc_stale_signal_days = 14, fc_stale_handoff_days = 30,
     fc_low_confidence_exclude_threshold = fl64 (2 / 10),
     fc_low_confidence_demote_threshold = fl64 (4 / 10),
     fc_low_confidence_penalty = fl64 (5 / 10),
     fc_negative_feedback_exclude_min_contradictions = 3,
     fc_negative_feedback_exclude_gain_threshold = fl64 (- 5 / 10),
     fc_contested_penalty = fl64 (35 / 100),
     fc_l0_evidence_only_penalty = fl64 (2 / 10),
     fc_require_source_for_fact_decision = True,
     fc_max_per_duplicate_cluster = 1,
     fc_min_strong_term_coverage = 1,
     fc_topic_recency_min_shared_terms = 3,
     fc_query_term_coverage_bonus = fl64 (1 / 100),
     fc_semantic_route_min_similarity = fl64 (25 / 100),
     fc_semantic_route_direct_min_similarity = fl64 (56 / 100),
     fc_semantic_route_direct_max_items = 4,
     fc_semantic_route_min_margin = fl64 (5 / 100),
     fc_semantic_route_anchor_rescue_min_similarity = fl64 (50 / 100),
     fc_raw_route_min_coverage = fl64 (45 / 100)\<rparr>"

definition unit_interval :: "rat \<Rightarrow> bool" where
  "unit_interval x \<longleftrightarrow> 0 \<le> x \<and> x \<le> 1"

text \<open>\<open>ContextFirewallConfig.__post_init__\<close>: the error of a configuration, if it has one.\<close>

definition check_firewall_config :: "firewall_config \<Rightarrow> pystr option" where
  "check_firewall_config c =
     (if fc_semantic_route_direct_max_items c < 1 \<or> 10 < fc_semantic_route_direct_max_items c
        then Some (lit ''semantic_route_direct_max_items must be an integer in [1, 10]'')
      else if \<not> unit_interval (fc_semantic_route_min_similarity c)
        then Some (lit ''semantic_route_min_similarity must be a finite number in [0, 1]'')
      else if \<not> unit_interval (fc_semantic_route_direct_min_similarity c)
        then Some (lit ''semantic_route_direct_min_similarity must be a finite number in [0, 1]'')
      else if \<not> unit_interval (fc_semantic_route_min_margin c)
        then Some (lit ''semantic_route_min_margin must be a finite number in [0, 1]'')
      else if \<not> unit_interval (fc_semantic_route_anchor_rescue_min_similarity c)
        then Some (lit ''semantic_route_anchor_rescue_min_similarity must be a finite number in [0, 1]'')
      else if \<not> unit_interval (fc_raw_route_min_coverage c)
        then Some (lit ''raw_route_min_coverage must be a finite number in [0, 1]'')
      else None)"

definition has_strong_negative_feedback :: "memory_item \<Rightarrow> firewall_config \<Rightarrow> bool" where
  "has_strong_negative_feedback item c \<longleftrightarrow>
     fc_negative_feedback_exclude_min_contradictions c \<le> mi_contradict_count item
     \<and> mi_gain_score item \<le> fc_negative_feedback_exclude_gain_threshold c
     \<and> mi_support_count item < mi_contradict_count item"

definition review_required_tags :: "pystr list" where
  "review_required_tags =
    [lit ''needs-review'', lit ''requires-review'', lit ''review-rejected'', lit ''unverified-boundary'']"

section \<open>Evaluation\<close>

definition state_scoped_classes :: "lifecycle_class list" where
  "state_scoped_classes =
    [LC_runtime_state, LC_verification_result, LC_deployment_status, LC_signal, LC_handoff]"

text \<open>Here an empty text is a statement about the scope, unlike in the temporal gate.\<close>

definition validity_scope_differs :: "validity \<Rightarrow> scope \<Rightarrow> pystr \<Rightarrow> bool" where
  "validity_scope_differs v scope field \<longleftrightarrow>
     validity_field v field \<noteq> None \<and> map_of scope field \<noteq> None
     \<and> validity_field v field \<noteq> map_of scope field"

definition validity_scope_mismatches :: "lifecycle_class \<Rightarrow> validity \<Rightarrow> scope option \<Rightarrow> pystr list" where
  "validity_scope_mismatches cls v scope =
     (if cls \<notin> set state_scoped_classes then []
      else case scope of None \<Rightarrow> [] | Some s \<Rightarrow> filter (validity_scope_differs v s) scope_fields)"

definition ttl_reference_time :: "memory_item \<Rightarrow> int" where
  "ttl_reference_time item =
     (case va_observed_at (mi_validity item) of
        Some t \<Rightarrow> instant (to_utc (aware t))
      | None \<Rightarrow> instant (to_utc (aware (mi_created_at item))))"

text \<open>\<open>max(0.0, (now - observed_at).total_seconds() / 3600)\<close>\<close>

definition elapsed_hours :: "int \<Rightarrow> int \<Rightarrow> rat" where
  "elapsed_hours now observed =
     max 0 (fl64 (fl64 (of_int (now - observed) / 1000000) / 3600))"

definition maybe_history_mode :: "validity_evaluation \<Rightarrow> bool \<Rightarrow> validity_evaluation" where
  "maybe_history_mode e history_mode =
     (if \<not> history_mode \<or> ve_state e \<notin> {VS_stale, VS_superseded} then e
      else e\<lparr>ve_state := VS_historical, ve_action := VA_history_only,
             ve_reasons := ve_reasons e @ [lit ''history_mode'']\<rparr>)"

definition item_ttl_hours :: "memory_item \<Rightarrow> pystr \<Rightarrow> int option" where
  "item_ttl_hours item body =
     (case va_ttl_hours (mi_validity item) of
        Some t \<Rightarrow> Some t
      | None \<Rightarrow> vp_ttl_hours (resolve_builtin_policy item body))"

definition matched_review_tags :: "memory_item \<Rightarrow> pystr list" where
  "matched_review_tags item = filter (\<lambda>t. t \<in> set (lowered_tags item)) review_required_tags"

definition ttl_evidence :: "int \<Rightarrow> rat \<Rightarrow> pystr list" where
  "ttl_evidence ttl elapsed =
     [lit ''ttl_hours:'' @ int_str ttl, lit ''ttl_elapsed_hours:'' @ fixed2 elapsed]"

definition evaluate_validity ::
  "firewall_config \<Rightarrow> py_datetime \<Rightarrow> memory_item \<Rightarrow> pystr \<Rightarrow> scope option \<Rightarrow> bool \<Rightarrow> validity_evaluation" where
  "evaluate_validity feedback now item body scope history_mode =
     (let policy = resolve_builtin_policy item body;
          evidence = map lit (vp_evidence policy);
          reasons = (if va_ttl_hours (mi_validity item) \<noteq> None then [lit ''explicit_ttl''] else []);
          ttl = item_ttl_hours item body;
          evaluation = (\<lambda>state action rs es.
            \<lparr>ve_state = state, ve_action = action, ve_lifecycle_class = vp_lifecycle_class policy,
             ve_policy_id = vp_policy_id policy, ve_ttl_hours = ttl,
             ve_reasons = reasons @ rs, ve_evidence = evidence @ es\<rparr>);
          review = matched_review_tags item;
          mismatches = validity_scope_mismatches (vp_lifecycle_class policy) (mi_validity item) scope
      in if review \<noteq> [] then
           evaluation VS_review_required VA_exclude [lit ''requires_review'']
             (map (\<lambda>t. lit ''tag:'' @ t) review)
         else if given_text (mi_superseded_by item) then
           maybe_history_mode
             (evaluation VS_superseded VA_exclude [lit ''superseded'']
               [lit ''superseded_by:'' @ the (mi_superseded_by item)]) history_mode
         else if has_strong_negative_feedback item feedback then
           evaluation VS_contradicted VA_exclude [lit ''negative_feedback'']
             [lit ''support_count:'' @ int_str (mi_support_count item),
              lit ''contradict_count:'' @ int_str (mi_contradict_count item),
              lit ''gain_score:'' @ float_repr (mi_gain_score item)]
         else if mismatches \<noteq> [] then
           evaluation VS_scope_mismatch VA_exclude
             (map (\<lambda>f. lit ''scope_mismatch:'' @ f) mismatches) (map (\<lambda>f. lit ''scope:'' @ f) mismatches)
         else case ttl of
           None \<Rightarrow> evaluation VS_active VA_include [] []
         | Some t \<Rightarrow>
             (let elapsed = elapsed_hours (instant (to_utc (aware now))) (ttl_reference_time item)
              in if of_int t < elapsed then
                   maybe_history_mode
                     (evaluation VS_stale VA_exclude [lit ''ttl_expired''] (ttl_evidence t elapsed))
                     history_mode
                 else evaluation VS_active VA_include [] (ttl_evidence t elapsed)))"

section \<open>Properties\<close>

definition needs_review :: "memory_item \<Rightarrow> bool" where
  "needs_review item \<longleftrightarrow> matched_review_tags item \<noteq> []"

definition out_of_scope :: "memory_item \<Rightarrow> pystr \<Rightarrow> scope option \<Rightarrow> bool" where
  "out_of_scope item body scope \<longleftrightarrow>
     validity_scope_mismatches (vp_lifecycle_class (resolve_builtin_policy item body))
       (mi_validity item) scope \<noteq> []"

definition ttl_passed :: "py_datetime \<Rightarrow> memory_item \<Rightarrow> pystr \<Rightarrow> bool" where
  "ttl_passed now item body \<longleftrightarrow>
     (case item_ttl_hours item body of None \<Rightarrow> False
      | Some t \<Rightarrow> t * 3600000000 < max 0 (instant now - ttl_reference_time item))"

text \<open>
  Rounding does not decide: the float comparison of the code agrees with the exact one for every
  time to live up to a million hours, negative ones included.
\<close>

lemma elapsed_hours_exceed:
  assumes "t \<le> 1000000"
  shows "of_int t < elapsed_hours now observed \<longleftrightarrow> t * 3600000000 < max 0 (now - observed)"
proof -
  have low: "fl64 (fl64 (of_int (now - observed) / 1000000) / 3600) \<le> 0" if "now - observed \<le> 0"
    using fl64.rnd_mono [of _ 0] that by (simp add: divide_le_0_iff)
  have high: "0 \<le> fl64 (fl64 (of_int (now - observed) / 1000000) / 3600)" if "0 \<le> now - observed"
    using that by (intro fl64.rnd_nonneg divide_nonneg_nonneg) auto
  consider "t < 0" | "0 \<le> t" "now - observed < 0" | "0 \<le> t" "0 \<le> now - observed" by linarith
  then show ?thesis
  proof cases
    case 1
    then show ?thesis by (simp add: elapsed_hours_def less_max_iff_disj)
  next
    case 2
    then show ?thesis using low by (simp add: elapsed_hours_def max_absorb1)
  next
    case 3
    then show ?thesis
      using high fl64.hours_exceed_iff [OF 3(2) 3(1) assms] by (simp add: elapsed_hours_def max_absorb2)
  qed
qed

lemma validity_state:
  assumes "\<And>t. item_ttl_hours item body = Some t \<Longrightarrow> t \<le> 1000000"
  shows "ve_state (evaluate_validity feedback now item body scope history_mode) =
    (if needs_review item then VS_review_required
     else if given_text (mi_superseded_by item) then
       if history_mode then VS_historical else VS_superseded
     else if has_strong_negative_feedback item feedback then VS_contradicted
     else if out_of_scope item body scope then VS_scope_mismatch
     else if ttl_passed now item body then
       if history_mode then VS_historical else VS_stale
     else VS_active)"
  using elapsed_hours_exceed [OF assms, of _ "instant now" "ttl_reference_time item"]
  by (simp add: evaluate_validity_def needs_review_def out_of_scope_def ttl_passed_def
      maybe_history_mode_def Let_def split: option.splits)

lemma validity_action:
  "ve_action (evaluate_validity feedback now item body scope history_mode) =
    (case ve_state (evaluate_validity feedback now item body scope history_mode) of
       VS_active \<Rightarrow> VA_include | VS_historical \<Rightarrow> VA_history_only | _ \<Rightarrow> VA_exclude)"
  by (simp add: evaluate_validity_def maybe_history_mode_def Let_def split: option.splits)

text \<open>An item is valid for inclusion exactly when it needs no review, is not superseded, has no
  strong negative feedback, is in scope and its time to live has not passed, measured exactly.
  History mode releases, as history only, superseded items and expired ones, never an item that
  needs review, and an expired one only when it is neither contradicted nor out of scope.\<close>

theorem validity_action_iff:
  assumes "\<And>t. item_ttl_hours item body = Some t \<Longrightarrow> t \<le> 1000000"
  shows "(ve_action (evaluate_validity feedback now item body scope history_mode) = VA_include \<longleftrightarrow>
      \<not> needs_review item \<and> \<not> given_text (mi_superseded_by item)
      \<and> \<not> has_strong_negative_feedback item feedback \<and> \<not> out_of_scope item body scope
      \<and> \<not> ttl_passed now item body)
    \<and> (ve_action (evaluate_validity feedback now item body scope history_mode) = VA_history_only \<longleftrightarrow>
      history_mode \<and> \<not> needs_review item
      \<and> (given_text (mi_superseded_by item)
         \<or> \<not> has_strong_negative_feedback item feedback \<and> \<not> out_of_scope item body scope
           \<and> ttl_passed now item body))"
proof -
  note state = validity_state [where item = item and body = body, OF assms]
  show ?thesis unfolding validity_action by (simp add: state)
qed

lemma validity_action_iff_witness:
  "ve_action (evaluate_validity default_firewall_config sample_now
      (sample_item\<lparr>mi_validity := (mi_validity sample_item)\<lparr>va_ttl_hours := Some 24\<rparr>\<rparr>) (lit ''The CDN host.'') None False)
     = VA_include"
proof -
  let ?item = "sample_item\<lparr>mi_validity := (mi_validity sample_item)\<lparr>va_ttl_hours := Some 24\<rparr>\<rparr>"
    and ?body = "lit ''The CDN host.''"
  have ttl: "item_ttl_hours ?item ?body = Some 24"
    by (simp add: item_ttl_hours_def)
  have time: "ttl_reference_time ?item = 1781146800000000"
    by (simp add: ttl_reference_time_def sample_item_def) (simp add: instant_def)
  have "\<not> needs_review ?item"
    by (simp add: needs_review_def matched_review_tags_def lowered_tags_def review_required_tags_def
        sample_item_def lower_def lower_char_def lit_def)
  moreover have "\<not> has_strong_negative_feedback ?item default_firewall_config"
    by (simp add: has_strong_negative_feedback_def sample_item_def default_firewall_config_def)
  moreover have "\<not> out_of_scope ?item ?body None"
    by (simp add: out_of_scope_def validity_scope_mismatches_def)
  moreover have "\<not> ttl_passed sample_now ?item ?body"
    unfolding ttl_passed_def ttl by (simp add: time sample_now_def instant_def)
  moreover have "\<not> given_text (mi_superseded_by ?item)"
    by (simp add: given_text_def sample_item_def)
  ultimately show ?thesis
    using validity_action_iff [of ?item ?body default_firewall_config sample_now None False] ttl by auto
qed

end
