(* ===== verification/ContextRules.thy ===== *)
theory ContextRules imports Validity begin

text \<open>
  \<open>memory/context/context_firewall_types.py\<close> and \<open>context_firewall_rules.py\<close>: candidates, decisions,
  and the pure rules the context firewall applies to them: provenance, coverage of query terms,
  fuzzy coverage of Chinese terms, conflict anchors, and the topics two memories share. The last
  uses \<open>difflib.SequenceMatcher\<close> without junk, whose matching blocks are modelled here.
\<close>

section \<open>Candidates and decisions\<close>

text \<open>
  A score is an integer, a finite float or anything else (a boolean, an infinity, NaN, another
  type), which no comparison of the code accepts.
\<close>

datatype candidate_score = Int_score int | Float_score rat | Other_score

record candidate =
  cd_item :: memory_item
  cd_body :: pystr
  cd_score :: candidate_score
  cd_source :: pystr
  cd_cluster_key :: "pystr option"

definition render_text :: "candidate \<Rightarrow> pystr" where
  "render_text c =
     (if cd_body c \<noteq> [] then cd_body c
      else lit ''['' @ item_type_str (cd_item c) @ lit ''] '' @ mi_title (cd_item c)
           @ (if mi_summary (cd_item c) \<noteq> [] then [32, 8212, 32] @ mi_summary (cd_item c) else []))"

datatype firewall_action = FA_include | FA_demote | FA_exclude

record decision =
  de_candidate :: candidate
  de_action :: firewall_action
  de_reasons :: "pystr list"
  de_score :: rat
  de_effective_score :: rat

abbreviation decision_item :: "decision \<Rightarrow> memory_item" where
  "decision_item d \<equiv> cd_item (de_candidate d)"

record cohort_result =
  co_included :: "decision list"
  co_excluded :: "decision list"
  co_reasons :: "pystr list"

record firewall_result =
  fw_included :: "decision list"
  fw_excluded :: "decision list"
  fw_decisions :: "decision list"
  fw_cohort_reasons :: "pystr list"

record query_signal =
  qs_terms :: "pystr list"
  qs_strong_terms :: "pystr list"
  qs_weak_terms :: "pystr list"
  qs_injectable :: bool
  qs_reason :: pystr
  qs_specificity :: rat
  qs_decision :: pystr
  qs_anchors :: "pystr list"
  qs_trace :: "pystr list"

definition exclude_with :: "decision \<Rightarrow> pystr \<Rightarrow> decision" where
  "exclude_with d reason =
     \<lparr>de_candidate = de_candidate d, de_action = FA_exclude, de_reasons = de_reasons d @ [reason],
      de_score = de_score d, de_effective_score = 0\<rparr>"

definition reject_cohort :: "decision list \<Rightarrow> pystr \<Rightarrow> cohort_result" where
  "reject_cohort included reason =
     \<lparr>co_included = [], co_excluded = map (\<lambda>d. exclude_with d reason) included,
      co_reasons = [reason]\<rparr>"

section \<open>Tables\<close>

definition source_required_types :: "pystr list" where
  "source_required_types = [
     lit ''fact'', lit ''decision'']"

definition contested_tags :: "pystr list" where
  "contested_tags = [
     lit ''contested'', lit ''contradiction'', lit ''conflict'']"

definition temporal_conflict_anchor_terms :: "pystr list" where
  "temporal_conflict_anchor_terms = [
     lit ''browser'', lit ''permission'', lit ''test'', lit ''pytest'', lit ''build'',
     lit ''install'', lit ''release'', lit ''sync'', lit ''login'', [27983, 35272, 22120],
     [26435, 38480], [27979, 35797], [39564, 35777], [26500, 24314], [23433, 35013],
     [21457, 24067], [21516, 27493], [30331, 24405]]"

definition topic_recency_types :: "pystr list" where
  "topic_recency_types = [
     lit ''fact'', lit ''decision'', lit ''signal'', lit ''handoff'']"

definition topic_recency_stopwords :: "pystr list" where
  "topic_recency_stopwords = [
     lit ''after'', lit ''before'', lit ''current'', lit ''fixed'', lit ''from'',
     lit ''history'', lit ''latest'', lit ''memory'', lit ''new'', lit ''newer'', lit ''note'',
     lit ''old'', lit ''older'', lit ''path'', lit ''previous'', lit ''restored'',
     lit ''state'', lit ''status'', lit ''the'', lit ''this'', lit ''unavailable'',
     lit ''updated'', lit ''uses'', lit ''was'', lit ''with'', [20043, 21069], [21382, 21490],
     [24403, 21069], [26087], [26032]]"

definition cjk_noise_chars :: "int list" where
  "cjk_noise_chars = [
     30340, 20102, 21527, 21602, 21543, 21834, 21568, 25105, 20320, 20182, 22905, 23427, 35831,
     25226, 32473, 22312, 21644, 19982, 21450, 26159, 26377, 36319, 21516, 23545, 21040, 20174,
     34987, 23558, 24182, 25110, 31561, 20063, 37117, 24456, 36824, 21448, 20877, 25165, 21482,
     21521, 26397]"

section \<open>Provenance and validity boundaries\<close>

definition has_direct_evidence_refs :: "memory_item \<Rightarrow> bool" where
  "has_direct_evidence_refs item \<longleftrightarrow>
     (let r = mi_refs item
      in rf_files r \<noteq> [] \<or> rf_urls r \<noteq> [] \<or> rf_commits r \<noteq> [] \<or> rf_resources r \<noteq> []
         \<or> rf_extractions r \<noteq> [])"

definition has_source_refs :: "memory_item \<Rightarrow> bool" where
  "has_source_refs item \<longleftrightarrow>
     (let r = mi_refs item
      in rf_files r \<noteq> [] \<or> rf_urls r \<noteq> [] \<or> rf_mems r \<noteq> [] \<or> rf_commits r \<noteq> []
         \<or> rf_resources r \<noteq> [] \<or> rf_extractions r \<noteq> [])"

definition has_explicit_validity_boundary :: "memory_item \<Rightarrow> bool" where
  "has_explicit_validity_boundary item \<longleftrightarrow>
     va_observed_at (mi_validity item) \<noteq> None \<or> va_ttl_hours (mi_validity item) \<noteq> None
     \<or> list_ex (\<lambda>f. validity_field (mi_validity item) f \<noteq> None) scope_fields"

definition is_l0_evidence_only :: "memory_item \<Rightarrow> bool" where
  "is_l0_evidence_only item \<longleftrightarrow>
     item_abstraction_str item = lit ''L0'' \<and> \<not> has_direct_evidence_refs item
     \<and> \<not> has_explicit_validity_boundary item"

section \<open>Coverage of query terms\<close>

definition candidate_haystack :: "candidate \<Rightarrow> pystr" where
  "candidate_haystack c = haystack (cd_item c) (cd_body c)"

definition compact_lookup_text :: "pystr \<Rightarrow> pystr" where
  "compact_lookup_text t = filter is_alnum (lower t)"

definition term_matches_haystack :: "pystr \<Rightarrow> pystr \<Rightarrow> bool" where
  "term_matches_haystack t text \<longleftrightarrow>
     contains (lower t) text
     \<or> (4 \<le> length (compact_lookup_text (lower t))
        \<and> contains (compact_lookup_text (lower t)) (compact_lookup_text text))"

definition matches_query :: "candidate \<Rightarrow> query_signal \<Rightarrow> bool" where
  "matches_query c signal \<longleftrightarrow>
     (let text = candidate_haystack c
      in if qs_strong_terms signal \<noteq> []
         then list_ex (\<lambda>t. term_matches_haystack t text) (qs_strong_terms signal)
         else list_ex (\<lambda>t. term_matches_haystack t text) (qs_terms signal))"

text \<open>The set of covered terms, as a list without repetition.\<close>

definition covered_query_terms :: "candidate \<Rightarrow> pystr list \<Rightarrow> pystr list" where
  "covered_query_terms c terms =
     dedup (filter (\<lambda>t. term_matches_haystack t (candidate_haystack c)) terms)"

definition cjk_fuzzy_runs :: "pystr \<Rightarrow> pystr list" where
  "cjk_fuzzy_runs t =
     filter (\<lambda>r. 2 \<le> length r)
       (concat (map (runs (\<lambda>c. c \<notin> set cjk_noise_chars)) (runs is_cjk t)))"

definition windows :: "nat \<Rightarrow> pystr \<Rightarrow> pystr list" where
  "windows n r = map (\<lambda>i. take n (drop i r)) [0..<length r + 1 - n]"

definition cjk_fuzzy_run_units :: "pystr \<Rightarrow> pystr list" where
  "cjk_fuzzy_run_units r = (if length r = 2 then [r] else dedup (windows 2 r @ windows 3 r))"

definition fuzzy_total :: "pystr list \<Rightarrow> pystr \<Rightarrow> rat" where
  "fuzzy_total rs text =
     foldl (\<lambda>total r.
       let units = cjk_fuzzy_run_units r; covered = length (filter (\<lambda>u. contains u text) units)
       in if units = [] then total else fl64 (total + fl64 (of_nat covered / of_nat (length units)))) 0 rs"

definition cjk_term_fuzzy_matches :: "pystr \<Rightarrow> pystr \<Rightarrow> bool" where
  "cjk_term_fuzzy_matches t text \<longleftrightarrow>
     (if is_ascii t \<or> length t < 4 then False
      else let rs = cjk_fuzzy_runs (casefold t)
           in if rs = [] then False
              else 1 / 2 \<le> fl64 (fuzzy_total rs (casefold text) / of_nat (length rs)))"

definition strong_term_covered :: "pystr list \<Rightarrow> pystr \<Rightarrow> bool" where
  "strong_term_covered texts t \<longleftrightarrow>
     list_ex (term_matches_haystack t) texts \<or> list_ex (cjk_term_fuzzy_matches t) texts"

definition covered_strong_terms :: "decision list \<Rightarrow> pystr list \<Rightarrow> pystr list" where
  "covered_strong_terms included terms =
     dedup (filter (strong_term_covered (map (\<lambda>d. candidate_haystack (de_candidate d)) included)) terms)"

section \<open>Conflicts of state\<close>

definition temporal_conflict_anchors :: "candidate \<Rightarrow> pystr list" where
  "temporal_conflict_anchors c =
     filter (\<lambda>a. contains a (candidate_haystack c)) temporal_conflict_anchor_terms"

definition text_or_empty :: "pystr option \<Rightarrow> pystr" where
  "text_or_empty t = (case t of None \<Rightarrow> [] | Some s \<Rightarrow> s)"

definition temporal_scope_signature :: "memory_item \<Rightarrow> pystr list" where
  "temporal_scope_signature item =
     [text_or_empty (mi_tenant_id item), text_or_empty (mi_project item)]
     @ map (\<lambda>f. text_or_empty (validity_field (mi_validity item) f)) scope_fields"

text \<open>The sort key \<open>(aware(created_at), effective_score)\<close> of both conflict gates.\<close>

definition recency_key :: "decision \<Rightarrow> int \<times> rat" where
  "recency_key d = (instant (aware (mi_created_at (decision_item d))), de_effective_score d)"

section \<open>Topics\<close>

definition topic_start :: "int \<Rightarrow> bool" where
  "topic_start c \<longleftrightarrow> (97 \<le> c \<and> c \<le> 122) \<or> (48 \<le> c \<and> c \<le> 57)"

definition topic_rest :: "int \<Rightarrow> bool" where
  "topic_rest c \<longleftrightarrow> topic_start c \<or> c = 95 \<or> c = 46 \<or> c = 45"

text \<open>\<open>re.findall("[a-z0-9][a-z0-9_.-]{2,}|[\u4e00-\u9fff]{2,}", text)\<close>\<close>

function topic_matches :: "pystr \<Rightarrow> pystr list" where
  "topic_matches [] = []"
| "topic_matches (c # cs) =
     (let word = takeWhile topic_rest cs; run = takeWhile is_cjk cs
      in if topic_start c \<and> 2 \<le> length word then (c # word) # topic_matches (drop (length word) cs)
         else if is_cjk c \<and> 1 \<le> length run then (c # run) # topic_matches (drop (length run) cs)
         else topic_matches cs)"
  by pat_completeness auto
termination by (relation "measure length") auto

definition cjk_runs :: "pystr \<Rightarrow> pystr list" where
  "cjk_runs t = filter (\<lambda>r. 2 \<le> length r) (runs is_cjk t)"

definition is_cjk_run :: "pystr \<Rightarrow> bool" where
  "is_cjk_run t \<longleftrightarrow> 2 \<le> length t \<and> list_all is_cjk t"

definition topic_text :: "candidate \<Rightarrow> pystr" where
  "topic_text c =
     join [32] [mi_title (cd_item c), mi_summary (cd_item c), join [32] (mi_tags (cd_item c))]"

definition topic_recency_terms :: "candidate \<Rightarrow> pystr list" where
  "topic_recency_terms c =
     (let text = lower (topic_text c); trim = strip_chars (lit ''._-'');
          keep = (\<lambda>t. t \<notin> set topic_recency_stopwords)
      in filter (\<lambda>t. t \<noteq> [] \<and> keep t) (map trim (topic_matches text))
         @ filter keep (concat (map (\<lambda>r. windows 4 (take 128 r)) (cjk_runs text))))"

subsection \<open>Matching blocks\<close>

fun common_prefix :: "pystr \<Rightarrow> pystr \<Rightarrow> nat" where
  "common_prefix (a # as) (b # bs) = (if a = b then Suc (common_prefix as bs) else 0)"
| "common_prefix _ _ = 0"

text \<open>The first element with the greatest key, as \<open>max(xs, key=...)\<close>.\<close>

fun max_by :: "('a \<Rightarrow> 'b::linorder) \<Rightarrow> 'a \<Rightarrow> 'a list \<Rightarrow> 'a" where
  "max_by key x [] = x"
| "max_by key x (y # ys) = max_by key (if key x < key y then y else x) ys"

text \<open>
  \<open>find_longest_match\<close>: the longest common block; of several, the one that starts earliest in the
  left text, then earliest in the right one.
\<close>

definition common_blocks :: "pystr \<Rightarrow> pystr \<Rightarrow> (nat \<times> nat \<times> nat) list" where
  "common_blocks a b =
     concat (map (\<lambda>i. map (\<lambda>j. (i, j, common_prefix (drop i a) (drop j b))) [0..<length b])
                 [0..<length a])"

definition longest_match :: "pystr \<Rightarrow> pystr \<Rightarrow> nat \<times> nat \<times> nat" where
  "longest_match a b = max_by (\<lambda>(i, j, k). k) (0, 0, 0) (common_blocks a b)"

lemma max_by_in: "max_by key x xs \<in> set (x # xs)"
  by (induction xs arbitrary: x) (auto split: if_splits)

lemma max_by_greatest: "y \<in> set (x # xs) \<Longrightarrow> key y \<le> key (max_by key x xs)"
proof (induction xs arbitrary: x y)
  case (Cons z zs)
  let ?w = "if key x < key z then z else x"
  have w: "key ?w \<le> key (max_by key ?w zs)" by (rule Cons.IH) simp
  have "key x \<le> key ?w" "key z \<le> key ?w" by auto
  with w have "key x \<le> key (max_by key ?w zs)" "key z \<le> key (max_by key ?w zs)"
    by (blast intro: order_trans)+
  moreover have "y \<in> set zs \<Longrightarrow> key y \<le> key (max_by key ?w zs)" by (rule Cons.IH) simp
  ultimately show ?case using Cons.prems by auto
qed simp

lemma common_prefix_le: "common_prefix a b \<le> length a"
  by (induction a b rule: common_prefix.induct) auto

lemma common_blocks_bound: "(i, j, k) \<in> set (common_blocks a b) \<Longrightarrow> i + k \<le> length a"
  using common_prefix_le [of "drop i a" "drop j b"] by (auto simp: common_blocks_def)

lemma longest_match_bound: "longest_match a b = (i, j, k) \<Longrightarrow> i + k \<le> length a"
  using max_by_in [of "\<lambda>(i, j, k). k" "(0, 0, 0)" "common_blocks a b"] common_blocks_bound [of i j k a b]
  by (auto simp: longest_match_def)

function match_blocks :: "nat \<Rightarrow> nat \<Rightarrow> pystr \<Rightarrow> pystr \<Rightarrow> (nat \<times> nat \<times> nat) list" where
  "match_blocks ao bo a b =
     (case longest_match a b of (i, j, k) \<Rightarrow>
        if k = 0 then []
        else match_blocks ao bo (take i a) (take j b) @ [(ao + i, bo + j, k)]
             @ match_blocks (ao + i + k) (bo + j + k) (drop (i + k) a) (drop (j + k) b))"
  by pat_completeness auto
termination
proof (relation "measure (\<lambda>(ao, bo, a, b). length a)", goal_cases)
  case (2 ao bo a b i y j k)
  then have "i + k \<le> length a" by (intro longest_match_bound [where j = j and b = b]) simp
  with 2 show ?case by simp
next
  case (3 ao bo a b i y j k)
  then have "i + k \<le> length a" by (intro longest_match_bound [where j = j and b = b]) simp
  with 3 show ?case by simp
qed simp

declare match_blocks.simps [simp del]

text \<open>Adjacent blocks are merged.\<close>

fun merge_blocks :: "nat \<times> nat \<times> nat \<Rightarrow> (nat \<times> nat \<times> nat) list \<Rightarrow> (nat \<times> nat \<times> nat) list" where
  "merge_blocks (i, j, k) [] = (if k = 0 then [] else [(i, j, k)])"
| "merge_blocks (i, j, k) ((i', j', k') # bs) =
     (if i + k = i' \<and> j + k = j' then merge_blocks (i, j, k + k') bs
      else (if k = 0 then [] else [(i, j, k)]) @ merge_blocks (i', j', k') bs)"

definition get_matching_blocks :: "pystr \<Rightarrow> pystr \<Rightarrow> (nat \<times> nat \<times> nat) list" where
  "get_matching_blocks a b = merge_blocks (0, 0, 0) (match_blocks 0 0 a b)"

definition candidate_cjk_runs :: "candidate \<Rightarrow> pystr list" where
  "candidate_cjk_runs c = map (take 128) (take 16 (cjk_runs (topic_text c)))"

definition block_anchors :: "pystr \<Rightarrow> nat \<times> nat \<times> nat \<Rightarrow> pystr list" where
  "block_anchors left block =
     (case block of (i, j, k) \<Rightarrow>
        let shared = take k (drop i left)
        in filter (\<lambda>t. t \<notin> set topic_recency_stopwords)
             (map (\<lambda>n. take 4 (drop (4 * n) shared)) [0..<k div 4]))"

definition shared_cjk_topic_anchors :: "candidate \<Rightarrow> candidate \<Rightarrow> pystr list" where
  "shared_cjk_topic_anchors left right =
     dedup (concat (map (\<lambda>l. concat (map (\<lambda>r. concat (map (block_anchors l) (get_matching_blocks l r)))
       (candidate_cjk_runs right))) (candidate_cjk_runs left)))"

definition topic_recency_matches :: "candidate \<Rightarrow> candidate \<Rightarrow> int \<Rightarrow> bool" where
  "topic_recency_matches left right min_shared_terms \<longleftrightarrow>
     (let shared = dedup (filter (\<lambda>t. t \<in> set (topic_recency_terms right) \<and> \<not> is_cjk_run t)
                            (topic_recency_terms left));
          anchors = shared_cjk_topic_anchors left right
      in min_shared_terms \<le> int (length shared)
         \<or> 2 \<le> length anchors
         \<or> min_shared_terms \<le> int (length shared) + int (length anchors))"

end
