(* ===== verification/ContextPacking.thy ===== *)
theory ContextPacking imports ContextRules "HOL-Library.Multiset" begin

text \<open>
  \<open>memory/context/context_loading.py\<close> and \<open>context_packing.py\<close>: which view of an item is loaded
  (locator, overview or detail), the pack built from it, and the packing of decisions into a
  token budget with fallback to smaller views. The compressor of detail texts
  (\<open>adaptive_compression.compress_text\<close>) is not modelled; it is the parameter \<open>compress\<close>.
\<close>

section \<open>Views\<close>

datatype context_view = CV_locator | CV_overview | CV_detail
datatype verbosity = Explicit context_view | Auto

fun view_name :: "context_view \<Rightarrow> string" where
  "view_name CV_locator = ''locator''"
| "view_name CV_overview = ''overview''"
| "view_name CV_detail = ''detail''"

record view_selection =
  vs_view :: context_view
  vs_reasons :: "pystr list"

definition estimate_tokens :: "pystr \<Rightarrow> int" where
  "estimate_tokens t = int (length t) div 4"

definition boundary_types :: "pystr list" where
  "boundary_types = [lit ''fact'', lit ''decision'']"

definition stateful_types :: "pystr list" where
  "stateful_types = [lit ''signal'', lit ''handoff'']"

definition first_text :: "pystr list \<Rightarrow> pystr" where
  "first_text ts = (case filter (\<lambda>t. t \<noteq> []) ts of [] \<Rightarrow> [] | t # _ \<Rightarrow> t)"

fun render_context_view :: "memory_item \<Rightarrow> pystr \<Rightarrow> context_view \<Rightarrow> pystr" where
  "render_context_view item body CV_detail = body"
| "render_context_view item body CV_overview =
     first_text [vw_overview (mi_context_views item), vw_locator (mi_context_views item), mi_summary item]"
| "render_context_view item body CV_locator =
     first_text [vw_locator (mi_context_views item), mi_summary item]"

definition raw_with_direct_evidence :: "memory_item \<Rightarrow> bool" where
  "raw_with_direct_evidence item \<longleftrightarrow>
     item_maturity_str item = lit ''raw'' \<and> item_abstraction_str item = lit ''L0''
     \<and> has_direct_evidence_refs item"

definition has_validity_boundary :: "memory_item \<Rightarrow> bool" where
  "has_validity_boundary item \<longleftrightarrow>
     va_observed_at (mi_validity item) \<noteq> None \<or> va_ttl_hours (mi_validity item) \<noteq> None
     \<or> list_ex (\<lambda>f. given_text (validity_field (mi_validity item) f)) scope_fields"

definition demoted :: "decision option \<Rightarrow> bool" where
  "demoted d \<longleftrightarrow> (case d of None \<Rightarrow> False | Some e \<Rightarrow> de_action e = FA_demote)"

definition should_load_overview :: "memory_item \<Rightarrow> decision option \<Rightarrow> bool" where
  "should_load_overview item d \<longleftrightarrow>
     (if vw_overview (mi_context_views item) = [] then False
      else raw_with_direct_evidence item
        \<or> item_type_str item \<in> set boundary_types \<or> item_type_str item \<in> set stateful_types
        \<or> has_source_refs item \<or> has_validity_boundary item \<or> demoted d)"

definition overview_reason :: "memory_item \<Rightarrow> decision option \<Rightarrow> pystr" where
  "overview_reason item d =
     (if item_type_str item \<in> set boundary_types then lit ''fact_or_decision_boundary''
      else if item_type_str item \<in> set stateful_types then lit ''state_or_handoff_boundary''
      else if demoted d then lit ''firewall_demoted''
      else lit ''evidence_or_scope_navigation'')"

definition smaller_view :: "context_view \<Rightarrow> context_view" where
  "smaller_view v = (if v = CV_detail then CV_overview else CV_locator)"

fun view_rank :: "context_view \<Rightarrow> nat" where
  "view_rank CV_locator = 0"
| "view_rank CV_overview = 1"
| "view_rank CV_detail = 2"

definition downgrade_reason :: "context_view \<Rightarrow> pystr" where
  "downgrade_reason v = lit ''budget_downgraded_to_'' @ lit (view_name v)"

text \<open>The loop of \<open>_fit_budget\<close>: to a smaller view while the text is too long.\<close>

function fit_view ::
  "memory_item \<Rightarrow> pystr \<Rightarrow> int \<Rightarrow> context_view \<Rightarrow> pystr list \<Rightarrow> context_view \<times> pystr list" where
  "fit_view item body budget view reasons =
     (if view \<noteq> CV_locator \<and> budget < estimate_tokens (render_context_view item body view)
      then fit_view item body budget (smaller_view view) (reasons @ [downgrade_reason (smaller_view view)])
      else (view, reasons))"
  by pat_completeness auto
termination
proof (relation "measure (\<lambda>(item, body, budget, view, reasons). view_rank view)", goal_cases)
  case (2 item body budget view reasons)
  then show ?case by (cases view) (simp_all add: smaller_view_def)
qed simp

declare fit_view.simps [simp del]

definition fit_budget :: "memory_item \<Rightarrow> pystr \<Rightarrow> view_selection \<Rightarrow> int option \<Rightarrow> view_selection" where
  "fit_budget item body selection budget =
     (case budget of None \<Rightarrow> selection
      | Some b \<Rightarrow>
          (case fit_view item body b (vs_view selection) (vs_reasons selection) of (view, reasons) \<Rightarrow>
             \<lparr>vs_view = view, vs_reasons = dedup reasons\<rparr>))"

definition select_context_view ::
  "memory_item \<Rightarrow> pystr \<Rightarrow> verbosity \<Rightarrow> decision option \<Rightarrow> int option \<Rightarrow> view_selection" where
  "select_context_view item body requested d budget =
     (case requested of
        Explicit view \<Rightarrow> \<lparr>vs_view = view, vs_reasons = [lit ''explicit_'' @ lit (view_name view)]\<rparr>
      | Auto \<Rightarrow>
          let overview = should_load_overview item d;
              reasons = [lit ''default_locator'']
                @ (if raw_with_direct_evidence item then [lit ''raw_direct_evidence''] else [])
                @ (if overview then [overview_reason item d] else [])
          in fit_budget item body
               \<lparr>vs_view = (if overview then CV_overview else CV_locator), vs_reasons = dedup reasons\<rparr>
               budget)"

section \<open>Packs\<close>

record compressed_text =
  ct_text :: pystr
  ct_strategy :: pystr
  ct_content_type :: pystr
  ct_ratio :: rat
  ct_tokens_saved :: int
  ct_ccr_key :: "pystr option"
  ct_ccr_marker :: "pystr option"

type_synonym compressor = "pystr \<Rightarrow> int \<Rightarrow> pystr \<Rightarrow> compressed_text"

record context_pack =
  cp_item_id :: pystr
  cp_selected_view :: context_view
  cp_text :: pystr
  cp_detail_uri :: pystr
  cp_retrieve_head_chars :: int
  cp_load_reason :: "pystr list"
  cp_packed_chars :: int
  cp_packed_tokens :: int
  cp_full_chars :: int
  cp_full_tokens :: int
  cp_compressed :: bool
  cp_reversible :: bool
  cp_compression_strategy :: pystr
  cp_compression_content_type :: pystr
  cp_compression_ratio :: rat
  cp_tokens_saved :: int
  cp_ccr_key :: "pystr option"
  cp_ccr_marker :: "pystr option"

definition retrieve_hint :: "context_pack \<Rightarrow> pystr" where
  "retrieve_hint p =
     lit ''read_memory(id='' @ [39] @ cp_item_id p @ [39] @ lit '', head='' @ int_str (cp_retrieve_head_chars p)
       @ lit '', view='' @ [39] @ lit ''detail'' @ [39] @ lit '')''"

definition cli_retrieve_hint :: "context_pack \<Rightarrow> pystr" where
  "cli_retrieve_hint p =
     lit ''memory read '' @ cp_item_id p @ lit '' --head '' @ int_str (cp_retrieve_head_chars p)
       @ lit '' --view detail''"

definition default_retrieve_head_chars :: int where
  "default_retrieve_head_chars = 2000"

definition pack_tokens :: "pystr \<Rightarrow> int" where
  "pack_tokens t = (if t = [] then 0 else max 1 (estimate_tokens t))"

definition is_compressed :: "context_view \<Rightarrow> pystr \<Rightarrow> pystr \<Rightarrow> bool" where
  "is_compressed view text body \<longleftrightarrow> (if view \<noteq> CV_detail then True else body \<noteq> [] \<and> text \<noteq> body)"

definition pack_compression ::
  "compressor \<Rightarrow> context_view \<Rightarrow> pystr \<Rightarrow> pystr \<Rightarrow> int option \<Rightarrow> compressed_text" where
  "pack_compression compress view text detail_uri budget =
     (let plain = \<lparr>ct_text = text, ct_strategy = lit ''none'', ct_content_type = lit ''plain_text'',
                    ct_ratio = 1, ct_tokens_saved = 0, ct_ccr_key = None, ct_ccr_marker = None\<rparr>
      in case budget of None \<Rightarrow> plain
         | Some b \<Rightarrow>
             if view = CV_detail \<and> text \<noteq> [] then
               let c = compress text (max 1 (b * 4)) detail_uri
               in if ct_text c \<noteq> text then c else plain
             else plain)"

definition build_context_pack ::
  "compressor \<Rightarrow> memory_item \<Rightarrow> pystr \<Rightarrow> verbosity \<Rightarrow> decision option \<Rightarrow> int option \<Rightarrow> int \<Rightarrow> context_pack" where
  "build_context_pack compress item body requested d budget head_chars =
     (let selection = select_context_view item body requested d budget;
          view = vs_view selection;
          plain = render_context_view item body view;
          detail_uri = first_text [vw_detail_uri (mi_context_views item),
            lit ''memory://items/'' @ mi_id item @ lit ''/body''];
          full_text = (if body \<noteq> [] then body else plain);
          c = pack_compression compress view plain detail_uri budget;
          text = ct_text c
      in \<lparr>cp_item_id = mi_id item, cp_selected_view = view, cp_text = text, cp_detail_uri = detail_uri,
          cp_retrieve_head_chars = head_chars, cp_load_reason = vs_reasons selection,
          cp_packed_chars = int (length text), cp_packed_tokens = pack_tokens text,
          cp_full_chars = int (length full_text), cp_full_tokens = pack_tokens full_text,
          cp_compressed = (is_compressed view text body \<or> ct_strategy c \<noteq> lit ''none''),
          cp_reversible = True,
          cp_compression_strategy = ct_strategy c, cp_compression_content_type = ct_content_type c,
          cp_compression_ratio = ct_ratio c, cp_tokens_saved = ct_tokens_saved c,
          cp_ccr_key = ct_ccr_key c, cp_ccr_marker = ct_ccr_marker c\<rparr>)"

section \<open>Packing into a budget\<close>

record packed_decision =
  pd_decision :: decision
  pd_pack :: context_pack

record pack_result =
  pr_included :: "packed_decision list"
  pr_excluded :: "decision list"
  pr_used_tokens :: int
  pr_full_tokens :: int

definition decision_pack ::
  "compressor \<Rightarrow> decision \<Rightarrow> verbosity \<Rightarrow> int option \<Rightarrow> int \<Rightarrow> context_pack" where
  "decision_pack compress d requested budget head_chars =
     build_context_pack compress (decision_item d) (cd_body (de_candidate d)) requested (Some d) budget head_chars"

text \<open>The fallback loop over \<open>("overview", "locator")\<close>.\<close>

fun fallback_packs ::
  "compressor \<Rightarrow> decision \<Rightarrow> int \<Rightarrow> int \<Rightarrow> context_pack \<Rightarrow> context_view list \<Rightarrow> context_pack" where
  "fallback_packs compress d remaining head_chars pack [] = pack"
| "fallback_packs compress d remaining head_chars pack (view # views) =
     (if cp_selected_view pack = view then fallback_packs compress d remaining head_chars pack views
      else let p = decision_pack compress d (Explicit view) None head_chars
           in if cp_packed_tokens p \<le> remaining then p
              else fallback_packs compress d remaining head_chars p views)"

definition fit_pack ::
  "compressor \<Rightarrow> decision \<Rightarrow> context_pack \<Rightarrow> verbosity \<Rightarrow> int option \<Rightarrow> int \<Rightarrow> context_pack" where
  "fit_pack compress d original requested remaining head_chars =
     (case remaining of None \<Rightarrow> original
      | Some r \<Rightarrow>
          if cp_packed_tokens original \<le> r then original
          else if cp_selected_view original = CV_detail \<and> requested = Explicit CV_detail then
            let p = decision_pack compress d (Explicit CV_detail) (Some (max 1 r)) head_chars
            in if cp_packed_tokens p \<le> r then p
               else fallback_packs compress d r head_chars p [CV_overview, CV_locator]
          else fallback_packs compress d r head_chars original [CV_overview, CV_locator])"

text \<open>One decision against what is left of the budget: its pack, or nothing.\<close>

definition pack_one ::
  "compressor \<Rightarrow> verbosity \<Rightarrow> int option \<Rightarrow> int \<Rightarrow> decision \<Rightarrow> packed_decision option" where
  "pack_one compress requested remaining head_chars d =
     (let original = decision_pack compress d requested None head_chars;
          pack = fit_pack compress d original requested remaining head_chars
      in if remaining \<noteq> None \<and> the remaining < cp_packed_tokens pack then None
         else Some
           \<lparr>pd_decision = (if cp_selected_view pack \<noteq> cp_selected_view original
               then d\<lparr>de_reasons := de_reasons d @ [downgrade_reason (cp_selected_view pack)]\<rparr> else d),
            pd_pack = pack\<rparr>)"

definition pack_step ::
  "compressor \<Rightarrow> verbosity \<Rightarrow> int option \<Rightarrow> int \<Rightarrow> pack_result \<Rightarrow> decision \<Rightarrow> pack_result" where
  "pack_step compress requested budget head_chars r d =
     (if de_action d = FA_exclude then r
      else case pack_one compress requested (map_option (\<lambda>b. b - pr_used_tokens r) budget) head_chars d of
        None \<Rightarrow> r\<lparr>pr_excluded := pr_excluded r @ [exclude_with d (lit ''pack_budget_exceeded'')]\<rparr>
      | Some p \<Rightarrow> r\<lparr>pr_included := pr_included r @ [p],
                      pr_used_tokens := pr_used_tokens r + cp_packed_tokens (pd_pack p),
                      pr_full_tokens := pr_full_tokens r + cp_full_tokens (pd_pack p)\<rparr>)"

definition pack_decisions ::
  "compressor \<Rightarrow> decision list \<Rightarrow> verbosity \<Rightarrow> int option \<Rightarrow> int \<Rightarrow> pack_result" where
  "pack_decisions compress decisions requested budget head_chars =
     foldl (pack_step compress requested budget head_chars)
       \<lparr>pr_included = [], pr_excluded = filter (\<lambda>d. de_action d = FA_exclude) decisions,
        pr_used_tokens = 0, pr_full_tokens = 0\<rparr> decisions"

section \<open>Properties\<close>

lemma fit_view_budget_None: "fit_budget item body selection None = selection"
  by (simp add: fit_budget_def)

lemma pack_tokens_nonneg: "0 \<le> pack_tokens t"
  by (cases "t = []") (simp_all add: pack_tokens_def max_def)

text \<open>Tokens of a view of a decision's item, and the packs built without a budget.\<close>

definition view_tokens :: "decision \<Rightarrow> context_view \<Rightarrow> int" where
  "view_tokens d view =
     pack_tokens (render_context_view (decision_item d) (cd_body (de_candidate d)) view)"

lemma cp_packed_tokens_nonneg: "0 \<le> cp_packed_tokens (decision_pack compress d requested budget h)"
  by (simp add: decision_pack_def build_context_pack_def Let_def pack_tokens_nonneg)

lemma explicit_pack [simp]:
  "cp_selected_view (decision_pack compress d (Explicit view) None h) = view"
  "cp_packed_tokens (decision_pack compress d (Explicit view) None h) = view_tokens d view"
  by (simp_all add: decision_pack_def build_context_pack_def select_context_view_def Let_def
      pack_compression_def view_tokens_def)

lemma auto_pack:
  obtains view where "view \<in> {CV_overview, CV_locator}"
    and "cp_selected_view (decision_pack compress d Auto None h) = view"
    and "cp_packed_tokens (decision_pack compress d Auto None h) = view_tokens d view"
proof
  let ?v = "if should_load_overview (decision_item d) (Some d) then CV_overview else CV_locator"
  show "?v \<in> {CV_overview, CV_locator}" by simp
  show "cp_selected_view (decision_pack compress d Auto None h) = ?v"
    and "cp_packed_tokens (decision_pack compress d Auto None h) = view_tokens d ?v"
    by (simp_all add: decision_pack_def build_context_pack_def select_context_view_def Let_def
        fit_budget_def pack_compression_def view_tokens_def)
qed

text \<open>With automatic views a decision gets a pack for what is left of the budget exactly when its
  overview or its locator fits; without a budget it always gets one.\<close>

theorem auto_pack_fits_iff:
  "pack_one compress Auto remaining h d \<noteq> None \<longleftrightarrow>
     (case remaining of None \<Rightarrow> True
      | Some r \<Rightarrow> view_tokens d CV_overview \<le> r \<or> view_tokens d CV_locator \<le> r)"
proof (cases remaining)
  case (Some r)
  obtain view where v: "view \<in> {CV_overview, CV_locator}"
    "cp_selected_view (decision_pack compress d Auto None h) = view"
    "cp_packed_tokens (decision_pack compress d Auto None h) = view_tokens d view"
    by (rule auto_pack)
  then show ?thesis
    by (auto simp: Some pack_one_def Let_def fit_pack_def)
qed (simp add: pack_one_def Let_def)

lemma pack_one_Some:
  assumes "pack_one compress requested remaining h d = Some p"
  shows "de_candidate (pd_decision p) = de_candidate d"
    and "de_action (pd_decision p) = de_action d"
    and "de_score (pd_decision p) = de_score d"
    and "de_effective_score (pd_decision p) = de_effective_score d"
    and "case remaining of None \<Rightarrow> True | Some r \<Rightarrow> cp_packed_tokens (pd_pack p) \<le> r"
  using assms by (auto simp: pack_one_def Let_def split: if_splits option.splits)

definition packed_tokens :: "packed_decision list \<Rightarrow> int" where
  "packed_tokens ps = sum_list (map (\<lambda>p. cp_packed_tokens (pd_pack p)) ps)"

definition within_budget :: "int option \<Rightarrow> int \<Rightarrow> bool" where
  "within_budget budget used \<longleftrightarrow> (case budget of None \<Rightarrow> True | Some b \<Rightarrow> used \<le> max 0 b)"

definition pack_sound :: "int option \<Rightarrow> pack_result \<Rightarrow> bool" where
  "pack_sound budget r \<longleftrightarrow>
     pr_used_tokens r = packed_tokens (pr_included r) \<and> within_budget budget (pr_used_tokens r)"

definition packed_candidates :: "pack_result \<Rightarrow> candidate multiset" where
  "packed_candidates r =
     mset (map (\<lambda>p. de_candidate (pd_decision p)) (pr_included r) @ map de_candidate (pr_excluded r))"

lemma pack_step_sound:
  assumes "pack_sound budget r"
  shows "pack_sound budget (pack_step compress requested budget h r d)"
proof (cases "pack_one compress requested (map_option (\<lambda>b. b - pr_used_tokens r) budget) h d")
  case (Some p)
  then have step: "pack_step compress requested budget h r d =
      (if de_action d = FA_exclude then r
       else r\<lparr>pr_included := pr_included r @ [p],
              pr_used_tokens := pr_used_tokens r + cp_packed_tokens (pd_pack p),
              pr_full_tokens := pr_full_tokens r + cp_full_tokens (pd_pack p)\<rparr>)"
    by (simp add: pack_step_def)
  have "within_budget budget (pr_used_tokens r + cp_packed_tokens (pd_pack p))"
    using pack_one_Some(5) [OF Some] by (cases budget) (auto simp: within_budget_def)
  with assms show ?thesis unfolding step by (auto simp: pack_sound_def packed_tokens_def)
qed (use assms in \<open>auto simp: pack_step_def pack_sound_def\<close>)

lemma pack_steps_sound: "pack_sound budget r \<Longrightarrow> pack_sound budget (foldl (pack_step compress requested budget h) r ds)"
  by (induction ds arbitrary: r) (simp_all add: pack_step_sound)

lemma pack_step_candidates:
  "packed_candidates (pack_step compress requested budget h r d) =
     packed_candidates r + (if de_action d = FA_exclude then {#} else {#de_candidate d#})"
proof (cases "pack_one compress requested (map_option (\<lambda>b. b - pr_used_tokens r) budget) h d")
  case (Some p)
  from pack_one_Some(1) [OF Some] show ?thesis
    by (simp add: Some pack_step_def packed_candidates_def)
qed (simp add: pack_step_def packed_candidates_def exclude_with_def)

lemma pack_steps_candidates:
  "packed_candidates (foldl (pack_step compress requested budget h) r ds) =
     packed_candidates r + mset (map de_candidate (filter (\<lambda>d. de_action d \<noteq> FA_exclude) ds))"
  by (induction ds arbitrary: r) (simp_all add: pack_step_candidates)

text \<open>Packing accounts for every token and every candidate: the used tokens are those of the
  packs, they never exceed the budget, and each decision's candidate ends up exactly once among
  the packed or the excluded.\<close>

theorem packing_accounts:
  "packed_tokens (pr_included (pack_decisions compress ds requested budget h))
       = pr_used_tokens (pack_decisions compress ds requested budget h)
   \<and> within_budget budget (pr_used_tokens (pack_decisions compress ds requested budget h))
   \<and> packed_candidates (pack_decisions compress ds requested budget h) = mset (map de_candidate ds)"
proof -
  let ?start = "\<lparr>pr_included = [], pr_excluded = filter (\<lambda>d. de_action d = FA_exclude) ds,
        pr_used_tokens = 0, pr_full_tokens = 0\<rparr>"
  have "pack_sound budget ?start"
    by (simp add: pack_sound_def packed_tokens_def within_budget_def split: option.splits)
  then have sound: "pack_sound budget (pack_decisions compress ds requested budget h)"
    unfolding pack_decisions_def by (rule pack_steps_sound)
  have "packed_candidates ?start = mset (map de_candidate (filter (\<lambda>d. de_action d = FA_exclude) ds))"
    by (simp add: packed_candidates_def)
  moreover have "mset (map de_candidate (filter (\<lambda>d. de_action d = FA_exclude) ds))
      + mset (map de_candidate (filter (\<lambda>d. de_action d \<noteq> FA_exclude) ds)) = mset (map de_candidate ds)"
    by (induction ds) simp_all
  ultimately have "packed_candidates (pack_decisions compress ds requested budget h) = mset (map de_candidate ds)"
    unfolding pack_decisions_def pack_steps_candidates by simp
  with sound show ?thesis by (auto simp: pack_sound_def)
qed

end
