(* ===== verification/RecallTypes.thy ===== *)
theory RecallTypes imports ContextRules "HOL-Library.Multiset" "HOL-Library.Product_Lexorder" begin

text \<open>
  The values of recall: \<open>retrieval/types.py\<close> and \<open>retrieval/trace.py\<close> (hits and their traces),
  \<open>memory/recall/routed_types.py\<close> and the admission of \<open>memory/recall/admission.py\<close>.
\<close>

section \<open>Hits\<close>

record stage_trace =
  st_name :: pystr
  st_before_rank :: "int option"
  st_after_rank :: "int option"
  st_before_score :: "rat option"
  st_after_score :: "rat option"
  st_effect :: pystr

record retrieval_trace =
  tr_initial_bm25_rank :: "int option"
  tr_initial_vector_rank :: "int option"
  tr_initial_score :: rat
  tr_final_rank :: int
  tr_final_score :: rat
  tr_stages :: "stage_trace list"
  tr_signals :: "pystr list"

record retrieved_item =
  ri_id :: pystr
  ri_score :: rat
  ri_bm25_rank :: "int option"
  ri_vector_rank :: "int option"
  ri_trace :: "retrieval_trace option"

definition hit :: "pystr \<Rightarrow> rat \<Rightarrow> int option \<Rightarrow> int option \<Rightarrow> retrieved_item" where
  "hit item_id score bm25_rank vector_rank =
     \<lparr>ri_id = item_id, ri_score = score, ri_bm25_rank = bm25_rank, ri_vector_rank = vector_rank,
      ri_trace = None\<rparr>"

lemma hit_simps [simp]:
  "ri_id (hit i s b v) = i" "ri_score (hit i s b v) = s"
  "ri_bm25_rank (hit i s b v) = b" "ri_vector_rank (hit i s b v) = v"
  by (simp_all add: hit_def)

text \<open>\<open>sorted(items, key=score, reverse=True)\<close>; the sort is stable in both directions.\<close>

definition by_score :: "retrieved_item list \<Rightarrow> retrieved_item list" where
  "by_score items = sort_key (\<lambda>i. - ri_score i) items"

lemma set_by_score [simp]: "set (by_score items) = set items"
  by (simp add: by_score_def)

lemma mset_by_score [simp]: "mset (by_score items) = mset items"
  by (simp add: by_score_def)

lemma sorted_by_score: "sorted (map (\<lambda>i. - ri_score i) (by_score items))"
  by (simp add: by_score_def)

abbreviation hit_ids :: "retrieved_item list \<Rightarrow> pystr list" where
  "hit_ids items \<equiv> map ri_id items"

lemma hit_ids_by_score: "mset (hit_ids (by_score items)) = mset (hit_ids items)"
  by simp

lemma distinct_by_score [simp]: "distinct (hit_ids (by_score items)) \<longleftrightarrow> distinct (hit_ids items)"
  using hit_ids_by_score [of items] by (metis mset_eq_imp_distinct_iff)

section \<open>Routed recall\<close>

record recall_admission =
  ra_allowed :: bool
  ra_reason :: pystr

definition admission_reasons :: "pystr list" where
  "admission_reasons =
     [lit ''meaningful_query'', lit ''empty_query'', lit ''punctuation_only'',
      lit ''adapter_control_command'', lit ''weak_confirmation'']"

definition check_admission :: "recall_admission \<Rightarrow> recall_admission result" where
  "check_admission a =
     (if ra_reason a \<notin> set admission_reasons then
        Inl (ValueError (lit ''unsupported admission reason: '' @ str_repr (ra_reason a)))
      else if ra_allowed a \<noteq> (ra_reason a = lit ''meaningful_query'') then
        Inl (ValueError (lit ''allowed admission must use the meaningful_query reason''))
      else Inr a)"

record route_evidence =
  re_routes :: "pystr list"
  re_semantic_similarity :: "rat option"
  re_semantic_rank :: "int option"
  re_lexical_terms_rank :: "int option"
  re_lexical_raw_rank :: "int option"

datatype scope_source = PS_explicit | PS_cwd | PS_agent_inferred

record project_scope =
  ps_value :: pystr
  ps_source :: scope_source
  ps_hard_filter :: bool

definition check_project_scope :: "project_scope \<Rightarrow> project_scope result" where
  "check_project_scope s =
     (if strip (ps_value s) = [] then Inl (ValueError (lit ''project scope value must be non-empty''))
      else if ps_hard_filter s \<and> ps_source s \<noteq> PS_explicit then
        Inl (ValueError (lit ''hard project filtering requires an explicit scope''))
      else Inr (s\<lparr>ps_value := strip (ps_value s)\<rparr>))"

record recall_request =
  rq_raw_query :: pystr
  rq_normalized_query :: pystr
  rq_lexical_terms :: "pystr list"
  rq_admission :: recall_admission
  rq_query_signal :: query_signal
  rq_project_scope :: "project_scope option"
  rq_cwd :: "pystr option"
  rq_adapter :: pystr
  rq_session_id :: "pystr option"

datatype route_status = RS_ok | RS_skipped | RS_timeout | RS_error

datatype route_reason =
    RR_route_completed | RR_admission_rejected | RR_lexical_terms_empty | RR_semantic_not_ready
  | RR_route_timeout | RR_route_error

record route_trace =
  rt_route :: pystr
  rt_status :: route_status
  rt_latency_ms :: rat
  rt_candidate_count :: int
  rt_reason :: route_reason

fun reasons_of_status :: "route_status \<Rightarrow> route_reason list" where
  "reasons_of_status RS_ok = [RR_route_completed]"
| "reasons_of_status RS_skipped = [RR_admission_rejected, RR_lexical_terms_empty, RR_semantic_not_ready]"
| "reasons_of_status RS_timeout = [RR_route_timeout]"
| "reasons_of_status RS_error = [RR_route_error]"

definition check_route_trace :: "route_trace \<Rightarrow> route_trace result" where
  "check_route_trace t =
     (if rt_reason t \<notin> set (reasons_of_status (rt_status t)) then
        Inl (ValueError (lit ''incompatible route status/reason''))
      else if rt_latency_ms t < 0 then Inl (ValueError (lit ''route latency_ms must be non-negative''))
      else if rt_candidate_count t < 0 then
        Inl (ValueError (lit ''route candidate_count must be non-negative''))
      else Inr t)"

record project_shadow =
  sh_candidate_id_digest :: pystr
  sh_project :: pystr
  sh_route :: pystr
  sh_reason :: pystr
  sh_score_bucket :: pystr

text \<open>The digest is \<open>sha256:\<close> and 64 hexadecimal digits.\<close>

definition check_project_shadow :: "project_shadow \<Rightarrow> project_shadow result" where
  "check_project_shadow s =
     (if \<not> (take 7 (sh_candidate_id_digest s) = lit ''sha256:''
           \<and> length (sh_candidate_id_digest s) = 71
           \<and> list_all (\<lambda>c. 48 \<le> c \<and> c \<le> 57 \<or> 97 \<le> c \<and> c \<le> 102) (drop 7 (sh_candidate_id_digest s))) then
        Inl (ValueError (lit ''project shadow candidate id must be a sha256 digest''))
      else if sh_project s = [] \<or> 80 < length (sh_project s) then
        Inl (ValueError (lit ''project shadow project must be bounded''))
      else if sh_route s \<notin> {lit ''lexical_terms'', lit ''lexical_raw_fallback''} then
        Inl (ValueError (lit ''unsupported project shadow route''))
      else Inr s)"

record routed_result =
  rr_hits :: "retrieved_item list"
  rr_routes :: "route_trace list"
  rr_admission :: recall_admission
  rr_evidence_by_id :: "(pystr \<times> route_evidence) list"
  rr_project_shadow :: "project_shadow list"

end
