(* ===== verification/ContextFirewall.thy ===== *)
theory ContextFirewall imports ContextPacking RecallTypes begin

text \<open>
  \<open>memory/context/context_firewall.py\<close>: the firewall that decides which memories reach a prompt.
  Every candidate goes through the gates of \<open>_evaluate\<close>; what passes is sorted by effective score
  and goes through the gate for conflicting state observations, the topic recency gate, the limits
  on duplicates, items and tokens, and the cohort gate over the strong terms of the query.

  The record \<open>gates\<close> holds what the firewall calls and this development does not model: the
  analysis of a query, the answerability checks and the choice of routed candidates
  (\<open>answerability.py\<close>, \<open>query_signal.py\<close>), the compressor, and SHA-256. Every property holds for
  all of them.
\<close>

section \<open>Query context and collaborators\<close>

record query_context =
  qc_raw_query :: pystr
  qc_admission :: recall_admission
  qc_query_signal :: query_signal
  qc_evidence_by_id :: "(pystr \<times> route_evidence) list"

record answerability =
  an_answerable :: bool
  an_reason :: pystr

record gates =
  ga_analyze_query :: "pystr \<Rightarrow> query_signal"
  ga_direct :: "candidate \<Rightarrow> query_signal \<Rightarrow> pystr option \<Rightarrow> answerability"
  ga_routed :: "candidate \<Rightarrow> query_context \<Rightarrow> firewall_config \<Rightarrow> answerability"
  ga_preselect :: "candidate list \<Rightarrow> query_context \<Rightarrow> firewall_config \<Rightarrow> pystr list option"
  ga_substantive_terms :: "pystr list \<Rightarrow> pystr list"
  ga_primary_terms :: "query_signal \<Rightarrow> pystr list"
  ga_compress :: compressor
  ga_sha256 :: "pystr \<Rightarrow> pystr"

definition validated_query_context ::
  "query_context option \<Rightarrow> pystr option \<Rightarrow> query_signal option \<Rightarrow> query_context option result" where
  "validated_query_context ctx query signal =
     (case ctx of
        None \<Rightarrow> Inr None
      | Some c \<Rightarrow>
          if query \<noteq> None \<and> query \<noteq> Some (qc_raw_query c)
            then Inl (ValueError (lit ''query conflicts with routed query context''))
          else if signal \<noteq> None \<and> signal \<noteq> Some (qc_query_signal c)
            then Inl (ValueError (lit ''query_signal conflicts with routed query context''))
          else Inr (Some c))"

text \<open>The text and the signal the gates see.\<close>

definition query_text_of :: "query_context option \<Rightarrow> pystr option \<Rightarrow> pystr option" where
  "query_text_of ctx query =
     (case ctx of
        Some c \<Rightarrow> Some (qc_raw_query c)
      | None \<Rightarrow> if given_text query then Some (map (\<lambda>c. if c = 124 then 32 else c) (the query)) else None)"

definition signal_of ::
  "gates \<Rightarrow> query_context option \<Rightarrow> pystr option \<Rightarrow> query_signal option \<Rightarrow> query_signal option" where
  "signal_of g ctx query signal =
     (case ctx of
        Some c \<Rightarrow> Some (qc_query_signal c)
      | None \<Rightarrow>
          if signal = None \<and> given_text query then
            let s = ga_analyze_query g (text_or_empty (query_text_of None query))
            in if qs_injectable s then Some s else None
          else signal)"

definition query_eligible :: "query_context option \<Rightarrow> query_signal option \<Rightarrow> bool" where
  "query_eligible ctx signal \<longleftrightarrow>
     (case ctx of
        Some c \<Rightarrow> ra_allowed (qc_admission c)
      | None \<Rightarrow> (case signal of None \<Rightarrow> False | Some s \<Rightarrow> qs_injectable s))"

section \<open>Gates on one candidate\<close>

definition max_safe_integer :: int where
  "max_safe_integer = 2 ^ 53 - 1"

text \<open>The value of a score that is finite and safe for JSON.\<close>

fun safe_score :: "candidate_score \<Rightarrow> rat option" where
  "safe_score (Int_score i) = (if \<bar>i\<bar> \<le> max_safe_integer then Some (of_int i) else None)"
| "safe_score (Float_score x) = (if \<bar>x\<bar> \<le> of_int max_safe_integer then Some x else None)"
| "safe_score Other_score = None"

definition answerability_reasons :: "answerability \<Rightarrow> pystr list" where
  "answerability_reasons a =
     [an_reason a] @ (if an_reason a = lit ''query_mismatch'' then [lit ''answerability_mismatch''] else [])"

text \<open>The query gates: the reasons for which the query excludes a candidate, if it does.\<close>

definition query_gate ::
  "gates \<Rightarrow> firewall_config \<Rightarrow> candidate \<Rightarrow> query_signal option \<Rightarrow> pystr option \<Rightarrow> query_context option
     \<Rightarrow> pystr list option \<Rightarrow> pystr list option" where
  "query_gate g cfg c signal query ctx routed =
     (case ctx of
        Some q \<Rightarrow>
          if \<not> ra_allowed (qc_admission q) then Some [lit ''query_not_injectable'']
          else if routed \<noteq> None \<and> mi_id (cd_item c) \<notin> set (the routed)
            then Some [lit ''route_answerability_insufficient'']
          else let a = ga_routed g c q cfg
               in if an_answerable a then None else Some (answerability_reasons a)
      | None \<Rightarrow>
          (case signal of
             None \<Rightarrow> None
           | Some s \<Rightarrow>
               if qs_injectable s then
                 let a = ga_direct g c s query
                 in if an_answerable a then None else Some (answerability_reasons a)
               else None))"

definition closed_signal :: "py_datetime \<Rightarrow> memory_item \<Rightarrow> signal_state option" where
  "closed_signal now item =
     (let s = as_state (assess_signal_state item now)
      in if item_type_str item = lit ''signal'' \<and> s \<in> {SA_resolved, SA_obsolete, SA_deferred}
         then Some s else None)"

text \<open>The gates in the order of the code; \<open>None\<close> when none of them excludes the candidate.\<close>

definition exclusion_reasons ::
  "gates \<Rightarrow> firewall_config \<Rightarrow> py_datetime \<Rightarrow> candidate \<Rightarrow> query_signal option \<Rightarrow> pystr option
     \<Rightarrow> scope option \<Rightarrow> query_context option \<Rightarrow> pystr list option \<Rightarrow> pystr list option" where
  "exclusion_reasons g cfg now c signal query scope ctx routed =
     (let item = cd_item c; type = item_type_str item;
          temporal = temporal_evaluate default_temporal_config now item (cd_body c) scope
      in if item_sensitivity_value item \<notin> set (fc_allowed_sensitivities cfg)
           then Some [lit ''sensitivity_not_allowed'']
         else if given_text (mi_superseded_by item) then Some [lit ''superseded'']
         else if closed_signal now item \<noteq> None
           then Some [signal_state_value (the (closed_signal now item)) @ lit ''_signal'']
         else if any_tag item review_required_tags then Some [lit ''requires_review'']
         else if query_gate g cfg c signal query ctx routed \<noteq> None
           then query_gate g cfg c signal query ctx routed
         else if mi_confidence item < fc_low_confidence_exclude_threshold cfg
           then Some [lit ''very_low_confidence'']
         else if has_strong_negative_feedback item cfg then Some [lit ''negative_feedback'']
         else if fc_require_source_for_fact_decision cfg \<and> type \<in> set source_required_types
             \<and> \<not> has_source_refs item
           then Some [lit ''missing_source'']
         else if type = lit ''signal'' \<and> fc_stale_signal_days cfg < age_days (mi_created_at item) now
           then Some [lit ''stale_signal'']
         else if type = lit ''handoff'' \<and> fc_stale_handoff_days cfg < age_days (mi_created_at item) now
           then Some [lit ''stale_handoff'']
         else if ts_status temporal = TS_scope_mismatch then Some [lit ''scope_mismatch'']
         else if ts_status temporal = TS_stale
           then Some [lit ''stale_'' @ lit (category_value (ts_category temporal))]
         else None)"

text \<open>The demotions: a flag, its reason and its penalty, in the order of the code.\<close>

definition demotions :: "firewall_config \<Rightarrow> memory_item \<Rightarrow> (bool \<times> pystr \<times> rat) list" where
  "demotions cfg item =
     [(any_tag item contested_tags, lit ''contested'', fc_contested_penalty cfg),
      (mi_confidence item < fc_low_confidence_demote_threshold cfg, lit ''low_confidence'',
         fc_low_confidence_penalty cfg),
      (is_l0_evidence_only item, lit ''l0_evidence_only'', fc_l0_evidence_only_penalty cfg)]"

definition demotion_reasons :: "firewall_config \<Rightarrow> memory_item \<Rightarrow> pystr list" where
  "demotion_reasons cfg item = map (\<lambda>(_, reason, _). reason) (filter fst (demotions cfg item))"

definition demoted_score :: "firewall_config \<Rightarrow> memory_item \<Rightarrow> rat \<Rightarrow> rat" where
  "demoted_score cfg item base =
     foldl (\<lambda>score (_, _, penalty). fl64 (score * penalty)) base (filter fst (demotions cfg item))"

definition coverage_bonus ::
  "firewall_config \<Rightarrow> candidate \<Rightarrow> query_signal option \<Rightarrow> query_context option \<Rightarrow> rat \<Rightarrow> rat" where
  "coverage_bonus cfg c signal ctx score =
     (case signal of
        None \<Rightarrow> score
      | Some s \<Rightarrow>
          if query_eligible ctx signal \<and> qs_terms s \<noteq> [] then
            fl64 (score + fl64 (of_nat (length (covered_query_terms c (qs_terms s)))
                                 * fc_query_term_coverage_bonus cfg))
          else score)"

definition evaluate_candidate ::
  "gates \<Rightarrow> firewall_config \<Rightarrow> py_datetime \<Rightarrow> query_signal option \<Rightarrow> pystr option \<Rightarrow> scope option
     \<Rightarrow> query_context option \<Rightarrow> pystr list option \<Rightarrow> candidate \<Rightarrow> decision" where
  "evaluate_candidate g cfg now signal query scope ctx routed c =
     (case safe_score (cd_score c) of
        None \<Rightarrow>
          \<lparr>de_candidate = c, de_action = FA_exclude, de_reasons = [lit ''invalid_candidate_score''],
           de_score = 0, de_effective_score = 0\<rparr>
      | Some score \<Rightarrow>
          let base = (if 0 < score then score else mi_confidence (cd_item c))
          in case exclusion_reasons g cfg now c signal query scope ctx routed of
               Some reasons \<Rightarrow>
                 \<lparr>de_candidate = c, de_action = FA_exclude, de_reasons = reasons,
                  de_score = base, de_effective_score = 0\<rparr>
             | None \<Rightarrow>
                 let reasons = demotion_reasons cfg (cd_item c)
                 in \<lparr>de_candidate = c,
                     de_action = (if reasons \<noteq> [] then FA_demote else FA_include),
                     de_reasons = reasons, de_score = base,
                     de_effective_score =
                       coverage_bonus cfg c signal ctx (demoted_score cfg (cd_item c) base)\<rparr>)"

section \<open>Gates on the cohort\<close>

definition unchanged :: "decision list \<Rightarrow> pystr list \<Rightarrow> cohort_result" where
  "unchanged ds reasons = \<lparr>co_included = ds, co_excluded = [], co_reasons = reasons\<rparr>"

definition decision_id :: "decision \<Rightarrow> pystr" where
  "decision_id d = mi_id (decision_item d)"

text \<open>The decisions with one of the given ids are excluded with a reason.\<close>

definition split_out :: "pystr list \<Rightarrow> pystr \<Rightarrow> pystr list \<Rightarrow> decision list \<Rightarrow> cohort_result" where
  "split_out ids reason reasons ds =
     \<lparr>co_included = filter (\<lambda>d. decision_id d \<notin> set ids) ds,
      co_excluded = map (\<lambda>d. exclude_with d reason) (filter (\<lambda>d. decision_id d \<in> set ids) ds),
      co_reasons = reasons\<rparr>"

subsection \<open>Conflicting observations of a state\<close>

definition state_category :: "py_datetime \<Rightarrow> decision \<Rightarrow> temporal_category" where
  "state_category now d =
     ts_category (temporal_evaluate default_temporal_config now (decision_item d)
                    (cd_body (de_candidate d)) None)"

text \<open>The groups a decision belongs to: an anchor and the scope of the item.\<close>

definition conflict_keys :: "py_datetime \<Rightarrow> decision \<Rightarrow> (pystr \<times> pystr list) list" where
  "conflict_keys now d =
     (if state_category now d \<in> {TC_negative, TC_positive}
      then map (\<lambda>a. (a, temporal_scope_signature (decision_item d)))
             (temporal_conflict_anchors (de_candidate d))
      else [])"

definition conflict_group :: "py_datetime \<Rightarrow> decision list \<Rightarrow> pystr \<times> pystr list \<Rightarrow> decision list" where
  "conflict_group now ds key = filter (\<lambda>d. key \<in> set (conflict_keys now d)) ds"

definition group_losers :: "py_datetime \<Rightarrow> decision list \<Rightarrow> pystr list" where
  "group_losers now ds =
     (if list_ex (\<lambda>d. state_category now d = TC_negative) ds
         \<and> list_ex (\<lambda>d. state_category now d = TC_positive) ds
      then let winner = max_by recency_key (hd ds) (tl ds)
           in filter (\<lambda>i. i \<noteq> decision_id winner) (map decision_id ds)
      else [])"

definition temporal_losers :: "py_datetime \<Rightarrow> decision list \<Rightarrow> pystr list" where
  "temporal_losers now ds =
     concat (map (\<lambda>key. group_losers now (conflict_group now ds key))
       (dedup (concat (map (conflict_keys now) ds))))"

definition temporal_conflict_gate :: "py_datetime \<Rightarrow> decision list \<Rightarrow> cohort_result" where
  "temporal_conflict_gate now ds =
     (if length ds < 2 then unchanged ds []
      else let losers = temporal_losers now ds
           in if losers = [] then unchanged ds []
              else split_out losers (lit ''temporal_state_conflict_newer'')
                     [lit ''temporal_state_conflict_newer''] ds)"

subsection \<open>Newer memories on the same topic\<close>

definition is_topic_recency_conflict ::
  "firewall_config \<Rightarrow> query_signal \<Rightarrow> decision \<Rightarrow> decision \<Rightarrow> bool" where
  "is_topic_recency_conflict cfg signal left right \<longleftrightarrow>
     (let lt = item_type_str (decision_item left); rt = item_type_str (decision_item right);
          durable = {lt, rt} \<subseteq> set source_required_types
      in (durable \<or> lt = rt)
         \<and> {lt, rt} \<subseteq> set topic_recency_types
         \<and> temporal_scope_signature (decision_item left) = temporal_scope_signature (decision_item right)
         \<and> matches_query (de_candidate left) signal \<and> matches_query (de_candidate right) signal
         \<and> topic_recency_matches (de_candidate left) (de_candidate right)
             (fc_topic_recency_min_shared_terms cfg))"

definition durable_pair :: "decision \<times> decision \<Rightarrow> bool" where
  "durable_pair p \<longleftrightarrow>
     {item_type_str (decision_item (fst p)), item_type_str (decision_item (snd p))}
       \<subseteq> set source_required_types"

fun pairs :: "'a list \<Rightarrow> ('a \<times> 'a) list" where
  "pairs [] = []"
| "pairs (x # xs) = map (Pair x) xs @ pairs xs"

definition topic_loser :: "decision \<times> decision \<Rightarrow> pystr option" where
  "topic_loser p =
     (let (left, right) = p;
          winner = max_by recency_key left [right];
          loser = (if decision_id winner = decision_id left then right else left)
      in if fst (recency_key winner) \<le> fst (recency_key loser) then None else Some (decision_id loser))"

definition topic_recency_gate ::
  "firewall_config \<Rightarrow> query_signal option \<Rightarrow> query_context option \<Rightarrow> decision list \<Rightarrow> cohort_result" where
  "topic_recency_gate cfg signal ctx ds =
     (case signal of
        None \<Rightarrow> unchanged ds []
      | Some s \<Rightarrow>
          if length ds < 2 \<or> \<not> query_eligible ctx signal then unchanged ds []
          else
            let conflicts = filter (\<lambda>(l, r). is_topic_recency_conflict cfg s l r) (pairs ds);
                losers = List.map_filter topic_loser (filter (\<lambda>p. \<not> durable_pair p) conflicts);
                reasons = (if list_ex durable_pair conflicts
                           then [lit ''topic_conflict_requires_verification''] else [])
            in if losers = [] then unchanged ds reasons
               else split_out losers (lit ''topic_recency_newer'')
                      (reasons @ [lit ''topic_recency_newer'']) ds)"

subsection \<open>Coverage of the strong terms\<close>

definition cohort_gate ::
  "gates \<Rightarrow> firewall_config \<Rightarrow> query_signal option \<Rightarrow> query_context option \<Rightarrow> decision list \<Rightarrow> cohort_result" where
  "cohort_gate g cfg signal ctx ds =
     (if ctx \<noteq> None \<and> \<not> ra_allowed (qc_admission (the ctx))
        then reject_cohort ds (lit ''query_not_injectable'')
      else case signal of
        None \<Rightarrow> unchanged ds []
      | Some s \<Rightarrow>
          if ctx = None \<and> \<not> qs_injectable s then reject_cohort ds (lit ''query_not_injectable'')
          else if ds = [] then unchanged [] []
          else
            let strong = ga_substantive_terms g (qs_strong_terms s); covered = covered_strong_terms ds strong
            in if strong \<noteq> []
                 \<and> fl64 (of_nat (length covered) / of_nat (length strong)) < fc_min_strong_term_coverage cfg
                 \<and> (let primary = ga_primary_terms g s
                    in \<not> (primary = [] \<or> list_ex (\<lambda>t. t \<in> set covered) primary)
                       \<or> list_ex (\<lambda>t. is_ascii t \<and> t \<notin> set covered) strong)
               then reject_cohort ds (lit ''cohort_strong_anchor_undercovered'')
               else unchanged ds [])"

section \<open>Limits\<close>

definition cluster_key :: "gates \<Rightarrow> candidate \<Rightarrow> pystr" where
  "cluster_key g c =
     (if given_text (cd_cluster_key c) then the (cd_cluster_key c)
      else ga_sha256 g (text_or_empty (mi_project (cd_item c)) @ [10]
             @ lower (strip (mi_title (cd_item c))) @ [10] @ lower (strip (mi_summary (cd_item c)))))"

record limits =
  li_included :: "decision list"
  li_excluded :: "decision list"
  li_counts :: "(pystr \<times> int) list"
  li_used_tokens :: int

definition cluster_count :: "limits \<Rightarrow> pystr \<Rightarrow> int" where
  "cluster_count l key = (case map_of (li_counts l) key of None \<Rightarrow> 0 | Some n \<Rightarrow> n)"

definition drop_decision :: "limits \<Rightarrow> decision \<Rightarrow> string \<Rightarrow> limits" where
  "drop_decision l d reason = l\<lparr>li_excluded := li_excluded l @ [exclude_with d (lit reason)]\<rparr>"

definition admit_decision :: "limits \<Rightarrow> pystr \<Rightarrow> decision \<Rightarrow> int \<Rightarrow> limits" where
  "admit_decision l key d tokens =
     l\<lparr>li_included := li_included l @ [d],
       li_counts := AList.update key (cluster_count l key + 1) (li_counts l),
       li_used_tokens := li_used_tokens l + tokens\<rparr>"

definition limit_step :: "gates \<Rightarrow> firewall_config \<Rightarrow> int \<Rightarrow> int option \<Rightarrow> limits \<Rightarrow> decision \<Rightarrow> limits" where
  "limit_step g cfg limit budget l d =
     (let key = cluster_key g (de_candidate d)
      in if fc_max_per_duplicate_cluster cfg \<le> cluster_count l key
           then drop_decision l d ''duplicate_cluster''
         else if limit \<le> int (length (li_included l)) then drop_decision l d ''max_items_exceeded''
         else case budget of
           None \<Rightarrow> admit_decision l key d 0
         | Some b \<Rightarrow>
             (case pr_included (pack_decisions (ga_compress g) [d] Auto (Some (b - li_used_tokens l))
                                  default_retrieve_head_chars) of
                [] \<Rightarrow> drop_decision l d ''pack_budget_exceeded''
              | p # _ \<Rightarrow> admit_decision l key (pd_decision p) (cp_packed_tokens (pd_pack p))))"

definition apply_limits ::
  "gates \<Rightarrow> firewall_config \<Rightarrow> int option \<Rightarrow> int option \<Rightarrow> decision list \<Rightarrow> limits" where
  "apply_limits g cfg max_items budget ds =
     foldl (limit_step g cfg (case max_items of Some n \<Rightarrow> n | None \<Rightarrow> int (length ds)) budget)
       \<lparr>li_included = [], li_excluded = [], li_counts = [], li_used_tokens = 0\<rparr> ds"

section \<open>The firewall\<close>

definition decision_by_id :: "decision list \<Rightarrow> pystr \<Rightarrow> decision result" where
  "decision_by_id ds item_id =
     (case map_of (rev (map (\<lambda>d. (decision_id d, d)) ds)) item_id of
        None \<Rightarrow> Inl (KeyError item_id) | Some d \<Rightarrow> Inr d)"

text \<open>What passes its gates, best effective score first; the sort is stable.\<close>

definition packable :: "decision list \<Rightarrow> decision list" where
  "packable evaluated =
     sort_key (\<lambda>d. - de_effective_score d) (filter (\<lambda>d. de_action d \<noteq> FA_exclude) evaluated)"

definition run_firewall ::
  "gates \<Rightarrow> firewall_config \<Rightarrow> py_datetime \<Rightarrow> query_signal option \<Rightarrow> pystr option \<Rightarrow> scope option
     \<Rightarrow> query_context option \<Rightarrow> int option \<Rightarrow> int option \<Rightarrow> candidate list \<Rightarrow> firewall_result result" where
  "run_firewall g cfg now signal query scope ctx max_items budget candidates =
     (let routed = (case ctx of None \<Rightarrow> None | Some q \<Rightarrow> ga_preselect g candidates q cfg);
          evaluated = map (evaluate_candidate g cfg now signal query scope ctx routed) candidates;
          temporal = temporal_conflict_gate now (packable evaluated);
          topic = topic_recency_gate cfg signal ctx (co_included temporal);
          limits = apply_limits g cfg max_items budget (co_included topic);
          cohort = cohort_gate g cfg signal ctx (li_included limits);
          excluded = filter (\<lambda>d. de_action d = FA_exclude) evaluated
                     @ co_excluded temporal @ co_excluded topic @ li_excluded limits @ co_excluded cohort
      in bindR (mapR (\<lambda>c. decision_by_id (co_included cohort @ excluded) (mi_id (cd_item c))) candidates)
           (\<lambda>decisions. Inr
             \<lparr>fw_included = co_included cohort, fw_excluded = excluded, fw_decisions = decisions,
              fw_cohort_reasons = co_reasons temporal @ co_reasons topic @ co_reasons cohort\<rparr>))"

definition filter_context ::
  "gates \<Rightarrow> firewall_config \<Rightarrow> py_datetime \<Rightarrow> candidate list \<Rightarrow> pystr option \<Rightarrow> query_signal option
     \<Rightarrow> int option \<Rightarrow> int option \<Rightarrow> scope option \<Rightarrow> query_context option \<Rightarrow> firewall_result result" where
  "filter_context g cfg now candidates query signal max_items budget scope ctx =
     bindR (validated_query_context ctx query signal) (\<lambda>ctx.
       run_firewall g cfg (aware now) (signal_of g ctx query signal) (query_text_of ctx query) scope ctx
         max_items budget candidates)"

definition validate_cohort ::
  "gates \<Rightarrow> firewall_config \<Rightarrow> decision list \<Rightarrow> query_signal option \<Rightarrow> query_context option \<Rightarrow> cohort_result result" where
  "validate_cohort g cfg included signal ctx =
     bindR (validated_query_context ctx None signal) (\<lambda>ctx.
       Inr (cohort_gate g cfg (case ctx of Some c \<Rightarrow> Some (qc_query_signal c) | None \<Rightarrow> signal) ctx included))"

end
