(* ===== verification/FirewallLaws.thy ===== *)
theory FirewallLaws imports ContextFirewall begin

text \<open>
  Properties of the context firewall. A gate on a cohort keeps some decisions in their order and
  excludes the others with a reason (locale \<open>decision_gate\<close>, interpreted on the three gates of the
  code); the limits keep a subsequence. From these facts follow what is injected (only candidates
  that pass every gate, in order of their effective score, within the limits, without contradicting
  observations of a state) and that every candidate is accounted for.
\<close>

section \<open>Gates that split a cohort\<close>

definition split_of :: "decision list \<Rightarrow> cohort_result \<Rightarrow> bool" where
  "split_of ds c \<longleftrightarrow> (\<exists>P reason. co_included c = filter P ds
     \<and> co_excluded c = map (\<lambda>d. exclude_with d reason) (filter (\<lambda>d. \<not> P d) ds))"

lemma split_of_unchanged [simp]: "split_of ds (unchanged ds reasons)"
  unfolding split_of_def by (rule exI [where x = "\<lambda>_. True"]) (simp add: unchanged_def)

lemma split_of_split_out [simp]: "split_of ds (split_out ids reason reasons ds)"
  unfolding split_of_def
  by (rule exI [where x = "\<lambda>d. decision_id d \<notin> set ids"]) (auto simp: split_out_def)

lemma split_of_reject [simp]: "split_of ds (reject_cohort ds reason)"
  unfolding split_of_def by (rule exI [where x = "\<lambda>_. False"]) (auto simp: reject_cohort_def)

locale decision_gate =
  fixes gate :: "decision list \<Rightarrow> cohort_result"
  assumes splits: "split_of ds (gate ds)"
begin

lemma kept_subset: "set (co_included (gate ds)) \<subseteq> set ds"
  using splits [of ds] by (auto simp: split_of_def)

lemma kept_sorted: "sorted (map f ds) \<Longrightarrow> sorted (map f (co_included (gate ds)))"
  using splits [of ds] by (auto simp: split_of_def sorted_filter)

lemma kept_subseq: "subseq (co_included (gate ds)) ds"
  using splits [of ds] by (auto simp: split_of_def)

lemma candidates_kept:
  "mset (map de_candidate (co_included (gate ds))) + mset (map de_candidate (co_excluded (gate ds)))
     = mset (map de_candidate ds)"
proof -
  obtain P r where p: "co_included (gate ds) = filter P ds"
      "co_excluded (gate ds) = map (\<lambda>d. exclude_with d r) (filter (\<lambda>d. \<not> P d) ds)"
    using splits [of ds] by (auto simp: split_of_def)
  have "mset (map de_candidate (filter P ds)) + mset (map de_candidate (filter (\<lambda>d. \<not> P d) ds))
      = mset (map de_candidate ds)"
    by (induction ds) auto
  then show ?thesis by (simp add: p exclude_with_def comp_def)
qed

end

interpretation temporal: decision_gate "temporal_conflict_gate now" for now
  by unfold_locales (simp add: temporal_conflict_gate_def Let_def)

interpretation topic: decision_gate "topic_recency_gate cfg signal ctx" for cfg signal ctx
  by unfold_locales (simp add: topic_recency_gate_def Let_def split: option.splits)

interpretation cohort: decision_gate "cohort_gate g cfg signal ctx" for g cfg signal ctx
  by unfold_locales (simp add: cohort_gate_def Let_def split: option.splits)

section \<open>Limits\<close>

text \<open>What the limits leave unchanged in a decision.\<close>

definition core :: "decision \<Rightarrow> candidate \<times> firewall_action \<times> rat \<times> rat" where
  "core d = (de_candidate d, de_action d, de_score d, de_effective_score d)"

definition smallest_view_tokens :: "candidate \<Rightarrow> int" where
  "smallest_view_tokens c =
     min (pack_tokens (render_context_view (cd_item c) (cd_body c) CV_overview))
         (pack_tokens (render_context_view (cd_item c) (cd_body c) CV_locator))"

definition cohort_tokens :: "decision list \<Rightarrow> int" where
  "cohort_tokens ds = sum_list (map (\<lambda>d. smallest_view_tokens (de_candidate d)) ds)"

definition cluster_size :: "gates \<Rightarrow> decision list \<Rightarrow> pystr \<Rightarrow> int" where
  "cluster_size g ds key = int (length (filter (\<lambda>d. cluster_key g (de_candidate d) = key) ds))"


definition limits_ok :: "gates \<Rightarrow> firewall_config \<Rightarrow> int \<Rightarrow> int option \<Rightarrow> decision list \<Rightarrow> limits \<Rightarrow> bool" where
  "limits_ok g cfg limit budget ds l \<longleftrightarrow>
     subseq (map core (li_included l)) (map core ds)
     \<and> mset (map de_candidate (li_included l)) + mset (map de_candidate (li_excluded l))
         = mset (map de_candidate ds)
     \<and> int (length (li_included l)) \<le> max 0 limit
     \<and> (\<forall>key. cluster_count l key = cluster_size g (li_included l) key
           \<and> cluster_size g (li_included l) key \<le> max 0 (fc_max_per_duplicate_cluster cfg))
     \<and> (case budget of None \<Rightarrow> True
        | Some b \<Rightarrow> cohort_tokens (li_included l) \<le> li_used_tokens l \<and> li_used_tokens l \<le> max 0 b)"

lemma pack_single:
  assumes "pr_included (pack_decisions compress [d] Auto (Some r) h) = p # ps" and "de_action d \<noteq> FA_exclude"
  shows "core (pd_decision p) = core d" and "cp_packed_tokens (pd_pack p) \<le> r"
    and "smallest_view_tokens (de_candidate d) \<le> cp_packed_tokens (pd_pack p)"
proof -
  have one: "pack_one compress Auto (Some r) h d = Some p"
    using assms by (simp add: pack_decisions_def pack_step_def split: option.splits)
  from pack_one_Some [OF one] show "core (pd_decision p) = core d" "cp_packed_tokens (pd_pack p) \<le> r"
    by (simp_all add: core_def)
  obtain view where v: "view \<in> {CV_overview, CV_locator}"
    "cp_selected_view (decision_pack compress d Auto None h) = view"
    "cp_packed_tokens (decision_pack compress d Auto None h) = view_tokens d view"
    by (rule auto_pack)
  have "cp_packed_tokens (pd_pack p) \<in> {view_tokens d CV_overview, view_tokens d CV_locator}"
    using one v by (auto simp: pack_one_def Let_def fit_pack_def split: if_splits)
  then show "smallest_view_tokens (de_candidate d) \<le> cp_packed_tokens (pd_pack p)"
    by (auto simp: smallest_view_tokens_def view_tokens_def)
qed

lemma smallest_view_tokens_nonneg: "0 \<le> smallest_view_tokens c"
  by (simp add: smallest_view_tokens_def pack_tokens_nonneg)

text \<open>The three ways a step of the limits changes its state.\<close>

lemma limit_step_cases:
  assumes "de_action d \<noteq> FA_exclude"
  obtains (dropped) reason where "limit_step g cfg limit budget l d = drop_decision l d reason"
  | (admitted) d' tokens where
      "limit_step g cfg limit budget l d = admit_decision l (cluster_key g (de_candidate d)) d' tokens"
      "core d' = core d"
      "cluster_count l (cluster_key g (de_candidate d)) < fc_max_per_duplicate_cluster cfg"
      "int (length (li_included l)) < limit"
      "case budget of None \<Rightarrow> True
        | Some b \<Rightarrow> tokens \<le> b - li_used_tokens l \<and> smallest_view_tokens (de_candidate d) \<le> tokens"
proof -
  let ?packed = "pr_included (pack_decisions (ga_compress g) [d] Auto
      (Some (the budget - li_used_tokens l)) default_retrieve_head_chars)"
  show ?thesis
  proof (cases "fc_max_per_duplicate_cluster cfg \<le> cluster_count l (cluster_key g (de_candidate d))
      \<or> limit \<le> int (length (li_included l)) \<or> budget \<noteq> None \<and> ?packed = []")
    case True
    then have "\<exists>reason. limit_step g cfg limit budget l d = drop_decision l d reason"
      by (auto simp: limit_step_def Let_def)
    then show ?thesis using dropped by blast
  next
    case False
    show ?thesis
    proof (cases budget)
      case None
      with False show ?thesis by (intro admitted [of d 0]) (auto simp: limit_step_def Let_def)
    next
      case (Some b)
      with False obtain p ps where p: "pr_included (pack_decisions (ga_compress g) [d] Auto
          (Some (b - li_used_tokens l)) default_retrieve_head_chars) = p # ps"
        by (cases ?packed) auto
      from False Some p pack_single [OF p assms] show ?thesis
        by (intro admitted [of "pd_decision p" "cp_packed_tokens (pd_pack p)"])
          (auto simp: limit_step_def Let_def)
    qed
  qed
qed

lemma core_candidate: "core d' = core d \<Longrightarrow> de_candidate d' = de_candidate d"
  by (simp add: core_def)

lemma limits_ok_drop:
  assumes "limits_ok g cfg limit budget ds l"
  shows "limits_ok g cfg limit budget (ds @ [d]) (drop_decision l d reason)"
  using assms by (cases budget) (auto simp: limits_ok_def drop_decision_def exclude_with_def cluster_count_def
      intro: subseq_rev_drop_many)

lemma limits_ok_admit:
  assumes ok: "limits_ok g cfg limit budget ds l"
    and d: "core d' = core d"
    and count: "cluster_count l (cluster_key g (de_candidate d)) < fc_max_per_duplicate_cluster cfg"
    and room: "int (length (li_included l)) < limit"
    and tokens: "case budget of None \<Rightarrow> True
        | Some b \<Rightarrow> tokens \<le> b - li_used_tokens l \<and> smallest_view_tokens (de_candidate d) \<le> tokens"
  shows "limits_ok g cfg limit budget (ds @ [d])
           (admit_decision l (cluster_key g (de_candidate d)) d' tokens)"
proof -
  let ?k = "cluster_key g (de_candidate d)" and ?l = "admit_decision l (cluster_key g (de_candidate d)) d' tokens"
  have inc: "li_included ?l = li_included l @ [d']" by (simp add: admit_decision_def)
  have "subseq (map core (li_included ?l)) (map core (ds @ [d]))"
    using ok d by (simp add: inc limits_ok_def list_emb_append_mono)
  moreover have "mset (map de_candidate (li_included ?l)) + mset (map de_candidate (li_excluded ?l))
      = mset (map de_candidate (ds @ [d]))"
    using ok core_candidate [OF d] by (simp add: limits_ok_def admit_decision_def)
  moreover have "int (length (li_included ?l)) \<le> max 0 limit"
    using room by (simp add: inc)
  moreover have "cluster_count ?l key = cluster_size g (li_included ?l) key
      \<and> cluster_size g (li_included ?l) key \<le> max 0 (fc_max_per_duplicate_cluster cfg)" for key
  proof -
    have "cluster_count l key = cluster_size g (li_included l) key
        \<and> cluster_size g (li_included l) key \<le> max 0 (fc_max_per_duplicate_cluster cfg)"
      using ok by (simp add: limits_ok_def)
    moreover have "cluster_count ?l key = cluster_count l key + (if key = ?k then 1 else 0)"
      by (simp add: cluster_count_def admit_decision_def update_conv')
    moreover have "cluster_size g (li_included ?l) key
        = cluster_size g (li_included l) key + (if key = ?k then 1 else 0)"
      using core_candidate [OF d] by (simp add: cluster_size_def inc)
    ultimately show ?thesis using count by auto
  qed
  moreover have "case budget of None \<Rightarrow> True
      | Some b \<Rightarrow> cohort_tokens (li_included ?l) \<le> li_used_tokens ?l \<and> li_used_tokens ?l \<le> max 0 b"
    using ok tokens core_candidate [OF d]
    by (cases budget) (auto simp: limits_ok_def cohort_tokens_def admit_decision_def)
  ultimately show ?thesis unfolding limits_ok_def by blast
qed

lemma limit_step_ok:
  assumes "limits_ok g cfg limit budget ds l" and "de_action d \<noteq> FA_exclude"
  shows "limits_ok g cfg limit budget (ds @ [d]) (limit_step g cfg limit budget l d)"
  by (cases rule: limit_step_cases [OF assms(2), of g cfg limit budget l])
    (simp_all add: limits_ok_drop [OF assms(1)] limits_ok_admit [OF assms(1)])

lemma limits_ok_start:
  "limits_ok g cfg limit budget [] \<lparr>li_included = [], li_excluded = [], li_counts = [], li_used_tokens = 0\<rparr>"
  by (simp add: limits_ok_def cluster_count_def cluster_size_def cohort_tokens_def split: option.splits)

lemma apply_limits_ok:
  assumes "list_all (\<lambda>d. de_action d \<noteq> FA_exclude) ds"
  shows "limits_ok g cfg (case max_items of Some n \<Rightarrow> n | None \<Rightarrow> int (length ds)) budget ds
           (apply_limits g cfg max_items budget ds)"
proof -
  have "limits_ok g cfg limit budget ds (foldl (limit_step g cfg limit budget)
      \<lparr>li_included = [], li_excluded = [], li_counts = [], li_used_tokens = 0\<rparr> ds)" for limit
    using assms by (induction ds rule: rev_induct) (simp_all add: limits_ok_start limit_step_ok)
  then show ?thesis by (simp add: apply_limits_def)
qed

section \<open>A run of the firewall\<close>

text \<open>The stages of a run, named once for the proofs below.\<close>

definition run_evaluated ::
  "gates \<Rightarrow> firewall_config \<Rightarrow> py_datetime \<Rightarrow> query_signal option \<Rightarrow> pystr option \<Rightarrow> scope option
     \<Rightarrow> query_context option \<Rightarrow> candidate list \<Rightarrow> decision list" where
  "run_evaluated g cfg now signal query scope ctx candidates =
     map (evaluate_candidate g cfg now signal query scope ctx
       (case ctx of None \<Rightarrow> None | Some q \<Rightarrow> ga_preselect g candidates q cfg)) candidates"

definition run_cohort ::
  "firewall_config \<Rightarrow> py_datetime \<Rightarrow> query_signal option \<Rightarrow> query_context option \<Rightarrow> decision list \<Rightarrow> decision list" where
  "run_cohort cfg now signal ctx evaluated =
     co_included (topic_recency_gate cfg signal ctx (co_included (temporal_conflict_gate now (packable evaluated))))"

lemma evaluate_candidate_candidate [simp]:
  "de_candidate (evaluate_candidate g cfg now signal query scope ctx routed c) = c"
  by (simp add: evaluate_candidate_def Let_def split: option.splits)

lemma packable_set: "set (packable ds) = {d \<in> set ds. de_action d \<noteq> FA_exclude}"
  by (auto simp: packable_def)

lemma run_cohort_subset: "set (run_cohort cfg now signal ctx ds) \<subseteq> {d \<in> set ds. de_action d \<noteq> FA_exclude}"
  using topic.kept_subset temporal.kept_subset packable_set unfolding run_cohort_def by blast

lemma run_cohort_sorted: "sorted (map (\<lambda>d. - de_effective_score d) (run_cohort cfg now signal ctx ds))"
  unfolding run_cohort_def by (intro topic.kept_sorted temporal.kept_sorted) (simp add: packable_def)

lemma mapR_exists: "(\<And>x. x \<in> set xs \<Longrightarrow> \<exists>y. f x = Inr y) \<Longrightarrow> \<exists>ys. mapR f xs = Inr ys"
proof (induction xs)
  case (Cons x xs)
  then obtain y ys where "f x = Inr y" "mapR f xs = Inr ys" by force
  then show ?case by simp
qed simp

lemma decision_by_id_Inr:
  "decision_by_id ds i = Inr d \<Longrightarrow> decision_id d = i \<and> d \<in> set ds"
  by (auto simp: decision_by_id_def split: option.splits dest: map_of_SomeD)

lemma decision_by_id_found:
  assumes "c \<in> de_candidate ` set ds"
  shows "\<exists>d. decision_by_id ds (mi_id (cd_item c)) = Inr d"
proof -
  have "mi_id (cd_item c) \<in> fst ` set (rev (map (\<lambda>d. (decision_id d, d)) ds))"
    using assms by (force simp: decision_id_def)
  then have "map_of (rev (map (\<lambda>d. (decision_id d, d)) ds)) (mi_id (cd_item c)) \<noteq> None"
    by (simp add: map_of_eq_None_iff)
  then show ?thesis by (auto simp: decision_by_id_def)
qed

lemma mset_stages:
  "E + P = A \<Longrightarrow> Ti + Tx = P \<Longrightarrow> Ui + Ux = Ti \<Longrightarrow> Li + Lx = Ui \<Longrightarrow> Ci + Cx = Li
    \<Longrightarrow> Ci + (E + (Tx + (Ux + (Lx + Cx)))) = (A :: 'a multiset)"
  by (auto simp: ac_simps)

lemma subseq_set: "subseq xs ys \<Longrightarrow> set xs \<subseteq> set ys"
  by (induction rule: list_emb.induct) auto

text \<open>Everything known of a run: it returns, and its parts.\<close>

lemma run_firewall_parts:
  fixes g cfg now signal query scope ctx max_items budget candidates
  defines "evaluated \<equiv> run_evaluated g cfg now signal query scope ctx candidates"
  obtains r l where
    "run_firewall g cfg now signal query scope ctx max_items budget candidates = Inr r"
    "l = apply_limits g cfg max_items budget (run_cohort cfg now signal ctx evaluated)"
    "fw_included r = co_included (cohort_gate g cfg signal ctx (li_included l))"
    "limits_ok g cfg (case max_items of Some n \<Rightarrow> n
        | None \<Rightarrow> int (length (run_cohort cfg now signal ctx evaluated))) budget
      (run_cohort cfg now signal ctx evaluated) l"
    "mset (map de_candidate (fw_included r @ fw_excluded r)) = mset candidates"
    "list_all2 (\<lambda>c d. decision_id d = mi_id (cd_item c) \<and> d \<in> set (fw_included r @ fw_excluded r))
       candidates (fw_decisions r)"
proof -
  define T where "T = temporal_conflict_gate now (packable evaluated)"
  define U where "U = topic_recency_gate cfg signal ctx (co_included T)"
  define l where "l = apply_limits g cfg max_items budget (co_included U)"
  define C where "C = cohort_gate g cfg signal ctx (li_included l)"
  define X where "X = filter (\<lambda>d. de_action d = FA_exclude) evaluated
      @ co_excluded T @ co_excluded U @ li_excluded l @ co_excluded C"
  have U: "co_included U = run_cohort cfg now signal ctx evaluated"
    by (simp add: U_def T_def run_cohort_def)
  have ok: "limits_ok g cfg (case max_items of Some n \<Rightarrow> n | None \<Rightarrow> int (length (co_included U))) budget
      (co_included U) l"
    unfolding l_def using run_cohort_subset [of cfg now signal ctx evaluated]
    by (intro apply_limits_ok) (auto simp: U list_all_iff)
  have parts: "mset (map de_candidate (filter (\<lambda>d. de_action d = FA_exclude) evaluated))
      + mset (map de_candidate (packable evaluated)) = mset (map de_candidate evaluated)"
    unfolding packable_def by (induction evaluated) auto
  have limits: "mset (map de_candidate (li_included l)) + mset (map de_candidate (li_excluded l))
      = mset (map de_candidate (co_included U))"
    using ok by (simp add: limits_ok_def)
  have "map de_candidate evaluated = candidates"
    by (simp add: evaluated_def run_evaluated_def comp_def)
  with mset_stages [OF parts temporal.candidates_kept [of now "packable evaluated", folded T_def]
      topic.candidates_kept [of cfg signal ctx "co_included T", folded U_def] limits
      cohort.candidates_kept [of g cfg signal ctx "li_included l", folded C_def]]
  have all: "mset (map de_candidate (co_included C @ X)) = mset candidates"
    by (simp add: X_def)
  have run: "run_firewall g cfg now signal query scope ctx max_items budget candidates =
      bindR (mapR (\<lambda>c. decision_by_id (co_included C @ X) (mi_id (cd_item c))) candidates)
        (\<lambda>decisions. Inr \<lparr>fw_included = co_included C, fw_excluded = X, fw_decisions = decisions,
          fw_cohort_reasons = co_reasons T @ co_reasons U @ co_reasons C\<rparr>)"
    by (simp add: run_firewall_def Let_def X_def C_def l_def U_def T_def evaluated_def run_evaluated_def)
  have "\<exists>d. decision_by_id (co_included C @ X) (mi_id (cd_item c)) = Inr d" if "c \<in> set candidates" for c
  proof (rule decision_by_id_found)
    show "c \<in> de_candidate ` set (co_included C @ X)"
      using that all by (metis list.set_map set_mset_mset)
  qed
  then obtain ds where ds: "mapR (\<lambda>c. decision_by_id (co_included C @ X) (mi_id (cd_item c))) candidates = Inr ds"
    using mapR_exists [of candidates "\<lambda>c. decision_by_id (co_included C @ X) (mi_id (cd_item c))"] by blast
  then have decided: "list_all2 (\<lambda>c d. decision_id d = mi_id (cd_item c) \<and> d \<in> set (co_included C @ X)) candidates ds"
    unfolding mapR_Inr by (rule list_all2_mono) (rule decision_by_id_Inr)
  define R where "R = \<lparr>fw_included = co_included C, fw_excluded = X, fw_decisions = ds,
    fw_cohort_reasons = co_reasons T @ co_reasons U @ co_reasons C\<rparr>"
  have R: "fw_included R = co_included C" "fw_excluded R = X" "fw_decisions R = ds"
    by (simp_all add: R_def)
  show ?thesis
  proof (rule that)
    show "run_firewall g cfg now signal query scope ctx max_items budget candidates = Inr R"
      unfolding run ds by (simp add: R_def)
    show "l = apply_limits g cfg max_items budget (run_cohort cfg now signal ctx evaluated)"
      by (simp only: l_def U)
    show "fw_included R = co_included (cohort_gate g cfg signal ctx (li_included l))"
      by (simp only: R C_def)
    show "limits_ok g cfg (case max_items of Some n \<Rightarrow> n
        | None \<Rightarrow> int (length (run_cohort cfg now signal ctx evaluated))) budget
      (run_cohort cfg now signal ctx evaluated) l"
      using ok by (simp only: U)
    show "mset (map de_candidate (fw_included R @ fw_excluded R)) = mset candidates"
      using all by (simp only: R)
    show "list_all2 (\<lambda>c d. decision_id d = mi_id (cd_item c) \<and> d \<in> set (fw_included R @ fw_excluded R))
       candidates (fw_decisions R)"
      using decided by (simp only: R)
  qed
qed

lemma run_firewall_result:
  assumes "run_firewall g cfg now signal query scope ctx max_items budget candidates = Inr r"
  defines "cohort_ds \<equiv> run_cohort cfg now signal ctx (run_evaluated g cfg now signal query scope ctx candidates)"
  obtains l where "fw_included r = co_included (cohort_gate g cfg signal ctx (li_included l))"
    "limits_ok g cfg (case max_items of Some n \<Rightarrow> n | None \<Rightarrow> int (length cohort_ds)) budget cohort_ds l"
proof (rule run_firewall_parts [of g cfg now signal query scope ctx max_items budget candidates])
  fix r' l
  assume "run_firewall g cfg now signal query scope ctx max_items budget candidates = Inr r'"
    and parts: "fw_included r' = co_included (cohort_gate g cfg signal ctx (li_included l))"
      "limits_ok g cfg (case max_items of Some n \<Rightarrow> n
          | None \<Rightarrow> int (length (run_cohort cfg now signal ctx (run_evaluated g cfg now signal query scope ctx candidates))))
        budget (run_cohort cfg now signal ctx (run_evaluated g cfg now signal query scope ctx candidates)) l"
  then have "r' = r" using assms(1) by simp
  with parts show ?thesis unfolding cohort_ds_def [symmetric] by (intro that [of l]) simp_all
qed

lemma run_firewall_included:
  assumes "run_firewall g cfg now signal query scope ctx max_items budget candidates = Inr r"
  shows "fw_included r = co_included (cohort_gate g cfg signal ctx (li_included (apply_limits g cfg max_items budget
    (run_cohort cfg now signal ctx (run_evaluated g cfg now signal query scope ctx candidates)))))"
proof (rule run_firewall_parts [of g cfg now signal query scope ctx max_items budget candidates])
  fix r' l
  assume "run_firewall g cfg now signal query scope ctx max_items budget candidates = Inr r'"
    "l = apply_limits g cfg max_items budget
      (run_cohort cfg now signal ctx (run_evaluated g cfg now signal query scope ctx candidates))"
    "fw_included r' = co_included (cohort_gate g cfg signal ctx (li_included l))"
  with assms show ?thesis by simp
qed

lemma run_firewall_accounts:
  "\<exists>r. run_firewall g cfg now signal query scope ctx max_items budget candidates = Inr r
    \<and> mset (map de_candidate (fw_included r @ fw_excluded r)) = mset candidates
    \<and> list_all2 (\<lambda>c d. decision_id d = mi_id (cd_item c) \<and> d \<in> set (fw_included r @ fw_excluded r))
        candidates (fw_decisions r)"
  by (rule run_firewall_parts [of g cfg now signal query scope ctx max_items budget candidates]) blast

text \<open>The same for the entry point.\<close>

definition context_consistent :: "query_context option \<Rightarrow> pystr option \<Rightarrow> query_signal option \<Rightarrow> bool" where
  "context_consistent ctx query signal \<longleftrightarrow>
     (case ctx of None \<Rightarrow> True
      | Some c \<Rightarrow> query \<in> {None, Some (qc_raw_query c)} \<and> signal \<in> {None, Some (qc_query_signal c)})"

lemma validated_query_context_Inr:
  "validated_query_context ctx query signal = Inr ctx' \<longleftrightarrow> ctx' = ctx \<and> context_consistent ctx query signal"
  by (auto simp: validated_query_context_def context_consistent_def split: option.splits)

lemma filter_context_Inr:
  "filter_context g cfg now candidates query signal max_items budget scope ctx = Inr r \<longleftrightarrow>
     context_consistent ctx query signal
     \<and> run_firewall g cfg (aware now) (signal_of g ctx query signal) (query_text_of ctx query) scope ctx
         max_items budget candidates = Inr r"
  by (auto simp: filter_context_def bindR_Inr_iff validated_query_context_Inr)

lemma filter_context_returns:
  "\<exists>r. filter_context g cfg now candidates query signal max_items budget scope None = Inr r"
  using run_firewall_accounts [of g cfg "aware now" "signal_of g None query signal" "query_text_of None query"
      scope None max_items budget candidates]
  by (auto simp: filter_context_Inr context_consistent_def)

section \<open>The gates a candidate passes\<close>

definition passes_item_gates :: "firewall_config \<Rightarrow> py_datetime \<Rightarrow> scope option \<Rightarrow> candidate \<Rightarrow> bool" where
  "passes_item_gates cfg now scope c \<longleftrightarrow>
     (let item = cd_item c
      in safe_score (cd_score c) \<noteq> None
         \<and> item_sensitivity_value item \<in> set (fc_allowed_sensitivities cfg)
         \<and> \<not> given_text (mi_superseded_by item)
         \<and> closed_signal now item = None
         \<and> \<not> any_tag item review_required_tags
         \<and> fc_low_confidence_exclude_threshold cfg \<le> mi_confidence item
         \<and> \<not> has_strong_negative_feedback item cfg
         \<and> (\<not> fc_require_source_for_fact_decision cfg \<or> item_type_str item \<notin> set source_required_types
             \<or> has_source_refs item)
         \<and> (item_type_str item \<noteq> lit ''signal'' \<or> age_days (mi_created_at item) now \<le> fc_stale_signal_days cfg)
         \<and> (item_type_str item \<noteq> lit ''handoff'' \<or> age_days (mi_created_at item) now \<le> fc_stale_handoff_days cfg)
         \<and> ts_status (temporal_evaluate default_temporal_config now item (cd_body c) scope) = TS_current)"

definition passes_query_gate ::
  "gates \<Rightarrow> firewall_config \<Rightarrow> query_signal option \<Rightarrow> pystr option \<Rightarrow> query_context option
     \<Rightarrow> candidate list \<Rightarrow> candidate \<Rightarrow> bool" where
  "passes_query_gate g cfg signal query ctx candidates c \<longleftrightarrow>
     query_gate g cfg c signal query ctx
       (case ctx of None \<Rightarrow> None | Some q \<Rightarrow> ga_preselect g candidates q cfg) = None"

lemma evaluate_candidate_passes:
  "de_action (evaluate_candidate g cfg now signal query scope ctx routed c) \<noteq> FA_exclude \<longleftrightarrow>
     passes_item_gates cfg now scope c \<and> query_gate g cfg c signal query ctx routed = None"
proof -
  have "exclusion_reasons g cfg now c signal query scope ctx routed = None \<and> safe_score (cd_score c) \<noteq> None
      \<longleftrightarrow> passes_item_gates cfg now scope c \<and> query_gate g cfg c signal query ctx routed = None"
    unfolding exclusion_reasons_def passes_item_gates_def Let_def
    by (cases "ts_status (temporal_evaluate default_temporal_config now (cd_item c) (cd_body c) scope)")
      (simp_all add: not_less, blast+)
  then show ?thesis
    by (auto simp: evaluate_candidate_def Let_def split: option.splits)
qed

text \<open>An included decision comes from an evaluated one of the cohort, with the same core.\<close>

lemma included_from_cohort:
  assumes "run_firewall g cfg now signal query scope ctx max_items budget candidates = Inr r"
    and "d \<in> set (fw_included r)"
  shows "\<exists>e \<in> set (run_cohort cfg now signal ctx (run_evaluated g cfg now signal query scope ctx candidates)).
    core d = core e"
proof -
  let ?cohort = "run_cohort cfg now signal ctx (run_evaluated g cfg now signal query scope ctx candidates)"
  obtain l where l: "fw_included r = co_included (cohort_gate g cfg signal ctx (li_included l))"
      "limits_ok g cfg (case max_items of Some n \<Rightarrow> n | None \<Rightarrow> int (length ?cohort)) budget ?cohort l"
    using run_firewall_result [OF assms(1)] by blast
  from l(2) have sub: "subseq (map core (li_included l)) (map core ?cohort)" by (simp add: limits_ok_def)
  have "d \<in> set (li_included l)"
    using assms(2) cohort.kept_subset unfolding l(1) by (rule rev_subsetD)
  then have "core d \<in> set (map core (li_included l))" by simp
  then have "core d \<in> set (map core ?cohort)" using subseq_set [OF sub] by blast
  then show ?thesis by auto
qed

lemma cohort_gate_all_or_none:
  "co_included (cohort_gate g cfg signal ctx ds) = [] \<or> co_included (cohort_gate g cfg signal ctx ds) = ds"
  by (simp add: cohort_gate_def Let_def reject_cohort_def unchanged_def split: option.splits)

lemma sorted_subseq: "subseq xs ys \<Longrightarrow> sorted (map f ys) \<Longrightarrow> sorted (map f xs)"
  by (auto simp: subseq_conv_nths nths_map [symmetric] sorted_nths)

lemma run_cohort_length: "length (run_cohort cfg now signal ctx ds) \<le> length ds"
proof -
  have "length (packable ds) \<le> length ds" by (simp add: packable_def)
  then show ?thesis
    unfolding run_cohort_def
    by (meson list_emb_length order_trans topic.kept_subseq temporal.kept_subseq)
qed

text \<open>The ids that the gate for conflicting observations leaves: in a group with observations of both
  kinds only the winner stays.\<close>

definition contradict :: "py_datetime \<Rightarrow> decision \<Rightarrow> decision \<Rightarrow> bool" where
  "contradict now d d' \<longleftrightarrow>
     state_category now d = TC_negative \<and> state_category now d' = TC_positive
     \<and> decision_id d \<noteq> decision_id d'
     \<and> list_ex (\<lambda>key. key \<in> set (conflict_keys now d')) (conflict_keys now d)"

definition contradiction_free :: "py_datetime \<Rightarrow> decision list \<Rightarrow> bool" where
  "contradiction_free now ds \<longleftrightarrow> list_all (\<lambda>d. list_all (\<lambda>d'. \<not> contradict now d d') ds) ds"

lemma group_losers_all_but_one:
  assumes "d \<in> set ds" and "d' \<in> set ds" and "decision_id d \<noteq> decision_id d'"
    and "state_category now d = TC_negative" and "state_category now d' = TC_positive"
  shows "decision_id d \<in> set (group_losers now ds) \<or> decision_id d' \<in> set (group_losers now ds)"
proof -
  define winner where "winner = max_by recency_key (hd ds) (tl ds)"
  have "list_ex (\<lambda>d. state_category now d = TC_negative) ds \<and> list_ex (\<lambda>d. state_category now d = TC_positive) ds"
    using assms by (auto simp: list_ex_iff)
  then have losers: "group_losers now ds = filter (\<lambda>i. i \<noteq> decision_id winner) (map decision_id ds)"
    by (simp add: group_losers_def winner_def)
  show ?thesis
    using assms by (auto simp: losers)
qed

lemma contradict_loser:
  assumes "d \<in> set ds" and "d' \<in> set ds" and "contradict now d d'"
  shows "decision_id d \<in> set (temporal_losers now ds) \<or> decision_id d' \<in> set (temporal_losers now ds)"
proof -
  obtain key where key: "key \<in> set (conflict_keys now d)" "key \<in> set (conflict_keys now d')"
    using assms(3) by (auto simp: contradict_def list_ex_iff)
  then have "d \<in> set (conflict_group now ds key)" "d' \<in> set (conflict_group now ds key)"
    using assms by (simp_all add: conflict_group_def)
  then have "decision_id d \<in> set (group_losers now (conflict_group now ds key))
      \<or> decision_id d' \<in> set (group_losers now (conflict_group now ds key))"
    using assms(3) by (intro group_losers_all_but_one) (auto simp: contradict_def)
  moreover have "set (group_losers now (conflict_group now ds key)) \<subseteq> set (temporal_losers now ds)"
    using key assms(1) by (auto simp: temporal_losers_def)
  ultimately show ?thesis by blast
qed

lemma temporal_gate_contradiction_free:
  "contradiction_free now (co_included (temporal_conflict_gate now ds))"
proof -
  let ?kept = "co_included (temporal_conflict_gate now ds)"
  have False if d: "d \<in> set ?kept" "d' \<in> set ?kept" "contradict now d d'" for d d'
  proof -
    have sub: "d \<in> set ds" "d' \<in> set ds" using d temporal.kept_subset by blast+
    have "d \<noteq> d'" using d(3) by (auto simp: contradict_def)
    with sub have "2 \<le> length ds" by (cases ds; cases "tl ds") auto
    moreover have "temporal_losers now ds \<noteq> []"
      using contradict_loser [OF sub d(3)] by auto
    ultimately have "co_included (temporal_conflict_gate now ds)
        = filter (\<lambda>d. decision_id d \<notin> set (temporal_losers now ds)) ds"
      by (simp add: temporal_conflict_gate_def Let_def split_out_def)
    with d contradict_loser [OF sub d(3)] show False by auto
  qed
  then show ?thesis by (auto simp: contradiction_free_def list_all_iff)
qed

text \<open>Only the core of the decisions matters.\<close>

lemma contradict_core: "core d = core e \<Longrightarrow> core d' = core e' \<Longrightarrow> contradict now d d' = contradict now e e'"
  by (simp add: core_def contradict_def conflict_keys_def state_category_def decision_id_def)

lemma contradiction_free_core:
  assumes "contradiction_free now es" and "set (map core ds) \<subseteq> set (map core es)"
  shows "contradiction_free now ds"
proof -
  have "\<not> contradict now d d'" if d: "d \<in> set ds" "d' \<in> set ds" for d d'
  proof -
    have "core d \<in> core ` set es" "core d' \<in> core ` set es" using d assms(2) by auto
    then obtain e e' where "e \<in> set es" "e' \<in> set es" "core d = core e" "core d' = core e'"
      by (elim imageE)
    with assms(1) contradict_core [of d e d' e'] show ?thesis
      by (auto simp: contradiction_free_def list_all_iff)
  qed
  then show ?thesis by (simp add: contradiction_free_def list_all_iff)
qed

text \<open>A query that asks for no injection.\<close>

definition query_rejected :: "gates \<Rightarrow> query_context option \<Rightarrow> pystr option \<Rightarrow> query_signal option \<Rightarrow> bool" where
  "query_rejected g ctx query signal \<longleftrightarrow>
     (case ctx of
        Some c \<Rightarrow> \<not> ra_allowed (qc_admission c)
      | None \<Rightarrow> (case signal_of g None query signal of None \<Rightarrow> False | Some s \<Rightarrow> \<not> qs_injectable s))"

lemma cohort_gate_rejects:
  "query_rejected g ctx query signal \<Longrightarrow> co_included (cohort_gate g cfg (signal_of g ctx query signal) ctx ds) = []"
  by (cases ctx) (auto simp: query_rejected_def cohort_gate_def reject_cohort_def split: option.splits)

lemma cohort_gate_again:
  fixes g cfg signal ctx ds
  defines "kept \<equiv> co_included (cohort_gate g cfg signal ctx ds)"
  shows "co_included (cohort_gate g cfg signal ctx kept) = kept"
    and "co_excluded (cohort_gate g cfg signal ctx kept) = []"
proof -
  have empty: "co_included (cohort_gate g cfg signal ctx []) = []" "co_excluded (cohort_gate g cfg signal ctx []) = []"
    by (simp_all add: cohort_gate_def Let_def reject_cohort_def unchanged_def split: option.splits)
  have same: "co_excluded (cohort_gate g cfg signal ctx ds) = []" if "co_included (cohort_gate g cfg signal ctx ds) = ds"
    using that by (cases "ds = []")
      (auto simp: empty cohort_gate_def Let_def reject_cohort_def unchanged_def split: option.splits if_splits)
  show "co_included (cohort_gate g cfg signal ctx kept) = kept" "co_excluded (cohort_gate g cfg signal ctx kept) = []"
    using cohort_gate_all_or_none [of g cfg signal ctx ds] empty same unfolding kept_def by metis+
qed

end
