(* ===== verification/FirewallClaims.thy ===== *)
theory FirewallClaims imports FirewallLaws begin

text \<open>
  What the context firewall guarantees: what is injected, in which order, within which limits, and
  that every candidate is accounted for.
\<close>

section \<open>A concrete run\<close>

definition sample_candidate :: candidate where
  "sample_candidate = \<lparr>cd_item = sample_item, cd_body = lit ''The CDN host.'', cd_score = Int_score 1,
     cd_source = lit ''bm25'', cd_cluster_key = None\<rparr>"

definition sample_query_signal :: query_signal where
  "sample_query_signal = \<lparr>qs_terms = [lit ''cdn''], qs_strong_terms = [], qs_weak_terms = [lit ''cdn''],
     qs_injectable = False, qs_reason = lit ''weak'', qs_specificity = 0, qs_decision = lit ''reject'',
     qs_anchors = [], qs_trace = []\<rparr>"

text \<open>Collaborators that let everything pass, compress nothing and hash to the text itself.\<close>

definition sample_gates :: gates where
  "sample_gates = \<lparr>ga_analyze_query = (\<lambda>_. sample_query_signal),
     ga_direct = (\<lambda>_ _ _. \<lparr>an_answerable = True, an_reason = []\<rparr>),
     ga_routed = (\<lambda>_ _ _. \<lparr>an_answerable = True, an_reason = []\<rparr>),
     ga_preselect = (\<lambda>_ _ _. None), ga_substantive_terms = (\<lambda>ts. ts), ga_primary_terms = (\<lambda>s. []),
     ga_compress = (\<lambda>text _ _. \<lparr>ct_text = text, ct_strategy = lit ''none'', ct_content_type = lit ''plain_text'',
       ct_ratio = 1, ct_tokens_saved = 0, ct_ccr_key = None, ct_ccr_marker = None\<rparr>),
     ga_sha256 = (\<lambda>text. text)\<rparr>"

lemma sample_passes_item_gates: "passes_item_gates default_firewall_config now None sample_candidate"
proof -
  let ?cfg = default_firewall_config
  have "classify sample_item (lit ''The CDN host.'') = (TC_stable, [])" by code_simp
  then have "ts_status (temporal_evaluate default_temporal_config now sample_item (lit ''The CDN host.'') None)
      = TS_current"
    by (simp add: temporal_status)
  moreover have "safe_score (Int_score 1) \<noteq> None" by code_simp
  moreover have "item_sensitivity_value sample_item \<in> set (fc_allowed_sensitivities ?cfg)" by code_simp
  moreover have "\<not> any_tag sample_item review_required_tags" by code_simp
  moreover have "fc_low_confidence_exclude_threshold ?cfg \<le> mi_confidence sample_item" by code_simp
  moreover have "\<not> has_strong_negative_feedback sample_item ?cfg" by code_simp
  moreover have "has_source_refs sample_item" by code_simp
  moreover have "\<not> given_text (mi_superseded_by sample_item)" by code_simp
  moreover have "item_type_str sample_item \<notin> {lit ''signal'', lit ''handoff''}" by code_simp
  ultimately show ?thesis
    by (simp add: passes_item_gates_def sample_candidate_def closed_signal_def Let_def)
qed

lemma sample_run:
  obtains r where
    "filter_context g default_firewall_config now [sample_candidate] None None None None None None = Inr r"
    "fw_included r \<noteq> []"
proof -
  let ?cfg = default_firewall_config
  define d where "d = evaluate_candidate g ?cfg (aware now) None None None None None sample_candidate"
  have signal: "signal_of g None None None = None" "query_text_of None None = None"
    by (simp_all add: signal_of_def query_text_of_def given_text_def)
  have "de_action d \<noteq> FA_exclude"
    by (simp add: d_def evaluate_candidate_passes sample_passes_item_gates query_gate_def)
  then have "packable [d] = [d]" by (simp add: packable_def)
  then have cohort: "run_cohort ?cfg (aware now) None None [d] = [d]"
    by (simp add: run_cohort_def temporal_conflict_gate_def topic_recency_gate_def unchanged_def)
  obtain r where r: "filter_context g ?cfg now [sample_candidate] None None None None None None = Inr r"
    using run_firewall_accounts [of g ?cfg "aware now" None None None None None None "[sample_candidate]"]
    by (auto simp: filter_context_Inr context_consistent_def signal)
  then have run: "run_firewall g ?cfg (aware now) None None None None None None [sample_candidate] = Inr r"
    by (simp add: filter_context_Inr signal)
  have "run_evaluated g ?cfg (aware now) None None None None [sample_candidate] = [d]"
    by (simp add: run_evaluated_def d_def)
  from run_firewall_included [OF run, unfolded this cohort]
  have "fw_included r = co_included (cohort_gate g ?cfg None None
      (li_included (apply_limits g ?cfg None None [d])))" by simp
  also have "\<dots> = [d]"
    by (simp add: cohort_gate_def unchanged_def apply_limits_def limit_step_def Let_def cluster_count_def
        admit_decision_def default_firewall_config_def)
  finally show ?thesis using r that by simp
qed

text \<open>C20. What is injected passed every gate: it is one of the candidates, its score is safe, its
  sensitivity allowed, it is neither superseded nor a closed signal nor in need of review, it is
  confident enough, not rejected by feedback, has a source where one is required, is not too old,
  is current and in scope, and the gate of the query let it through.\<close>

theorem included_passed_every_gate:
  assumes "filter_context g cfg now candidates query signal max_items budget scope ctx = Inr r"
    and "d \<in> set (fw_included r)"
  shows "de_candidate d \<in> set candidates
    \<and> passes_item_gates cfg (aware now) scope (de_candidate d)
    \<and> passes_query_gate g cfg (signal_of g ctx query signal) (query_text_of ctx query) ctx candidates (de_candidate d)"
proof -
  let ?signal = "signal_of g ctx query signal" and ?query = "query_text_of ctx query"
  let ?evaluated = "run_evaluated g cfg (aware now) ?signal ?query scope ctx candidates"
  obtain e where e: "e \<in> set (run_cohort cfg (aware now) ?signal ctx ?evaluated)" "core d = core e"
    using included_from_cohort assms by (metis filter_context_Inr)
  then have "e \<in> set ?evaluated" "de_action e \<noteq> FA_exclude" using run_cohort_subset by blast+
  then obtain c where c: "c \<in> set candidates"
      "e = evaluate_candidate g cfg (aware now) ?signal ?query scope ctx
        (case ctx of None \<Rightarrow> None | Some q \<Rightarrow> ga_preselect g candidates q cfg) c"
    by (auto simp: run_evaluated_def)
  moreover have "de_candidate d = c" using e(2) c(2) by (simp add: core_def)
  ultimately show ?thesis
    using \<open>de_action e \<noteq> FA_exclude\<close> by (simp add: evaluate_candidate_passes passes_query_gate_def)
qed

lemma included_passed_every_gate_witness:
  "\<exists>d :: decision. de_candidate d = sample_candidate
     \<and> passes_query_gate sample_gates default_firewall_config None None None [sample_candidate] sample_candidate"
proof -
  obtain r where r: "filter_context sample_gates default_firewall_config sample_now [sample_candidate] None None None None None None = Inr r"
      "fw_included r \<noteq> []"
    by (rule sample_run)
  then obtain d where "d \<in> set (fw_included r)" by (cases "fw_included r") auto
  from included_passed_every_gate [OF r(1) this] show ?thesis
    unfolding signal_of_def query_text_of_def given_text_def by auto
qed

text \<open>C23. The firewall fails exactly when the query or the signal it is given contradicts the routed
  context; otherwise every candidate is accounted for once, as included or excluded, and has a
  decision.\<close>

theorem every_candidate_decided:
  "(\<exists>r. filter_context g cfg now candidates query signal max_items budget scope ctx = Inr r
      \<and> mset (map de_candidate (fw_included r @ fw_excluded r)) = mset candidates
      \<and> list_all2 (\<lambda>c d. decision_id d = mi_id (cd_item c) \<and> d \<in> set (fw_included r @ fw_excluded r))
          candidates (fw_decisions r))
    = context_consistent ctx query signal"
proof
  assume "context_consistent ctx query signal"
  then show "\<exists>r. filter_context g cfg now candidates query signal max_items budget scope ctx = Inr r
      \<and> mset (map de_candidate (fw_included r @ fw_excluded r)) = mset candidates
      \<and> list_all2 (\<lambda>c d. decision_id d = mi_id (cd_item c) \<and> d \<in> set (fw_included r @ fw_excluded r))
          candidates (fw_decisions r)"
    using run_firewall_accounts [of g cfg "aware now" "signal_of g ctx query signal"
        "query_text_of ctx query" scope ctx max_items budget candidates]
    by (simp only: filter_context_Inr simp_thms)
qed (auto simp: filter_context_Inr)

text \<open>C22. What is injected stays within the limits: no more items than asked for, no more of one
  duplicate cluster than configured, and within the token budget in the smaller of the views of
  each item; and it is ordered by effective score, best first.\<close>

theorem included_within_limits:
  assumes "filter_context g cfg now candidates query signal max_items budget scope ctx = Inr r"
  shows "int (length (fw_included r))
           \<le> max 0 (case max_items of Some n \<Rightarrow> n | None \<Rightarrow> int (length candidates))
    \<and> cluster_size g (fw_included r) key \<le> max 0 (fc_max_per_duplicate_cluster cfg)
    \<and> within_budget budget (cohort_tokens (fw_included r))
    \<and> sorted (map (\<lambda>d. - de_effective_score d) (fw_included r))"
proof -
  let ?signal = "signal_of g ctx query signal" and ?query = "query_text_of ctx query"
  let ?cohort = "run_cohort cfg (aware now) ?signal ctx
    (run_evaluated g cfg (aware now) ?signal ?query scope ctx candidates)"
  obtain l where l: "fw_included r = co_included (cohort_gate g cfg ?signal ctx (li_included l))"
      "limits_ok g cfg (case max_items of Some n \<Rightarrow> n | None \<Rightarrow> int (length ?cohort)) budget ?cohort l"
    using assms run_firewall_result [of g cfg "aware now" ?signal ?query scope ctx max_items budget candidates r]
    by (auto simp only: filter_context_Inr)
  from cohort_gate_all_or_none [of g cfg ?signal ctx "li_included l"] show ?thesis
  proof
    assume "co_included (cohort_gate g cfg ?signal ctx (li_included l)) = []"
    then show ?thesis
      by (simp add: l(1) cluster_size_def within_budget_def cohort_tokens_def split: option.splits)
  next
    assume "co_included (cohort_gate g cfg ?signal ctx (li_included l)) = li_included l"
    then have r: "fw_included r = li_included l" by (simp add: l(1))
    have "length ?cohort \<le> length candidates"
      using run_cohort_length by (rule order_trans) (simp add: run_evaluated_def)
    then have "int (length (fw_included r))
        \<le> max 0 (case max_items of Some n \<Rightarrow> n | None \<Rightarrow> int (length candidates))"
      using l(2) by (auto simp: r limits_ok_def split: option.splits)
    moreover have "cluster_size g (fw_included r) key \<le> max 0 (fc_max_per_duplicate_cluster cfg)"
      using l(2) by (simp add: r limits_ok_def)
    moreover have "within_budget budget (cohort_tokens (fw_included r))"
      using l(2) by (auto simp: r limits_ok_def within_budget_def split: option.splits)
    moreover have "sorted (map (\<lambda>(_, _, _, e). - e) (map core (li_included l)))"
      using l(2) run_cohort_sorted
      by (intro sorted_subseq [of "map core (li_included l)" "map core ?cohort"])
        (simp_all add: limits_ok_def core_def comp_def)
    then have "sorted (map (\<lambda>d. - de_effective_score d) (fw_included r))"
      by (simp add: r core_def comp_def)
    ultimately show ?thesis by blast
  qed
qed

lemma included_within_limits_witness:
  "\<exists>r. filter_context sample_gates default_firewall_config sample_now [sample_candidate] None None (Some 1) (Some 0) None None = Inr r
     \<and> int (length (fw_included r)) \<le> 1 \<and> cohort_tokens (fw_included r) \<le> 0"
proof -
  obtain r where r: "filter_context sample_gates default_firewall_config sample_now [sample_candidate] None None
      (Some 1) (Some 0) None None = Inr r"
    using filter_context_returns by blast
  from included_within_limits [OF r, of undefined] r show ?thesis
    by (simp add: within_budget_def)
qed

text \<open>C21. No two injected memories contradict each other: of the memories that share an anchor and a
  scope, one observing that something is broken and the other that it works, at most one is
  injected.\<close>

theorem no_contradictions_injected:
  assumes "filter_context g cfg now candidates query signal max_items budget scope ctx = Inr r"
  shows "contradiction_free (aware now) (fw_included r)"
proof -
  let ?signal = "signal_of g ctx query signal" and ?query = "query_text_of ctx query"
  let ?evaluated = "run_evaluated g cfg (aware now) ?signal ?query scope ctx candidates"
  let ?gated = "co_included (temporal_conflict_gate (aware now) (packable ?evaluated))"
  have run: "run_firewall g cfg (aware now) ?signal ?query scope ctx max_items budget candidates = Inr r"
    using assms by (simp add: filter_context_Inr)
  have "set (map core (fw_included r)) \<subseteq> set (map core (run_cohort cfg (aware now) ?signal ctx ?evaluated))"
    using included_from_cohort [OF run] by force
  also have "\<dots> \<subseteq> set (map core ?gated)"
    using topic.kept_subset unfolding run_cohort_def set_map by (rule image_mono)
  finally show ?thesis
    using temporal_gate_contradiction_free by (rule contradiction_free_core [rotated])
qed

lemma no_contradictions_injected_witness:
  "\<exists>r. filter_context sample_gates default_firewall_config sample_now [sample_candidate, sample_candidate] None None None None None None
      = Inr r \<and> contradiction_free (aware sample_now) (fw_included r)"
proof -
  obtain r where r: "filter_context sample_gates default_firewall_config sample_now [sample_candidate, sample_candidate]
      None None None None None None = Inr r"
    using filter_context_returns by blast
  show ?thesis by (intro exI conjI) (rule r, rule no_contradictions_injected [OF r])
qed

text \<open>C24. A query that is refused injects nothing: neither when its admission in the routed context
  says so nor when the signal it is given with is not injectable.\<close>

theorem rejected_query_injects_nothing:
  assumes "filter_context g cfg now candidates query signal max_items budget scope ctx = Inr r"
    and "query_rejected g ctx query signal"
  shows "fw_included r = []"
proof -
  have run: "run_firewall g cfg (aware now) (signal_of g ctx query signal) (query_text_of ctx query) scope ctx
      max_items budget candidates = Inr r"
    using assms(1) by (simp add: filter_context_Inr)
  show ?thesis
    unfolding run_firewall_included [OF run] by (rule cohort_gate_rejects [OF assms(2)])
qed

lemma rejected_query_injects_nothing_witness:
  "\<exists>r. filter_context sample_gates default_firewall_config sample_now [sample_candidate] None (Some sample_query_signal)
      None None None None = Inr r \<and> fw_included r = []"
proof -
  have "query_rejected sample_gates None None (Some sample_query_signal)"
    by (simp add: query_rejected_def signal_of_def sample_query_signal_def)
  moreover obtain r where r: "filter_context sample_gates default_firewall_config sample_now [sample_candidate] None
      (Some sample_query_signal) None None None None = Inr r"
    using filter_context_returns by blast
  ultimately show ?thesis by (intro exI conjI) (rule r, rule rejected_query_injects_nothing [OF r])
qed

text \<open>C37. The second check of the cohort agrees with the first: validating what the firewall included
  keeps all of it and excludes nothing.\<close>

theorem revalidation_keeps_cohort:
  assumes "filter_context g cfg now candidates query signal max_items budget scope ctx = Inr r"
  shows "\<exists>c. validate_cohort g cfg (fw_included r) (signal_of g ctx query signal) ctx = Inr c
    \<and> co_included c = fw_included r \<and> co_excluded c = []"
proof -
  let ?signal = "signal_of g ctx query signal"
  have run: "run_firewall g cfg (aware now) ?signal (query_text_of ctx query) scope ctx
      max_items budget candidates = Inr r"
    using assms by (simp add: filter_context_Inr)
  have "validate_cohort g cfg (fw_included r) ?signal ctx = Inr (cohort_gate g cfg ?signal ctx (fw_included r))"
    by (cases ctx) (simp_all add: validate_cohort_def validated_query_context_def signal_of_def)
  then show ?thesis
    unfolding run_firewall_included [OF run] using cohort_gate_again by (intro exI conjI)
qed

lemma revalidation_keeps_cohort_witness:
  "\<exists>r c. filter_context sample_gates default_firewall_config sample_now [sample_candidate] None None None None None None = Inr r
     \<and> validate_cohort sample_gates default_firewall_config (fw_included r) (signal_of sample_gates None None None) None = Inr c
     \<and> co_included c = fw_included r"
proof -
  obtain r where r: "filter_context sample_gates default_firewall_config sample_now [sample_candidate]
      None None None None None None = Inr r"
    using filter_context_returns by blast
  from revalidation_keeps_cohort [OF r] obtain c where
    "validate_cohort sample_gates default_firewall_config (fw_included r) (signal_of sample_gates None None None) None = Inr c"
    "co_included c = fw_included r"
    by (elim exE conjE)
  with r show ?thesis by (intro exI conjI)
qed

end
