(* ===== verification/RecallQuery.thy ===== *)
theory RecallQuery imports ContextRules begin

text \<open>
  The text queries of recall: \<open>memory/recall/query_tokens.py\<close>, \<open>query_synonyms.py\<close> and
  \<open>query_expansion.py\<close>, which turn free text into an FTS5 query of quoted phrases, and the raw
  fallback query of \<open>memory/recall/retrieval.py\<close>, which is bounded in fragments and bytes.

  The record \<open>unicode\<close> holds the two questions the code asks \<open>unicodedata\<close> about a character that
  is not ASCII: whether its name is that of a CJK-family character, and whether its category is a
  letter, a number or a mark.
\<close>

record unicode =
  uc_cjk_name :: "int \<Rightarrow> bool"
  uc_letter_number_mark :: "int \<Rightarrow> bool"

definition is_cjk_search_char :: "unicode \<Rightarrow> int \<Rightarrow> bool" where
  "is_cjk_search_char u c \<longleftrightarrow> 128 \<le> c \<and> uc_cjk_name u c"

definition is_unicode_search_char :: "unicode \<Rightarrow> int \<Rightarrow> bool" where
  "is_unicode_search_char u c \<longleftrightarrow> 128 \<le> c \<and> uc_letter_number_mark u c"

section \<open>Tokens and words\<close>

definition is_ideograph :: "int \<Rightarrow> bool" where
  "is_ideograph c \<longleftrightarrow> is_cjk c \<or> 13312 \<le> c \<and> c \<le> 19903"

definition ascii_word :: "int \<Rightarrow> bool" where
  "ascii_word c \<longleftrightarrow> ascii_alnum c \<or> c = 95"

function tokenize_mixed :: "pystr \<Rightarrow> pystr list" where
  "tokenize_mixed [] = []"
| "tokenize_mixed (c # cs) =
     (if is_ideograph c then [c] # tokenize_mixed cs
      else if ascii_alnum c
        then (c # takeWhile ascii_word cs) # tokenize_mixed (dropWhile ascii_word cs)
      else tokenize_mixed cs)"
  by pat_completeness auto
termination
  by (relation "measure length") (auto simp: less_Suc_eq_le length_dropWhile_le)

text \<open>
  Maximal runs of characters of one kind; a character without a kind ends a run. It is the loop of
  \<open>_raw_terms\<close> and \<open>_raw_fallback_runs\<close>, and \<open>findall\<close> of an alternative of two classes.
\<close>

fun kind_runs_aux :: "(int \<Rightarrow> 'k option) \<Rightarrow> 'k option \<Rightarrow> pystr \<Rightarrow> pystr \<Rightarrow> pystr list" where
  "kind_runs_aux kind current acc [] = (if acc = [] then [] else [rev acc])"
| "kind_runs_aux kind current acc (c # cs) =
     (case kind c of
        None \<Rightarrow> (if acc = [] then [] else [rev acc]) @ kind_runs_aux kind None [] cs
      | Some k \<Rightarrow>
          if current \<noteq> None \<and> current \<noteq> Some k
            then (if acc = [] then [] else [rev acc]) @ kind_runs_aux kind (Some k) [c] cs
          else kind_runs_aux kind (Some k) (c # acc) cs)"

definition kind_runs :: "(int \<Rightarrow> 'k option) \<Rightarrow> pystr \<Rightarrow> pystr list" where
  "kind_runs kind s = kind_runs_aux kind None [] s"

definition word_kind :: "int \<Rightarrow> bool option" where
  "word_kind c = (if ascii_word c then Some True else if is_ideograph c then Some False else None)"

definition extract_words :: "pystr \<Rightarrow> pystr list" where
  "extract_words text =
     (let raw_words = kind_runs word_kind (lower text)
      in raw_words
         @ concat (map (\<lambda>w. if 1 < length w \<and> is_cjk (hd w)
               then concat (map (\<lambda>n. windows n w) [2..<min 5 (length w + 1)]) else []) raw_words))"

section \<open>Synonyms\<close>

definition synonyms :: "(pystr \<times> pystr list) list" where
  "synonyms = [
     (lit ''sse'', [lit ''server sent events'', lit ''eventsource'', [23454, 26102, 25512, 36865]]),
     (lit ''websocket'', [lit ''ws'', lit ''wss'', [21452, 21521, 36890, 20449]]),
     (lit ''api'', [lit ''endpoint'', [25509, 21475], lit ''rest'']),
     (lit ''db'', [lit ''database'', [25968, 25454, 24211], lit ''sqlite'', lit ''postgres'']),
     (lit ''k8s'', [lit ''kubernetes'', [23481, 22120, 32534, 25490]]),
     (lit ''docker'', [lit ''container'', [23481, 22120]]),
     (lit ''ci'', [lit ''continuous integration'', [25345, 32493, 38598, 25104]]),
     (lit ''cd'', [lit ''continuous deployment'', [25345, 32493, 37096, 32626]]),
     (lit ''auth'', [lit ''authentication'', lit ''authorization'', [35748, 35777], [37492, 26435]]),
     (lit ''jwt'', [lit ''json web token'', [20196, 29260]]),
     (lit ''oauth'', [lit ''oauth2'', [25480, 26435]]),
     (lit ''mcp'', [lit ''model context protocol'']),
     (lit ''llm'', [lit ''large language model'', [22823, 27169, 22411]]),
     (lit ''rag'', [lit ''retrieval augmented generation'', [26816, 32034, 22686, 24378]]),
     (lit ''crud'', [lit ''create read update delete'', [22686, 21024, 25913, 26597]]),
     (lit ''sdk'', [lit ''software development kit'', [24320, 21457, 24037, 20855, 21253]]),
     (lit ''tdd'', [lit ''test driven development'', [27979, 35797, 39537, 21160]]),
     (lit ''pr'', [lit ''pull request'', [21512, 24182, 35831, 27714]]),
     (lit ''perf'', [lit ''performance'', [24615, 33021]]),
     (lit ''refactor'', [[37325, 26500], lit ''restructure'']),
     (lit ''bug'', [[32570, 38519], lit ''issue'', [25925, 38556]]),
     (lit ''deploy'', [[37096, 32626], [21457, 24067], lit ''release'']),
     (lit ''config'', [lit ''configuration'', [37197, 32622]]),
     (lit ''env'', [lit ''environment'', [29615, 22659]]),
     (lit ''async'', [lit ''asynchronous'', [24322, 27493]]),
     (lit ''sync'', [lit ''synchronous'', [21516, 27493]]),
     (lit ''cache'', [[32531, 23384], lit ''caching'']),
     (lit ''queue'', [[38431, 21015], [28040, 24687, 38431, 21015], lit ''mq'']),
     (lit ''hook'', [[38057, 23376], [22238, 35843], lit ''callback'']),
     (lit ''middleware'', [[20013, 38388, 20214]]),
     (lit ''schema'', [[27169, 24335], [32467, 26500, 23450, 20041]]),
     (lit ''migrate'', [[36801, 31227], lit ''migration'']),
     (lit ''index'', [[32034, 24341], lit ''indexing'']),
     (lit ''embed'', [lit ''embedding'', [23884, 20837], [21521, 37327, 21270]]),
     ([25968, 25454, 24211], [lit ''db'', lit ''database'', lit ''sqlite'', lit ''postgres'']),
     ([24615, 33021], [lit ''perf'', lit ''performance'', [20248, 21270]]),
     ([25509, 21475], [lit ''api'', lit ''endpoint'', lit ''rest'']),
     ([37096, 32626], [lit ''deploy'', lit ''release'', [21457, 24067]]),
     ([37197, 32622], [lit ''config'', lit ''configuration'']),
     ([35748, 35777], [lit ''auth'', lit ''authentication'']),
     ([32531, 23384], [lit ''cache'', lit ''caching'']),
     ([32034, 24341], [lit ''index'', lit ''indexing'']),
     ([36801, 31227], [lit ''migrate'', lit ''migration'']),
     ([37325, 26500], [lit ''refactor'', lit ''restructure'']),
     ([27979, 35797], [lit ''test'', lit ''testing'', lit ''unittest'']),
     ([26085, 24535], [lit ''log'', lit ''logging'', lit ''logger'']),
     ([30417, 25511], [lit ''monitor'', lit ''monitoring'', lit ''observability'']),
     ([32593, 20851], [lit ''gateway'', lit ''proxy'']),
     ([24494, 26381, 21153], [lit ''microservice'', lit ''service mesh'']),
     ([28040, 24687, 38431, 21015], [lit ''mq'', lit ''queue'', lit ''kafka'', lit ''rabbitmq'']),
     ([23481, 22120], [lit ''container'', lit ''docker'', lit ''k8s''])]"

text \<open>The reverse entries are added where the lookup table has none yet.\<close>

definition add_synonyms ::
  "pystr \<times> pystr list \<Rightarrow> (pystr \<times> pystr list) list \<Rightarrow> (pystr \<times> pystr list) list" where
  "add_synonyms entry table =
     fold (\<lambda>v t. let n = strip (lower v)
             in if map_of t n = None then AList.update n [fst entry] t else t)
       (snd entry) (AList.update (fst entry) (snd entry) table)"

definition synonym_lookup :: "(pystr \<times> pystr list) list" where
  "synonym_lookup = fold add_synonyms synonyms []"

definition synonym_tokens :: "nat \<Rightarrow> pystr \<Rightarrow> pystr list" where
  "synonym_tokens max_expansions key =
     (case map_of synonym_lookup key of
        None \<Rightarrow> []
      | Some ss \<Rightarrow> concat (map tokenize_mixed (take max_expansions ss)))"

definition expand_with_synonyms :: "pystr list \<Rightarrow> pystr \<Rightarrow> nat \<Rightarrow> pystr list" where
  "expand_with_synonyms tokens raw_query max_expansions =
     (let keys = dedup (map lower tokens);
          words = filter (\<lambda>w. w \<notin> set keys) (dedup (extract_words raw_query))
      in tokens @ concat (map (synonym_tokens max_expansions) (keys @ words)))"

section \<open>FTS5 queries\<close>

datatype term_kind = Ascii_term | Cjk_term | Unicode_term

definition raw_term_kind :: "unicode \<Rightarrow> int \<Rightarrow> term_kind option" where
  "raw_term_kind u c =
     (if ascii_word c then Some Ascii_term
      else if is_cjk_search_char u c then Some Cjk_term
      else if is_unicode_search_char u c then Some Unicode_term
      else None)"

definition raw_terms :: "unicode \<Rightarrow> pystr \<Rightarrow> pystr list" where
  "raw_terms u query = kind_runs (raw_term_kind u) query"

definition cjk_long_run_limit :: nat where
  "cjk_long_run_limit = 4"

text \<open>The groups of one term: fragments of three characters for a long CJK run.\<close>

definition term_groups :: "unicode \<Rightarrow> pystr \<Rightarrow> pystr list list" where
  "term_groups u raw =
     (let chars = map (\<lambda>c. [c])
      in if list_all (is_cjk_search_char u) raw \<and> \<not> is_ascii raw \<and> cjk_long_run_limit \<le> length raw
           then map chars (windows 3 raw)
         else
           let tokens = (if is_ascii raw then tokenize_mixed raw
                         else if list_all (is_cjk_search_char u) raw then chars raw else [raw])
           in if tokens = [] then [] else [tokens])"

definition token_groups :: "unicode \<Rightarrow> pystr \<Rightarrow> pystr list list" where
  "token_groups u query = concat (map (term_groups u) (raw_terms u query))"

definition group_key :: "pystr list \<Rightarrow> pystr" where
  "group_key g = join [31] (map lower g)"

fun dedup_by :: "('a \<Rightarrow> 'k) \<Rightarrow> 'a list \<Rightarrow> 'a list" where
  "dedup_by key [] = []"
| "dedup_by key (x # xs) = x # dedup_by key (filter (\<lambda>y. key y \<noteq> key x) xs)"

definition quote_token :: "pystr \<Rightarrow> pystr" where
  "quote_token t = [34] @ t @ [34]"

definition format_group :: "bool \<Rightarrow> pystr list \<Rightarrow> pystr" where
  "format_group parenthesize g =
     (let phrase = join [32] (map quote_token g)
      in if parenthesize \<and> 1 < length g then [40] @ phrase @ [41] else phrase)"

definition expand_query :: "unicode \<Rightarrow> pystr \<Rightarrow> bool \<Rightarrow> bool \<Rightarrow> pystr" where
  "expand_query u query use_or use_synonyms =
     (let groups = token_groups u query
      in if groups = [] then [34, 34]
         else
           let tokens = concat groups; original = map lower tokens;
               extra = (if use_synonyms then
                   map (\<lambda>t. [t]) (filter (\<lambda>t. lower t \<notin> set original) (expand_with_synonyms tokens query 3))
                 else []);
               deduped = dedup_by group_key (groups @ extra)
           in join (if use_or then lit '' OR '' else [32])
                (map (format_group (use_or \<and> 1 < length deduped)) deduped))"

section \<open>The raw fallback query\<close>

definition raw_fallback_clause_limit :: nat where "raw_fallback_clause_limit = 64"
definition raw_fallback_token_max_chars :: nat where "raw_fallback_token_max_chars = 64"
definition raw_fallback_token_max_bytes :: nat where "raw_fallback_token_max_bytes = 256"
definition raw_fallback_query_max_bytes :: nat where "raw_fallback_query_max_bytes = 8192"

text \<open>The length of a character and of a text in UTF-8.\<close>

definition utf8_char_length :: "int \<Rightarrow> nat" where
  "utf8_char_length c = (if c < 128 then 1 else if c < 2048 then 2 else if c < 65536 then 3 else 4)"

definition utf8_length :: "pystr \<Rightarrow> nat" where
  "utf8_length s = sum_list (map utf8_char_length s)"

fun take_bytes :: "nat \<Rightarrow> pystr \<Rightarrow> pystr" where
  "take_bytes n [] = []"
| "take_bytes n (c # cs) =
     (if n < utf8_char_length c then [] else c # take_bytes (n - utf8_char_length c) cs)"

definition bounded_raw_fallback_token :: "pystr \<Rightarrow> pystr" where
  "bounded_raw_fallback_token v =
     take_bytes raw_fallback_token_max_bytes (take raw_fallback_token_max_chars v)"

definition even_positions :: "nat \<Rightarrow> nat \<Rightarrow> nat list" where
  "even_positions count limit =
     (if count = 0 \<or> limit = 0 then []
      else if count \<le> limit then [0..<count]
      else if limit = 1 then [0]
      else map (\<lambda>i. i * (count - 1) div (limit - 1)) [0..<limit])"

definition sample_run_trigrams :: "pystr \<Rightarrow> nat \<Rightarrow> pystr list" where
  "sample_run_trigrams run limit =
     map (\<lambda>p. take 3 (drop p run)) (even_positions (length run - 2) limit)"

definition sample_evenly :: "'a list \<Rightarrow> nat \<Rightarrow> 'a list" where
  "sample_evenly xs limit = map (\<lambda>i. xs ! i) (even_positions (length xs) limit)"

definition raw_fallback_kind :: "unicode \<Rightarrow> int \<Rightarrow> bool option" where
  "raw_fallback_kind u c =
     (if ascii_word c \<or> c \<in> {43, 46, 45} then Some True
      else if is_unicode_search_char u c then Some False else None)"

definition raw_fallback_runs :: "unicode \<Rightarrow> pystr \<Rightarrow> pystr list" where
  "raw_fallback_runs u query = kind_runs (raw_fallback_kind u) query"

definition whole_run :: "pystr \<Rightarrow> bool" where
  "whole_run run \<longleftrightarrow> is_ascii run \<or> length run \<le> 3"

definition raw_fallback_fragments :: "unicode \<Rightarrow> pystr \<Rightarrow> pystr list" where
  "raw_fallback_fragments u query =
     (let runs = raw_fallback_runs u query;
          essential = dedup (filter (\<lambda>t. t \<noteq> []) (map bounded_raw_fallback_token (filter whole_run runs)));
          optional = filter (\<lambda>t. t \<notin> set essential)
            (dedup (concat (map (\<lambda>r. sample_run_trigrams r raw_fallback_clause_limit)
              (filter (\<lambda>r. \<not> whole_run r) runs))))
      in if raw_fallback_clause_limit \<le> length essential
           then sample_evenly essential raw_fallback_clause_limit
         else essential @ sample_evenly optional (raw_fallback_clause_limit - length essential))"

text \<open>The loop that drops the last fragment until the query is short enough.\<close>

function fitting_query :: "unicode \<Rightarrow> bool \<Rightarrow> pystr list \<Rightarrow> pystr" where
  "fitting_query u use_or fragments =
     (if fragments = [] then [34, 34]
      else let expression = expand_query u (join [124] fragments) use_or False
           in if utf8_length expression \<le> raw_fallback_query_max_bytes then expression
              else fitting_query u use_or (butlast fragments))"
  by pat_completeness auto
termination by (relation "measure (\<lambda>(_, _, fs). length fs)") auto

declare fitting_query.simps [simp del]

definition raw_fallback_bm25_query :: "unicode \<Rightarrow> pystr \<Rightarrow> bool \<Rightarrow> pystr" where
  "raw_fallback_bm25_query u query use_or =
     fitting_query u (use_or \<or> list_ex (\<lambda>r. \<not> whole_run r) (raw_fallback_runs u query))
       (raw_fallback_fragments u query)"

section \<open>Quoting\<close>

text \<open>What a query holds outside its quoted phrases, if its quotes are balanced.\<close>

fun unquoted :: "bool \<Rightarrow> pystr \<Rightarrow> pystr option" where
  "unquoted inside [] = (if inside then None else Some [])"
| "unquoted inside (c # cs) =
     (if c = 34 then unquoted (\<not> inside) cs
      else if inside then unquoted True cs
      else map_option (Cons c) (unquoted False cs))"

definition plain_token :: "pystr \<Rightarrow> bool" where
  "plain_token t \<longleftrightarrow> 34 \<notin> set t"

lemma unquoted_token:
  "plain_token t \<Longrightarrow> unquoted True (t @ 34 # rest) = unquoted False rest"
  by (induction t) (auto simp: plain_token_def)

lemma unquoted_quote_token [simp]:
  "plain_token t \<Longrightarrow> unquoted False (quote_token t @ rest) = unquoted False rest"
  by (simp add: quote_token_def unquoted_token)

lemma unquoted_append:
  "unquoted False s = Some a \<Longrightarrow> unquoted False (s @ t) = map_option ((@) a) (unquoted False t)"
proof -
  have "unquoted inside s = Some a \<Longrightarrow> unquoted inside (s @ t) = map_option ((@) a) (unquoted False t)" for inside
  proof (induction inside s arbitrary: a rule: unquoted.induct)
    case (1 inside)
    then show ?case by (cases "unquoted False t") (auto split: if_splits)
  next
    case (2 inside c cs)
    then show ?case
      by (cases "unquoted False t") (auto split: if_splits simp: option.map_comp comp_def)
  qed
  then show "unquoted False s = Some a \<Longrightarrow> unquoted False (s @ t) = map_option ((@) a) (unquoted False t)" .
qed

text \<open>The characters a query may have outside quotes: space, parentheses and the letters of \<open>OR\<close>.\<close>

definition well_quoted :: "pystr \<Rightarrow> bool" where
  "well_quoted q \<longleftrightarrow> (case unquoted False q of None \<Rightarrow> False | Some t \<Rightarrow> set t \<subseteq> {32, 40, 41, 79, 82})"

lemma well_quoted_append: "well_quoted s \<Longrightarrow> well_quoted t \<Longrightarrow> well_quoted (s @ t)"
  by (auto simp: well_quoted_def unquoted_append split: option.splits)

lemma well_quoted_plain: "set t \<subseteq> {32, 40, 41, 79, 82} \<Longrightarrow> well_quoted t"
proof -
  assume "set t \<subseteq> {32, 40, 41, 79, 82}"
  then have "unquoted False t = Some t" by (induction t) auto
  with \<open>set t \<subseteq> _\<close> show ?thesis by (simp add: well_quoted_def)
qed

lemma well_quoted_token: "plain_token t \<Longrightarrow> well_quoted (quote_token t)"
  using unquoted_quote_token [of t "[]"] by (simp add: well_quoted_def)

lemma well_quoted_join:
  "well_quoted sep \<Longrightarrow> list_all well_quoted qs \<Longrightarrow> well_quoted (join sep qs)"
  by (induction sep qs rule: join.induct)
    (simp_all add: well_quoted_append well_quoted_plain)

lemma well_quoted_format_group:
  assumes "list_all plain_token g"
  shows "well_quoted (format_group p g)"
proof -
  have "well_quoted (join [32] (map quote_token g))"
    using assms by (intro well_quoted_join) (auto simp: list_all_iff well_quoted_token well_quoted_plain)
  moreover have "well_quoted [40]" "well_quoted [41]" by (simp_all add: well_quoted_plain)
  ultimately show ?thesis
    unfolding format_group_def Let_def by (auto intro: well_quoted_append simp del: append.simps)
qed

subsection \<open>Tokens are plain\<close>

lemma tokenize_mixed_chars: "list_all (list_all (\<lambda>c. ascii_word c \<or> is_ideograph c)) (tokenize_mixed s)"
proof (induction s rule: tokenize_mixed.induct)
  case (2 d ds)
  have "list_all ascii_word (takeWhile ascii_word ds)"
    by (induction ds) auto
  with 2 show ?case by (auto simp: ascii_word_def list_all_iff)
qed simp

lemma ascii_word_plain: "ascii_word c \<or> is_ideograph c \<Longrightarrow> c \<noteq> 34"
  by (auto simp: ascii_word_def ascii_alnum_def is_ideograph_def is_cjk_def)

lemma tokenize_mixed_plain: "list_all plain_token (tokenize_mixed s)"
proof -
  have "plain_token t" if "list_all (\<lambda>c. ascii_word c \<or> is_ideograph c) t" for t
    using that ascii_word_plain by (auto simp: list_all_iff plain_token_def)
  then show ?thesis using tokenize_mixed_chars [of s] by (simp add: list_all_iff)
qed

lemma synonym_tokens_plain: "list_all plain_token (synonym_tokens n key)"
  using tokenize_mixed_plain by (auto simp: synonym_tokens_def list_all_iff split: option.splits)

lemma expand_with_synonyms_plain:
  "list_all plain_token ts \<Longrightarrow> list_all plain_token (expand_with_synonyms ts q n)"
  using synonym_tokens_plain by (auto simp: expand_with_synonyms_def Let_def list_all_iff)

lemma kind_runs_aux_kinds:
  "list_all (\<lambda>c. kind c \<noteq> None) acc \<Longrightarrow>
     list_all (list_all (\<lambda>c. kind c \<noteq> None)) (kind_runs_aux kind current acc s)"
  by (induction kind current acc s rule: kind_runs_aux.induct) (auto split: option.splits)

lemma raw_terms_kinds: "r \<in> set (raw_terms u q) \<Longrightarrow> list_all (\<lambda>c. raw_term_kind u c \<noteq> None) r"
  using kind_runs_aux_kinds [of "raw_term_kind u" "[]" None q]
  by (simp add: raw_terms_def kind_runs_def list_all_iff)

lemma raw_term_kind_plain: "raw_term_kind u c \<noteq> None \<Longrightarrow> c \<noteq> 34"
  by (auto simp: raw_term_kind_def ascii_word_def ascii_alnum_def is_cjk_search_char_def
      is_unicode_search_char_def split: if_splits)

lemma windows_chars: "w \<in> set (windows n s) \<Longrightarrow> c \<in> set w \<Longrightarrow> c \<in> set s"
  by (auto simp: windows_def dest: in_set_takeD in_set_dropD)

lemma term_groups_plain:
  assumes "34 \<notin> set raw"
  shows "list_all (list_all plain_token) (term_groups u raw)"
proof -
  have "list_all plain_token (map (\<lambda>c. [c]) s)" if "34 \<notin> set s" for s
    using that by (auto simp: list_all_iff plain_token_def)
  moreover have "34 \<notin> set w" if "w \<in> set (windows 3 raw)" for w
    using windows_chars [OF that] assms by blast
  moreover have "plain_token raw" using assms by (simp add: plain_token_def)
  ultimately show ?thesis
    using assms tokenize_mixed_plain by (auto simp: term_groups_def Let_def list_all_iff)
qed

lemma token_groups_plain: "list_all (list_all plain_token) (token_groups u q)"
proof -
  have "list_all (list_all plain_token) (term_groups u r)" if "r \<in> set (raw_terms u q)" for r
    using raw_terms_kinds [OF that] raw_term_kind_plain
    by (intro term_groups_plain) (auto simp: list_all_iff)
  then show ?thesis by (auto simp: token_groups_def list_all_iff)
qed

lemma set_dedup_by: "set (dedup_by key xs) \<subseteq> set xs"
  by (induction key xs rule: dedup_by.induct) auto

lemma well_quoted_groups:
  assumes "list_all (list_all plain_token) groups" and "well_quoted sep"
  shows "well_quoted (join sep (map (format_group p) (dedup_by key groups)))"
proof (rule well_quoted_join [OF assms(2)])
  have "list_all plain_token g" if "g \<in> set (dedup_by key groups)" for g
    using assms(1) that set_dedup_by [of key groups] unfolding list_all_iff by blast
  then show "list_all well_quoted (map (format_group p) (dedup_by key groups))"
    by (simp add: list_all_iff well_quoted_format_group)
qed

lemma plain_singletons: "list_all plain_token ts \<Longrightarrow> list_all (list_all plain_token) (map (\<lambda>t. [t]) (filter P ts))"
  by (induction ts) auto

lemma plain_concat: "list_all (list_all plain_token) gs \<Longrightarrow> list_all plain_token (concat gs)"
  by (induction gs) auto

lemma well_quoted_expand_query: "well_quoted (expand_query u query use_or use_synonyms)"
proof (cases "token_groups u query = []")
  case False
  define groups where "groups = token_groups u query"
  define extra where "extra = (if use_synonyms then
      map (\<lambda>t. [t]) (filter (\<lambda>t. lower t \<notin> set (map lower (concat groups)))
        (expand_with_synonyms (concat groups) query 3)) else [])"
  have plain: "list_all (list_all plain_token) groups"
    unfolding groups_def by (rule token_groups_plain)
  moreover have "list_all (list_all plain_token) extra"
    unfolding extra_def using plain
    by (auto intro!: plain_singletons expand_with_synonyms_plain plain_concat simp del: map_eq_conv)
  ultimately have "list_all (list_all plain_token) (groups @ extra)" by simp
  moreover have "well_quoted (if use_or then lit '' OR '' else [32])"
    by (auto simp: lit_def intro: well_quoted_plain)
  ultimately have "well_quoted (join (if use_or then lit '' OR '' else [32])
      (map (format_group (use_or \<and> 1 < length (dedup_by group_key (groups @ extra))))
        (dedup_by group_key (groups @ extra))))"
    by (rule well_quoted_groups)
  moreover have "expand_query u query use_or use_synonyms = join (if use_or then lit '' OR '' else [32])
      (map (format_group (use_or \<and> 1 < length (dedup_by group_key (groups @ extra))))
        (dedup_by group_key (groups @ extra)))"
    using False unfolding expand_query_def Let_def groups_def [symmetric] extra_def [symmetric] by simp
  ultimately show ?thesis by simp
qed (simp add: expand_query_def well_quoted_def)

text \<open>No text of the user reaches the query language: in every expanded query all quotes are
  balanced, and outside of them there are only spaces, parentheses and the operator \<open>OR\<close>.\<close>

theorem expanded_query_is_quoted: "well_quoted (expand_query u query use_or use_synonyms)"
  by (rule well_quoted_expand_query)

section \<open>Bounds of the raw fallback\<close>

lemma length_even_positions: "length (even_positions count limit) = min count limit"
  by (auto simp: even_positions_def)

lemma even_positions_bound:
  assumes "i \<in> set (even_positions count limit)"
  shows "i < count"
proof -
  have "j * (count - 1) div (limit - 1) < count" if "j < limit" "1 < limit" "0 < count" for j
  proof -
    have "j * (count - 1) div (limit - 1) \<le> (limit - 1) * (count - 1) div (limit - 1)"
      using that by (intro div_le_mono mult_le_mono1) auto
    also have "\<dots> = count - 1" using that by simp
    finally show ?thesis using that by linarith
  qed
  with assms show ?thesis by (auto simp: even_positions_def split: if_splits)
qed

lemma take_bytes_length: "utf8_length (take_bytes n s) \<le> n"
  by (induction n s rule: take_bytes.induct) (auto simp: utf8_length_def)

lemma length_take_bytes: "length (take_bytes n s) \<le> length s"
  by (induction n s rule: take_bytes.induct) auto

lemma utf8_length_le: "utf8_length s \<le> 4 * length s"
  by (induction s) (auto simp: utf8_length_def utf8_char_length_def)

lemma length_fragments: "length (raw_fallback_fragments u query) \<le> raw_fallback_clause_limit"
  by (auto simp: raw_fallback_fragments_def Let_def sample_evenly_def length_even_positions)

lemma set_sample_evenly: "set (sample_evenly xs n) \<subseteq> set xs"
  using even_positions_bound by (fastforce simp: sample_evenly_def)

lemma fitting_query_fits:
  "utf8_length (fitting_query u use_or fragments) \<le> raw_fallback_query_max_bytes
     \<and> well_quoted (fitting_query u use_or fragments)"
proof (induction u use_or fragments rule: fitting_query.induct)
  case (1 u use_or fragments)
  let ?q = "expand_query u (join [124] fragments) use_or False"
  consider "fragments = []" | "fragments \<noteq> []" "utf8_length ?q \<le> raw_fallback_query_max_bytes"
    | "fragments \<noteq> []" "\<not> utf8_length ?q \<le> raw_fallback_query_max_bytes" by blast
  then show ?case
  proof cases
    case 1
    then show ?thesis
      by (simp add: fitting_query.simps utf8_length_def utf8_char_length_def
          raw_fallback_query_max_bytes_def well_quoted_def)
  next
    case 2
    then have "fitting_query u use_or fragments = ?q" by (simp add: fitting_query.simps [of u use_or fragments] Let_def)
    with 2 show ?thesis by (simp add: well_quoted_expand_query)
  next
    case 3
    then have "fitting_query u use_or fragments = fitting_query u use_or (butlast fragments)"
      by (simp add: fitting_query.simps [of u use_or fragments] Let_def)
    with 1 3 show ?thesis by simp
  qed
qed

text \<open>
  What \<open>_RAW_FALLBACK_CLAUSE_LIMIT\<close> limits is the fragments. A fragment may hold the characters of \<open>+.-\<close>,
  at which the expansion splits it, so that it gives several clauses: this query of 33 fragments gives 66.
\<close>

definition or_clauses :: "pystr \<Rightarrow> nat" where
  "or_clauses q = (case unquoted False q of None \<Rightarrow> 0 | Some rest \<Rightarrow> Suc (count_list rest 79))"

definition dotted_query :: pystr where
  "dotted_query = concat (map (\<lambda>i. [97 + i div 10, 48 + i mod 10, 46, 107 + i div 10, 48 + i mod 10, 32]) [0..32])"

lemma clauses_exceed_limit: "raw_fallback_clause_limit < or_clauses (raw_fallback_bm25_query u dotted_query True)"
  by code_simp

text \<open>C40. The raw fallback query is bounded and safe for every text. It is built from at most 64 fragments,
  whole runs cut to 64 characters and 256 bytes and the others to three characters; it has at most 8192
  bytes of UTF-8; and it is quoted like every query. The 64 bounds the fragments and not the clauses, of
  which a fragment with a dot, a plus or a dash gives several (\<open>clauses_exceed_limit\<close>).\<close>

theorem raw_fallback_bounded:
  "length (raw_fallback_fragments u query) \<le> 64
    \<and> list_all (\<lambda>f. length f \<le> 64 \<and> utf8_length f \<le> 256) (raw_fallback_fragments u query)
    \<and> utf8_length (raw_fallback_bm25_query u query use_or) \<le> 8192
    \<and> well_quoted (raw_fallback_bm25_query u query use_or)"
proof (intro conjI)
  have token: "length (bounded_raw_fallback_token v) \<le> 64 \<and> utf8_length (bounded_raw_fallback_token v) \<le> 256" for v
    using length_take_bytes [of 256 "take 64 v"] take_bytes_length [of 256 "take 64 v"]
    by (simp add: bounded_raw_fallback_token_def raw_fallback_token_max_bytes_def raw_fallback_token_max_chars_def)
  have trigram: "length t \<le> 64 \<and> utf8_length t \<le> 256" if "t \<in> set (sample_run_trigrams r n)" for t r n
  proof -
    have "length t \<le> 3" using that by (auto simp: sample_run_trigrams_def)
    then show ?thesis using utf8_length_le [of t] by simp
  qed
  show "list_all (\<lambda>f. length f \<le> 64 \<and> utf8_length f \<le> 256) (raw_fallback_fragments u query)"
    unfolding raw_fallback_fragments_def Let_def list_all_iff
    using token trigram by (auto split: if_splits dest!: subsetD [OF set_sample_evenly])
qed (use length_fragments [of u query] fitting_query_fits in
    \<open>auto simp: raw_fallback_bm25_query_def raw_fallback_clause_limit_def raw_fallback_query_max_bytes_def\<close>)

end
