(* ===== verification/RecallFusion.thy ===== *)
theory RecallFusion imports RecallTypes begin

text \<open>
  Reciprocal rank fusion: \<open>retrieval/fusion.py\<close> fuses a lexical and a vector ranking with weights,
  \<open>memory/recall/routed_fusion.py\<close> fuses the three routes of routed recall and keeps the evidence of
  each. The constant \<open>rrf_k\<close> is not negative.
\<close>

section \<open>Two weighted rankings\<close>

definition rrf_term :: "rat \<Rightarrow> nat \<Rightarrow> nat \<Rightarrow> rat" where
  "rrf_term weight rrf_k rank = fl64 (weight / of_nat (rrf_k + rank))"

definition add_bm25_hit ::
  "nat \<Rightarrow> rat \<Rightarrow> nat \<times> pystr \<Rightarrow> (pystr \<times> retrieved_item) list \<Rightarrow> (pystr \<times> retrieved_item) list" where
  "add_bm25_hit rrf_k weight entry fused =
     (case entry of (rank, i) \<Rightarrow>
        AList.update i (hit i (rrf_term weight rrf_k (rank + 1)) (Some (int rank + 1)) None) fused)"

definition add_vector_hit ::
  "nat \<Rightarrow> rat \<Rightarrow> nat \<times> pystr \<Rightarrow> (pystr \<times> retrieved_item) list \<Rightarrow> (pystr \<times> retrieved_item) list" where
  "add_vector_hit rrf_k weight entry fused =
     (case entry of (rank, i) \<Rightarrow>
        let score = rrf_term weight rrf_k (rank + 1)
        in AList.update i
             (case map_of fused i of
                None \<Rightarrow> hit i score None (Some (int rank + 1))
              | Some e \<Rightarrow> hit (ri_id e) (fl64 (ri_score e + score)) (ri_bm25_rank e) (Some (int rank + 1)))
             fused)"

definition rrf_fusion ::
  "pystr list \<Rightarrow> pystr list \<Rightarrow> nat \<Rightarrow> rat \<Rightarrow> rat \<Rightarrow> retrieved_item list" where
  "rrf_fusion bm25_hits vector_hits rrf_k bm25_weight vector_weight =
     by_score (map snd
       (fold (add_vector_hit rrf_k vector_weight) (enumerate 0 vector_hits)
         (fold (add_bm25_hit rrf_k bm25_weight) (enumerate 0 bm25_hits) [])))"

section \<open>Three routes\<close>

record fusion =
  fu_scores :: "(pystr \<times> rat) list"
  fu_routes :: "(pystr \<times> pystr list) list"

text \<open>The ranks of a route: an item counts at its first position among the distinct items.\<close>

definition route_ranks :: "pystr list \<Rightarrow> (pystr \<times> nat) list" where
  "route_ranks hits = zip (dedup hits) [1..<Suc (length (dedup hits))]"

definition add_route_hit :: "nat \<Rightarrow> pystr \<Rightarrow> pystr \<times> nat \<Rightarrow> fusion \<Rightarrow> fusion" where
  "add_route_hit rrf_k name entry f =
     (case entry of (i, rank) \<Rightarrow>
        f\<lparr>fu_routes := AList.update i ((case map_of (fu_routes f) i of None \<Rightarrow> [] | Some ns \<Rightarrow> ns) @ [name])
            (fu_routes f),
          fu_scores := AList.update i
            (fl64 ((case map_of (fu_scores f) i of None \<Rightarrow> 0 | Some s \<Rightarrow> s) + rrf_term 1 rrf_k rank))
            (fu_scores f)\<rparr>)"

definition add_route :: "nat \<Rightarrow> pystr \<times> pystr list \<Rightarrow> fusion \<Rightarrow> fusion" where
  "add_route rrf_k route f = fold (add_route_hit rrf_k (fst route)) (route_ranks (snd route)) f"

definition rank_of :: "pystr list \<Rightarrow> pystr \<Rightarrow> int option" where
  "rank_of hits i = map_option int (map_of (route_ranks hits) i)"

definition fuse_routes ::
  "pystr list \<Rightarrow> pystr list \<Rightarrow> pystr list \<Rightarrow> (pystr \<times> rat) list \<Rightarrow> nat
     \<Rightarrow> retrieved_item list \<times> (pystr \<times> route_evidence) list" where
  "fuse_routes terms semantic raw similarities rrf_k =
     (let f = fold (add_route rrf_k)
            [(lit ''lexical_terms'', terms), (lit ''semantic_raw'', semantic),
             (lit ''lexical_raw_fallback'', raw)] \<lparr>fu_scores = [], fu_routes = []\<rparr>;
          items = sort_key (\<lambda>i. (- ri_score i, ri_id i))
            (map (\<lambda>(i, score). hit i score
                 (case rank_of terms i of None \<Rightarrow> rank_of raw i | Some r \<Rightarrow> Some r) (rank_of semantic i))
               (fu_scores f))
      in (items,
          map (\<lambda>item. (ri_id item,
            \<lparr>re_routes = (case map_of (fu_routes f) (ri_id item) of None \<Rightarrow> [] | Some ns \<Rightarrow> ns),
             re_semantic_similarity = map_of similarities (ri_id item),
             re_semantic_rank = rank_of semantic (ri_id item),
             re_lexical_terms_rank = rank_of terms (ri_id item),
             re_lexical_raw_rank = rank_of raw (ri_id item)\<rparr>)) items))"

section \<open>The definition of the fusion\<close>

text \<open>An item scores the sum of its contributions, route after route.\<close>

definition routes_with :: "(pystr \<times> pystr list) list \<Rightarrow> pystr \<Rightarrow> (pystr \<times> nat) list" where
  "routes_with routes i =
     List.map_filter (\<lambda>(name, hits). map_option (Pair name) (map_of (route_ranks hits) i)) routes"

definition rrf_score :: "nat \<Rightarrow> nat list \<Rightarrow> rat" where
  "rrf_score rrf_k ranks = foldl (\<lambda>s rank. fl64 (s + rrf_term 1 rrf_k rank)) 0 ranks"

lemma route_ranks_keys [simp]: "map fst (route_ranks hits) = dedup hits"
  by (simp add: route_ranks_def del: upt_Suc)

lemma route_ranks_None: "map_of (route_ranks hits) i = None \<longleftrightarrow> i \<notin> set hits"
proof -
  have "fst ` set (route_ranks hits) = set hits"
    by (metis list.set_map route_ranks_keys set_dedup)
  then show ?thesis by (simp add: map_of_eq_None_iff)
qed

definition fusion_of :: "nat \<Rightarrow> (pystr \<times> pystr list) list \<Rightarrow> fusion \<Rightarrow> bool" where
  "fusion_of rrf_k routes f \<longleftrightarrow>
     map fst (fu_scores f) = dedup (concat (map snd routes))
     \<and> (\<forall>i. map_of (fu_scores f) i =
          (if routes_with routes i = [] then None else Some (rrf_score rrf_k (map snd (routes_with routes i)))))
     \<and> (\<forall>i. map_of (fu_routes f) i =
          (if routes_with routes i = [] then None else Some (map fst (routes_with routes i))))"

lemma add_route_hits_keys:
  "distinct (map fst ranks) \<Longrightarrow> map fst (fu_scores (fold (add_route_hit rrf_k name) ranks f)) =
      map fst (fu_scores f) @ filter (\<lambda>i. i \<notin> set (map fst (fu_scores f))) (map fst ranks)"
proof (induction ranks arbitrary: f)
  case (Cons e ranks)
  obtain j r where e: "e = (j, r)" by force
  let ?old = "map fst (fu_scores f)"
  have j: "j \<notin> set (map fst ranks)" using Cons.prems e by simp
  have new: "map fst (fu_scores (add_route_hit rrf_k name e f)) = (if j \<in> set ?old then ?old else ?old @ [j])"
    by (simp add: e add_route_hit_def update_keys)
  have "filter (\<lambda>i. i \<notin> set (if j \<in> set ?old then ?old else ?old @ [j])) (map fst ranks)
      = filter (\<lambda>i. i \<notin> set ?old) (map fst ranks)"
    using j by (intro filter_cong) auto
  then show ?case
    using Cons.IH [of "add_route_hit rrf_k name e f"] Cons.prems unfolding new by (simp add: e)
qed simp

lemma add_route_hit_maps [simp]:
  "map_of (fu_scores (add_route_hit rrf_k name (j, r) f)) i =
     (if i = j then Some (fl64 ((case map_of (fu_scores f) j of None \<Rightarrow> 0 | Some s \<Rightarrow> s) + rrf_term 1 rrf_k r))
      else map_of (fu_scores f) i)"
  "map_of (fu_routes (add_route_hit rrf_k name (j, r) f)) i =
     (if i = j then Some ((case map_of (fu_routes f) j of None \<Rightarrow> [] | Some ns \<Rightarrow> ns) @ [name])
      else map_of (fu_routes f) i)"
  by (simp_all add: add_route_hit_def update_conv')

lemma add_route_hits_scores:
  "distinct (map fst ranks) \<Longrightarrow> map_of (fu_scores (fold (add_route_hit rrf_k name) ranks f)) i =
      (case map_of ranks i of None \<Rightarrow> map_of (fu_scores f) i
       | Some r \<Rightarrow> Some (fl64 ((case map_of (fu_scores f) i of None \<Rightarrow> 0 | Some s \<Rightarrow> s) + rrf_term 1 rrf_k r)))"
proof (induction ranks arbitrary: f)
  case (Cons e ranks)
  obtain j r where e: "e = (j, r)" by force
  have "map_of ranks j = None" using Cons.prems e by (simp add: map_of_eq_None_iff)
  then show ?case
    using Cons.IH [of "add_route_hit rrf_k name e f"] Cons.prems by (auto simp: e split: option.splits)
qed simp

lemma add_route_hits_routes:
  "distinct (map fst ranks) \<Longrightarrow> map_of (fu_routes (fold (add_route_hit rrf_k name) ranks f)) i =
      (case map_of ranks i of None \<Rightarrow> map_of (fu_routes f) i
       | Some r \<Rightarrow> Some ((case map_of (fu_routes f) i of None \<Rightarrow> [] | Some ns \<Rightarrow> ns) @ [name]))"
proof (induction ranks arbitrary: f)
  case (Cons e ranks)
  obtain j r where e: "e = (j, r)" by force
  have "map_of ranks j = None" using Cons.prems e by (simp add: map_of_eq_None_iff)
  then show ?case
    using Cons.IH [of "add_route_hit rrf_k name e f"] Cons.prems by (auto simp: e split: option.splits)
qed simp

lemma dedup_filter: "filter P (dedup xs) = dedup (filter P xs)"
proof (induction xs rule: dedup.induct)
  case (2 x xs)
  have "filter P (filter (\<lambda>y. y \<noteq> x) xs) = filter (\<lambda>y. y \<noteq> x) (filter P xs)"
    by (simp add: conj_commute)
  moreover have "\<not> P x \<Longrightarrow> filter P (filter (\<lambda>y. y \<noteq> x) xs) = filter P xs"
    by (auto intro: filter_cong)
  ultimately show ?case using 2 by auto
qed simp

lemma dedup_append: "dedup (xs @ ys) = dedup xs @ filter (\<lambda>y. y \<notin> set xs) (dedup ys)"
proof (induction xs arbitrary: ys rule: dedup.induct)
  case (2 x xs)
  have filters: "filter (\<lambda>y. y \<noteq> x) (dedup ys) = dedup (filter (\<lambda>y. y \<noteq> x) ys)" for ys
    by (rule dedup_filter)
  have "dedup (x # xs @ ys) = x # dedup (filter (\<lambda>y. y \<noteq> x) xs @ filter (\<lambda>y. y \<noteq> x) ys)" by simp
  also have "\<dots> = x # dedup (filter (\<lambda>y. y \<noteq> x) xs)
      @ filter (\<lambda>y. y \<notin> set (filter (\<lambda>y. y \<noteq> x) xs)) (dedup (filter (\<lambda>y. y \<noteq> x) ys))"
    by (simp only: 2)
  also have "\<dots> = dedup (x # xs) @ filter (\<lambda>y. y \<notin> set (x # xs)) (dedup ys)"
    by (simp add: filters [symmetric]) (rule filter_cong, auto)
  finally show ?case by simp
qed simp

lemma routes_with_snoc:
  "routes_with (routes @ [(name, hits)]) i =
     routes_with routes i @ (case map_of (route_ranks hits) i of None \<Rightarrow> [] | Some r \<Rightarrow> [(name, r)])"
  by (cases "map_of (route_ranks hits) i") (simp_all add: routes_with_def map_filter_def)

lemma fusion_of_add:
  assumes "fusion_of rrf_k routes f"
  shows "fusion_of rrf_k (routes @ [(name, hits)]) (add_route rrf_k (name, hits) f)"
proof -
  have d: "distinct (map fst (route_ranks hits))" by simp
  have keys: "map fst (fu_scores f) = dedup (concat (map snd routes))"
    using assms by (simp add: fusion_of_def)
  have "map fst (fu_scores (add_route rrf_k (name, hits) f)) =
      dedup (concat (map snd (routes @ [(name, hits)])))"
    unfolding add_route_def fst_conv snd_conv add_route_hits_keys [OF d]
    by (simp only: keys) (simp add: dedup_append)
  moreover have "map_of (fu_scores (add_route rrf_k (name, hits) f)) i =
      (if routes_with (routes @ [(name, hits)]) i = [] then None
       else Some (rrf_score rrf_k (map snd (routes_with (routes @ [(name, hits)]) i))))" for i
    unfolding add_route_def fst_conv snd_conv add_route_hits_scores [OF d] routes_with_snoc
    using assms by (auto simp: fusion_of_def rrf_score_def split: option.splits)
  moreover have "map_of (fu_routes (add_route rrf_k (name, hits) f)) i =
      (if routes_with (routes @ [(name, hits)]) i = [] then None
       else Some (map fst (routes_with (routes @ [(name, hits)]) i)))" for i
    unfolding add_route_def fst_conv snd_conv add_route_hits_routes [OF d] routes_with_snoc
    using assms by (auto simp: fusion_of_def split: option.splits)
  ultimately show ?thesis by (simp add: fusion_of_def)
qed

lemma fusion_of_start: "fusion_of rrf_k [] \<lparr>fu_scores = [], fu_routes = []\<rparr>"
  by (simp add: fusion_of_def routes_with_def map_filter_def)

lemma fusion_of_all: "fusion_of rrf_k routes (fold (add_route rrf_k) routes \<lparr>fu_scores = [], fu_routes = []\<rparr>)"
proof (induction routes rule: rev_induct)
  case (snoc route routes)
  then show ?case using fusion_of_add [of rrf_k routes _ "fst route" "snd route"] by simp
qed (simp add: fusion_of_start)

text \<open>The hit and the evidence of one item, by definition.\<close>

definition route_table ::
  "pystr list \<Rightarrow> pystr list \<Rightarrow> pystr list \<Rightarrow> (pystr \<times> pystr list) list" where
  "route_table terms semantic raw =
     [(lit ''lexical_terms'', terms), (lit ''semantic_raw'', semantic), (lit ''lexical_raw_fallback'', raw)]"

definition fused_hit :: "pystr list \<Rightarrow> pystr list \<Rightarrow> pystr list \<Rightarrow> nat \<Rightarrow> pystr \<Rightarrow> retrieved_item" where
  "fused_hit terms semantic raw rrf_k i =
     hit i (rrf_score rrf_k (map snd (routes_with (route_table terms semantic raw) i)))
       (case rank_of terms i of None \<Rightarrow> rank_of raw i | Some r \<Rightarrow> Some r) (rank_of semantic i)"

definition fused_evidence ::
  "pystr list \<Rightarrow> pystr list \<Rightarrow> pystr list \<Rightarrow> (pystr \<times> rat) list \<Rightarrow> pystr \<Rightarrow> route_evidence" where
  "fused_evidence terms semantic raw similarities i =
     \<lparr>re_routes = map fst (routes_with (route_table terms semantic raw) i),
      re_semantic_similarity = map_of similarities i, re_semantic_rank = rank_of semantic i,
      re_lexical_terms_rank = rank_of terms i, re_lexical_raw_rank = rank_of raw i\<rparr>"

lemma fuse_routes_eq:
  "fuse_routes terms semantic raw similarities rrf_k =
    (let items = sort_key (\<lambda>i. (- ri_score i, ri_id i))
           (map (fused_hit terms semantic raw rrf_k) (dedup (terms @ semantic @ raw)))
     in (items, map (\<lambda>item. (ri_id item, fused_evidence terms semantic raw similarities (ri_id item))) items))"
proof -
  define f where "f = fold (add_route rrf_k) (route_table terms semantic raw) \<lparr>fu_scores = [], fu_routes = []\<rparr>"
  have f: "fusion_of rrf_k (route_table terms semantic raw) f" unfolding f_def by (rule fusion_of_all)
  then have keys: "map fst (fu_scores f) = dedup (terms @ semantic @ raw)"
    by (simp add: fusion_of_def route_table_def)
  have d: "distinct (map fst (fu_scores f))" by (simp add: keys)
  have score: "snd e = rrf_score rrf_k (map snd (routes_with (route_table terms semantic raw) (fst e)))
      \<and> routes_with (route_table terms semantic raw) (fst e) \<noteq> []"
    if "e \<in> set (fu_scores f)" for e
  proof -
    have "map_of (fu_scores f) (fst e) = Some (snd e)" using that d by simp
    then show ?thesis using f by (auto simp: fusion_of_def split: if_splits)
  qed
  have "map (\<lambda>(i, score). hit i score (case rank_of terms i of None \<Rightarrow> rank_of raw i | Some r \<Rightarrow> Some r)
        (rank_of semantic i)) (fu_scores f)
      = map (fused_hit terms semantic raw rrf_k) (map fst (fu_scores f))"
    using score by (auto simp: fused_hit_def cong: option.case_cong)
  then have items: "map (\<lambda>(i, score). hit i score (case rank_of terms i of None \<Rightarrow> rank_of raw i | Some r \<Rightarrow> Some r)
        (rank_of semantic i)) (fu_scores f)
      = map (fused_hit terms semantic raw rrf_k) (dedup (terms @ semantic @ raw))"
    by (simp only: keys)
  have routes: "(case map_of (fu_routes f) i of None \<Rightarrow> [] | Some ns \<Rightarrow> ns)
      = map fst (routes_with (route_table terms semantic raw) i)" for i
    using f by (simp add: fusion_of_def)
  show ?thesis
    unfolding fuse_routes_def route_table_def [symmetric] f_def [symmetric] Let_def items routes
      fused_evidence_def ..
qed

text \<open>Route fusion is its definition: every item of the three rankings occurs once, scored with the
  sum of \<open>1 / (rrf_k + rank)\<close> over the routes that hold it, each rank its position among the distinct
  items of that route; the hits are ordered by score, ties by id; and every hit has the evidence of
  exactly these routes. The scores the back ends gave play no part.\<close>

theorem fusion_is_rrf:
  "fuse_routes terms semantic raw similarities rrf_k =
    (let items = sort_key (\<lambda>i. (- ri_score i, ri_id i))
           (map (fused_hit terms semantic raw rrf_k) (dedup (terms @ semantic @ raw)))
     in (items, map (\<lambda>item. (ri_id item, fused_evidence terms semantic raw similarities (ri_id item))) items))"
  by (rule fuse_routes_eq)

lemma fuse_routes_mset: "mset (hit_ids (fst (fuse_routes t s r sims k))) = mset (dedup (t @ s @ r))"
proof -
  have ids: "map ri_id (map (fused_hit t s r k) xs) = xs" for xs
    by (simp add: fused_hit_def comp_def)
  have "mset (hit_ids (fst (fuse_routes t s r sims k))) = mset (map ri_id (map (fused_hit t s r k) (dedup (t @ s @ r))))"
    unfolding fuse_routes_eq Let_def fst_conv by (simp only: mset_map mset_sort)
  then show ?thesis by (simp only: ids)
qed

lemma fuse_routes_ids: "set (hit_ids (fst (fuse_routes t s r sims k))) = set t \<union> set s \<union> set r"
  using mset_eq_setD [OF fuse_routes_mset] by (simp only: set_dedup set_append Un_assoc)

lemma fuse_routes_distinct: "distinct (hit_ids (fst (fuse_routes t s r sims k)))"
  using fuse_routes_mset [of t s r sims k] by (metis distinct_dedup mset_eq_imp_distinct_iff)

lemma fuse_routes_evidence: "map fst (snd (fuse_routes t s r sims k)) = hit_ids (fst (fuse_routes t s r sims k))"
  by (simp add: fuse_routes_eq Let_def comp_def)

section \<open>The weighted fusion keeps ids distinct\<close>

definition keyed :: "(pystr \<times> retrieved_item) list \<Rightarrow> bool" where
  "keyed fused \<longleftrightarrow> distinct (map fst fused) \<and> list_all (\<lambda>(i, item). ri_id item = i) fused"

lemma keyed_update:
  assumes "keyed fused" and "ri_id item = i"
  shows "keyed (AList.update i item fused)"
proof -
  have "list_all (\<lambda>(i, item). ri_id item = i) (AList.update i item fused)"
    using assms by (induction fused) (auto simp: keyed_def)
  then show ?thesis using assms by (simp add: keyed_def distinct_update)
qed

lemma keyed_lookup: "keyed fused \<Longrightarrow> map_of fused i = Some item \<Longrightarrow> ri_id item = i"
  by (auto simp: keyed_def list_all_iff dest: map_of_SomeD)

lemma keyed_ids: "keyed fused \<Longrightarrow> map (ri_id \<circ> snd) fused = map fst fused"
  by (auto simp: keyed_def list_all_iff)

lemma keys_update: "fst ` set (AList.update i v al) = insert i (fst ` set al)"
  using dom_update [of i v al] unfolding dom_map_of_conv_image_fst by simp

lemma fold_updates:
  assumes "keyed fused"
    and step: "\<And>e fused. keyed fused \<Longrightarrow> \<exists>item. ri_id item = snd e \<and> add e fused = AList.update (snd e) item fused"
  shows "keyed (fold add entries fused)
     \<and> fst ` set (fold add entries fused) = fst ` set fused \<union> snd ` set entries"
  using assms(1)
proof (induction entries arbitrary: fused)
  case (Cons e entries)
  obtain item where "ri_id item = snd e" "add e fused = AList.update (snd e) item fused"
    using step [OF Cons.prems] by blast
  then have "keyed (add e fused)" "fst ` set (add e fused) = insert (snd e) (fst ` set fused)"
    using Cons.prems by (simp_all add: keyed_update keys_update)
  with Cons.IH show ?case by simp
qed simp

lemma fold_bm25:
  assumes "keyed fused"
  shows "keyed (fold (add_bm25_hit k w) entries fused)
     \<and> fst ` set (fold (add_bm25_hit k w) entries fused) = fst ` set fused \<union> snd ` set entries"
proof (rule fold_updates [OF assms])
  fix e :: "nat \<times> pystr" and fused
  obtain rank i where e: "e = (rank, i)" by force
  show "\<exists>item. ri_id item = snd e \<and> add_bm25_hit k w e fused = AList.update (snd e) item fused"
    by (intro exI conjI [rotated]) (simp add: e add_bm25_hit_def, simp add: e)
qed

lemma fold_vector:
  assumes "keyed fused"
  shows "keyed (fold (add_vector_hit k w) entries fused)
     \<and> fst ` set (fold (add_vector_hit k w) entries fused) = fst ` set fused \<union> snd ` set entries"
proof (rule fold_updates [OF assms])
  fix e :: "nat \<times> pystr" and fused
  assume k: "keyed fused"
  obtain rank i where e: "e = (rank, i)" by force
  show "\<exists>item. ri_id item = snd e \<and> add_vector_hit k w e fused = AList.update (snd e) item fused"
  proof (cases "map_of fused i")
    case None
    then show ?thesis by (intro exI conjI [rotated]) (simp add: e add_vector_hit_def Let_def, simp add: e)
  next
    case (Some old)
    then show ?thesis
      by (intro exI conjI [rotated])
        (simp add: e add_vector_hit_def Let_def, simp add: e keyed_lookup [OF k Some])
  qed
qed

lemma image_snd_enumerate: "snd ` set (enumerate n xs) = set xs"
  by (metis list.set_map map_snd_enumerate)

lemma rrf_fusion_ids:
  shows rrf_fusion_distinct: "distinct (hit_ids (rrf_fusion bm25 vec k bw vw))"
    and rrf_fusion_set: "set (hit_ids (rrf_fusion bm25 vec k bw vw)) = set bm25 \<union> set vec"
proof -
  define fused where "fused = fold (add_vector_hit k vw) (enumerate 0 vec)
    (fold (add_bm25_hit k bw) (enumerate 0 bm25) [])"
  have empty: "keyed []" by (simp add: keyed_def)
  have start: "keyed (fold (add_bm25_hit k bw) (enumerate 0 bm25) [])"
    using fold_bm25 [OF empty] by blast
  have k: "keyed fused" unfolding fused_def using fold_vector [OF start] by blast
  have keys: "fst ` set fused = set bm25 \<union> set vec"
    using fold_vector [OF start, of k vw "enumerate 0 vec"] fold_bm25 [OF empty, of k bw "enumerate 0 bm25"]
    unfolding fused_def by (simp add: image_snd_enumerate)
  have ids: "hit_ids (map snd fused) = map fst fused"
    using keyed_ids [OF k] by simp
  have r: "rrf_fusion bm25 vec k bw vw = by_score (map snd fused)"
    by (simp add: rrf_fusion_def fused_def)
  show "distinct (hit_ids (rrf_fusion bm25 vec k bw vw))"
    using k unfolding r distinct_by_score ids by (simp add: keyed_def)
  have "set (hit_ids (rrf_fusion bm25 vec k bw vw)) = set (hit_ids (map snd fused))"
    unfolding r by (simp del: map_map)
  then show "set (hit_ids (rrf_fusion bm25 vec k bw vw)) = set bm25 \<union> set vec"
    unfolding ids using keys by simp
qed

end
