(* ===== verification/RecallVectors.thy ===== *)
theory RecallVectors imports RecallTypes begin

text \<open>
  Recall over embedding vectors: maximal marginal relevance (\<open>retrieval/mmr.py\<close>) with its
  incremental similarities, and the associative expansion of \<open>memory/recall/hopfield_memory.py\<close>.

  Vectors are lists of floats. The functions of \<open>math\<close> and the sum of a list of floats, whose last
  bits depend on the platform and the Python version, are the fields of \<open>float_ops\<close>; products,
  quotients and comparisons are exact binary64 operations.
\<close>

record float_ops =
  fo_sum :: "rat list \<Rightarrow> rat"
  fo_sqrt :: "rat \<Rightarrow> rat"
  fo_exp :: "rat \<Rightarrow> rat"
  fo_log :: "rat \<Rightarrow> rat"
  fo_log1p :: "rat \<Rightarrow> rat"
  fo_tanh :: "rat \<Rightarrow> rat"
  fo_pow :: "rat \<Rightarrow> rat \<Rightarrow> rat"

type_synonym vector = "rat list"

definition float_dot :: "float_ops \<Rightarrow> vector \<Rightarrow> vector \<Rightarrow> rat" where
  "float_dot fo a b = fo_sum fo (map (\<lambda>(x, y). fl64 (x * y)) (zip a b))"

definition cosine_sim :: "float_ops \<Rightarrow> vector \<Rightarrow> vector \<Rightarrow> rat" where
  "cosine_sim fo a b =
     (let norm_a = fo_pow fo (float_dot fo a a) (1/2); norm_b = fo_pow fo (float_dot fo b b) (1/2)
      in if norm_a = 0 \<or> norm_b = 0 then 0 else fl64 (float_dot fo a b / fl64 (norm_a * norm_b)))"

definition unit_vector :: "float_ops \<Rightarrow> vector \<Rightarrow> vector option" where
  "unit_vector fo v =
     (let norm = fo_pow fo (float_dot fo v v) (1/2)
      in if norm = 0 then None else Some (map (\<lambda>x. fl64 (x / norm)) v))"

section \<open>Maximal marginal relevance\<close>

text \<open>The position of the first element with the greatest key.\<close>

definition best_index :: "('a \<Rightarrow> rat) \<Rightarrow> 'a list \<Rightarrow> nat" where
  "best_index key xs =
     (case enumerate 0 xs of [] \<Rightarrow> 0 | e # es \<Rightarrow> fst (max_by (\<lambda>e. key (snd e)) e es))"

definition remove_at :: "nat \<Rightarrow> 'a list \<Rightarrow> 'a list" where
  "remove_at i xs = take i xs @ drop (Suc i) xs"

lemma best_index_bound:
  assumes "xs \<noteq> []"
  shows "best_index key xs < length xs"
proof -
  obtain e es where e: "enumerate 0 xs = e # es" using assms by (cases xs) auto
  have "max_by (\<lambda>e. key (snd e)) e es \<in> set (enumerate 0 xs)"
    unfolding e by (rule max_by_in)
  then have "fst (max_by (\<lambda>e. key (snd e)) e es) < length xs"
    by (simp only: in_set_enumerate_eq) simp
  then show ?thesis by (simp add: best_index_def e)
qed

lemma length_remove_at: "i < length xs \<Longrightarrow> length (remove_at i xs) = length xs - 1"
  by (simp add: remove_at_def)

lemma mset_remove_at: "i < length xs \<Longrightarrow> add_mset (xs ! i) (mset (remove_at i xs)) = mset xs"
  by (metis id_take_nth_drop mset.simps(2) mset_append remove_at_def union_mset_add_mset_right)

text \<open>What a ranking is computed from: relevance, unit vectors and the trade-off \<open>lam\<close>.\<close>

record mmr_input =
  mm_ops :: float_ops
  mm_lambda :: rat
  mm_scores :: "(pystr \<times> rat) list"
  mm_max_score :: rat
  mm_units :: "(pystr \<times> vector) list"

definition mmr_input_of ::
  "float_ops \<Rightarrow> rat \<Rightarrow> retrieved_item list \<Rightarrow> (pystr \<times> vector) list \<Rightarrow> mmr_input" where
  "mmr_input_of fo lam candidates embeddings =
     (let scores = rev (map (\<lambda>c. (ri_id c, ri_score c)) candidates);
          top = Max (set (map (\<lambda>c. the (map_of scores (ri_id c))) candidates))
      in \<lparr>mm_ops = fo, mm_lambda = lam, mm_scores = scores,
          mm_max_score = (if top = 0 then 1 else top),
          mm_units = List.map_filter (\<lambda>c. map_option (Pair (ri_id c))
            (unit_vector fo (case map_of embeddings (ri_id c) of None \<Rightarrow> [] | Some v \<Rightarrow> v))) candidates\<rparr>)"

definition mmr_key :: "mmr_input \<Rightarrow> (pystr \<Rightarrow> rat) \<Rightarrow> retrieved_item \<Rightarrow> rat" where
  "mmr_key m max_sim c =
     fl64 (fl64 (mm_lambda m * fl64 (the (map_of (mm_scores m) (ri_id c)) / mm_max_score m))
           - fl64 (fl64 (1 - mm_lambda m) * max_sim (ri_id c)))"

text \<open>The similarity of two items, where both have a vector.\<close>

definition mmr_sim :: "mmr_input \<Rightarrow> pystr \<Rightarrow> pystr \<Rightarrow> rat option" where
  "mmr_sim m i chosen =
     (case (map_of (mm_units m) i, map_of (mm_units m) chosen) of
        (Some u, Some v) \<Rightarrow> Some (float_dot (mm_ops m) u v)
      | _ \<Rightarrow> None)"

definition raise_sim :: "mmr_input \<Rightarrow> pystr \<Rightarrow> retrieved_item \<Rightarrow> (pystr \<Rightarrow> rat) \<Rightarrow> pystr \<Rightarrow> rat" where
  "raise_sim m chosen c max_sim =
     (case mmr_sim m (ri_id c) chosen of
        None \<Rightarrow> max_sim
      | Some s \<Rightarrow> if max_sim (ri_id c) < s then max_sim(ri_id c := s) else max_sim)"

function mmr_loop ::
  "mmr_input \<Rightarrow> nat \<Rightarrow> (pystr \<Rightarrow> rat) \<Rightarrow> retrieved_item list \<Rightarrow> retrieved_item list \<Rightarrow> retrieved_item list" where
  "mmr_loop m top_k max_sim selected remaining =
     (if remaining = [] \<or> top_k \<le> length selected then selected
      else let i = best_index (mmr_key m max_sim) remaining; chosen = remaining ! i; rest = remove_at i remaining
           in mmr_loop m top_k (fold (raise_sim m (ri_id chosen)) rest max_sim) (selected @ [chosen]) rest)"
  by pat_completeness auto
termination
proof (relation "measure (\<lambda>(m, k, s, sel, rem). length rem)", goal_cases)
  case (2 m top_k max_sim selected remaining i chosen rest)
  then show ?case using best_index_bound [of remaining "mmr_key m max_sim"] by (simp add: length_remove_at)
qed simp

declare mmr_loop.simps [simp del]

definition mmr_rerank ::
  "float_ops \<Rightarrow> retrieved_item list \<Rightarrow> (pystr \<times> vector) list \<Rightarrow> int \<Rightarrow> rat option \<Rightarrow> retrieved_item list" where
  "mmr_rerank fo candidates embeddings top_k lam =
     (case lam of
        None \<Rightarrow> candidates
      | Some l \<Rightarrow>
          if length candidates \<le> 1 \<or> embeddings = [] then candidates
          else mmr_loop (mmr_input_of fo l candidates embeddings) (nat top_k) (\<lambda>_. 0) [] candidates)"

subsection \<open>The direct definition\<close>

text \<open>
  The greatest similarity to the selected items, never below 0, computed afresh for every candidate
  at every pick.
\<close>

definition similarity_to :: "mmr_input \<Rightarrow> retrieved_item list \<Rightarrow> pystr \<Rightarrow> rat" where
  "similarity_to m selected i = foldl max 0 (List.map_filter (\<lambda>s. mmr_sim m i (ri_id s)) selected)"

function mmr_direct ::
  "mmr_input \<Rightarrow> nat \<Rightarrow> retrieved_item list \<Rightarrow> retrieved_item list \<Rightarrow> retrieved_item list" where
  "mmr_direct m top_k selected remaining =
     (if remaining = [] \<or> top_k \<le> length selected then selected
      else let i = best_index (mmr_key m (similarity_to m selected)) remaining
           in mmr_direct m top_k (selected @ [remaining ! i]) (remove_at i remaining))"
  by pat_completeness auto
termination
proof (relation "measure (\<lambda>(m, k, sel, rem). length rem)", goal_cases)
  case (2 m top_k selected remaining i)
  then show ?case
    using best_index_bound [of remaining "mmr_key m (similarity_to m selected)"] by (simp add: length_remove_at)
qed simp

declare mmr_direct.simps [simp del]

lemma similarity_to_snoc:
  "similarity_to m (selected @ [s]) i =
     (case mmr_sim m i (ri_id s) of None \<Rightarrow> similarity_to m selected i | Some x \<Rightarrow> max (similarity_to m selected i) x)"
  by (cases "mmr_sim m i (ri_id s)") (simp_all add: similarity_to_def map_filter_def)

text \<open>The cache: it agrees with the direct similarity on every remaining item.\<close>

definition cache_ok :: "mmr_input \<Rightarrow> retrieved_item list \<Rightarrow> (pystr \<Rightarrow> rat) \<Rightarrow> retrieved_item list \<Rightarrow> bool" where
  "cache_ok m selected max_sim remaining \<longleftrightarrow>
     list_all (\<lambda>c. max_sim (ri_id c) = similarity_to m selected (ri_id c)) remaining"

lemma raise_sims:
  "fold (raise_sim m chosen) cs max_sim i =
     (if i \<in> set (hit_ids cs)
      then (case mmr_sim m i chosen of None \<Rightarrow> max_sim i | Some s \<Rightarrow> max (max_sim i) s) else max_sim i)"
proof (induction cs arbitrary: max_sim)
  case (Cons c cs)
  then show ?case by (auto simp: raise_sim_def max_def split: option.splits)
qed simp

lemma cache_ok_step:
  assumes "cache_ok m selected max_sim remaining" and "i < length remaining"
  shows "cache_ok m (selected @ [remaining ! i])
    (fold (raise_sim m (ri_id (remaining ! i))) (remove_at i remaining) max_sim) (remove_at i remaining)"
proof -
  have "set (remove_at i remaining) \<subseteq> set remaining"
    by (auto simp: remove_at_def dest: in_set_takeD in_set_dropD)
  with assms(1) show ?thesis
    by (auto simp: cache_ok_def list_all_iff raise_sims similarity_to_snoc split: option.splits)
qed

lemma best_index_cong: "(\<And>x. x \<in> set xs \<Longrightarrow> f x = g x) \<Longrightarrow> best_index f xs = best_index g xs"
proof -
  assume eq: "\<And>x. x \<in> set xs \<Longrightarrow> f x = g x"
  have "max_by (\<lambda>e. f (snd e)) e es = max_by (\<lambda>e. g (snd e)) e es"
    if "\<And>x. x \<in> set (e # es) \<Longrightarrow> f (snd x) = g (snd x)" for e and es :: "(nat \<times> 'a) list"
    using that by (induction es arbitrary: e) auto
  moreover have "f (snd x) = g (snd x)" if "x \<in> set (enumerate 0 xs)" for x
  proof -
    have "snd x \<in> set xs" using that nth_mem [of "fst x" xs] by (simp add: in_set_enumerate_eq)
    then show ?thesis by (rule eq)
  qed
  ultimately show ?thesis by (auto simp: best_index_def split: list.splits)
qed

lemma mmr_loop_direct:
  "cache_ok m selected max_sim remaining \<Longrightarrow>
     mmr_loop m top_k max_sim selected remaining = mmr_direct m top_k selected remaining"
proof (induction m top_k selected remaining arbitrary: max_sim rule: mmr_direct.induct)
  case (1 m top_k selected remaining)
  let ?i = "best_index (mmr_key m (similarity_to m selected)) remaining"
  show ?case
  proof (cases "remaining = [] \<or> top_k \<le> length selected")
    case False
    have i: "best_index (mmr_key m max_sim) remaining = ?i"
      using "1.prems" by (intro best_index_cong) (auto simp: cache_ok_def list_all_iff mmr_key_def)
    have "?i < length remaining" using False by (intro best_index_bound) simp
    with "1.prems" have "cache_ok m (selected @ [remaining ! ?i])
        (fold (raise_sim m (ri_id (remaining ! ?i))) (remove_at ?i remaining) max_sim) (remove_at ?i remaining)"
      by (rule cache_ok_step)
    from "1.IH" [OF False refl this] show ?thesis
      unfolding mmr_loop.simps [of m top_k max_sim selected remaining]
        mmr_direct.simps [of m top_k selected remaining]
      using False by (simp add: Let_def i)
  qed (simp_all add: mmr_loop.simps mmr_direct.simps)
qed

lemma cache_ok_start: "cache_ok m [] (\<lambda>_. 0) remaining"
  by (simp add: cache_ok_def similarity_to_def map_filter_def list_all_iff)

lemma mmr_direct_selects:
  "length selected \<le> top_k \<Longrightarrow> length (mmr_direct m top_k selected remaining) = min top_k (length selected + length remaining)
     \<and> mset (mmr_direct m top_k selected remaining) \<subseteq># mset selected + mset remaining"
proof (induction m top_k selected remaining rule: mmr_direct.induct)
  case (1 m top_k selected remaining)
  let ?i = "best_index (mmr_key m (similarity_to m selected)) remaining"
  show ?case
  proof (cases "remaining = [] \<or> top_k \<le> length selected")
    case False
    have i: "?i < length remaining" using False by (intro best_index_bound) simp
    have parts: "mset (selected @ [remaining ! ?i]) + mset (remove_at ?i remaining) = mset selected + mset remaining"
      using mset_remove_at [OF i] by simp
    have "length (selected @ [remaining ! ?i]) \<le> top_k" using False by simp
    from "1.IH" [OF False refl this] show ?thesis
      unfolding mmr_direct.simps [of m top_k selected remaining] parts
      using False i by (auto simp: Let_def length_remove_at)
  qed (use "1.prems" in \<open>auto simp: mmr_direct.simps\<close>)
qed

lemma mmr_rerank_mset: "mset (mmr_rerank fo candidates embeddings top_k lam) \<subseteq># mset candidates"
  using mmr_direct_selects [of "[]" "nat top_k" _ candidates]
  by (auto simp: mmr_rerank_def mmr_loop_direct [OF cache_ok_start] split: option.splits)

text \<open>The incremental reranking selects what the direct definition does, in the same order: at
  every pick the first candidate with the greatest marginal relevance, where the similarity to the
  selected items is computed from all of them; it selects \<open>top_k\<close> of the candidates, or all.\<close>

theorem mmr_is_greedy:
  assumes "1 < length candidates" and "embeddings \<noteq> []"
  shows "mmr_rerank fo candidates embeddings top_k (Some lam) =
      mmr_direct (mmr_input_of fo lam candidates embeddings) (nat top_k) [] candidates
    \<and> length (mmr_rerank fo candidates embeddings top_k (Some lam)) = min (nat top_k) (length candidates)
    \<and> mset (mmr_rerank fo candidates embeddings top_k (Some lam)) \<subseteq># mset candidates"
  using assms mmr_rerank_mset [of fo candidates embeddings top_k "Some lam"]
    mmr_direct_selects [of "[]" "nat top_k" "mmr_input_of fo lam candidates embeddings" candidates]
  by (simp add: mmr_rerank_def mmr_loop_direct [OF cache_ok_start] not_le [symmetric])

text \<open>Floats without rounding, with constants for what a witness does not need.\<close>

definition sample_ops :: float_ops where
  "sample_ops =
     \<lparr>fo_sum = sum_list, fo_sqrt = (\<lambda>x. x), fo_exp = (\<lambda>_. 1), fo_log = (\<lambda>_. 0), fo_log1p = (\<lambda>_. 0),
      fo_tanh = (\<lambda>_. 0), fo_pow = (\<lambda>x _. x)\<rparr>"

lemma mmr_is_greedy_witness:
  "length (mmr_rerank sample_ops [hit [97] (1/2) (Some 1) None, hit [98] (1/4) None (Some 1)]
       [([97], [1, 0]), ([98], [0, 1])] 1 (Some (1/2))) = 1
   \<and> mmr_rerank sample_ops [hit [97] (1/2) (Some 1) None, hit [98] (1/4) None (Some 1)]
       [([97], [1, 0]), ([98], [0, 1])] 1 (Some (1/2))
     = mmr_direct (mmr_input_of sample_ops (1/2) [hit [97] (1/2) (Some 1) None, hit [98] (1/4) None (Some 1)]
         [([97], [1, 0]), ([98], [0, 1])]) 1 [] [hit [97] (1/2) (Some 1) None, hit [98] (1/4) None (Some 1)]"
  using mmr_is_greedy [of "[hit [97] (1/2) (Some 1) None, hit [98] (1/4) None (Some 1)]"
      "[([97], [1, 0]), ([98], [0, 1])]" sample_ops 1 "1/2"] by auto

end
