(* ===== verification/HubIndex.thy ===== *)
theory HubIndex imports MemoryItem RecallVectors RecallQuery begin

text \<open>
  The index of the hub (\<open>platform/indexing\<close>): the tables of the SQLite file as lists of rows, the
  writer (\<open>index_writer.py\<close>), the metadata, graph and vector operations (\<open>metadata_index.py\<close>,
  \<open>graph_index.py\<close>, \<open>vector_index.py\<close>) and the searches of \<open>index.py\<close>.

  A SQL statement is what it says on the rows of one table; \<open>INSERT OR REPLACE\<close> removes the row
  with the same primary key and appends the new one. A column that holds JSON is the value it
  encodes. The record \<open>sql\<close> holds what SQLite itself decides: which rows of the text table match an
  FTS5 query and with which \<open>bm25\<close> value, the nearest vectors of \<open>sqlite_vec\<close>, the limit on bound
  variables, and the rounding of a float that is packed as a C float.
\<close>

section \<open>Tables\<close>

record meta_row =
  mr_id :: pystr
  mr_type :: pystr
  mr_project :: "pystr option"
  mr_created_at :: pystr
  mr_tags :: "pystr list"
  mr_title :: pystr
  mr_summary :: pystr
  mr_confidence :: rat
  mr_decay_class :: pystr
  mr_last_accessed :: "pystr option"
  mr_access_count :: int
  mr_sensitivity :: pystr
  mr_tenant_id :: "pystr option"
  mr_support_count :: int
  mr_contradict_count :: int
  mr_gain_score :: rat
  mr_superseded_by :: "pystr option"
  mr_maturity :: pystr
  mr_context_views :: context_views
  mr_tier :: "pystr option"

record fts_row =
  fr_id :: pystr
  fr_title :: pystr
  fr_summary :: pystr
  fr_body :: pystr

type_synonym edge = "pystr \<times> pystr \<times> pystr"

record hub_index =
  ix_meta :: "meta_row list"
  ix_fts :: "fts_row list"
  ix_vec :: "(pystr \<times> vector) list"
  ix_graph :: "edge list"
  ix_dim :: nat
  ix_uses_sqlite_vec :: bool

type_synonym index_hit = "pystr \<times> rat"

record sql =
  sq_match :: "fts_row list \<Rightarrow> pystr \<Rightarrow> index_hit list result"
  sq_nearest :: "(pystr \<times> vector) list \<Rightarrow> vector \<Rightarrow> int \<Rightarrow> index_hit list result"
  sq_getlimit :: "int option"
  sq_file_backed :: bool
  sq_single :: "rat \<Rightarrow> rat"
  sq_floats :: float_ops
  sq_unicode :: unicode

definition rel_refs :: pystr where "rel_refs = lit ''refs''"
definition rel_supersedes :: pystr where "rel_supersedes = lit ''supersedes''"

lemma relations_differ [simp]: "rel_refs \<noteq> rel_supersedes" "rel_supersedes \<noteq> rel_refs"
  by (simp_all add: rel_refs_def rel_supersedes_def lit_def)

text \<open>\<open>INSERT OR IGNORE\<close> into the table of edges, whose primary key is the whole row.\<close>

definition insert_edge :: "edge \<Rightarrow> edge list \<Rightarrow> edge list" where
  "insert_edge e g = (if e \<in> set g then g else g @ [e])"

definition meta_of :: "hub_index \<Rightarrow> pystr \<Rightarrow> meta_row option" where
  "meta_of ix i = List.find (\<lambda>r. mr_id r = i) (ix_meta ix)"

text \<open>A row with a superseder: the column is neither \<open>NULL\<close> nor empty.\<close>

definition is_superseded :: "meta_row \<Rightarrow> bool" where
  "is_superseded r \<longleftrightarrow> given_text (mr_superseded_by r)"

definition segment_cjk :: "unicode \<Rightarrow> pystr \<Rightarrow> pystr" where
  "segment_cjk u text = concat (map (\<lambda>c. if is_cjk_search_char u c then [32, c, 32] else [c]) text)"

definition sqlite_variable_limit :: "sql \<Rightarrow> int" where
  "sqlite_variable_limit q = (case sq_getlimit q of Some n \<Rightarrow> if 0 < n then n else 900 | None \<Rightarrow> 900)"

text \<open>\<open>_chunked\<close>, and the same loop over offsets in \<open>_target_supersessions\<close>.\<close>

function chunked :: "nat \<Rightarrow> 'a list \<Rightarrow> 'a list list" where
  "chunked n xs = (if xs = [] then [] else take (max 1 n) xs # chunked n (drop (max 1 n) xs))"
  by pat_completeness auto
termination by (relation "measure (\<lambda>(n, xs). length xs)") auto

declare chunked.simps [simp del]

section \<open>The writer\<close>

definition index_row :: "memory_item \<Rightarrow> meta_row" where
  "index_row item =
     \<lparr>mr_id = mi_id item, mr_type = item_type_str item, mr_project = mi_project item,
      mr_created_at = isoformat_utc (instant (aware (mi_created_at item))), mr_tags = mi_tags item,
      mr_title = mi_title item, mr_summary = mi_summary item, mr_confidence = mi_confidence item,
      mr_decay_class = slot_str ''DecayClass'' decay_class_value (rt_decay_class (mi_retention item)),
      mr_last_accessed = map_option isoformat (rt_last_accessed (mi_retention item)),
      mr_access_count = rt_access_count (mi_retention item),
      mr_sensitivity = slot_str ''Sensitivity'' sensitivity_value (mi_sensitivity item),
      mr_tenant_id = mi_tenant_id item, mr_support_count = mi_support_count item,
      mr_contradict_count = mi_contradict_count item, mr_gain_score = mi_gain_score item,
      mr_superseded_by = mi_superseded_by item, mr_maturity = item_maturity_str item,
      mr_context_views = mi_context_views item, mr_tier = None\<rparr>"

definition fts_row_of :: "unicode \<Rightarrow> memory_item \<Rightarrow> fts_row" where
  "fts_row_of u item =
     \<lparr>fr_id = mi_id item, fr_title = segment_cjk u (mi_title item),
      fr_summary = segment_cjk u (vw_locator (mi_context_views item)),
      fr_body = segment_cjk u (vw_overview (mi_context_views item))\<rparr>"

definition target_supersessions :: "sql \<Rightarrow> meta_row list \<Rightarrow> pystr list \<Rightarrow> (pystr \<times> pystr option) list" where
  "target_supersessions q meta targets =
     fold (\<lambda>chunk acc. fold (\<lambda>r acc. AList.update (mr_id r) (mr_superseded_by r) acc)
             (filter (\<lambda>r. mr_id r \<in> set chunk) meta) acc)
       (chunked (nat (max 1 (min (sqlite_variable_limit q) 900))) (sort (dedup targets))) []"

definition mem_edge :: "(pystr \<times> pystr option) list \<Rightarrow> pystr \<Rightarrow> pystr \<Rightarrow> edge" where
  "mem_edge supersessions i target =
     (i, target,
      if map_of supersessions target = Some (Some i) then rel_supersedes else rel_refs)"

definition supersede_edge :: "pystr \<Rightarrow> pystr \<Rightarrow> edge list \<Rightarrow> edge list" where
  "supersede_edge s t g = insert_edge (s, t, rel_supersedes) (filter (\<lambda>e. e \<noteq> (s, t, rel_refs)) g)"

definition dim_error :: "nat \<Rightarrow> nat \<Rightarrow> py_exn" where
  "dim_error n d = ValueError (lit ''embedding dim '' @ nat_str n @ lit '' != index dim '' @ nat_str d)"

definition vector_upsert ::
  "sql \<Rightarrow> nat \<Rightarrow> pystr \<Rightarrow> vector \<Rightarrow> (pystr \<times> vector) list \<Rightarrow> (pystr \<times> vector) list result" where
  "vector_upsert q d i embedding vecs =
     (if length embedding \<noteq> d then Inl (dim_error (length embedding) d)
      else Inr (filter (\<lambda>(j, _). j \<noteq> i) vecs @ [(i, map (sq_single q) embedding)]))"

text \<open>The edges after an item is written: its outgoing references, then both sides of supersession.\<close>

definition upsert_graph :: "sql \<Rightarrow> meta_row list \<Rightarrow> memory_item \<Rightarrow> edge list \<Rightarrow> edge list" where
  "upsert_graph q meta item g =
     (let i = mi_id item;
          g1 = filter (\<lambda>(s, t, r). \<not> (s = i \<and> r \<in> {rel_refs, rel_supersedes})) g;
          targets = rf_mems (mi_refs item);
          supersessions = target_supersessions q meta targets;
          g2 = (if targets \<noteq> [] then fold (\<lambda>t. insert_edge (mem_edge supersessions i t)) targets g1 else g1);
          g3 = filter (\<lambda>(s, t, r). \<not> (t = i \<and> r = rel_supersedes)) g2;
          g4 = (if given_text (mi_superseded_by item) then supersede_edge (the (mi_superseded_by item)) i g3 else g3);
          obsolete = map mr_id (filter (\<lambda>r. mr_superseded_by r = Some i) meta)
      in fold (supersede_edge i) obsolete g4)"

text \<open>
  One transaction: a vector of the wrong dimension raises, and nothing of the upsert is kept. The
  body is not read; the text table holds the views.
\<close>

definition index_upsert ::
  "sql \<Rightarrow> memory_item \<Rightarrow> pystr \<Rightarrow> vector option \<Rightarrow> hub_index \<Rightarrow> hub_index result" where
  "index_upsert q item body embedding ix =
     (let i = mi_id item;
          meta = filter (\<lambda>r. mr_id r \<noteq> i) (ix_meta ix) @ [index_row item];
          fts = filter (\<lambda>r. fr_id r \<noteq> i) (ix_fts ix) @ [fts_row_of (sq_unicode q) item]
      in bindR (case embedding of None \<Rightarrow> Inr (ix_vec ix) | Some e \<Rightarrow> vector_upsert q (ix_dim ix) i e (ix_vec ix))
           (\<lambda>vec. Inr (ix\<lparr>ix_meta := meta, ix_fts := fts, ix_vec := vec,
                           ix_graph := upsert_graph q meta item (ix_graph ix)\<rparr>)))"

definition index_delete :: "pystr \<Rightarrow> hub_index \<Rightarrow> hub_index" where
  "index_delete i ix =
     ix\<lparr>ix_meta := filter (\<lambda>r. mr_id r \<noteq> i) (ix_meta ix),
        ix_fts := filter (\<lambda>r. fr_id r \<noteq> i) (ix_fts ix),
        ix_vec := filter (\<lambda>(j, _). j \<noteq> i) (ix_vec ix),
        ix_graph := filter (\<lambda>(s, t, r). \<not> (s = i \<or> t = i)) (ix_graph ix)\<rparr>"

definition all_ids :: "hub_index \<Rightarrow> pystr list" where
  "all_ids ix = map mr_id (ix_meta ix)"

definition ghost_ids :: "pystr list \<Rightarrow> hub_index \<Rightarrow> pystr list" where
  "ghost_ids active ix = sort (dedup (filter (\<lambda>i. i \<notin> set active) (all_ids ix)))"

definition remove_item_rows :: "pystr \<Rightarrow> hub_index \<Rightarrow> hub_index" where
  "remove_item_rows i ix =
     ix\<lparr>ix_meta := filter (\<lambda>r. mr_id r \<noteq> i) (ix_meta ix),
        ix_fts := filter (\<lambda>r. fr_id r \<noteq> i) (ix_fts ix),
        ix_vec := filter (\<lambda>(j, _). j \<noteq> i) (ix_vec ix)\<rparr>"

definition index_prune :: "pystr list \<Rightarrow> hub_index \<Rightarrow> nat \<times> hub_index" where
  "index_prune active ix =
     (let ghosts = ghost_ids active ix;
          ix1 = fold remove_item_rows ghosts ix
      in (length ghosts,
          ix1\<lparr>ix_graph := filter (\<lambda>(s, t, r). s \<in> set (all_ids ix1) \<and> t \<in> set (all_ids ix1)) (ix_graph ix1)\<rparr>))"

section \<open>Metadata\<close>

definition rows_in :: "pystr list \<Rightarrow> hub_index \<Rightarrow> meta_row list" where
  "rows_in ids ix = filter (\<lambda>r. mr_id r \<in> set ids) (ix_meta ix)"

record decay_data =
  dd_confidence :: rat
  dd_decay_class :: pystr
  dd_last_accessed :: "pystr option"
  dd_created_at :: "pystr option"
  dd_access_count :: int
  dd_support_count :: int
  dd_contradict_count :: int
  dd_gain_score :: rat

definition get_confidence_data :: "hub_index \<Rightarrow> pystr list \<Rightarrow> (pystr \<times> rat \<times> pystr \<times> pystr option) list" where
  "get_confidence_data ix ids =
     map (\<lambda>r. (mr_id r, mr_confidence r, mr_decay_class r, mr_last_accessed r)) (rows_in ids ix)"

definition get_decay_data :: "hub_index \<Rightarrow> pystr list \<Rightarrow> (pystr \<times> decay_data) list" where
  "get_decay_data ix ids =
     map (\<lambda>r. (mr_id r,
       \<lparr>dd_confidence = mr_confidence r, dd_decay_class = mr_decay_class r,
        dd_last_accessed = mr_last_accessed r, dd_created_at = Some (mr_created_at r),
        dd_access_count = mr_access_count r, dd_support_count = mr_support_count r,
        dd_contradict_count = mr_contradict_count r, dd_gain_score = mr_gain_score r\<rparr>)) (rows_in ids ix)"

record search_metadata =
  sm_type :: pystr
  sm_tags :: "pystr list"
  sm_title :: pystr
  sm_summary :: pystr
  sm_created_at :: pystr

definition get_search_metadata :: "hub_index \<Rightarrow> pystr list \<Rightarrow> (pystr \<times> search_metadata) list" where
  "get_search_metadata ix ids =
     map (\<lambda>r. (mr_id r,
       \<lparr>sm_type = mr_type r, sm_tags = mr_tags r, sm_title = mr_title r, sm_summary = mr_summary r,
        sm_created_at = mr_created_at r\<rparr>)) (rows_in ids ix)"

definition get_projects :: "hub_index \<Rightarrow> pystr list \<Rightarrow> (pystr \<times> pystr option) list" where
  "get_projects ix ids = map (\<lambda>r. (mr_id r, mr_project r)) (rows_in ids ix)"

text \<open>Project, sensitivity and tenant.\<close>

definition get_shadow_metadata ::
  "hub_index \<Rightarrow> pystr list \<Rightarrow> (pystr \<times> pystr option \<times> pystr \<times> pystr option) list" where
  "get_shadow_metadata ix ids =
     map (\<lambda>r. (mr_id r, mr_project r,
       (if mr_sensitivity r = [] then lit ''internal'' else mr_sensitivity r), mr_tenant_id r)) (rows_in ids ix)"

definition get_superseded_ids :: "hub_index \<Rightarrow> pystr list" where
  "get_superseded_ids ix = map mr_id (filter is_superseded (ix_meta ix))"

definition get_feedback_data :: "hub_index \<Rightarrow> pystr list \<Rightarrow> (pystr \<times> int \<times> int \<times> rat) list" where
  "get_feedback_data ix ids =
     map (\<lambda>r. (mr_id r, mr_support_count r, mr_contradict_count r, mr_gain_score r)) (rows_in ids ix)"

definition update_row :: "pystr \<Rightarrow> (meta_row \<Rightarrow> meta_row) \<Rightarrow> hub_index \<Rightarrow> hub_index" where
  "update_row i f ix = ix\<lparr>ix_meta := map (\<lambda>r. if mr_id r = i then f r else r) (ix_meta ix)\<rparr>"

definition record_access :: "pystr \<Rightarrow> pystr \<Rightarrow> hub_index \<Rightarrow> hub_index" where
  "record_access i accessed_at =
     update_row i (\<lambda>r. r\<lparr>mr_access_count := mr_access_count r + 1, mr_last_accessed := Some accessed_at\<rparr>)"

definition record_access_many :: "pystr list \<Rightarrow> pystr \<Rightarrow> hub_index \<Rightarrow> hub_index" where
  "record_access_many ids accessed_at ix = fold (\<lambda>i. record_access i accessed_at) ids ix"

definition update_confidence :: "pystr \<Rightarrow> rat \<Rightarrow> hub_index \<Rightarrow> hub_index" where
  "update_confidence i confidence = update_row i (\<lambda>r. r\<lparr>mr_confidence := min (max confidence 0) 1\<rparr>)"

definition update_feedback_stats ::
  "pystr \<Rightarrow> int option \<Rightarrow> int option \<Rightarrow> rat option \<Rightarrow> hub_index \<Rightarrow> hub_index" where
  "update_feedback_stats i support contradict gain =
     update_row i (\<lambda>r.
       r\<lparr>mr_support_count := (case support of None \<Rightarrow> mr_support_count r | Some n \<Rightarrow> max 0 n),
         mr_contradict_count := (case contradict of None \<Rightarrow> mr_contradict_count r | Some n \<Rightarrow> max 0 n),
         mr_gain_score := (case gain of None \<Rightarrow> mr_gain_score r | Some x \<Rightarrow> x)\<rparr>)"

definition update_tier :: "pystr \<Rightarrow> pystr \<Rightarrow> hub_index \<Rightarrow> hub_index" where
  "update_tier i tier = update_row i (\<lambda>r. r\<lparr>mr_tier := Some tier\<rparr>)"

definition tier_counts :: "hub_index \<Rightarrow> (pystr \<times> nat) list" where
  "tier_counts ix =
     (let tiers = List.map_filter mr_tier (ix_meta ix)
      in map (\<lambda>t. (t, length (filter (\<lambda>u. u = t) tiers))) (dedup tiers))"

text \<open>The filter of a search; \<open>None\<close> when no filter is active. Stamps compare as texts.\<close>

record id_filter =
  if_type :: "pystr option"
  if_project :: "pystr option"
  if_tags :: "pystr list"
  if_exclude_tags :: "pystr list"
  if_since_days :: "int option"
  if_tenant_id :: "pystr option"
  if_include_superseded :: bool

definition no_filter :: id_filter where
  "no_filter =
     \<lparr>if_type = None, if_project = None, if_tags = [], if_exclude_tags = [], if_since_days = None,
      if_tenant_id = None, if_include_superseded = True\<rparr>"

definition row_clauses :: "int \<Rightarrow> id_filter \<Rightarrow> meta_row \<Rightarrow> bool" where
  "row_clauses now f r \<longleftrightarrow>
     (if_include_superseded f \<or> \<not> is_superseded r)
     \<and> (if_type f = None \<or> if_type f = Some (mr_type r))
     \<and> (if_project f = None \<or> if_project f = mr_project r)
     \<and> (case if_since_days f of None \<Rightarrow> True
          | Some days \<Rightarrow> isoformat_utc (now - days * us_per_day) \<le> mr_created_at r)
     \<and> (if_tenant_id f = None \<or> if_tenant_id f = mr_tenant_id r)"

definition filter_ids :: "int \<Rightarrow> hub_index \<Rightarrow> id_filter \<Rightarrow> pystr list option" where
  "filter_ids now ix f =
     (if if_include_superseded f \<and> if_type f = None \<and> if_project f = None \<and> if_since_days f = None
         \<and> if_tenant_id f = None \<and> if_tags f = [] \<and> if_exclude_tags f = [] then None
      else
        let rows = filter (row_clauses now f) (ix_meta ix);
            tagged = (if if_tags f \<noteq> [] then filter (\<lambda>r. list_all (\<lambda>t. t \<in> set (mr_tags r)) (if_tags f)) rows else rows);
            kept = (if if_exclude_tags f \<noteq> []
              then filter (\<lambda>r. list_all (\<lambda>t. t \<notin> set (mr_tags r)) (if_exclude_tags f)) tagged else tagged)
        in Some (map mr_id kept))"

section \<open>The graph\<close>

definition add_ref :: "pystr \<Rightarrow> pystr \<Rightarrow> pystr \<Rightarrow> hub_index \<Rightarrow> hub_index" where
  "add_ref s t relation ix = ix\<lparr>ix_graph := insert_edge (s, t, relation) (ix_graph ix)\<rparr>"

definition remove_ref :: "pystr \<Rightarrow> pystr \<Rightarrow> pystr option \<Rightarrow> hub_index \<Rightarrow> nat \<times> hub_index" where
  "remove_ref s t relation ix =
     (let gone = (\<lambda>(a, b, r). a = s \<and> b = t \<and> (relation = None \<or> relation = Some r))
      in (length (filter gone (ix_graph ix)), ix\<lparr>ix_graph := filter (\<lambda>e. \<not> gone e) (ix_graph ix)\<rparr>))"

definition refs_for :: "hub_index \<Rightarrow> pystr \<Rightarrow> edge list" where
  "refs_for ix i = filter (\<lambda>(s, t, r). s = i \<or> t = i) (ix_graph ix)"

definition replace_supersedes :: "(pystr \<times> pystr) list \<Rightarrow> hub_index \<Rightarrow> (nat \<times> nat) \<times> hub_index" where
  "replace_supersedes edges ix =
     (let normalized = sort (dedup edges);
          kept = filter (\<lambda>(s, t, r). r \<noteq> rel_supersedes) (ix_graph ix)
      in ((length (ix_graph ix) - length kept, length normalized),
          ix\<lparr>ix_graph := kept @ map (\<lambda>(s, t). (s, t, rel_supersedes)) normalized\<rparr>))"

text \<open>One hop of \<open>neighbors\<close>: the ids on edges of the frontier that are not visited.\<close>

definition next_frontier :: "edge list \<Rightarrow> pystr \<Rightarrow> pystr list \<Rightarrow> pystr list \<Rightarrow> pystr list" where
  "next_frontier g i visited frontier =
     (let rows = filter (\<lambda>(s, t, r). s \<in> set frontier \<or> t \<in> set frontier) g
      in filter (\<lambda>x. x \<notin> set visited \<and> x \<noteq> i) (concat (map (\<lambda>(s, t, r). [s, t]) rows)))"

fun hops :: "edge list \<Rightarrow> pystr \<Rightarrow> nat \<Rightarrow> pystr list \<Rightarrow> pystr list \<Rightarrow> pystr list \<times> pystr list" where
  "hops g i 0 visited frontier = (visited, frontier)"
| "hops g i (Suc n) visited frontier =
     (if frontier = [] then (visited, frontier)
      else
        let found = next_frontier g i visited frontier;
            visited' = dedup (visited @ frontier)
        in hops g i n visited' (filter (\<lambda>x. x \<notin> set visited') (dedup found)))"

definition graph_neighbors :: "hub_index \<Rightarrow> pystr \<Rightarrow> nat \<Rightarrow> pystr list" where
  "graph_neighbors ix i depth =
     (let (visited, frontier) = hops (ix_graph ix) i depth [] [i]
      in filter (\<lambda>x. x \<noteq> i) (dedup (visited @ frontier)))"

section \<open>Texts, vectors and searches\<close>

definition get_texts :: "hub_index \<Rightarrow> pystr list \<Rightarrow> (pystr \<times> pystr) list" where
  "get_texts ix ids =
     map (\<lambda>r. (fr_id r, fr_title r @ lit '' '' @ fr_summary r @ lit '' '' @ fr_body r))
       (filter (\<lambda>r. fr_id r \<in> set ids) (ix_fts ix))"

definition get_text :: "hub_index \<Rightarrow> pystr \<Rightarrow> pystr option" where
  "get_text ix i =
     map_option (\<lambda>r. fr_title r @ lit '' '' @ fr_summary r @ lit '' '' @ fr_body r)
       (List.find (\<lambda>r. fr_id r = i) (ix_fts ix))"

definition get_embeddings :: "hub_index \<Rightarrow> pystr list \<Rightarrow> (pystr \<times> vector) list" where
  "get_embeddings ix ids = filter (\<lambda>(i, _). i \<in> set ids) (ix_vec ix)"

text \<open>Python's slice \<open>xs[:k]\<close>, and the \<open>LIMIT\<close> of SQLite, which is no limit when it is negative.\<close>

definition slice :: "int \<Rightarrow> 'a list \<Rightarrow> 'a list" where
  "slice k xs = (if 0 \<le> k then take (nat k) xs else take (length xs - nat (- k)) xs)"

definition limit_rows :: "int \<Rightarrow> 'a list \<Rightarrow> 'a list" where
  "limit_rows k xs = (if k < 0 then xs else take (nat k) xs)"

definition squared_distance :: "float_ops \<Rightarrow> vector \<Rightarrow> vector \<Rightarrow> rat" where
  "squared_distance fo a b = fo_sum fo (map (\<lambda>(x, y). fo_pow fo (fl64 (x - y)) 2) (zip a b))"

definition vector_index_search :: "sql \<Rightarrow> hub_index \<Rightarrow> vector \<Rightarrow> int \<Rightarrow> index_hit list result" where
  "vector_index_search q ix embedding top_k =
     (if \<not> ix_uses_sqlite_vec ix then
        if length embedding \<noteq> ix_dim ix then Inl (dim_error (length embedding) (ix_dim ix))
        else Inr (slice top_k (sort_key (\<lambda>h. - snd h)
               (map (\<lambda>(i, v). (i, - squared_distance (sq_floats q) v embedding))
                 (filter (\<lambda>(i, v). length v = ix_dim ix) (ix_vec ix)))))
      else bindR (sq_nearest q (ix_vec ix) (map (sq_single q) embedding) top_k)
             (\<lambda>rows. Inr (map (\<lambda>(i, d). (i, - d)) (sort_key snd rows))))"

definition best_first :: "index_hit list \<Rightarrow> index_hit list" where
  "best_first hits = sort_key (\<lambda>h. (- snd h, fst h)) hits"

text \<open>The rows of a text query, best first: SQLite's \<open>bm25\<close> is lower for better matches.\<close>

definition match_rows :: "sql \<Rightarrow> hub_index \<Rightarrow> pystr \<Rightarrow> index_hit list result" where
  "match_rows q ix query =
     bindR (sq_match q (ix_fts ix) query) (\<lambda>rows. Inr (map (\<lambda>(i, s). (i, - s)) (sort_key snd rows)))"

definition normalize_inline_limit :: "int \<Rightarrow> int result" where
  "normalize_inline_limit k = (if k < 0 then Inl (ValueError (lit ''top_k must be non-negative'')) else Inr k)"

definition bm25_allowed :: "sql \<Rightarrow> hub_index \<Rightarrow> pystr \<Rightarrow> nat \<Rightarrow> pystr list \<Rightarrow> index_hit list result" where
  "bm25_allowed q ix query top_k allowed =
     (let limit = sqlite_variable_limit q
      in if limit < 2 then
           if \<not> sq_file_backed q then
             Inl (OtherError (lit ''BM25 allowed_ids fallback requires a file-backed SQLite index''))
           else bindR (match_rows q ix query)
                  (\<lambda>rows. Inr (take top_k (filter (\<lambda>h. fst h \<in> set allowed) rows)))
         else
           bindR (mapR (\<lambda>chunk. bindR (match_rows q ix query)
                     (\<lambda>rows. Inr (take top_k (filter (\<lambda>h. fst h \<in> set chunk) rows))))
                   (chunked (nat (limit - 1)) (sort (dedup allowed))))
             (\<lambda>hits. Inr (take top_k (best_first (concat hits)))))"

definition bm25_search ::
  "sql \<Rightarrow> hub_index \<Rightarrow> pystr \<Rightarrow> int \<Rightarrow> pystr list option \<Rightarrow> pystr list option \<Rightarrow> index_hit list result" where
  "bm25_search q ix query top_k allowed excluded =
     (case (allowed, excluded) of
        (Some _, Some _) \<Rightarrow> Inl (ValueError (lit ''allowed_ids and excluded_ids are mutually exclusive''))
      | (None, Some ex) \<Rightarrow>
          bindR (normalize_inline_limit top_k) (\<lambda>k.
            if k = 0 then Inr []
            else bindR (match_rows q ix query) (\<lambda>rows.
              Inr (take (nat k) (filter (\<lambda>h. fst h \<notin> set ex) (take (nat k + length (dedup ex)) rows)))))
      | (None, None) \<Rightarrow> bindR (match_rows q ix query) (\<lambda>rows. Inr (limit_rows top_k rows))
      | (Some al, None) \<Rightarrow>
          bindR (normalize_inline_limit top_k) (\<lambda>k.
            if al = [] \<or> k = 0 then Inr [] else bm25_allowed q ix query (nat k) al))"

definition vector_allowed :: "sql \<Rightarrow> hub_index \<Rightarrow> vector \<Rightarrow> int \<Rightarrow> pystr list \<Rightarrow> index_hit list" where
  "vector_allowed q ix embedding top_k allowed =
     (let embeddings = fold (\<lambda>chunk acc. fold (\<lambda>(i, v). AList.update i v) (get_embeddings ix chunk) acc)
            (chunked (nat (sqlite_variable_limit q)) (sort (dedup allowed))) []
      in slice top_k (best_first
           (map (\<lambda>(i, v). (i, - squared_distance (sq_floats q) v embedding))
             (filter (\<lambda>(i, v). length v = ix_dim ix) embeddings))))"

definition vector_search ::
  "sql \<Rightarrow> hub_index \<Rightarrow> vector \<Rightarrow> int \<Rightarrow> pystr list option \<Rightarrow> pystr list option \<Rightarrow> index_hit list result" where
  "vector_search q ix embedding top_k allowed excluded =
     (case (allowed, excluded) of
        (Some _, Some _) \<Rightarrow> Inl (ValueError (lit ''allowed_ids and excluded_ids are mutually exclusive''))
      | (None, Some ex) \<Rightarrow>
          if top_k \<le> 0 then Inr []
          else bindR (vector_index_search q ix embedding (top_k + int (length (dedup ex))))
                 (\<lambda>hits. Inr (slice top_k (filter (\<lambda>h. fst h \<notin> set ex) hits)))
      | (None, None) \<Rightarrow> vector_index_search q ix embedding top_k
      | (Some al, None) \<Rightarrow>
          if al = [] \<or> top_k \<le> 0 then Inr []
          else if length embedding \<noteq> ix_dim ix then Inl (dim_error (length embedding) (ix_dim ix))
          else Inr (vector_allowed q ix embedding top_k al))"

end
