(* ===== verification/IndexLaws.thy ===== *)
theory IndexLaws imports HubIndex begin

text \<open>
  Properties of the index of the hub: what the writer keeps of the tables, the projection of
  supersession onto the graph, the neighbours within a number of hops, and the searches with a set
  of allowed or of excluded ids.
\<close>

section \<open>The tables agree\<close>

definition tables_agree :: "hub_index \<Rightarrow> bool" where
  "tables_agree ix \<longleftrightarrow>
     distinct (all_ids ix) \<and> map fr_id (ix_fts ix) = all_ids ix
     \<and> distinct (map fst (ix_vec ix)) \<and> set (map fst (ix_vec ix)) \<subseteq> set (all_ids ix)"

lemma map_filter_key: "map f (filter (\<lambda>x. f x \<noteq> i) xs) = filter (\<lambda>y. y \<noteq> i) (map f xs)"
  by (simp add: filter_map comp_def)

lemma vec_filter_key: "map fst (filter (\<lambda>(j, _). j \<noteq> i) vs) = filter (\<lambda>j. j \<noteq> i) (map fst vs)"
  by (induction vs) auto

lemma index_row_id [simp]: "mr_id (index_row item) = mi_id item"
  by (simp add: index_row_def)

lemma fts_row_id [simp]: "fr_id (fts_row_of u item) = mi_id item"
  by (simp add: fts_row_of_def)

lemma upsert_Inr:
  assumes "index_upsert q item body embedding ix = Inr ix'"
  shows "ix_meta ix' = filter (\<lambda>r. mr_id r \<noteq> mi_id item) (ix_meta ix) @ [index_row item]"
    and "ix_fts ix' = filter (\<lambda>r. fr_id r \<noteq> mi_id item) (ix_fts ix) @ [fts_row_of (sq_unicode q) item]"
    and "ix_graph ix' = upsert_graph q (ix_meta ix') item (ix_graph ix)"
    and "ix_vec ix' = ix_vec ix \<or>
      (\<exists>v. ix_vec ix' = filter (\<lambda>(j, _). j \<noteq> mi_id item) (ix_vec ix) @ [(mi_id item, v)])"
  using assms
  by (auto simp: index_upsert_def Let_def bindR_Inr_iff vector_upsert_def split: option.splits if_splits)

lemma upsert_tables:
  assumes ok: "tables_agree ix" and up: "index_upsert q item body embedding ix = Inr ix'"
  shows "tables_agree ix'"
proof -
  let ?i = "mi_id item"
  have ids: "all_ids ix' = filter (\<lambda>i. i \<noteq> ?i) (all_ids ix) @ [?i]"
    by (simp add: all_ids_def upsert_Inr(1) [OF up] map_filter_key)
  have fts: "map fr_id (ix_fts ix') = filter (\<lambda>i. i \<noteq> ?i) (map fr_id (ix_fts ix)) @ [?i]"
    by (simp add: upsert_Inr(2) [OF up] map_filter_key)
  have "map fst (ix_vec ix') = map fst (ix_vec ix)
      \<or> map fst (ix_vec ix') = filter (\<lambda>i. i \<noteq> ?i) (map fst (ix_vec ix)) @ [?i]"
    using upsert_Inr(4) [OF up] by (auto simp: vec_filter_key)
  moreover have "set (all_ids ix) \<subseteq> insert ?i (set (all_ids ix) - {?i})" by auto
  ultimately show ?thesis
    using ok unfolding tables_agree_def ids fts by (elim disjE) (auto simp del: set_map)
qed

lemma delete_ids: "all_ids (index_delete i ix) = filter (\<lambda>j. j \<noteq> i) (all_ids ix)"
  by (simp add: all_ids_def index_delete_def map_filter_key)

lemma without_tables:
  assumes "tables_agree ix" and "all_ids ix' = filter (\<lambda>j. j \<noteq> i) (all_ids ix)"
    and "ix_fts ix' = filter (\<lambda>r. fr_id r \<noteq> i) (ix_fts ix)" and "ix_vec ix' = filter (\<lambda>(j, _). j \<noteq> i) (ix_vec ix)"
  shows "tables_agree ix'"
  using assms unfolding tables_agree_def by (auto simp: map_filter_key vec_filter_key simp del: set_map)

lemma delete_tables: "tables_agree ix \<Longrightarrow> tables_agree (index_delete i ix)"
  by (rule without_tables [OF _ delete_ids]) (simp_all add: index_delete_def)

lemma remove_rows_ids: "all_ids (remove_item_rows i ix) = filter (\<lambda>j. j \<noteq> i) (all_ids ix)"
  by (simp add: all_ids_def remove_item_rows_def map_filter_key)

lemma remove_rows_tables: "tables_agree ix \<Longrightarrow> tables_agree (remove_item_rows i ix)"
  by (rule without_tables [OF _ remove_rows_ids]) (simp_all add: remove_item_rows_def)

lemma fold_remove_tables: "tables_agree ix \<Longrightarrow> tables_agree (fold remove_item_rows is ix)"
  by (induction "is" arbitrary: ix) (simp_all add: remove_rows_tables)

lemma fold_remove_meta:
  "ix_meta (fold remove_item_rows is ix) = filter (\<lambda>r. mr_id r \<notin> set is) (ix_meta ix)"
  by (induction "is" arbitrary: ix) (auto simp: remove_item_rows_def intro: filter_cong)

lemma fold_remove_graph: "ix_graph (fold remove_item_rows is ix) = ix_graph ix"
  by (induction "is" arbitrary: ix) (simp_all add: remove_item_rows_def)

lemma prune_fields:
  "ix_meta (snd (index_prune active ix)) = filter (\<lambda>r. mr_id r \<in> set active) (ix_meta ix)"
  "ix_graph (snd (index_prune active ix)) =
     filter (\<lambda>(s, t, r). s \<in> set (all_ids ix) \<inter> set active \<and> t \<in> set (all_ids ix) \<inter> set active) (ix_graph ix)"
proof -
  have "filter (\<lambda>r. mr_id r \<notin> set (ghost_ids active ix)) (ix_meta ix) = filter (\<lambda>r. mr_id r \<in> set active) (ix_meta ix)"
    by (intro filter_cong) (auto simp: ghost_ids_def all_ids_def)
  then have meta: "ix_meta (fold remove_item_rows (ghost_ids active ix) ix) = filter (\<lambda>r. mr_id r \<in> set active) (ix_meta ix)"
    by (simp add: fold_remove_meta)
  then show "ix_meta (snd (index_prune active ix)) = filter (\<lambda>r. mr_id r \<in> set active) (ix_meta ix)"
    by (simp add: index_prune_def Let_def)
  have "set (all_ids (fold remove_item_rows (ghost_ids active ix) ix)) = set (all_ids ix) \<inter> set active"
    by (auto simp: all_ids_def meta)
  then show "ix_graph (snd (index_prune active ix)) =
     filter (\<lambda>(s, t, r). s \<in> set (all_ids ix) \<inter> set active \<and> t \<in> set (all_ids ix) \<inter> set active) (ix_graph ix)"
    by (simp add: index_prune_def Let_def fold_remove_graph)
qed

lemma prune_tables: "tables_agree ix \<Longrightarrow> tables_agree (snd (index_prune active ix))"
  using fold_remove_tables [of ix "ghost_ids active ix"]
  by (simp add: index_prune_def Let_def tables_agree_def all_ids_def)

lemma update_row_ids [simp]:
  "(\<And>r. mr_id (f r) = mr_id r) \<Longrightarrow> all_ids (update_row i f ix) = all_ids ix"
  "ix_fts (update_row i f ix) = ix_fts ix" "ix_vec (update_row i f ix) = ix_vec ix"
  "ix_graph (update_row i f ix) = ix_graph ix"
  by (auto simp: all_ids_def update_row_def)

section \<open>Supersession in the graph\<close>

text \<open>What a row says: \<open>s\<close> supersedes \<open>t\<close>.\<close>

definition says_superseded :: "meta_row list \<Rightarrow> pystr \<Rightarrow> pystr \<Rightarrow> bool" where
  "says_superseded meta s t \<longleftrightarrow> (\<exists>r \<in> set meta. mr_id r = t \<and> mr_superseded_by r = Some s)"

text \<open>
  Off the pairs in \<open>H\<close>, an edge says \<open>supersedes\<close> exactly where the row of its target names its source.
\<close>

definition supersession_projected :: "(pystr \<times> pystr) set \<Rightarrow> hub_index \<Rightarrow> bool" where
  "supersession_projected H ix \<longleftrightarrow>
     (\<forall>s t. (s, t) \<notin> H \<longrightarrow>
        ((s, t, rel_supersedes) \<in> set (ix_graph ix) \<longrightarrow>
           says_superseded (ix_meta ix) s t \<and> (s, t, rel_refs) \<notin> set (ix_graph ix))
        \<and> (s \<in> set (all_ids ix) \<and> s \<noteq> [] \<and> says_superseded (ix_meta ix) s t \<longrightarrow>
           (s, t, rel_supersedes) \<in> set (ix_graph ix)))"

lemma projectedD:
  assumes "supersession_projected H ix" "(s, t) \<notin> H"
  shows "(s, t, rel_supersedes) \<in> set (ix_graph ix) \<Longrightarrow> says_superseded (ix_meta ix) s t \<and> (s, t, rel_refs) \<notin> set (ix_graph ix)"
    "s \<in> set (all_ids ix) \<Longrightarrow> s \<noteq> [] \<Longrightarrow> says_superseded (ix_meta ix) s t \<Longrightarrow> (s, t, rel_supersedes) \<in> set (ix_graph ix)"
  using assms by (simp_all add: supersession_projected_def)

text \<open>The pairs without the item \<open>i\<close>.\<close>

definition apart_from :: "pystr \<Rightarrow> (pystr \<times> pystr) set \<Rightarrow> (pystr \<times> pystr) set" where
  "apart_from i H = {(s, t) \<in> H. s \<noteq> i \<and> t \<noteq> i}"

lemma set_insert_edge [simp]: "set (insert_edge e g) = insert e (set g)"
  by (auto simp: insert_edge_def)

lemma set_supersede_edge [simp]: "set (supersede_edge s t g) = insert (s, t, rel_supersedes) (set g - {(s, t, rel_refs)})"
  by (auto simp: supersede_edge_def)

lemma set_fold_insert: "set (fold (\<lambda>t. insert_edge (f t)) ts g) = set g \<union> f ` set ts"
  by (induction ts arbitrary: g) auto

lemma set_fold_supersede:
  "set (fold (supersede_edge i) os g) =
     (set g - (\<lambda>t. (i, t, rel_refs)) ` set os) \<union> (\<lambda>t. (i, t, rel_supersedes)) ` set os"
  by (induction os arbitrary: g) auto

lemma fold_update_from:
  assumes "\<forall>t v. map_of acc t = Some v \<longrightarrow> (\<exists>r \<in> set meta. mr_id r = t \<and> mr_superseded_by r = v)"
    and "set rows \<subseteq> set meta"
  shows "\<forall>t v. map_of (fold (\<lambda>r acc. AList.update (mr_id r) (mr_superseded_by r) acc) rows acc) t = Some v \<longrightarrow>
      (\<exists>r \<in> set meta. mr_id r = t \<and> mr_superseded_by r = v)"
  using assms
proof (induction rows arbitrary: acc)
  case (Cons r rows)
  have "\<forall>t v. map_of (AList.update (mr_id r) (mr_superseded_by r) acc) t = Some v \<longrightarrow>
      (\<exists>r \<in> set meta. mr_id r = t \<and> mr_superseded_by r = v)"
    using Cons.prems by (auto simp: update_conv')
  then show ?case using Cons.IH Cons.prems(2) by simp
qed simp

lemma target_supersessions_from:
  assumes "map_of (target_supersessions q meta targets) t = Some v"
  shows "\<exists>r \<in> set meta. mr_id r = t \<and> mr_superseded_by r = v"
proof -
  have "\<forall>t v. map_of (fold (\<lambda>chunk acc. fold (\<lambda>r acc. AList.update (mr_id r) (mr_superseded_by r) acc)
           (filter (\<lambda>r. mr_id r \<in> set chunk) meta) acc) chunks acc) t = Some v \<longrightarrow>
        (\<exists>r \<in> set meta. mr_id r = t \<and> mr_superseded_by r = v)"
    if "\<forall>t v. map_of acc t = Some v \<longrightarrow> (\<exists>r \<in> set meta. mr_id r = t \<and> mr_superseded_by r = v)" for chunks acc
    using that
  proof (induction chunks arbitrary: acc)
    case (Cons c cs)
    show ?case
      unfolding fold_Cons comp_apply
      by (rule Cons.IH) (rule fold_update_from [OF Cons.prems], auto)
  qed simp
  from this [of "[]"] assms show ?thesis by (auto simp: target_supersessions_def)
qed

lemma mem_edge_supersedes:
  "mem_edge (target_supersessions q meta targets) i t = (a, b, rel_supersedes) \<Longrightarrow>
     a = i \<and> b = t \<and> says_superseded meta i t"
  by (auto simp: mem_edge_def says_superseded_def split: if_splits dest: target_supersessions_from)

lemma upsert_supersedes_iff:
  "(s, t, rel_supersedes) \<in> set (upsert_graph q meta item g) \<longleftrightarrow>
     s \<noteq> mi_id item \<and> t \<noteq> mi_id item \<and> (s, t, rel_supersedes) \<in> set g
     \<or> t = mi_id item \<and> mi_superseded_by item = Some s \<and> s \<noteq> []
     \<or> s = mi_id item \<and> says_superseded meta s t"
  unfolding upsert_graph_def Let_def set_fold_supersede
  by (auto simp: set_fold_insert given_text_def says_superseded_def image_iff dest: sym
      dest!: mem_edge_supersedes [OF sym] split: if_splits option.splits)

lemma upsert_refs:
  assumes "(s, t, rel_refs) \<in> set (upsert_graph q meta item g)"
  shows "\<not> (t = mi_id item \<and> mi_superseded_by item = Some s \<and> s \<noteq> [])
    \<and> \<not> (s = mi_id item \<and> says_superseded meta s t) \<and> (s = mi_id item \<or> (s, t, rel_refs) \<in> set g)"
  using assms unfolding upsert_graph_def Let_def set_fold_supersede
  by (auto simp: set_fold_insert given_text_def says_superseded_def mem_edge_def split: if_splits option.splits)

lemma says_upsert:
  "says_superseded (filter (\<lambda>r. mr_id r \<noteq> mi_id item) meta @ [index_row item]) s t \<longleftrightarrow>
     (if t = mi_id item then mi_superseded_by item = Some s else says_superseded meta s t)"
  by (auto simp: says_superseded_def index_row_def)

lemma upsert_projected:
  assumes ok: "supersession_projected H ix" and up: "index_upsert q item body embedding ix = Inr ix'"
  shows "supersession_projected (apart_from (mi_id item) H) ix'"
proof -
  let ?i = "mi_id item" and ?meta = "filter (\<lambda>r. mr_id r \<noteq> mi_id item) (ix_meta ix) @ [index_row item]"
  have meta: "ix_meta ix' = ?meta" and graph: "ix_graph ix' = upsert_graph q ?meta item (ix_graph ix)"
    using upsert_Inr [OF up] by simp_all
  have sound: "says_superseded ?meta s t \<and> (s, t, rel_refs) \<notin> set (upsert_graph q ?meta item (ix_graph ix))"
    if "(s, t, rel_supersedes) \<in> set (upsert_graph q ?meta item (ix_graph ix))" "(s, t) \<notin> apart_from ?i H" for s t
  proof -
    from that(1) consider
        (old) "s \<noteq> ?i" "t \<noteq> ?i" "(s, t, rel_supersedes) \<in> set (ix_graph ix)"
      | (incoming) "t = ?i" "mi_superseded_by item = Some s" "s \<noteq> []"
      | (outgoing) "s = ?i" "says_superseded ?meta s t"
      unfolding upsert_supersedes_iff by blast
    then show ?thesis
    proof cases
      case old
      then have "says_superseded (ix_meta ix) s t" "(s, t, rel_refs) \<notin> set (ix_graph ix)"
        using projectedD(1) [OF ok, of s t] that(2) by (auto simp: apart_from_def)
      then show ?thesis using old upsert_refs [of s t q ?meta item "ix_graph ix"] by (auto simp: says_upsert)
    next
      case incoming
      then show ?thesis using upsert_refs [of s t q ?meta item "ix_graph ix"] by (auto simp: says_upsert)
    next
      case outgoing
      then show ?thesis using upsert_refs [of s t q ?meta item "ix_graph ix"] by auto
    qed
  qed
  have complete: "(s, t, rel_supersedes) \<in> set (upsert_graph q ?meta item (ix_graph ix))"
    if "s \<in> set (all_ids ix')" "s \<noteq> []" "says_superseded ?meta s t" "(s, t) \<notin> apart_from ?i H" for s t
  proof (cases "s = ?i \<or> t = ?i")
    case True
    with that show ?thesis by (auto simp: upsert_supersedes_iff says_upsert)
  next
    case False
    with that have "s \<in> set (all_ids ix)" "says_superseded (ix_meta ix) s t"
      by (auto simp: all_ids_def meta says_upsert)
    then have "(s, t, rel_supersedes) \<in> set (ix_graph ix)"
      using projectedD(2) [OF ok, of s t] that(2,4) False by (simp add: apart_from_def)
    with False show ?thesis by (simp add: upsert_supersedes_iff)
  qed
  show ?thesis unfolding supersession_projected_def graph meta using sound complete by blast
qed

lemma says_filter:
  "says_superseded (filter P meta) s t \<Longrightarrow> says_superseded meta s t"
  by (auto simp: says_superseded_def)

lemma kept_projected:
  assumes ok: "supersession_projected H ix"
    and meta: "ix_meta ix' = filter (\<lambda>r. keep (mr_id r)) (ix_meta ix)"
    and graph: "ix_graph ix' = filter (\<lambda>(s, t, r). keep' s \<and> keep' t) (ix_graph ix)"
    and keep: "\<And>i. i \<in> set (all_ids ix) \<Longrightarrow> keep' i \<longleftrightarrow> keep i"
    and H: "\<And>s t. (s, t) \<in> H \<Longrightarrow> keep' s \<Longrightarrow> keep' t \<Longrightarrow> (s, t) \<in> H'"
  shows "supersession_projected H' ix'"
proof -
  have sound: "says_superseded (ix_meta ix') s t \<and> (s, t, rel_refs) \<notin> set (ix_graph ix')"
    if "(s, t, rel_supersedes) \<in> set (ix_graph ix')" "(s, t) \<notin> H'" for s t
  proof -
    have g: "(s, t, rel_supersedes) \<in> set (ix_graph ix)" "keep' s" "keep' t" using that(1) by (auto simp: graph)
    then have off: "(s, t) \<notin> H" using H that(2) by blast
    then obtain r where r: "r \<in> set (ix_meta ix)" "mr_id r = t" "mr_superseded_by r = Some s"
      using projectedD(1) [OF ok off] g(1) by (auto simp: says_superseded_def)
    then have "keep t" using keep [of t] g(3) by (auto simp: all_ids_def)
    then show ?thesis using r g projectedD(1) [OF ok off] by (auto simp: meta graph says_superseded_def)
  qed
  have complete: "(s, t, rel_supersedes) \<in> set (ix_graph ix')"
    if asm: "s \<in> set (all_ids ix')" "s \<noteq> []" "says_superseded (ix_meta ix') s t" "(s, t) \<notin> H'" for s t
  proof -
    obtain r where r: "r \<in> set (ix_meta ix)" "mr_id r = t" "mr_superseded_by r = Some s" "keep t"
      using asm(3) by (auto simp: meta says_superseded_def)
    have s: "s \<in> set (all_ids ix)" "keep s" using asm(1) by (auto simp: all_ids_def meta)
    have ends: "keep' s" "keep' t" using keep s r by (auto simp: all_ids_def)
    have off: "(s, t) \<notin> H" using H asm(4) ends by blast
    have "says_superseded (ix_meta ix) s t" using r by (auto simp: says_superseded_def)
    then have "(s, t, rel_supersedes) \<in> set (ix_graph ix)"
      using projectedD(2) [OF ok off] s(1) asm(2) by simp
    then show ?thesis using ends by (simp add: graph)
  qed
  show ?thesis unfolding supersession_projected_def using sound complete by blast
qed

lemma delete_projected: "supersession_projected H ix \<Longrightarrow> supersession_projected (apart_from i H) (index_delete i ix)"
  by (rule kept_projected [where keep = "\<lambda>j. j \<noteq> i" and keep' = "\<lambda>j. j \<noteq> i"])
    (auto simp: index_delete_def apart_from_def intro: filter_cong)

lemma prune_projected: "supersession_projected H ix \<Longrightarrow> supersession_projected H (snd (index_prune active ix))"
  by (rule kept_projected [where keep = "\<lambda>j. j \<in> set active" and keep' = "\<lambda>j. j \<in> set (all_ids ix) \<inter> set active"])
    (auto simp: prune_fields)

lemma update_row_projected:
  assumes "supersession_projected H ix" and "\<And>r. mr_id (f r) = mr_id r \<and> mr_superseded_by (f r) = mr_superseded_by r"
  shows "supersession_projected H (update_row i f ix)"
proof -
  have "says_superseded (ix_meta (update_row i f ix)) s t = says_superseded (ix_meta ix) s t" for s t
  proof -
    have "(\<exists>r \<in> set (map g xs). mr_id r = t \<and> mr_superseded_by r = Some s)
        \<longleftrightarrow> (\<exists>r \<in> set xs. mr_id r = t \<and> mr_superseded_by r = Some s)"
      if "\<And>r. mr_id (g r) = mr_id r \<and> mr_superseded_by (g r) = mr_superseded_by r" for g and xs :: "meta_row list"
      using that by (induction xs) auto
    from this [of "\<lambda>r. if mr_id r = i then f r else r" "ix_meta ix"] show ?thesis
      using assms(2) by (simp add: says_superseded_def update_row_def)
  qed
  then show ?thesis using assms by (simp add: supersession_projected_def)
qed

text \<open>The pairs whose edges differ in two graphs.\<close>

definition changed_pairs :: "hub_index \<Rightarrow> hub_index \<Rightarrow> (pystr \<times> pystr) set" where
  "changed_pairs ix ix' =
     {(s, t). \<exists>r. ((s, t, r) \<in> set (ix_graph ix)) \<noteq> ((s, t, r) \<in> set (ix_graph ix'))}"

lemma linked_projected:
  assumes "supersession_projected H ix" "ix_meta ix' = ix_meta ix"
  shows "supersession_projected (H \<union> changed_pairs ix ix') ix'"
  unfolding supersession_projected_def
proof (intro allI impI)
  fix s t assume "(s, t) \<notin> H \<union> changed_pairs ix ix'"
  then have off: "(s, t) \<notin> H" and same: "\<And>r. (s, t, r) \<in> set (ix_graph ix') \<longleftrightarrow> (s, t, r) \<in> set (ix_graph ix)"
    by (auto simp: changed_pairs_def)
  have ids: "all_ids ix' = all_ids ix" using assms(2) by (simp add: all_ids_def)
  show "((s, t, rel_supersedes) \<in> set (ix_graph ix') \<longrightarrow>
           says_superseded (ix_meta ix') s t \<and> (s, t, rel_refs) \<notin> set (ix_graph ix'))
        \<and> (s \<in> set (all_ids ix') \<and> s \<noteq> [] \<and> says_superseded (ix_meta ix') s t \<longrightarrow>
           (s, t, rel_supersedes) \<in> set (ix_graph ix'))"
    unfolding same ids assms(2) using projectedD [OF assms(1) off] by blast
qed

section \<open>What the writer, the counters and the links keep\<close>

text \<open>
  The writes to the index. Beside the index stands the set of pairs of items whose edges a link operation
  (\<open>add_ref\<close>, \<open>remove_ref\<close>, \<open>reconcile_supersedes\<close>) has changed since one of the two was last written or
  deleted: writing an item makes the supersession edges at it again from the rows.
\<close>

inductive index_step ::
  "sql \<Rightarrow> hub_index \<times> (pystr \<times> pystr) set \<Rightarrow> hub_index \<times> (pystr \<times> pystr) set \<Rightarrow> bool" for q where
  upsert: "index_upsert q item body embedding ix = Inr ix' \<Longrightarrow> index_step q (ix, H) (ix', apart_from (mi_id item) H)"
| delete: "index_step q (ix, H) (index_delete i ix, apart_from i H)"
| prune: "index_step q (ix, H) (snd (index_prune active ix), H)"
| access: "index_step q (ix, H) (record_access i accessed_at ix, H)"
| accesses: "index_step q (ix, H) (record_access_many ids accessed_at ix, H)"
| confidence: "index_step q (ix, H) (update_confidence i c ix, H)"
| feedback: "index_step q (ix, H) (update_feedback_stats i support contradict gain ix, H)"
| tier: "index_step q (ix, H) (update_tier i t ix, H)"
| link: "ix' = add_ref s t relation ix \<or> ix' = snd (remove_ref s t relation' ix) \<or> ix' = snd (replace_supersedes edges ix)
    \<Longrightarrow> index_step q (ix, H) (ix', H \<union> changed_pairs ix ix')"

definition empty_index :: "nat \<Rightarrow> bool \<Rightarrow> hub_index" where
  "empty_index d vec = \<lparr>ix_meta = [], ix_fts = [], ix_vec = [], ix_graph = [], ix_dim = d, ix_uses_sqlite_vec = vec\<rparr>"

definition index_sound :: "hub_index \<times> (pystr \<times> pystr) set \<Rightarrow> bool" where
  "index_sound state \<longleftrightarrow>
     (case state of (ix, H) \<Rightarrow> tables_agree ix \<and> distinct (ix_graph ix) \<and> supersession_projected H ix)"

lemma distinct_insert_edge [simp]: "distinct g \<Longrightarrow> distinct (insert_edge e g)"
  by (auto simp: insert_edge_def)

lemma distinct_supersede_edge [simp]: "distinct g \<Longrightarrow> distinct (supersede_edge s t g)"
  by (simp add: supersede_edge_def)

lemma distinct_fold_edges: "(\<And>x g. distinct g \<Longrightarrow> distinct (f x g)) \<Longrightarrow> distinct g \<Longrightarrow> distinct (fold f xs g)"
  by (induction xs arbitrary: g) simp_all

lemma upsert_distinct: "distinct g \<Longrightarrow> distinct (upsert_graph q meta item g)"
  unfolding upsert_graph_def Let_def
  by (auto intro!: distinct_fold_edges distinct_filter distinct_supersede_edge split: if_splits option.splits)

lemma linked_fields:
  assumes "ix' = add_ref s t relation ix \<or> ix' = snd (remove_ref s t relation' ix) \<or> ix' = snd (replace_supersedes edges ix)"
  shows "ix_meta ix' = ix_meta ix" "ix_fts ix' = ix_fts ix" "ix_vec ix' = ix_vec ix"
  using assms by (auto simp: add_ref_def remove_ref_def replace_supersedes_def Let_def)

lemma linked_distinct:
  assumes "distinct (ix_graph ix)"
    and "ix' = add_ref s t relation ix \<or> ix' = snd (remove_ref s t relation' ix) \<or> ix' = snd (replace_supersedes edges ix)"
  shows "distinct (ix_graph ix')"
  using assms(2)
proof (elim disjE)
  assume "ix' = snd (replace_supersedes edges ix)"
  moreover have "distinct (map (\<lambda>(s, t). (s, t, rel_supersedes)) (sort (dedup edges)))"
    by (auto simp: distinct_map inj_on_def)
  ultimately show ?thesis using assms(1) by (auto simp: replace_supersedes_def Let_def)
qed (use assms(1) in \<open>simp_all add: add_ref_def remove_ref_def Let_def\<close>)

lemma update_row_sound:
  "index_sound (ix, H) \<Longrightarrow> (\<And>r. mr_id (f r) = mr_id r \<and> mr_superseded_by (f r) = mr_superseded_by r) \<Longrightarrow>
     index_sound (update_row i f ix, H)"
  by (simp add: index_sound_def update_row_projected tables_agree_def)

lemma record_access_sound: "index_sound (ix, H) \<Longrightarrow> index_sound (record_access i accessed_at ix, H)"
  by (simp add: record_access_def update_row_sound)

lemma record_access_many_sound: "index_sound (ix, H) \<Longrightarrow> index_sound (record_access_many ids accessed_at ix, H)"
proof -
  have "index_sound (ix, H) \<Longrightarrow> index_sound (fold (\<lambda>i. record_access i accessed_at) ids ix, H)"
    by (induction ids arbitrary: ix) (simp_all add: record_access_sound)
  then show "index_sound (ix, H) \<Longrightarrow> index_sound (record_access_many ids accessed_at ix, H)"
    by (simp add: record_access_many_def)
qed

lemma index_step_sound: "index_step q state state' \<Longrightarrow> index_sound state \<Longrightarrow> index_sound state'"
proof (induction rule: index_step.induct)
  case (upsert item body embedding ix ix' H)
  then show ?case by (auto simp: index_sound_def upsert_tables upsert_projected upsert_Inr(3) upsert_distinct)
next
  case (delete ix H i)
  then show ?case by (simp add: index_sound_def delete_tables delete_projected) (simp add: index_delete_def)
next
  case (prune ix H active)
  then show ?case by (simp add: index_sound_def prune_tables prune_projected prune_fields)
next
  case (access ix H i accessed_at)
  then show ?case by (rule record_access_sound)
next
  case (accesses ix H ids accessed_at)
  then show ?case by (rule record_access_many_sound)
next
  case (confidence ix H i c)
  then show ?case by (simp add: update_confidence_def update_row_sound)
next
  case (feedback ix H i support contradict gain)
  then show ?case by (simp add: update_feedback_stats_def update_row_sound)
next
  case (tier ix H i t)
  then show ?case by (simp add: update_tier_def update_row_sound)
next
  case (link ix' s t relation ix relation' edges H)
  note f = linked_fields [OF link(1)]
  have "tables_agree ix'" using link(2) f by (simp add: index_sound_def tables_agree_def all_ids_def)
  moreover have "distinct (ix_graph ix')" using linked_distinct [OF _ link(1)] link(2) by (simp add: index_sound_def)
  ultimately show ?case using linked_projected [OF _ f(1)] link(2) by (simp add: index_sound_def)
qed

lemma reachable_index_sound: "(index_step q)\<^sup>*\<^sup>* (empty_index d vec, {}) state \<Longrightarrow> index_sound state"
proof (induction rule: rtranclp_induct)
  case base
  show ?case by (simp add: index_sound_def tables_agree_def supersession_projected_def empty_index_def all_ids_def)
next
  case (step y z)
  then show ?case using index_step_sound by blast
qed

section \<open>Neighbours\<close>

definition linked :: "edge list \<Rightarrow> pystr \<Rightarrow> pystr \<Rightarrow> bool" where
  "linked g x y \<longleftrightarrow> (\<exists>r. (x, y, r) \<in> set g \<or> (y, x, r) \<in> set g)"

text \<open>Reachable over at most \<open>n\<close> edges, in any direction.\<close>

inductive reach_in :: "edge list \<Rightarrow> pystr \<Rightarrow> nat \<Rightarrow> pystr \<Rightarrow> bool" for g i where
  start: "reach_in g i 0 i"
| stay: "reach_in g i n x \<Longrightarrow> reach_in g i (Suc n) x"
| hop: "reach_in g i n x \<Longrightarrow> linked g x y \<Longrightarrow> reach_in g i (Suc n) y"

inductive_simps within_0: "reach_in g i 0 x"
inductive_simps within_Suc: "reach_in g i (Suc n) x"

definition hop_state :: "edge list \<Rightarrow> pystr \<Rightarrow> nat \<Rightarrow> pystr list \<Rightarrow> pystr list \<Rightarrow> bool" where
  "hop_state g i k visited frontier \<longleftrightarrow>
     (\<forall>x. x \<in> set visited \<union> set frontier \<longleftrightarrow> reach_in g i k x)
     \<and> (\<forall>x y. x \<in> set visited \<longrightarrow> linked g x y \<longrightarrow> y \<in> set visited \<union> set frontier)"

lemma next_frontier_set:
  "x \<in> set (next_frontier g i visited frontier) \<longleftrightarrow>
     (\<exists>a b r. (a, b, r) \<in> set g \<and> (a \<in> set frontier \<or> b \<in> set frontier) \<and> (x = a \<or> x = b))
     \<and> x \<notin> set visited \<and> x \<noteq> i"
  by (fastforce simp: next_frontier_def)

lemma within_self: "reach_in g i k i"
  by (induction k) (auto intro: reach_in.intros)

lemma hop_state_step:
  assumes "hop_state g i k visited frontier"
  shows "hop_state g i (Suc k) (dedup (visited @ frontier))
    (filter (\<lambda>x. x \<notin> set (dedup (visited @ frontier))) (dedup (next_frontier g i visited frontier)))"
proof -
  have known: "x \<in> set visited \<union> set frontier \<longleftrightarrow> reach_in g i k x" for x
    using assms by (simp add: hop_state_def)
  have closed: "x \<in> set visited \<Longrightarrow> linked g x y \<Longrightarrow> y \<in> set visited \<union> set frontier" for x y
    using assms unfolding hop_state_def by blast
  have new: "y \<in> set (next_frontier g i visited frontier)"
    if "reach_in g i k x" "linked g x y" "\<not> reach_in g i k y" for x y
  proof -
    have "x \<in> set frontier" "y \<notin> set visited" "y \<noteq> i"
      using that known closed within_self by auto
    with that(2) show ?thesis by (auto simp: next_frontier_set linked_def)
  qed
  have old: "reach_in g i (Suc k) x" if found: "x \<in> set (next_frontier g i visited frontier)" for x
  proof -
    obtain a b r where e: "(a, b, r) \<in> set g" "a \<in> set frontier \<or> b \<in> set frontier" "x = a \<or> x = b"
      using found unfolding next_frontier_set by blast
    have "linked g a b" "linked g b a" using e(1) by (auto simp: linked_def)
    with e known show ?thesis by (metis UnI2 hop stay)
  qed
  show ?thesis
    unfolding hop_state_def
  proof (intro conjI allI impI)
    fix x
    show "x \<in> set (dedup (visited @ frontier)) \<union> set (filter (\<lambda>x. x \<notin> set (dedup (visited @ frontier)))
        (dedup (next_frontier g i visited frontier))) \<longleftrightarrow> reach_in g i (Suc k) x"
      using known [of x] new [of _ x] old [of x] by (auto simp: within_Suc)
  next
    fix x y
    assume "x \<in> set (dedup (visited @ frontier))" "linked g x y"
    then show "y \<in> set (dedup (visited @ frontier)) \<union> set (filter (\<lambda>x. x \<notin> set (dedup (visited @ frontier)))
        (dedup (next_frontier g i visited frontier)))"
      using known new [of x y] by auto
  qed
qed

lemma within_closed: "hop_state g i k visited [] \<Longrightarrow> reach_in g i (k + n) x \<longleftrightarrow> reach_in g i k x"
proof (induction n arbitrary: x)
  case (Suc n)
  then show ?case by (auto simp: hop_state_def within_Suc)
qed simp

lemma hops_within:
  "hop_state g i k visited frontier \<Longrightarrow>
     (\<forall>x. x \<in> set (fst (hops g i n visited frontier)) \<union> set (snd (hops g i n visited frontier)) \<longleftrightarrow> reach_in g i (k + n) x)"
proof (induction n arbitrary: k visited frontier)
  case (Suc n)
  show ?case
  proof (cases "frontier = []")
    case True
    have "hop_state g i k visited []" using Suc.prems True by simp
    then have "reach_in g i (k + Suc n) x \<longleftrightarrow> reach_in g i k x" and "x \<in> set visited \<longleftrightarrow> reach_in g i k x" for x
      by (rule within_closed) (use \<open>hop_state g i k visited []\<close> in \<open>simp add: hop_state_def\<close>)
    then show ?thesis using True by simp
  next
    case False
    then show ?thesis using Suc.IH [OF hop_state_step [OF Suc.prems]] by (simp add: Let_def)
  qed
qed (simp add: hop_state_def)

text \<open>C33. The neighbours of an item are the ids, other than its own, that the graph connects with it over
  at most \<open>depth\<close> edges, in either direction: the breadth-first loop with its early end visits them all
  and no other.\<close>

theorem neighbors_within:
  "set (graph_neighbors ix i depth) = {x. x \<noteq> i \<and> reach_in (ix_graph ix) i depth x}"
proof -
  have "hop_state (ix_graph ix) i 0 [] [i]" by (auto simp: hop_state_def within_0)
  from hops_within [OF this, of depth]
  have "set (dedup (fst (hops (ix_graph ix) i depth [] [i]) @ snd (hops (ix_graph ix) i depth [] [i])))
      = {x. reach_in (ix_graph ix) i depth x}"
    by (simp add: set_eq_iff)
  then show ?thesis by (auto simp: graph_neighbors_def case_prod_beta)
qed

text \<open>C32. In every index that the writes lead to, the tables describe the same items, one row each, no edge
  stands twice, and the graph holds the supersessions of the rows: for every pair of items whose edges no
  link operation has changed since one of them was last written or deleted, an edge says \<open>supersedes\<close> only
  where the row of its target names its source, then no plain reference stands beside it, and if the
  superseder that a row names is indexed the edge is there. The writes are writing, deleting and pruning
  items, the counters, and the link operations \<open>add_ref\<close>, \<open>remove_ref\<close> and \<open>reconcile_supersedes\<close>; without
  link operations the exception is empty.\<close>

theorem reachable_index_is_consistent:
  assumes "(index_step q)\<^sup>*\<^sup>* (empty_index d vec, {}) (ix, H)"
  shows "distinct (all_ids ix) \<and> map fr_id (ix_fts ix) = all_ids ix \<and> set (map fst (ix_vec ix)) \<subseteq> set (all_ids ix)
    \<and> distinct (ix_graph ix)
    \<and> (\<forall>s t. (s, t) \<notin> H \<and> (s, t, rel_supersedes) \<in> set (ix_graph ix) \<longrightarrow>
         (\<exists>r \<in> set (ix_meta ix). mr_id r = t \<and> mr_superseded_by r = Some s) \<and> (s, t, rel_refs) \<notin> set (ix_graph ix))
    \<and> (\<forall>r \<in> set (ix_meta ix). \<forall>s \<in> set (all_ids ix). (s, mr_id r) \<notin> H \<and> s \<noteq> [] \<and> mr_superseded_by r = Some s \<longrightarrow>
         (s, mr_id r, rel_supersedes) \<in> set (ix_graph ix))"
proof -
  have sound: "index_sound (ix, H)" using assms by (rule reachable_index_sound)
  then have projected: "supersession_projected H ix" by (simp add: index_sound_def)
  have "(s, mr_id r, rel_supersedes) \<in> set (ix_graph ix)"
    if "r \<in> set (ix_meta ix)" "s \<in> set (all_ids ix)" "(s, mr_id r) \<notin> H" "s \<noteq> []" "mr_superseded_by r = Some s" for r s
  proof -
    have "says_superseded (ix_meta ix) s (mr_id r)" using that by (auto simp: says_superseded_def)
    then show ?thesis using projectedD(2) [OF projected that(3,2,4)] by blast
  qed
  moreover have "(\<exists>r \<in> set (ix_meta ix). mr_id r = t \<and> mr_superseded_by r = Some s) \<and> (s, t, rel_refs) \<notin> set (ix_graph ix)"
    if "(s, t) \<notin> H" "(s, t, rel_supersedes) \<in> set (ix_graph ix)" for s t
    using projectedD(1) [OF projected that] by (simp add: says_superseded_def)
  ultimately show ?thesis using sound unfolding index_sound_def tables_agree_def by simp
qed

section \<open>Searches\<close>

lemma take_filter_fetch:
  "length (filter (\<lambda>x. \<not> P x) xs) \<le> m \<Longrightarrow> take k (filter P (take (k + m) xs)) = take k (filter P xs)"
proof (induction xs arbitrary: k m)
  case (Cons x xs)
  show ?case
  proof (cases "P x")
    case True
    then show ?thesis using Cons.IH [of m "k - 1"] Cons.prems by (cases k) simp_all
  next
    case False
    then show ?thesis using Cons.IH [of "m - 1" k] Cons.prems by (cases m) simp_all
  qed
qed simp

lemma dropped_bound:
  assumes "distinct (map fst rows)"
  shows "length (filter (\<lambda>h. \<not> fst h \<notin> set ex) rows) \<le> length (dedup ex)"
proof -
  let ?bad = "map fst (filter (\<lambda>h. fst h \<in> set ex) rows)"
  have "distinct ?bad" using assms by (rule distinct_map_filter)
  then have "length ?bad = card (set ?bad)" by (simp only: distinct_card)
  also have "\<dots> \<le> card (set (dedup ex))" by (intro card_mono) auto
  also have "\<dots> = length (dedup ex)" by (simp only: distinct_card distinct_dedup)
  finally show ?thesis by simp
qed

text \<open>C34. A text search that excludes ids returns exactly the best \<open>top_k\<close> matches outside them: the
  extra rows it fetches, one for each excluded id, always make up for those it drops.\<close>

theorem excluded_search_is_exact:
  assumes "match_rows q ix query = Inr rows" and "distinct (map fst rows)" and "0 \<le> top_k"
  shows "bm25_search q ix query top_k None (Some ex) =
    Inr (take (nat top_k) (filter (\<lambda>h. fst h \<notin> set ex) rows))"
  using assms take_filter_fetch [OF dropped_bound [OF assms(2), of ex], of "nat top_k"]
  by (auto simp: bm25_search_def normalize_inline_limit_def)

lemma concat_chunked: "concat (chunked n xs) = xs"
proof (induction n xs rule: chunked.induct)
  case (1 n xs)
  then show ?case using chunked.simps [of n xs] by (cases "xs = []") auto
qed

lemma length_filter_concat:
  "c \<in> set cs \<Longrightarrow> length (filter P (G c)) \<le> length (filter P (concat (map G cs)))"
  by (induction cs) auto

lemma distinct_chunks:
  assumes "distinct (concat cs)" and "\<And>c. c \<in> set cs \<Longrightarrow> distinct (map fst (G c)) \<and> fst ` set (G c) \<subseteq> set c"
  shows "distinct (map fst (concat (map G cs)))"
  using assms
proof (induction cs)
  case (Cons c cs)
  have "fst ` set (concat (map G cs)) \<subseteq> set (concat cs)"
    using Cons.prems(2) by fastforce
  moreover have "fst ` set (G c) \<subseteq> set c" "distinct (map fst (G c))" using Cons.prems(2) [of c] by auto
  moreover have "set c \<inter> set (concat cs) = {}" using Cons.prems(1) by simp
  ultimately have "distinct (map fst (G c))" "fst ` set (G c) \<inter> fst ` set (concat (map G cs)) = {}" by blast+
  moreover have "distinct (map fst (concat (map G cs)))" using Cons by simp
  ultimately show ?case by (simp only: list.map concat.simps map_append distinct_append set_map simp_thms)
qed simp

text \<open>The beginning of a list in descending order consists of its greatest elements.\<close>

lemma take_of_descending:
  assumes "sorted (map (\<lambda>h. - snd h) hits)" and "k \<le> length (filter (\<lambda>h. x \<le> snd h) hits)"
    and "h \<in> set (take k hits)"
  shows "x \<le> (snd h :: rat)"
proof (rule ccontr)
  assume less: "\<not> x \<le> snd h"
  obtain j where j: "j < k" "j < length hits" "hits ! j = h"
    using assms(3) by (auto simp: in_set_conv_nth)
  have "snd (hits ! n) \<le> snd h" if "j \<le> n" "n < length hits" for n
    using sorted_nth_mono [OF assms(1), of j n] that j by simp
  then have low: "snd (drop j hits ! n) \<le> snd h" if "n < length (drop j hits)" for n
    using that by simp
  have "\<not> x \<le> snd g" if "g \<in> set (drop j hits)" for g
  proof -
    obtain n where "n < length (drop j hits)" "drop j hits ! n = g"
      using \<open>g \<in> set (drop j hits)\<close> unfolding in_set_conv_nth by blast
    with low [of n] less show ?thesis by simp
  qed
  then have "filter (\<lambda>h. x \<le> snd h) (drop j hits) = []" by (simp add: filter_empty_conv)
  then have "filter (\<lambda>h. x \<le> snd h) hits = filter (\<lambda>h. x \<le> snd h) (take j hits)"
    by (metis append_Nil2 append_take_drop_id filter_append)
  then have "length (filter (\<lambda>h. x \<le> snd h) hits) \<le> j"
    using length_filter_le [of "\<lambda>h. x \<le> snd h" "take j hits"] by simp
  with assms(2) j show False by simp
qed

lemma sorted_best_first: "sorted (map (\<lambda>h. - snd h) (best_first hits))"
proof -
  have "sorted (map (\<lambda>h. (- snd h, fst h)) (best_first hits))" by (simp add: best_first_def)
  then have "sorted_wrt (\<lambda>a b. (- snd a, fst a) \<le> (- snd b, fst b)) (best_first hits)"
    by (simp add: sorted_map)
  then have "sorted_wrt (\<lambda>a b. - snd a \<le> - snd b) (best_first hits)"
    by (rule sorted_wrt_mono_rel [rotated]) (auto simp: less_eq_prod_def)
  then show ?thesis by (simp add: sorted_map)
qed

lemma set_best_first [simp]: "set (best_first hits) = set hits"
  by (simp add: best_first_def)

lemma mset_best_first: "mset (best_first hits) = mset hits"
  by (simp add: best_first_def)

lemma filter_best_first: "length (filter P (best_first hits)) = length (filter P hits)"
proof -
  have "mset (filter P (best_first hits)) = mset (filter P hits)" by (simp add: best_first_def)
  then show ?thesis by (rule mset_eq_length)
qed

lemma sorted_map_filter: "sorted (map f xs) \<Longrightarrow> sorted (map f (filter P xs))"
  by (induction xs) auto

lemma omitted_by_take:
  assumes "sorted (map (\<lambda>h. - snd h) xs)" and "h \<in> set xs" and "h \<notin> set (take k xs)"
  shows "length (take k xs) = k \<and> length (filter (\<lambda>g. snd h \<le> (snd g :: rat)) (take k xs)) = k"
proof -
  obtain j where j: "j < length xs" "xs ! j = h" using assms(2) by (auto simp: in_set_conv_nth)
  then have kj: "k \<le> j" using assms(3) by (metis in_set_conv_nth length_take min_less_iff_conj nth_take not_le)
  have "snd h \<le> snd g" if g: "g \<in> set (take k xs)" for g
  proof -
    obtain i where "i < k" "i < length xs" "xs ! i = g" using g by (auto simp: in_set_conv_nth)
    then show ?thesis using sorted_nth_mono [OF assms(1), of i j] j kj by simp
  qed
  then have "filter (\<lambda>g. snd h \<le> snd g) (take k xs) = take k xs" by (simp add: filter_id_conv)
  then show ?thesis using j kj by simp
qed

lemma match_rows_sorted: "match_rows q ix query = Inr rows \<Longrightarrow> sorted (map (\<lambda>h. - snd h) rows)"
proof -
  assume "match_rows q ix query = Inr rows"
  then obtain found where "rows = map (\<lambda>(i, s). (i, - s)) (sort_key snd found)"
    by (auto simp: match_rows_def bindR_Inr_iff)
  then show ?thesis by (simp add: comp_def case_prod_beta)
qed

lemma mapR_pure: "mapR (\<lambda>x. Inr (f x)) xs = Inr (map f xs)"
  by (induction xs) simp_all

definition merged_hits :: "index_hit list \<Rightarrow> nat \<Rightarrow> pystr list list \<Rightarrow> index_hit list" where
  "merged_hits rows k chunks =
     take k (best_first (concat (map (\<lambda>chunk. take k (filter (\<lambda>h. fst h \<in> set chunk) rows)) chunks)))"

lemma bm25_allowed_merged:
  assumes "match_rows q ix query = Inr rows" and "2 \<le> sqlite_variable_limit q"
  shows "bm25_allowed q ix query k allowed =
    Inr (merged_hits rows k (chunked (nat (sqlite_variable_limit q - 1)) (sort (dedup allowed))))"
  using assms(2) unfolding bm25_allowed_def assms(1) bindR.simps mapR_pure Let_def merged_hits_def by simp

lemma portion:
  assumes "distinct (map fst rows)"
  shows "distinct (map fst (take k (filter (\<lambda>h. fst h \<in> set c) rows)))
    \<and> fst ` set (take k (filter (\<lambda>h. fst h \<in> set c) rows)) \<subseteq> set c"
  using distinct_map_filter [OF assms, of "\<lambda>h. fst h \<in> set c"]
  by (auto simp: take_map [symmetric] dest: in_set_takeD)

lemma merged_distinct:
  assumes "distinct (map fst rows)" and "distinct (concat chunks)"
  shows "distinct (map fst (merged_hits rows k chunks))"
proof -
  let ?found = "concat (map (\<lambda>chunk. take k (filter (\<lambda>h. fst h \<in> set chunk) rows)) chunks)"
  have "distinct (map fst ?found)" using assms(2) portion [OF assms(1)] by (rule distinct_chunks)
  moreover have "mset (map fst (best_first ?found)) = mset (map fst ?found)" by (simp only: mset_map mset_best_first)
  ultimately have "distinct (map fst (best_first ?found))" by (metis mset_eq_imp_distinct_iff)
  then show ?thesis by (simp add: merged_hits_def take_map [symmetric])
qed

lemma merged_from:
  assumes "h \<in> set (merged_hits rows k chunks)"
  shows "h \<in> set rows \<and> fst h \<in> set (concat chunks)"
proof -
  have "h \<in> set (concat (map (\<lambda>chunk. take k (filter (\<lambda>h. fst h \<in> set chunk) rows)) chunks))"
    using in_set_takeD [OF assms [unfolded merged_hits_def]] by (simp only: set_best_first)
  then obtain c where "c \<in> set chunks" "h \<in> set (take k (filter (\<lambda>h. fst h \<in> set c) rows))" by auto
  then show ?thesis by (auto dest!: in_set_takeD)
qed

lemma merged_enough:
  assumes rows: "sorted (map (\<lambda>h. - snd h) rows)"
    and h: "h \<in> set rows" "fst h \<in> set (concat chunks)" "h \<notin> set (merged_hits rows k chunks)"
  shows "k \<le> length (filter (\<lambda>g. snd h \<le> snd g)
    (best_first (concat (map (\<lambda>chunk. take k (filter (\<lambda>h. fst h \<in> set chunk) rows)) chunks))))"
proof -
  define G where "G = (\<lambda>chunk. take k (filter (\<lambda>h. fst h \<in> set chunk) rows))"
  let ?found = "concat (map G chunks)"
  show ?thesis
    unfolding G_def [symmetric]
  proof (cases "h \<in> set ?found")
    case True
    then have "length (filter (\<lambda>g. snd h \<le> snd g) (take k (best_first ?found))) = k"
      using omitted_by_take [OF sorted_best_first, of h ?found k] h(3) by (simp add: merged_hits_def G_def)
    then show "k \<le> length (filter (\<lambda>g. snd h \<le> snd g) (best_first ?found))"
      by (metis append_take_drop_id filter_append le_add1 length_append)
  next
    case False
    obtain c where c: "c \<in> set chunks" "fst h \<in> set c" using h(2) by auto
    let ?in = "filter (\<lambda>g. fst g \<in> set c) rows"
    have "h \<in> set ?in" "h \<notin> set (take k ?in)" using h c False by (auto simp: G_def)
    then have "length (filter (\<lambda>g. snd h \<le> snd g) (G c)) = k"
      unfolding G_def using omitted_by_take [OF sorted_map_filter [OF rows]] by simp
    then show "k \<le> length (filter (\<lambda>g. snd h \<le> snd g) (best_first ?found))"
      using length_filter_concat [OF c(1), of "\<lambda>g. snd h \<le> snd g" G] by (simp only: filter_best_first)
  qed
qed

lemma merged_omitted:
  assumes "sorted (map (\<lambda>h. - snd h) rows)"
    and "h \<in> set rows" "fst h \<in> set (concat chunks)" "h \<notin> set (merged_hits rows k chunks)"
  shows "length (merged_hits rows k chunks) = k \<and> (\<forall>g \<in> set (merged_hits rows k chunks). snd h \<le> snd g)"
  using merged_enough [OF assms] take_of_descending [OF sorted_best_first merged_enough [OF assms]]
    le_trans [OF merged_enough [OF assms] length_filter_le]
  unfolding merged_hits_def by simp

text \<open>C35. A text search within allowed ids asks for the ids in portions of what SQLite can bind, with
  the limit on each, and merges: still, it returns allowed matches only, at most \<open>top_k\<close>, each once, best
  first, and a match it leaves out means that it is full of matches that are no worse.\<close>

theorem allowed_search_is_best:
  assumes "match_rows q ix query = Inr rows" and "distinct (map fst rows)" and "2 \<le> sqlite_variable_limit q"
    and "0 < top_k" and "allowed \<noteq> []" and "bm25_search q ix query top_k (Some allowed) None = Inr hits"
  shows "length hits \<le> nat top_k \<and> distinct (map fst hits) \<and> sorted (map (\<lambda>h. - snd h) hits)
    \<and> (\<forall>h \<in> set hits. h \<in> set rows \<and> fst h \<in> set allowed)
    \<and> (\<forall>h \<in> set rows. fst h \<in> set allowed \<and> h \<notin> set hits \<longrightarrow>
         length hits = nat top_k \<and> (\<forall>g \<in> set hits. snd h \<le> snd g))"
proof -
  let ?chunks = "chunked (nat (sqlite_variable_limit q - 1)) (sort (dedup allowed))"
  have hits: "hits = merged_hits rows (nat top_k) ?chunks"
    using assms(4-6) by (simp add: bm25_search_def normalize_inline_limit_def bm25_allowed_merged [OF assms(1,3)])
  have rows: "sorted (map (\<lambda>h. - snd h) rows)" by (rule match_rows_sorted [OF assms(1)])
  have ids: "set (concat ?chunks) = set allowed" and once: "distinct (concat ?chunks)"
    by (simp_all only: concat_chunked set_sort set_dedup distinct_sort distinct_dedup)
  have "length hits \<le> nat top_k" "sorted (map (\<lambda>h. - snd h) hits)"
    unfolding hits merged_hits_def by (simp_all add: take_map [symmetric] sorted_wrt_take sorted_best_first)
  moreover have "distinct (map fst hits)" unfolding hits by (rule merged_distinct [OF assms(2) once])
  moreover have "\<forall>h \<in> set hits. h \<in> set rows \<and> fst h \<in> set allowed"
    using merged_from [of _ rows "nat top_k" ?chunks] ids unfolding hits by blast
  moreover have "\<forall>h \<in> set rows. fst h \<in> set allowed \<and> h \<notin> set hits \<longrightarrow>
      length hits = nat top_k \<and> (\<forall>g \<in> set hits. snd h \<le> snd g)"
    using merged_omitted [OF rows, of _ ?chunks "nat top_k"] ids unfolding hits by metis
  ultimately show ?thesis by blast
qed

section \<open>An index with one item\<close>

definition sample_sql :: sql where
  "sample_sql =
     \<lparr>sq_match = (\<lambda>fts query. Inr (map (\<lambda>r. (fr_id r, 1)) fts)), sq_nearest = (\<lambda>_ _ _. Inr []),
      sq_getlimit = None, sq_file_backed = True, sq_single = (\<lambda>x. x), sq_floats = sample_ops,
      sq_unicode = \<lparr>uc_cjk_name = (\<lambda>_. False), uc_letter_number_mark = (\<lambda>_. False)\<rparr>\<rparr>"

definition sample_hub :: hub_index where
  "sample_hub =
     (case index_upsert sample_sql sample_item [] None (empty_index 2 False) of
        Inl _ \<Rightarrow> empty_index 2 False | Inr ix \<Rightarrow> ix)"

lemma sample_upsert: "index_upsert sample_sql sample_item [] None (empty_index 2 False) = Inr sample_hub"
  by (simp add: sample_hub_def index_upsert_def Let_def)

lemma sample_hub_ids: "all_ids sample_hub = [mi_id sample_item]" "map fr_id (ix_fts sample_hub) = [mi_id sample_item]"
  using upsert_Inr [OF sample_upsert] by (simp_all add: all_ids_def empty_index_def)

lemma sample_matches: "match_rows sample_sql sample_hub query = Inr [(mi_id sample_item, - 1)]"
proof -
  obtain r where "ix_fts sample_hub = [r]" "fr_id r = mi_id sample_item"
    using sample_hub_ids(2) by (auto simp: map_eq_Cons_conv)
  then show ?thesis by (simp add: match_rows_def sample_sql_def)
qed

lemma reachable_index_is_consistent_witness:
  "all_ids sample_hub = [mi_id sample_item] \<and> distinct (ix_graph (add_ref (lit ''a'') (lit ''b'') rel_supersedes sample_hub))
   \<and> map fr_id (ix_fts (add_ref (lit ''a'') (lit ''b'') rel_supersedes sample_hub)) = [mi_id sample_item]"
proof -
  let ?linked = "add_ref (lit ''a'') (lit ''b'') rel_supersedes sample_hub"
  have "index_step sample_sql (empty_index 2 False, {}) (sample_hub, apart_from (mi_id sample_item) {})"
    by (rule index_step.upsert, rule sample_upsert)
  moreover have "index_step sample_sql (sample_hub, apart_from (mi_id sample_item) {})
      (?linked, apart_from (mi_id sample_item) {} \<union> changed_pairs sample_hub ?linked)"
    by (rule index_step.link [of _ "lit ''a''" "lit ''b''" rel_supersedes _ None "[]"]) simp
  ultimately have "(index_step sample_sql)\<^sup>*\<^sup>* (empty_index 2 False, {})
      (?linked, apart_from (mi_id sample_item) {} \<union> changed_pairs sample_hub ?linked)"
    by (rule converse_rtranclp_into_rtranclp [OF _ r_into_rtranclp])
  from reachable_index_is_consistent [OF this] show ?thesis
    using sample_hub_ids by (simp add: add_ref_def all_ids_def)
qed

lemma excluded_search_is_exact_witness:
  "bm25_search sample_sql sample_hub [97] 3 None (Some [[98]]) = Inr [(mi_id sample_item, - 1)]"
proof -
  have "mi_id sample_item \<noteq> [98]" by (simp add: sample_item_def lit_def)
  then show ?thesis using excluded_search_is_exact [OF sample_matches, of 3 "[97]" "[[98]]"] by simp
qed

lemma allowed_search_is_best_witness:
  "\<exists>hits. bm25_search sample_sql sample_hub [97] 3 (Some [mi_id sample_item]) None = Inr hits \<and> length hits \<le> 3"
proof -
  have limit: "2 \<le> sqlite_variable_limit sample_sql" by (simp add: sqlite_variable_limit_def sample_sql_def)
  obtain hits where hits: "bm25_search sample_sql sample_hub [97] 3 (Some [mi_id sample_item]) None = Inr hits"
    by (simp add: bm25_search_def normalize_inline_limit_def bm25_allowed_merged [OF sample_matches limit])
  from allowed_search_is_best [OF sample_matches _ limit _ _ hits] have "length hits \<le> 3" by simp
  with hits show ?thesis by blast
qed

section \<open>What an upsert forgets\<close>

text \<open>
  An item whose decay class is a member of the enumeration, as the validation library always makes
  it, is indexed under the name of the member, which no table of half-lives holds.
\<close>

lemma member_decay_class_unknown:
  assumes "rt_decay_class (mi_retention item) = Member d"
  shows "map_of decay_half_life_days (mr_decay_class (index_row item)) = None"
  by (cases d) (simp_all add: assms index_row_def decay_half_life_days_def lit_def)

lemma upsert_resets_counters:
  assumes "index_upsert q item body embedding ix = Inr ix'" and "r \<in> set (ix_meta ix')" and "mr_id r = mi_id item"
  shows "mr_access_count r = rt_access_count (mi_retention item) \<and> mr_tier r = None"
  using assms upsert_Inr(1) [OF assms(1)] by (auto simp: index_row_def)

end
