(* ===== verification/AdaptiveLearning.thy ===== *)
theory AdaptiveLearning imports MemoryDraft RecallTypes begin

text \<open>
  \<open>memory/recall/adaptive_learning.py\<close>: ranking profiles learned from task outcomes. A candidate
  profile is built from the applied feedback, replayed on saved retrieval traces against the active
  one, and activated when it does not regress; the profile before it is kept for a rollback.

  A JSON file is missing, cannot be read, raises an error its reader does not catch, or holds a value. The outcomes, applications and cohorts are
  the rows their readers return.
\<close>

section \<open>Values\<close>

definition learned_letter :: "int \<Rightarrow> bool" where
  "learned_letter c \<longleftrightarrow> 48 \<le> c \<and> c \<le> 57 \<or> 97 \<le> c \<and> c \<le> 122"

text \<open>\<open>mem-[a-z0-9][a-z0-9-]{0,127}\<close>, the whole text.\<close>

definition valid_item_id :: "pystr \<Rightarrow> bool" where
  "valid_item_id s \<longleftrightarrow>
     take 4 s = lit ''mem-''
     \<and> (case drop 4 s of [] \<Rightarrow> False
        | c # cs \<Rightarrow> learned_letter c \<and> length cs \<le> 127 \<and> list_all (\<lambda>x. learned_letter x \<or> x = 45) cs)"

definition min_multiplier :: rat where "min_multiplier = 3 / 4"
definition max_multiplier :: rat where "max_multiplier = 5 / 4"

text \<open>\<open>str(value or "unknown").strip().lower()\<close> where that is a short name.\<close>

definition adapter_name :: "(field_value \<Rightarrow> pystr) \<Rightarrow> field_value \<Rightarrow> pystr" where
  "adapter_name repr_of v =
     (let text = lower (strip (if field_truthy v then field_str repr_of v else lit ''unknown''))
      in if text \<noteq> [] \<and> length text \<le> 32
           \<and> list_all (\<lambda>c. learned_letter c \<or> c = 95 \<or> c = 46 \<or> c = 45) text
         then text else lit ''unknown'')"

definition project_name :: "(field_value \<Rightarrow> pystr) \<Rightarrow> field_value \<Rightarrow> pystr option" where
  "project_name repr_of v =
     (if v = FNone then None
      else let text = take 80 (join [32] (split_ws (strip (field_str repr_of v))))
           in if text = [] then None else Some text)"

definition opt_field :: "pystr option \<Rightarrow> field_value" where
  "opt_field s = (case s of None \<Rightarrow> FNone | Some t \<Rightarrow> FStr t)"

text \<open>\<open>round(x, n)\<close>: the decimal with \<open>n\<close> places nearest to the exact value, ties to even.\<close>

definition round_digits :: "nat \<Rightarrow> rat \<Rightarrow> rat" where
  "round_digits n x = fl64 (of_int (round_even (x * 10 ^ n)) / 10 ^ n)"

definition feedback_multiplier :: "int \<Rightarrow> int \<Rightarrow> rat" where
  "feedback_multiplier adopted rejected =
     (let v = fl64 (fl64 (1 + fl64 (of_int (max 0 adopted) * fl64 (3 / 100)))
                    - fl64 (of_int (max 0 rejected) * fl64 (8 / 100)))
      in round_digits 3 (min max_multiplier (max min_multiplier v)))"

text \<open>\<open>==\<close> of two values: dictionaries without regard to order, numbers by value.\<close>

fun number_of :: "field_value \<Rightarrow> rat option" where
  "number_of (FBool b) = Some (if b then 1 else 0)"
| "number_of (FInt i) = Some (of_int i)"
| "number_of (FReal x) = Some x"
| "number_of v = None"

fun py_eq :: "field_value \<Rightarrow> field_value \<Rightarrow> bool" where
  "py_eq (FList xs) (FList ys) = list_all2 py_eq xs ys"
| "py_eq (FDict d) (FDict e) =
     (length d = length e
      \<and> list_all (\<lambda>kv. case map_of e (fst kv) of None \<Rightarrow> False | Some w \<Rightarrow> py_eq (snd kv) w) d)"
| "py_eq v w = (if number_of v \<noteq> None then number_of v = number_of w else v = w)"

section \<open>Records read\<close>

record learn_outcome =
  lo_outcome_id :: pystr
  lo_adapter :: pystr
  lo_project :: "pystr option"
  lo_cohort_id :: "pystr option"

record learn_application =
  la_outcome_id :: pystr
  la_applied :: bool
  la_adopted_ids :: "pystr list"
  la_rejected_ids :: "pystr list"

record learn_cohort =
  lc_cohort_id :: pystr
  lc_item_ids :: "pystr list"
  lc_pack_metrics :: "field_value option"

text \<open>What a profile file gives its reader: an error \<open>_load_profile_file\<close> catches, one it does not catch (an
  invalid UTF-8 text raises \<open>UnicodeDecodeError\<close>), or a JSON value.\<close>

datatype stored_json = Unreadable | Raising py_exn | Stored field_value

record learn_report =
  lr_status :: pystr
  lr_evidence_cases :: nat
  lr_profile_count :: nat
  lr_weighted_items :: nat
  lr_baseline_recall_at_1 :: rat
  lr_candidate_recall_at_1 :: rat
  lr_baseline_mrr :: rat
  lr_candidate_mrr :: rat

record learn_files =
  lf_active :: "stored_json option"
  lf_previous :: "stored_json option"
  lf_report :: "learn_report option"
  lf_outcomes :: "learn_outcome list"
  lf_applications :: "learn_application list"
  lf_cohorts :: "learn_cohort list"

text \<open>\<open>_load_profile_file\<close>: the empty dictionary for everything that is not a version 1 profile,
  and an error outside the three its \<open>except\<close> names.\<close>

definition load_profile_file :: "stored_json option \<Rightarrow> fields result" where
  "load_profile_file f =
     (case f of
        Some (Raising e) \<Rightarrow> Inl e
      | Some (Stored (FDict d)) \<Rightarrow>
          Inr (if py_eq (fget d ''schema_version'' FNone) (FInt 1) then d else [])
      | _ \<Rightarrow> Inr [])"

section \<open>Weights\<close>

definition usable_weight :: "pystr \<times> field_value \<Rightarrow> (pystr \<times> rat) option" where
  "usable_weight kv =
     (case snd kv of
        FInt i \<Rightarrow>
          if valid_item_id (fst kv) \<and> min_multiplier \<le> fl64 (of_int i) \<and> fl64 (of_int i) \<le> max_multiplier
          then Some (fst kv, fl64 (of_int i)) else None
      | FReal x \<Rightarrow>
          if valid_item_id (fst kv) \<and> min_multiplier \<le> x \<and> x \<le> max_multiplier then Some (fst kv, x) else None
      | _ \<Rightarrow> None)"

fun weights_in_rows ::
  "(field_value \<Rightarrow> pystr) \<Rightarrow> pystr \<Rightarrow> pystr option \<Rightarrow> field_value list \<Rightarrow> (pystr \<times> rat) list" where
  "weights_in_rows repr_of adapter project [] = []"
| "weights_in_rows repr_of adapter project (row # rows) =
     (case row of
        FDict d \<Rightarrow>
          if adapter_name repr_of (fget d ''adapter'' FNone) = adapter
             \<and> project_name repr_of (fget d ''project'' FNone) = project
          then (case fget d ''weights'' FNone of
                  FDict w \<Rightarrow> List.map_filter usable_weight w | _ \<Rightarrow> [])
          else weights_in_rows repr_of adapter project rows
      | _ \<Rightarrow> weights_in_rows repr_of adapter project rows)"

definition weights_for ::
  "(field_value \<Rightarrow> pystr) \<Rightarrow> fields \<Rightarrow> pystr \<Rightarrow> pystr option \<Rightarrow> (pystr \<times> rat) list" where
  "weights_for repr_of profile adapter project =
     (case fget profile ''profiles'' FNone of
        FList rows \<Rightarrow>
          weights_in_rows repr_of (adapter_name repr_of (FStr adapter))
            (project_name repr_of (opt_field project)) rows
      | _ \<Rightarrow> [])"

definition weight_of :: "(pystr \<times> rat) list \<Rightarrow> (pystr \<times> rat) list \<Rightarrow> pystr \<Rightarrow> rat" where
  "weight_of exact fallback i =
     (case map_of exact i of
        Some w \<Rightarrow> w
      | None \<Rightarrow> (case map_of fallback i of Some w \<Rightarrow> w | None \<Rightarrow> 1))"

definition apply_learning_profile_weight ::
  "(field_value \<Rightarrow> pystr) \<Rightarrow> retrieved_item list \<Rightarrow> fields \<Rightarrow> pystr \<Rightarrow> pystr option \<Rightarrow> retrieved_item list" where
  "apply_learning_profile_weight repr_of candidates profile adapter project =
     (let exact = weights_for repr_of profile adapter project;
          fallback = weights_for repr_of profile adapter None
      in if candidates = [] \<or> exact = [] \<and> fallback = [] then candidates
         else by_score (map (\<lambda>c. c\<lparr>ri_score := fl64 (ri_score c * weight_of exact fallback (ri_id c))\<rparr>) candidates))"

section \<open>The candidate profile\<close>

type_synonym profile_key = "pystr \<times> pystr option"
type_synonym counts = "(pystr \<times> int \<times> int) list"

record learn_stats =
  ls_counts :: "(profile_key \<times> counts) list"
  ls_evidence :: "(profile_key \<times> nat) list"

definition get_or :: "'v \<Rightarrow> ('k \<times> 'v) list \<Rightarrow> 'k \<Rightarrow> 'v" where
  "get_or missing al k = (case map_of al k of None \<Rightarrow> missing | Some v \<Rightarrow> v)"

definition count_adopted :: "pystr \<Rightarrow> counts \<Rightarrow> counts" where
  "count_adopted i b =
     (if valid_item_id i then case get_or (0, 0) b i of (a, r) \<Rightarrow> AList.update i (a + 1, r) b else b)"

definition count_rejected :: "pystr \<Rightarrow> counts \<Rightarrow> counts" where
  "count_rejected i b =
     (if valid_item_id i then case get_or (0, 0) b i of (a, r) \<Rightarrow> AList.update i (a, r + 1) b else b)"

definition add_evidence :: "learn_application \<Rightarrow> profile_key \<Rightarrow> learn_stats \<Rightarrow> learn_stats" where
  "add_evidence app key st =
     st\<lparr>ls_counts := AList.update key
          (fold count_rejected (la_rejected_ids app)
            (fold count_adopted (la_adopted_ids app) (get_or [] (ls_counts st) key))) (ls_counts st),
        ls_evidence := AList.update key (get_or 0 (ls_evidence st) key + 1) (ls_evidence st)\<rparr>"

text \<open>The row with an id, the last one where ids repeat.\<close>

definition outcome_by_id :: "learn_outcome list \<Rightarrow> pystr \<Rightarrow> learn_outcome option" where
  "outcome_by_id outcomes i = List.find (\<lambda>o'. lo_outcome_id o' = i) (rev outcomes)"

definition cohort_by_id :: "learn_cohort list \<Rightarrow> pystr \<Rightarrow> learn_cohort option" where
  "cohort_by_id cohorts i = List.find (\<lambda>c. lc_cohort_id c = i) (rev cohorts)"

definition outcome_keys :: "(field_value \<Rightarrow> pystr) \<Rightarrow> learn_outcome \<Rightarrow> profile_key list" where
  "outcome_keys repr_of o' =
     (let adapter = adapter_name repr_of (FStr (lo_adapter o'));
          project = project_name repr_of (opt_field (lo_project o'))
      in dedup [(adapter, None), (adapter, project)])"

definition gather :: "(field_value \<Rightarrow> pystr) \<Rightarrow> learn_files \<Rightarrow> learn_stats" where
  "gather repr_of fs =
     fold (\<lambda>app st.
        if \<not> la_applied app then st
        else (case outcome_by_id (lf_outcomes fs) (la_outcome_id app) of
                None \<Rightarrow> st
              | Some o' \<Rightarrow> fold (add_evidence app) (outcome_keys repr_of o') st))
       (lf_applications fs) \<lparr>ls_counts = [], ls_evidence = []\<rparr>"

definition learned_weights :: "counts \<Rightarrow> (pystr \<times> rat) list" where
  "learned_weights b =
     filter (\<lambda>(i, w). w \<noteq> 1)
       (map (\<lambda>(i, a, r). (i, feedback_multiplier a r)) (sort_key fst b))"

definition profile_row :: "learn_stats \<Rightarrow> profile_key \<times> counts \<Rightarrow> field_value option" where
  "profile_row st entry =
     (case entry of ((adapter, project), b) \<Rightarrow>
        let weights = learned_weights b
        in if weights = [] then None
           else Some (FDict [(lit ''adapter'', FStr adapter), (lit ''project'', opt_field project),
                  (lit ''evidence_count'', FInt (int (get_or 0 (ls_evidence st) (adapter, project)))),
                  (lit ''weights'', FDict (map (\<lambda>(i, w). (i, FReal w)) weights))]))"

definition build_candidate :: "(field_value \<Rightarrow> pystr) \<Rightarrow> int \<Rightarrow> learn_files \<Rightarrow> fields" where
  "build_candidate repr_of now fs =
     (let st = gather repr_of fs
      in [(lit ''schema_version'', FInt 1), (lit ''generated_at'', FStr (isoformat_utc now)),
          (lit ''profiles'', FList (List.map_filter (profile_row st)
             (sort_key (\<lambda>((adapter, project), b). (adapter, text_or_empty project)) (ls_counts st))))])"

section \<open>Replay\<close>

fun stage_score :: "field_value list \<Rightarrow> field_value option" where
  "stage_score [] = None"
| "stage_score (s # ss) =
     (case s of
        FDict d \<Rightarrow>
          if fget d ''name'' FNone = FStr (lit ''adaptive_learning'') \<and> fget d ''before_score'' FNone \<noteq> FNone
          then Some (fget d ''before_score'' FNone) else stage_score ss
      | _ \<Rightarrow> stage_score ss)"

definition pre_learning_score :: "fields \<Rightarrow> field_value" where
  "pre_learning_score trace =
     (case fget trace ''stages'' FNone of
        FList stages \<Rightarrow> (case stage_score stages of Some s \<Rightarrow> s | None \<Rightarrow> fget trace ''final_score'' FNone)
      | _ \<Rightarrow> fget trace ''final_score'' FNone)"

definition trace_score :: "pystr \<times> field_value \<Rightarrow> (pystr \<times> rat) option" where
  "trace_score row =
     (case row of
        (i, FDict trace) \<Rightarrow>
          if valid_item_id i then
            (case pre_learning_score trace of
               FInt n \<Rightarrow> Some (i, of_int n) | FReal x \<Rightarrow> Some (i, x) | _ \<Rightarrow> None)
          else None
      | _ \<Rightarrow> None)"

definition cohort_scores :: "pystr list \<Rightarrow> field_value option \<Rightarrow> (pystr \<times> rat) list" where
  "cohort_scores item_ids pack_metrics =
     (let rows =
        (case pack_metrics of
           Some (FDict m) \<Rightarrow>
             (case fget m ''retrieval_trace'' FNone of
                FList raw \<Rightarrow> if length raw = length item_ids then zip item_ids raw else []
              | FDict raw \<Rightarrow> raw
              | _ \<Rightarrow> [])
         | _ \<Rightarrow> [])
      in fold (\<lambda>row acc. case trace_score row of None \<Rightarrow> acc | Some (i, s) \<Rightarrow> AList.update i s acc) rows [])"

type_synonym learn_case = "learn_outcome \<times> (pystr \<times> rat) list \<times> pystr list"

definition evaluation_case :: "learn_files \<Rightarrow> learn_application \<Rightarrow> learn_case option" where
  "evaluation_case fs app =
     (if \<not> la_applied app \<or> la_adopted_ids app = [] then None
      else case outcome_by_id (lf_outcomes fs) (la_outcome_id app) of
          None \<Rightarrow> None
        | Some o' \<Rightarrow>
            if \<not> given_text (lo_cohort_id o') then None
            else case cohort_by_id (lf_cohorts fs) (the (lo_cohort_id o')) of
                None \<Rightarrow> None
              | Some c \<Rightarrow>
                  let scores = cohort_scores (lc_item_ids c) (lc_pack_metrics c)
                  in if scores = [] \<or> \<not> list_all (\<lambda>i. i \<in> set (map fst scores)) (la_adopted_ids app) then None
                     else Some (o', scores, la_adopted_ids app))"

definition evaluation_cases :: "learn_files \<Rightarrow> learn_case list" where
  "evaluation_cases fs = List.map_filter (evaluation_case fs) (lf_applications fs)"

definition replay_ranking :: "(field_value \<Rightarrow> pystr) \<Rightarrow> fields \<Rightarrow> learn_case \<Rightarrow> pystr list" where
  "replay_ranking repr_of profile c =
     (case c of (o', scores, adopted) \<Rightarrow>
        let exact = weights_for repr_of profile (lo_adapter o') (lo_project o');
            fallback = weights_for repr_of profile (lo_adapter o') None
        in map fst (rev (sort_key (\<lambda>(i, s). (fl64 (fl64 s * weight_of exact fallback i), i)) scores)))"

text \<open>The position, from 1, of the first adopted item.\<close>

fun first_rank :: "nat \<Rightarrow> pystr list \<Rightarrow> pystr list \<Rightarrow> nat option" where
  "first_rank n expected [] = None"
| "first_rank n expected (i # is) = (if i \<in> set expected then Some n else first_rank (n + 1) expected is)"

record evaluation =
  el_recall_at_1 :: rat
  el_mrr :: rat

definition evaluate_profile :: "(field_value \<Rightarrow> pystr) \<Rightarrow> learn_case list \<Rightarrow> fields \<Rightarrow> evaluation" where
  "evaluate_profile repr_of cases profile =
     (if cases = [] then \<lparr>el_recall_at_1 = 0, el_mrr = 0\<rparr>
      else
        let ranks = map (\<lambda>c. first_rank 1 (snd (snd c)) (replay_ranking repr_of profile c)) cases;
            count = of_nat (length cases)
        in \<lparr>el_recall_at_1 = round_digits 6 (fl64 (of_nat (length (filter (\<lambda>r. r = Some 1) ranks)) / count)),
            el_mrr = round_digits 6 (fl64 (foldl (\<lambda>s r. case r of None \<Rightarrow> s | Some n \<Rightarrow> fl64 (s + fl64 (1 / of_nat n)))
              0 ranks / count))\<rparr>)"

section \<open>Refresh and rollback\<close>

definition profile_signature :: "fields \<Rightarrow> field_value" where
  "profile_signature profile = fget profile ''profiles'' FNone"

definition profile_counts :: "fields \<Rightarrow> nat \<times> nat" where
  "profile_counts profile =
     (case fget profile ''profiles'' FNone of
        FList rows \<Rightarrow>
          (length rows,
           sum_list (map (\<lambda>row. case row of
               FDict d \<Rightarrow> (case fget d ''weights'' FNone of FDict w \<Rightarrow> length w | _ \<Rightarrow> 0) | _ \<Rightarrow> 0) rows))
      | _ \<Rightarrow> (0, 0))"

definition evaluation_val :: "evaluation \<Rightarrow> field_value" where
  "evaluation_val e = FDict [(lit ''recall_at_1'', FReal (el_recall_at_1 e)), (lit ''mrr'', FReal (el_mrr e))]"

definition tolerance :: rat where "tolerance = fl64 (1 / 10 ^ 12)"

definition regresses :: "evaluation \<Rightarrow> evaluation \<Rightarrow> bool" where
  "regresses proposed baseline \<longleftrightarrow>
     fl64 (el_recall_at_1 proposed + tolerance) < el_recall_at_1 baseline
     \<or> fl64 (el_mrr proposed + tolerance) < el_mrr baseline"

definition refresh_status :: "(field_value \<Rightarrow> pystr) \<Rightarrow> learn_case list \<Rightarrow> fields \<Rightarrow> fields \<Rightarrow> pystr" where
  "refresh_status repr_of cases current candidate =
     (if py_eq (profile_signature candidate) (profile_signature current) then lit ''no_change''
      else if cases = [] then lit ''insufficient_evidence''
      else if regresses (evaluate_profile repr_of cases candidate) (evaluate_profile repr_of cases current)
        then lit ''rejected_regression''
      else lit ''activated'')"

definition activate :: "(field_value \<Rightarrow> pystr) \<Rightarrow> learn_case list \<Rightarrow> fields \<Rightarrow> fields \<Rightarrow> learn_files \<Rightarrow> learn_files" where
  "activate repr_of cases current candidate fs =
     fs\<lparr>lf_previous := (if lf_active fs \<noteq> None \<and> current \<noteq> [] then lf_active fs else lf_previous fs),
        lf_active := Some (Stored (FDict (fset candidate ''evaluation'' (FDict
          [(lit ''evidence_cases'', FInt (int (length cases))),
           (lit ''baseline'', evaluation_val (evaluate_profile repr_of cases current)),
           (lit ''candidate'', evaluation_val (evaluate_profile repr_of cases candidate))]))))\<rparr>"

definition refresh_report :: "(field_value \<Rightarrow> pystr) \<Rightarrow> learn_case list \<Rightarrow> fields \<Rightarrow> fields \<Rightarrow> learn_report" where
  "refresh_report repr_of cases current candidate =
     (let baseline = evaluate_profile repr_of cases current;
          proposed = evaluate_profile repr_of cases candidate
      in \<lparr>lr_status = refresh_status repr_of cases current candidate, lr_evidence_cases = length cases,
          lr_profile_count = fst (profile_counts candidate), lr_weighted_items = snd (profile_counts candidate),
          lr_baseline_recall_at_1 = el_recall_at_1 baseline, lr_candidate_recall_at_1 = el_recall_at_1 proposed,
          lr_baseline_mrr = el_mrr baseline, lr_candidate_mrr = el_mrr proposed\<rparr>)"

definition refresh_learning_profile ::
  "(field_value \<Rightarrow> pystr) \<Rightarrow> int \<Rightarrow> learn_files \<Rightarrow> learn_report result \<times> learn_files" where
  "refresh_learning_profile repr_of now fs =
     (case load_profile_file (lf_active fs) of
        Inl e \<Rightarrow> (Inl e, fs)
      | Inr current \<Rightarrow>
          (let candidate = build_candidate repr_of now fs;
               cases = evaluation_cases fs;
               report = refresh_report repr_of cases current candidate
           in (Inr report,
               (if lr_status report = lit ''activated'' then activate repr_of cases current candidate fs else fs)
                 \<lparr>lf_report := Some report\<rparr>)))"

definition rollback_learning_profile :: "learn_files \<Rightarrow> bool result \<times> learn_files" where
  "rollback_learning_profile fs =
     (if lf_previous fs = None then (Inr False, fs)
      else case load_profile_file (lf_previous fs) of
        Inl e \<Rightarrow> (Inl e, fs)
      | Inr d \<Rightarrow> (Inr True, fs\<lparr>lf_active := Some (Stored (FDict d)), lf_previous := None\<rparr>))"

end
