(* ===== verification/RecallStages.thy ===== *)
theory RecallStages imports IndexLaws AdaptiveLearning RecallFusion TemporalState begin

text \<open>
  The stages of the candidate pipeline of recall: metadata phrases (in \<open>retrieval.py\<close>), handoff
  candidates (\<open>retrieval_status.py\<close>), reranking (\<open>retrieval_rerank.py\<close>), decay
  (\<open>retrieval_decay.py\<close>), feedback value (\<open>retrieval_value.py\<close>), runtime evidence
  (\<open>retrieval_runtime.py\<close>), the filters for stale state (\<open>retrieval_temporal.py\<close>) and superseded
  items (\<open>retrieval_supersession.py\<close>), diversity, and the expansions (\<open>retrieval_hopfield.py\<close>,
  \<open>hopfield_memory.py\<close>, \<open>retrieval_graph.py\<close>). A stage maps candidates to candidates or raises.

  The record \<open>recall_env\<close> holds what the stages read besides the index: the clock, the parser of ISO
  stamps, whether the markdown file of an item names a superseder, the cross encoder, what loading the
  learning profile gives, the coercions of the validation library, and the order in which Python
  iterates a set of texts (any permutation).

  A read of the index, or of the path of an item, may also raise. The record says for every place that
  reads, and the ids it reads, which error SQLite or the operating system raises there, if any: the
  code catches none of those errors in a stage.
\<close>

record recall_env =
  ev_sql :: sql
  ev_now :: int
  ev_fromisoformat :: "pystr \<Rightarrow> py_datetime result"
  ev_md_superseded :: "pystr \<Rightarrow> bool"
  ev_cross_encoder :: "(pystr \<times> pystr) list \<Rightarrow> rat list result"
  ev_profile :: "fields result"
  ev_repr :: "field_value \<Rightarrow> pystr"
  ev_coerce :: "fields \<Rightarrow> memory_item validated"
  ev_set_order :: "pystr list \<Rightarrow> pystr list"
  ev_failure :: "string \<Rightarrow> pystr list \<Rightarrow> py_exn option"

definition iterate_set :: "recall_env \<Rightarrow> pystr list \<Rightarrow> pystr list" where
  "iterate_set env xs =
     (let ys = dedup xs in if mset (ev_set_order env ys) = mset ys then ev_set_order env ys else ys)"

text \<open>A statement at a place, with the ids it is about.\<close>

definition read_index :: "recall_env \<Rightarrow> string \<Rightarrow> pystr list \<Rightarrow> unit result" where
  "read_index env place ids = (case ev_failure env place ids of None \<Rightarrow> Inr () | Some e \<Rightarrow> Inl e)"

text \<open>The operations on a list of ids return before the statement when the list is empty.\<close>

definition read_ids :: "recall_env \<Rightarrow> string \<Rightarrow> pystr list \<Rightarrow> unit result" where
  "read_ids env place ids = (if ids = [] then Inr () else read_index env place ids)"

fun read_each :: "recall_env \<Rightarrow> string \<Rightarrow> pystr list \<Rightarrow> unit result" where
  "read_each env place [] = Inr ()"
| "read_each env place (i # is) = bindR (read_index env place [i]) (\<lambda>_. read_each env place is)"

text \<open>A search of the vectors: the scan of the table may raise too, after the check of the dimension.\<close>

definition read_vectors ::
  "recall_env \<Rightarrow> hub_index \<Rightarrow> vector \<Rightarrow> int \<Rightarrow> pystr list option \<Rightarrow> pystr list option \<Rightarrow> index_hit list result" where
  "read_vectors env ix embedding top_k allowed excluded =
     bindR (vector_search (ev_sql env) ix embedding top_k allowed excluded)
       (\<lambda>hits. bindR (read_index env ''vectors'' []) (\<lambda>_. Inr hits))"

type_synonym stage = "retrieved_item list \<Rightarrow> retrieved_item list result"

abbreviation floats :: "recall_env \<Rightarrow> float_ops" where
  "floats env \<equiv> sq_floats (ev_sql env)"

text \<open>A new hit with another score; the trace of a new hit is empty.\<close>

definition rescored :: "retrieved_item \<Rightarrow> rat \<Rightarrow> retrieved_item" where
  "rescored c score = hit (ri_id c) score (ri_bm25_rank c) (ri_vector_rank c)"

lemma rescored_simps [simp]: "ri_id (rescored c s) = ri_id c" "ri_score (rescored c s) = s"
  by (simp_all add: rescored_def)

section \<open>Metadata phrases\<close>

text \<open>
  \<open>[a-z0-9_]\<close> without regard to case also matches the dotless and the dotted i, the long s and the
  Kelvin sign.
\<close>

definition metadata_word_char :: "int \<Rightarrow> bool" where
  "metadata_word_char c \<longleftrightarrow> ascii_word c \<or> c \<in> {304, 305, 383, 8490}"

function metadata_tokens :: "pystr \<Rightarrow> pystr list" where
  "metadata_tokens [] = []"
| "metadata_tokens (c # cs) =
     (if metadata_word_char c
        then lower (c # takeWhile metadata_word_char cs) # metadata_tokens (dropWhile metadata_word_char cs)
      else if is_cjk c then lower [c] # metadata_tokens cs
      else metadata_tokens cs)"
  by pat_completeness auto
termination
  by (relation "measure length") (auto simp: less_Suc_eq_le length_dropWhile_le)

definition normalize_metadata_phrase :: "pystr \<Rightarrow> pystr" where
  "normalize_metadata_phrase text =
     join [32] (metadata_tokens (map (\<lambda>c. if c = 45 then 32 else c) (lower text)))"

definition token_coverage_score :: "pystr list \<Rightarrow> pystr list \<Rightarrow> rat \<Rightarrow> rat" where
  "token_coverage_score query_tokens metadata weight =
     (let tokens = dedup metadata;
          overlap = filter (\<lambda>t. t \<in> set query_tokens) tokens;
          coverage = fl64 (of_nat (length overlap) / of_nat (length tokens))
      in if length tokens < 3 then 0
         else if length overlap < 3 \<or> coverage < fl64 (78 / 100) then 0
         else fl64 (weight * coverage))"

definition metadata_phrase_score :: "pystr \<Rightarrow> pystr list \<Rightarrow> pystr \<Rightarrow> pystr \<Rightarrow> rat" where
  "metadata_phrase_score query_norm query_tokens title summary =
     (let title_norm = normalize_metadata_phrase title; summary_norm = normalize_metadata_phrase summary
      in if title_norm \<noteq> [] \<and> (title_norm = query_norm \<or> contains title_norm query_norm) then 6
         else if summary_norm \<noteq> [] \<and> (summary_norm = query_norm \<or> contains summary_norm query_norm) then 5
         else max (token_coverage_score query_tokens (metadata_tokens title_norm) 3)
                  (token_coverage_score query_tokens (metadata_tokens summary_norm) 2))"

definition metadata_phrase_hits :: "hub_index \<Rightarrow> pystr \<Rightarrow> pystr list option \<Rightarrow> int \<Rightarrow> retrieved_item list" where
  "metadata_phrase_hits ix query allowed limit =
     (let query_norm = normalize_metadata_phrase query; query_tokens = metadata_tokens query_norm
      in if query_tokens = [] then []
         else slice limit (by_score (List.map_filter (\<lambda>r.
           if allowed \<noteq> None \<and> mr_id r \<notin> set (the allowed) then None
           else let score = metadata_phrase_score query_norm query_tokens (mr_title r) (mr_summary r)
                in if score \<le> 0 then None else Some (hit (mr_id r) (fl64 (1 + score)) (Some 0) None)) (ix_meta ix))))"

definition merge_phrase_hit :: "retrieved_item \<Rightarrow> (pystr \<times> retrieved_item) list \<Rightarrow> (pystr \<times> retrieved_item) list" where
  "merge_phrase_hit h by_id =
     AList.update (ri_id h)
       (case map_of by_id (ri_id h) of
          None \<Rightarrow> h
        | Some e \<Rightarrow> e\<lparr>ri_score := max (ri_score e) (ri_score h),
             ri_bm25_rank := (case ri_bm25_rank e of None \<Rightarrow> ri_bm25_rank h | Some r \<Rightarrow> Some r)\<rparr>) by_id"

definition metadata_phrase_boost :: "recall_env \<Rightarrow> hub_index \<Rightarrow> pystr \<Rightarrow> pystr list option \<Rightarrow> int \<Rightarrow> stage" where
  "metadata_phrase_boost env ix query allowed limit candidates =
     bindR (read_index env ''phrase_rows'' []) (\<lambda>_.
       let hits = metadata_phrase_hits ix query allowed limit
       in Inr (if hits = [] then candidates
          else by_score (map snd (fold merge_phrase_hit hits
            (fold (\<lambda>c. AList.update (ri_id c) c) candidates [])))))"

section \<open>Status and handoff\<close>

definition status_risk_trigger_terms :: "pystr list" where
  "status_risk_trigger_terms = [lit ''stale'', lit ''outdated'', lit ''reorient'', lit ''handoff'']"

definition status_context_terms :: "pystr list" where
  "status_context_terms = [lit ''memory'', lit ''project'', lit ''status'', lit ''trust'', lit ''current'']"

definition handoff_tags :: "pystr list" where
  "handoff_tags = [lit ''handoff'', lit ''status'', lit ''next-step'', lit ''current'']"

definition is_status_risk_query :: "pystr \<Rightarrow> bool" where
  "is_status_risk_query query \<longleftrightarrow>
     list_ex (\<lambda>w. w \<in> set status_risk_trigger_terms) (extract_words query)
     \<and> list_ex (\<lambda>w. w \<in> set status_context_terms) (extract_words query)"

definition handoff_filter :: id_filter where
  "handoff_filter = no_filter\<lparr>if_type := Some (lit ''signal''), if_tags := [lit ''handoff'', lit ''status'']\<rparr>"

definition supplement_status_handoff :: "recall_env \<Rightarrow> hub_index \<Rightarrow> pystr \<Rightarrow> pystr list option \<Rightarrow> stage" where
  "supplement_status_handoff env ix query allowed candidates =
     (if \<not> is_status_risk_query query then Inr candidates
      else bindR (read_index env ''handoff_ids'' []) (\<lambda>_.
        let found = (case filter_ids (ev_now env) ix handoff_filter of None \<Rightarrow> [] | Some ids \<Rightarrow> ids);
            handoff_ids = (case allowed of None \<Rightarrow> found | Some al \<Rightarrow> filter (\<lambda>i. i \<in> set al) found);
            top_score = (if candidates = [] then 1 else ri_score (hd candidates))
        in Inr (if handoff_ids = [] then candidates
           else map (\<lambda>c. if ri_id c \<in> set handoff_ids \<and> ri_score c < top_score then rescored c top_score else c) candidates
             @ map (\<lambda>i. hit i top_score None None)
                 (sort (dedup (filter (\<lambda>i. i \<notin> set (hit_ids candidates)) handoff_ids))))))"

text \<open>\<open>metadata.get(id, {})\<close>: the type and the tags of a row, or nothing.\<close>

definition type_and_tags :: "hub_index \<Rightarrow> retrieved_item list \<Rightarrow> pystr \<Rightarrow> pystr \<times> pystr list" where
  "type_and_tags ix candidates i =
     (case map_of (get_search_metadata ix (hit_ids candidates)) i of
        None \<Rightarrow> ([], []) | Some m \<Rightarrow> (sm_type m, sm_tags m))"

definition multiplied :: "(pystr \<Rightarrow> rat) \<Rightarrow> retrieved_item list \<Rightarrow> retrieved_item list" where
  "multiplied multiplier candidates =
     by_score (map (\<lambda>c. if multiplier (ri_id c) = 1 then c
       else rescored c (fl64 (ri_score c * multiplier (ri_id c)))) candidates)"

definition handoff_multiplier :: "pystr \<times> pystr list \<Rightarrow> rat" where
  "handoff_multiplier m =
     (case m of (item_type, tags) \<Rightarrow>
        let m1 = (if item_type = lit ''signal'' then fl64 (1 + fl64 (25 / 100)) else 1)
        in if list_ex (\<lambda>t. t \<in> set handoff_tags) tags then fl64 (m1 + fl64 (15 / 100)) else m1)"

definition status_handoff_boost :: "recall_env \<Rightarrow> hub_index \<Rightarrow> pystr \<Rightarrow> stage" where
  "status_handoff_boost env ix query candidates =
     (if \<not> is_status_risk_query query then Inr candidates
      else bindR (read_ids env ''handoff_metadata'' (hit_ids candidates)) (\<lambda>_.
        Inr (multiplied (\<lambda>i. handoff_multiplier (type_and_tags ix candidates i)) candidates)))"

section \<open>Runtime evidence\<close>

definition runtime_evidence_terms :: "pystr list" where
  "runtime_evidence_terms =
     [lit ''hook'', lit ''hooks'', lit ''runtime'', lit ''event'', lit ''events'', lit ''observed'',
      lit ''observation'', lit ''runtime_observed'']"

definition adapter_query_tags :: "(pystr \<times> pystr) list" where
  "adapter_query_tags =
     [(lit ''aider'', lit ''aider''), (lit ''aone'', lit ''aone''), (lit ''cline'', lit ''cline''),
      (lit ''codex'', lit ''codex''), (lit ''continue'', lit ''continue''), (lit ''cursor'', lit ''cursor''),
      (lit ''github'', lit ''github-copilot''), (lit ''qoder'', lit ''qoder''), (lit ''wukong'', lit ''wukong'')]"

definition adapter_tags_in_query :: "pystr list \<Rightarrow> pystr list" where
  "adapter_tags_in_query terms =
     map snd (filter (\<lambda>(term, tag). term \<in> set terms) adapter_query_tags)
     @ (if lit ''claude'' \<in> set terms \<and> lit ''code'' \<in> set terms then [lit ''claude-code''] else [])"

definition runtime_multiplier :: "pystr list \<Rightarrow> pystr \<times> pystr list \<Rightarrow> rat" where
  "runtime_multiplier adapter_tags m =
     (case m of (item_type, tags) \<Rightarrow>
        if list_ex (\<lambda>t. t \<in> set tags) adapter_tags \<and> lit ''runtime-evidence'' \<in> set tags then
          let m1 = fl64 (1 + fl64 (75 / 100));
              m2 = (if lit ''hooks'' \<in> set tags \<or> lit ''real-config'' \<in> set tags
                then fl64 (m1 + fl64 (25 / 100)) else m1)
          in if item_type = lit ''fact'' then fl64 (m2 + fl64 (15 / 100)) else m2
        else 1)"

definition runtime_evidence_boost :: "recall_env \<Rightarrow> hub_index \<Rightarrow> pystr \<Rightarrow> stage" where
  "runtime_evidence_boost env ix query candidates =
     (let terms = extract_words query; adapter_tags = adapter_tags_in_query terms
      in if \<not> list_ex (\<lambda>t. t \<in> set runtime_evidence_terms) terms \<or> adapter_tags = [] then Inr candidates
         else bindR (read_ids env ''runtime_metadata'' (hit_ids candidates)) (\<lambda>_.
           Inr (multiplied (\<lambda>i. runtime_multiplier adapter_tags (type_and_tags ix candidates i)) candidates)))"

section \<open>Decay and feedback\<close>

definition retention_factor :: "float_ops \<Rightarrow> pystr \<Rightarrow> rat \<Rightarrow> rat" where
  "retention_factor fo decay_cls days =
     (let half_life = (case map_of decay_half_life_days decay_cls of None \<Rightarrow> 60 | Some d \<Rightarrow> d)
      in if days \<le> 0 then 1 else fo_pow fo (1 / 2) (fl64 (days / of_int half_life)))"

record decay_breakdown =
  db_coefficient :: rat
  db_time_retention :: rat
  db_access_multiplier :: rat
  db_support_multiplier :: rat
  db_contradiction_multiplier :: rat
  db_gain_multiplier :: rat

definition decay_breakdown_of :: "float_ops \<Rightarrow> pystr \<Rightarrow> rat \<Rightarrow> int \<Rightarrow> int \<Rightarrow> int \<Rightarrow> rat \<Rightarrow> decay_breakdown" where
  "decay_breakdown_of fo decay_cls days access support contradict gain =
     (let time_retention = retention_factor fo decay_cls days;
          access_multiplier = fl64 (1 + min (fl64 (35 / 100)) (fl64 (fo_log1p fo (of_int (max 0 access)) * fl64 (8 / 100))));
          support_multiplier = fl64 (1 + min (fl64 (18 / 100)) (fl64 (of_int (max 0 support) * fl64 (3 / 100))));
          gain_multiplier = fl64 (1 + max (- fl64 (15 / 100)) (min (fl64 (15 / 100)) (fl64 (gain * fl64 (12 / 100)))));
          contradiction_multiplier = fl64 (1 - min (fl64 (45 / 100)) (fl64 (of_int (max 0 contradict) * fl64 (8 / 100))));
          coefficient = fl64 (fl64 (fl64 (fl64 (time_retention * access_multiplier) * support_multiplier)
            * gain_multiplier) * contradiction_multiplier)
      in \<lparr>db_coefficient = min (fl64 (135 / 100)) (max (fl64 (1 / 100)) coefficient),
          db_time_retention = time_retention, db_access_multiplier = access_multiplier,
          db_support_multiplier = support_multiplier, db_contradiction_multiplier = contradiction_multiplier,
          db_gain_multiplier = gain_multiplier\<rparr>)"

definition rank_weight_max :: rat where "rank_weight_max = fl64 (5 / 100)"

definition ranking_weight :: "float_ops \<Rightarrow> rat \<Rightarrow> rat" where
  "ranking_weight fo multiplier =
     fl64 (1 + fl64 (rank_weight_max * fo_tanh fo (fo_log fo (max multiplier (fl64 (1 / 100))))))"

text \<open>Days since the last access, or since creation; 0 where there is no readable stamp.\<close>

definition days_since :: "recall_env \<Rightarrow> decay_data \<Rightarrow> rat" where
  "days_since env d =
     (let ref = (if given_text (dd_last_accessed d) then dd_last_accessed d else dd_created_at d)
      in if given_text ref then
           (case ev_fromisoformat env (the ref) of
              Inl _ \<Rightarrow> 0
            | Inr t \<Rightarrow> fl64 (fl64 (of_int (ev_now env - instant (aware t)) / 1000000) / 86400))
         else 0)"

definition decayed :: "recall_env \<Rightarrow> retrieved_item \<Rightarrow> decay_data \<Rightarrow> retrieved_item" where
  "decayed env c d =
     rescored c (fl64 (ri_score c * ranking_weight (floats env)
       (fl64 (dd_confidence d * db_coefficient (decay_breakdown_of (floats env) (dd_decay_class d) (days_since env d)
          (dd_access_count d) (dd_support_count d) (dd_contradict_count d) (dd_gain_score d))))))"

definition apply_decay :: "recall_env \<Rightarrow> hub_index \<Rightarrow> stage" where
  "apply_decay env ix candidates =
     bindR (read_ids env ''decay_data'' (hit_ids candidates)) (\<lambda>_.
       let rows = get_decay_data ix (hit_ids candidates)
       in Inr (by_score (map (\<lambda>c. case map_of rows (ri_id c) of None \<Rightarrow> c | Some d \<Rightarrow> decayed env c d) candidates)))"

definition feedback_value_multiplier :: "int \<Rightarrow> int \<Rightarrow> rat \<Rightarrow> rat" where
  "feedback_value_multiplier support contradict gain =
     (let raw = fl64 (fl64 (fl64 (1 + fl64 (of_int (max 0 support) * fl64 (3 / 100)))
            - fl64 (of_int (max 0 contradict) * fl64 (10 / 100))) + fl64 (gain * fl64 (50 / 100)))
      in min 2 (max (fl64 (25 / 100)) raw))"

definition apply_feedback_value :: "recall_env \<Rightarrow> hub_index \<Rightarrow> stage" where
  "apply_feedback_value env ix candidates =
     bindR (read_ids env ''feedback_data'' (hit_ids candidates)) (\<lambda>_.
       let rows = get_feedback_data ix (hit_ids candidates)
       in Inr (by_score (map (\<lambda>c. case map_of rows (ri_id c) of
            None \<Rightarrow> c
          | Some (support, contradict, gain) \<Rightarrow>
              rescored c (fl64 (ri_score c
               * ranking_weight (floats env) (feedback_value_multiplier support contradict gain)))) candidates)))"

definition apply_adaptive_learning :: "recall_env \<Rightarrow> pystr \<Rightarrow> pystr option \<Rightarrow> stage" where
  "apply_adaptive_learning env adapter project candidates =
     (if candidates = [] then Inr candidates
      else bindR (ev_profile env) (\<lambda>profile.
        Inr (apply_learning_profile_weight (ev_repr env) candidates profile adapter project)))"

section \<open>Filters\<close>

definition item_from_metadata :: "recall_env \<Rightarrow> pystr \<Rightarrow> search_metadata option \<Rightarrow> memory_item option" where
  "item_from_metadata env i m =
     (case m of
        None \<Rightarrow> None
      | Some s \<Rightarrow>
          (case make_item (ev_repr env) (ev_coerce env)
             [(lit ''id'', FStr i), (lit ''type'', FStr (sm_type s)), (lit ''created_at'', FStr (sm_created_at s)),
              (lit ''title'', FStr (sm_title s)), (lit ''summary'', FStr (sm_summary s)),
              (lit ''tags'', FList (map FStr (sm_tags s)))] of
             Inl _ \<Rightarrow> None | Inr item \<Rightarrow> Some item))"

definition stale_state :: "recall_env \<Rightarrow> hub_index \<Rightarrow> py_datetime \<Rightarrow> pystr list \<Rightarrow> pystr \<Rightarrow> bool" where
  "stale_state env ix now ids i =
     (case item_from_metadata env i (map_of (get_search_metadata ix ids) i) of
        None \<Rightarrow> False
      | Some item \<Rightarrow>
          ts_status (temporal_evaluate default_temporal_config now item
            (case map_of (get_texts ix ids) i of None \<Rightarrow> [] | Some t \<Rightarrow> t) None) = TS_stale)"

definition filter_stale_temporal_state :: "recall_env \<Rightarrow> hub_index \<Rightarrow> bool \<Rightarrow> py_datetime option \<Rightarrow> stage" where
  "filter_stale_temporal_state env ix include_stale now candidates =
     (if include_stale then Inr candidates
      else bindR (read_ids env ''temporal_metadata'' (hit_ids candidates)) (\<lambda>_.
        bindR (read_ids env ''temporal_texts'' (hit_ids candidates)) (\<lambda>_.
          Inr (filter (\<lambda>c. \<not> stale_state env ix (case now of None \<Rightarrow> utc_of (ev_now env) | Some t \<Rightarrow> t)
            (hit_ids candidates) (ri_id c)) candidates))))"

text \<open>Asking whether the file of an item exists may raise; whatever reading and parsing it raises is caught.\<close>

definition filter_md_superseded :: "recall_env \<Rightarrow> bool \<Rightarrow> stage" where
  "filter_md_superseded env include_superseded candidates =
     (if include_superseded then Inr candidates
      else bindR (read_each env ''item_file'' (hit_ids candidates)) (\<lambda>_.
        Inr (filter (\<lambda>c. \<not> ev_md_superseded env (ri_id c)) candidates)))"

section \<open>Reranking and diversity\<close>

definition sigmoid :: "float_ops \<Rightarrow> rat \<Rightarrow> rat" where
  "sigmoid fo x =
     (if 0 \<le> x then fl64 (1 / fl64 (1 + fo_exp fo (- x)))
      else let z = fo_exp fo x in fl64 (z / fl64 (1 + z)))"

definition cross_encoder_rerank :: "recall_env \<Rightarrow> hub_index \<Rightarrow> pystr \<Rightarrow> stage" where
  "cross_encoder_rerank env ix query candidates =
     bindR (read_ids env ''rerank_texts'' (hit_ids candidates)) (\<lambda>_.
      let texts = get_texts ix (hit_ids candidates);
          valid = filter (\<lambda>c. given_text (map_of texts (ri_id c))) candidates
      in if valid = [] then Inr candidates
         else bindR (ev_cross_encoder env (map (\<lambda>c. (query, the (map_of texts (ri_id c)))) valid)) (\<lambda>scores.
           let scored = by_score (map (\<lambda>(c, s). rescored c (sigmoid (floats env) s)) (zip valid scores))
           in Inr (scored @ filter (\<lambda>c. ri_id c \<notin> set (hit_ids scored)) candidates)))"

definition rerank_pool :: "recall_env \<Rightarrow> hub_index \<Rightarrow> pystr \<Rightarrow> int \<Rightarrow> stage" where
  "rerank_pool env ix query rerank_top candidates =
     (let pool = slice rerank_top candidates; rest = drop (length pool) candidates
      in bindR (cross_encoder_rerank env ix query pool) (\<lambda>ranked. Inr (ranked @ rest)))"

definition mmr_stage :: "recall_env \<Rightarrow> hub_index \<Rightarrow> int \<Rightarrow> rat option \<Rightarrow> stage" where
  "mmr_stage env ix top_k lam candidates =
     bindR (read_ids env ''mmr_embeddings'' (hit_ids candidates)) (\<lambda>_.
       Inr (mmr_rerank (floats env) candidates (get_embeddings ix (hit_ids candidates)) top_k lam))"

section \<open>Expansions\<close>

definition expand_via_graph :: "recall_env \<Rightarrow> hub_index \<Rightarrow> int \<Rightarrow> nat \<Rightarrow> pystr list option \<Rightarrow> stage" where
  "expand_via_graph env ix top_k depth allowed candidates =
     bindR (if depth = 0 then Inr () else read_each env ''graph_neighbors'' (hit_ids (slice top_k candidates))) (\<lambda>_.
      let existing = hit_ids candidates;
          found = filter (\<lambda>n. n \<notin> set existing)
            (concat (map (\<lambda>c. graph_neighbors ix (ri_id c) depth) (slice top_k candidates)));
          neighbors = (case allowed of None \<Rightarrow> found | Some al \<Rightarrow> filter (\<lambda>n. n \<in> set al) found);
          min_score = (if candidates = [] then 0 else fl64 (ri_score (last candidates) * (1 / 2)))
      in Inr (candidates @ map (\<lambda>n. hit n min_score None None) (iterate_set env neighbors)))"

definition normalize_vector :: "float_ops \<Rightarrow> vector \<Rightarrow> vector" where
  "normalize_vector fo v =
     (let norm = fo_sqrt fo (fo_sum fo (map (\<lambda>x. fl64 (x * x)) v))
      in if norm \<le> 0 then map (\<lambda>_. 0) v else map (\<lambda>x. fl64 (x / norm)) v)"

definition hopfield_cosine :: "float_ops \<Rightarrow> vector \<Rightarrow> vector \<Rightarrow> rat" where
  "hopfield_cosine fo a b = (if a = [] \<or> b = [] \<or> length a \<noteq> length b then 0 else float_dot fo a b)"

definition softmax :: "float_ops \<Rightarrow> rat list \<Rightarrow> rat list" where
  "softmax fo values =
     (if values = [] then []
      else
        let offset = Max (set values); exps = map (\<lambda>v. fo_exp fo (fl64 (v - offset))) values;
            total = fo_sum fo exps
        in if total \<le> 0 then map (\<lambda>_. fl64 (1 / of_nat (length values))) values
           else map (\<lambda>e. fl64 (e / total)) exps)"

text \<open>\<open>result[index] += value * weight\<close>; a longer vector is an \<open>IndexError\<close>.\<close>

definition add_weighted :: "vector \<times> rat \<Rightarrow> vector \<Rightarrow> vector result" where
  "add_weighted vw acc =
     (case vw of (v, w) \<Rightarrow>
        if length acc < length v then Inl (IndexError (lit ''list index out of range''))
        else Inr (map (\<lambda>(a, x). fl64 (a + fl64 (x * w))) (zip acc v) @ drop (length v) acc))"

fun add_all_weighted :: "(vector \<times> rat) list \<Rightarrow> vector \<Rightarrow> vector result" where
  "add_all_weighted [] acc = Inr acc"
| "add_all_weighted (vw # vws) acc = bindR (add_weighted vw acc) (add_all_weighted vws)"

definition weighted_sum :: "vector list \<Rightarrow> rat list \<Rightarrow> vector result" where
  "weighted_sum vectors weights =
     (if vectors = [] then Inr []
      else add_all_weighted (zip vectors weights) (map (\<lambda>_. 0) (hd vectors)))"

record association =
  as_id :: pystr
  as_weight :: rat
  as_similarity :: rat
  as_score :: rat

text \<open>\<open>ContinuousHopfieldMemory(patterns, beta=beta).recall(query, top_k=top_k)\<close>.\<close>

definition hopfield_recall ::
  "float_ops \<Rightarrow> rat \<Rightarrow> (pystr \<times> vector) list \<Rightarrow> vector \<Rightarrow> int \<Rightarrow> (vector \<times> association list) result" where
  "hopfield_recall fo beta patterns query top_k =
     (let stored = map (\<lambda>(i, v). (i, normalize_vector fo v)) patterns;
          q = normalize_vector fo query;
          similarities = map (\<lambda>(i, v). hopfield_cosine fo q v) stored;
          weights = softmax fo (map (\<lambda>s. fl64 (beta * s)) similarities)
      in if stored = [] then Inr ([], [])
         else bindR (weighted_sum (map snd stored) weights) (\<lambda>attractor.
           Inr (attractor, slice top_k (sort_key (\<lambda>a. - as_score a)
             (map (\<lambda>((i, v), w, s). \<lparr>as_id = i, as_weight = w, as_similarity = s, as_score = fl64 (w * max 0 s)\<rparr>)
               (zip stored (zip weights similarities)))))))"

text \<open>The loop over the hits around the attractor; it ends when enough were added.\<close>

fun add_associated :: "rat \<Rightarrow> pystr list option \<Rightarrow> int \<Rightarrow> index_hit list \<Rightarrow> retrieved_item list \<Rightarrow> retrieved_item list" where
  "add_associated max_score allowed target [] expanded = expanded"
| "add_associated max_score allowed target ((i, score) # hits) expanded =
     (if allowed \<noteq> None \<and> i \<notin> set (the allowed) \<or> i \<in> set (hit_ids expanded)
        then add_associated max_score allowed target hits expanded
      else
        let distance = max 0 (- score); similarity = fl64 (1 / fl64 (1 + distance));
            expanded' = expanded @ [hit i (fl64 (fl64 (max_score * fl64 (85 / 100)) * similarity)) None None]
        in if target \<le> int (length expanded') then expanded'
           else add_associated max_score allowed target hits expanded')"

definition score_weights :: "float_ops \<Rightarrow> retrieved_item list \<Rightarrow> rat list" where
  "score_weights fo candidates = softmax fo (map ri_score candidates)"

definition expand_via_hopfield :: "recall_env \<Rightarrow> hub_index \<Rightarrow> int \<Rightarrow> int \<Rightarrow> rat \<Rightarrow> pystr list option \<Rightarrow> stage" where
  "expand_via_hopfield env ix top_k hopfield_top beta allowed candidates =
     bindR (read_ids env ''hopfield_embeddings'' (hit_ids candidates)) (\<lambda>_.
      let embeddings = get_embeddings ix (hit_ids candidates);
          seeds = filter (\<lambda>c. map_of embeddings (ri_id c) \<noteq> None) candidates;
          vectors = map (\<lambda>c. the (map_of embeddings (ri_id c))) seeds
      in if seeds = [] then Inr candidates
         else
           bindR (weighted_sum vectors (score_weights (floats env) seeds)) (\<lambda>query.
           bindR (hopfield_recall (floats env) beta
                    (fold (\<lambda>(i, v). AList.update i v) (zip (hit_ids seeds) vectors) []) query (int (length seeds)))
             (\<lambda>(attractor, associations).
               if attractor = [] then Inr candidates
               else bindR (read_vectors env ix attractor (max hopfield_top top_k) None None) (\<lambda>hits.
                 Inr (by_score (add_associated (Max (set (map ri_score candidates))) allowed
                   (int (length candidates) + max 0 top_k) hits candidates))))))"

end
