(* ===== verification/Retriever.thy ===== *)
theory Retriever imports RecallStages begin

text \<open>
  \<open>memory/recall/retrieval.py\<close>: the retriever. A search fuses the text and the vector ranking (or the
  three routes of routed recall), runs the candidates through the stages, cuts to \<open>top_k\<close> and records
  the access. Effects: reading the clock and writing accesses to the index; they are the state
  \<open>recall_world\<close>, and the clock is the sequence of values its readings give.
\<close>

section \<open>Settings\<close>

record embedder =
  em_degraded :: bool
  em_embed :: "pystr \<Rightarrow> vector result"

record retriever =
  rv_embedder :: "embedder option"
  rv_rrf_k :: nat
  rv_bm25_top :: int
  rv_vector_top :: int
  rv_bm25_weight :: rat
  rv_vector_weight :: rat
  rv_query_expansion :: bool
  rv_rerank :: bool
  rv_rerank_top :: int
  rv_apply_decay :: bool
  rv_record_access :: bool
  rv_graph_expand :: bool
  rv_graph_depth :: nat
  rv_hopfield_expand :: bool
  rv_hopfield_top :: int
  rv_hopfield_beta :: rat
  rv_mmr_lambda :: "rat option"
  rv_temporal_now :: "py_datetime option"

record search_filter =
  sf_type :: "pystr option"
  sf_project :: "pystr option"
  sf_tags :: "pystr list"
  sf_exclude_tags :: "pystr list"
  sf_since_days :: "int option"
  sf_tenant_id :: "pystr option"
  sf_include_superseded :: bool
  sf_include_stale_state :: bool

definition filter_is_empty :: "search_filter \<Rightarrow> bool" where
  "filter_is_empty f \<longleftrightarrow>
     sf_type f = None \<and> sf_project f = None \<and> sf_tags f = [] \<and> sf_exclude_tags f = []
     \<and> sf_since_days f = None \<and> sf_tenant_id f = None"

definition default_filter :: search_filter where
  "default_filter =
     \<lparr>sf_type = None, sf_project = None, sf_tags = [], sf_exclude_tags = [], sf_since_days = None,
      sf_tenant_id = None, sf_include_superseded = False, sf_include_stale_state = False\<rparr>"

record pipeline_options =
  po_query :: pystr
  po_top_k :: int
  po_allowed_ids :: "pystr list option"
  po_include_superseded :: bool
  po_include_stale_state :: bool
  po_temporal_now :: "py_datetime option"
  po_adapter :: pystr
  po_project :: "pystr option"

record recall_world =
  wo_index :: hub_index
  wo_ticks :: nat

section \<open>Candidates\<close>

definition attribute_error :: "pystr \<Rightarrow> py_exn" where
  "attribute_error name = AttributeError (lit ''NoneType has no attribute '' @ name)"

definition within_allowed :: "pystr list option \<Rightarrow> index_hit list \<Rightarrow> index_hit list" where
  "within_allowed allowed hits = (case allowed of None \<Rightarrow> hits | Some al \<Rightarrow> filter (\<lambda>h. fst h \<in> set al) hits)"

definition rrf_candidates ::
  "retriever \<Rightarrow> recall_env \<Rightarrow> hub_index \<Rightarrow> pystr \<Rightarrow> pystr list option \<Rightarrow> retrieved_item list result" where
  "rrf_candidates rv env ix query allowed =
     (let fts_query = expand_query (sq_unicode (ev_sql env)) query (rv_query_expansion rv) True
      in bindR (if 0 < rv_bm25_weight rv \<and> 0 < rv_bm25_top rv
                then bm25_search (ev_sql env) ix fts_query (rv_bm25_top rv) None None else Inr []) (\<lambda>bm25_hits.
         bindR (if rv_vector_weight rv \<le> 0 \<or> rv_vector_top rv \<le> 0 then Inr []
                else case rv_embedder rv of
                    None \<Rightarrow> Inl (attribute_error (lit ''embed''))
                  | Some em \<Rightarrow>
                      if em_degraded em then Inr []
                      else bindR (em_embed em query) (\<lambda>v. read_vectors env ix v (rv_vector_top rv) None None))
           (\<lambda>vec_hits.
             Inr (rrf_fusion (map fst (within_allowed allowed bm25_hits)) (map fst (within_allowed allowed vec_hits))
               (rv_rrf_k rv) (rv_bm25_weight rv) (rv_vector_weight rv)))))"

definition allowed_ids_for :: "recall_env \<Rightarrow> hub_index \<Rightarrow> search_filter \<Rightarrow> pystr list option" where
  "allowed_ids_for env ix f =
     (if filter_is_empty f \<and> sf_include_superseded f then None
      else filter_ids (ev_now env) ix
        \<lparr>if_type = sf_type f, if_project = sf_project f, if_tags = sf_tags f, if_exclude_tags = sf_exclude_tags f,
         if_since_days = sf_since_days f, if_tenant_id = sf_tenant_id f,
         if_include_superseded = sf_include_superseded f\<rparr>)"

text \<open>The ids are read by a statement, except where nothing is filtered.\<close>

definition read_allowed_ids ::
  "recall_env \<Rightarrow> hub_index \<Rightarrow> string \<Rightarrow> search_filter \<Rightarrow> pystr list option result" where
  "read_allowed_ids env ix place f =
     (if filter_is_empty f \<and> sf_include_superseded f then Inr None
      else bindR (read_index env place []) (\<lambda>_. Inr (allowed_ids_for env ix f)))"

definition read_superseded_ids :: "recall_env \<Rightarrow> hub_index \<Rightarrow> string \<Rightarrow> pystr list result" where
  "read_superseded_ids env ix place = bindR (read_index env place []) (\<lambda>_. Inr (get_superseded_ids ix))"

section \<open>The pipeline\<close>

definition candidate_stages ::
  "retriever \<Rightarrow> recall_env \<Rightarrow> hub_index \<Rightarrow> pipeline_options \<Rightarrow> (pystr \<times> stage) list" where
  "candidate_stages rv env ix o' =
     [(lit ''metadata_phrase'',
        metadata_phrase_boost env ix (po_query o') (po_allowed_ids o') (max (max (rv_bm25_top rv) (rv_vector_top rv)) 20)),
      (lit ''status_handoff_supplement'', supplement_status_handoff env ix (po_query o') (po_allowed_ids o'))]
     @ (if rv_rerank rv then [(lit ''cross_encoder_rerank'', rerank_pool env ix (po_query o') (rv_rerank_top rv))] else [])
     @ (if rv_apply_decay rv then [(lit ''decay'', apply_decay env ix)] else [])
     @ [(lit ''feedback_value'', apply_feedback_value env ix),
        (lit ''adaptive_learning'', apply_adaptive_learning env (po_adapter o') (po_project o')),
        (lit ''status_handoff_boost'', status_handoff_boost env ix (po_query o')),
        (lit ''runtime_evidence'', runtime_evidence_boost env ix (po_query o')),
        (lit ''temporal_state_filter'',
          filter_stale_temporal_state env ix (po_include_stale_state o') (po_temporal_now o')),
        (lit ''supersession_filter'', filter_md_superseded env (po_include_superseded o'))]
     @ (if rv_mmr_lambda rv \<noteq> None then [(lit ''mmr'', mmr_stage env ix (po_top_k o' * 2) (rv_mmr_lambda rv))] else [])
     @ (if rv_hopfield_expand rv then [(lit ''hopfield_expand'',
          expand_via_hopfield env ix (po_top_k o') (rv_hopfield_top rv) (rv_hopfield_beta rv) (po_allowed_ids o'))] else [])
     @ (if rv_graph_expand rv then [(lit ''graph_expand'',
          expand_via_graph env ix (po_top_k o') (rv_graph_depth rv) (po_allowed_ids o'))] else [])"

fun run_pipeline :: "(pystr \<times> stage) list \<Rightarrow> stage" where
  "run_pipeline [] candidates = Inr candidates"
| "run_pipeline ((name, stage) # stages) candidates =
     (if candidates = [] then Inr [] else bindR (stage candidates) (run_pipeline stages))"

text \<open>Rank and score of an id before and after a stage; the last position where ids repeat.\<close>

definition snapshot :: "retrieved_item list \<Rightarrow> (pystr \<times> int \<times> rat) list" where
  "snapshot candidates = rev (map (\<lambda>(n, c). (ri_id c, int n, ri_score c)) (enumerate 1 candidates))"

fun stage_effect :: "(int \<times> rat) option \<Rightarrow> (int \<times> rat) option \<Rightarrow> pystr" where
  "stage_effect None (Some a) = lit ''added''"
| "stage_effect (Some b) None = lit ''filtered''"
| "stage_effect None None = lit ''kept''"
| "stage_effect (Some (before_rank, before_score)) (Some (after_rank, after_score)) =
     (if before_score < after_score then lit ''boosted''
      else if after_score < before_score then lit ''demoted''
      else if after_rank \<noteq> before_rank then lit ''reranked'' else lit ''kept'')"

definition stage_entry ::
  "pystr \<Rightarrow> (pystr \<times> int \<times> rat) list \<Rightarrow> (pystr \<times> int \<times> rat) list \<Rightarrow> pystr \<Rightarrow> stage_trace" where
  "stage_entry name before after i =
     \<lparr>st_name = name, st_before_rank = map_option fst (map_of before i), st_after_rank = map_option fst (map_of after i),
      st_before_score = map_option snd (map_of before i), st_after_score = map_option snd (map_of after i),
      st_effect = stage_effect (map_of before i) (map_of after i)\<rparr>"

type_synonym traces = "pystr \<Rightarrow> stage_trace list"

definition add_traces ::
  "pystr \<Rightarrow> retrieved_item list \<Rightarrow> retrieved_item list \<Rightarrow> traces \<Rightarrow> traces" where
  "add_traces name before after traces =
     (\<lambda>i. if i \<in> set (hit_ids after) then traces i @ [stage_entry name (snapshot before) (snapshot after) i]
          else traces i)"

fun run_pipeline_with_trace ::
  "(pystr \<times> stage) list \<Rightarrow> retrieved_item list \<Rightarrow> traces \<Rightarrow> (retrieved_item list \<times> traces) result" where
  "run_pipeline_with_trace [] candidates traces = Inr (candidates, traces)"
| "run_pipeline_with_trace ((name, stage) # stages) candidates traces =
     (if candidates = [] then Inr ([], traces)
      else bindR (stage candidates) (\<lambda>after.
        run_pipeline_with_trace stages after (add_traces name candidates after traces)))"

definition signals_for_trace :: "retrieved_item \<Rightarrow> stage_trace list \<Rightarrow> pystr list" where
  "signals_for_trace initial stages =
     (if ri_bm25_rank initial \<noteq> None then [lit ''bm25''] else [])
     @ (if ri_vector_rank initial \<noteq> None then [lit ''vector''] else [])
     @ map (\<lambda>s. st_name s @ lit '':'' @ st_effect s) (filter (\<lambda>s. st_effect s \<noteq> lit ''kept'') stages)"

definition explained :: "retrieved_item list \<Rightarrow> traces \<Rightarrow> retrieved_item list \<Rightarrow> retrieved_item list" where
  "explained initial traces final =
     map (\<lambda>(rank, c).
        let first = (case List.find (\<lambda>d. ri_id d = ri_id c) (rev initial) of None \<Rightarrow> c | Some d \<Rightarrow> d)
        in c\<lparr>ri_trace := Some
             \<lparr>tr_initial_bm25_rank = ri_bm25_rank first, tr_initial_vector_rank = ri_vector_rank first,
              tr_initial_score = ri_score first, tr_final_rank = int rank, tr_final_score = ri_score c,
              tr_stages = traces (ri_id c), tr_signals = signals_for_trace first (traces (ri_id c))\<rparr>\<rparr>)
       (enumerate 1 final)"

text \<open>The pipeline, without the excluded ids, cut to \<open>top_k\<close>, with traces when asked for.\<close>

definition finish ::
  "(pystr \<times> stage) list \<Rightarrow> retrieved_item list \<Rightarrow> pystr list \<Rightarrow> int \<Rightarrow> bool \<Rightarrow> retrieved_item list result" where
  "finish stages candidates excluded top_k explain =
     (let cut = (\<lambda>cs. slice top_k (filter (\<lambda>c. ri_id c \<notin> set excluded) cs))
      in if explain then
           bindR (run_pipeline_with_trace stages candidates (\<lambda>_. [])) (\<lambda>(cs, traces).
             Inr (explained candidates traces (cut cs)))
         else bindR (run_pipeline stages candidates) (\<lambda>cs. Inr (cut cs)))"

definition record_results :: "retriever \<Rightarrow> recall_env \<Rightarrow> bool option \<Rightarrow> retrieved_item list \<Rightarrow> (recall_world, unit) prog" where
  "record_results rv env enabled results =
     (if (case enabled of None \<Rightarrow> rv_record_access rv | Some b \<Rightarrow> b) \<and> results \<noteq> [] then
        change (\<lambda>w. w\<lparr>wo_index := record_access_many (hit_ids results) (isoformat_utc (ev_now env)) (wo_index w)\<rparr>)
      else ret ())"

definition search_options :: "retriever \<Rightarrow> pystr \<Rightarrow> int \<Rightarrow> pystr list option \<Rightarrow> search_filter \<Rightarrow> pystr \<Rightarrow> pipeline_options" where
  "search_options rv query top_k allowed f adapter =
     \<lparr>po_query = query, po_top_k = top_k, po_allowed_ids = allowed,
      po_include_superseded = sf_include_superseded f, po_include_stale_state = sf_include_stale_state f,
      po_temporal_now = rv_temporal_now rv, po_adapter = adapter, po_project = sf_project f\<rparr>"

definition search ::
  "retriever \<Rightarrow> recall_env \<Rightarrow> pystr \<Rightarrow> int \<Rightarrow> search_filter option \<Rightarrow> bool \<Rightarrow> bool option \<Rightarrow> pystr
     \<Rightarrow> (recall_world, retrieved_item list) prog" where
  "search rv env query top_k filters explain recording adapter =
     bindP (asks wo_index) (\<lambda>ix.
     let f = (case filters of None \<Rightarrow> default_filter | Some f \<Rightarrow> f)
     in bindP (lift_result (read_allowed_ids env ix ''allowed_ids'' f)) (\<lambda>allowed.
       let opts = search_options rv query top_k allowed f adapter
       in if allowed = Some [] then ret []
          else bindP (lift_result (bindR (rrf_candidates rv env ix query allowed) (\<lambda>candidates.
                 finish (candidate_stages rv env ix opts) candidates [] top_k explain))) (\<lambda>final.
               bindP (record_results rv env recording final) (\<lambda>_. ret final))))"

section \<open>Routes\<close>

fun is_timeout :: "py_exn \<Rightarrow> bool" where
  "is_timeout (TimeoutError m) = True"
| "is_timeout e = False"

definition read_route_clock :: "(nat \<Rightarrow> rat) \<Rightarrow> (recall_world, rat) prog" where
  "read_route_clock clock =
     bindP (asks wo_ticks) (\<lambda>n. bindP (change (\<lambda>w. w\<lparr>wo_ticks := n + 1\<rparr>)) (\<lambda>_. ret (clock n)))"

definition raise_if_deadline_expired :: "(nat \<Rightarrow> rat) \<Rightarrow> rat option \<Rightarrow> (recall_world, unit) prog" where
  "raise_if_deadline_expired clock deadline =
     (case deadline of
        None \<Rightarrow> ret ()
      | Some d \<Rightarrow> bindP (read_route_clock clock) (\<lambda>t. check (t < d) (TimeoutError (lit ''route deadline expired''))))"

definition latency_ms :: "rat \<Rightarrow> rat \<Rightarrow> rat" where
  "latency_ms started now = fl64 (fl64 (now - started) * 1000)"

definition completed_route_trace :: "(nat \<Rightarrow> rat) \<Rightarrow> pystr \<Rightarrow> rat \<Rightarrow> nat \<Rightarrow> (recall_world, route_trace) prog" where
  "completed_route_trace clock route started found =
     bindP (read_route_clock clock) (\<lambda>t. lift_result (check_route_trace
       \<lparr>rt_route = route, rt_status = RS_ok, rt_latency_ms = latency_ms started t,
        rt_candidate_count = int found, rt_reason = RR_route_completed\<rparr>))"

definition failed_route_trace :: "(nat \<Rightarrow> rat) \<Rightarrow> pystr \<Rightarrow> rat \<Rightarrow> bool \<Rightarrow> (recall_world, route_trace) prog" where
  "failed_route_trace clock route started timeout =
     bindP (read_route_clock clock) (\<lambda>t. lift_result (check_route_trace
       \<lparr>rt_route = route, rt_status = (if timeout then RS_timeout else RS_error),
        rt_latency_ms = latency_ms started t, rt_candidate_count = 0,
        rt_reason = (if timeout then RR_route_timeout else RR_route_error)\<rparr>))"

definition skipped_route_trace :: "pystr \<Rightarrow> route_reason \<Rightarrow> route_trace" where
  "skipped_route_trace route reason =
     \<lparr>rt_route = route, rt_status = RS_skipped, rt_latency_ms = 0, rt_candidate_count = 0, rt_reason = reason\<rparr>"

text \<open>What a route gives: hits, the similarities of the semantic route, its trace, and whether it completed.\<close>

record route_outcome =
  ro_hits :: "pystr list"
  ro_similarities :: "(pystr \<times> rat) list"
  ro_traces :: "route_trace list"
  ro_completed :: bool

definition attempt_route ::
  "(nat \<Rightarrow> rat) \<Rightarrow> pystr \<Rightarrow> (recall_world, pystr list \<times> (pystr \<times> rat) list) prog \<Rightarrow> (recall_world, route_outcome) prog" where
  "attempt_route clock route body =
     bindP (read_route_clock clock) (\<lambda>started.
       try_catch
         (bindP body (\<lambda>(hits, sims). bindP (completed_route_trace clock route started (length hits)) (\<lambda>t.
            ret \<lparr>ro_hits = hits, ro_similarities = sims, ro_traces = [t], ro_completed = True\<rparr>)))
         (\<lambda>e. bindP (failed_route_trace clock route started (is_timeout e)) (\<lambda>t.
            ret \<lparr>ro_hits = [], ro_similarities = [], ro_traces = [t], ro_completed = False\<rparr>)))"

definition filter_route_hits :: "index_hit list \<Rightarrow> pystr list option \<Rightarrow> pystr list \<Rightarrow> pystr list" where
  "filter_route_hits hits allowed excluded =
     map fst (filter (\<lambda>h. fst h \<notin> set excluded) (within_allowed allowed hits))"

record filter_plan =
  fp_allowed_ids :: "pystr list option"
  fp_excluded_ids :: "pystr list"

definition or_none_list :: "'a list \<Rightarrow> 'a list option" where
  "or_none_list xs = (if xs = [] then None else Some xs)"

definition lexical_route ::
  "retriever \<Rightarrow> recall_env \<Rightarrow> filter_plan \<Rightarrow> pystr \<Rightarrow> (recall_world, pystr list \<times> (pystr \<times> rat) list) prog" where
  "lexical_route rv env plan fts_query =
     bindP (asks wo_index) (\<lambda>ix.
     bindP (lift_result (bm25_search (ev_sql env) ix fts_query (rv_bm25_top rv) (fp_allowed_ids plan)
              (or_none_list (fp_excluded_ids plan)))) (\<lambda>hits.
     ret (filter_route_hits hits (fp_allowed_ids plan) (fp_excluded_ids plan), [])))"

definition semantic_route ::
  "retriever \<Rightarrow> recall_env \<Rightarrow> embedder \<Rightarrow> (nat \<Rightarrow> rat) \<Rightarrow> rat option \<Rightarrow> filter_plan \<Rightarrow> pystr
     \<Rightarrow> (recall_world, pystr list \<times> (pystr \<times> rat) list) prog" where
  "semantic_route rv env em clock deadline plan query =
     bindP (raise_if_deadline_expired clock deadline) (\<lambda>_.
     bindP (lift_result (em_embed em query)) (\<lambda>v.
     bindP (raise_if_deadline_expired clock deadline) (\<lambda>_.
     bindP (asks wo_index) (\<lambda>ix.
     bindP (lift_result (read_vectors env ix v (rv_vector_top rv) (fp_allowed_ids plan)
              (or_none_list (fp_excluded_ids plan)))) (\<lambda>hits.
     bindP (raise_if_deadline_expired clock deadline) (\<lambda>_.
     let ids = filter_route_hits hits (fp_allowed_ids plan) (fp_excluded_ids plan);
         embeddings = get_embeddings ix ids
     in bindP (lift_result (read_ids env ''route_embeddings'' ids)) (\<lambda>_.
        bindP (raise_if_deadline_expired clock deadline) (\<lambda>_.
        let found = filter (\<lambda>i. map_of embeddings i \<noteq> None) ids
        in ret (found, rev (map (\<lambda>i. (i, cosine_sim (floats env) v (the (map_of embeddings i)))) found))))))))))"

definition routed_filter_plan ::
  "recall_env \<Rightarrow> hub_index \<Rightarrow> recall_request \<Rightarrow> search_filter \<Rightarrow> filter_plan result" where
  "routed_filter_plan env ix request f =
     (let hard = (case rq_project_scope request of
            Some s \<Rightarrow> if ps_hard_filter s then Some (ps_value s) else None | None \<Rightarrow> None)
      in if hard \<noteq> None \<and> sf_project f \<noteq> None \<and> sf_project f \<noteq> hard
           then Inr \<lparr>fp_allowed_ids = Some [], fp_excluded_ids = []\<rparr>
         else
           let g = (if hard \<noteq> None then f\<lparr>sf_project := hard\<rparr> else f)
           in if filter_is_empty g then
                bindR (if sf_include_superseded g then Inr [] else read_superseded_ids env ix ''superseded_ids'')
                  (\<lambda>excluded. Inr \<lparr>fp_allowed_ids = None, fp_excluded_ids = excluded\<rparr>)
              else
                bindR (read_allowed_ids env ix ''allowed_ids'' g)
                  (\<lambda>allowed. Inr \<lparr>fp_allowed_ids = allowed, fp_excluded_ids = []\<rparr>))"

definition scope_boost ::
  "recall_env \<Rightarrow> hub_index \<Rightarrow> project_scope option \<Rightarrow> retrieved_item list \<Rightarrow> retrieved_item list result" where
  "scope_boost env ix scope candidates =
     (case scope of
        Some s \<Rightarrow>
          if ps_hard_filter s \<or> candidates = [] then Inr candidates
          else bindR (read_ids env ''projects'' (hit_ids candidates)) (\<lambda>_.
            let projects = get_projects ix (hit_ids candidates)
            in Inr (by_score (map (\<lambda>c. if map_of projects (ri_id c) = Some (Some (ps_value s))
                 then c\<lparr>ri_score := fl64 (ri_score c * fl64 (105 / 100))\<rparr> else c) candidates)))
      | None \<Rightarrow> Inr candidates)"

section \<open>Project shadows\<close>

definition safe_shadow_project :: "(pystr \<Rightarrow> pystr) \<Rightarrow> pystr \<Rightarrow> pystr" where
  "safe_shadow_project sha256 project =
     (case project of
        c # cs \<Rightarrow>
          if ascii_alnum c \<and> length cs \<le> 63 \<and> list_all (\<lambda>x. ascii_alnum x \<or> x = 46 \<or> x = 95 \<or> x = 45) cs
          then project else lit ''project-sha256:'' @ sha256 project
      | [] \<Rightarrow> lit ''project-sha256:'' @ sha256 project)"

text \<open>Whether a hit of another project may be named.\<close>

definition shadow_visible ::
  "search_filter \<Rightarrow> pystr \<Rightarrow> (pystr option \<times> pystr \<times> pystr option) option \<Rightarrow> pystr option" where
  "shadow_visible f scope_value row =
     (case row of
        Some (project, sensitivity, tenant_id) \<Rightarrow>
          if \<not> given_text project \<or> project = Some scope_value
             \<or> sensitivity \<notin> {lit ''public'', lit ''internal''} \<or> tenant_id \<noteq> sf_tenant_id f
          then None else project
      | None \<Rightarrow> None)"

fun shadow_traces ::
  "(pystr \<Rightarrow> pystr) \<Rightarrow> (pystr \<Rightarrow> pystr option) \<Rightarrow> int \<Rightarrow> pystr list \<Rightarrow> project_shadow list \<Rightarrow> project_shadow list result" where
  "shadow_traces sha256 visible top_k [] traces = Inr traces"
| "shadow_traces sha256 visible top_k (i # is) traces =
     (case visible i of
        None \<Rightarrow> shadow_traces sha256 visible top_k is traces
      | Some project \<Rightarrow>
          bindR (check_project_shadow
            \<lparr>sh_candidate_id_digest = lit ''sha256:'' @ sha256 i, sh_project = safe_shadow_project sha256 project,
             sh_route = lit ''lexical_raw_fallback'', sh_reason = lit ''possible_project_mismatch'',
             sh_score_bucket = (if traces = [] then lit ''high'' else if length traces < 3 then lit ''medium'' else lit ''low'')\<rparr>)
            (\<lambda>t. if top_k \<le> int (length traces + 1) then Inr (traces @ [t])
                 else shadow_traces sha256 visible top_k is (traces @ [t])))"

definition project_shadow_traces ::
  "retriever \<Rightarrow> recall_env \<Rightarrow> (pystr \<Rightarrow> pystr) \<Rightarrow> hub_index \<Rightarrow> recall_request \<Rightarrow> search_filter \<Rightarrow> int
     \<Rightarrow> project_shadow list result" where
  "project_shadow_traces rv env sha256 ix request f top_k =
     (case rq_project_scope request of
        None \<Rightarrow> Inr []
      | Some s \<Rightarrow>
          if top_k \<le> 0 \<or> \<not> ps_hard_filter s \<or> ps_source s \<noteq> PS_explicit
             \<or> sf_project f \<noteq> None \<and> sf_project f \<noteq> Some (ps_value s) then Inr []
          else
            let g = f\<lparr>sf_project := None\<rparr>;
                caught = (\<lambda>allowed excluded.
                  bindR (bm25_search (ev_sql env) ix
                      (raw_fallback_bm25_query (sq_unicode (ev_sql env)) (rq_normalized_query request) (rv_query_expansion rv))
                      (min 50 (max 10 (top_k * 5))) allowed (or_none_list excluded)) (\<lambda>hits.
                    bindR (read_ids env ''shadow_metadata'' (map fst hits)) (\<lambda>_. Inr hits)))
            in
            bindR (if filter_is_empty g then Inr None else read_allowed_ids env ix ''shadow_allowed_ids'' g) (\<lambda>allowed.
            bindR (if filter_is_empty g \<and> \<not> sf_include_superseded g
                then read_superseded_ids env ix ''shadow_superseded_ids'' else Inr []) (\<lambda>excluded.
               if allowed = Some [] then Inr []
               else case caught allowed excluded of
                   Inl e \<Rightarrow> Inr []
                 | Inr hits \<Rightarrow>
                     shadow_traces sha256
                       (\<lambda>i. shadow_visible f (ps_value s) (map_of (get_shadow_metadata ix (map fst hits)) i))
                       top_k (map fst hits) [])))"

section \<open>Routed search\<close>

definition routed_empty :: "recall_request \<Rightarrow> route_trace list \<Rightarrow> project_shadow list \<Rightarrow> routed_result" where
  "routed_empty request traces shadow =
     \<lparr>rr_hits = [], rr_routes = traces, rr_admission = rq_admission request, rr_evidence_by_id = [],
      rr_project_shadow = shadow\<rparr>"

definition join_terms :: "pystr list \<Rightarrow> pystr" where "join_terms terms = join [32] terms"

definition gather_routes ::
  "retriever \<Rightarrow> recall_env \<Rightarrow> (nat \<Rightarrow> rat) \<Rightarrow> rat option \<Rightarrow> filter_plan \<Rightarrow> recall_request
     \<Rightarrow> (recall_world, route_outcome \<times> route_outcome \<times> route_outcome) prog" where
  "gather_routes rv env clock deadline plan request =
     (let u = sq_unicode (ev_sql env);
          nothing = (\<lambda>traces. \<lparr>ro_hits = [], ro_similarities = [], ro_traces = traces, ro_completed = False\<rparr>)
      in bindP (if rq_lexical_terms request \<noteq> [] then
                  attempt_route clock (lit ''lexical_terms'')
                    (lexical_route rv env plan (expand_query u (join_terms (rq_lexical_terms request)) (rv_query_expansion rv) True))
                else ret (nothing [skipped_route_trace (lit ''lexical_terms'') RR_lexical_terms_empty])) (\<lambda>terms.
         bindP (case rv_embedder rv of
                  Some em \<Rightarrow>
                    if \<not> em_degraded em \<and> 0 < rv_vector_weight rv \<and> 0 < rv_vector_top rv then
                      attempt_route clock (lit ''semantic_raw'')
                        (semantic_route rv env em clock deadline plan (rq_normalized_query request))
                    else ret (nothing [skipped_route_trace (lit ''semantic_raw'') RR_semantic_not_ready])
                | None \<Rightarrow> ret (nothing [skipped_route_trace (lit ''semantic_raw'') RR_semantic_not_ready])) (\<lambda>semantic.
         bindP (if \<not> ro_completed semantic then
                  attempt_route clock (lit ''lexical_raw_fallback'')
                    (lexical_route rv env plan
                      (raw_fallback_bm25_query u (rq_normalized_query request) (rv_query_expansion rv)))
                else ret (nothing [])) (\<lambda>raw.
         ret (terms, semantic, raw)))))"

definition routed_options :: "retriever \<Rightarrow> recall_request \<Rightarrow> search_filter \<Rightarrow> int \<Rightarrow> pystr list option \<Rightarrow> pipeline_options" where
  "routed_options rv request f top_k allowed =
     \<lparr>po_query = rq_normalized_query request, po_top_k = top_k, po_allowed_ids = allowed,
      po_include_superseded = sf_include_superseded f, po_include_stale_state = sf_include_stale_state f,
      po_temporal_now = rv_temporal_now rv, po_adapter = rq_adapter request,
      po_project = (case rq_project_scope request of Some s \<Rightarrow> Some (ps_value s) | None \<Rightarrow> sf_project f)\<rparr>"

definition search_routes ::
  "retriever \<Rightarrow> recall_env \<Rightarrow> (pystr \<Rightarrow> pystr) \<Rightarrow> (nat \<Rightarrow> rat) \<Rightarrow> rat option \<Rightarrow> recall_request \<Rightarrow> search_filter \<Rightarrow> int
     \<Rightarrow> bool \<Rightarrow> bool option \<Rightarrow> bool \<Rightarrow> int \<Rightarrow> filter_plan \<Rightarrow> hub_index \<Rightarrow> (recall_world, routed_result) prog" where
  "search_routes rv env sha256 clock deadline request f top_k explain recording shadow shadow_top_k plan ix =
     bindP (gather_routes rv env clock deadline plan request) (\<lambda>(terms, semantic, raw).
     let fused = fuse_routes (ro_hits terms) (ro_hits semantic) (ro_hits raw) (ro_similarities semantic) (rv_rrf_k rv);
         opts = routed_options rv request f top_k (fp_allowed_ids plan)
     in bindP (lift_result (scope_boost env ix (rq_project_scope request) (fst fused))) (\<lambda>candidates.
        bindP (lift_result (finish (candidate_stages rv env ix opts) candidates (fp_excluded_ids plan) top_k explain)) (\<lambda>final.
        bindP (record_results rv env recording final) (\<lambda>_.
        bindP (if shadow \<and> final = []
               then bindP (asks wo_index) (\<lambda>ix. lift_result (project_shadow_traces rv env sha256 ix request f shadow_top_k))
               else ret []) (\<lambda>shadows.
        ret \<lparr>rr_hits = final, rr_routes = ro_traces terms @ ro_traces semantic @ ro_traces raw,
             rr_admission = rq_admission request,
             rr_evidence_by_id = List.map_filter (\<lambda>c. map_option (Pair (ri_id c)) (map_of (snd fused) (ri_id c))) final,
             rr_project_shadow = shadows\<rparr>)))))"

definition search_routed ::
  "retriever \<Rightarrow> recall_env \<Rightarrow> (pystr \<Rightarrow> pystr) \<Rightarrow> (nat \<Rightarrow> rat) \<Rightarrow> rat option \<Rightarrow> recall_request \<Rightarrow> int
     \<Rightarrow> search_filter option \<Rightarrow> bool \<Rightarrow> bool option \<Rightarrow> bool \<Rightarrow> int \<Rightarrow> (recall_world, routed_result) prog" where
  "search_routed rv env sha256 clock deadline request top_k filters explain recording shadow shadow_top_k =
     bindP (if deadline = None then ret 0 else read_route_clock clock) (\<lambda>_.
     bindP (check (0 \<le> top_k) (ValueError (lit ''top_k must be non-negative''))) (\<lambda>_.
     if top_k = 0 then ret (routed_empty request [] [])
     else if \<not> ra_allowed (rq_admission request) then
       ret (routed_empty request (map (\<lambda>r. skipped_route_trace r RR_admission_rejected)
         [lit ''lexical_terms'', lit ''semantic_raw'', lit ''lexical_raw_fallback'']) [])
     else bindP (asks wo_index) (\<lambda>ix.
       let f = (case filters of None \<Rightarrow> default_filter | Some f \<Rightarrow> f)
       in bindP (lift_result (routed_filter_plan env ix request f)) (\<lambda>plan.
          if fp_allowed_ids plan = Some [] then
            bindP (if shadow then lift_result (project_shadow_traces rv env sha256 ix request f shadow_top_k) else ret [])
              (\<lambda>shadows. ret (routed_empty request [] shadows))
          else search_routes rv env sha256 clock deadline request f top_k explain recording shadow shadow_top_k plan ix))))"

section \<open>Packing within a budget\<close>

record pack_entry =
  pe_full :: pystr
  pe_summary :: pystr

datatype pack_tier = Tier_full | Tier_summary

fun pack_within_budget ::
  "(pystr \<Rightarrow> int) \<Rightarrow> int \<Rightarrow> int \<Rightarrow> pack_entry list \<Rightarrow> (pack_entry \<times> pystr \<times> pack_tier) list" where
  "pack_within_budget tokens max_tokens used [] = []"
| "pack_within_budget tokens max_tokens used (e # es) =
     (if used + tokens (pe_full e) \<le> max_tokens
        then (e, pe_full e, Tier_full) # pack_within_budget tokens max_tokens (used + tokens (pe_full e)) es
      else if used + tokens (pe_summary e) \<le> max_tokens then [(e, pe_summary e, Tier_summary)] else [])"

end
