(* ===== verification/LearningLaws.thy ===== *)
theory LearningLaws imports AdaptiveLearning begin

text \<open>
  Properties of the learned profiles: every weight is bounded whatever a profile file holds, a
  refresh activates nothing that regresses on the replay, and a rollback restores the active profile an
  activation replaced when that profile was readable and not empty.
\<close>

section \<open>Bounds\<close>

lemma fl64_quarters: "fl64 (3 / 4) = 3 / 4" "fl64 (5 / 4) = 5 / 4" "fl64 1 = 1"
proof -
  have "(3 / 4 :: rat) = of_int 3 * 2 powi (- 2)" "(5 / 4 :: rat) = of_int 5 * 2 powi (- 2)"
    by (simp_all add: power_int_def power_one_over)
  then show "fl64 (3 / 4) = 3 / 4" "fl64 (5 / 4) = 5 / 4"
    using fl64_exact_pos [of 3 "- 2"] fl64_exact_pos [of 5 "- 2"] by simp_all
  show "fl64 1 = 1" using fl64_of_int [of 1] by simp
qed

lemma usable_weight_bounds:
  "usable_weight kv = Some (i, w) \<Longrightarrow> min_multiplier \<le> w \<and> w \<le> max_multiplier \<and> i = fst kv \<and> valid_item_id i"
  by (auto simp: usable_weight_def split: field_value.splits if_splits)

lemma weights_in_rows_bounds:
  "(i, w) \<in> set (weights_in_rows repr_of adapter project rows) \<Longrightarrow> min_multiplier \<le> w \<and> w \<le> max_multiplier"
proof (induction rows)
  case (Cons row rows)
  then show ?case
    by (auto simp: map_filter_def split: field_value.splits if_splits dest: usable_weight_bounds)
qed simp

lemma weights_for_bounds:
  "(i, w) \<in> set (weights_for repr_of profile adapter project) \<Longrightarrow> min_multiplier \<le> w \<and> w \<le> max_multiplier"
  by (auto simp: weights_for_def dest: weights_in_rows_bounds split: field_value.splits)

lemma weight_of_bounds:
  "min_multiplier \<le> weight_of (weights_for r p a q) (weights_for r p a None) i
   \<and> weight_of (weights_for r p a q) (weights_for r p a None) i \<le> max_multiplier"
  by (auto simp: weight_of_def min_multiplier_def max_multiplier_def split: option.splits
      dest!: map_of_SomeD weights_for_bounds)

lemma learning_ids: "mset (hit_ids (apply_learning_profile_weight r cs p a q)) = mset (hit_ids cs)"
  unfolding apply_learning_profile_weight_def Let_def
  by (simp only: if_distrib [of hit_ids] if_distrib [of mset] hit_ids_by_score list.map_comp)
    (simp add: comp_def)

lemma learning_scores:
  assumes "c' \<in> set (apply_learning_profile_weight r cs p a q)"
  shows "\<exists>c \<in> set cs. \<exists>w. min_multiplier \<le> w \<and> w \<le> max_multiplier
    \<and> (c' = c \<or> c' = c\<lparr>ri_score := fl64 (ri_score c * w)\<rparr>)"
proof (cases "cs = [] \<or> weights_for r p a q = [] \<and> weights_for r p a None = []")
  case True
  then show ?thesis using assms weight_of_bounds [of r p a q]
    by (auto simp: apply_learning_profile_weight_def)
next
  case False
  then obtain c where "c \<in> set cs"
      "c' = c\<lparr>ri_score := fl64 (ri_score c * weight_of (weights_for r p a q) (weights_for r p a None) (ri_id c))\<rparr>"
    using assms by (auto simp: apply_learning_profile_weight_def Let_def)
  then show ?thesis using weight_of_bounds by blast
qed

text \<open>Whatever a profile file holds, the learned ranking keeps the candidates it is given and moves the
  score of each by a factor between 3/4 and 5/4.\<close>

theorem learned_ranking_is_bounded:
  "mset (hit_ids (apply_learning_profile_weight repr_of candidates profile adapter project)) = mset (hit_ids candidates)
   \<and> (\<forall>c' \<in> set (apply_learning_profile_weight repr_of candidates profile adapter project).
        \<exists>c \<in> set candidates. \<exists>w. 3 / 4 \<le> w \<and> w \<le> 5 / 4
          \<and> (c' = c \<or> c' = c\<lparr>ri_score := fl64 (ri_score c * w)\<rparr>))"
  using learning_ids learning_scores by (simp add: min_multiplier_def max_multiplier_def)

lemma learned_ranking_is_bounded_witness:
  "mset (hit_ids (apply_learning_profile_weight (\<lambda>_. []) [hit (lit ''mem-a'') 1 None None]
      [(lit ''profiles'', FList [FDict [(lit ''adapter'', FStr (lit ''codex'')), (lit ''weights'', FDict [(lit ''mem-a'', FReal (5 / 4))])]])]
      (lit ''codex'') None)) = {# lit ''mem-a'' #}"
  by (simp only: learned_ranking_is_bounded list.map hit_simps mset.simps)

lemma round_thousandths:
  assumes "3 / 4 \<le> x" and "x \<le> 5 / 4"
  shows "3 / 4 \<le> round_digits 3 x \<and> round_digits 3 x \<le> 5 / 4"
proof -
  have "(of_int 750 :: rat) \<le> x * 10 ^ 3" "x * 10 ^ 3 \<le> of_int 1250" using assms by simp_all
  then have "750 \<le> round_even (x * 10 ^ 3)" "round_even (x * 10 ^ 3) \<le> 1250"
    by (blast intro: round_even_ge round_even_le)+
  then have "(of_int 750 :: rat) \<le> of_int (round_even (x * 10 ^ 3))" "of_int (round_even (x * 10 ^ 3)) \<le> (of_int 1250 :: rat)"
    by (simp_all only: of_int_le_iff)
  then have "3 / 4 \<le> (of_int (round_even (x * 10 ^ 3)) / 10 ^ 3 :: rat)" "of_int (round_even (x * 10 ^ 3)) / 10 ^ 3 \<le> (5 / 4 :: rat)"
    by simp_all
  then show ?thesis using fl64_mono fl64_quarters by (fastforce simp: round_digits_def)
qed

lemma feedback_multiplier_bounds: "3 / 4 \<le> feedback_multiplier a r \<and> feedback_multiplier a r \<le> 5 / 4"
  unfolding feedback_multiplier_def Let_def
  by (rule round_thousandths) (simp_all add: min_multiplier_def max_multiplier_def)

section \<open>Refresh and rollback\<close>

lemma loaded_again:
  "load_profile_file f = Inr d \<Longrightarrow> load_profile_file (Some (Stored (FDict d))) = Inr d"
  by (auto simp: load_profile_file_def fget_def split: option.splits stored_json.splits field_value.splits if_splits)

lemma refresh_cases:
  assumes "refresh_learning_profile repr_of now fs = (r, fs')"
  obtains (failed) e where "r = Inl e" "fs' = fs" "load_profile_file (lf_active fs) = Inl e"
  | (ran) current report where "r = Inr report" "load_profile_file (lf_active fs) = Inr current"
      "report = refresh_report repr_of (evaluation_cases fs) current (build_candidate repr_of now fs)"
      "fs' = (if lr_status report = lit ''activated''
          then activate repr_of (evaluation_cases fs) current (build_candidate repr_of now fs) fs else fs)
        \<lparr>lf_report := Some report\<rparr>"
  using assms by (auto simp: refresh_learning_profile_def Let_def split: sum.splits)

lemma candidate_evaluation:
  "load_profile_file (Some (Stored (FDict (fset (build_candidate repr_of now fs) ''evaluation'' v))))
     = Inr (fset (build_candidate repr_of now fs) ''evaluation'' v)"
  "profile_signature (fset candidate ''evaluation'' v) = profile_signature candidate"
  "fset (build_candidate repr_of now fs) ''evaluation'' v \<noteq> []"
proof -
  show "profile_signature (fset candidate ''evaluation'' v) = profile_signature candidate"
    by (simp add: profile_signature_def)
qed (simp_all add: load_profile_file_def fset_def build_candidate_def Let_def fget_def lit_def)

lemma activation_gate:
  assumes "lr_status (refresh_report repr_of cases current candidate) = lit ''activated''"
  shows "cases \<noteq> [] \<and> \<not> regresses (evaluate_profile repr_of cases candidate) (evaluate_profile repr_of cases current)"
  using assms by (auto simp: refresh_report_def Let_def refresh_status_def lit_def split: if_splits)

lemma rollback_restores:
  assumes "lf_previous fs \<noteq> None" and "load_profile_file (lf_previous fs) = Inr d"
  shows "fst (rollback_learning_profile fs) = Inr True"
    and "load_profile_file (lf_active (snd (rollback_learning_profile fs))) = Inr d"
  using assms(1) by (auto simp: rollback_learning_profile_def assms(2) loaded_again [OF assms(2)])

text \<open>C36. A refresh raises only when the active profile file raises an error its reader does not catch, and
  then it changes nothing. Otherwise it changes the active profile only by activating a candidate that
  was replayed on at least one case and did not regress there, in first ranks or in reciprocal ranks;
  in every other case the active and the saved profile stay. When the active profile that an
  activation replaces was read and is not empty, it is saved, and a rollback right after returns True
  and restores it. When it is missing, unreadable or empty, nothing is saved: the snapshot stays
  whatever it was.\<close>

theorem refresh_is_gated_and_reversible:
  assumes "refresh_learning_profile repr_of now fs = (r, fs')"
  shows "(case r of
      Inl e \<Rightarrow> fs' = fs \<and> load_profile_file (lf_active fs) = Inl e
    | Inr report \<Rightarrow> \<exists>current. load_profile_file (lf_active fs) = Inr current
        \<and> (lr_status report \<noteq> lit ''activated'' \<longrightarrow>
            lf_active fs' = lf_active fs \<and> lf_previous fs' = lf_previous fs)
        \<and> (lr_status report = lit ''activated'' \<longrightarrow>
            0 < lr_evidence_cases report
            \<and> lr_baseline_recall_at_1 report \<le> fl64 (lr_candidate_recall_at_1 report + tolerance)
            \<and> lr_baseline_mrr report \<le> fl64 (lr_candidate_mrr report + tolerance)
            \<and> (\<exists>active. load_profile_file (lf_active fs') = Inr active \<and> active \<noteq> []
                \<and> profile_signature active = profile_signature (build_candidate repr_of now fs))
            \<and> (if current \<noteq> [] then
                 fst (rollback_learning_profile fs') = Inr True
                 \<and> load_profile_file (lf_active (snd (rollback_learning_profile fs'))) = Inr current
               else lf_previous fs' = lf_previous fs)))"
  using assms
proof (cases rule: refresh_cases)
  case failed
  then show ?thesis by simp
next
  case (ran current report)
  let ?candidate = "build_candidate repr_of now fs"
  have "lf_active fs \<noteq> None" if "current \<noteq> []"
    using that ran(2) by (cases "lf_active fs") (auto simp: load_profile_file_def)
  then have saved: "lf_previous fs' = (if current \<noteq> [] then lf_active fs else lf_previous fs)"
    if "lr_status report = lit ''activated''"
    using that by (auto simp: ran(4) activate_def)
  have restored: "fst (rollback_learning_profile fs') = Inr True"
      "load_profile_file (lf_active (snd (rollback_learning_profile fs'))) = Inr current"
    if "lr_status report = lit ''activated''" "current \<noteq> []"
    using that saved ran(2) \<open>current \<noteq> [] \<Longrightarrow> lf_active fs \<noteq> None\<close> by (auto intro!: rollback_restores)
  have gate: "0 < lr_evidence_cases report
      \<and> lr_baseline_recall_at_1 report \<le> fl64 (lr_candidate_recall_at_1 report + tolerance)
      \<and> lr_baseline_mrr report \<le> fl64 (lr_candidate_mrr report + tolerance)"
    if "lr_status report = lit ''activated''"
    using activation_gate [OF that [unfolded ran(3)]]
    by (simp add: ran(3) refresh_report_def Let_def regresses_def not_less)
  have active: "lr_status report = lit ''activated'' \<Longrightarrow>
      \<exists>v. load_profile_file (lf_active fs') = Inr (fset ?candidate ''evaluation'' v)"
    by (auto simp: ran(4) activate_def candidate_evaluation(1))
  show ?thesis
    using ran(2) gate active restored saved candidate_evaluation(2,3)
    by (auto simp: ran(1)) (simp_all add: ran(4))
qed

definition sample_learning :: learn_files where
  "sample_learning =
     \<lparr>lf_active = Some (Stored (FDict [(lit ''schema_version'', FInt 1), (lit ''profiles'', FNone)])),
      lf_previous = None, lf_report = None,
      lf_outcomes = [\<lparr>lo_outcome_id = lit ''o1'', lo_adapter = lit ''codex'', lo_project = None,
        lo_cohort_id = Some (lit ''c1'')\<rparr>],
      lf_applications = [\<lparr>la_outcome_id = lit ''o1'', la_applied = True, la_adopted_ids = [lit ''mem-a''],
        la_rejected_ids = []\<rparr>],
      lf_cohorts = [\<lparr>lc_cohort_id = lit ''c1'', lc_item_ids = [lit ''mem-a''],
        lc_pack_metrics = Some (FDict [(lit ''retrieval_trace'',
          FList [FDict [(lit ''final_score'', FReal (1 / 2))]])])\<rparr>]\<rparr>"

lemma sample_active:
  "load_profile_file (lf_active sample_learning)
     = Inr [(lit ''schema_version'', FInt 1), (lit ''profiles'', FNone)]"
  by (simp add: sample_learning_def load_profile_file_def fget_def lit_def)

lemma sample_refresh_activates:
  "\<exists>report fs'. refresh_learning_profile (\<lambda>_. []) 0 sample_learning = (Inr report, fs')
     \<and> lr_status report = lit ''activated''"
proof -
  have cases: "evaluation_cases sample_learning =
      [(hd (lf_outcomes sample_learning), [(lit ''mem-a'', 1 / 2)], [lit ''mem-a''])]"
    by (simp add: evaluation_cases_def evaluation_case_def sample_learning_def outcome_by_id_def cohort_by_id_def
        given_text_def cohort_scores_def fget_def trace_score_def valid_item_id_def learned_letter_def
        pre_learning_score_def lit_def List.map_filter_simps)
  have ranking: "map (\<lambda>c. first_rank 1 (snd (snd c)) (replay_ranking (\<lambda>_. []) profile c)) (evaluation_cases sample_learning)
      = [Some 1]" for profile
    by (simp add: cases replay_ranking_def Let_def)
  have "round_digits 6 1 = 1" using fl64_quarters(3) round_even_of_int [of 1000000] by (simp add: round_digits_def)
  then have eval: "evaluate_profile (\<lambda>_. []) (evaluation_cases sample_learning) profile = \<lparr>el_recall_at_1 = 1, el_mrr = 1\<rparr>" for profile
    using ranking [of profile] by (simp add: evaluate_profile_def Let_def cases fl64_quarters(3))
  have "1 \<le> fl64 (1 + tolerance)" using fl64_mono [of 1 "1 + tolerance"] fl64_nonneg [of "1 / 10 ^ 12"]
    by (simp add: tolerance_def fl64_quarters(3))
  moreover have "\<not> py_eq (profile_signature (build_candidate (\<lambda>_. []) 0 sample_learning))
      (profile_signature [(lit ''schema_version'', FInt 1), (lit ''profiles'', FNone)])"
    by (simp add: profile_signature_def build_candidate_def Let_def fget_def sample_learning_def lit_def)
  ultimately show ?thesis
    by (simp add: refresh_learning_profile_def sample_active Let_def refresh_report_def refresh_status_def eval regresses_def)
      (simp add: cases)
qed

lemma refresh_is_gated_and_reversible_witness:
  "\<exists>report fs'. refresh_learning_profile (\<lambda>_. []) 0 sample_learning = (Inr report, fs')
   \<and> lr_status report = lit ''activated'' \<and> 0 < lr_evidence_cases report
   \<and> load_profile_file (lf_active (snd (rollback_learning_profile fs')))
     = Inr [(lit ''schema_version'', FInt 1), (lit ''profiles'', FNone)]"
proof -
  obtain report fs' where "refresh_learning_profile (\<lambda>_. []) 0 sample_learning = (Inr report, fs')"
      "lr_status report = lit ''activated''"
    using sample_refresh_activates by blast
  with refresh_is_gated_and_reversible [OF this(1)] sample_active show ?thesis by auto
qed

end
