(* ===== verification/StageLaws.thy ===== *)
theory StageLaws imports RecallStages LearningLaws begin

text \<open>
  What the stages of the pipeline keep. A candidate stage keeps ids distinct and adds only permitted
  ids; a selecting stage adds none; a keeping stage drops none, and an adding stage only appends; a
  rescoring stage keeps exactly the ids it is given. Every stage of the pipeline is an interpretation.
\<close>

definition permitted :: "pystr list option \<Rightarrow> pystr \<Rightarrow> bool" where
  "permitted allowed i \<longleftrightarrow> (case allowed of None \<Rightarrow> True | Some al \<Rightarrow> i \<in> set al)"

locale candidate_stage =
  fixes stage :: stage and allowed :: "pystr list option"
  assumes keeps_distinct: "stage cs = Inr cs' \<Longrightarrow> distinct (hit_ids cs) \<Longrightarrow> distinct (hit_ids cs')"
    and adds_permitted: "stage cs = Inr cs' \<Longrightarrow> i \<in> set (hit_ids cs') \<Longrightarrow> i \<in> set (hit_ids cs) \<or> permitted allowed i"

text \<open>The ids of a list of candidates, with multiplicities.\<close>

definition ids_mset :: "retrieved_item list \<Rightarrow> pystr multiset" where
  "ids_mset cs = mset (hit_ids cs)"

lemma set_ids_mset [simp]: "set_mset (ids_mset cs) = set (hit_ids cs)"
  by (simp add: ids_mset_def)

lemma ids_mset_simps [simp]:
  "ids_mset [] = {#}" "ids_mset (by_score cs) = ids_mset cs" "ids_mset (cs @ ds) = ids_mset cs + ids_mset ds"
  by (simp_all add: ids_mset_def)

lemma ids_mset_cong: "hit_ids cs = hit_ids ds \<Longrightarrow> ids_mset cs = ids_mset ds"
  by (simp only: ids_mset_def)

lemma ids_mset_map: "(\<And>c. ri_id (f c) = ri_id c) \<Longrightarrow> ids_mset (map f cs) = ids_mset cs"
  by (rule ids_mset_cong) simp

lemma ids_mset_mono: "mset cs \<subseteq># mset ds \<Longrightarrow> ids_mset cs \<subseteq># ids_mset ds"
  by (simp add: ids_mset_def image_mset_subseteq_mono)

lemma ids_mset_filter: "ids_mset (filter P cs) \<subseteq># ids_mset cs"
  by (rule ids_mset_mono) (simp add: multiset_filter_subset)

lemma ids_mset_distinct:
  assumes "ids_mset cs' \<subseteq># ids_mset cs" and "distinct (hit_ids cs)"
  shows "distinct (hit_ids cs')"
proof -
  have "count (mset (hit_ids cs)) i = (if i \<in> set (hit_ids cs) then 1 else 0)" for i
    using assms(2) unfolding distinct_count_atmost_1 by (rule spec)
  then have le: "count (ids_mset cs') i \<le> 1" for i
    using mset_subset_eq_count [OF assms(1), of i] unfolding ids_mset_def
    by (metis le_trans le_zero_eq nle_le zero_le_one)
  have "distinct xs" if "\<And>i. count (mset xs) i \<le> 1" for xs :: "pystr list"
    using that
  proof (induction xs)
    case (Cons x xs)
    have "count (mset xs) i \<le> 1" for i by (rule order_trans [OF _ Cons.prems [of i]]) simp
    moreover have "x \<notin> set xs" using Cons.prems [of x] by (simp add: count_list_0_iff flip: count_mset_0_iff)
    ultimately show ?case using Cons.IH by simp
  qed simp
  from this [of "hit_ids cs'"] le show ?thesis by (simp only: ids_mset_def)
qed

locale selecting_stage =
  fixes stage :: stage
  assumes selects: "stage cs = Inr cs' \<Longrightarrow> ids_mset cs' \<subseteq># ids_mset cs"
begin

lemma selects_ids: "stage cs = Inr cs' \<Longrightarrow> set (hit_ids cs') \<subseteq> set (hit_ids cs)"
  using set_mset_mono [OF selects] by (simp only: set_ids_mset)

lemma selects_distinct: "stage cs = Inr cs' \<Longrightarrow> distinct (hit_ids cs) \<Longrightarrow> distinct (hit_ids cs')"
  using selects by (rule ids_mset_distinct)

end

sublocale selecting_stage \<subseteq> candidate_stage stage allowed for allowed
  by unfold_locales (use selects_distinct selects_ids in blast)+

locale rescoring_stage =
  fixes stage :: stage
  assumes keeps: "stage cs = Inr cs' \<Longrightarrow> ids_mset cs' = ids_mset cs"

sublocale rescoring_stage \<subseteq> selecting_stage stage
  by unfold_locales (simp add: keeps)

locale keeping_stage =
  fixes stage :: stage
  assumes keeps_ids: "stage cs = Inr cs' \<Longrightarrow> set (hit_ids cs) \<subseteq> set (hit_ids cs')"

sublocale rescoring_stage \<subseteq> keeping_stage stage
proof
  fix cs cs' assume "stage cs = Inr cs'"
  from arg_cong [OF keeps [OF this], of set_mset] show "set (hit_ids cs) \<subseteq> set (hit_ids cs')"
    by (simp only: set_ids_mset order_refl)
qed

locale adding_stage =
  fixes stage :: stage and allowed :: "pystr list option"
  assumes adds: "stage cs = Inr cs' \<Longrightarrow>
    \<exists>new. mset (hit_ids cs') = mset (hit_ids cs @ new) \<and> distinct new
      \<and> (\<forall>i \<in> set new. i \<notin> set (hit_ids cs) \<and> permitted allowed i)"

sublocale adding_stage \<subseteq> candidate_stage stage allowed
proof
  fix cs cs' assume "stage cs = Inr cs'"
  from adds [OF this] obtain new where new: "mset (hit_ids cs') = mset (hit_ids cs @ new)" "distinct new"
      "\<forall>i \<in> set new. i \<notin> set (hit_ids cs) \<and> permitted allowed i" by blast
  show "distinct (hit_ids cs) \<Longrightarrow> distinct (hit_ids cs')"
    using mset_eq_imp_distinct_iff [OF new(1)] new(2,3) by auto
  fix i assume "i \<in> set (hit_ids cs')"
  then have "i \<in> set (hit_ids cs @ new)" using mset_eq_setD [OF new(1)] by simp
  then show "i \<in> set (hit_ids cs) \<or> permitted allowed i" using new(3) by auto
qed

sublocale adding_stage \<subseteq> keeping_stage stage
proof
  fix cs cs' assume "stage cs = Inr cs'"
  from adds [OF this] obtain new where new: "mset (hit_ids cs') = mset (hit_ids cs @ new)" by blast
  show "set (hit_ids cs) \<subseteq> set (hit_ids cs')" using mset_eq_setD [OF new] by simp
qed

section \<open>Rescoring stages\<close>

lemma multiplied_ids: "ids_mset (multiplied m cs) = ids_mset cs"
  by (simp add: multiplied_def ids_mset_map)

interpretation handoff_boost: rescoring_stage "status_handoff_boost env ix query" for env ix query
  by unfold_locales (auto simp: status_handoff_boost_def bindR_Inr_iff multiplied_ids split: if_splits)

interpretation runtime_boost: rescoring_stage "runtime_evidence_boost env ix query" for env ix query
  by unfold_locales (auto simp: runtime_evidence_boost_def Let_def bindR_Inr_iff multiplied_ids split: if_splits)

interpretation learning: rescoring_stage "apply_adaptive_learning env adapter project" for env adapter project
  by unfold_locales (auto simp: apply_adaptive_learning_def bindR_Inr_iff ids_mset_def learning_ids simp del: mset_map split: if_splits)

interpretation decay: rescoring_stage "apply_decay env ix" for env ix
  by unfold_locales (auto simp: apply_decay_def bindR_Inr_iff Let_def decayed_def intro!: ids_mset_map split: option.splits)

interpretation feedback_value: rescoring_stage "apply_feedback_value env ix" for env ix
  by unfold_locales (auto simp: apply_feedback_value_def bindR_Inr_iff Let_def intro!: ids_mset_map split: option.splits)

section \<open>Selecting stages\<close>

interpretation temporal: selecting_stage "filter_stale_temporal_state env ix include now" for env ix "include" now
  by unfold_locales (auto simp: filter_stale_temporal_state_def bindR_Inr_iff ids_mset_filter split: if_splits)

interpretation superseded: selecting_stage "filter_md_superseded env include" for env "include"
  by unfold_locales (auto simp: filter_md_superseded_def bindR_Inr_iff ids_mset_filter split: if_splits)

interpretation mmr: selecting_stage "mmr_stage env ix top_k lam" for env ix top_k lam
  by unfold_locales (auto simp: mmr_stage_def bindR_Inr_iff intro!: ids_mset_mono mmr_rerank_mset)

lemma zip_selects: "ids_mset (map fst (zip cs ys)) \<subseteq># ids_mset cs"
proof -
  have "map fst (zip cs ys) = take (length ys) cs" by (induction cs ys rule: list_induct2') auto
  then show ?thesis by (metis append_take_drop_id ids_mset_simps(3) mset_subset_eq_add_left)
qed

lemma count_ids_filter:
  "count (ids_mset (filter (\<lambda>c. P (ri_id c)) cs)) i = (if P i then count (ids_mset cs) i else 0)"
  by (induction cs) (auto simp: ids_mset_def)

lemma add_missing_selects:
  assumes "ids_mset scored \<subseteq># ids_mset cs"
  shows "ids_mset (scored @ filter (\<lambda>c. ri_id c \<notin> set (hit_ids scored)) cs) \<subseteq># ids_mset cs"
proof (rule mset_subset_eqI)
  fix i
  have "count (ids_mset scored) i = 0" if "i \<notin> set (hit_ids scored)"
    using that by (simp only: not_in_iff [symmetric] set_ids_mset simp_thms)
  then show "count (ids_mset (scored @ filter (\<lambda>c. ri_id c \<notin> set (hit_ids scored)) cs)) i \<le> count (ids_mset cs) i"
    using mset_subset_eq_count [OF assms, of i] count_ids_filter [of "\<lambda>j. j \<notin> set (hit_ids scored)" cs i]
    by (cases "i \<in> set (hit_ids scored)") simp_all
qed

interpretation cross_encoder: selecting_stage "cross_encoder_rerank env ix query" for env ix query
proof
  fix cs cs' assume *: "cross_encoder_rerank env ix query cs = Inr cs'"
  let ?valid = "filter (\<lambda>c. given_text (map_of (get_texts ix (hit_ids cs)) (ri_id c))) cs"
  let ?scored = "\<lambda>scores. by_score (map (\<lambda>(c, s). rescored c (sigmoid (floats env) s)) (zip ?valid scores))"
  have "ids_mset (?scored scores) \<subseteq># ids_mset cs" for scores
  proof -
    have "ids_mset (?scored scores) = ids_mset (map fst (zip ?valid scores))"
      unfolding ids_mset_simps by (rule ids_mset_cong) (simp add: case_prod_beta)
    also have "\<dots> \<subseteq># ids_mset cs"
      using zip_selects ids_mset_filter by (rule subset_mset.order_trans)
    finally show ?thesis .
  qed
  note added = add_missing_selects [OF this]
  show "ids_mset cs' \<subseteq># ids_mset cs"
  proof (cases "?valid = []")
    case True
    then show ?thesis using * by (simp add: cross_encoder_rerank_def Let_def bindR_Inr_iff)
  next
    case False
    then obtain scores where "cs' = ?scored scores @ filter (\<lambda>c. ri_id c \<notin> set (hit_ids (?scored scores))) cs"
      using * unfolding cross_encoder_rerank_def Let_def if_not_P [OF False] bindR_Inr_iff by blast
    then show ?thesis using added by (simp only:)
  qed
qed

lemma slice_prefix: "slice k xs @ drop (length (slice k xs)) xs = xs"
  by (cases "0 \<le> k"; cases xs) (auto simp: slice_def min_def)

lemma length_slice: "length (slice k xs) \<le> length xs" "0 \<le> k \<Longrightarrow> length (slice k xs) \<le> nat k"
  by (simp_all add: slice_def)

lemma set_slice: "set (slice k xs) \<subseteq> set xs"
  by (auto simp: slice_def dest: in_set_takeD)

interpretation rerank: selecting_stage "rerank_pool env ix query rerank_top" for env ix query rerank_top
proof
  fix cs cs' assume "rerank_pool env ix query rerank_top cs = Inr cs'"
  then obtain ranked where ranked: "cross_encoder_rerank env ix query (slice rerank_top cs) = Inr ranked"
      "cs' = ranked @ drop (length (slice rerank_top cs)) cs"
    by (auto simp: rerank_pool_def Let_def bindR_Inr_iff)
  have "ids_mset cs' \<subseteq># ids_mset (slice rerank_top cs) + ids_mset (drop (length (slice rerank_top cs)) cs)"
    using cross_encoder.selects [OF ranked(1)] by (simp add: ranked(2))
  also have "\<dots> = ids_mset cs"
    by (metis ids_mset_simps(3) slice_prefix)
  finally show "ids_mset cs' \<subseteq># ids_mset cs" .
qed

text \<open>The candidates that got no score keep their place after the others.\<close>

lemma add_missing_keeps: "set (hit_ids cs) \<subseteq> set (hit_ids (scored @ filter (\<lambda>c. ri_id c \<notin> set (hit_ids scored)) cs))"
  by auto

interpretation cross_encoder: keeping_stage "cross_encoder_rerank env ix query" for env ix query
proof
  fix cs cs' assume "cross_encoder_rerank env ix query cs = Inr cs'"
  then have "cs' = cs \<or> (\<exists>scored. cs' = scored @ filter (\<lambda>c. ri_id c \<notin> set (hit_ids scored)) cs)"
    unfolding cross_encoder_rerank_def Let_def bindR_Inr_iff by (auto simp only: sum.inject bindR_Inr_iff split: if_splits)
  then show "set (hit_ids cs) \<subseteq> set (hit_ids cs')" using add_missing_keeps by blast
qed

interpretation rerank: keeping_stage "rerank_pool env ix query rerank_top" for env ix query rerank_top
proof
  fix cs cs' assume "rerank_pool env ix query rerank_top cs = Inr cs'"
  then obtain ranked where ranked: "cross_encoder_rerank env ix query (slice rerank_top cs) = Inr ranked"
      "cs' = ranked @ drop (length (slice rerank_top cs)) cs"
    by (auto simp: rerank_pool_def Let_def bindR_Inr_iff)
  have "hit_ids cs = hit_ids (slice rerank_top cs) @ hit_ids (drop (length (slice rerank_top cs)) cs)"
    by (simp only: map_append [symmetric] slice_prefix)
  then show "set (hit_ids cs) \<subseteq> set (hit_ids cs')"
    using cross_encoder.keeps_ids [OF ranked(1)] by (simp add: ranked(2)) blast
qed

section \<open>Stages that add candidates\<close>

lemma merged_keyed:
  "keyed by_id \<Longrightarrow> keyed (fold merge_phrase_hit hits by_id)
   \<and> fst ` set (fold merge_phrase_hit hits by_id) = fst ` set by_id \<union> set (hit_ids hits)"
proof (induction hits arbitrary: by_id)
  case (Cons h hits)
  have "keyed (merge_phrase_hit h by_id)"
    unfolding merge_phrase_hit_def
    by (rule keyed_update [OF Cons.prems]) (auto split: option.splits dest: keyed_lookup [OF Cons.prems])
  moreover have "fst ` set (merge_phrase_hit h by_id) = insert (ri_id h) (fst ` set by_id)"
    by (simp add: merge_phrase_hit_def keys_update)
  ultimately show ?case using Cons.IH [of "merge_phrase_hit h by_id"] by simp
qed simp

lemma fold_candidates_keyed:
  "keyed by_id \<Longrightarrow> keyed (fold (\<lambda>c. AList.update (ri_id c) c) cs by_id)
   \<and> fst ` set (fold (\<lambda>c. AList.update (ri_id c) c) cs by_id) = fst ` set by_id \<union> set (hit_ids cs)"
proof (induction cs arbitrary: by_id)
  case (Cons c cs)
  have "keyed (AList.update (ri_id c) c by_id)" by (rule keyed_update [OF Cons.prems]) simp
  then show ?case using Cons.IH [of "AList.update (ri_id c) c by_id"] by (simp add: keys_update)
qed simp

lemma phrase_hits_permitted: "i \<in> set (hit_ids (metadata_phrase_hits ix query allowed limit)) \<Longrightarrow> permitted allowed i"
  by (auto simp: metadata_phrase_hits_def Let_def permitted_def map_filter_def split: if_splits option.splits
      dest!: set_slice [THEN subsetD])

lemma phrase_ids:
  assumes "metadata_phrase_boost env ix query allowed limit cs = Inr cs'"
  shows "cs' = cs \<or> distinct (hit_ids cs')
      \<and> set (hit_ids cs') = set (hit_ids cs) \<union> set (hit_ids (metadata_phrase_hits ix query allowed limit))"
proof -
  let ?hits = "metadata_phrase_hits ix query allowed limit"
  let ?merged = "fold merge_phrase_hit ?hits (fold (\<lambda>c. AList.update (ri_id c) c) cs [])"
  have merged: "keyed ?merged" "fst ` set ?merged = set (hit_ids cs) \<union> set (hit_ids ?hits)"
    using merged_keyed [of "fold (\<lambda>c. AList.update (ri_id c) c) cs []" ?hits] fold_candidates_keyed [of "[]" cs]
    by (simp_all add: keyed_def)
  have ids: "hit_ids (map snd ?merged) = map fst ?merged"
    using keyed_ids [OF merged(1)] by simp
  have "distinct (hit_ids (by_score (map snd ?merged)))"
    using merged(1) ids by (simp add: keyed_def del: map_map)
  moreover have "set (hit_ids (by_score (map snd ?merged))) = set (hit_ids (map snd ?merged))"
    by (simp only: list.set_map set_by_score)
  then have "set (hit_ids (by_score (map snd ?merged))) = set (hit_ids cs) \<union> set (hit_ids ?hits)"
    unfolding ids using merged(2) by (simp only: list.set_map)
  moreover have "cs' = cs \<or> cs' = by_score (map snd ?merged)"
    using assms by (auto simp: metadata_phrase_boost_def Let_def bindR_Inr_iff split: if_splits)
  ultimately show ?thesis by blast
qed

interpretation phrase: candidate_stage "metadata_phrase_boost env ix query allowed limit" allowed for env ix query allowed limit
  by unfold_locales (use phrase_ids phrase_hits_permitted in blast)+

interpretation phrase: keeping_stage "metadata_phrase_boost env ix query allowed limit" for env ix query allowed limit
  by unfold_locales (use phrase_ids in blast)

lemma supplement_ids:
  assumes "supplement_status_handoff env ix query allowed cs = Inr cs'"
  shows "\<exists>new. hit_ids cs' = hit_ids cs @ new \<and> distinct new \<and> (\<forall>i \<in> set new. i \<notin> set (hit_ids cs) \<and> permitted allowed i)"
proof -
  define found where "found = (case filter_ids (ev_now env) ix handoff_filter of None \<Rightarrow> [] | Some ids \<Rightarrow> ids)"
  define ids where "ids = (case allowed of None \<Rightarrow> found | Some al \<Rightarrow> filter (\<lambda>i. i \<in> set al) found)"
  define new where "new = sort (dedup (filter (\<lambda>i. i \<notin> set (hit_ids cs)) ids))"
  have "hit_ids cs' = hit_ids cs \<or> hit_ids cs' = hit_ids cs @ new"
    using assms unfolding supplement_status_handoff_def Let_def found_def [symmetric] ids_def [symmetric] new_def [symmetric]
    by (auto simp: comp_def bindR_Inr_iff split: if_splits)
  moreover have "permitted allowed i" if "i \<in> set ids" for i
    using that by (auto simp: ids_def permitted_def split: option.splits)
  then have "distinct new \<and> (\<forall>i \<in> set new. i \<notin> set (hit_ids cs) \<and> permitted allowed i)"
    by (simp add: new_def)
  ultimately show ?thesis by (elim disjE) (rule exI [of _ "[]"], simp, blast)
qed

interpretation supplement: adding_stage "supplement_status_handoff env ix query allowed" allowed for env ix query allowed
proof
  fix cs cs' assume "supplement_status_handoff env ix query allowed cs = Inr cs'"
  from supplement_ids [OF this] show "\<exists>new. mset (hit_ids cs') = mset (hit_ids cs @ new) \<and> distinct new
      \<and> (\<forall>i \<in> set new. i \<notin> set (hit_ids cs) \<and> permitted allowed i)" by metis
qed

lemma iterate_set_props: "mset (iterate_set env xs) = mset (dedup xs)"
  by (simp add: iterate_set_def Let_def)

interpretation graph: adding_stage "expand_via_graph env ix top_k depth allowed" allowed for env ix top_k depth allowed
proof
  fix cs cs' assume *: "expand_via_graph env ix top_k depth allowed cs = Inr cs'"
  define found where "found = filter (\<lambda>n. n \<notin> set (hit_ids cs))
    (concat (map (\<lambda>c. graph_neighbors ix (ri_id c) depth) (slice top_k cs)))"
  define ids where "ids = (case allowed of None \<Rightarrow> found | Some al \<Rightarrow> filter (\<lambda>n. n \<in> set al) found)"
  have cs': "hit_ids cs' = hit_ids cs @ iterate_set env ids"
    using * unfolding expand_via_graph_def Let_def found_def [symmetric] ids_def [symmetric]
    by (auto simp: comp_def bindR_Inr_iff)
  have "set (iterate_set env ids) = set ids" using mset_eq_setD [OF iterate_set_props] by simp
  moreover have "distinct (iterate_set env ids)" using mset_eq_imp_distinct_iff [OF iterate_set_props] by simp
  moreover have "i \<notin> set (hit_ids cs) \<and> permitted allowed i" if "i \<in> set ids" for i
    using that by (auto simp: ids_def found_def permitted_def split: option.splits)
  ultimately show "\<exists>new. mset (hit_ids cs') = mset (hit_ids cs @ new) \<and> distinct new
      \<and> (\<forall>i \<in> set new. i \<notin> set (hit_ids cs) \<and> permitted allowed i)"
    unfolding cs' by blast
qed

lemma add_associated_ids:
  "\<exists>new. hit_ids (add_associated m allowed target hits cs) = hit_ids cs @ new \<and> distinct new
     \<and> (\<forall>i \<in> set new. i \<notin> set (hit_ids cs) \<and> permitted allowed i)"
proof (induction m allowed target hits cs rule: add_associated.induct)
  case (2 m allowed target i score hits cs)
  let ?skip = "allowed \<noteq> None \<and> i \<notin> set (the allowed) \<or> i \<in> set (hit_ids cs)"
  let ?cs = "cs @ [hit i (fl64 (fl64 (m * fl64 (85 / 100)) * fl64 (1 / fl64 (1 + max 0 (- score))))) None None]"
  show ?case
  proof (cases ?skip)
    case True
    then show ?thesis using "2.IH"(1) by simp
  next
    case False
    then have i: "i \<notin> set (hit_ids cs)" "permitted allowed i" by (auto simp: permitted_def split: option.splits)
    show ?thesis
    proof (cases "target \<le> int (length ?cs)")
      case True
      then have "add_associated m allowed target ((i, score) # hits) cs = ?cs"
        by (simp only: add_associated.simps if_not_P [OF False] Let_def if_P [OF True] if_True)
      then show ?thesis using i by (intro exI [of _ "[i]"]) simp
    next
      case more: False
      from "2.IH"(2) [OF False refl refl refl more] obtain new where
        new: "hit_ids (add_associated m allowed target hits ?cs) = hit_ids ?cs @ new" "distinct new"
          "\<forall>j \<in> set new. j \<notin> set (hit_ids ?cs) \<and> permitted allowed j" by blast
      have "add_associated m allowed target ((i, score) # hits) cs = add_associated m allowed target hits ?cs"
        by (simp only: add_associated.simps if_not_P [OF False] Let_def if_not_P [OF more] if_False)
      then show ?thesis using new i by (intro exI [of _ "i # new"]) auto
    qed
  qed
qed (rule exI [of _ "[]"], simp)

interpretation hopfield: adding_stage "expand_via_hopfield env ix top_k hopfield_top beta allowed" allowed
  for env ix top_k hopfield_top beta allowed
proof
  fix cs cs' assume *: "expand_via_hopfield env ix top_k hopfield_top beta allowed cs = Inr cs'"
  have "cs' = cs \<or> (\<exists>m target hits. cs' = by_score (add_associated m allowed target hits cs))"
    using * by (auto simp: expand_via_hopfield_def Let_def bindR_Inr_iff split: if_splits prod.splits)
  then show "\<exists>new. mset (hit_ids cs') = mset (hit_ids cs @ new) \<and> distinct new
      \<and> (\<forall>i \<in> set new. i \<notin> set (hit_ids cs) \<and> permitted allowed i)"
  proof (elim disjE exE)
    fix m target hits assume cs': "cs' = by_score (add_associated m allowed target hits cs)"
    show ?thesis
      using add_associated_ids [of m allowed target hits cs] unfolding cs' hit_ids_by_score by metis
  qed (rule exI [of _ "[]"], simp)
qed

end
