(* ===== verification/RetrieverLaws.thy ===== *)
theory RetrieverLaws imports Retriever StageLaws begin

text \<open>
  Properties of searches: what a result may hold, what the filters guarantee, when a routed search
  returns, and that an explanation changes nothing.
\<close>

section \<open>The pipeline\<close>

lemma pipeline_candidate_stage:
  assumes "\<And>name stage. (name, stage) \<in> set stages \<Longrightarrow> candidate_stage stage allowed"
  shows "candidate_stage (run_pipeline stages) allowed"
  using assms
proof (induction stages)
  case Nil
  show ?case by unfold_locales auto
next
  case (Cons s stages)
  obtain name stage where s: "s = (name, stage)" by force
  have one: "candidate_stage stage allowed" using Cons.prems s by auto
  have rest: "candidate_stage (run_pipeline stages) allowed" using Cons by auto
  show ?case
  proof
    fix cs cs' assume run: "run_pipeline (s # stages) cs = Inr cs'"
    show "distinct (hit_ids cs) \<Longrightarrow> distinct (hit_ids cs')"
      using run candidate_stage.keeps_distinct [OF one] candidate_stage.keeps_distinct [OF rest]
      by (auto simp: s bindR_Inr_iff split: if_splits)
    fix i assume "i \<in> set (hit_ids cs')"
    with run show "i \<in> set (hit_ids cs) \<or> permitted allowed i"
      using candidate_stage.adds_permitted [OF one] candidate_stage.adds_permitted [OF rest]
      by (fastforce simp: s bindR_Inr_iff split: if_splits)
  qed
qed

lemmas stage_interpretations =
  phrase.candidate_stage_axioms supplement.candidate_stage_axioms rerank.candidate_stage_axioms
  decay.candidate_stage_axioms feedback_value.candidate_stage_axioms learning.candidate_stage_axioms
  handoff_boost.candidate_stage_axioms runtime_boost.candidate_stage_axioms
  temporal.candidate_stage_axioms superseded.candidate_stage_axioms mmr.candidate_stage_axioms
  hopfield.candidate_stage_axioms graph.candidate_stage_axioms

lemma candidate_stages_permitted:
  "(name, stage) \<in> set (candidate_stages rv env ix o') \<Longrightarrow> candidate_stage stage (po_allowed_ids o')"
  by (auto simp: candidate_stages_def stage_interpretations split: if_splits)

interpretation pipeline: candidate_stage "run_pipeline (candidate_stages rv env ix o')" "po_allowed_ids o'"
  for rv env ix o'
  by (rule pipeline_candidate_stage) (rule candidate_stages_permitted)

section \<open>Explanations\<close>

definition untraced :: "retrieved_item \<Rightarrow> retrieved_item" where
  "untraced c = c\<lparr>ri_trace := None\<rparr>"

lemma untraced_id [simp]: "ri_id (untraced c) = ri_id c"
  by (simp add: untraced_def)

lemma traced_pipeline:
  "bindR (run_pipeline_with_trace stages cs traces) (\<lambda>r. f (fst r)) = bindR (run_pipeline stages cs) f"
proof (induction stages arbitrary: cs traces)
  case (Cons s stages)
  obtain name stage where s: "s = (name, stage)" by force
  show ?case by (cases "stage cs") (simp_all add: s Cons.IH)
qed simp

lemma explained_untraced: "map untraced (explained initial traces final) = map untraced final"
proof -
  have "map untraced (explained initial traces final) = map untraced (map snd (enumerate 1 final))"
    by (simp add: explained_def untraced_def comp_def case_prod_beta Let_def del: map_snd_enumerate)
  then show ?thesis by simp
qed

lemma bindR_assoc: "bindR (bindR r f) g = bindR r (\<lambda>a. bindR (f a) g)"
  by (cases r) simp_all

lemma finish_untraced:
  "bindR (finish stages cs ex k explain) (\<lambda>final. Inr (map untraced final))
   = bindR (run_pipeline stages cs) (\<lambda>cs'. Inr (map untraced (slice k (filter (\<lambda>c. ri_id c \<notin> set ex) cs'))))"
  using traced_pipeline [of stages cs "\<lambda>_. []"
      "\<lambda>cs'. Inr (map untraced (slice k (filter (\<lambda>c. ri_id c \<notin> set ex) cs')))"]
  by (simp add: finish_def Let_def bindR_assoc case_prod_beta explained_untraced)

lemma finish_ids:
  assumes "finish stages cs ex k explain = Inr final"
  obtains cs' where "run_pipeline stages cs = Inr cs'"
    and "hit_ids final = hit_ids (slice k (filter (\<lambda>c. ri_id c \<notin> set ex) cs'))"
proof -
  have "\<exists>cs'. run_pipeline stages cs = Inr cs'
      \<and> map untraced final = map untraced (slice k (filter (\<lambda>c. ri_id c \<notin> set ex) cs'))"
    using finish_untraced [of stages cs ex k explain] unfolding assms bindR.simps
    by (cases "run_pipeline stages cs") auto
  then obtain cs' where run: "run_pipeline stages cs = Inr cs'"
    and eq: "map untraced final = map untraced (slice k (filter (\<lambda>c. ri_id c \<notin> set ex) cs'))" by blast
  have "hit_ids xs = hit_ids (map untraced xs)" for xs by simp
  then have "hit_ids final = hit_ids (slice k (filter (\<lambda>c. ri_id c \<notin> set ex) cs'))" using eq by metis
  with run show ?thesis by (rule that)
qed

lemma finish_Inr_iff: "(\<exists>final. finish stages cs ex k explain = Inr final) \<longleftrightarrow> (\<exists>cs'. run_pipeline stages cs = Inr cs')"
proof
  assume "\<exists>final. finish stages cs ex k explain = Inr final"
  then show "\<exists>cs'. run_pipeline stages cs = Inr cs'" using finish_ids by blast
next
  assume "\<exists>cs'. run_pipeline stages cs = Inr cs'"
  then show "\<exists>final. finish stages cs ex k explain = Inr final"
    using finish_untraced [of stages cs ex k explain] by (cases "finish stages cs ex k explain") auto
qed

lemma finished:
  assumes "finish (candidate_stages rv env ix o') cs ex k explain = Inr final" and "distinct (hit_ids cs)"
  shows "distinct (hit_ids final) \<and> (0 \<le> k \<longrightarrow> length final \<le> nat k)
    \<and> (\<forall>i \<in> set (hit_ids final). i \<notin> set ex \<and> (i \<in> set (hit_ids cs) \<or> permitted (po_allowed_ids o') i))"
proof -
  obtain cs' where run: "run_pipeline (candidate_stages rv env ix o') cs = Inr cs'"
    and final: "hit_ids final = hit_ids (slice k (filter (\<lambda>c. ri_id c \<notin> set ex) cs'))"
    using finish_ids [OF assms(1)] by blast
  let ?kept = "filter (\<lambda>c. ri_id c \<notin> set ex) cs'"
  have "distinct (hit_ids cs')" by (rule pipeline.keeps_distinct [OF run assms(2)])
  then have "distinct (hit_ids ?kept)" by (rule distinct_map_filter)
  moreover have "hit_ids ?kept = hit_ids (slice k ?kept) @ hit_ids (drop (length (slice k ?kept)) ?kept)"
    by (simp only: map_append [symmetric] slice_prefix)
  ultimately have "distinct (hit_ids final)" unfolding final by simp
  moreover have "length final = length (slice k ?kept)" using final by (metis length_map)
  then have "0 \<le> k \<longrightarrow> length final \<le> nat k" using length_slice by metis
  moreover have "i \<notin> set ex \<and> (i \<in> set (hit_ids cs) \<or> permitted (po_allowed_ids o') i)"
    if i: "i \<in> set (hit_ids final)" for i
  proof -
    obtain c where c: "c \<in> set (slice k ?kept)" "i = ri_id c" using i unfolding final by auto
    then have "c \<in> set cs'" "i \<notin> set ex" using set_slice by fastforce+
    then show ?thesis using pipeline.adds_permitted [OF run, of i] c by auto
  qed
  ultimately show ?thesis by blast
qed

lemma record_untraced:
  assumes "map untraced xs = map untraced ys"
  shows "record_results rv env recording xs = record_results rv env recording ys"
proof -
  have ids: "hit_ids zs = hit_ids (map untraced zs)" for zs by simp
  have "hit_ids xs = hit_ids ys" using ids [of xs] ids [of ys] assms by (simp only:)
  moreover have "xs = [] \<longleftrightarrow> ys = []" using assms by (cases xs; cases ys) simp_all
  ultimately show ?thesis by (simp only: record_results_def)
qed

lemma recorded_untraced:
  assumes "bindR r (\<lambda>final. Inr (map untraced final)) = bindR r' (\<lambda>final. Inr (map untraced final))"
  shows "bindP (bindP (lift_result r) (\<lambda>final. bindP (record_results rv env recording final) (\<lambda>_. ret final)))
      (\<lambda>hits. ret (map untraced hits)) w
    = bindP (bindP (lift_result r') (\<lambda>final. bindP (record_results rv env recording final) (\<lambda>_. ret final)))
      (\<lambda>hits. ret (map untraced hits)) w"
proof (cases r)
  case (Inl e)
  then have "r' = Inl e" using assms by (cases r') auto
  then show ?thesis using Inl by simp
next
  case (Inr xs)
  then obtain ys where ys: "r' = Inr ys" "map untraced xs = map untraced ys" using assms by (cases r') auto
  show ?thesis
    unfolding Inr ys(1) bindP_pure record_untraced [OF ys(2)]
    by (simp add: bindP_def ys(2) split: prod.split sum.split)
qed

text \<open>C30. Asking for an explanation changes nothing but the traces: the same hits with the same scores in
  the same order, the same accesses, the same errors.\<close>

theorem explanation_only_adds_traces:
  "bindP (search rv env query top_k filters True recording adapter) (\<lambda>hits. ret (map untraced hits))
   = bindP (search rv env query top_k filters False recording adapter) (\<lambda>hits. ret (map untraced hits))"
proof
  fix w :: recall_world
  have same: "bindR (bindR r (\<lambda>cs. finish stages cs ex k True)) (\<lambda>final. Inr (map untraced final))
      = bindR (bindR r (\<lambda>cs. finish stages cs ex k False)) (\<lambda>final. Inr (map untraced final))" for r stages ex k
    unfolding bindR_assoc finish_untraced ..
  let ?read = "read_allowed_ids env (wo_index w) ''allowed_ids'' (case filters of None \<Rightarrow> default_filter | Some f \<Rightarrow> f)"
  have start: "bindP (bindP (asks wo_index) f) g w = bindP (f (wo_index w)) g w"
    for f :: "hub_index \<Rightarrow> (recall_world, retrieved_item list) prog" and g :: "retrieved_item list \<Rightarrow> (recall_world, retrieved_item list) prog"
    by (simp add: bindP_def)
  show "bindP (search rv env query top_k filters True recording adapter) (\<lambda>hits. ret (map untraced hits)) w
   = bindP (search rv env query top_k filters False recording adapter) (\<lambda>hits. ret (map untraced hits)) w"
  proof (cases ?read)
    case (Inl e)
    show ?thesis unfolding search_def start Let_def Inl by simp
  next
    case (Inr allowed)
    show ?thesis
      unfolding search_def start Let_def Inr bindP_pure
      by (cases "allowed = Some []") (simp_all only: simp_thms if_True if_False recorded_untraced [OF same])
  qed
qed

section \<open>Searches within a filter\<close>

text \<open>What the filter of a search asks of a row of the index.\<close>

definition matches_filter :: "int \<Rightarrow> search_filter \<Rightarrow> meta_row \<Rightarrow> bool" where
  "matches_filter now f r \<longleftrightarrow>
     (sf_type f = None \<or> sf_type f = Some (mr_type r))
     \<and> (sf_project f = None \<or> sf_project f = mr_project r)
     \<and> (\<forall>t \<in> set (sf_tags f). t \<in> set (mr_tags r))
     \<and> (\<forall>t \<in> set (sf_exclude_tags f). t \<notin> set (mr_tags r))
     \<and> (case sf_since_days f of None \<Rightarrow> True
          | Some days \<Rightarrow> isoformat_utc (now - days * us_per_day) \<le> mr_created_at r)
     \<and> (sf_tenant_id f = None \<or> sf_tenant_id f = mr_tenant_id r)
     \<and> (sf_include_superseded f \<or> \<not> given_text (mr_superseded_by r))"

definition effective_filter :: "search_filter option \<Rightarrow> search_filter" where
  "effective_filter filters = (case filters of None \<Rightarrow> default_filter | Some f \<Rightarrow> f)"

lemma allowed_ids_None: "allowed_ids_for env ix f = None \<longleftrightarrow> filter_is_empty f \<and> sf_include_superseded f"
  by (auto simp: allowed_ids_for_def filter_ids_def filter_is_empty_def Let_def)

lemma allowed_ids_match:
  assumes "allowed_ids_for env ix f = Some al" and "i \<in> set al"
  shows "\<exists>r \<in> set (ix_meta ix). mr_id r = i \<and> matches_filter (ev_now env) f r"
  using assms
  by (auto simp: allowed_ids_for_def filter_ids_def Let_def row_clauses_def matches_filter_def is_superseded_def
      list_all_iff split: if_splits)

lemma read_allowed_Inr: "read_allowed_ids env ix place f = Inr allowed \<Longrightarrow> allowed = allowed_ids_for env ix f"
  by (auto simp: read_allowed_ids_def bindR_Inr_iff allowed_ids_for_def split: if_splits)

lemma rrf_candidates_ids:
  assumes "rrf_candidates rv env ix query allowed = Inr cs"
  shows "distinct (hit_ids cs) \<and> (\<forall>i \<in> set (hit_ids cs). permitted allowed i)"
proof -
  obtain a b where cs: "cs = rrf_fusion (map fst (within_allowed allowed a)) (map fst (within_allowed allowed b))
      (rv_rrf_k rv) (rv_bm25_weight rv) (rv_vector_weight rv)"
    using assms unfolding rrf_candidates_def Let_def bindR_Inr_iff by blast
  have "permitted allowed i" if "i \<in> set (map fst (within_allowed allowed hits))" for i hits
    using that by (auto simp: within_allowed_def permitted_def split: option.splits)
  then show ?thesis unfolding cs rrf_fusion_set using rrf_fusion_distinct by blast
qed

lemma search_run:
  assumes "search rv env query top_k filters explain recording adapter w = (Inr hits, w')"
    and "o' = search_options rv query top_k (allowed_ids_for env (wo_index w) (effective_filter filters))
      (effective_filter filters) adapter"
  shows "po_allowed_ids o' = Some [] \<and> hits = [] \<and> w' = w \<or> (\<exists>cs. rrf_candidates rv env (wo_index w) query (po_allowed_ids o') = Inr cs
    \<and> finish (candidate_stages rv env (wo_index w) o') cs [] top_k explain = Inr hits
    \<and> record_results rv env recording hits w = (Inr (), w'))"
  using assms(1) unfolding search_def effective_filter_def [symmetric] assms(2)
  by (auto simp: Let_def bindP_Inr_iff bindR_Inr_iff search_options_def dest!: read_allowed_Inr split: if_splits)

lemma record_results_run:
  "record_results rv env recording hits w =
    (Inr (), if (case recording of None \<Rightarrow> rv_record_access rv | Some b \<Rightarrow> b)
       then w\<lparr>wo_index := record_access_many (hit_ids hits) (isoformat_utc (ev_now env)) (wo_index w)\<rparr> else w)"
  by (simp add: record_results_def record_access_many_def)

text \<open>C25. A search returns distinct items, at most \<open>top_k\<close>, and whatever its stages add, with a filter every
  one of them is a row of the index that matches the filter; its only effect is one recorded access
  for each hit, if accesses are recorded.\<close>

theorem search_respects_filter:
  assumes "search rv env query top_k filters explain recording adapter w = (Inr hits, w')"
  shows "distinct (hit_ids hits) \<and> (0 \<le> top_k \<longrightarrow> length hits \<le> nat top_k)
    \<and> (filter_is_empty (effective_filter filters) \<and> sf_include_superseded (effective_filter filters)
       \<or> (\<forall>i \<in> set (hit_ids hits). \<exists>r \<in> set (ix_meta (wo_index w)).
            mr_id r = i \<and> matches_filter (ev_now env) (effective_filter filters) r))
    \<and> w' = (if (case recording of None \<Rightarrow> rv_record_access rv | Some b \<Rightarrow> b)
       then w\<lparr>wo_index := record_access_many (hit_ids hits) (isoformat_utc (ev_now env)) (wo_index w)\<rparr> else w)"
  using search_run [OF assms refl]
proof (elim disjE exE conjE)
  let ?f = "effective_filter filters"
  let ?o = "search_options rv query top_k (allowed_ids_for env (wo_index w) ?f) ?f adapter"
  fix cs assume cs: "rrf_candidates rv env (wo_index w) query (po_allowed_ids ?o) = Inr cs"
    and final: "finish (candidate_stages rv env (wo_index w) ?o) cs [] top_k explain = Inr hits"
    and recorded: "record_results rv env recording hits w = (Inr (), w')"
  have "\<exists>r \<in> set (ix_meta (wo_index w)). mr_id r = i \<and> matches_filter (ev_now env) ?f r"
    if filtered: "\<not> (filter_is_empty ?f \<and> sf_include_superseded ?f)" and i: "permitted (po_allowed_ids ?o) i" for i
  proof -
    obtain al where "allowed_ids_for env (wo_index w) ?f = Some al" "i \<in> set al"
      using i filtered allowed_ids_None [of env "wo_index w" ?f]
      by (auto simp: search_options_def permitted_def split: option.splits)
    then show ?thesis by (rule allowed_ids_match)
  qed
  moreover have "\<forall>i \<in> set (hit_ids hits). permitted (po_allowed_ids ?o) i"
    using finished [OF final] rrf_candidates_ids [OF cs] by blast
  ultimately show ?thesis
    using finished [OF final] rrf_candidates_ids [OF cs] recorded unfolding record_results_run by blast
qed (simp add: record_access_many_def)

section \<open>Routes\<close>

text \<open>The programs of the routes read the index and the clock, and change nothing but the clock.\<close>

definition only_reads :: "(recall_world, 'a) prog \<Rightarrow> bool" where
  "only_reads m \<longleftrightarrow>
     (\<forall>w. wo_index (snd (m w)) = wo_index w \<and> wo_ticks w \<le> wo_ticks (snd (m w)))"

named_theorems reads \<open>programs that only read\<close>

lemma only_reads_basic [reads]:
  "only_reads (ret a)" "only_reads (raise e)" "only_reads (lift_result r)" "only_reads (check b e)" "only_reads (asks f)"
  by (simp_all add: only_reads_def)

lemma only_reads_bindP [reads]: "only_reads m \<Longrightarrow> (\<And>a. only_reads (f a)) \<Longrightarrow> only_reads (bindP m f)"
  unfolding only_reads_def bindP_def by (auto split: prod.splits sum.splits) (metis order_trans snd_conv)+

lemma only_reads_if [reads]: "only_reads m \<Longrightarrow> only_reads n \<Longrightarrow> only_reads (if b then m else n)"
  by simp

lemma only_reads_clock [reads]: "only_reads (read_route_clock clock)"
  by (simp add: only_reads_def read_route_clock_def)

lemma only_reads_deadline [reads]: "only_reads (raise_if_deadline_expired clock deadline)"
  by (cases deadline) (simp_all add: raise_if_deadline_expired_def reads)

lemma only_reads_try [reads]: "only_reads m \<Longrightarrow> (\<And>e. only_reads (h e)) \<Longrightarrow> only_reads (try_catch m h)"
  unfolding only_reads_def try_catch_def by (auto split: prod.splits sum.splits) (metis order_trans snd_conv)+

lemma only_reads_routes [reads]:
  "only_reads (lexical_route rv env plan q)"
  "only_reads (semantic_route rv env em clock deadline plan q)"
  "only_reads (completed_route_trace clock route started n)"
  "only_reads (failed_route_trace clock route started timeout)"
  by (simp_all add: lexical_route_def semantic_route_def completed_route_trace_def failed_route_trace_def Let_def reads)

lemma only_reads_attempt [reads]: "only_reads body \<Longrightarrow> only_reads (attempt_route clock route body)"
  by (simp add: attempt_route_def reads case_prod_beta)

text \<open>The clock of a route ends no earlier than it started, so that the trace of the route is a valid one:
  an attempt always returns an outcome.\<close>

lemma latency_nonneg: "started \<le> now \<Longrightarrow> \<not> latency_ms started now < 0"
  by (simp add: latency_ms_def not_less fl64_nonneg)

lemma attempt_returns:
  assumes clock: "mono clock" and body: "only_reads body"
  shows "\<exists>outcome w'. attempt_route clock route body w = (Inr outcome, w')"
proof -
  have ok: "\<exists>t. completed_route_trace clock route (clock n) k w1 = (Inr t, w1\<lparr>wo_ticks := Suc (wo_ticks w1)\<rparr>)"
    if "n \<le> wo_ticks w1" for n k w1
    using latency_nonneg [OF monoD [OF clock that]]
    by (simp add: completed_route_trace_def read_route_clock_def bindP_def check_route_trace_def)
  have failed: "\<exists>t. failed_route_trace clock route (clock n) b w1 = (Inr t, w1\<lparr>wo_ticks := Suc (wo_ticks w1)\<rparr>)"
    if "n \<le> wo_ticks w1" for n b w1
    using latency_nonneg [OF monoD [OF clock that]]
    by (simp add: failed_route_trace_def read_route_clock_def bindP_def check_route_trace_def)
  let ?w = "w\<lparr>wo_ticks := Suc (wo_ticks w)\<rparr>"
  obtain r w1 where run: "body ?w = (r, w1)" by force
  then have later: "wo_ticks w \<le> wo_ticks w1"
    using body unfolding only_reads_def by (metis Suc_leD recall_world.select_convs(2) recall_world.surjective recall_world.update_convs(2) snd_conv)
  show ?thesis
  proof (cases r)
    case (Inl e)
    from failed [OF later, of "is_timeout e"] obtain t where
      "failed_route_trace clock route (clock (wo_ticks w)) (is_timeout e) w1 = (Inr t, w1\<lparr>wo_ticks := Suc (wo_ticks w1)\<rparr>)" ..
    then show ?thesis
      by (simp add: attempt_route_def read_route_clock_def bindP_def try_catch_def run Inl)
  next
    case (Inr a)
    from ok [OF later, of "length (fst a)"] obtain t where
      "completed_route_trace clock route (clock (wo_ticks w)) (length (fst a)) w1 = (Inr t, w1\<lparr>wo_ticks := Suc (wo_ticks w1)\<rparr>)" ..
    then show ?thesis
      by (simp add: attempt_route_def read_route_clock_def bindP_def try_catch_def run Inr case_prod_beta)
  qed
qed

text \<open>What a route may return.\<close>

definition route_permits :: "filter_plan \<Rightarrow> pystr \<Rightarrow> bool" where
  "route_permits plan i \<longleftrightarrow> permitted (fp_allowed_ids plan) i \<and> i \<notin> set (fp_excluded_ids plan)"

lemma filter_route_permits: "i \<in> set (filter_route_hits hits (fp_allowed_ids plan) (fp_excluded_ids plan)) \<Longrightarrow> route_permits plan i"
  by (auto simp: filter_route_hits_def within_allowed_def route_permits_def permitted_def split: option.splits)

lemma lexical_permits: "lexical_route rv env plan q w = (Inr (hits, sims), w') \<Longrightarrow> i \<in> set hits \<Longrightarrow> route_permits plan i"
  by (auto simp: lexical_route_def bindP_Inr_iff dest: filter_route_permits)

lemma semantic_permits:
  "semantic_route rv env em clock deadline plan q w = (Inr (hits, sims), w') \<Longrightarrow> i \<in> set hits \<Longrightarrow> route_permits plan i"
  by (auto simp: semantic_route_def Let_def bindP_Inr_iff dest: filter_route_permits)

lemma attempt_permits:
  assumes "attempt_route clock route body w = (Inr outcome, w')"
    and "\<And>w hits sims w'. body w = (Inr (hits, sims), w') \<Longrightarrow> \<forall>i \<in> set hits. P i"
  shows "\<forall>i \<in> set (ro_hits outcome). P i"
  using assms(1)
  by (auto simp: attempt_route_def bindP_Inr_iff try_catch_def bindP_def dest!: assms(2) split: prod.splits sum.splits)

lemma only_reads_gather [reads]: "only_reads (gather_routes rv env clock deadline plan request)"
  unfolding gather_routes_def Let_def
  by (intro reads; cases "rv_embedder rv") (simp_all add: reads)

lemma gather_permits:
  assumes "gather_routes rv env clock deadline plan request w = (Inr (terms, semantic, raw), w')"
  shows "\<forall>i \<in> set (ro_hits terms) \<union> set (ro_hits semantic) \<union> set (ro_hits raw). route_permits plan i"
proof -
  have lexical: "\<forall>i \<in> set (ro_hits outcome). route_permits plan i"
    if "attempt_route clock route (lexical_route rv env plan q) w1 = (Inr outcome, w2)" for route q outcome w1 w2
    by (rule attempt_permits [OF that]) (blast dest: lexical_permits)
  have sem: "\<forall>i \<in> set (ro_hits outcome). route_permits plan i"
    if "attempt_route clock route (semantic_route rv env em clock deadline plan q) w1 = (Inr outcome, w2)"
    for route em q outcome w1 w2
    by (rule attempt_permits [OF that]) (blast dest: semantic_permits)
  show ?thesis
    using assms unfolding gather_routes_def Let_def
    by (auto simp: bindP_Inr_iff dest!: lexical sem split: if_splits option.splits)
qed

section \<open>Routed searches\<close>

definition hard_scope :: "recall_request \<Rightarrow> pystr option" where
  "hard_scope request =
     (case rq_project_scope request of
        Some s \<Rightarrow> if ps_hard_filter s then Some (ps_value s) else None
      | None \<Rightarrow> None)"

lemma plan_permits:
  assumes plan: "routed_filter_plan env ix request f = Inr plan" and i: "route_permits plan i"
    and once: "distinct (all_ids ix)"
  shows "(filter_is_empty f \<and> hard_scope request = None
      \<or> (\<exists>r \<in> set (ix_meta ix). mr_id r = i \<and> matches_filter (ev_now env) f r
           \<and> (hard_scope request = None \<or> mr_project r = hard_scope request)))
    \<and> (sf_include_superseded f \<or> i \<notin> set (get_superseded_ids ix))"
proof -
  define g where "g = (if hard_scope request \<noteq> None then f\<lparr>sf_project := hard_scope request\<rparr> else f)"
  show ?thesis
  proof (cases "hard_scope request \<noteq> None \<and> sf_project f \<noteq> None \<and> sf_project f \<noteq> hard_scope request")
    case True
    then have "plan = \<lparr>fp_allowed_ids = Some [], fp_excluded_ids = []\<rparr>"
      using plan unfolding routed_filter_plan_def hard_scope_def [symmetric] Let_def by simp
    then show ?thesis using i by (simp add: route_permits_def permitted_def)
  next
    case False
    then have plan': "plan = (if filter_is_empty g then
        \<lparr>fp_allowed_ids = None, fp_excluded_ids = (if sf_include_superseded g then [] else get_superseded_ids ix)\<rparr>
      else \<lparr>fp_allowed_ids = allowed_ids_for env ix g, fp_excluded_ids = []\<rparr>)"
      using plan unfolding routed_filter_plan_def hard_scope_def [symmetric] Let_def if_not_P [OF False] g_def [symmetric]
      by (auto simp: bindR_Inr_iff read_superseded_ids_def dest!: read_allowed_Inr split: if_splits)
    have superseded: "sf_include_superseded g = sf_include_superseded f" by (simp add: g_def)
    show ?thesis
    proof (cases "filter_is_empty g")
      case True
      then have "filter_is_empty f \<and> hard_scope request = None"
        by (auto simp: g_def filter_is_empty_def split: if_splits)
      moreover have "sf_include_superseded f \<or> i \<notin> set (get_superseded_ids ix)"
        using i True superseded by (simp add: plan' route_permits_def split: if_splits)
      ultimately show ?thesis by blast
    next
      case filtered: False
      then obtain al where "allowed_ids_for env ix g = Some al" "i \<in> set al"
        using i allowed_ids_None [of env ix g] by (auto simp: plan' route_permits_def permitted_def split: option.splits)
      from allowed_ids_match [OF this] obtain r where
        r: "r \<in> set (ix_meta ix)" "mr_id r = i" "matches_filter (ev_now env) g r" by blast
      have "matches_filter (ev_now env) f r \<and> (hard_scope request = None \<or> mr_project r = hard_scope request)"
        using r(3) False by (auto simp: g_def matches_filter_def split: if_splits)
      moreover have "sf_include_superseded f \<or> i \<notin> set (get_superseded_ids ix)"
      proof (rule disjCI)
        assume "\<not> i \<notin> set (get_superseded_ids ix)"
        then obtain r' where r': "r' \<in> set (ix_meta ix)" "mr_id r' = i" "is_superseded r'"
          by (auto simp: get_superseded_ids_def)
        have "r' = r" using once r(1,2) r'(1,2) unfolding all_ids_def by (metis inj_on_eq_iff distinct_map)
        then show "sf_include_superseded f" using r(3) r'(3) superseded by (simp add: matches_filter_def is_superseded_def)
      qed
      ultimately show ?thesis using r(1,2) by blast
    qed
  qed
qed

lemma scope_boost_mset: "scope_boost env ix scope cs = Inr cs' \<Longrightarrow> ids_mset cs' = ids_mset cs"
  by (auto simp: scope_boost_def Let_def bindR_Inr_iff ids_mset_map split: option.splits if_splits)

text \<open>The hits and the evidence of a search over the routes come from the fusion and the pipeline.\<close>

definition routed_hits ::
  "retriever \<Rightarrow> recall_env \<Rightarrow> hub_index \<Rightarrow> recall_request \<Rightarrow> search_filter \<Rightarrow> int \<Rightarrow> bool \<Rightarrow> filter_plan
     \<Rightarrow> routed_result \<Rightarrow> bool" where
  "routed_hits rv env ix request f top_k explain plan result \<longleftrightarrow>
     (\<exists>terms semantic raw sims fused cs.
        (\<forall>i \<in> set terms \<union> set semantic \<union> set raw. route_permits plan i)
        \<and> fused = fuse_routes terms semantic raw sims (rv_rrf_k rv)
        \<and> scope_boost env ix (rq_project_scope request) (fst fused) = Inr cs
        \<and> finish (candidate_stages rv env ix (routed_options rv request f top_k (fp_allowed_ids plan)))
            cs (fp_excluded_ids plan) top_k explain = Inr (rr_hits result)
        \<and> rr_evidence_by_id result =
            List.map_filter (\<lambda>c. map_option (Pair (ri_id c)) (map_of (snd fused) (ri_id c))) (rr_hits result))"

lemma search_routes_run:
  assumes "search_routes rv env sha256 clock deadline request f top_k explain recording shadow shadow_top_k plan ix w
      = (Inr result, w')"
  shows "rr_admission result = rq_admission request \<and> routed_hits rv env ix request f top_k explain plan result"
proof -
  obtain terms semantic raw w1 where
    routes: "gather_routes rv env clock deadline plan request w = (Inr (terms, semantic, raw), w1)"
    using assms unfolding search_routes_def bindP_def
    by (cases "gather_routes rv env clock deadline plan request w"; cases "fst (gather_routes rv env clock deadline plan request w)") auto
  have rest: "rr_admission result = rq_admission request"
      "\<exists>cs. scope_boost env ix (rq_project_scope request)
          (fst (fuse_routes (ro_hits terms) (ro_hits semantic) (ro_hits raw) (ro_similarities semantic) (rv_rrf_k rv))) = Inr cs
        \<and> finish (candidate_stages rv env ix (routed_options rv request f top_k (fp_allowed_ids plan)))
            cs (fp_excluded_ids plan) top_k explain = Inr (rr_hits result)"
      "rr_evidence_by_id result = List.map_filter (\<lambda>c. map_option (Pair (ri_id c))
        (map_of (snd (fuse_routes (ro_hits terms) (ro_hits semantic) (ro_hits raw) (ro_similarities semantic) (rv_rrf_k rv)))
          (ri_id c))) (rr_hits result)"
    using assms unfolding search_routes_def bindP_run(1) [where m = "gather_routes rv env clock deadline plan request", OF routes] Let_def prod.case
    by (auto simp: bindP_Inr_iff)
  from gather_permits [OF routes] rest show ?thesis unfolding routed_hits_def by blast
qed

lemma routed_run:
  assumes "search_routed rv env sha256 clock deadline request top_k filters explain recording shadow shadow_top_k w
      = (Inr result, w')"
    and f: "f = effective_filter filters"
  shows "0 \<le> top_k \<and> rr_admission result = rq_admission request
    \<and> (rr_hits result = [] \<and> rr_evidence_by_id result = []
       \<or> ra_allowed (rq_admission request) \<and> (\<exists>plan. routed_filter_plan env (wo_index w) request f = Inr plan
            \<and> routed_hits rv env (wo_index w) request f top_k explain plan result))"
proof -
  have empty: "rr_hits (routed_empty request t sh) = []" "rr_evidence_by_id (routed_empty request t sh) = []"
    "rr_admission (routed_empty request t sh) = rq_admission request" for t sh
    by (simp_all add: routed_empty_def)
  obtain w0 where w0: "wo_index w0 = wo_index w"
    and run: "(if top_k = 0 then ret (routed_empty request [] [])
     else if \<not> ra_allowed (rq_admission request) then
       ret (routed_empty request (map (\<lambda>r. skipped_route_trace r RR_admission_rejected)
         [lit ''lexical_terms'', lit ''semantic_raw'', lit ''lexical_raw_fallback'']) [])
     else bindP (lift_result (routed_filter_plan env (wo_index w0) request f)) (\<lambda>plan.
          if fp_allowed_ids plan = Some [] then
            bindP (if shadow then lift_result (project_shadow_traces rv env sha256 (wo_index w0) request f shadow_top_k) else ret [])
              (\<lambda>shadows. ret (routed_empty request [] shadows))
          else search_routes rv env sha256 clock deadline request f top_k explain recording shadow shadow_top_k plan (wo_index w0))) w0
      = (Inr result, w')"
    and k: "0 \<le> top_k"
  proof -
    obtain w0 u where "(if deadline = None then ret 0 else read_route_clock clock) w = (Inr u, w0)"
      by (cases "deadline = None") (simp_all add: read_route_clock_def bindP_def)
    moreover from this have "wo_index w0 = wo_index w"
      by (auto simp: read_route_clock_def bindP_def split: if_splits)
    ultimately show thesis using assms(1) that [of w0]
      unfolding search_routed_def effective_filter_def [symmetric] f [symmetric] Let_def
      by (auto simp: bindP_run split: if_splits)
  qed
  show ?thesis
    using run k empty
    by (auto simp: w0 bindP_Inr_iff dest!: search_routes_run split: if_splits)
qed

text \<open>C26. A routed search returns distinct items, at most \<open>top_k\<close>, none for a rejected query, with evidence for
  returned items only. Whatever its routes and stages add, each hit is a row that matches the filter, in
  the project of a hard scope, and is not superseded in the index unless superseded items are asked for.\<close>

theorem routed_search_respects_scope:
  assumes "search_routed rv env sha256 clock deadline request top_k filters explain recording shadow shadow_top_k w
      = (Inr result, w')"
    and "distinct (all_ids (wo_index w))"
  shows "distinct (hit_ids (rr_hits result)) \<and> int (length (rr_hits result)) \<le> top_k
    \<and> (ra_allowed (rq_admission request) \<or> rr_hits result = [])
    \<and> set (map fst (rr_evidence_by_id result)) \<subseteq> set (hit_ids (rr_hits result))
    \<and> (\<forall>i \<in> set (hit_ids (rr_hits result)).
         (filter_is_empty (effective_filter filters) \<and> hard_scope request = None
          \<or> (\<exists>r \<in> set (ix_meta (wo_index w)). mr_id r = i \<and> matches_filter (ev_now env) (effective_filter filters) r
               \<and> (hard_scope request = None \<or> mr_project r = hard_scope request)))
         \<and> (sf_include_superseded (effective_filter filters) \<or> i \<notin> set (get_superseded_ids (wo_index w))))"
proof -
  let ?f = "effective_filter filters"
  have run: "0 \<le> top_k" "rr_hits result = [] \<and> rr_evidence_by_id result = []
       \<or> ra_allowed (rq_admission request) \<and> (\<exists>plan. routed_filter_plan env (wo_index w) request ?f = Inr plan
            \<and> routed_hits rv env (wo_index w) request ?f top_k explain plan result)"
    using routed_run [OF assms(1) refl] by blast+
  from run(2) show ?thesis
  proof (elim disjE conjE exE)
    fix plan
    assume allowed: "ra_allowed (rq_admission request)"
      and plan: "routed_filter_plan env (wo_index w) request ?f = Inr plan"
      and "routed_hits rv env (wo_index w) request ?f top_k explain plan result"
    then obtain terms semantic raw sims fused cs where
      permits: "\<forall>i \<in> set terms \<union> set semantic \<union> set raw. route_permits plan i"
      and fused: "fused = fuse_routes terms semantic raw sims (rv_rrf_k rv)"
      and cs: "scope_boost env (wo_index w) (rq_project_scope request) (fst fused) = Inr cs"
      and final: "finish (candidate_stages rv env (wo_index w) (routed_options rv request ?f top_k (fp_allowed_ids plan)))
            cs (fp_excluded_ids plan) top_k explain = Inr (rr_hits result)"
      and evidence: "rr_evidence_by_id result =
            List.map_filter (\<lambda>c. map_option (Pair (ri_id c)) (map_of (snd fused) (ri_id c))) (rr_hits result)"
      unfolding routed_hits_def by blast
    have same: "ids_mset cs = ids_mset (fst fused)" using cs by (rule scope_boost_mset)
    have "set (hit_ids cs) = set (hit_ids (fst fused))"
      using arg_cong [OF same, of set_mset] by (simp only: set_ids_mset)
    then have ids: "set (hit_ids cs) = set terms \<union> set semantic \<union> set raw"
      unfolding fused fuse_routes_ids .
    have once: "distinct (hit_ids cs)"
    proof (rule ids_mset_distinct)
      show "ids_mset cs \<subseteq># ids_mset (fst fused)" by (simp only: same subset_mset.order_refl)
      show "distinct (hit_ids (fst fused))" unfolding fused by (rule fuse_routes_distinct)
    qed
    have "route_permits plan i" if "i \<in> set (hit_ids (rr_hits result))" for i
      using finished [OF final once] permits that unfolding ids by (auto simp: route_permits_def routed_options_def)
    moreover have "set (map fst (rr_evidence_by_id result)) \<subseteq> set (hit_ids (rr_hits result))"
      by (auto simp: evidence map_filter_def)
    moreover have "int (length (rr_hits result)) \<le> top_k" using finished [OF final once] run(1) by linarith
    ultimately show ?thesis
      using finished [OF final once] plan_permits [OF plan _ assms(2)] allowed by blast
  qed (use run(1) in simp)
qed

section \<open>What the filters of the pipeline guarantee\<close>

lemma run_pipeline_empty: "run_pipeline stages [] = Inr []"
  by (cases stages) auto

lemma run_pipeline_append:
  "run_pipeline (first @ rest) cs = bindR (run_pipeline first cs) (run_pipeline rest)"
proof (induction first arbitrary: cs)
  case (Cons s first)
  obtain name stage where s: "s = (name, stage)" by force
  show ?case by (cases "stage cs") (simp_all add: s Cons.IH run_pipeline_empty)
qed simp

lemma run_pipeline_one: "s [] = Inr [] \<Longrightarrow> run_pipeline [(n, s)] cs = s cs"
  by (cases "s cs") auto

lemma run_pipeline_pair:
  assumes "t [] = Inr []" and "s [] = Inr []"
  shows "run_pipeline [(m, t), (n, s)] cs = bindR (t cs) s"
proof (cases "cs = []")
  case True
  then show ?thesis using assms by simp
next
  case False
  have "run_pipeline [(n, s)] = s" using run_pipeline_one [of s] assms(2) by (simp add: fun_eq_iff)
  then show ?thesis unfolding run_pipeline.simps(2) [of m] if_not_P [OF False] by (simp only:)
qed

lemma map_of_filtered:
  "i \<in> set ids \<Longrightarrow> map_of (map (\<lambda>r. (k r, v r)) (filter (\<lambda>r. k r \<in> set ids) rows)) i
    = map_of (map (\<lambda>r. (k r, v r)) (filter (\<lambda>r. k r \<in> set [i]) rows)) i"
  by (induction rows) auto

text \<open>Whether the state of an item is stale does not depend on the other candidates.\<close>

lemma stale_state_alone:
  assumes "i \<in> set ids"
  shows "stale_state env ix now ids i = stale_state env ix now [i] i"
proof -
  have "map_of (get_search_metadata ix ids) i = map_of (get_search_metadata ix [i]) i"
    unfolding get_search_metadata_def rows_in_def by (rule map_of_filtered [OF assms])
  moreover have "map_of (get_texts ix ids) i = map_of (get_texts ix [i]) i"
    unfolding get_texts_def by (rule map_of_filtered [OF assms])
  ultimately show ?thesis by (simp only: stale_state_def)
qed

definition temporal_now :: "retriever \<Rightarrow> recall_env \<Rightarrow> py_datetime" where
  "temporal_now rv env = (case rv_temporal_now rv of None \<Rightarrow> utc_of (ev_now env) | Some t \<Rightarrow> t)"

definition shown_item :: "retriever \<Rightarrow> recall_env \<Rightarrow> hub_index \<Rightarrow> search_filter \<Rightarrow> pystr \<Rightarrow> bool" where
  "shown_item rv env ix f i \<longleftrightarrow>
     (sf_include_superseded f \<or> \<not> ev_md_superseded env i)
     \<and> (sf_include_stale_state f \<or> \<not> stale_state env ix (temporal_now rv env) [i] i)"

lemma finish_shows:
  assumes final: "finish (candidate_stages rv env ix o') cs ex k explain = Inr hits"
    and "\<not> rv_hopfield_expand rv" and "\<not> rv_graph_expand rv"
    and o': "po_include_superseded o' = sf_include_superseded f" "po_include_stale_state o' = sf_include_stale_state f"
      "po_temporal_now o' = rv_temporal_now rv"
    and i: "i \<in> set (hit_ids hits)"
  shows "shown_item rv env ix f i"
proof -
  define temporal where "temporal = filter_stale_temporal_state env ix (po_include_stale_state o') (po_temporal_now o')"
  define superseded where "superseded = filter_md_superseded env (po_include_superseded o')"
  define rest where "rest = (if rv_mmr_lambda rv \<noteq> None
    then [(lit ''mmr'', mmr_stage env ix (po_top_k o' * 2) (rv_mmr_lambda rv))] else [])"
  define first where "first =
    [(lit ''metadata_phrase'',
        metadata_phrase_boost env ix (po_query o') (po_allowed_ids o') (max (max (rv_bm25_top rv) (rv_vector_top rv)) 20)),
      (lit ''status_handoff_supplement'', supplement_status_handoff env ix (po_query o') (po_allowed_ids o'))]
     @ (if rv_rerank rv then [(lit ''cross_encoder_rerank'', rerank_pool env ix (po_query o') (rv_rerank_top rv))] else [])
     @ (if rv_apply_decay rv then [(lit ''decay'', apply_decay env ix)] else [])
     @ [(lit ''feedback_value'', apply_feedback_value env ix),
        (lit ''adaptive_learning'', apply_adaptive_learning env (po_adapter o') (po_project o')),
        (lit ''status_handoff_boost'', status_handoff_boost env ix (po_query o')),
        (lit ''runtime_evidence'', runtime_evidence_boost env ix (po_query o'))]"
  have stages: "candidate_stages rv env ix o' =
      first @ [(lit ''temporal_state_filter'', temporal), (lit ''supersession_filter'', superseded)] @ rest"
    using assms(2,3) unfolding candidate_stages_def temporal_def superseded_def rest_def first_def by simp
  obtain cs' where run: "run_pipeline (candidate_stages rv env ix o') cs = Inr cs'"
    and ids: "hit_ids hits = hit_ids (slice k (filter (\<lambda>c. ri_id c \<notin> set ex) cs'))"
    using finish_ids [OF final] by blast
  obtain before where "run_pipeline ([(lit ''temporal_state_filter'', temporal),
      (lit ''supersession_filter'', superseded)] @ rest) before = Inr cs'"
    using run unfolding stages run_pipeline_append [of first] bindR_Inr_iff by blast
  moreover have "run_pipeline [(lit ''temporal_state_filter'', temporal), (lit ''supersession_filter'', superseded)] before
      = bindR (temporal before) superseded"
    by (rule run_pipeline_pair)
      (simp_all add: temporal_def superseded_def filter_stale_temporal_state_def filter_md_superseded_def read_ids_def)
  ultimately obtain after where after: "bindR (temporal before) superseded = Inr after" "run_pipeline rest after = Inr cs'"
    unfolding run_pipeline_append by (auto simp: bindR_Inr_iff)
  have "set (hit_ids cs') \<subseteq> set (hit_ids after)"
    using after(2) mmr.selects_ids by (auto simp: rest_def bindR_Inr_iff split: if_splits)
  moreover have "i \<in> set (hit_ids cs')"
    using i unfolding ids by (auto dest!: set_slice [THEN subsetD])
  ultimately have "i \<in> set (hit_ids after)" by blast
  then show ?thesis
    using after(1) stale_state_alone [of i "hit_ids before" env ix]
    by (auto simp: temporal_def superseded_def filter_stale_temporal_state_def filter_md_superseded_def shown_item_def
        temporal_now_def bindR_Inr_iff o' split: if_splits)
qed

text \<open>C28. Without the expansions, which run after the filters, no search returns an item whose file says it is
  superseded or whose state is stale, unless the filter asks for such items.\<close>

theorem unexpanded_search_hides_filtered:
  assumes "\<not> rv_hopfield_expand rv" and "\<not> rv_graph_expand rv"
    and "search rv env query top_k filters explain recording adapter w = (Inr hits, w')
      \<or> (\<exists>result. search_routed rv env sha256 clock deadline request top_k filters explain recording shadow shadow_top_k w
            = (Inr result, w') \<and> hits = rr_hits result)"
    and "c \<in> set hits"
  shows "(sf_include_superseded (effective_filter filters) \<or> \<not> ev_md_superseded env (ri_id c))
    \<and> (sf_include_stale_state (effective_filter filters)
       \<or> \<not> stale_state env (wo_index w) (temporal_now rv env) [ri_id c] (ri_id c))"
proof -
  have i: "ri_id c \<in> set (hit_ids hits)" using assms(4) by simp
  let ?f = "effective_filter filters"
  have "shown_item rv env (wo_index w) ?f (ri_id c)"
    using assms(3)
  proof (elim disjE exE conjE)
    let ?o = "search_options rv query top_k (allowed_ids_for env (wo_index w) ?f) ?f adapter"
    assume "search rv env query top_k filters explain recording adapter w = (Inr hits, w')"
    from search_run [OF this refl] assms(4) obtain cs where
      "finish (candidate_stages rv env (wo_index w) ?o) cs [] top_k explain = Inr hits" by auto
    then show ?thesis by (rule finish_shows [OF _ assms(1,2) _ _ _ i]) (simp_all add: search_options_def)
  next
    fix result
    assume "search_routed rv env sha256 clock deadline request top_k filters explain recording shadow shadow_top_k w
        = (Inr result, w')" and hits: "hits = rr_hits result"
    from routed_run [OF this(1) refl] assms(4)
    obtain plan where "routed_hits rv env (wo_index w) request ?f top_k explain plan result" unfolding hits by auto
    then obtain cs where "finish (candidate_stages rv env (wo_index w) (routed_options rv request ?f top_k (fp_allowed_ids plan)))
        cs (fp_excluded_ids plan) top_k explain = Inr hits"
      unfolding routed_hits_def hits by blast
    then show ?thesis by (rule finish_shows [OF _ assms(1,2) _ _ _ i]) (simp_all add: routed_options_def)
  qed
  then show ?thesis by (simp add: shown_item_def)
qed

text \<open>What the pipeline keeps.\<close>

lemma pipeline_keeps:
  assumes "\<And>name stage cs cs'. (name, stage) \<in> set stages \<Longrightarrow> stage cs = Inr cs' \<Longrightarrow> i \<in> set (hit_ids cs) \<Longrightarrow> i \<in> set (hit_ids cs')"
    and "run_pipeline stages cs = Inr cs'" and "i \<in> set (hit_ids cs)"
  shows "i \<in> set (hit_ids cs')"
  using assms
proof (induction stages arbitrary: cs)
  case (Cons s stages)
  obtain name stage where s: "s = (name, stage)" by force
  have "cs \<noteq> []" using Cons.prems(3) by auto
  then obtain mid where mid: "stage cs = Inr mid" "run_pipeline stages mid = Inr cs'"
    using Cons.prems(2) by (auto simp: s bindR_Inr_iff)
  have "i \<in> set (hit_ids mid)" using Cons.prems(1) [of name stage cs mid] Cons.prems(3) mid(1) by (simp add: s)
  with Cons.prems(1) show ?case by (intro Cons.IH [OF _ mid(2)]) (blast intro: list.set_intros(2))+
qed simp

lemmas keeping_interpretations =
  phrase.keeping_stage_axioms supplement.keeping_stage_axioms rerank.keeping_stage_axioms decay.keeping_stage_axioms
  feedback_value.keeping_stage_axioms learning.keeping_stage_axioms handoff_boost.keeping_stage_axioms
  runtime_boost.keeping_stage_axioms hopfield.keeping_stage_axioms graph.keeping_stage_axioms

lemma candidate_stages_keep:
  assumes "(name, stage) \<in> set (candidate_stages rv env ix o')" and "rv_mmr_lambda rv = None"
  shows "keeping_stage stage
    \<or> stage = filter_stale_temporal_state env ix (po_include_stale_state o') (po_temporal_now o')
    \<or> stage = filter_md_superseded env (po_include_superseded o')"
  using assms by (auto simp: candidate_stages_def keeping_interpretations split: if_splits)

lemma filters_keep:
  assumes "(sf_include_superseded f \<or> \<not> ev_md_superseded env i)
      \<and> (sf_include_stale_state f \<or> \<not> stale_state env ix now [i] i)"
    and "i \<in> set (hit_ids cs)"
  shows "filter_md_superseded env (sf_include_superseded f) cs = Inr cs' \<Longrightarrow> i \<in> set (hit_ids cs')"
    and "filter_stale_temporal_state env ix (sf_include_stale_state f) t cs = Inr cs' \<Longrightarrow>
      now = (case t of None \<Rightarrow> utc_of (ev_now env) | Some t \<Rightarrow> t) \<Longrightarrow> i \<in> set (hit_ids cs')"
  using assms stale_state_alone [OF assms(2), of env ix]
  by (auto simp: filter_md_superseded_def filter_stale_temporal_state_def bindR_Inr_iff split: if_splits)

lemma finish_complete:
  assumes final: "finish (candidate_stages rv env ix o') cs ex k explain = Inr hits"
    and "rv_mmr_lambda rv = None"
    and o': "po_include_superseded o' = sf_include_superseded f" "po_include_stale_state o' = sf_include_stale_state f"
      "po_temporal_now o' = rv_temporal_now rv"
    and few: "int (length hits) < k"
    and i: "i \<in> set (hit_ids cs)" "i \<notin> set ex" "shown_item rv env ix f i"
  shows "i \<in> set (hit_ids hits)"
proof -
  obtain cs' where run: "run_pipeline (candidate_stages rv env ix o') cs = Inr cs'"
    and ids: "hit_ids hits = hit_ids (slice k (filter (\<lambda>c. ri_id c \<notin> set ex) cs'))"
    using finish_ids [OF final] by blast
  have "i \<in> set (hit_ids cs')"
  proof (rule pipeline_keeps [OF _ run i(1)])
    fix name stage cs cs'
    assume stage: "(name, stage) \<in> set (candidate_stages rv env ix o')" "stage cs = Inr cs'" "i \<in> set (hit_ids cs)"
    note filters = filters_keep [OF i(3) [unfolded shown_item_def temporal_now_def] stage(3)]
    show "i \<in> set (hit_ids cs')"
      using candidate_stages_keep [OF stage(1) assms(2)]
    proof (elim disjE)
      assume "keeping_stage stage"
      from keeping_stage.keeps_ids [OF this stage(2)] stage(3) show ?thesis by blast
    qed (use stage(2) filters o' in simp_all)
  qed
  moreover have "slice k (filter (\<lambda>c. ri_id c \<notin> set ex) cs') = filter (\<lambda>c. ri_id c \<notin> set ex) cs'"
  proof -
    have "length (slice k (filter (\<lambda>c. ri_id c \<notin> set ex) cs')) = length hits" using ids by (metis length_map)
    then show ?thesis using few by (auto simp: slice_def)
  qed
  ultimately show ?thesis using i(2) unfolding ids by auto
qed

text \<open>C29. A search that returns fewer than \<open>top_k\<close> items returns every fused candidate that its filters do
  not drop: without diversity, no stage loses a candidate.\<close>

theorem short_results_are_complete:
  assumes "search rv env query top_k filters explain recording adapter w = (Inr hits, w')"
    and "rrf_candidates rv env (wo_index w) query (allowed_ids_for env (wo_index w) (effective_filter filters)) = Inr cs"
    and "rv_mmr_lambda rv = None" and "int (length hits) < top_k" and "c \<in> set cs"
    and "sf_include_superseded (effective_filter filters) \<or> \<not> ev_md_superseded env (ri_id c)"
    and "sf_include_stale_state (effective_filter filters)
      \<or> \<not> stale_state env (wo_index w) (temporal_now rv env) [ri_id c] (ri_id c)"
  shows "ri_id c \<in> set (hit_ids hits)"
  using search_run [OF assms(1) refl]
proof (elim disjE exE conjE)
  assume "po_allowed_ids (search_options rv query top_k (allowed_ids_for env (wo_index w) (effective_filter filters))
      (effective_filter filters) adapter) = Some []"
  then have "permitted (Some []) (ri_id c)" using rrf_candidates_ids [OF assms(2)] assms(5) by (simp add: search_options_def)
  then show ?thesis by (simp add: permitted_def)
next
  fix ds assume "rrf_candidates rv env (wo_index w) query (po_allowed_ids (search_options rv query top_k
      (allowed_ids_for env (wo_index w) (effective_filter filters)) (effective_filter filters) adapter)) = Inr ds"
    and final: "finish (candidate_stages rv env (wo_index w) (search_options rv query top_k
      (allowed_ids_for env (wo_index w) (effective_filter filters)) (effective_filter filters) adapter)) ds [] top_k explain
      = Inr hits"
  then have "ds = cs" using assms(2) by (simp add: search_options_def)
  moreover have "ri_id c \<in> set (hit_ids cs)" using assms(5) by simp
  moreover have "shown_item rv env (wo_index w) (effective_filter filters) (ri_id c)"
    using assms(6,7) by (simp add: shown_item_def)
  ultimately show ?thesis
    using finish_complete [OF final assms(3) _ _ _ assms(4), where f = "effective_filter filters"]
    by (simp only: search_options_def pipeline_options.select_convs list.set empty_iff not_False_eq_True)
qed

section \<open>Nudges\<close>

lemma fl64_256: "fl64 (13 / 256) = 13 / 256" "fl64 (243 / 256) = 243 / 256" "fl64 (269 / 256) = 269 / 256"
proof -
  have "fl64 (of_int k * 2 powi (- 8)) = of_int k * 2 powi (- 8)" if "0 < k" "k < 1000" for k
    using that by (intro fl64_exact_pos) simp_all
  from this [of 13] this [of 243] this [of 269]
  show "fl64 (13 / 256) = 13 / 256" "fl64 (243 / 256) = 243 / 256" "fl64 (269 / 256) = 269 / 256"
    by (simp_all add: power_int_def power_one_over)
qed

lemma ranking_weight_bounds:
  assumes "\<And>x. \<bar>fo_tanh fo x\<bar> \<le> 1"
  shows "243 / 256 \<le> ranking_weight fo m \<and> ranking_weight fo m \<le> 269 / 256"
proof -
  define t where "t = fo_tanh fo (fo_log fo (max m (fl64 (1 / 100))))"
  have t: "- 1 \<le> t" "t \<le> 1" using assms [of "fo_log fo (max m (fl64 (1 / 100)))"] by (simp_all add: t_def abs_le_iff)
  have "rank_weight_max \<le> 13 / 256" "0 \<le> rank_weight_max"
    using fl64_mono [of "5 / 100" "13 / 256"] fl64_256(1) fl64_nonneg by (simp_all add: rank_weight_max_def)
  then have "rank_weight_max * t \<le> 13 / 256" "- (13 / 256) \<le> rank_weight_max * t"
    using t mult_left_mono [of t 1 rank_weight_max] mult_left_mono [of "- 1" t rank_weight_max] by simp_all
  then have "fl64 (rank_weight_max * t) \<le> 13 / 256" "- (13 / 256) \<le> fl64 (rank_weight_max * t)"
    using fl64_mono [of "rank_weight_max * t" "13 / 256"] fl64_mono [of "- (13 / 256)" "rank_weight_max * t"]
    unfolding fl64_minus fl64_256 by simp_all
  then have "243 / 256 \<le> 1 + fl64 (rank_weight_max * t)" "1 + fl64 (rank_weight_max * t) \<le> 269 / 256" by simp_all
  from fl64_mono [OF this(1)] fl64_mono [OF this(2)] show ?thesis
    unfolding ranking_weight_def t_def [symmetric] fl64_256 by simp
qed

text \<open>C31. Age, access and feedback only nudge: whatever the index says of an item, each of the two stages
  multiplies its score with one factor within 5.1 percent of one.\<close>

theorem decay_and_feedback_only_nudge:
  assumes "\<And>x. \<bar>fo_tanh (floats env) x\<bar> \<le> 1"
    and "apply_decay env ix cs = Inr cs' \<or> apply_feedback_value env ix cs = Inr cs'" and "c' \<in> set cs'"
  shows "\<exists>c \<in> set cs. c' = c \<or> (\<exists>w. 243 / 256 \<le> w \<and> w \<le> 269 / 256 \<and> c' = rescored c (fl64 (ri_score c * w)))"
proof -
  let ?one = "\<lambda>c c'. c' = c \<or> (\<exists>m. c' = rescored c (fl64 (ri_score c * ranking_weight (floats env) m)))"
  have decay: "?one c (case row of None \<Rightarrow> c | Some d \<Rightarrow> decayed env c d)" for c row
    by (cases row) (auto simp: decayed_def)
  have feedback: "?one c (case row of None \<Rightarrow> c | Some (support, contradict, gain) \<Rightarrow> rescored c (fl64 (ri_score c
      * ranking_weight (floats env) (feedback_value_multiplier support contradict gain))))" for c row
    by (cases row) (auto simp: case_prod_beta)
  have "\<exists>c \<in> set cs. ?one c c'"
    using assms(2)
  proof (elim disjE)
    assume "apply_decay env ix cs = Inr cs'"
    then obtain c row where "c \<in> set cs" "c' = (case row of None \<Rightarrow> c | Some d \<Rightarrow> decayed env c d)"
      using assms(3) by (auto simp: apply_decay_def bindR_Inr_iff Let_def)
    then show ?thesis using decay [of c row] by blast
  next
    assume "apply_feedback_value env ix cs = Inr cs'"
    then obtain c row where "c \<in> set cs" "c' = (case row of None \<Rightarrow> c | Some (support, contradict, gain) \<Rightarrow>
        rescored c (fl64 (ri_score c * ranking_weight (floats env) (feedback_value_multiplier support contradict gain))))"
      using assms(3) by (auto simp: apply_feedback_value_def bindR_Inr_iff Let_def)
    then show ?thesis using feedback [of c row] by blast
  qed
  then show ?thesis using ranking_weight_bounds [of "floats env", OF assms(1)] by blast
qed

section \<open>A routed search returns\<close>

text \<open>
  The places that read the index, or ask for the file of an item, outside the \<open>try\<close> blocks, in a search
  without reranking and associative expansion.
\<close>

definition unguarded_reads :: "string list" where
  "unguarded_reads =
     [''allowed_ids'', ''superseded_ids'', ''projects'', ''phrase_rows'', ''handoff_ids'', ''decay_data'', ''feedback_data'',
      ''handoff_metadata'', ''runtime_metadata'', ''temporal_metadata'', ''temporal_texts'', ''item_file'',
      ''mmr_embeddings'', ''graph_neighbors'', ''shadow_allowed_ids'', ''shadow_superseded_ids'']"

definition read_error :: "recall_env \<Rightarrow> py_exn \<Rightarrow> bool" where
  "read_error env e \<longleftrightarrow>
     ev_profile env = Inl e
     \<or> list_ex (\<lambda>place. \<exists>ids. ev_failure env place ids = Some e) unguarded_reads"

text \<open>A result that is an error only where an unguarded read gave that error.\<close>

definition raises_only_read_errors :: "recall_env \<Rightarrow> 'a result \<Rightarrow> bool" where
  "raises_only_read_errors env r \<longleftrightarrow> (\<forall>e. r = Inl e \<longrightarrow> read_error env e)"

named_theorems read_errors \<open>results that raise only errors of unguarded reads\<close>

lemma raises_Inr [read_errors]: "raises_only_read_errors env (Inr a)"
  by (simp add: raises_only_read_errors_def)

lemma raises_bindR [read_errors]:
  "raises_only_read_errors env r \<Longrightarrow> (\<And>a. raises_only_read_errors env (f a)) \<Longrightarrow> raises_only_read_errors env (bindR r f)"
  by (cases r) (simp_all add: raises_only_read_errors_def)

lemma raises_if [read_errors]:
  "raises_only_read_errors env r \<Longrightarrow> raises_only_read_errors env s \<Longrightarrow> raises_only_read_errors env (if b then r else s)"
  by simp

lemma raises_profile [read_errors]: "raises_only_read_errors env (ev_profile env)"
  by (simp add: raises_only_read_errors_def read_error_def)

lemma raises_read:
  "place \<in> set unguarded_reads \<Longrightarrow> raises_only_read_errors env (read_index env place ids)"
  by (auto simp: raises_only_read_errors_def read_error_def read_index_def list_ex_iff split: option.splits)

lemma raises_read_ids:
  "place \<in> set unguarded_reads \<Longrightarrow> raises_only_read_errors env (read_ids env place ids)"
  by (simp add: read_ids_def raises_read read_errors)

lemma raises_read_each:
  "place \<in> set unguarded_reads \<Longrightarrow> raises_only_read_errors env (read_each env place ids)"
  by (induction ids) (simp_all add: raises_read read_errors)

lemmas raises_reads = raises_read raises_read_ids raises_read_each

lemma raises_stages:
  "raises_only_read_errors env (metadata_phrase_boost env ix query allowed limit cs)"
  "raises_only_read_errors env (supplement_status_handoff env ix query allowed cs)"
  "raises_only_read_errors env (apply_decay env ix cs)"
  "raises_only_read_errors env (apply_feedback_value env ix cs)"
  "raises_only_read_errors env (apply_adaptive_learning env adapter project cs)"
  "raises_only_read_errors env (status_handoff_boost env ix query cs)"
  "raises_only_read_errors env (runtime_evidence_boost env ix query cs)"
  "raises_only_read_errors env (filter_stale_temporal_state env ix include now cs)"
  "raises_only_read_errors env (filter_md_superseded env include cs)"
  "raises_only_read_errors env (mmr_stage env ix k lam cs)"
  "raises_only_read_errors env (expand_via_graph env ix k depth allowed cs)"
  by (simp_all add: metadata_phrase_boost_def supplement_status_handoff_def apply_decay_def apply_feedback_value_def
      apply_adaptive_learning_def status_handoff_boost_def runtime_evidence_boost_def filter_stale_temporal_state_def
      filter_md_superseded_def mmr_stage_def expand_via_graph_def Let_def read_errors raises_reads unguarded_reads_def)

lemma raises_pipeline:
  assumes "\<And>name stage cs. (name, stage) \<in> set stages \<Longrightarrow> raises_only_read_errors env (stage cs)"
  shows "raises_only_read_errors env (run_pipeline stages cs)"
  using assms
proof (induction stages arbitrary: cs)
  case (Cons s stages)
  obtain name stage where s: "s = (name, stage)" by force
  have "raises_only_read_errors env (stage cs)" by (rule Cons.prems [of name]) (simp add: s)
  moreover have "raises_only_read_errors env (run_pipeline stages mid)" for mid
    by (rule Cons.IH) (auto intro: Cons.prems)
  ultimately show ?case by (auto simp: s intro!: read_errors)
qed (simp add: read_errors)

text \<open>Otherwise only the cross encoder and the associative expansion can raise.\<close>

lemma raises_candidate_stages:
  assumes "\<not> rv_rerank rv" and "\<not> rv_hopfield_expand rv"
  shows "raises_only_read_errors env (run_pipeline (candidate_stages rv env ix o') cs)"
proof (rule raises_pipeline)
  fix name stage cs assume "(name, stage) \<in> set (candidate_stages rv env ix o')"
  then show "raises_only_read_errors env (stage cs)"
    using assms by (auto simp: candidate_stages_def raises_stages split: if_splits)
qed

lemma finish_Inl:
  assumes "finish stages cs ex k explain = Inl e"
  shows "run_pipeline stages cs = Inl e"
  using finish_untraced [of stages cs ex k explain] by (cases "run_pipeline stages cs") (simp_all add: assms)

lemma raises_finish:
  "\<not> rv_rerank rv \<Longrightarrow> \<not> rv_hopfield_expand rv \<Longrightarrow>
   raises_only_read_errors env (finish (candidate_stages rv env ix o') cs ex k explain)"
  using raises_candidate_stages unfolding raises_only_read_errors_def by (blast dest: finish_Inl)

lemma raises_scope_boost: "raises_only_read_errors env (scope_boost env ix scope cs)"
  by (cases scope) (simp_all add: scope_boost_def Let_def read_errors raises_reads unguarded_reads_def)

lemma raises_plan: "raises_only_read_errors env (routed_filter_plan env ix request f)"
  by (simp add: routed_filter_plan_def Let_def read_allowed_ids_def read_superseded_ids_def read_errors raises_reads
      unguarded_reads_def)

lemma gather_returns:
  assumes clock: "mono clock"
  shows "\<exists>r w'. gather_routes rv env clock deadline plan request w = (Inr r, w')"
proof -
  have step: "\<exists>r w'. bindP m f w = (Inr r, w')"
    if "\<exists>a w'. m w = (Inr a, w')" "\<And>a w. \<exists>r w'. f a w = (Inr r, w')"
    for m :: "(recall_world, 'a) prog" and f :: "'a \<Rightarrow> (recall_world, 'b) prog" and w
    using that by (auto simp: bindP_def)
  have lexical: "\<exists>r w'. attempt_route clock route (lexical_route rv env plan q) w = (Inr r, w')" for route q w
    by (rule attempt_returns [OF clock]) (simp_all add: reads)
  have sem: "\<exists>r w'. attempt_route clock route (semantic_route rv env em clock deadline plan q) w = (Inr r, w')" for route em q w
    by (rule attempt_returns [OF clock]) (simp_all add: reads)
  have "\<exists>r w'. (if b then attempt_route clock route (lexical_route rv env plan q) else ret x) w = (Inr r, w')" for b route q x w
    using lexical by simp
  moreover have "\<exists>r w'. (case rv_embedder rv of
                  Some em \<Rightarrow> if c em then attempt_route clock route (semantic_route rv env em clock deadline plan q) else ret x
                | None \<Rightarrow> ret y) w = (Inr r, w')" for c route q x y w
    using sem by (cases "rv_embedder rv") simp_all
  ultimately show ?thesis
    unfolding gather_routes_def Let_def by (intro step) (blast | simp)+
qed

definition digest_digit :: "int \<Rightarrow> bool" where
  "digest_digit c \<longleftrightarrow> 48 \<le> c \<and> c \<le> 57 \<or> 97 \<le> c \<and> c \<le> 102"

definition hex_digests :: "(pystr \<Rightarrow> pystr) \<Rightarrow> bool" where
  "hex_digests sha256 \<longleftrightarrow> (\<forall>x. length (sha256 x) = 64 \<and> list_all digest_digit (sha256 x))"

lemma shadow_traces_total:
  assumes sha: "hex_digests sha256"
  shows "\<exists>ts. shadow_traces sha256 visible top_k ids traces = Inr ts"
proof (induction ids arbitrary: traces)
  case (Cons i ids)
  have digest: "take 7 (lit ''sha256:'' @ sha256 i) = lit ''sha256:''" "length (lit ''sha256:'' @ sha256 i) = 71"
    "drop 7 (lit ''sha256:'' @ sha256 i) = sha256 i"
    using sha by (simp_all add: lit_def hex_digests_def)
  have project: "safe_shadow_project sha256 p \<noteq> [] \<and> length (safe_shadow_project sha256 p) \<le> 80" for p
    using sha by (cases p) (auto simp: safe_shadow_project_def lit_def hex_digests_def)
  have checked: "\<exists>t. check_project_shadow
      \<lparr>sh_candidate_id_digest = lit ''sha256:'' @ sha256 i, sh_project = safe_shadow_project sha256 p,
       sh_route = lit ''lexical_raw_fallback'', sh_reason = r, sh_score_bucket = b\<rparr> = Inr t" for p r b
    using digest project [of p] sha
    by (simp add: check_project_shadow_def digest_digit_def [abs_def] hex_digests_def not_less del: length_append)
  then have "\<exists>ts. bindR (check_project_shadow
      \<lparr>sh_candidate_id_digest = lit ''sha256:'' @ sha256 i, sh_project = safe_shadow_project sha256 p,
       sh_route = lit ''lexical_raw_fallback'', sh_reason = r, sh_score_bucket = b\<rparr>)
      (\<lambda>t. if c then Inr (traces @ [t]) else shadow_traces sha256 visible top_k ids (traces @ [t])) = Inr ts" for p r b c
  proof -
    obtain t where t: "check_project_shadow
      \<lparr>sh_candidate_id_digest = lit ''sha256:'' @ sha256 i, sh_project = safe_shadow_project sha256 p,
       sh_route = lit ''lexical_raw_fallback'', sh_reason = r, sh_score_bucket = b\<rparr> = Inr t" using checked by blast
    obtain ts where "shadow_traces sha256 visible top_k ids (traces @ [t]) = Inr ts" using Cons.IH by blast
    then show ?thesis by (simp add: t)
  qed
  then show ?case using Cons.IH by (cases "visible i") (simp_all only: shadow_traces.simps option.case)
qed simp

lemma raises_shadow_traces:
  assumes "hex_digests sha256"
  shows "raises_only_read_errors env (project_shadow_traces rv env sha256 ix request f k)"
proof -
  have "raises_only_read_errors env (shadow_traces sha256 visible top_k ids [])" for visible top_k ids
    using shadow_traces_total [OF assms, of visible top_k ids "[]"] by (auto simp: read_errors)
  then have "raises_only_read_errors env (case r of Inl e \<Rightarrow> Inr [] | Inr hits \<Rightarrow> shadow_traces sha256 (visible hits) top_k (ids hits) [])"
    for r :: "index_hit list result" and visible top_k ids
    by (cases r) (simp_all add: read_errors)
  then show ?thesis
    by (cases "rq_project_scope request")
      (simp_all add: project_shadow_traces_def Let_def read_allowed_ids_def read_superseded_ids_def read_errors raises_reads
        unguarded_reads_def)
qed

text \<open>A program that returns, or raises the error of an unguarded read and leaves the index as it was.\<close>

definition returns_or_read_error :: "recall_env \<Rightarrow> (recall_world, 'a) prog \<Rightarrow> recall_world \<Rightarrow> bool" where
  "returns_or_read_error env m w \<longleftrightarrow>
     (case m w of (Inr a, w') \<Rightarrow> True | (Inl e, w') \<Rightarrow> read_error env e \<and> wo_index w' = wo_index w)"

lemma returns_lifted:
  assumes "raises_only_read_errors env r"
    and "\<And>a. r = Inr a \<Longrightarrow> returns_or_read_error env (f a) w"
  shows "returns_or_read_error env (bindP (lift_result r) f) w"
  using assms by (cases r) (simp_all add: returns_or_read_error_def raises_only_read_errors_def)

lemma returns_value [simp]: "returns_or_read_error env (Pair (Inr a)) w" "returns_or_read_error env (ret a) w"
  by (simp_all add: returns_or_read_error_def)

lemma returns_at: "returns_or_read_error env (\<lambda>_. m w) w \<longleftrightarrow> returns_or_read_error env m w"
  by (simp add: returns_or_read_error_def)

lemma returns_routes:
  assumes clock: "mono clock" and sha: "hex_digests sha256" and "\<not> rv_rerank rv" and "\<not> rv_hopfield_expand rv"
  shows "returns_or_read_error env
    (search_routes rv env sha256 clock deadline request f top_k explain recording shadow shadow_top_k plan ix) w"
proof -
  obtain r w1 where routes: "gather_routes rv env clock deadline plan request w = (Inr r, w1)"
    using gather_returns [OF clock] by blast
  obtain terms semantic raw where r: "r = (terms, semantic, raw)" by (rule prod_cases3)
  have same: "wo_index w1 = wo_index w"
    using only_reads_gather [of rv env clock deadline plan request] routes by (auto simp: only_reads_def dest: spec [of _ w])
  have shadows: "returns_or_read_error env (bindP (if shadow \<and> final = []
        then bindP (asks wo_index) (\<lambda>ix. lift_result (project_shadow_traces rv env sha256 ix request f shadow_top_k))
        else ret []) (\<lambda>shadows. ret (g shadows))) w1" for final :: "retrieved_item list" and g :: "project_shadow list \<Rightarrow> routed_result"
    using raises_shadow_traces [OF sha, of env rv "wo_index w1" request f shadow_top_k]
    by (cases "project_shadow_traces rv env sha256 (wo_index w1) request f shadow_top_k")
      (auto simp: returns_or_read_error_def raises_only_read_errors_def bindP_def)
  have recorded: "returns_or_read_error env (bindP (record_results rv env recording final) (\<lambda>_. bindP (if shadow \<and> final = []
        then bindP (asks wo_index) (\<lambda>ix. lift_result (project_shadow_traces rv env sha256 ix request f shadow_top_k))
        else ret []) (\<lambda>shadows. ret (g shadows)))) w1" for final :: "retrieved_item list" and g :: "project_shadow list \<Rightarrow> routed_result"
  proof (cases "final = []")
    case True
    then have "record_results rv env recording final w1 = (Inr (), w1)" by (simp add: record_results_def)
    then show ?thesis using shadows [of final g] by (simp only: bindP_run(1) returns_or_read_error_def)
  qed (simp add: returns_or_read_error_def bindP_run(1) [OF record_results_run])
  have "returns_or_read_error env (\<lambda>_. search_routes rv env sha256 clock deadline request f top_k explain recording shadow
      shadow_top_k plan ix w) w1"
    unfolding search_routes_def bindP_run(1) [where m = "gather_routes rv env clock deadline plan request", OF routes] r Let_def prod.case
      returns_at
    using recorded raises_scope_boost raises_finish [OF assms(3,4)] by (intro returns_lifted)
  then show ?thesis by (simp only: returns_or_read_error_def same)
qed

text \<open>C27. A routed search with a limit that is not negative returns a result, or raises an error that the load
  of the learning profile gave or that SQLite or the operating system raised at one of the reads listed
  in \<open>unguarded_reads\<close>, and then it has not changed the index. So it returns when those reads succeed,
  whatever else fails: an embedder, a text or vector search or a deadline that fails is a trace of the
  result. It rests on a clock that does not go back and on digests of 64 hexadecimal digits, and on
  neither reranking nor associative expansion being on.\<close>

theorem routed_search_returns:
  assumes clock: "mono clock"
    and sha: "hex_digests sha256"
    and "\<not> rv_rerank rv" and "\<not> rv_hopfield_expand rv" and "0 \<le> top_k"
  shows "case search_routed rv env sha256 clock deadline request top_k filters explain recording shadow shadow_top_k w of
      (Inr result, w') \<Rightarrow> True
    | (Inl e, w') \<Rightarrow> wo_index w' = wo_index w
        \<and> (ev_profile env = Inl e \<or> list_ex (\<lambda>place. \<exists>ids. ev_failure env place ids = Some e) unguarded_reads)"
proof -
  let ?f = "effective_filter filters"
  obtain u w0 where tick: "(if deadline = None then ret 0 else read_route_clock clock) w = (Inr u, w0)"
    and w0: "wo_index w0 = wo_index w"
    by (cases "deadline = None") (simp_all add: read_route_clock_def bindP_def)
  have planned: "returns_or_read_error env (bindP (lift_result (routed_filter_plan env (wo_index w0) request ?f)) (\<lambda>plan.
          if fp_allowed_ids plan = Some [] then
            bindP (if shadow then lift_result (project_shadow_traces rv env sha256 (wo_index w0) request ?f shadow_top_k) else ret [])
              (\<lambda>shadows. ret (routed_empty request [] shadows))
          else search_routes rv env sha256 clock deadline request ?f top_k explain recording shadow shadow_top_k plan (wo_index w0))) w0"
    by (intro returns_lifted raises_plan)
      (auto intro: returns_routes [OF assms(1-4)] returns_value returns_lifted raises_shadow_traces [OF sha])
  have "returns_or_read_error env (\<lambda>_. search_routed rv env sha256 clock deadline request top_k filters explain recording shadow
      shadow_top_k w) w0"
    using assms(5) planned
    unfolding search_routed_def bindP_run(1) [where m = "if deadline = None then ret 0 else read_route_clock clock", OF tick]
      effective_filter_def [symmetric]
    by (simp add: returns_or_read_error_def Let_def)
  then show ?thesis
    by (auto simp: returns_or_read_error_def read_error_def w0 split: prod.splits sum.splits)
qed

section \<open>Searches of an index with one item\<close>

definition sample_env :: recall_env where
  "sample_env =
     \<lparr>ev_sql = sample_sql, ev_now = 0, ev_fromisoformat = (\<lambda>_. Inl (ValueError [])), ev_md_superseded = (\<lambda>_. False),
      ev_cross_encoder = (\<lambda>_. Inr []), ev_profile = Inr [], ev_repr = (\<lambda>_. []), ev_coerce = (\<lambda>_. Inl []),
      ev_set_order = (\<lambda>xs. xs), ev_failure = (\<lambda>_ _. None)\<rparr>"

lemma sample_reads [simp]:
  "read_index sample_env place ids = Inr ()" "read_ids sample_env place ids = Inr ()"
  "read_each sample_env place ids = Inr ()" "\<not> read_error sample_env e"
  by (induction ids) (simp_all add: read_index_def read_ids_def read_error_def list_ex_iff sample_env_def)

lemma sample_read_allowed:
  "read_allowed_ids sample_env ix place f = Inr (allowed_ids_for sample_env ix f)"
  by (auto simp: read_allowed_ids_def allowed_ids_for_def)

lemma sample_finish:
  assumes "\<not> rv_rerank rv" and "\<not> rv_hopfield_expand rv"
  shows "\<exists>hits. finish (candidate_stages rv sample_env ix o') cs ex k explain = Inr hits"
  using raises_finish [OF assms, of sample_env ix o' cs ex k explain]
  by (cases "finish (candidate_stages rv sample_env ix o') cs ex k explain") (simp_all add: raises_only_read_errors_def)

text \<open>A retriever with default settings and an embedder that is not ready.\<close>

definition sample_retriever :: retriever where
  "sample_retriever =
     \<lparr>rv_embedder = Some \<lparr>em_degraded = True, em_embed = (\<lambda>_. Inr [])\<rparr>, rv_rrf_k = 60, rv_bm25_top = 20,
      rv_vector_top = 20, rv_bm25_weight = 1, rv_vector_weight = 1, rv_query_expansion = False, rv_rerank = False,
      rv_rerank_top = 10, rv_apply_decay = True, rv_record_access = True, rv_graph_expand = False, rv_graph_depth = 1,
      rv_hopfield_expand = False, rv_hopfield_top = 20, rv_hopfield_beta = 8, rv_mmr_lambda = None,
      rv_temporal_now = None\<rparr>"

definition sample_world :: recall_world where
  "sample_world = \<lparr>wo_index = sample_hub, wo_ticks = 0\<rparr>"

lemma sample_settings [simp]:
  "\<not> rv_rerank sample_retriever" "\<not> rv_hopfield_expand sample_retriever" "\<not> rv_graph_expand sample_retriever"
  "rv_mmr_lambda sample_retriever = None" "wo_index sample_world = sample_hub" "ev_sql sample_env = sample_sql"
  by (simp_all add: sample_retriever_def sample_world_def sample_env_def)

lemma sample_hub_rows: "ix_meta sample_hub = [index_row sample_item]"
  using upsert_Inr [OF sample_upsert] by (simp add: empty_index_def)

lemma sample_not_superseded: "\<not> is_superseded (index_row sample_item)"
  by (simp add: is_superseded_def index_row_def sample_item_def given_text_def)

lemma sample_allowed: "allowed_ids_for sample_env sample_hub (effective_filter None) = Some [mi_id sample_item]"
  using sample_not_superseded
  by (simp add: allowed_ids_for_def effective_filter_def default_filter_def filter_is_empty_def filter_ids_def
      row_clauses_def sample_hub_rows)

lemma sample_candidates:
  "\<exists>cs. rrf_candidates sample_retriever sample_env sample_hub query (Some [mi_id sample_item]) = Inr cs
     \<and> set (hit_ids cs) = {mi_id sample_item}"
  by (simp add: rrf_candidates_def Let_def bm25_search_def sample_matches limit_rows_def within_allowed_def
      sample_retriever_def rrf_fusion_set [of "[mi_id sample_item]" "[]" 60 1 1, simplified])

lemma sample_shown: "shown_item sample_retriever sample_env sample_hub f i"
  by (simp add: shown_item_def sample_env_def stale_state_def item_from_metadata_def make_item_def split: option.split)

lemma single_id: "distinct ids \<Longrightarrow> set ids = {i} \<Longrightarrow> ids = [i]"
  by (cases ids) (auto simp: subset_singleton_iff)

lemma sample_search:
  "\<exists>hits w'. search sample_retriever sample_env query 3 None explain recording adapter sample_world = (Inr hits, w')
     \<and> hit_ids hits = [mi_id sample_item]"
proof -
  let ?o = "search_options sample_retriever query 3 (Some [mi_id sample_item]) (effective_filter None) adapter"
  let ?stages = "candidate_stages sample_retriever sample_env sample_hub ?o"
  obtain cs where cs: "rrf_candidates sample_retriever sample_env sample_hub query (Some [mi_id sample_item]) = Inr cs"
      "set (hit_ids cs) = {mi_id sample_item}" using sample_candidates by blast
  obtain hits where hits: "finish ?stages cs [] 3 explain = Inr hits"
    using sample_finish sample_settings by blast
  have facts: "distinct (hit_ids hits)" "length hits \<le> 3" "set (hit_ids hits) \<subseteq> {mi_id sample_item}"
    using finished [OF hits] rrf_candidates_ids [OF cs(1)] cs(2) by (auto simp: search_options_def permitted_def)
  have "card (set (hit_ids hits)) \<le> 1" using card_mono [OF _ facts(3)] by simp
  then have "int (length hits) < 3" using distinct_card [OF facts(1)] by simp
  then have "mi_id sample_item \<in> set (hit_ids hits)"
    using cs(2) sample_shown
    by (intro finish_complete [OF hits, where f = "effective_filter None"]) (simp_all add: search_options_def)
  then have "hit_ids hits = [mi_id sample_item]" using facts(1,3) by (intro single_id) auto
  moreover have "search sample_retriever sample_env query 3 None explain recording adapter sample_world
      = bindP (record_results sample_retriever sample_env recording hits) (\<lambda>_. ret hits) sample_world"
    unfolding search_def effective_filter_def [symmetric]
    by (simp add: Let_def sample_read_allowed sample_allowed cs(1) hits)
  ultimately show ?thesis by (simp add: bindP_run(1) [OF record_results_run])
qed

lemma search_respects_filter_witness:
  "\<exists>hits w'. search sample_retriever sample_env [97] 3 None False None [] sample_world = (Inr hits, w')
     \<and> hit_ids hits = [mi_id sample_item]
     \<and> w' = sample_world\<lparr>wo_index := record_access_many [mi_id sample_item] (isoformat_utc 0) sample_hub\<rparr>"
proof -
  obtain hits w' where run: "search sample_retriever sample_env [97] 3 None False None [] sample_world = (Inr hits, w')"
    and ids: "hit_ids hits = [mi_id sample_item]" using sample_search [of "[97]" False None "[]"] by (elim exE conjE) (rule that)
  have "rv_record_access sample_retriever" "ev_now sample_env = 0" by (simp_all add: sample_retriever_def sample_env_def)
  then show ?thesis using run ids search_respects_filter [OF run] by auto
qed

lemma unexpanded_search_hides_filtered_witness:
  "\<exists>hits w'. search sample_retriever sample_env [97] 3 None False None [] sample_world = (Inr hits, w')
     \<and> hits \<noteq> [] \<and> \<not> ev_md_superseded sample_env (ri_id (hd hits))"
proof -
  obtain hits w' where run: "search sample_retriever sample_env [97] 3 None False None [] sample_world = (Inr hits, w')"
    and ids: "hit_ids hits = [mi_id sample_item]" using sample_search [of "[97]" False None "[]"] by (elim exE conjE) (rule that)
  then have "hd hits \<in> set hits" by (cases hits) auto
  from unexpanded_search_hides_filtered [OF _ _ disjI1 [OF run] this]
  have "\<not> ev_md_superseded sample_env (ri_id (hd hits))" by (simp add: effective_filter_def default_filter_def)
  then show ?thesis using run ids by auto
qed

lemma short_results_are_complete_witness:
  "\<exists>hits w' cs. search sample_retriever sample_env [97] 3 None False None [] sample_world = (Inr hits, w')
     \<and> set (hit_ids cs) = {mi_id sample_item} \<and> (\<forall>c \<in> set cs. ri_id c \<in> set (hit_ids hits))"
proof -
  obtain hits w' where run: "search sample_retriever sample_env [97] 3 None False None [] sample_world = (Inr hits, w')"
    and ids: "hit_ids hits = [mi_id sample_item]" using sample_search [of "[97]" False None "[]"] by (elim exE conjE) (rule that)
  obtain cs where cs: "rrf_candidates sample_retriever sample_env sample_hub [97] (Some [mi_id sample_item]) = Inr cs"
      "set (hit_ids cs) = {mi_id sample_item}" using sample_candidates by blast
  have few: "int (length hits) < 3" using arg_cong [OF ids, of length] by simp
  have "ri_id c \<in> set (hit_ids hits)" if "c \<in> set cs" for c
    using short_results_are_complete [OF run _ _ few \<open>c \<in> set cs\<close>] cs(1) sample_shown [of "effective_filter None" "ri_id c"]
    by (simp add: sample_allowed shown_item_def)
  then show ?thesis using run cs(2) by blast
qed

definition sample_request :: recall_request where
  "sample_request =
     \<lparr>rq_raw_query = lit ''cdn'', rq_normalized_query = lit ''cdn'', rq_lexical_terms = [lit ''cdn''],
      rq_admission = \<lparr>ra_allowed = True, ra_reason = lit ''meaningful_query''\<rparr>,
      rq_query_signal = \<lparr>qs_terms = [lit ''cdn''], qs_strong_terms = [], qs_weak_terms = [lit ''cdn''],
        qs_injectable = False, qs_reason = lit ''weak'', qs_specificity = 0, qs_decision = lit ''reject'',
        qs_anchors = [], qs_trace = []\<rparr>,
      rq_project_scope = None, rq_cwd = None, rq_adapter = [], rq_session_id = None\<rparr>"

definition sample_filter :: search_filter where
  "sample_filter = default_filter\<lparr>sf_tags := [lit ''cdn'']\<rparr>"

definition sample_plan :: filter_plan where
  "sample_plan = \<lparr>fp_allowed_ids = Some [mi_id sample_item], fp_excluded_ids = []\<rparr>"

lemma sample_plan: "routed_filter_plan sample_env sample_hub sample_request sample_filter = Inr sample_plan"
  using sample_not_superseded
  by (simp add: routed_filter_plan_def sample_read_allowed sample_request_def sample_filter_def default_filter_def filter_is_empty_def
      allowed_ids_for_def filter_ids_def row_clauses_def sample_hub_rows sample_plan_def index_row_def sample_item_def)

lemma sample_bm25:
  "bm25_search sample_sql sample_hub query 20 (Some [mi_id sample_item]) None = Inr [(mi_id sample_item, - 1)]"
proof -
  have "2 \<le> sqlite_variable_limit sample_sql" by (simp add: sqlite_variable_limit_def sample_sql_def)
  then show ?thesis
    by (simp add: bm25_search_def normalize_inline_limit_def bm25_allowed_merged [OF sample_matches] merged_hits_def
        chunked.simps best_first_def)
qed

lemma sample_lexical: "lexical_route sample_retriever sample_env sample_plan query w = (Inr ([mi_id sample_item], []), w)"
  if "wo_index w = sample_hub"
  using that sample_bm25 [of query]
  by (simp add: lexical_route_def sample_plan_def or_none_list_def sample_retriever_def filter_route_hits_def
      within_allowed_def)

lemma sample_attempt:
  assumes "wo_index w = sample_hub"
  shows "\<exists>outcome w'. attempt_route (\<lambda>_. 0) route (lexical_route sample_retriever sample_env sample_plan query) w
    = (Inr outcome, w') \<and> ro_hits outcome = [mi_id sample_item] \<and> wo_index w' = sample_hub"
  using assms
  by (simp add: attempt_route_def read_route_clock_def bindP_def try_catch_def sample_lexical completed_route_trace_def
      check_route_trace_def latency_ms_def)

lemma sample_gather:
  assumes "wo_index w = sample_hub"
  shows "\<exists>terms semantic raw w'. gather_routes sample_retriever sample_env (\<lambda>_. 0) None sample_plan sample_request w
    = (Inr (terms, semantic, raw), w') \<and> ro_hits terms = [mi_id sample_item] \<and> ro_hits semantic = []
      \<and> ro_hits raw = [mi_id sample_item]"
proof -
  obtain q1 where q1: "q1 = expand_query (sq_unicode (ev_sql sample_env)) (join_terms (rq_lexical_terms sample_request))
      (rv_query_expansion sample_retriever) True" by blast
  obtain q2 where q2: "q2 = raw_fallback_bm25_query (sq_unicode (ev_sql sample_env)) (rq_normalized_query sample_request)
      (rv_query_expansion sample_retriever)" by blast
  obtain terms w1 where terms: "attempt_route (\<lambda>_. 0) (lit ''lexical_terms'')
      (lexical_route sample_retriever sample_env sample_plan q1) w = (Inr terms, w1)"
      "ro_hits terms = [mi_id sample_item]" "wo_index w1 = sample_hub"
    using sample_attempt [OF assms] by blast
  obtain raw w2 where raw: "attempt_route (\<lambda>_. 0) (lit ''lexical_raw_fallback'')
      (lexical_route sample_retriever sample_env sample_plan q2) w1 = (Inr raw, w2)"
      "ro_hits raw = [mi_id sample_item]"
    using sample_attempt [OF terms(3)] by blast
  have "rq_lexical_terms sample_request \<noteq> []" by (simp add: sample_request_def)
  moreover have "rv_embedder sample_retriever = Some \<lparr>em_degraded = True, em_embed = (\<lambda>_. Inr [])\<rparr>"
    by (simp add: sample_retriever_def)
  ultimately show ?thesis
    unfolding gather_routes_def Let_def q1 [symmetric] q2 [symmetric]
    using terms raw by (simp add: bindP_def)
qed

lemma sample_routed:
  "\<exists>result w'. search_routed sample_retriever sample_env (\<lambda>_. replicate 64 48) (\<lambda>_. 0) None sample_request 3
      (Some sample_filter) False None False 0 sample_world = (Inr result, w')
     \<and> hit_ids (rr_hits result) = [mi_id sample_item]"
proof -
  obtain terms semantic raw w1 where routes: "gather_routes sample_retriever sample_env (\<lambda>_. 0) None sample_plan
      sample_request sample_world = (Inr (terms, semantic, raw), w1)" "ro_hits terms = [mi_id sample_item]"
      "ro_hits semantic = []" "ro_hits raw = [mi_id sample_item]"
    using sample_gather [of sample_world] by (auto simp: sample_world_def)
  let ?fused = "fuse_routes (ro_hits terms) (ro_hits semantic) (ro_hits raw) (ro_similarities semantic) 60"
  let ?o = "routed_options sample_retriever sample_request sample_filter 3 (fp_allowed_ids sample_plan)"
  let ?cs = "fst ?fused"
  have cs: "scope_boost sample_env sample_hub (rq_project_scope sample_request) ?cs = Inr ?cs"
    by (simp add: scope_boost_def sample_request_def)
  have ids: "set (hit_ids ?cs) = {mi_id sample_item}" unfolding fuse_routes_ids routes by simp
  obtain hits where hits: "finish (candidate_stages sample_retriever sample_env sample_hub ?o) ?cs [] 3 False = Inr hits"
    using sample_finish sample_settings by blast
  have facts: "distinct (hit_ids hits)" "length hits \<le> 3" "set (hit_ids hits) \<subseteq> {mi_id sample_item}"
    using finished [OF hits fuse_routes_distinct] unfolding ids
    by (auto simp: routed_options_def sample_plan_def permitted_def)
  have "card (set (hit_ids hits)) \<le> 1" using card_mono [OF _ facts(3)] by simp
  then have "int (length hits) < 3" using distinct_card [OF facts(1)] by simp
  then have "mi_id sample_item \<in> set (hit_ids hits)"
    using ids sample_shown
    by (intro finish_complete [OF hits, where f = sample_filter]) (simp_all add: routed_options_def)
  then have one: "hit_ids hits = [mi_id sample_item]" using facts(1,3) by (intro single_id) auto
  have settings: "rv_rrf_k sample_retriever = 60" "ra_allowed (rq_admission sample_request)"
    "fp_allowed_ids sample_plan \<noteq> Some []" "fp_excluded_ids sample_plan = []"
    by (simp_all add: sample_retriever_def sample_request_def sample_plan_def)
  show ?thesis
    using one hits settings
    by (simp add: search_routed_def search_routes_def Let_def sample_plan cs
        bindP_run(1) [where m = "gather_routes sample_retriever sample_env (\<lambda>_. 0) None sample_plan sample_request", OF routes(1)]
        bindP_run(1) [OF record_results_run])
qed

lemma routed_search_respects_scope_witness:
  "\<exists>result w'. search_routed sample_retriever sample_env (\<lambda>_. replicate 64 48) (\<lambda>_. 0) None sample_request 3
      (Some sample_filter) False None False 0 sample_world = (Inr result, w')
     \<and> hit_ids (rr_hits result) = [mi_id sample_item]
     \<and> (\<exists>r \<in> set (ix_meta sample_hub). mr_id r = mi_id sample_item \<and> matches_filter 0 sample_filter r)"
proof -
  obtain result w' where run: "search_routed sample_retriever sample_env (\<lambda>_. replicate 64 48) (\<lambda>_. 0) None sample_request 3
      (Some sample_filter) False None False 0 sample_world = (Inr result, w')"
    and ids: "hit_ids (rr_hits result) = [mi_id sample_item]" using sample_routed by (elim exE conjE) (rule that)
  have "distinct (all_ids (wo_index sample_world))" by (simp add: all_ids_def sample_hub_rows)
  from routed_search_respects_scope [OF run this] ids
  have "\<exists>r \<in> set (ix_meta sample_hub). mr_id r = mi_id sample_item \<and> matches_filter 0 sample_filter r"
    by (simp add: effective_filter_def sample_filter_def default_filter_def filter_is_empty_def sample_env_def) blast
  with run ids show ?thesis by (intro exI conjI)
qed

text \<open>The embedder, the text search and the caught reads fail; the search returns.\<close>

definition failing_env :: recall_env where
  "failing_env = sample_env
     \<lparr>ev_sql := sample_sql\<lparr>sq_match := (\<lambda>_ _. Inl (OtherError []))\<rparr>,
      ev_failure := (\<lambda>place ids. if place \<in> set unguarded_reads then None else Some (OtherError []))\<rparr>"

lemma routed_search_returns_witness:
  "\<exists>result w'. search_routed
      (sample_retriever\<lparr>rv_embedder := Some \<lparr>em_degraded = False, em_embed = (\<lambda>_. Inl (OtherError []))\<rparr>\<rparr>)
      failing_env (\<lambda>_. replicate 64 48) of_nat (Some 2) sample_request 3 None True None True 3 sample_world = (Inr result, w')"
proof -
  let ?rv = "sample_retriever\<lparr>rv_embedder := Some \<lparr>em_degraded = False, em_embed = (\<lambda>_. Inl (OtherError []))\<rparr>\<rparr>"
  have "mono (of_nat :: nat \<Rightarrow> rat)" by (simp add: mono_def)
  moreover have "hex_digests (\<lambda>_. replicate 64 48)" by (simp add: hex_digests_def digest_digit_def list_all_length)
  moreover have "\<not> rv_rerank ?rv" "\<not> rv_hopfield_expand ?rv" "(0 :: int) \<le> 3" by (simp_all add: sample_retriever_def)
  ultimately have "case search_routed ?rv failing_env (\<lambda>_. replicate 64 48) of_nat (Some 2) sample_request 3 None True None
        True 3 sample_world of
      (Inr result, w') \<Rightarrow> True
    | (Inl e, w') \<Rightarrow> wo_index w' = wo_index sample_world
        \<and> (ev_profile failing_env = Inl e
          \<or> list_ex (\<lambda>place. \<exists>ids. ev_failure failing_env place ids = Some e) unguarded_reads)"
    by (rule routed_search_returns)
  moreover have "ev_profile failing_env \<noteq> Inl e
      \<and> \<not> list_ex (\<lambda>place. \<exists>ids. ev_failure failing_env place ids = Some e) unguarded_reads" for e
    by (simp add: failing_env_def sample_env_def list_ex_iff)
  ultimately show ?thesis by (auto split: prod.splits sum.splits)
qed

lemma decay_and_feedback_only_nudge_witness:
  "apply_feedback_value (sample_env\<lparr>ev_sql := sample_sql\<lparr>sq_floats := sample_ops\<lparr>fo_tanh := (\<lambda>_. 0)\<rparr>\<rparr>\<rparr>) sample_hub
      [hit (mi_id sample_item) 1 None None] = Inr [hit (mi_id sample_item) 1 None None]
   \<and> (\<exists>w. 243 / 256 \<le> w \<and> w \<le> 269 / 256 \<and> (1 :: rat) = fl64 (1 * w))"
proof -
  let ?env = "sample_env\<lparr>ev_sql := sample_sql\<lparr>sq_floats := sample_ops\<lparr>fo_tanh := (\<lambda>_. 0)\<rparr>\<rparr>\<rparr>"
  have run: "apply_feedback_value ?env sample_hub [hit (mi_id sample_item) 1 None None] = Inr [hit (mi_id sample_item) 1 None None]"
    by (simp add: apply_feedback_value_def read_ids_def read_index_def sample_env_def get_feedback_data_def rows_in_def sample_hub_rows ranking_weight_def
        fl64_quarters by_score_def rescored_def)
  have "\<exists>c \<in> set [hit (mi_id sample_item) 1 None None]. hit (mi_id sample_item) 1 None None = c
      \<or> (\<exists>w. 243 / 256 \<le> w \<and> w \<le> 269 / 256 \<and> hit (mi_id sample_item) 1 None None = rescored c (fl64 (ri_score c * w)))"
    by (rule decay_and_feedback_only_nudge [OF _ disjI2 [OF run]]) simp_all
  moreover have "(243 :: rat) / 256 \<le> 1 \<and> (1 :: rat) \<le> 269 / 256 \<and> (1 :: rat) = fl64 (1 * 1)" by (simp add: fl64_quarters)
  ultimately show ?thesis using run by blast
qed

end
