(* ===== verification/SupersessionCandidates.thy ===== *)
theory SupersessionCandidates imports Validity "HOL-Library.Product_Lexorder" begin

text \<open>
  \<open>memory/governance/lifecycle_candidates.py\<close>: the ranking of replacement candidates for an obsolete
  memory. Features are extracted once per memory; each scope keeps its candidates newest first, and
  for every kind of evidence a set of their positions, stored sparsely or as a bit mask. A query
  intersects the masks of every combination of evidence, takes the first three positions of each,
  scores those and keeps the best three. Masks are Python integers (type \<open>int\<close> with the bitwise
  operations); scores are binary64 values. \<open>unicodedata\<close> is the parameter \<open>topic_unicode\<close>: the NFKC form
  of a text and whether a character is a letter.
\<close>

unbundle bit_operations_syntax

record topic_unicode =
  tu_nfkc :: "pystr \<Rightarrow> pystr"
  tu_letter :: "int \<Rightarrow> bool"

section \<open>Constants\<close>

definition topic_script_ranges :: "(int \<times> int) list" where
  "topic_script_ranges =
    [
     (4352, 4607), (12352, 12543), (12592, 12687), (12784, 12799), (13312, 19903),
     (19968, 40959), (43360, 43391), (44032, 55215), (55216, 55295), (63744, 64255),
     (65382, 65437), (131072, 195103), (196608, 205743)]"

definition topic_stopwords :: "pystr list" where
  "topic_stopwords =
    [
     lit ''after'', lit ''before'', lit ''closed'', lit ''current'', lit ''decision'',
     lit ''fact'', lit ''fixed'', lit ''handoff'', lit ''issue'', lit ''latest'', lit ''memory'',
     lit ''new'', lit ''newer'', lit ''obsolete'', lit ''old'', lit ''older'', lit ''pending'',
     lit ''replaced'', lit ''resolved'', lit ''signal'', lit ''state'', lit ''status'',
     lit ''superseded'', lit ''the'', lit ''this'', lit ''updated'', lit ''with'',
     [20043, 21069], [20851, 38381], [24403, 21069], [24050, 20462, 22797],
     [24050, 20851, 38381], [24050, 26367, 20195], [24050, 35299, 20915], [24050, 21462, 20195],
     [26356, 26032], [29366, 24577], [20462, 22797], [26367, 20195], [35299, 20915],
     [21462, 20195]]"

definition cjk_topic_stopwords :: "pystr list" where
  "cjk_topic_stopwords =
    [
     [24050, 20462, 22797], [24050, 20851, 38381], [24050, 26367, 20195], [24050, 35299, 20915],
     [24050, 21462, 20195], [20851, 38381], [24403, 21069], [26356, 26032], [29366, 24577],
     [20462, 22797], [26367, 20195], [35299, 20915], [21462, 20195], [20043, 21069]]"

definition topic_closure_words :: "pystr list" where
  "topic_closure_words =
    [
     lit ''closed'', lit ''fixed'', lit ''obsolete'', lit ''replaced'', lit ''replaces'',
     lit ''resolved'', lit ''superseded'', lit ''supersedes'']"

definition topic_closure_phrases :: "pystr list" where
  "topic_closure_phrases =
    [
     [19981, 20877, 36866, 29992], [20462, 22797, 23436, 25104],
     [38382, 39064, 24050, 35299, 20915], [24050, 20462, 22797], [24050, 20851, 38381],
     [24050, 21462, 20195], [24050, 26367, 20195], [21462, 20195, 20102], [26367, 20195, 20102]]"

section \<open>Features\<close>

type_synonym scope_key = "pystr option \<times> pystr option \<times> pystr"

record item_features =
  if_item_id :: pystr
  if_scope_key :: scope_key
  if_created_key :: int
  if_superseded :: bool
  if_topic_tokens :: "pystr list"
  if_mem_refs :: "pystr list"
  if_source_refs :: "pystr list list"
  if_closure_language :: bool
  if_requires_review :: bool

definition scope_key_of :: "memory_item \<Rightarrow> scope_key" where
  "scope_key_of item = (mi_tenant_id item, mi_project item, item_type_value item)"

text \<open>\<open>toordinal()\<close> counts days from the first day of year 1, which is day 1.\<close>

definition utc_microsecond_key :: "py_datetime \<Rightarrow> int" where
  "utc_microsecond_key t =
     dt_wall t + 719163 * us_per_day - (case dt_offset t of None \<Rightarrow> 0 | Some d \<Rightarrow> d)"

definition bounded_refs :: "pystr list \<Rightarrow> pystr list" where
  "bounded_refs xs = filter (\<lambda>v. length v \<le> 512) (take 256 xs)"

text \<open>\<open>re.findall("[a-z0-9][a-z0-9_.-]{2,}", text)\<close>\<close>

definition term_start :: "int \<Rightarrow> bool" where
  "term_start c \<longleftrightarrow> 97 \<le> c \<and> c \<le> 122 \<or> 48 \<le> c \<and> c \<le> 57"

definition term_char :: "int \<Rightarrow> bool" where
  "term_char c \<longleftrightarrow> term_start c \<or> c = 95 \<or> c = 46 \<or> c = 45"

function ascii_terms :: "pystr \<Rightarrow> pystr list" where
  "ascii_terms [] = []"
| "ascii_terms (c # cs) =
     (if term_start c \<and> 2 \<le> length (takeWhile term_char cs)
        then (c # takeWhile term_char cs) # ascii_terms (dropWhile term_char cs)
      else ascii_terms cs)"
  by pat_completeness auto
termination by (relation "measure length") (auto simp: le_imp_less_Suc length_dropWhile_le)

text \<open>\<open>text.replace(old, new)\<close> of a non-empty \<open>old\<close>.\<close>

function replace_text :: "pystr \<Rightarrow> pystr \<Rightarrow> pystr \<Rightarrow> pystr" where
  "replace_text old new s =
     (if old \<noteq> [] \<and> prefix old s then new @ replace_text old new (drop (length old) s)
      else case s of [] \<Rightarrow> [] | c # cs \<Rightarrow> c # replace_text old new cs)"
  by pat_completeness auto
termination by (relation "measure (\<lambda>(old, new, s). length s)") (auto simp: prefix_def)

declare replace_text.simps [simp del]

definition is_topic_script_character :: "topic_unicode \<Rightarrow> int \<Rightarrow> bool" where
  "is_topic_script_character u c \<longleftrightarrow>
     tu_letter u c \<and> list_ex (\<lambda>(first, last). first \<le> c \<and> c \<le> last) topic_script_ranges"

definition topic_script_runs :: "topic_unicode \<Rightarrow> pystr \<Rightarrow> pystr list" where
  "topic_script_runs u text = filter (\<lambda>r. 2 \<le> length r) (runs (is_topic_script_character u) text)"

definition char_pairs :: "pystr \<Rightarrow> pystr list" where
  "char_pairs run = map (\<lambda>i. take 2 (drop i run)) [0..<length run - 1]"

text \<open>A \<open>set\<close> of texts is the list of its elements, each once.\<close>

definition topic_tokens :: "topic_unicode \<Rightarrow> memory_item \<Rightarrow> pystr list" where
  "topic_tokens u item =
     (let parts = take 512 (mi_title item) # map (take 128) (take 64 (mi_tags item));
          text = casefold (tu_nfkc u (join [32] parts));
          terms = filter (\<lambda>t. t \<notin> set topic_stopwords) (ascii_terms text);
          script_text = foldl (\<lambda>t w. replace_text w [32] t) text cjk_topic_stopwords;
          found = topic_script_runs u script_text
      in dedup (terms
           @ concat (map (\<lambda>run. filter (\<lambda>t. t \<notin> set topic_stopwords) (run # char_pairs run)) found)))"

definition has_closure_language :: "topic_unicode \<Rightarrow> memory_item \<Rightarrow> bool" where
  "has_closure_language u item \<longleftrightarrow>
     item_type_value item = lit ''signal''
     \<and> (let locator = take 512 (vw_locator (mi_context_views item));
            summary = take 1024 (mi_summary item);
            metadata = casefold (tu_nfkc u (summary @ [10] @ locator))
        in has_word topic_closure_words metadata \<or> contains_any metadata topic_closure_phrases)"

definition build_item_features :: "topic_unicode \<Rightarrow> memory_item \<Rightarrow> item_features" where
  "build_item_features u item =
     \<lparr>if_item_id = mi_id item, if_scope_key = scope_key_of item,
      if_created_key = utc_microsecond_key (mi_created_at item),
      if_superseded = (mi_superseded_by item \<noteq> None \<and> mi_superseded_by item \<noteq> Some []),
      if_topic_tokens = topic_tokens u item,
      if_mem_refs = dedup (bounded_refs (rf_mems (mi_refs item))),
      if_source_refs = map (\<lambda>refs. dedup (bounded_refs refs))
        [rf_commits (mi_refs item), rf_files (mi_refs item), rf_resources (mi_refs item)],
      if_closure_language = has_closure_language u item,
      if_requires_review = list_ex (\<lambda>tag. casefold tag \<in> set review_required_tags) (mi_tags item)\<rparr>"

section \<open>Sets of positions\<close>

datatype posting = Sparse "nat list" | Dense int

text \<open>The sizes CPython gives a tuple of integers and one long integer, in bytes.\<close>

definition sparse_bytes :: "nat \<Rightarrow> nat" where
  "sparse_bytes n = 40 + n * (8 + 28)"

definition dense_bytes :: "nat \<Rightarrow> nat" where
  "dense_bytes max_position = 24 + ((max_position + 1) + 30 - 1) div 30 * 4"

definition mask_of :: "nat list \<Rightarrow> int" where
  "mask_of positions = foldl (\<lambda>m p. m OR push_bit p 1) 0 positions"

definition freeze_posting :: "nat list \<Rightarrow> posting" where
  "freeze_posting positions =
     (let ordered = sort (dedup positions)
      in if length ordered < 32 then Sparse ordered
         else if dense_bytes (last ordered) > sparse_bytes (length ordered) then Sparse ordered
         else Dense (mask_of ordered))"

fun posting_mask :: "posting option \<Rightarrow> int" where
  "posting_mask None = 0"
| "posting_mask (Some (Dense m)) = m"
| "posting_mask (Some (Sparse positions)) = mask_of positions"

fun add_to_posting_builder :: "('k \<times> nat list) list \<Rightarrow> 'k \<Rightarrow> nat \<Rightarrow> ('k \<times> nat list) list" where
  "add_to_posting_builder [] key position = [(key, [position])]"
| "add_to_posting_builder ((k, ps) # rest) key position =
     (if k = key then (k, ps @ [position]) # rest
      else (k, ps) # add_to_posting_builder rest key position)"

definition freeze_posting_index :: "('k \<times> nat list) list \<Rightarrow> ('k \<times> posting) list" where
  "freeze_posting_index index = map (\<lambda>(k, ps). (k, freeze_posting ps)) index"

text \<open>\<open>mask.bit_length() - 1\<close> of a positive mask.\<close>

definition top_bit :: "int \<Rightarrow> nat" where
  "top_bit m = bits (nat m) - 1"

fun lowest_set_positions :: "nat \<Rightarrow> int \<Rightarrow> nat list" where
  "lowest_set_positions 0 m = []"
| "lowest_set_positions (Suc limit) m =
     (if m = 0 then []
      else let lowest_bit = m AND - m
           in top_bit lowest_bit # lowest_set_positions limit (m XOR lowest_bit))"

text \<open>\<open>bisect.bisect_left\<close>: the first position whose element is not below \<open>x\<close>.\<close>

function bisect_range :: "int list \<Rightarrow> int \<Rightarrow> nat \<Rightarrow> nat \<Rightarrow> nat" where
  "bisect_range xs x lo hi =
     (if lo < hi then
        let mid = (lo + hi) div 2
        in if xs ! mid < x then bisect_range xs x (mid + 1) hi else bisect_range xs x lo mid
      else lo)"
  by pat_completeness auto
termination by (relation "measure (\<lambda>(xs, x, lo, hi). hi - lo)") auto

declare bisect_range.simps [simp del]

definition bisect_left :: "int list \<Rightarrow> int \<Rightarrow> nat" where
  "bisect_left xs x = bisect_range xs x 0 (length xs)"

section \<open>Scores\<close>

record supersession_candidate =
  sc_replacement_id :: pystr
  sc_score :: rat
  sc_evidence_codes :: "pystr list"

text \<open>\<open>candidate.to_dict()\<close>, the score being given by its text.\<close>

definition candidate_to_dict :: "supersession_candidate \<Rightarrow> pydict" where
  "candidate_to_dict c =
    [(lit ''replacement_id'', PyStr (sc_replacement_id c)),
     (lit ''score'', PyStr (float_repr (sc_score c))),
     (lit ''evidence_codes'', PyList (map PyStr (sc_evidence_codes c)))]"

definition is_valid_candidate :: "item_features \<Rightarrow> item_features \<Rightarrow> bool" where
  "is_valid_candidate candidate obsolete \<longleftrightarrow>
     if_item_id candidate \<noteq> if_item_id obsolete
     \<and> if_created_key candidate > if_created_key obsolete
     \<and> if_scope_key candidate = if_scope_key obsolete
     \<and> \<not> if_superseded candidate
     \<and> \<not> if_requires_review candidate"

definition meets :: "pystr list \<Rightarrow> pystr list \<Rightarrow> bool" where
  "meets xs ys \<longleftrightarrow> list_ex (\<lambda>x. x \<in> set ys) xs"

definition explicit_edge :: "(pystr \<times> pystr) list \<Rightarrow> item_features \<Rightarrow> item_features \<Rightarrow> bool" where
  "explicit_edge edges candidate obsolete \<longleftrightarrow> (if_item_id candidate, if_item_id obsolete) \<in> set edges"

definition memory_ref :: "item_features \<Rightarrow> item_features \<Rightarrow> bool" where
  "memory_ref candidate obsolete \<longleftrightarrow> if_item_id obsolete \<in> set (if_mem_refs candidate)"

definition shared_source :: "item_features \<Rightarrow> item_features \<Rightarrow> bool" where
  "shared_source candidate obsolete \<longleftrightarrow>
     list_ex (\<lambda>(left, right). meets left right)
       (zip (if_source_refs candidate) (if_source_refs obsolete))"

definition topic_overlap :: "item_features \<Rightarrow> item_features \<Rightarrow> bool" where
  "topic_overlap candidate obsolete \<longleftrightarrow> meets (if_topic_tokens candidate) (if_topic_tokens obsolete)"

text \<open>\<open>if condition: evidence.append(code); score += weight\<close>, the weight being a literal in hundredths.\<close>

definition add_match_evidence :: "bool \<Rightarrow> string \<Rightarrow> rat \<Rightarrow> pystr list \<times> rat \<Rightarrow> pystr list \<times> rat" where
  "add_match_evidence b code hundredths acc =
     (if b then (fst acc @ [lit code], fl64 (snd acc + fl64 (hundredths / 100))) else acc)"

text \<open>\<open>round(x, 2)\<close>\<close>

definition round2 :: "rat \<Rightarrow> rat" where
  "round2 x = fl64 (of_int (round_even (x * 100)) / 100)"

definition score_candidate ::
  "item_features \<Rightarrow> item_features \<Rightarrow> (pystr \<times> pystr) list \<Rightarrow> supersession_candidate" where
  "score_candidate candidate obsolete edges =
     (let explicit = explicit_edge edges candidate obsolete;
          acc = (if explicit then ([lit ''EXPLICIT_SUPERSEDES_EDGE''], 1) else ([], 0));
          acc = add_match_evidence (memory_ref candidate obsolete) ''EXPLICIT_MEMORY_REF'' 45 acc;
          acc = add_match_evidence (shared_source candidate obsolete) ''SHARED_SOURCE_EVIDENCE'' 25 acc;
          acc = add_match_evidence (topic_overlap candidate obsolete) ''TOPIC_OVERLAP'' 20 acc;
          acc = add_match_evidence (if_closure_language candidate) ''CLOSURE_LANGUAGE'' 10 acc;
          acc = add_match_evidence True ''NEWER_ITEM'' 5 acc
      in \<lparr>sc_replacement_id = if_item_id candidate, sc_score = round2 (min (snd acc) 1),
          sc_evidence_codes = fst acc\<rparr>)"

text \<open>A scored candidate with the key of its creation time.\<close>

type_synonym ranked_candidate = "supersession_candidate \<times> int"

definition ranking_key :: "ranked_candidate \<Rightarrow> rat \<times> int \<times> pystr" where
  "ranking_key c = (- sc_score (fst c), - snd c, sc_replacement_id (fst c))"

definition insert_top_three :: "ranked_candidate list \<Rightarrow> ranked_candidate \<Rightarrow> ranked_candidate list" where
  "insert_top_three best candidate =
     (let before = (\<lambda>b. ranking_key b \<le> ranking_key candidate);
          best' = takeWhile before best @ candidate # dropWhile before best
      in if length best' > 3 then butlast best' else best')"

section \<open>The ranker\<close>

record scope_bitmap_index =
  sx_items :: "item_features list"
  sx_negative_created_keys :: "int list"
  sx_closure_mask :: int

record ranker =
  rk_supersedes_edges :: "(pystr \<times> pystr) list"
  rk_features_by_id :: "item_features list"
  rk_features_by_identity :: "item_features list"
  rk_scope_indices :: "(scope_key \<times> scope_bitmap_index) list"
  rk_explicit_index :: "((scope_key \<times> pystr) \<times> posting) list"
  rk_memory_ref_index :: "((scope_key \<times> pystr) \<times> posting) list"
  rk_source_ref_index :: "((scope_key \<times> nat \<times> pystr) \<times> posting) list"
  rk_topic_index :: "((scope_key \<times> pystr) \<times> posting) list"

text \<open>
  \<open>_features_by_id\<close> is a dictionary in insertion order: its values, the first memory of each id.
  \<open>_features_by_identity\<close> keeps, for each object given, the features it was entered under.
\<close>

definition find_features :: "pystr \<Rightarrow> item_features list \<Rightarrow> item_features option" where
  "find_features i fs = find (\<lambda>f. if_item_id f = i) fs"

fun collect_features ::
  "topic_unicode \<Rightarrow> memory_item list \<Rightarrow> item_features list \<Rightarrow> item_features list
   \<Rightarrow> item_features list \<times> item_features list" where
  "collect_features u [] by_id by_identity = (by_id, by_identity)"
| "collect_features u (item # items) by_id by_identity =
     (case find_features (mi_id item) by_id of
        Some existing \<Rightarrow> collect_features u items by_id (by_identity @ [existing])
      | None \<Rightarrow>
          let f = build_item_features u item
          in collect_features u items (by_id @ [f]) (by_identity @ [f]))"

fun add_to_scope ::
  "(scope_key \<times> item_features list) list \<Rightarrow> item_features \<Rightarrow> (scope_key \<times> item_features list) list" where
  "add_to_scope [] f = [(if_scope_key f, [f])]"
| "add_to_scope ((k, fs) # rest) f =
     (if k = if_scope_key f then (k, fs @ [f]) # rest else (k, fs) # add_to_scope rest f)"

definition valid_by_scope :: "item_features list \<Rightarrow> (scope_key \<times> item_features list) list" where
  "valid_by_scope fs =
     foldl add_to_scope [] (filter (\<lambda>f. \<not> if_superseded f \<and> \<not> if_requires_review f) fs)"

definition scope_index_of :: "item_features list \<Rightarrow> scope_bitmap_index" where
  "scope_index_of values =
     (let items = sort_key (\<lambda>f. (- if_created_key f, if_item_id f)) values
      in \<lparr>sx_items = items, sx_negative_created_keys = map (\<lambda>f. - if_created_key f) items,
          sx_closure_mask = foldl (\<lambda>m (position, f). if if_closure_language f
            then m OR push_bit position 1 else m) 0 (enumerate 0 items)\<rparr>)"

definition build_scope_bitmap_indices ::
  "(scope_key \<times> item_features list) list \<Rightarrow> (scope_key \<times> scope_bitmap_index) list" where
  "build_scope_bitmap_indices index = map (\<lambda>(k, values). (k, scope_index_of values)) index"

text \<open>\<open>positions.get((scope_key, item_id))\<close>\<close>

definition position_of ::
  "(scope_key \<times> scope_bitmap_index) list \<Rightarrow> item_features \<Rightarrow> nat option" where
  "position_of indices f =
     (case map_of indices (if_scope_key f) of
        None \<Rightarrow> None
      | Some sx \<Rightarrow>
          map_option fst (find (\<lambda>(_, g). if_item_id g = if_item_id f) (enumerate 0 (sx_items sx))))"

text \<open>The entries of one kind of posting: every key of every feature that has a position.\<close>

definition post_features ::
  "(item_features \<Rightarrow> 'k list) \<Rightarrow> (scope_key \<times> scope_bitmap_index) list \<Rightarrow> item_features list
   \<Rightarrow> ('k \<times> nat list) list" where
  "post_features keys indices fs =
     foldl (\<lambda>index f. case position_of indices f of
         None \<Rightarrow> index
       | Some position \<Rightarrow> foldl (\<lambda>index key. add_to_posting_builder index key position) index (keys f))
       [] fs"

definition memory_keys :: "item_features \<Rightarrow> (scope_key \<times> pystr) list" where
  "memory_keys f = map (\<lambda>target. (if_scope_key f, target)) (if_mem_refs f)"

definition source_keys :: "item_features \<Rightarrow> (scope_key \<times> nat \<times> pystr) list" where
  "source_keys f =
     concat (map (\<lambda>(i, values). map (\<lambda>v. (if_scope_key f, i, v)) values)
       (enumerate 0 (if_source_refs f)))"

definition topic_keys :: "item_features \<Rightarrow> (scope_key \<times> pystr) list" where
  "topic_keys f = map (\<lambda>token. (if_scope_key f, token)) (if_topic_tokens f)"

definition post_edges ::
  "(scope_key \<times> scope_bitmap_index) list \<Rightarrow> item_features list \<Rightarrow> (pystr \<times> pystr) list
   \<Rightarrow> ((scope_key \<times> pystr) \<times> nat list) list" where
  "post_edges indices fs edges =
     foldl (\<lambda>index (source_id, target_id).
         case find_features source_id fs of
           None \<Rightarrow> index
         | Some source \<Rightarrow>
             (case position_of indices source of
                None \<Rightarrow> index
              | Some position \<Rightarrow>
                  add_to_posting_builder index (if_scope_key source, target_id) position))
       [] edges"

definition make_ranker ::
  "topic_unicode \<Rightarrow> memory_item list \<Rightarrow> (pystr \<times> pystr) list \<Rightarrow> ranker" where
  "make_ranker u items supersedes_edges =
     (let edges = dedup supersedes_edges;
          (by_id, by_identity) = collect_features u items [] [];
          indices = build_scope_bitmap_indices (valid_by_scope by_id)
      in \<lparr>rk_supersedes_edges = edges, rk_features_by_id = by_id, rk_features_by_identity = by_identity,
          rk_scope_indices = indices,
          rk_explicit_index = freeze_posting_index (post_edges indices by_id edges),
          rk_memory_ref_index = freeze_posting_index (post_features memory_keys indices by_id),
          rk_source_ref_index = freeze_posting_index (post_features source_keys indices by_id),
          rk_topic_index = freeze_posting_index (post_features topic_keys indices by_id)\<rparr>)"

text \<open>
  The masks of a query. \<open>signatures\<close> runs over the non-empty sets of the four kinds of evidence; the
  loop stops intersecting once the mask is empty.
\<close>

definition union_masks :: "('k \<times> posting) list \<Rightarrow> 'k list \<Rightarrow> int" where
  "union_masks index keys = foldl (\<lambda>m key. m OR posting_mask (map_of index key)) 0 keys"

fun signature_mask :: "int \<Rightarrow> nat \<Rightarrow> int list \<Rightarrow> int" where
  "signature_mask m signature [] = m"
| "signature_mask m signature (evidence # rest) =
     (if odd signature then
        let m' = m AND evidence in if m' = 0 then 0 else signature_mask m' (signature div 2) rest
      else signature_mask m (signature div 2) rest)"

definition candidate_positions :: "int \<Rightarrow> int \<Rightarrow> int list \<Rightarrow> nat list" where
  "candidate_positions newer_mask explicit_mask evidence_masks =
     dedup (lowest_set_positions 3 newer_mask @ lowest_set_positions 3 explicit_mask
       @ concat (map (\<lambda>signature. lowest_set_positions 3 (signature_mask newer_mask signature evidence_masks))
           [1..<2 ^ length evidence_masks]))"

definition evidence_masks :: "ranker \<Rightarrow> scope_bitmap_index \<Rightarrow> int \<Rightarrow> item_features \<Rightarrow> int list" where
  "evidence_masks rk sx newer_mask obsolete =
     (let direct_key = (if_scope_key obsolete, if_item_id obsolete)
      in [posting_mask (map_of (rk_memory_ref_index rk) direct_key) AND newer_mask,
          union_masks (rk_source_ref_index rk) (source_keys obsolete) AND newer_mask,
          union_masks (rk_topic_index rk) (topic_keys obsolete) AND newer_mask,
          sx_closure_mask sx AND newer_mask])"

text \<open>
  The loop over \<open>candidate_positions\<close>, a set of small integers, taken in the order of the list given.
\<close>

definition best_of ::
  "(pystr \<times> pystr) list \<Rightarrow> item_features list \<Rightarrow> item_features \<Rightarrow> nat list \<Rightarrow> ranked_candidate list" where
  "best_of edges items obsolete positions =
     foldl (\<lambda>best position.
         let candidate = items ! position
         in if \<not> is_valid_candidate candidate obsolete then best
            else let result = score_candidate candidate obsolete edges
                 in if sc_score result > 0
                    then insert_top_three best (result, if_created_key candidate)
                    else best)
       [] positions"

text \<open>The object to be ranked: one of the objects the ranker was built from, or another.\<close>

datatype ranked_object = Given nat | Other memory_item

fun object_features :: "topic_unicode \<Rightarrow> ranker \<Rightarrow> ranked_object \<Rightarrow> item_features" where
  "object_features u rk (Given n) = rk_features_by_identity rk ! n"
| "object_features u rk (Other item) = build_item_features u item"

definition rank_features :: "ranker \<Rightarrow> item_features \<Rightarrow> supersession_candidate list" where
  "rank_features rk obsolete =
     (case map_of (rk_scope_indices rk) (if_scope_key obsolete) of
        None \<Rightarrow> []
      | Some sx \<Rightarrow>
          let newer_count = bisect_left (sx_negative_created_keys sx) (- if_created_key obsolete);
              newer_mask = push_bit newer_count 1 - 1
          in if newer_mask = 0 then []
             else
               let direct_key = (if_scope_key obsolete, if_item_id obsolete);
                   explicit_mask = posting_mask (map_of (rk_explicit_index rk) direct_key) AND newer_mask;
                   masks = evidence_masks rk sx newer_mask obsolete;
                   positions = candidate_positions newer_mask explicit_mask masks
               in map fst (best_of (rk_supersedes_edges rk) (sx_items sx) obsolete positions))"

definition rank :: "topic_unicode \<Rightarrow> ranker \<Rightarrow> ranked_object \<Rightarrow> supersession_candidate list" where
  "rank u rk obsolete = rank_features rk (object_features u rk obsolete)"

definition rank_supersession_candidates ::
  "topic_unicode \<Rightarrow> memory_item \<Rightarrow> memory_item list \<Rightarrow> (pystr \<times> pystr) list
   \<Rightarrow> supersession_candidate list" where
  "rank_supersession_candidates u obsolete items supersedes_edges =
     rank u (make_ranker u items supersedes_edges) (Other obsolete)"

section \<open>The reference\<close>

text \<open>
  What the ranking means: all valid candidates among the first memories of each id, scored, sorted
  by score, newness and id, and cut to three.
\<close>

definition scored_candidates ::
  "(pystr \<times> pystr) list \<Rightarrow> item_features \<Rightarrow> item_features list \<Rightarrow> ranked_candidate list" where
  "scored_candidates edges obsolete fs =
     map (\<lambda>f. (score_candidate f obsolete edges, if_created_key f))
       (filter (\<lambda>f. is_valid_candidate f obsolete) fs)"

definition reference_rank ::
  "(pystr \<times> pystr) list \<Rightarrow> item_features \<Rightarrow> item_features list \<Rightarrow> supersession_candidate list" where
  "reference_rank edges obsolete fs =
     map fst (take 3 (sort_key ranking_key (scored_candidates edges obsolete fs)))"

end
