(* ===== verification/CandidateLaws.thy ===== *)
theory CandidateLaws imports SupersessionCandidates "HOL-Library.Multiset" begin

text \<open>
  Why the ranking of replacement candidates is right: bit masks as sets of positions, the postings as
  the sets they were built from, the first positions of a mask, the score as a monotone function of
  the evidence, and from these the equality of the indexed ranking with the direct one.
\<close>

section \<open>Masks as sets\<close>

lemma bit_two_power [simp]: "bit (2 ^ p :: int) n \<longleftrightarrow> n = p"
  by (auto simp: bit_exp_iff)

lemma bit_mask_of [simp]: "bit (mask_of ps) n \<longleftrightarrow> n \<in> set ps"
proof -
  have "bit (foldl (\<lambda>m p. m OR push_bit p 1) m0 ps :: int) n \<longleftrightarrow> bit m0 n \<or> n \<in> set ps" for m0
    by (induction ps arbitrary: m0) (auto simp: bit_or_iff)
  from this [of 0] show ?thesis by (simp add: mask_of_def)
qed

lemma mask_of_nonneg [simp]: "0 \<le> mask_of ps"
proof -
  have "0 \<le> m \<Longrightarrow> 0 \<le> (foldl (\<lambda>m p. m OR push_bit p 1) m ps :: int)" for m
    by (induction ps arbitrary: m) auto
  then show ?thesis by (simp add: mask_of_def)
qed

lemma bit_freeze_posting [simp]: "bit (posting_mask (Some (freeze_posting ps))) n \<longleftrightarrow> n \<in> set ps"
  by (simp add: freeze_posting_def Let_def)

lemma posting_mask_freeze_nonneg: "0 \<le> posting_mask (Some (freeze_posting ps))"
  by (simp add: freeze_posting_def Let_def)

text \<open>The positions a builder holds for a key.\<close>

definition posted :: "('k \<times> nat list) list \<Rightarrow> 'k \<Rightarrow> nat set" where
  "posted index key = (case map_of index key of None \<Rightarrow> {} | Some ps \<Rightarrow> set ps)"

lemma posted_Nil [simp]: "posted [] key = {}"
  by (simp add: posted_def)

lemma posted_Cons: "posted ((k', ps) # index) k = (if k = k' then set ps else posted index k)"
  by (simp add: posted_def)

lemma posted_add [simp]:
  "posted (add_to_posting_builder index key p) k = posted index k \<union> (if k = key then {p} else {})"
  by (cases "k = key"; induction index key p rule: add_to_posting_builder.induct) (simp_all add: posted_Cons)

lemma map_of_freeze: "map_of (freeze_posting_index index) key = map_option freeze_posting (map_of index key)"
  by (induction index) (auto simp: freeze_posting_index_def)

lemma bit_posting_mask:
  "bit (posting_mask (map_of (freeze_posting_index index) key)) n \<longleftrightarrow> n \<in> posted index key"
  by (cases "map_of index key") (simp_all add: map_of_freeze posted_def del: posting_mask.simps(2,3))

lemma posting_mask_nonneg: "0 \<le> posting_mask (map_of (freeze_posting_index index) key)"
  by (cases "map_of index key")
    (simp_all add: map_of_freeze posting_mask_freeze_nonneg del: posting_mask.simps(2,3))

lemma bit_union_masks:
  "bit (union_masks index keys) n \<longleftrightarrow> (\<exists>key\<in>set keys. bit (posting_mask (map_of index key)) n)"
proof -
  have "bit (foldl (\<lambda>m key. m OR posting_mask (map_of index key)) m0 keys) n
      \<longleftrightarrow> bit m0 n \<or> (\<exists>key\<in>set keys. bit (posting_mask (map_of index key)) n)" for m0
    by (induction keys arbitrary: m0) (auto simp: bit_or_iff)
  then show ?thesis by (simp add: union_masks_def)
qed

lemma bit_newer_mask: "bit (push_bit k 1 - 1 :: int) n \<longleftrightarrow> n < k"
  by (simp add: push_bit_eq_mult flip: mask_eq_exp_minus_1) (simp add: bit_mask_iff)

lemma bit_signature_mask:
  "bit (signature_mask m s ms) n \<longleftrightarrow> bit m n \<and> (\<forall>i<length ms. odd (s div 2 ^ i) \<longrightarrow> bit (ms ! i) n)"
proof (induction m s ms rule: signature_mask.induct)
  case (2 m s e rest)
  define tail where "tail \<longleftrightarrow> (\<forall>i<length rest. odd (s div 2 div 2 ^ i) \<longrightarrow> bit (rest ! i) n)"
  have split: "(\<forall>i<length (e # rest). odd (s div 2 ^ i) \<longrightarrow> bit ((e # rest) ! i) n) \<longleftrightarrow>
      (odd s \<longrightarrow> bit e n) \<and> tail"
    unfolding tail_def by (auto simp: less_Suc_eq_0_disj div_mult2_eq)
  show ?case unfolding split
  proof (cases "odd s")
    case False
    with 2(2) show "bit (signature_mask m s (e # rest)) n \<longleftrightarrow> bit m n \<and> (odd s \<longrightarrow> bit e n) \<and> tail"
      by (simp flip: tail_def)
  next
    case True
    have both: "bit (m AND e) n \<longleftrightarrow> bit m n \<and> bit e n" by (simp add: bit_and_iff)
    show "bit (signature_mask m s (e # rest)) n \<longleftrightarrow> bit m n \<and> (odd s \<longrightarrow> bit e n) \<and> tail"
    proof (cases "m AND e = 0")
      case zero: True
      then have "\<not> (bit m n \<and> bit e n)" using both by simp
      with True zero show ?thesis by auto
    next
      case nonzero: False
      with 2(1) True both show ?thesis by (simp flip: tail_def)
    qed
  qed
qed simp

section \<open>The first positions of a mask\<close>

lemma top_bit_power: "top_bit (2 ^ n) = n"
proof -
  have "2 ^ (bits (2 ^ n) - 1) \<le> (2 :: nat) ^ n" "(2 :: nat) ^ n < 2 ^ bits (2 ^ n)" "0 < bits (2 ^ n)"
    using bits_bounds [of "2 ^ n"] by auto
  then have "bits (2 ^ n) - 1 \<le> n" "n < bits (2 ^ n)" by auto
  then show ?thesis by (simp add: top_bit_def nat_power_eq)
qed

lemma lowest_bit:
  assumes "bit (m :: int) n" and "\<And>k. k < n \<Longrightarrow> \<not> bit m k"
  shows "m AND - m = 2 ^ n"
proof -
  have "take_bit n m = 0"
    by (rule bit_eqI) (use assms(2) in \<open>simp add: bit_take_bit_iff\<close>)
  then have m: "m = push_bit n (drop_bit n m)"
    by (metis add.right_neutral bits_ident)
  have "odd (drop_bit n m)"
    using assms(1) by (simp add: bit_iff_odd_drop_bit)
  then obtain q where q: "drop_bit n m = 2 * q + 1" by (rule oddE)
  have neg: "- (2 * q + 1) = 2 * NOT q + 1" by (simp add: not_int_def)
  have "(2 * q + 1) AND - (2 * q + 1) = 1 + 2 * (q AND NOT q)"
    unfolding neg by (simp add: and_int_rec [of "2 * q + 1"])
  then have one: "drop_bit n m AND - drop_bit n m = 1" by (simp add: q)
  have "m AND - m = push_bit n (drop_bit n m) AND push_bit n (- drop_bit n m)"
    using m by (metis push_bit_minus)
  also have "\<dots> = push_bit n 1" by (simp add: one flip: push_bit_and)
  finally show ?thesis by (simp add: push_bit_eq_mult)
qed

lemma lowest_exists:
  assumes "(m :: int) \<noteq> 0"
  shows "\<exists>n. bit m n \<and> (\<forall>k<n. \<not> bit m k)"
proof -
  have "\<exists>n. bit m n" using assms by (metis bit_eqI bit_0_eq bot_apply bot_bool_def)
  then have "bit m (LEAST n. bit m n)" by (rule LeastI_ex)
  moreover have "\<forall>k<LEAST n. bit m n. \<not> bit m k" by (auto dest: not_less_Least)
  ultimately show ?thesis by blast
qed

lemma lowest_set_positions_spec:
  "distinct (lowest_set_positions k m) \<and> length (lowest_set_positions k m) \<le> k
   \<and> (\<forall>n\<in>set (lowest_set_positions k m). bit m n)
   \<and> (\<forall>p. bit m p \<longrightarrow> p \<in> set (lowest_set_positions k m)
       \<or> length (lowest_set_positions k m) = k \<and> (\<forall>q\<in>set (lowest_set_positions k m). q < p))"
proof (induction k m rule: lowest_set_positions.induct)
  case (2 k m)
  show ?case
  proof (cases "m = 0")
    case False
    obtain n where n: "bit m n" "\<And>k. k < n \<Longrightarrow> \<not> bit m k" using lowest_exists [OF False] by blast
    have low: "m AND - m = 2 ^ n" by (rule lowest_bit [OF n])
    have step: "lowest_set_positions (Suc k) m = n # lowest_set_positions k (m XOR 2 ^ n)"
      using False by (simp add: low top_bit_power)
    have b: "bit (m XOR 2 ^ n) p \<longleftrightarrow> bit m p \<and> p \<noteq> n" for p
      using n(1) by (auto simp: bit_xor_iff bit_exp_iff)
    have less: "n < p" if "bit m p" "p \<noteq> n" for p
      using n(2) that by (meson linorder_neqE_nat)
    have IH: "distinct (lowest_set_positions k (m XOR 2 ^ n))"
        "length (lowest_set_positions k (m XOR 2 ^ n)) \<le> k"
        "\<forall>p\<in>set (lowest_set_positions k (m XOR 2 ^ n)). bit (m XOR 2 ^ n) p"
        "\<forall>p. bit (m XOR 2 ^ n) p \<longrightarrow> p \<in> set (lowest_set_positions k (m XOR 2 ^ n))
         \<or> length (lowest_set_positions k (m XOR 2 ^ n)) = k
            \<and> (\<forall>q\<in>set (lowest_set_positions k (m XOR 2 ^ n)). q < p)"
      using 2 [OF False refl] by (auto simp: low)
    show ?thesis unfolding step using IH n(1) less b by auto
  qed simp
qed simp

lemmas lowest_set_positions_bit = lowest_set_positions_spec [THEN conjunct2, THEN conjunct2, THEN conjunct1, rule_format]

lemma lowest_set_positions_first:
  assumes "bit m p" "p \<notin> set (lowest_set_positions k m)"
  shows "card (set (lowest_set_positions k m)) = k" "q \<in> set (lowest_set_positions k m) \<Longrightarrow> q < p"
  using lowest_set_positions_spec [of k m] assms by (auto simp: distinct_card)

section \<open>Bisection\<close>

lemma bisect_range_spec:
  assumes "sorted xs" "lo \<le> hi" "hi \<le> length xs"
    and "\<And>i. i < lo \<Longrightarrow> xs ! i < x" and "\<And>i. hi \<le> i \<Longrightarrow> i < length xs \<Longrightarrow> x \<le> xs ! i"
  shows "bisect_range xs x lo hi \<le> length xs
    \<and> (\<forall>i < length xs. i < bisect_range xs x lo hi \<longleftrightarrow> xs ! i < x)"
  using assms
proof (induction xs x lo hi rule: bisect_range.induct)
  case (1 xs x lo hi)
  define mid where "mid = (lo + hi) div 2"
  show ?case
  proof (cases "lo < hi")
    case True
    then have mid: "lo \<le> mid" "mid < hi" "mid < length xs" using 1(5) by (auto simp: mid_def)
    show ?thesis
    proof (cases "xs ! mid < x")
      case less: True
      have "xs ! i < x" if "i < mid + 1" for i
        using sorted_nth_mono [OF 1(3), of i mid] that mid(3) less by auto
      then show ?thesis
        using 1(1) [OF True mid_def less] 1(3-7) mid True less
        by (subst (1 2) bisect_range.simps) (auto simp flip: mid_def)
    next
      case ge: False
      have "x \<le> xs ! i" if "mid \<le> i" "i < length xs" for i
        using sorted_nth_mono [OF 1(3) that] ge by auto
      then show ?thesis
        using 1(2) [OF True mid_def ge] 1(3-7) mid True ge
        by (subst (1 2) bisect_range.simps) (auto simp flip: mid_def)
    qed
  next
    case False
    then have "bisect_range xs x lo hi = lo" by (subst bisect_range.simps) simp
    moreover have "hi = lo" using False 1(4) by simp
    ultimately have here: "bisect_range xs x lo hi = lo" "hi = lo" by simp_all
    have "i < lo \<longleftrightarrow> xs ! i < x" if "i < length xs" for i
      using 1(6) [of i] 1(7) [of i] that here(2) by (cases "i < lo") auto
    then show ?thesis using 1(5) here by simp
  qed
qed

lemma bisect_left_spec:
  assumes "sorted xs"
  shows "bisect_left xs x \<le> length xs" "i < length xs \<Longrightarrow> i < bisect_left xs x \<longleftrightarrow> xs ! i < x"
  using bisect_range_spec [OF assms, of 0 "length xs" x] by (auto simp: bisect_left_def)

section \<open>Sorting and the best three\<close>

lemma sort_key_unique:
  assumes "distinct (map k xs)" "distinct (map k ys)" "set xs = set ys"
  shows "sort_key k xs = sort_key k ys"
proof -
  have "sorted (map k (sort_key k xs))" "sorted (map k (sort_key k ys))" by simp_all
  moreover have "distinct (map k (sort_key k zs)) \<longleftrightarrow> distinct (map k zs)" for zs
    by (simp add: distinct_map)
  moreover have "inj_on k (set xs)" using assms(1) by (simp add: distinct_map)
  ultimately show ?thesis
    using assms by (intro map_inj_on [of k]) (auto intro!: sorted_distinct_set_unique)
qed

lemma take_sort_subset:
  assumes d: "distinct (map k xs)" and ys: "distinct (map k ys)" "set ys \<subseteq> set xs"
    and dominated: "\<And>x. x \<in> set xs \<Longrightarrow> x \<notin> set ys \<Longrightarrow> n \<le> card {y \<in> set ys. k y < k x}"
  shows "take n (sort_key k ys) = take n (sort_key k xs)"
proof -
  define L where "L = sort_key k xs"
  have L: "sorted (map k L)" "distinct (map k L)" "set L = set xs"
    using d by (simp_all add: L_def distinct_map)
  have head: "x \<in> set ys" if x: "x \<in> set (take n L)" for x
  proof (rule ccontr)
    assume "x \<notin> set ys"
    obtain i where i: "i < n" "i < length L" "L ! i = x" using x by (auto simp: in_set_conv_nth)
    have "{y \<in> set ys. k y < k x} \<subseteq> set (take i L)"
    proof
      fix y assume "y \<in> {y \<in> set ys. k y < k x}"
      then obtain j where j: "j < length L" "L ! j = y" "k y < k x"
        using ys(2) L(3) by (metis (no_types, lifting) in_set_conv_nth mem_Collect_eq subset_iff)
      have "j < i"
      proof (rule ccontr)
        assume "\<not> j < i"
        then have "k (L ! i) \<le> k (L ! j)" using sorted_nth_mono [OF L(1), of i j] i j by simp
        then show False using i j by simp
      qed
      then show "y \<in> set (take i L)" using j by (auto simp: in_set_conv_nth)
    qed
    then have "card {y \<in> set ys. k y < k x} \<le> card (set (take i L))" by (intro card_mono) auto
    also have "\<dots> \<le> i" using card_length [of "take i L"] by simp
    finally show False using dominated [of x] \<open>x \<notin> set ys\<close> i L(3) by (metis leD nth_mem order_le_less_trans)
  qed
  have "sort_key k ys = sort_key k (filter (\<lambda>x. x \<in> set ys) L)"
    using ys L by (intro sort_key_unique) (auto simp: distinct_map intro: inj_on_subset)
  also have "\<dots> = filter (\<lambda>x. x \<in> set ys) L"
    using L(1) by (intro sort_key_id_if_sorted sorted_filter)
  finally have eq: "sort_key k ys = filter (\<lambda>x. x \<in> set ys) (take n L) @ filter (\<lambda>x. x \<in> set ys) (drop n L)"
    by (metis append_take_drop_id filter_append)
  have "filter (\<lambda>x. x \<in> set ys) (take n L) = take n L" using head by (simp add: filter_id_conv)
  then show ?thesis unfolding eq L_def [symmetric] by (cases "n \<le> length L") simp_all
qed

definition insert_ranked :: "ranked_candidate \<Rightarrow> ranked_candidate list \<Rightarrow> ranked_candidate list" where
  "insert_ranked c L =
     (let before = (\<lambda>b. ranking_key b \<le> ranking_key c) in takeWhile before L @ c # dropWhile before L)"

lemma insert_ranked_facts:
  assumes "sorted (map ranking_key L)"
  shows "sorted (map ranking_key (insert_ranked c L))" "mset (insert_ranked c L) = add_mset c (mset L)"
proof -
  define P where "P = (\<lambda>b. ranking_key b \<le> ranking_key c)"
  have whole: "insert_ranked c L = takeWhile P L @ c # dropWhile P L"
    by (simp add: insert_ranked_def P_def Let_def)
  have "mset (takeWhile P L) + mset (dropWhile P L) = mset L"
    by (metis mset_append takeWhile_dropWhile_id)
  then show "mset (insert_ranked c L) = add_mset c (mset L)" by (simp add: whole)
  have "sorted (map ranking_key (takeWhile P L @ dropWhile P L))" using assms by simp
  then have parts: "sorted (map ranking_key (takeWhile P L))" "sorted (map ranking_key (dropWhile P L))"
      "\<forall>x\<in>set (takeWhile P L). \<forall>y\<in>set (dropWhile P L). ranking_key x \<le> ranking_key y"
    unfolding map_append sorted_append by auto
  have low: "\<forall>x\<in>set (takeWhile P L). ranking_key x \<le> ranking_key c"
    by (auto dest: set_takeWhileD simp: P_def)
  have high: "\<forall>y\<in>set (dropWhile P L). ranking_key c \<le> ranking_key y"
  proof (cases "dropWhile P L")
    case (Cons d ds)
    then have "\<not> P d" by (metis dropWhile_eq_Cons_conv)
    then show ?thesis using parts(2) Cons by (auto simp: P_def intro: order_trans less_imp_le)
  next
    case Nil
    show ?thesis unfolding Nil by simp
  qed
  show "sorted (map ranking_key (insert_ranked c L))"
    using parts low high by (auto simp: whole sorted_append)
qed

lemma take_insert_ranked: "take 3 (insert_ranked c (take 3 L)) = take 3 (insert_ranked c L)"
proof -
  define P where "P = (\<lambda>b. ranking_key b \<le> ranking_key c)"
  have whole: "insert_ranked c L = takeWhile P L @ c # dropWhile P L" for L
    by (simp add: insert_ranked_def P_def Let_def)
  have "take n (takeWhile P (take n L) @ c # dropWhile P (take n L)) = take n (takeWhile P L @ c # dropWhile P L)" for n
  proof (induction L arbitrary: n)
    case (Cons a L)
    show ?case by (cases n; cases "P a") (use Cons in \<open>auto simp: take_Cons' take_butlast\<close>)
  qed simp
  then show ?thesis by (simp only: whole)
qed

lemma insert_top_three_take: "length best \<le> 3 \<Longrightarrow> insert_top_three best c = take 3 (insert_ranked c best)"
proof -
  assume len: "length best \<le> 3"
  have n: "length (insert_ranked c best) = Suc (length best)"
    by (simp add: insert_ranked_def Let_def) (metis length_append takeWhile_dropWhile_id add_Suc_right)
  have "insert_top_three best c =
      (if length (insert_ranked c best) > 3 then butlast (insert_ranked c best) else insert_ranked c best)"
    by (simp only: insert_top_three_def insert_ranked_def Let_def)
  moreover have "take 3 xs = (if length xs > 3 then butlast xs else xs)" if "length xs \<le> 4" for xs :: "ranked_candidate list"
    using that by (cases "length xs = 4") (auto simp: butlast_conv_take)
  ultimately show ?thesis using len n by simp
qed

text \<open>The loop keeps the best three of what it has met, whatever the order it meets them in.\<close>

lemma foldl_insert_top_three:
  assumes "distinct (map ranking_key (cs @ xs))"
  shows "foldl insert_top_three (take 3 (sort_key ranking_key cs)) xs = take 3 (sort_key ranking_key (cs @ xs))"
  using assms
proof (induction xs arbitrary: cs)
  case (Cons x xs)
  define L where "L = sort_key ranking_key cs"
  have L: "sorted (map ranking_key L)" "mset L = mset cs" by (simp_all add: L_def)
  have "distinct (map ranking_key (cs @ [x]))" using Cons.prems by auto
  moreover have "mset (insert_ranked x L) = mset (cs @ [x])"
    using insert_ranked_facts(2) [OF L(1)] L(2) by simp
  then have "distinct (map ranking_key (insert_ranked x L)) \<longleftrightarrow> distinct (map ranking_key (cs @ [x]))"
      "set (insert_ranked x L) = set (cs @ [x])"
    by (metis mset_map mset_eq_imp_distinct_iff, metis set_mset_mset)
  ultimately have "sort_key ranking_key (cs @ [x]) = sort_key ranking_key (insert_ranked x L)"
    by (intro sort_key_unique) auto
  also have "\<dots> = insert_ranked x L"
    using insert_ranked_facts(1) [OF L(1)] by (rule sort_key_id_if_sorted)
  finally have step: "sort_key ranking_key (cs @ [x]) = insert_ranked x L" .
  have "foldl insert_top_three (take 3 L) (x # xs) = foldl insert_top_three (take 3 (sort_key ranking_key (cs @ [x]))) xs"
    by (simp add: insert_top_three_take take_insert_ranked step)
  also have "\<dots> = take 3 (sort_key ranking_key (cs @ x # xs))"
    using Cons.IH [of "cs @ [x]"] Cons.prems by simp
  finally show ?case by (simp add: L_def)
qed simp

lemma best_of_three:
  assumes pos: "\<And>p. p \<in> set positions \<Longrightarrow> 0 < sc_score (score_candidate (items ! p) obsolete edges)"
    and d: "distinct (map ranking_key (scored_candidates edges obsolete (map ((!) items) positions)))"
  shows "best_of edges items obsolete positions =
    take 3 (sort_key ranking_key (scored_candidates edges obsolete (map ((!) items) positions)))"
proof -
  define ranked where "ranked = scored_candidates edges obsolete (map ((!) items) positions)"
  have "foldl (\<lambda>best position.
         let candidate = items ! position
         in if \<not> is_valid_candidate candidate obsolete then best
            else let result = score_candidate candidate obsolete edges
                 in if sc_score result > 0
                    then insert_top_three best (result, if_created_key candidate)
                    else best) best positions
      = foldl insert_top_three best ranked" for best
    unfolding ranked_def using pos
    by (induction positions arbitrary: best) (simp_all add: scored_candidates_def Let_def)
  then have "best_of edges items obsolete positions = foldl insert_top_three [] ranked"
    by (simp add: best_of_def)
  then show ?thesis using foldl_insert_top_three [of "[]" ranked] d by (simp add: ranked_def)
qed

section \<open>Scores\<close>

text \<open>The score of given evidence.\<close>

definition weigh :: "bool \<Rightarrow> rat \<Rightarrow> rat \<Rightarrow> rat" where
  "weigh b hundredths s = (if b then fl64 (s + fl64 (hundredths / 100)) else s)"

definition score_of :: "bool \<Rightarrow> bool \<Rightarrow> bool \<Rightarrow> bool \<Rightarrow> bool \<Rightarrow> rat" where
  "score_of explicit ref source topic closure =
     round2 (min (weigh True 5 (weigh closure 10 (weigh topic 20 (weigh source 25 (weigh ref 45
       (if explicit then 1 else 0)))))) 1)"

lemma snd_add_evidence: "snd (add_match_evidence b code w acc) = weigh b w (snd acc)"
  by (simp add: add_match_evidence_def weigh_def)

lemma fl64_fl64 [simp]: "fl64 (fl64 x) = fl64 x"
proof -
  have pos: "fl64 (fl64 x) = fl64 x" if x: "0 < x" for x
  proof -
    define e where "e = ulp_exponent x"
    define k where "k = round_even (x / 2 powi e)"
    have x': "fl64 x = of_int k * 2 powi e" using fl64_pos [OF x] by (simp add: k_def e_def)
    have k: "0 \<le> k" using round_even_ge [of 0 "x / 2 powi e"] x by (simp add: k_def)
    have e: "- 1074 \<le> e" by (simp add: e_def ulp_exponent_def)
    have "x < 2 powi (floor_log2 x + 1)" using floor_log2_bounds [OF x] by simp
    also have "\<dots> \<le> 2 powi (53 + e)" using x by (intro power_int_increasing) (auto simp: e_def ulp_exponent_def)
    finally have "x / 2 powi e \<le> of_int (2 ^ 53)" by (simp add: power_int_add field_simps)
    then have k': "k \<le> 2 ^ 53" unfolding k_def by (rule round_even_le)
    consider "k = 0" | "0 < k" "k < 2 ^ 53" | "k = 2 ^ 53" using k k' by linarith
    then show ?thesis
    proof cases
      case 2
      then show ?thesis using fl64_exact_pos [OF 2 e] by (simp add: x')
    next
      case 3
      then have "fl64 x = of_int (2 ^ 52) * 2 powi (e + 1)" by (simp add: x' power_int_add)
      then show ?thesis using fl64_exact_pos [of "2 ^ 52" "e + 1"] e by simp
    qed (simp add: x')
  qed
  consider "0 < x" | "x = 0" | "0 < - x" by linarith
  then show ?thesis using pos [of x] pos [of "- x"] by cases (auto simp: fl64_minus)
qed

lemma weigh_increases: "fl64 s = s \<Longrightarrow> 0 \<le> w \<Longrightarrow> s \<le> weigh b w s"
  using fl64_mono [of s "s + fl64 (w / 100)"] fl64_nonneg [of "w / 100"] by (simp add: weigh_def)

lemma weigh_representable: "fl64 s = s \<Longrightarrow> fl64 (weigh b w s) = weigh b w s"
  by (simp add: weigh_def)

lemma weigh_mono: "(b \<Longrightarrow> b') \<Longrightarrow> s \<le> s' \<Longrightarrow> fl64 s' = s' \<Longrightarrow> 0 \<le> w \<Longrightarrow> weigh b w s \<le> weigh b' w s'"
proof -
  assume "b \<Longrightarrow> b'" "s \<le> s'" "fl64 s' = s'" "0 \<le> w"
  show ?thesis
  proof (cases b)
    case True
    then show ?thesis using \<open>b \<Longrightarrow> b'\<close> \<open>s \<le> s'\<close> by (simp add: weigh_def fl64_mono)
  next
    case False
    then have "weigh b w s = s" by (simp add: weigh_def)
    then show ?thesis
      using \<open>s \<le> s'\<close> weigh_increases [OF \<open>fl64 s' = s'\<close> \<open>0 \<le> w\<close>, of b'] by linarith
  qed
qed

lemma round2_mono: "x \<le> y \<Longrightarrow> round2 x \<le> round2 y"
  by (simp add: round2_def fl64_mono round_even_mono divide_right_mono)

lemma fl64_1 [simp]: "fl64 1 = 1"
  using fl64_of_int [of 1] by simp

lemma score_of_mono:
  assumes "explicit \<Longrightarrow> explicit'" "ref \<Longrightarrow> ref'" "source \<Longrightarrow> source'" "topic \<Longrightarrow> topic'" "closure \<Longrightarrow> closure'"
  shows "score_of explicit ref source topic closure \<le> score_of explicit' ref' source' topic' closure'"
  unfolding score_of_def using assms
  by (intro round2_mono min.mono weigh_mono order_refl weigh_representable) auto

lemma score_of_explicit: "score_of True ref source topic closure = 1"
proof -
  have "1 \<le> weigh True 5 (weigh closure 10 (weigh topic 20 (weigh source 25 (weigh ref 45 1))))"
    by (rule order_trans [OF _ weigh_increases] | simp add: weigh_representable)+
  then have "score_of True ref source topic closure = round2 1"
    by (simp add: score_of_def min_def)
  also have "round2 1 = 1"
    using round_even_of_int [of 100] by (simp add: round2_def)
  finally show ?thesis .
qed

lemma score_of_at_most: "score_of explicit ref source topic closure \<le> 1"
  using score_of_mono [of explicit True ref ref source source topic topic closure closure]
  by (simp add: score_of_explicit)

lemma score_of_pos: "0 < score_of explicit ref source topic closure"
proof -
  have low: "fl64 (1 / 32) = 1 / 32" "fl64 (1 / 64) = 1 / 64"
    using fl64_exact_pos [of 1 "- 5"] fl64_exact_pos [of 1 "- 6"] by (simp_all add: power_int_def power_divide)
  have "1 / 32 \<le> fl64 (5 / 100)" using fl64_mono [of "1 / 32" "5 / 100"] low by simp
  then have "1 / 32 \<le> min (weigh True 5 0) 1" by (simp add: weigh_def)
  then have "of_int 3 \<le> min (weigh True 5 0) 1 * 100" by simp
  then have "3 \<le> round_even (min (weigh True 5 0) 1 * 100)" by (rule round_even_ge)
  then have "(1 :: rat) / 64 \<le> of_int (round_even (min (weigh True 5 0) 1 * 100)) / 100"
    by (simp add: field_simps)
  then have "1 / 64 \<le> round2 (min (weigh True 5 0) 1)"
    unfolding round2_def using fl64_mono low(2) by fastforce
  moreover have "score_of False False False False False = round2 (min (weigh True 5 0) 1)"
    by (simp add: score_of_def weigh_def [of False])
  ultimately have "0 < score_of False False False False False"
    by simp
  then show ?thesis
    using score_of_mono [of False explicit False ref False source False topic False closure]
    by (rule less_le_trans) auto
qed

lemma score_candidate_score:
  "sc_score (score_candidate f obsolete edges) =
     score_of (explicit_edge edges f obsolete) (memory_ref f obsolete) (shared_source f obsolete)
       (topic_overlap f obsolete) (if_closure_language f)"
  by (simp add: score_candidate_def Let_def score_of_def snd_add_evidence)

section \<open>The index\<close>

lemma collect_features_spec:
  assumes "collect_features u items by_id by_identity = (by_id', by_identity')"
    and "distinct (map if_item_id by_id)" "set by_identity \<subseteq> set by_id"
  shows "distinct (map if_item_id by_id') \<and> set by_identity' \<subseteq> set by_id' \<and> set by_id \<subseteq> set by_id'
    \<and> length by_identity' = length by_identity + length items"
  using assms
proof (induction items arbitrary: by_id by_identity)
  case (Cons item items)
  show ?case
  proof (cases "find_features (mi_id item) by_id")
    case None
    then have "if_item_id (build_item_features u item) \<notin> set (map if_item_id by_id)"
      by (auto simp: find_features_def find_None_iff build_item_features_def)
    then show ?thesis
      using Cons.prems None Cons.IH [of "by_id @ [build_item_features u item]" "by_identity @ [build_item_features u item]"]
      by (simp add: Let_def) blast
  next
    case (Some f)
    then have "f \<in> set by_id" by (auto simp: find_features_def find_Some_iff)
    then show ?thesis using Cons.prems Some Cons.IH [of by_id "by_identity @ [f]"] by simp
  qed
qed auto

lemma map_of_add_to_scope:
  "map_of (add_to_scope index f) k =
     (if k = if_scope_key f then Some ((case map_of index k of None \<Rightarrow> [] | Some fs \<Rightarrow> fs) @ [f])
      else map_of index k)"
  by (cases "k = if_scope_key f"; induction index f rule: add_to_scope.induct) auto

lemma map_of_valid_by_scope:
  "map_of (valid_by_scope fs) k =
     (let l = filter (\<lambda>f. if_scope_key f = k \<and> \<not> if_superseded f \<and> \<not> if_requires_review f) fs
      in if l = [] then None else Some l)"
proof (induction fs rule: rev_induct)
  case (snoc f fs)
  show ?case
    using snoc by (auto simp: valid_by_scope_def map_of_add_to_scope Let_def split: option.splits if_splits)
qed (simp add: valid_by_scope_def)

definition scope_members :: "item_features list \<Rightarrow> scope_key \<Rightarrow> item_features list" where
  "scope_members fs k =
     sort_key (\<lambda>f. (- if_created_key f, if_item_id f))
       (filter (\<lambda>f. if_scope_key f = k \<and> \<not> if_superseded f \<and> \<not> if_requires_review f) fs)"

lemma map_of_scope_indices:
  "map_of (build_scope_bitmap_indices (valid_by_scope fs)) k =
     (if scope_members fs k = [] then None
      else Some (scope_index_of (filter (\<lambda>f. if_scope_key f = k \<and> \<not> if_superseded f \<and> \<not> if_requires_review f) fs)))"
proof -
  have "map_of (build_scope_bitmap_indices index) k = map_option scope_index_of (map_of index k)" for index
    by (induction index) (auto simp: build_scope_bitmap_indices_def)
  moreover have "sort_key g l = [] \<longleftrightarrow> l = []" for g :: "item_features \<Rightarrow> int \<times> pystr" and l
    by (metis length_sort length_0_conv)
  ultimately show ?thesis by (simp add: map_of_valid_by_scope Let_def scope_members_def)
qed

lemma scope_index_of_items:
  "sx_items (scope_index_of l) = sort_key (\<lambda>f. (- if_created_key f, if_item_id f)) l"
  "sx_negative_created_keys (scope_index_of l) = map (\<lambda>f. - if_created_key f) (sx_items (scope_index_of l))"
  by (simp_all add: scope_index_of_def Let_def)

lemma bit_closure_mask:
  "bit (sx_closure_mask (scope_index_of l)) n \<longleftrightarrow>
     n < length (sx_items (scope_index_of l)) \<and> if_closure_language (sx_items (scope_index_of l) ! n)"
proof -
  have "bit (foldl (\<lambda>m (p, f). if if_closure_language f then m OR push_bit p 1 else m) m0 (enumerate k xs) :: int) n
      \<longleftrightarrow> bit m0 n \<or> k \<le> n \<and> n < k + length xs \<and> if_closure_language (xs ! (n - k))"
    for m0 k and xs :: "item_features list"
  proof (induction xs arbitrary: m0 k)
    case (Cons x xs)
    have shift: "k \<le> n \<and> n < k + length (x # xs) \<and> if_closure_language ((x # xs) ! (n - k)) \<longleftrightarrow>
        n = k \<and> if_closure_language x
        \<or> Suc k \<le> n \<and> n < Suc k + length xs \<and> if_closure_language (xs ! (n - Suc k))"
      by (auto simp: nth_Cons' Suc_diff_Suc not_less_eq_eq)
    show ?case unfolding shift
      by (cases "if_closure_language x") (simp_all add: Cons bit_or_iff disj_commute disj_left_commute)
  qed auto
  from this [of 0 0] show ?thesis by (simp add: scope_index_of_def Let_def)
qed

lemma position_of_spec:
  assumes d: "distinct (map if_item_id fs)" and f: "f \<in> set fs"
  shows "position_of (build_scope_bitmap_indices (valid_by_scope fs)) f = Some p \<longleftrightarrow>
    p < length (scope_members fs (if_scope_key f)) \<and> scope_members fs (if_scope_key f) ! p = f"
proof -
  define items where "items = scope_members fs (if_scope_key f)"
  have sub: "set items \<subseteq> set fs" by (auto simp: items_def scope_members_def)
  have inj: "inj_on if_item_id (set fs)" and "distinct fs" using d by (simp_all add: distinct_map)
  then have di: "distinct (map if_item_id items)"
    using sub by (auto simp: items_def scope_members_def distinct_map intro: inj_on_subset)
  have same: "g \<in> set items \<Longrightarrow> if_item_id g = if_item_id f \<longleftrightarrow> g = f" for g
    using inj sub f by (auto dest: inj_onD)
  have "find (\<lambda>(_, g). if_item_id g = if_item_id f) (enumerate k xs) = Some (q, h) \<longleftrightarrow>
      (\<exists>i < length xs. q = k + i \<and> h = xs ! i \<and> xs ! i = f)"
    if "set xs \<subseteq> set items" "distinct (map if_item_id xs)" for xs k q h
    using that
  proof (induction xs arbitrary: k)
    case (Cons x xs)
    show ?case
    proof (cases "x = f")
      case True
      then have "xs ! i \<noteq> f" if "i < length xs" for i
        using Cons.prems that by (auto simp: in_set_conv_nth image_iff)
      then show ?thesis using True by (auto simp: less_Suc_eq_0_disj)
    next
      case False
      then have "if_item_id x \<noteq> if_item_id f" using same [of x] Cons.prems by auto
      then show ?thesis using False Cons by (auto simp: less_Suc_eq_0_disj)
    qed
  qed simp
  from this [OF order_refl di, of 0] have
    found: "map_option fst (find (\<lambda>(_, g). if_item_id g = if_item_id f) (enumerate 0 items)) = Some p
      \<longleftrightarrow> p < length items \<and> items ! p = f"
    by auto
  show ?thesis
  proof (cases "items = []")
    case True
    then show ?thesis
      by (simp add: position_of_def map_of_scope_indices flip: items_def)
  next
    case False
    then show ?thesis
      using found
      by (simp add: position_of_def map_of_scope_indices scope_index_of_items flip: items_def scope_members_def)
  qed
qed

lemma posted_post_features:
  "n \<in> posted (post_features keys indices fs) k \<longleftrightarrow>
     (\<exists>f\<in>set fs. position_of indices f = Some n \<and> k \<in> set (keys f))"
proof -
  have inner: "posted (foldl (\<lambda>index key. add_to_posting_builder index key p) index ks) k =
      posted index k \<union> (if k \<in> set ks then {p} else {})" for index ks p
    by (induction ks arbitrary: index) auto
  show ?thesis
    by (induction fs rule: rev_induct) (auto simp: post_features_def inner split: option.splits)
qed

lemma posted_post_edges:
  "n \<in> posted (post_edges indices fs edges) k \<longleftrightarrow>
     (\<exists>(s, t)\<in>set edges. \<exists>f. find_features s fs = Some f \<and> position_of indices f = Some n \<and> k = (if_scope_key f, t))"
  by (induction edges rule: rev_induct) (auto simp: post_edges_def split: option.splits prod.splits)

section \<open>The indexed ranking is the direct one\<close>

lemma find_features_known:
  assumes "distinct (map if_item_id fs)"
  shows "find_features i fs = Some f \<longleftrightarrow> f \<in> set fs \<and> if_item_id f = i"
proof
  assume "f \<in> set fs \<and> if_item_id f = i"
  moreover from this obtain g where "find_features i fs = Some g"
    by (cases "find_features i fs") (auto simp: find_features_def find_None_iff)
  moreover from this have "g \<in> set fs" "if_item_id g = i" by (auto simp: find_features_def find_Some_iff)
  ultimately show "find_features i fs = Some f" using assms by (auto simp: distinct_map dest: inj_onD)
qed (auto simp: find_features_def find_Some_iff)

text \<open>
  One query: the features by id, the obsolete features, the members of its scope in order, the number
  of newer ones. The facts below are proved once for every such query.
\<close>

locale candidate_query =
  fixes fs :: "item_features list" and obsolete :: item_features and edges :: "(pystr \<times> pystr) list"
  assumes ids: "distinct (map if_item_id fs)"
    and stale: "f \<in> set fs \<Longrightarrow> if_item_id f = if_item_id obsolete \<Longrightarrow> if_created_key f \<le> if_created_key obsolete"
begin

definition members :: "item_features list" where
  "members = scope_members fs (if_scope_key obsolete)"

definition newer :: nat where
  "newer = bisect_left (map (\<lambda>f. - if_created_key f) members) (- if_created_key obsolete)"

definition indices :: "(scope_key \<times> scope_bitmap_index) list" where
  "indices = build_scope_bitmap_indices (valid_by_scope fs)"

definition scored :: "item_features \<Rightarrow> ranked_candidate" where
  "scored f = (score_candidate f obsolete edges, if_created_key f)"

definition evidence :: "item_features \<Rightarrow> bool list" where
  "evidence f = [memory_ref f obsolete, shared_source f obsolete, topic_overlap f obsolete, if_closure_language f]"

lemma member: "f \<in> set members \<longleftrightarrow> f \<in> set fs \<and> if_scope_key f = if_scope_key obsolete
    \<and> \<not> if_superseded f \<and> \<not> if_requires_review f"
  by (auto simp: members_def scope_members_def)

lemma members_distinct: "distinct (map if_item_id members)" "distinct members"
  using ids by (auto simp: members_def scope_members_def distinct_map intro: inj_on_subset)

lemma members_less:
  assumes "q < p" "p < length members"
  shows "(- if_created_key (members ! q), if_item_id (members ! q))
    < (- if_created_key (members ! p), if_item_id (members ! p))"
proof -
  have "sorted (map (\<lambda>f. (- if_created_key f, if_item_id f)) members)"
    by (simp add: members_def scope_members_def)
  then have "(- if_created_key (members ! q), if_item_id (members ! q))
      \<le> (- if_created_key (members ! p), if_item_id (members ! p))"
    using sorted_nth_mono [of "map (\<lambda>f. (- if_created_key f, if_item_id f)) members" q p] assms by simp
  moreover have "if_item_id (members ! q) \<noteq> if_item_id (members ! p)"
    using nth_eq_iff_index_eq [OF members_distinct(1), of q p] assms by simp
  ultimately show ?thesis by (metis order_le_imp_less_or_eq prod.inject)
qed

lemma newer_spec: "newer \<le> length members"
    "p < length members \<Longrightarrow> p < newer \<longleftrightarrow> if_created_key obsolete < if_created_key (members ! p)"
proof -
  have "sorted (map (\<lambda>f. - if_created_key f) members)"
    unfolding sorted_iff_nth_mono_less
    using members_less by (fastforce simp: less_prod_def')
  note bisect = bisect_left_spec [OF this, where x = "- if_created_key obsolete", folded newer_def]
  show "newer \<le> length members" using bisect(1) by simp
  show "p < length members \<Longrightarrow> p < newer \<longleftrightarrow> if_created_key obsolete < if_created_key (members ! p)"
    using bisect(2) [of p] by simp
qed

lemma newer_valid: "p < newer \<Longrightarrow> is_valid_candidate (members ! p) obsolete"
  using newer_spec(1) newer_spec(2) [of p] member [of "members ! p"] stale [of "members ! p"]
  by (fastforce simp: is_valid_candidate_def)

lemma valid_iff: "f \<in> set fs \<and> is_valid_candidate f obsolete \<longleftrightarrow> (\<exists>p<newer. f = members ! p)"
proof
  assume f: "f \<in> set fs \<and> is_valid_candidate f obsolete"
  then have "f \<in> set members" by (auto simp: member is_valid_candidate_def)
  then obtain p where "p < length members" "members ! p = f" by (auto simp: in_set_conv_nth)
  then show "\<exists>p<newer. f = members ! p" using f newer_spec(2) [of p] by (auto simp: is_valid_candidate_def)
next
  assume "\<exists>p<newer. f = members ! p"
  then show "f \<in> set fs \<and> is_valid_candidate f obsolete"
    using newer_valid newer_spec(1) member by (metis nth_mem order_less_le_trans)
qed

lemma position: "f \<in> set fs \<Longrightarrow> if_scope_key f = if_scope_key obsolete \<Longrightarrow>
    position_of indices f = Some p \<longleftrightarrow> p < length members \<and> members ! p = f"
  using position_of_spec [OF ids, of f p] by (simp add: indices_def members_def)

lemma posted_member:
  assumes keys: "\<And>f key. key \<in> set (keys f) \<Longrightarrow> fst key = if_scope_key f" and key: "fst key = if_scope_key obsolete"
  shows "p \<in> posted (post_features keys indices fs) key \<longleftrightarrow> p < length members \<and> key \<in> set (keys (members ! p))"
  unfolding posted_post_features
proof
  assume "\<exists>f\<in>set fs. position_of indices f = Some p \<and> key \<in> set (keys f)"
  then obtain f where f: "f \<in> set fs" "position_of indices f = Some p" "key \<in> set (keys f)" by blast
  then show "p < length members \<and> key \<in> set (keys (members ! p))"
    using position [of f p] keys [of key f] key by auto
next
  assume p: "p < length members \<and> key \<in> set (keys (members ! p))"
  then have "members ! p \<in> set members" by simp
  then show "\<exists>f\<in>set fs. position_of indices f = Some p \<and> key \<in> set (keys f)"
    using p position [of "members ! p" p] member by auto
qed

lemma posted_explicit:
  "p \<in> posted (post_edges indices fs edges) (if_scope_key obsolete, if_item_id obsolete)
    \<longleftrightarrow> p < length members \<and> explicit_edge edges (members ! p) obsolete"
  unfolding posted_post_edges explicit_edge_def find_features_known [OF ids]
proof
  assume "\<exists>(s, t)\<in>set edges. \<exists>f. (f \<in> set fs \<and> if_item_id f = s) \<and> position_of indices f = Some p
      \<and> (if_scope_key obsolete, if_item_id obsolete) = (if_scope_key f, t)"
  then show "p < length members \<and> (if_item_id (members ! p), if_item_id obsolete) \<in> set edges"
    using position by fastforce
next
  assume p: "p < length members \<and> (if_item_id (members ! p), if_item_id obsolete) \<in> set edges"
  then have "members ! p \<in> set members" by simp
  then show "\<exists>(s, t)\<in>set edges. \<exists>f. (f \<in> set fs \<and> if_item_id f = s) \<and> position_of indices f = Some p
      \<and> (if_scope_key obsolete, if_item_id obsolete) = (if_scope_key f, t)"
    using p position [of "members ! p" p] member by fastforce
qed

lemma set_source_keys:
  "set (source_keys f) = {(if_scope_key f, i, v) | i v. i < length (if_source_refs f) \<and> v \<in> set (if_source_refs f ! i)}"
  by (force simp: source_keys_def in_set_enumerate_eq)

lemma shared_source_keys:
  "if_scope_key f = if_scope_key obsolete \<Longrightarrow>
    shared_source f obsolete \<longleftrightarrow> (\<exists>key\<in>set (source_keys obsolete). key \<in> set (source_keys f))"
  by (fastforce simp: shared_source_def meets_def list_ex_iff set_zip set_source_keys)

lemma topic_overlap_keys:
  "if_scope_key f = if_scope_key obsolete \<Longrightarrow>
    topic_overlap f obsolete \<longleftrightarrow> (\<exists>key\<in>set (topic_keys obsolete). key \<in> set (topic_keys f))"
  by (auto simp: topic_overlap_def meets_def list_ex_iff topic_keys_def)

text \<open>The masks of the query hold exactly the newer members with the evidence.\<close>

definition newer_mask :: int where
  "newer_mask = push_bit newer 1 - 1"

definition explicit_mask :: int where
  "explicit_mask =
     posting_mask (map_of (freeze_posting_index (post_edges indices fs edges)) (if_scope_key obsolete, if_item_id obsolete))
     AND newer_mask"

definition masks :: "int list" where
  "masks =
     [posting_mask (map_of (freeze_posting_index (post_features memory_keys indices fs))
        (if_scope_key obsolete, if_item_id obsolete)) AND newer_mask,
      union_masks (freeze_posting_index (post_features source_keys indices fs)) (source_keys obsolete) AND newer_mask,
      union_masks (freeze_posting_index (post_features topic_keys indices fs)) (topic_keys obsolete) AND newer_mask,
      sx_closure_mask (scope_index_of (filter (\<lambda>f. if_scope_key f = if_scope_key obsolete
        \<and> \<not> if_superseded f \<and> \<not> if_requires_review f) fs)) AND newer_mask]"

lemma bit_newer: "bit newer_mask p \<longleftrightarrow> p < newer"
  unfolding newer_mask_def by (rule bit_newer_mask)

lemma bit_explicit: "bit explicit_mask p \<longleftrightarrow> p < newer \<and> explicit_edge edges (members ! p) obsolete"
  using newer_spec(1) by (auto simp: explicit_mask_def bit_and_iff bit_newer bit_posting_mask posted_explicit)

lemma length_masks [simp]: "length masks = 4" "length (evidence f) = 4"
  by (simp_all add: masks_def evidence_def)

lemma member_scope: "p < newer \<Longrightarrow> if_scope_key (members ! p) = if_scope_key obsolete"
  using newer_valid by (simp add: is_valid_candidate_def)

lemma key_scopes:
  "key \<in> set (memory_keys f) \<Longrightarrow> fst key = if_scope_key f"
  "key' \<in> set (source_keys f) \<Longrightarrow> fst key' = if_scope_key f"
  "key \<in> set (topic_keys f) \<Longrightarrow> fst key = if_scope_key f"
  by (auto simp: memory_keys_def set_source_keys topic_keys_def)

lemma bit_masks:
  assumes "i < 4"
  shows "bit (masks ! i) p \<longleftrightarrow> p < newer \<and> evidence (members ! p) ! i"
proof (cases "p < newer")
  case False
  then show ?thesis using assms by (auto simp: masks_def less_Suc_eq numeral_eq_Suc bit_and_iff bit_newer)
next
  case True
  then have p: "p < length members" using newer_spec(1) by simp
  have memory: "bit (posting_mask (map_of (freeze_posting_index (post_features memory_keys indices fs))
      (if_scope_key obsolete, if_item_id obsolete))) p \<longleftrightarrow> memory_ref (members ! p) obsolete"
    using posted_member [of memory_keys "(if_scope_key obsolete, if_item_id obsolete)" p, OF key_scopes(1)]
      p member_scope [OF True]
    by (auto simp: bit_posting_mask memory_keys_def memory_ref_def)
  have source: "bit (union_masks (freeze_posting_index (post_features source_keys indices fs)) (source_keys obsolete)) p
      \<longleftrightarrow> shared_source (members ! p) obsolete"
    using posted_member [of source_keys _ p, OF key_scopes(2) key_scopes(2) [of _ obsolete]]
      p shared_source_keys [OF member_scope [OF True]]
    by (simp add: bit_union_masks bit_posting_mask)
  have topic: "bit (union_masks (freeze_posting_index (post_features topic_keys indices fs)) (topic_keys obsolete)) p
      \<longleftrightarrow> topic_overlap (members ! p) obsolete"
    using posted_member [of topic_keys _ p, OF key_scopes(3) key_scopes(3) [of _ obsolete]]
      p topic_overlap_keys [OF member_scope [OF True]]
    by (simp add: bit_union_masks bit_posting_mask)
  have closure: "bit (sx_closure_mask (scope_index_of (filter (\<lambda>f. if_scope_key f = if_scope_key obsolete
        \<and> \<not> if_superseded f \<and> \<not> if_requires_review f) fs))) p \<longleftrightarrow> if_closure_language (members ! p)"
    using p by (simp add: bit_closure_mask scope_index_of_items flip: members_def scope_members_def)
  consider "i = 0" | "i = 1" | "i = 2" | "i = 3" using assms by linarith
  then show ?thesis
    using True memory source topic closure
    by cases (simp_all add: masks_def evidence_def bit_and_iff bit_newer)
qed

definition signature :: "item_features \<Rightarrow> nat" where
  "signature f = (\<Sum>i<4. of_bool (evidence f ! i) * 2 ^ i)"

lemma signature_bits: "i < 4 \<Longrightarrow> odd (signature f div 2 ^ i) \<longleftrightarrow> evidence f ! i"
    and signature_less: "signature f < 16"
proof -
  have sum: "signature f = of_bool (evidence f ! 0) + of_bool (evidence f ! 1) * 2
      + of_bool (evidence f ! 2) * 4 + of_bool (evidence f ! 3) * 8"
    by (simp add: signature_def numeral_eq_Suc)
  show "signature f < 16" unfolding sum by (simp add: of_bool_def)
  assume "i < 4"
  then consider "i = 0" | "i = 1" | "i = 2" | "i = 3" by linarith
  then show "odd (signature f div 2 ^ i) \<longleftrightarrow> evidence f ! i"
    unfolding sum
    by cases (cases "evidence f ! 0"; cases "evidence f ! 1"; cases "evidence f ! 2"; cases "evidence f ! 3"; simp)+
qed

lemma bit_own_signature:
  "bit (signature_mask newer_mask (signature f) masks) q \<longleftrightarrow>
     q < newer \<and> (\<forall>i<4. evidence f ! i \<longrightarrow> evidence (members ! q) ! i)"
  using signature_bits [of _ f] by (auto simp: bit_signature_mask bit_newer bit_masks)

text \<open>What a member left out of the positions is beaten by: three newer ones with as much evidence.\<close>

definition positions :: "nat list" where
  "positions = candidate_positions newer_mask explicit_mask masks"

lemma set_positions:
  "set positions = set (lowest_set_positions 3 newer_mask) \<union> set (lowest_set_positions 3 explicit_mask)
     \<union> (\<Union>s\<in>{1..<16}. set (lowest_set_positions 3 (signature_mask newer_mask s masks)))"
  by (simp add: positions_def candidate_positions_def Un_assoc)

lemma positions_newer: "p \<in> set positions \<Longrightarrow> p < newer"
  by (auto simp: set_positions bit_newer bit_explicit bit_signature_mask dest!: lowest_set_positions_bit)

lemma score_dominates:
  assumes "explicit_edge edges f obsolete \<Longrightarrow> explicit_edge edges g obsolete"
    and "\<forall>i<4. evidence f ! i \<longrightarrow> evidence g ! i"
  shows "sc_score (score_candidate f obsolete edges) \<le> sc_score (score_candidate g obsolete edges)"
proof -
  have "evidence f ! i \<Longrightarrow> evidence g ! i" if "i < 4" for i using assms(2) that by blast
  from this [of 0] this [of 1] this [of 2] this [of 3] show ?thesis
    unfolding score_candidate_score using assms(1)
    by (intro score_of_mono) (simp_all add: evidence_def)
qed

lemma left_out:
  assumes p: "p < newer" "p \<notin> set positions"
  shows "\<exists>Q \<subseteq> set positions. card Q = 3 \<and> (\<forall>q\<in>Q. q < p
    \<and> sc_score (score_candidate (members ! p) obsolete edges) \<le> sc_score (score_candidate (members ! q) obsolete edges))"
proof -
  have beaten: ?thesis
    if "bit m p" "set (lowest_set_positions 3 m) \<subseteq> set positions"
      and dominates: "\<And>q. bit m q \<Longrightarrow>
        sc_score (score_candidate (members ! p) obsolete edges) \<le> sc_score (score_candidate (members ! q) obsolete edges)"
    for m
  proof (intro exI conjI ballI)
    have out: "p \<notin> set (lowest_set_positions 3 m)" using p(2) that(2) by blast
    show "card (set (lowest_set_positions 3 m)) = 3" by (rule lowest_set_positions_first(1) [OF that(1) out])
    fix q assume q: "q \<in> set (lowest_set_positions 3 m)"
    show "q < p" by (rule lowest_set_positions_first(2) [OF that(1) out q])
    show "sc_score (score_candidate (members ! p) obsolete edges) \<le> sc_score (score_candidate (members ! q) obsolete edges)"
      using q by (intro dominates lowest_set_positions_bit)
  qed (rule that(2))
  show ?thesis
  proof (cases "explicit_edge edges (members ! p) obsolete")
    case True
    show ?thesis
    proof (rule beaten)
      show "bit explicit_mask p" using p True by (simp add: bit_explicit)
      show "set (lowest_set_positions 3 explicit_mask) \<subseteq> set positions" by (auto simp: set_positions)
      fix q assume "bit explicit_mask q"
      then show "sc_score (score_candidate (members ! p) obsolete edges) \<le> sc_score (score_candidate (members ! q) obsolete edges)"
        by (simp add: bit_explicit score_candidate_score score_of_explicit score_of_at_most)
    qed
  next
    case False
    show ?thesis
    proof (rule beaten)
      define s where "s = signature (members ! p)"
      show "bit (signature_mask newer_mask s masks) p" using p by (simp add: s_def bit_own_signature)
      show "set (lowest_set_positions 3 (signature_mask newer_mask s masks)) \<subseteq> set positions"
      proof (cases "s = 0")
        case True
        have "signature_mask m 0 ms = m" for m and ms :: "int list" by (induction ms) simp_all
        then show ?thesis using True by (auto simp: set_positions)
      next
        case False
        then have "s \<in> {1..<16}" using signature_less [of "members ! p"] by (simp add: s_def)
        then show ?thesis by (auto simp: set_positions)
      qed
      fix q assume "bit (signature_mask newer_mask s masks) q"
      then show "sc_score (score_candidate (members ! p) obsolete edges) \<le> sc_score (score_candidate (members ! q) obsolete edges)"
        using False by (intro score_dominates) (simp_all add: s_def bit_own_signature)
    qed
  qed
qed

lemma ranking_key_scored: "ranking_key (scored f) =
    (- sc_score (score_candidate f obsolete edges), - if_created_key f, if_item_id f)"
  by (simp add: ranking_key_def scored_def score_candidate_def Let_def)

lemma key_less:
  assumes "q < p" "p < newer"
    "sc_score (score_candidate (members ! p) obsolete edges) \<le> sc_score (score_candidate (members ! q) obsolete edges)"
  shows "ranking_key (scored (members ! q)) < ranking_key (scored (members ! p))"
  using members_less [of q p] assms newer_spec(1) by (auto simp: ranking_key_scored less_prod_def')

lemma scored_inject:
  assumes "p < newer" "q < newer" "ranking_key (scored (members ! p)) = ranking_key (scored (members ! q))"
  shows "p = q"
proof -
  have "if_item_id (members ! p) = if_item_id (members ! q)"
    using assms(3) by (simp add: ranking_key_scored)
  then show ?thesis
    using nth_eq_iff_index_eq [OF members_distinct(1), of p q] assms(1,2) newer_spec(1) by simp
qed

lemma scored_list:
  assumes "distinct ps" "\<forall>p\<in>set ps. p < newer"
  shows "scored_candidates edges obsolete (map ((!) members) ps) = map (\<lambda>p. scored (members ! p)) ps"
    "distinct (map ranking_key (map (\<lambda>p. scored (members ! p)) ps))"
proof -
  have "filter (\<lambda>f. is_valid_candidate f obsolete) (map ((!) members) ps) = map ((!) members) ps"
    using assms(2) newer_valid by (auto simp: filter_id_conv)
  then show "scored_candidates edges obsolete (map ((!) members) ps) = map (\<lambda>p. scored (members ! p)) ps"
    by (simp add: scored_candidates_def scored_def)
  have "inj_on (\<lambda>p. ranking_key (scored (members ! p))) (set ps)"
    using assms(2) scored_inject by (blast intro: inj_onI)
  then show "distinct (map ranking_key (map (\<lambda>p. scored (members ! p)) ps))"
    using assms(1) by (simp add: distinct_map o_def)
qed

definition scored_at :: "nat list \<Rightarrow> ranked_candidate list" where
  "scored_at ps = map (\<lambda>p. scored (members ! p)) ps"

lemma positions_distinct: "distinct positions"
  by (simp add: positions_def candidate_positions_def)

lemma best_positions:
  "best_of edges members obsolete positions = take 3 (sort_key ranking_key (scored_at positions))"
proof -
  have newer: "\<forall>p\<in>set positions. p < newer" using positions_newer by blast
  note ps = scored_list [OF positions_distinct newer]
  have "distinct (map ranking_key (scored_candidates edges obsolete (map ((!) members) positions)))"
    unfolding ps(1) by (rule ps(2))
  moreover have "0 < sc_score (score_candidate (members ! p) obsolete edges)" for p
    by (simp add: score_candidate_score score_of_pos)
  ultimately have "best_of edges members obsolete positions =
      take 3 (sort_key ranking_key (scored_candidates edges obsolete (map ((!) members) positions)))"
    by (intro best_of_three)
  then show ?thesis by (simp only: ps(1) scored_at_def)
qed

lemma three_below:
  assumes "p < newer" "scored (members ! p) \<notin> set (scored_at positions)"
  shows "3 \<le> card {y \<in> set (scored_at positions). ranking_key y < ranking_key (scored (members ! p))}"
proof -
  have out: "p \<notin> set positions" using assms(2) by (auto simp: scored_at_def)
  obtain Q where Q: "Q \<subseteq> set positions" "card Q = 3" "\<forall>q\<in>Q. q < p
    \<and> sc_score (score_candidate (members ! p) obsolete edges) \<le> sc_score (score_candidate (members ! q) obsolete edges)"
    using left_out [OF assms(1) out] by blast
  have "inj_on (\<lambda>q. scored (members ! q)) Q"
  proof (rule inj_onI)
    fix q r assume "q \<in> Q" "r \<in> Q" "scored (members ! q) = scored (members ! r)"
    then show "q = r" using Q(1) positions_newer scored_inject [of q r] by (simp add: subset_iff)
  qed
  then have three: "card ((\<lambda>q. scored (members ! q)) ` Q) = 3"
    using Q(2) by (simp add: card_image)
  have "(\<lambda>q. scored (members ! q)) ` Q \<subseteq> {y \<in> set (scored_at positions). ranking_key y < ranking_key (scored (members ! p))}"
  proof
    fix y assume "y \<in> (\<lambda>q. scored (members ! q)) ` Q"
    then obtain q where q: "q \<in> Q" "y = scored (members ! q)" by blast
    have "ranking_key y < ranking_key (scored (members ! p))"
      unfolding q(2) using Q(3) q(1) assms(1) by (intro key_less) simp_all
    moreover have "y \<in> set (scored_at positions)"
      using q Q(1) by (simp add: scored_at_def subset_iff)
    ultimately show "y \<in> {y \<in> set (scored_at positions). ranking_key y < ranking_key (scored (members ! p))}"
      by simp
  qed
  from card_mono [OF _ this] three show ?thesis by simp
qed

lemma take_positions:
  "take 3 (sort_key ranking_key (scored_at positions)) = take 3 (sort_key ranking_key (scored_at [0..<newer]))"
proof (rule take_sort_subset)
  have newer: "\<forall>p\<in>set positions. p < newer" using positions_newer by blast
  show "distinct (map ranking_key (scored_at positions))"
    unfolding scored_at_def by (rule scored_list(2) [OF positions_distinct newer])
  show "distinct (map ranking_key (scored_at [0..<newer]))"
    unfolding scored_at_def by (rule scored_list(2)) simp_all
  show "set (scored_at positions) \<subseteq> set (scored_at [0..<newer])"
    using newer by (auto simp: scored_at_def)
  show "3 \<le> card {y \<in> set (scored_at positions). ranking_key y < ranking_key x}"
    if "x \<in> set (scored_at [0..<newer])" "x \<notin> set (scored_at positions)" for x
    using that three_below by (auto simp: scored_at_def)
qed

lemma all_scored:
  "sort_key ranking_key (scored_at [0..<newer]) = sort_key ranking_key (scored_candidates edges obsolete fs)"
proof (rule sort_key_unique)
  show "distinct (map ranking_key (scored_at [0..<newer]))"
    unfolding scored_at_def by (rule scored_list(2)) simp_all
  have "inj_on if_item_id (set fs)" "distinct fs" using ids by (simp_all add: distinct_map)
  then have "inj_on (\<lambda>f. ranking_key (scored f)) (set fs)"
    unfolding inj_on_def ranking_key_scored by simp
  then have "distinct (map (\<lambda>f. ranking_key (scored f)) (filter (\<lambda>f. is_valid_candidate f obsolete) fs))"
    using \<open>distinct fs\<close> unfolding distinct_map by (simp add: inj_on_subset)
  moreover have "map ranking_key (scored_candidates edges obsolete fs)
      = map (\<lambda>f. ranking_key (scored f)) (filter (\<lambda>f. is_valid_candidate f obsolete) fs)"
    by (simp add: scored_candidates_def scored_def)
  ultimately show "distinct (map ranking_key (scored_candidates edges obsolete fs))" by simp
  have "set (scored_candidates edges obsolete fs) = scored ` {f. f \<in> set fs \<and> is_valid_candidate f obsolete}"
    by (auto simp: scored_candidates_def scored_def)
  also have "{f. f \<in> set fs \<and> is_valid_candidate f obsolete} = (\<lambda>p. members ! p) ` {0..<newer}"
    unfolding valid_iff by auto
  also have "scored ` \<dots> = set (scored_at [0..<newer])"
    by (simp add: scored_at_def image_image)
  finally show "set (scored_at [0..<newer]) = set (scored_candidates edges obsolete fs)" by simp
qed

lemma best_is_reference:
  "map fst (best_of edges members obsolete positions) = reference_rank edges obsolete fs"
  by (simp add: best_positions take_positions all_scored reference_rank_def)

end

text \<open>The ranker and the objects it was built from provide such queries.\<close>

definition known_features :: "topic_unicode \<Rightarrow> memory_item list \<Rightarrow> item_features list" where
  "known_features u items = fst (collect_features u items [] [])"

definition given_features :: "topic_unicode \<Rightarrow> memory_item list \<Rightarrow> nat \<Rightarrow> item_features" where
  "given_features u items n = snd (collect_features u items [] []) ! (n mod length items)"

lemma collected:
  "distinct (map if_item_id (known_features u items))"
  "length (snd (collect_features u items [] [])) = length items"
  "items \<noteq> [] \<Longrightarrow> given_features u items n \<in> set (known_features u items)"
proof -
  obtain by_id by_identity where eq: "collect_features u items [] [] = (by_id, by_identity)"
    by fastforce
  note spec = collect_features_spec [OF eq]
  show "distinct (map if_item_id (known_features u items))"
    "length (snd (collect_features u items [] [])) = length items"
    using spec by (simp_all add: known_features_def eq)
  show "given_features u items n \<in> set (known_features u items)" if "items \<noteq> []"
  proof -
    have "n mod length items < length by_identity" using spec that by simp
    then have "by_identity ! (n mod length items) \<in> set by_identity" by (rule nth_mem)
    then show ?thesis using spec by (auto simp: known_features_def given_features_def eq)
  qed
qed

interpretation given: candidate_query "known_features u items" "given_features u items n" edges
  for u items n edges
proof
  show "distinct (map if_item_id (known_features u items))" by (rule collected(1))
  fix f assume f: "f \<in> set (known_features u items)" "if_item_id f = if_item_id (given_features u items n)"
  then have "items \<noteq> []" by (auto simp: known_features_def)
  then have "f = given_features u items n"
    using f collected(1) [of u items] collected(3) [of items u n] by (auto simp: distinct_map dest: inj_onD)
  then show "if_created_key f \<le> if_created_key (given_features u items n)" by simp
qed

lemma make_ranker_fields:
  fixes u items edges
  defines "fs \<equiv> known_features u items"
  defines "ix \<equiv> build_scope_bitmap_indices (valid_by_scope fs)"
  shows "rk_features_by_id (make_ranker u items edges) = fs"
    "rk_features_by_identity (make_ranker u items edges) = snd (collect_features u items [] [])"
    "rk_supersedes_edges (make_ranker u items edges) = dedup edges"
    "rk_scope_indices (make_ranker u items edges) = ix"
    "rk_explicit_index (make_ranker u items edges) = freeze_posting_index (post_edges ix fs (dedup edges))"
    "rk_memory_ref_index (make_ranker u items edges) = freeze_posting_index (post_features memory_keys ix fs)"
    "rk_source_ref_index (make_ranker u items edges) = freeze_posting_index (post_features source_keys ix fs)"
    "rk_topic_index (make_ranker u items edges) = freeze_posting_index (post_features topic_keys ix fs)"
  unfolding fs_def ix_def by (simp_all add: make_ranker_def known_features_def Let_def split_def)

text \<open>\<open>rank\<close> computes exactly the masks, positions and loop of the query.\<close>

lemma rank_features_eq:
  assumes q: "candidate_query (known_features u items) obsolete"
  shows "rank_features (make_ranker u items edges) obsolete =
    reference_rank (dedup edges) obsolete (known_features u items)"
proof -
  define fs where "fs = known_features u items"
  note query = q [folded fs_def]
  note fields = make_ranker_fields [of u items edges, folded fs_def]
  note newer_mask = candidate_query.newer_mask_def [OF query]
  have bits: "candidate_query.newer_mask fs obsolete = 0 \<longleftrightarrow> candidate_query.newer fs obsolete = 0"
    using candidate_query.bit_newer [OF query, of 0] by (auto simp: newer_mask)
  have reference: "map fst (best_of (dedup edges) (candidate_query.members fs obsolete) obsolete
      (candidate_query.positions fs obsolete (dedup edges))) = reference_rank (dedup edges) obsolete fs"
    by (rule candidate_query.best_is_reference [OF query])
  have none: "reference_rank (dedup edges) obsolete fs = []" if "candidate_query.newer fs obsolete = 0"
  proof -
    have "set (candidate_query.positions fs obsolete (dedup edges)) = {}"
      using candidate_query.positions_newer [OF query, where edges = "dedup edges"] that by fastforce
    then show ?thesis using reference by (simp add: best_of_def)
  qed
  show ?thesis
  proof (cases "scope_members fs (if_scope_key obsolete) = []")
    case True
    then have "candidate_query.newer fs obsolete = 0"
      using candidate_query.newer_spec(1) [OF query] by (simp add: candidate_query.members_def [OF query])
    then show ?thesis
      using True none by (simp add: rank_features_def fields map_of_scope_indices flip: fs_def)
  next
    case False
    define sx where "sx = scope_index_of (filter (\<lambda>f. if_scope_key f = if_scope_key obsolete
      \<and> \<not> if_superseded f \<and> \<not> if_requires_review f) fs)"
    have sx: "map_of (build_scope_bitmap_indices (valid_by_scope fs)) (if_scope_key obsolete) = Some sx"
      using False by (simp add: map_of_scope_indices sx_def)
    have items: "sx_items sx = candidate_query.members fs obsolete"
      by (simp add: sx_def scope_index_of_items candidate_query.members_def [OF query] scope_members_def)
    have count: "bisect_left (sx_negative_created_keys sx) (- if_created_key obsolete) = candidate_query.newer fs obsolete"
      unfolding candidate_query.newer_def [OF query] items [symmetric]
      by (simp only: sx_def scope_index_of_items)
    have masks: "evidence_masks (make_ranker u items edges) sx (candidate_query.newer_mask fs obsolete) obsolete
        = candidate_query.masks fs obsolete"
      unfolding evidence_masks_def candidate_query.masks_def [OF query] candidate_query.indices_def [OF query]
        fields Let_def sx_def by (rule refl)
    show ?thesis
      unfolding rank_features_def fields sx option.case count Let_def newer_mask [symmetric] bits masks items
      using none reference
      by (simp add: candidate_query.positions_def [OF query] candidate_query.explicit_mask_def [OF query]
          candidate_query.indices_def [OF query] flip: fs_def)
  qed
qed

lemma reference_rank_dedup: "reference_rank (dedup edges) = reference_rank edges"
proof -
  have "explicit_edge (dedup edges) = explicit_edge edges" by (simp add: fun_eq_iff explicit_edge_def)
  then have "score_candidate f g (dedup edges) = score_candidate f g edges" for f g
    by (simp add: score_candidate_def)
  then show ?thesis by (simp add: fun_eq_iff reference_rank_def scored_candidates_def)
qed

lemma given_query: "candidate_query (known_features u items) (given_features u items n)"
  by unfold_locales (rule given.ids, rule given.stale)

section \<open>The properties\<close>

text \<open>C14. The ranking of replacement candidates through position masks, with at most three positions taken
  from each of the combinations of evidence, returns exactly what scoring every valid memory, sorting
  by score, newness and id, and keeping three would: nothing the masks leave out belongs to the best.\<close>

theorem ranking_is_top_three:
  assumes "n < length items"
  shows "rank u (make_ranker u items edges) (Given n) =
    reference_rank edges (rk_features_by_identity (make_ranker u items edges) ! n)
      (rk_features_by_id (make_ranker u items edges))"
proof -
  have "rk_features_by_identity (make_ranker u items edges) ! n = given_features u items n"
    using assms by (simp add: make_ranker_fields given_features_def)
  then show ?thesis
    by (simp add: rank_def rank_features_eq [OF given_query] reference_rank_dedup make_ranker_fields(1))
qed

lemma collect_features_distinct:
  assumes "distinct (map mi_id items)" "\<And>f. f \<in> set by_id \<Longrightarrow> if_item_id f \<notin> set (map mi_id items)"
  shows "collect_features u items by_id by_identity =
    (by_id @ map (build_item_features u) items, by_identity @ map (build_item_features u) items)"
  using assms
proof (induction items arbitrary: by_id by_identity)
  case (Cons item items)
  have "find_features (mi_id item) by_id = None"
    using Cons.prems(2) by (auto simp: find_features_def find_None_iff)
  moreover have "if_item_id f \<notin> set (map mi_id items)" if "f \<in> set (by_id @ [build_item_features u item])" for f
    using that Cons.prems by (auto simp: build_item_features_def)
  ultimately show ?case
    using Cons.IH [of "by_id @ [build_item_features u item]" "by_identity @ [build_item_features u item]"] Cons.prems(1)
    by (simp add: Let_def)
qed simp

lemma reference_rank_member:
  assumes "c \<in> set (reference_rank edges obsolete fs)"
  shows "\<exists>f\<in>set fs. is_valid_candidate f obsolete \<and> c = score_candidate f obsolete edges"
  using assms by (auto simp: reference_rank_def scored_candidates_def dest!: in_set_takeD)

text \<open>C15. Every suggested replacement is one of the memories given, belongs to the same tenant, project
  and type as the obsolete one, is strictly newer, is not itself superseded and carries no tag that
  requires a review; there are at most three, each with a score above 0 and at most 1.\<close>

theorem suggestions_are_valid:
  assumes "n < length items" "distinct (map mi_id items)"
  shows "length (rank u (make_ranker u items edges) (Given n)) \<le> 3
    \<and> list_all (\<lambda>c. 0 < sc_score c \<and> sc_score c \<le> 1
        \<and> list_ex (\<lambda>item. mi_id item = sc_replacement_id c \<and> mi_id item \<noteq> mi_id (items ! n)
            \<and> mi_tenant_id item = mi_tenant_id (items ! n) \<and> mi_project item = mi_project (items ! n)
            \<and> item_type_value item = item_type_value (items ! n)
            \<and> instant (mi_created_at (items ! n)) < instant (mi_created_at item)
            \<and> mi_superseded_by item \<in> {None, Some []}
            \<and> \<not> list_ex (\<lambda>tag. casefold tag \<in> set review_required_tags) (mi_tags item)) items)
      (rank u (make_ranker u items edges) (Given n))"
proof -
  have collect: "collect_features u items [] [] = (map (build_item_features u) items, map (build_item_features u) items)"
    using collect_features_distinct [OF assms(2), of "[]"] by simp
  have eq: "rank u (make_ranker u items edges) (Given n) =
      reference_rank edges (build_item_features u (items ! n)) (map (build_item_features u) items)"
    using assms(1) rank_features_eq [OF given_query [of u items n], of edges]
    by (simp add: rank_def reference_rank_dedup known_features_def given_features_def make_ranker_fields collect)
  have key: "utc_microsecond_key t = instant t + 719163 * us_per_day" for t
    by (simp add: utc_microsecond_key_def instant_def)
  show ?thesis
    unfolding eq list_all_iff
  proof (intro conjI ballI)
    show "length (reference_rank edges (build_item_features u (items ! n)) (map (build_item_features u) items)) \<le> 3"
      by (simp add: reference_rank_def)
  next
    fix c assume "c \<in> set (reference_rank edges (build_item_features u (items ! n)) (map (build_item_features u) items))"
    then obtain item where item: "item \<in> set items"
      "is_valid_candidate (build_item_features u item) (build_item_features u (items ! n))"
      "c = score_candidate (build_item_features u item) (build_item_features u (items ! n)) edges"
      by (auto dest!: reference_rank_member)
    show "0 < sc_score c" "sc_score c \<le> 1"
      by (simp_all add: item(3) score_candidate_score score_of_pos score_of_at_most)
    show "list_ex (\<lambda>item. mi_id item = sc_replacement_id c \<and> mi_id item \<noteq> mi_id (items ! n)
            \<and> mi_tenant_id item = mi_tenant_id (items ! n) \<and> mi_project item = mi_project (items ! n)
            \<and> item_type_value item = item_type_value (items ! n)
            \<and> instant (mi_created_at (items ! n)) < instant (mi_created_at item)
            \<and> mi_superseded_by item \<in> {None, Some []}
            \<and> \<not> list_ex (\<lambda>tag. casefold tag \<in> set review_required_tags) (mi_tags item)) items"
      using item(1,2)
      by (auto simp: list_ex_iff item(3) score_candidate_def Let_def is_valid_candidate_def
          build_item_features_def scope_key_of_def key intro!: bexI [of _ item])
  qed
qed

section \<open>A concrete ranking\<close>

definition sample_unicode :: topic_unicode where
  "sample_unicode = \<lparr>tu_nfkc = (\<lambda>s. s), tu_letter = (\<lambda>_. False)\<rparr>"

definition sample_newer :: memory_item where
  "sample_newer = sample_item\<lparr>mi_id := lit ''mem-20260612-030000-cdn'',
     mi_created_at := \<lparr>dt_wall = 1781233200000000, dt_offset = Some 0\<rparr>\<rparr>"

lemma ranking_is_top_three_witness:
  "length (rank sample_unicode (make_ranker sample_unicode [sample_item, sample_newer] []) (Given 0)) = 1"
proof -
  define rk where "rk = make_ranker sample_unicode [sample_item, sample_newer] []"
  have "length (filter (\<lambda>f. is_valid_candidate f (rk_features_by_identity rk ! 0)) (rk_features_by_id rk)) = 1"
    unfolding rk_def by code_simp
  moreover have "length (reference_rank edges obsolete fs) = min 3 (length (filter (\<lambda>f. is_valid_candidate f obsolete) fs))"
    for edges obsolete fs
    by (simp add: reference_rank_def scored_candidates_def)
  ultimately show ?thesis
    using ranking_is_top_three [of 0 "[sample_item, sample_newer]" sample_unicode "[]"] by (simp flip: rk_def)
qed

lemma suggestions_are_valid_witness:
  "length (rank sample_unicode (make_ranker sample_unicode [sample_item, sample_newer] []) (Given 0)) \<le> 3"
proof -
  have "distinct (map mi_id [sample_item, sample_newer])" by (simp add: sample_item_def sample_newer_def)
  then show ?thesis
    using suggestions_are_valid [of 0 "[sample_item, sample_newer]" sample_unicode "[]"] by simp
qed

end
