(* ===== verification/ItemStore.thy ===== *)
theory ItemStore imports MemoryDraft begin

text \<open>
  The item store: \<open>store/item_markdown.py\<close>, the operations of \<open>store/items_store.py\<close> on one item, and
  what \<open>store/durable_fs.py\<close> guarantees of each of its calls. A brain directory maps ids to the files
  below \<open>items\<close>. Every call of the file system takes the next event of a script: it proceeds, it fails
  before its effect or after it (an \<open>fsync\<close> after the rename, a cleanup), with an error or with an
  interrupt (of an append that fails, \<open>fe_written\<close> bytes are in the file); and another program, which
  takes none of the locks, may have rewritten files just before.
  A script that has run out proceeds.

  PyYAML and pydantic are the parameters of \<open>item_codec\<close>: loading and dumping a YAML text, the coercion
  of fields, the dump of an item and \<open>repr\<close>.
\<close>

section \<open>UTF-8\<close>

type_synonym pybytes = "int list"

definition is_surrogate :: "int \<Rightarrow> bool" where
  "is_surrogate c \<longleftrightarrow> 55296 \<le> c \<and> c \<le> 57343"

definition utf8_char :: "int \<Rightarrow> pybytes" where
  "utf8_char c =
     (if c < 128 then [c]
      else if c < 2048 then [192 + c div 64, 128 + c mod 64]
      else if c < 65536 then [224 + c div 4096, 128 + c div 64 mod 64, 128 + c mod 64]
      else [240 + c div 262144, 128 + c div 4096 mod 64, 128 + c div 64 mod 64, 128 + c mod 64])"

definition unicode_error :: py_exn where
  "unicode_error = ValueError (lit ''invalid utf-8'')"

definition utf8_encode :: "pystr \<Rightarrow> pybytes result" where
  "utf8_encode s =
     (if list_ex is_surrogate s then Inl unicode_error else Inr (concat (map utf8_char s)))"

definition continuation :: "int \<Rightarrow> bool" where
  "continuation b \<longleftrightarrow> 128 \<le> b \<and> b < 192"

definition utf8_cons :: "bool \<Rightarrow> int \<Rightarrow> pystr result \<Rightarrow> pystr result" where
  "utf8_cons ok c rest = (if ok then bindR rest (\<lambda>s. Inr (c # s)) else Inl unicode_error)"

fun utf8_decode :: "pybytes \<Rightarrow> pystr result" where
  "utf8_decode [] = Inr []"
| "utf8_decode (b # bs) =
     (if b < 128 then utf8_cons (0 \<le> b) b (utf8_decode bs)
      else if b < 224 then
        (case bs of
           b1 # r \<Rightarrow> utf8_cons (194 \<le> b \<and> continuation b1) ((b - 192) * 64 + (b1 - 128)) (utf8_decode r)
         | _ \<Rightarrow> Inl unicode_error)
      else if b < 240 then
        (case bs of
           b1 # b2 # r \<Rightarrow>
             let c = (b - 224) * 4096 + (b1 - 128) * 64 + (b2 - 128)
             in utf8_cons (continuation b1 \<and> continuation b2 \<and> 2048 \<le> c \<and> \<not> is_surrogate c) c (utf8_decode r)
         | _ \<Rightarrow> Inl unicode_error)
      else
        (case bs of
           b1 # b2 # b3 # r \<Rightarrow>
             let c = (b - 240) * 262144 + (b1 - 128) * 4096 + (b2 - 128) * 64 + (b3 - 128)
             in utf8_cons (continuation b1 \<and> continuation b2 \<and> continuation b3 \<and> 65536 \<le> c \<and> c \<le> 1114111)
                  c (utf8_decode r)
         | _ \<Rightarrow> Inl unicode_error))"

text \<open>\<open>data.decode("utf-8-sig")\<close>: a leading byte order mark is dropped.\<close>

definition decode_utf8_sig :: "pybytes \<Rightarrow> pystr result" where
  "decode_utf8_sig bs = utf8_decode (if prefix [239, 187, 191] bs then drop 3 bs else bs)"

text \<open>\<open>text.replace("\r\n", "\n").replace("\r", "\n")\<close>\<close>

fun unify_newlines :: "pystr \<Rightarrow> pystr" where
  "unify_newlines [] = []"
| "unify_newlines [c] = (if c = 13 then [10] else [c])"
| "unify_newlines (c # d # cs) =
     (if c = 13 \<and> d = 10 then 10 # unify_newlines cs
      else (if c = 13 then 10 else c) # unify_newlines (d # cs))"

section \<open>Markdown\<close>

record item_codec =
  ic_yaml_load :: "pystr \<Rightarrow> field_value result"
  ic_yaml_dump :: "fields \<Rightarrow> pystr"
  ic_coerce :: "fields \<Rightarrow> memory_item validated"
  ic_model_dump :: "memory_item \<Rightarrow> fields"
  ic_repr :: "field_value \<Rightarrow> pystr"

text \<open>\<open>MemoryItem.model_validate(data)\<close>: its error is a \<open>ValueError\<close>.\<close>

definition model_validate :: "item_codec \<Rightarrow> field_value \<Rightarrow> memory_item result" where
  "model_validate cd data =
     (case data of
        FDict d \<Rightarrow> (case make_item (ic_repr cd) (ic_coerce cd) d of
            Inl errors \<Rightarrow> Inl (ValueError (join (lit ''; '') errors))
          | Inr item \<Rightarrow> Inr item)
      | _ \<Rightarrow> Inl (ValueError (lit ''Input should be a valid dictionary'')))"

text \<open>\<open>text.split(sep, 1)\<close> of a text that holds \<open>sep\<close>.\<close>

fun split_once :: "pystr \<Rightarrow> pystr \<Rightarrow> (pystr \<times> pystr) option" where
  "split_once sep [] = None"
| "split_once sep (c # cs) =
     (if prefix sep (c # cs) then Some ([], drop (length sep) (c # cs))
      else map_option (\<lambda>(a, b). (c # a, b)) (split_once sep cs))"

definition frontmatter_mark :: pystr where
  "frontmatter_mark = [45, 45, 45, 10]"

text \<open>\<open>re.compile(r"^(\s*\w+):\[\]", re.MULTILINE).sub(r"\1: []", text)\<close>, line by line.\<close>

definition fix_colon_bracket :: "pystr \<Rightarrow> pystr" where
  "fix_colon_bracket line =
     (let indent = takeWhile is_space line;
          rest = dropWhile is_space line;
          word = takeWhile is_word rest;
          tail = dropWhile is_word rest
      in if word \<noteq> [] \<and> prefix (lit '':[]'') tail then indent @ word @ lit '': []'' @ drop 3 tail else line)"

definition fix_frontmatter :: "pystr \<Rightarrow> pystr" where
  "fix_frontmatter text = join [10] (map fix_colon_bracket (split_on 10 text))"

definition parse_item_markdown :: "item_codec \<Rightarrow> pystr \<Rightarrow> (memory_item \<times> pystr) result" where
  "parse_item_markdown cd text0 =
     (let text1 = unify_newlines (dropWhile (\<lambda>c. c = 65279) text0)
      in if \<not> prefix frontmatter_mark text1 then Inl (ValueError (lit ''missing frontmatter''))
         else case split_once frontmatter_mark (drop 4 text1) of
             None \<Rightarrow> Inl (ValueError (lit ''not enough values to unpack''))
           | Some (frontmatter, body) \<Rightarrow>
               bindR (ic_yaml_load cd (fix_frontmatter frontmatter)) (\<lambda>data.
               bindR (model_validate cd data) (\<lambda>item. Inr (item, dropWhile (\<lambda>c. c = 10) body))))"

text \<open>\<open>model_dump(exclude_none=True)\<close>: the dump without the fields that are \<open>None\<close>, at every level.\<close>

fun exclude_none_value :: "field_value \<Rightarrow> field_value" where
  "exclude_none_value (FDict d) =
     FDict (map (\<lambda>(k, v). (k, exclude_none_value v)) (filter (\<lambda>kv. snd kv \<noteq> FNone) d))"
| "exclude_none_value v = v"

definition exclude_none :: "fields \<Rightarrow> fields" where
  "exclude_none d = map (\<lambda>(k, v). (k, exclude_none_value v)) (filter (\<lambda>kv. snd kv \<noteq> FNone) d)"

definition render_item_markdown :: "item_codec \<Rightarrow> memory_item \<Rightarrow> pystr \<Rightarrow> pystr" where
  "render_item_markdown cd item body =
     frontmatter_mark @ ic_yaml_dump cd (exclude_none (ic_model_dump cd item))
     @ frontmatter_mark @ [10] @ rstrip_by is_space body @ [10]"

definition parse_item_bytes :: "item_codec \<Rightarrow> pybytes \<Rightarrow> (memory_item \<times> pystr) result" where
  "parse_item_bytes cd data =
     bindR (decode_utf8_sig data) (\<lambda>text0. parse_item_markdown cd (unify_newlines text0))"

section \<open>The brain directory\<close>

text \<open>An entry below \<open>items\<close>: a regular file, or a link, directory or device.\<close>

datatype item_entry = Regular pybytes | Unsafe

datatype fs_outcome = Proceeds | Fails py_exn | Fails_after py_exn

record fs_event =
  fe_edits :: "(pystr \<times> item_entry option) list"
  fe_outcome :: fs_outcome
  fe_written :: nat

record brain =
  br_items :: "(pystr \<times> item_entry) list"
  br_script :: "fs_event list"

definition FileNotFound :: py_exn where "FileNotFound = OtherError (lit ''FileNotFoundError'')"
definition FileExists :: py_exn where "FileExists = OtherError (lit ''FileExistsError'')"
definition OSErr :: "string \<Rightarrow> py_exn" where "OSErr s = OtherError (lit ''OSError: '' @ lit s)"
definition YAMLError :: py_exn where "YAMLError = OtherError (lit ''YAMLError'')"

text \<open>An interrupt is a \<open>BaseException\<close> that is no \<open>Exception\<close>.\<close>

definition Interrupted :: py_exn where "Interrupted = OtherError (lit ''KeyboardInterrupt'')"

fun edit_items :: "(pystr \<times> item_entry option) list \<Rightarrow> (pystr \<times> item_entry) list \<Rightarrow> (pystr \<times> item_entry) list" where
  "edit_items [] files = files"
| "edit_items ((i, Some f) # es) files = edit_items es (AList.update i f files)"
| "edit_items ((i, None) # es) files = edit_items es (AList.delete i files)"

definition no_event :: fs_event where
  "no_event = \<lparr>fe_edits = [], fe_outcome = Proceeds, fe_written = 0\<rparr>"

definition next_event :: "'z brain_scheme \<Rightarrow> fs_event \<times> 'z brain_scheme" where
  "next_event w =
     (case br_script w of
        [] \<Rightarrow> (no_event, w)
      | e # es \<Rightarrow> (e, w\<lparr>br_items := edit_items (fe_edits e) (br_items w), br_script := es\<rparr>))"

definition fs_step :: "('z brain_scheme, 'a) prog \<Rightarrow> ('z brain_scheme, 'a) prog" where
  "fs_step m w =
     (let (event, w') = next_event w
      in case fe_outcome event of
           Proceeds \<Rightarrow> m w'
         | Fails e \<Rightarrow> (Inl e, w')
         | Fails_after e \<Rightarrow> (case m w' of (Inl e', w'') \<Rightarrow> (Inl e', w'') | (Inr _, w'') \<Rightarrow> (Inl e, w'')))"

definition item_file :: "pystr \<Rightarrow> 'z brain_scheme \<Rightarrow> item_entry option" where
  "item_file i w = map_of (br_items w) i"

section \<open>Durable calls\<close>

definition read_item_file :: "pystr \<Rightarrow> ('z brain_scheme, pybytes) prog" where
  "read_item_file i =
     fs_step (\<lambda>w. (case item_file i w of
         None \<Rightarrow> Inl FileNotFound
       | Some Unsafe \<Rightarrow> Inl (OSErr ''UNSAFE_FILE'')
       | Some (Regular data) \<Rightarrow> Inr data, w))"

definition atomic_write :: "pystr \<Rightarrow> pybytes \<Rightarrow> bool \<Rightarrow> ('z brain_scheme, unit) prog" where
  "atomic_write i data create_missing =
     fs_step (\<lambda>w.
       let put = (Inr (), w\<lparr>br_items := AList.update i (Regular data) (br_items w)\<rparr>)
       in case item_file i w of
            None \<Rightarrow> if create_missing then put else (Inl FileNotFound, w)
          | Some Unsafe \<Rightarrow> (Inl (OSErr ''UNSAFE_ATOMIC_WRITE_TARGET''), w)
          | Some (Regular _) \<Rightarrow> put)"

definition atomic_create :: "pystr \<Rightarrow> pybytes \<Rightarrow> ('z brain_scheme, unit) prog" where
  "atomic_create i data =
     fs_step (\<lambda>w. if item_file i w = None
       then (Inr (), w\<lparr>br_items := AList.update i (Regular data) (br_items w)\<rparr>)
       else (Inl FileExists, w))"

section \<open>Items under their locks\<close>

record prepared_mutation =
  pm_item_id :: pystr
  pm_data :: pybytes
  pm_updated_item :: memory_item

definition apply_update :: "fields \<Rightarrow> pystr \<times> field_value \<Rightarrow> fields" where
  "apply_update data kv =
     (case split_once [46] (fst kv) of
        None \<Rightarrow> AList.update (fst kv) (snd kv) data
      | Some (outer, inner) \<Rightarrow>
          (case map_of data outer of
             Some (FDict d) \<Rightarrow> AList.update outer (FDict (AList.update inner (snd kv) d)) data
           | _ \<Rightarrow> AList.update (fst kv) (snd kv) data))"

text \<open>\<open>dict(data.get("context_views") or {})\<close>; a dump holds a dictionary there.\<close>

definition views_dict :: "field_value \<Rightarrow> fields" where
  "views_dict v = (case v of FDict d \<Rightarrow> d | _ \<Rightarrow> [])"

definition updated_item :: "item_codec \<Rightarrow> memory_item \<Rightarrow> fields \<Rightarrow> memory_item result" where
  "updated_item cd item updates =
     (let data = foldl apply_update (ic_model_dump cd item) updates;
          summary_updated = lit ''summary'' \<in> set (map fst updates);
          context_views_updated = lit ''context_views'' \<in> set (map fst updates)
            \<or> list_ex (\<lambda>kv. prefix (lit ''context_views.'') (fst kv)) updates;
          data' = (if summary_updated \<and> \<not> context_views_updated
            then fset data ''context_views'' (FDict (fset (views_dict (fget data ''context_views'' FNone))
                   ''locator'' (fget data ''summary'' (FStr []))))
            else data)
      in model_validate cd (FDict data'))"

definition str_list_field :: "pystr list \<Rightarrow> field_value" where
  "str_list_field xs = FList (map FStr xs)"

definition refs_field :: "refs \<Rightarrow> pystr list \<Rightarrow> field_value" where
  "refs_field r mems =
     FDict [(lit ''files'', str_list_field (rf_files r)), (lit ''urls'', str_list_field (rf_urls r)),
            (lit ''mems'', str_list_field mems), (lit ''commits'', str_list_field (rf_commits r)),
            (lit ''resources'', str_list_field (rf_resources r)),
            (lit ''extractions'', str_list_field (rf_extractions r))]"

definition linked_refs :: "memory_item \<Rightarrow> pystr \<Rightarrow> field_value" where
  "linked_refs item target_id = refs_field (mi_refs item) (rf_mems (mi_refs item) @ [target_id])"

definition unlinked_refs :: "memory_item \<Rightarrow> pystr \<Rightarrow> field_value" where
  "unlinked_refs item target_id =
     refs_field (mi_refs item) (filter (\<lambda>m. m \<noteq> target_id) (rf_mems (mi_refs item)))"

definition require_locked :: "pystr list \<Rightarrow> pystr \<Rightarrow> ('z brain_scheme, unit) prog" where
  "require_locked ids i = check (i \<in> set ids) (ValueError (lit ''item is not locked''))"

definition view_read_bytes :: "pystr list \<Rightarrow> pystr \<Rightarrow> ('z brain_scheme, pybytes) prog" where
  "view_read_bytes ids i = bindP (require_locked ids i) (\<lambda>_. read_item_file i)"

definition view_get :: "item_codec \<Rightarrow> pystr list \<Rightarrow> pystr \<Rightarrow> ('z brain_scheme, memory_item \<times> pystr) prog" where
  "view_get cd ids i = bindP (view_read_bytes ids i) (\<lambda>data. lift_result (parse_item_bytes cd data))"

definition view_create :: "pystr list \<Rightarrow> pystr \<Rightarrow> pybytes \<Rightarrow> ('z brain_scheme, unit) prog" where
  "view_create ids i data = bindP (require_locked ids i) (\<lambda>_. atomic_create i data)"

definition rendered :: "item_codec \<Rightarrow> pystr \<Rightarrow> memory_item \<Rightarrow> pystr \<Rightarrow> prepared_mutation result" where
  "rendered cd i item body =
     bindR (utf8_encode (render_item_markdown cd item body)) (\<lambda>data.
       Inr \<lparr>pm_item_id = i, pm_data = data, pm_updated_item = item\<rparr>)"

text \<open>\<open>prepare_update_frontmatter\<close>, of the bytes read.\<close>

definition prepare_from ::
  "item_codec \<Rightarrow> pystr \<Rightarrow> fields \<Rightarrow> memory_item \<times> pystr \<Rightarrow> prepared_mutation result" where
  "prepare_from cd i updates loaded =
     bindR (updated_item cd (fst loaded) updates) (\<lambda>updated. rendered cd i updated (snd loaded))"

definition view_prepare_update ::
  "item_codec \<Rightarrow> pystr list \<Rightarrow> pystr \<Rightarrow> fields \<Rightarrow> ('z brain_scheme, prepared_mutation) prog" where
  "view_prepare_update cd ids i updates =
     bindP (view_get cd ids i) (\<lambda>loaded. lift_result (prepare_from cd i updates loaded))"

definition view_apply_prepared :: "pystr list \<Rightarrow> prepared_mutation \<Rightarrow> ('z brain_scheme, unit) prog" where
  "view_apply_prepared ids p =
     bindP (require_locked ids (pm_item_id p)) (\<lambda>_. atomic_write (pm_item_id p) (pm_data p) False)"

definition view_update_frontmatter ::
  "item_codec \<Rightarrow> pystr list \<Rightarrow> pystr \<Rightarrow> fields \<Rightarrow> ('z brain_scheme, memory_item) prog" where
  "view_update_frontmatter cd ids i updates =
     bindP (view_prepare_update cd ids i updates) (\<lambda>p.
     bindP (view_apply_prepared ids p) (\<lambda>_. ret (pm_updated_item p)))"

definition view_restore_raw :: "pystr list \<Rightarrow> pystr \<Rightarrow> pybytes \<Rightarrow> ('z brain_scheme, unit) prog" where
  "view_restore_raw ids i data = bindP (require_locked ids i) (\<lambda>_. atomic_write i data False)"

definition view_delete :: "pystr list \<Rightarrow> pystr \<Rightarrow> ('z brain_scheme, bool) prog" where
  "view_delete ids i =
     bindP (require_locked ids i) (\<lambda>_.
       fs_step (\<lambda>w. case item_file i w of
           None \<Rightarrow> (Inr False, w)
         | Some Unsafe \<Rightarrow> (Inl (OSErr ''UNSAFE_ITEM_DELETE_TARGET''), w)
         | Some (Regular _) \<Rightarrow> (Inr True, w\<lparr>br_items := AList.delete i (br_items w)\<rparr>)))"

definition view_prepare_link ::
  "item_codec \<Rightarrow> pystr list \<Rightarrow> pystr \<Rightarrow> pystr \<Rightarrow> ('z brain_scheme, prepared_mutation option) prog" where
  "view_prepare_link cd ids source_id target_id =
     bindP (view_get cd ids source_id) (\<lambda>(item, body).
       if target_id \<in> set (rf_mems (mi_refs item)) then ret None
       else bindP (view_prepare_update cd ids source_id [(lit ''refs'', linked_refs item target_id)]) (\<lambda>p.
            ret (Some p)))"

definition view_prepare_unlink ::
  "item_codec \<Rightarrow> pystr list \<Rightarrow> pystr \<Rightarrow> pystr \<Rightarrow> ('z brain_scheme, prepared_mutation option) prog" where
  "view_prepare_unlink cd ids source_id target_id =
     bindP (view_get cd ids source_id) (\<lambda>(item, body).
       if target_id \<notin> set (rf_mems (mi_refs item)) then ret None
       else bindP (view_prepare_update cd ids source_id [(lit ''refs'', unlinked_refs item target_id)]) (\<lambda>p.
            ret (Some p)))"

definition apply_optional :: "pystr list \<Rightarrow> prepared_mutation option \<Rightarrow> ('z brain_scheme, bool) prog" where
  "apply_optional ids prepared =
     (case prepared of
        None \<Rightarrow> ret False
      | Some p \<Rightarrow> bindP (view_apply_prepared ids p) (\<lambda>_. ret True))"

definition view_link_mem ::
  "item_codec \<Rightarrow> pystr list \<Rightarrow> pystr \<Rightarrow> pystr \<Rightarrow> ('z brain_scheme, bool) prog" where
  "view_link_mem cd ids source_id target_id =
     bindP (view_prepare_link cd ids source_id target_id) (apply_optional ids)"

definition view_unlink_mem ::
  "item_codec \<Rightarrow> pystr list \<Rightarrow> pystr \<Rightarrow> pystr \<Rightarrow> ('z brain_scheme, bool) prog" where
  "view_unlink_mem cd ids source_id target_id =
     bindP
       (try_catch (bindP (view_prepare_unlink cd ids source_id target_id) (\<lambda>p. ret (Some p)))
          (\<lambda>e. if e = FileNotFound then ret None else raise e)) (\<lambda>prepared.
     case prepared of None \<Rightarrow> ret False | Some p \<Rightarrow> apply_optional ids p)"

section \<open>The store\<close>

definition read_bytes_nofollow :: "pystr \<Rightarrow> ('z brain_scheme, pybytes) prog" where
  "read_bytes_nofollow i =
     bindP (check (is_valid_memory_item_id i) (ValueError (lit ''invalid memory item id''))) (\<lambda>_.
       read_item_file i)"

definition get_nofollow :: "item_codec \<Rightarrow> pystr \<Rightarrow> ('z brain_scheme, memory_item \<times> pystr) prog" where
  "get_nofollow cd i = bindP (read_bytes_nofollow i) (\<lambda>data. lift_result (parse_item_bytes cd data))"

text \<open>
  The operations of the store take the locks and then act on the locked item, on a platform with the
  capabilities for it. Locks already held are taken again without a call of the file system.
\<close>

definition store_write_item :: "item_codec \<Rightarrow> memory_item \<Rightarrow> pystr \<Rightarrow> ('z brain_scheme, unit) prog" where
  "store_write_item cd item body =
     bindP (lift_result (utf8_encode (render_item_markdown cd item body))) (\<lambda>data.
       view_create [mi_id item] (mi_id item) data)"

definition store_update_frontmatter ::
  "item_codec \<Rightarrow> pystr \<Rightarrow> fields \<Rightarrow> ('z brain_scheme, memory_item) prog" where
  "store_update_frontmatter cd i updates = view_update_frontmatter cd [i] i updates"

definition store_restore_raw :: "pystr \<Rightarrow> pybytes \<Rightarrow> ('z brain_scheme, unit) prog" where
  "store_restore_raw i data =
     bindP (check (is_valid_memory_item_id i) (ValueError (lit ''invalid memory item id''))) (\<lambda>_.
       view_restore_raw [i] i data)"

definition store_link_mem :: "item_codec \<Rightarrow> pystr \<Rightarrow> pystr \<Rightarrow> ('z brain_scheme, bool) prog" where
  "store_link_mem cd source_id target_id = view_link_mem cd [source_id] source_id target_id"

definition store_unlink_mem :: "item_codec \<Rightarrow> pystr \<Rightarrow> pystr \<Rightarrow> ('z brain_scheme, bool) prog" where
  "store_unlink_mem cd source_id target_id = view_unlink_mem cd [source_id] source_id target_id"

definition store_delete :: "pystr \<Rightarrow> ('z brain_scheme, bool) prog" where
  "store_delete i =
     bindP (check (is_valid_memory_item_id i) (ValueError (lit ''invalid memory item id''))) (\<lambda>_.
       view_delete [i] i)"

section \<open>Ids\<close>

text \<open>
  \<open>make_item_id\<close>: the lower-case words of the title joined by dashes, with runs of slashes collapsed,
  cut to 30 characters and stripped of dashes; \<open>hex6\<close> and \<open>hex8\<close> are the starts of two random UUIDs.
\<close>

fun collapse_slashes :: "bool \<Rightarrow> pystr \<Rightarrow> pystr" where
  "collapse_slashes inside [] = []"
| "collapse_slashes inside (c # cs) =
     (if c = 47 \<or> c = 92 then (if inside then [] else [45]) @ collapse_slashes True cs
      else c # collapse_slashes False cs)"

definition id_slug :: "pystr \<Rightarrow> pystr" where
  "id_slug title =
     strip_chars [45] (take 30 (collapse_slashes False (join [45] (split_ws (lower title)))))"

definition make_item_id :: "pystr \<Rightarrow> int \<Rightarrow> pystr option \<Rightarrow> pystr \<Rightarrow> pystr \<Rightarrow> pystr" where
  "make_item_id title now label hex6 hex8 =
     (let slug = (if id_slug title = [] then hex6 else id_slug title);
          labels = (case label of None \<Rightarrow> [] | Some l \<Rightarrow> if l = [] then [] else [l])
      in join [45] ([lit ''mem'', compact_stamp now] @ labels @ [slug, hex8]))"

end
