(* ===== verification/LifecycleLedger.thy ===== *)
theory LifecycleLedger imports ItemStore begin

text \<open>
  \<open>governance/lifecycle_ledger.py\<close>: the append-only ledger of lifecycle transactions. The file is its
  lines: the length of each in bytes and the record it holds, if it is a JSON document with exactly the
  fields of a record. An append that fails may leave a piece of its line behind when the truncation
  fails too; the next append then continues that line. \<open>datetime.fromisoformat\<close> and the length of a
  line of \<open>json.dumps\<close> are parameters.
\<close>

section \<open>Records\<close>

record ledger_record =
  rc_action :: pystr
  rc_timestamp :: pystr
  rc_status :: pystr
  rc_reason :: pystr
  rc_obsolete_id :: pystr
  rc_replacement_id :: "pystr option"
  rc_snapshot :: "pystr option"
  rc_replacement_ref_preexisted :: bool
  rc_deferred_until :: "pystr option"

definition allowed_record_states :: "(pystr \<times> pystr \<times> pystr) list" where
  "allowed_record_states =
    [(lit ''supersede'', lit ''applied'', lit ''OK''),
     (lit ''revert-supersession'', lit ''reverted'', lit ''OK''),
     (lit ''supersede'', lit ''blocked'', lit ''MARKDOWN_UPDATE_FAILED''),
     (lit ''supersede'', lit ''blocked'', lit ''ROLLBACK_FAILED''),
     (lit ''supersede'', lit ''blocked'', lit ''CONCURRENT_MODIFICATION''),
     (lit ''revert-supersession'', lit ''blocked'', lit ''MARKDOWN_UPDATE_FAILED''),
     (lit ''revert-supersession'', lit ''blocked'', lit ''ROLLBACK_FAILED''),
     (lit ''revert-supersession'', lit ''blocked'', lit ''CONCURRENT_MODIFICATION''),
     (lit ''defer'', lit ''deferred'', lit ''OK''),
     (lit ''keep-active'', lit ''applied'', lit ''OK'')]"

definition max_ledger_bytes :: nat where "max_ledger_bytes = 16 * 1024 * 1024"
definition max_ledger_line_bytes :: nat where "max_ledger_line_bytes = 1024 * 1024"
definition max_ledger_records :: nat where "max_ledger_records = 100000"

definition has_control :: "pystr \<Rightarrow> bool" where
  "has_control s \<longleftrightarrow> list_ex (\<lambda>c. c < 32 \<or> c = 127) s"

text \<open>\<open>re.compile(r"(?:[0-9a-f]{40}|[0-9a-f]{64})\Z").fullmatch(text)\<close>\<close>

definition is_git_object_id :: "pystr \<Rightarrow> bool" where
  "is_git_object_id s \<longleftrightarrow>
     (length s = 40 \<or> length s = 64) \<and> list_all (\<lambda>c. 48 \<le> c \<and> c \<le> 57 \<or> 97 \<le> c \<and> c \<le> 102) s"

text \<open>\<open>datetime.fromisoformat(text)\<close> with the offset of UTC.\<close>

definition utc_time :: "(pystr \<Rightarrow> py_datetime result) \<Rightarrow> pystr \<Rightarrow> py_datetime option" where
  "utc_time fromisoformat text =
     (case fromisoformat text of
        Inl _ \<Rightarrow> None
      | Inr t \<Rightarrow> if dt_offset t = Some 0 then Some t else None)"

definition if_given :: "('a \<Rightarrow> bool) \<Rightarrow> 'a option \<Rightarrow> bool" where
  "if_given P x = (case x of None \<Rightarrow> True | Some a \<Rightarrow> P a)"

definition valid_defer :: "(pystr \<Rightarrow> py_datetime result) \<Rightarrow> ledger_record \<Rightarrow> py_datetime \<Rightarrow> bool" where
  "valid_defer fromisoformat r timestamp \<longleftrightarrow>
     rc_snapshot r = None \<and> \<not> rc_replacement_ref_preexisted r
     \<and> (case rc_deferred_until r of
          None \<Rightarrow> False
        | Some text \<Rightarrow> \<not> has_control text \<and> length text \<le> 64
            \<and> (case utc_time fromisoformat text of
                 None \<Rightarrow> False
               | Some until \<Rightarrow> instant timestamp < instant until))"

definition valid_record :: "(pystr \<Rightarrow> py_datetime result) \<Rightarrow> ledger_record \<Rightarrow> bool" where
  "valid_record fromisoformat r \<longleftrightarrow>
     (rc_replacement_id r = None \<longleftrightarrow> rc_action r \<in> {lit ''defer'', lit ''keep-active''})
     \<and> \<not> list_ex has_control [rc_action r, rc_timestamp r, rc_status r, rc_reason r, rc_obsolete_id r]
     \<and> length (rc_action r) \<le> 32 \<and> length (rc_timestamp r) \<le> 64 \<and> length (rc_status r) \<le> 24
     \<and> length (rc_reason r) \<le> 40 \<and> length (rc_obsolete_id r) \<le> 240
     \<and> if_given (\<lambda>i. length i \<le> 240 \<and> \<not> has_control i \<and> is_valid_memory_item_id i) (rc_replacement_id r)
     \<and> (rc_action r, rc_status r, rc_reason r) \<in> set allowed_record_states
     \<and> is_valid_memory_item_id (rc_obsolete_id r)
     \<and> (case utc_time fromisoformat (rc_timestamp r) of
          None \<Rightarrow> False
        | Some timestamp \<Rightarrow>
            if_given (\<lambda>s. \<not> has_control s \<and> is_git_object_id s) (rc_snapshot r)
            \<and> (if rc_action r = lit ''defer'' then valid_defer fromisoformat r timestamp
               else rc_deferred_until r = None)
            \<and> (rc_action r = lit ''keep-active''
                 \<longrightarrow> rc_snapshot r = None \<and> \<not> rc_replacement_ref_preexisted r))"

section \<open>The file\<close>

record ledger_line =
  ll_length :: nat
  ll_record :: "ledger_record option"

record ledger_brain = brain +
  lb_ledger :: "ledger_line list"
  lb_open_line :: bool

record ledger_env =
  le_fromisoformat :: "pystr \<Rightarrow> py_datetime result"
  le_payload_length :: "ledger_record \<Rightarrow> nat"
  le_now :: int

text \<open>The file after the first \<open>k\<close> bytes of the line of \<open>r\<close> have been appended; the line ends with a newline.\<close>

definition extend_ledger ::
  "ledger_env \<Rightarrow> ledger_record \<Rightarrow> nat \<Rightarrow> ledger_line list \<times> bool \<Rightarrow> ledger_line list \<times> bool" where
  "extend_ledger env r k ledger =
     (let (lines, unfinished) = ledger; n = le_payload_length env r
      in if k = 0 then ledger
         else if unfinished then
           (butlast lines @ [\<lparr>ll_length = ll_length (last lines) + k, ll_record = None\<rparr>], k < n)
         else
           (lines @ [\<lparr>ll_length = k, ll_record = (if n \<le> k + 1 then Some r else None)\<rparr>], k < n))"

definition put_ledger :: "ledger_line list \<times> bool \<Rightarrow> 'z ledger_brain_scheme \<Rightarrow> 'z ledger_brain_scheme" where
  "put_ledger ledger w = w\<lparr>lb_ledger := fst ledger, lb_open_line := snd ledger\<rparr>"

definition ledger_of :: "'z ledger_brain_scheme \<Rightarrow> ledger_line list \<times> bool" where
  "ledger_of w = (lb_ledger w, lb_open_line w)"

text \<open>The append failed with \<open>e\<close> after \<open>k\<close> bytes: truncate, and say so when that fails too.\<close>

definition truncate_ledger ::
  "ledger_env \<Rightarrow> ledger_record \<Rightarrow> nat \<Rightarrow> py_exn \<Rightarrow> ('z ledger_brain_scheme, unit) prog" where
  "truncate_ledger env r k e w =
     (let (event, w') = next_event w;
          left = put_ledger (extend_ledger env r k (ledger_of w')) w';
          failure = (if e = Interrupted then e else OSErr ''LEDGER_ROLLBACK_FAILED'')
      in case fe_outcome event of
           Proceeds \<Rightarrow> (Inl e, w')
         | Fails _ \<Rightarrow> (Inl failure, left)
         | Fails_after _ \<Rightarrow> (Inl failure, w'))"

definition write_ledger :: "ledger_env \<Rightarrow> ledger_record \<Rightarrow> ('z ledger_brain_scheme, unit) prog" where
  "write_ledger env r w =
     (let (event, w') = next_event w; n = le_payload_length env r
      in case fe_outcome event of
           Proceeds \<Rightarrow> (Inr (), put_ledger (extend_ledger env r n (ledger_of w')) w')
         | Fails e \<Rightarrow> truncate_ledger env r (min (fe_written event) n) e w'
         | Fails_after e \<Rightarrow> truncate_ledger env r n e w')"

definition append_lifecycle_record ::
  "ledger_env \<Rightarrow> ledger_record \<Rightarrow> ('z ledger_brain_scheme, unit) prog" where
  "append_lifecycle_record env r =
     bindP (check (valid_record (le_fromisoformat env) r) (TypeError (lit ''INVALID_LIFECYCLE_LEDGER_RECORD''))) (\<lambda>_.
     bindP (fs_step (ret ())) (\<lambda>_. write_ledger env r))"

section \<open>Reading\<close>

fun is_os_or_unicode_error :: "py_exn \<Rightarrow> bool" where
  "is_os_or_unicode_error (OtherError s) \<longleftrightarrow>
     OtherError s = FileNotFound \<or> OtherError s = FileExists \<or> prefix (lit ''OSError: '') s"
| "is_os_or_unicode_error e \<longleftrightarrow> e = unicode_error"

text \<open>The lines from the newest on; a line that is no valid record ends the search.\<close>

fun latest_applied ::
  "(pystr \<Rightarrow> py_datetime result) \<Rightarrow> pystr \<Rightarrow> pystr \<Rightarrow> ledger_line list \<Rightarrow> ledger_record option" where
  "latest_applied fromisoformat replacement_id obsolete_id [] = None"
| "latest_applied fromisoformat replacement_id obsolete_id (line # older) =
     (case ll_record line of
        None \<Rightarrow> None
      | Some r \<Rightarrow>
          if \<not> valid_record fromisoformat r then None
          else if rc_obsolete_id r \<noteq> obsolete_id \<or> rc_replacement_id r \<noteq> Some replacement_id
            then latest_applied fromisoformat replacement_id obsolete_id older
          else if rc_action r = lit ''supersede'' \<and> rc_status r = lit ''applied'' \<and> rc_reason r = lit ''OK''
            then Some r
          else None)"

definition latest_applied_supersession_record ::
  "ledger_env \<Rightarrow> pystr \<Rightarrow> pystr \<Rightarrow> ('z ledger_brain_scheme, ledger_record option) prog" where
  "latest_applied_supersession_record env replacement_id obsolete_id =
     try_catch
       (fs_step (\<lambda>w. (Inr (latest_applied (le_fromisoformat env) replacement_id obsolete_id (rev (lb_ledger w))), w)))
       (\<lambda>e. if is_os_or_unicode_error e then ret None else raise e)"

text \<open>The scan of all records, within the limits on lines, bytes and records.\<close>

fun scan_records ::
  "(pystr \<Rightarrow> py_datetime result) \<Rightarrow> nat \<Rightarrow> nat \<Rightarrow> ledger_line list \<Rightarrow> ledger_record list option" where
  "scan_records fromisoformat bytes0 count0 [] = Some []"
| "scan_records fromisoformat bytes0 count0 (line # rest) =
     (let total' = bytes0 + ll_length line; count' = count0 + 1
      in if ll_length line > max_ledger_line_bytes \<or> total' > max_ledger_bytes \<or> count' > max_ledger_records
         then None
         else case ll_record line of
             None \<Rightarrow> None
           | Some r \<Rightarrow>
               if valid_record fromisoformat r
               then map_option (\<lambda>rs. r # rs) (scan_records fromisoformat total' count' rest)
               else None)"

definition apply_deferral ::
  "(pystr \<Rightarrow> py_datetime result) \<Rightarrow> (pystr \<times> py_datetime) list \<Rightarrow> ledger_record
   \<Rightarrow> (pystr \<times> py_datetime) list" where
  "apply_deferral fromisoformat deferred r =
     (if rc_action r = lit ''defer'' \<and> rc_status r = lit ''deferred'' then
        (case Option.bind (rc_deferred_until r) (utc_time fromisoformat) of
           None \<Rightarrow> deferred
         | Some deadline \<Rightarrow> AList.update (rc_obsolete_id r) deadline deferred)
      else if rc_status r \<in> {lit ''applied'', lit ''reverted''} then AList.delete (rc_obsolete_id r) deferred
      else deferred)"

definition deferrals_of ::
  "(pystr \<Rightarrow> py_datetime result) \<Rightarrow> ledger_record list \<Rightarrow> (pystr \<times> py_datetime) list" where
  "deferrals_of fromisoformat rs = foldl (apply_deferral fromisoformat) [] rs"

text \<open>The deferrals in force at \<open>current\<close> and whether the ledger was unavailable.\<close>

definition active_deferrals_of ::
  "(pystr \<Rightarrow> py_datetime result) \<Rightarrow> int \<Rightarrow> ledger_line list \<Rightarrow> (pystr \<times> py_datetime) list \<times> bool" where
  "active_deferrals_of fromisoformat current lines =
     (if sum_list (map ll_length lines) > max_ledger_bytes then ([], True)
      else case scan_records fromisoformat 0 0 lines of
          None \<Rightarrow> ([], True)
        | Some rs \<Rightarrow> (filter (\<lambda>(i, deadline). current < instant deadline) (deferrals_of fromisoformat rs), False))"

definition active_lifecycle_deferrals_readonly ::
  "ledger_env \<Rightarrow> int \<Rightarrow> ('z ledger_brain_scheme, (pystr \<times> py_datetime) list \<times> bool) prog" where
  "active_lifecycle_deferrals_readonly env current =
     try_catch
       (fs_step (\<lambda>w. (Inr (active_deferrals_of (le_fromisoformat env) current (lb_ledger w)), w)))
       (\<lambda>e. if e = FileNotFound then ret ([], False)
            else if is_os_or_unicode_error e then ret ([], True) else raise e)"

definition active_lifecycle_deferrals ::
  "ledger_env \<Rightarrow> int \<Rightarrow> ('z ledger_brain_scheme, (pystr \<times> py_datetime) list) prog" where
  "active_lifecycle_deferrals env current =
     bindP (active_lifecycle_deferrals_readonly env current) (\<lambda>(deferrals, unavailable). ret deferrals)"

end
