(* ===== verification/Supersession.thy ===== *)
theory Supersession imports LifecycleLedger HubIndex begin

text \<open>
  \<open>governance/supersession.py\<close> and the snapshots of \<open>governance/lifecycle_snapshot.py\<close> it rolls back to:
  the preview, the transaction that marks one memory as superseded by another in both files and in the
  ledger, its reversal, and the rollback. A snapshot is a commit of the exact bytes of some items; the
  commands of git are one call of the file system that either makes the commit or does not.
\<close>

section \<open>State and environment\<close>

record lifecycle_brain = ledger_brain +
  lb_history :: "(pystr \<times> (pystr \<times> pybytes) list) list"
  lb_index :: hub_index

text \<open>
  \<open>se_commit_id\<close> is the object id git gives a commit on the history; \<open>se_index\<close> is the index of the
  service, if it has one; \<open>se_capable\<close> is \<open>lifecycle_mutation_capability()\<close>.
\<close>

record supersession_env =
  se_codec :: item_codec
  se_ledger :: ledger_env
  se_capable :: bool
  se_commit_id :: "(pystr \<times> (pystr \<times> pybytes) list) list \<Rightarrow> (pystr \<times> pybytes) list \<Rightarrow> pystr"
  se_index :: "sql option"

record supersession_result =
  sr_status :: pystr
  sr_reason :: pystr
  sr_replacement_id :: pystr
  sr_obsolete_id :: pystr
  sr_dry_run :: bool
  sr_snapshot :: "pystr option"
  sr_index_repair_required :: bool

definition result_of :: "string \<Rightarrow> string \<Rightarrow> pystr \<Rightarrow> pystr \<Rightarrow> supersession_result" where
  "result_of status reason replacement_id obsolete_id =
     \<lparr>sr_status = lit status, sr_reason = lit reason, sr_replacement_id = replacement_id,
      sr_obsolete_id = obsolete_id, sr_dry_run = True, sr_snapshot = None,
      sr_index_repair_required = False\<rparr>"

definition executed :: "supersession_result \<Rightarrow> supersession_result" where
  "executed r = r\<lparr>sr_dry_run := False\<rparr>"

text \<open>\<open>SupersessionResult("blocked", reason, ..., dry_run=False, snapshot=snapshot)\<close>\<close>

definition blocked_run :: "string \<Rightarrow> pystr \<Rightarrow> pystr \<Rightarrow> pystr option \<Rightarrow> supersession_result" where
  "blocked_run reason replacement_id obsolete_id snapshot =
     (result_of ''blocked'' reason replacement_id obsolete_id)\<lparr>sr_dry_run := False, sr_snapshot := snapshot\<rparr>"

definition SnapshotError :: py_exn where "SnapshotError = OtherError (lit ''SNAPSHOT_FAILED'')"
definition RollbackFailed :: py_exn where "RollbackFailed = OtherError (lit ''ROLLBACK_FAILED'')"

text \<open>A loop that would not end; no run raises it.\<close>

definition Diverges :: py_exn where "Diverges = OtherError (lit ''does not return'')"

section \<open>Snapshots\<close>

definition validate_item_ids :: "pystr list \<Rightarrow> bool" where
  "validate_item_ids ids \<longleftrightarrow>
     1 \<le> length ids \<and> length ids \<le> 500 \<and> distinct ids
     \<and> list_all (\<lambda>i. is_valid_memory_item_id i \<and> \<not> has_control i) ids"

definition snapshot_error :: "py_exn \<Rightarrow> ('w, 'a) prog" where
  "snapshot_error e = (if e = Interrupted then raise e else raise SnapshotError)"

definition snapshot_items :: "supersession_env \<Rightarrow> (pystr \<times> pybytes) list \<Rightarrow> (lifecycle_brain, pystr) prog" where
  "snapshot_items env items =
     (let tree = sort_key fst items
      in try_catch
           (bindP (check (validate_item_ids (map fst tree)) SnapshotError) (\<lambda>_.
              fs_step (\<lambda>w.
                let commit = se_commit_id env (lb_history w) tree
                in if is_git_object_id commit
                   then (Inr commit, w\<lparr>lb_history := (commit, tree) # lb_history w\<rparr>)
                   else (Inl SnapshotError, w))))
           snapshot_error)"

definition snapshot_pair ::
  "supersession_env \<Rightarrow> pystr \<Rightarrow> pybytes \<Rightarrow> pystr \<Rightarrow> pybytes \<Rightarrow> (lifecycle_brain, pystr) prog" where
  "snapshot_pair env obsolete_id obsolete_bytes replacement_id replacement_bytes =
     bindP (check (validate_item_ids [obsolete_id, replacement_id]) SnapshotError) (\<lambda>_.
       snapshot_items env [(obsolete_id, obsolete_bytes), (replacement_id, replacement_bytes)])"

definition read_snapshot :: "pystr \<Rightarrow> pystr list \<Rightarrow> (lifecycle_brain, (pystr \<times> pybytes) list) prog" where
  "read_snapshot snapshot ids =
     fs_step (\<lambda>w. (case map_of (lb_history w) snapshot of
         None \<Rightarrow> Inl SnapshotError
       | Some tree \<Rightarrow> if map fst tree = ids then Inr tree else Inl SnapshotError, w))"

definition restore_items :: "pystr \<Rightarrow> pystr list \<Rightarrow> (lifecycle_brain, unit) prog" where
  "restore_items snapshot item_ids =
     (let ids = sort (dedup item_ids)
      in try_catch
           (bindP (check (validate_item_ids ids \<and> is_git_object_id snapshot) SnapshotError) (\<lambda>_.
            bindP (read_snapshot snapshot ids) (\<lambda>tree.
            bindP (mapP (\<lambda>(i, data). atomic_write i data True) tree) (\<lambda>_.
            bindP (mapP (\<lambda>(i, data). bindP (read_item_file i) (\<lambda>found. check (found = data) SnapshotError)) tree) (\<lambda>_.
              ret ())))))
           snapshot_error)"

definition restore_pair_snapshot :: "pystr \<Rightarrow> pystr \<Rightarrow> pystr \<Rightarrow> (lifecycle_brain, unit) prog" where
  "restore_pair_snapshot snapshot obsolete_id replacement_id =
     bindP (check (validate_item_ids [obsolete_id, replacement_id]) SnapshotError) (\<lambda>_.
       restore_items snapshot [obsolete_id, replacement_id])"

section \<open>Preview\<close>

datatype item_load = Loaded memory_item | Missing | Invalid

fun is_item_read_error :: "py_exn \<Rightarrow> bool" where
  "is_item_read_error (ValueError s) \<longleftrightarrow> True"
| "is_item_read_error JSONDecodeError \<longleftrightarrow> True"
| "is_item_read_error (OtherError s) \<longleftrightarrow> is_os_or_unicode_error (OtherError s) \<or> OtherError s = YAMLError"
| "is_item_read_error e \<longleftrightarrow> False"

definition load_item :: "supersession_env \<Rightarrow> pystr \<Rightarrow> (lifecycle_brain, item_load) prog" where
  "load_item env item_id =
     try_catch
       (bindP (get_nofollow (se_codec env) item_id) (\<lambda>(item, body).
          ret (if mi_id item \<noteq> item_id then Invalid else Loaded item)))
       (\<lambda>e. if e = FileNotFound then ret Missing
            else if is_item_read_error e then ret Invalid else raise e)"

definition sensitivity_rank :: "pystr \<Rightarrow> nat" where
  "sensitivity_rank s =
     (if s = lit ''public'' then 0 else if s = lit ''internal'' then 1
      else if s = lit ''private'' then 2 else 3)"

text \<open>
  The loop of \<open>_validate_pair\<close> along \<open>superseded_by\<close>. The fuel bounds the number of memories it may
  load; without fuel it does not return.
\<close>

fun walk_chain ::
  "supersession_env \<Rightarrow> nat \<Rightarrow> memory_item \<Rightarrow> pystr list \<Rightarrow> (lifecycle_brain, string) prog" where
  "walk_chain env fuel cursor seen =
     (case mi_superseded_by cursor of
        None \<Rightarrow> ret ''OK''
      | Some next_id \<Rightarrow>
          if next_id = [] then ret ''OK''
          else if \<not> is_valid_memory_item_id next_id then ret ''BROKEN_REPLACEMENT_CHAIN''
          else if next_id \<in> set seen then ret ''SUPERSESSION_CYCLE''
          else case fuel of
              0 \<Rightarrow> raise Diverges
            | Suc k \<Rightarrow>
                bindP (load_item env next_id) (\<lambda>loaded.
                  case loaded of
                    Loaded next_item \<Rightarrow> walk_chain env k next_item (next_id # seen)
                  | _ \<Rightarrow> ret ''BROKEN_REPLACEMENT_CHAIN''))"

declare walk_chain.simps [simp del]

text \<open>No more memories can be met than there are files now and files other programs still make.\<close>

definition chain_fuel :: "lifecycle_brain \<Rightarrow> nat" where
  "chain_fuel w = Suc (length (br_items w) + length (concat (map fe_edits (br_script w))))"

definition validate_pair ::
  "supersession_env \<Rightarrow> memory_item \<Rightarrow> memory_item \<Rightarrow> (lifecycle_brain, string) prog" where
  "validate_pair env replacement obsolete =
     (if mi_tenant_id replacement \<noteq> mi_tenant_id obsolete then ret ''TENANT_MISMATCH''
      else if mi_project replacement \<noteq> mi_project obsolete then ret ''PROJECT_MISMATCH''
      else if list_ex (\<lambda>tag. lower tag \<in> set review_required_tags) (mi_tags replacement)
        then ret ''REPLACEMENT_REQUIRES_REVIEW''
      else if sensitivity_rank (item_sensitivity_value replacement)
              > sensitivity_rank (item_sensitivity_value obsolete)
        then ret ''VISIBILITY_REDUCTION''
      else bindP (asks chain_fuel) (\<lambda>fuel. walk_chain env fuel replacement [mi_id obsolete]))"

definition load_failure :: "item_load \<Rightarrow> string" where
  "load_failure loaded = (if loaded = Missing then ''ITEM_MISSING'' else ''ITEM_INVALID'')"

text \<open>The checks that a preview of either direction starts with, then \<open>decide\<close> on the two items.\<close>

definition preview_pair ::
  "supersession_env \<Rightarrow> pystr \<Rightarrow> pystr
   \<Rightarrow> (memory_item \<Rightarrow> memory_item \<Rightarrow> (lifecycle_brain, supersession_result) prog)
   \<Rightarrow> (lifecycle_brain, supersession_result) prog" where
  "preview_pair env replacement_id obsolete_id decide =
     (let blocked = (\<lambda>reason. ret (result_of ''blocked'' reason replacement_id obsolete_id))
      in if \<not> (is_valid_memory_item_id replacement_id \<and> is_valid_memory_item_id obsolete_id)
           then blocked ''INVALID_ITEM_ID''
         else if replacement_id = obsolete_id then blocked ''SELF_SUPERSESSION''
         else bindP (load_item env replacement_id) (\<lambda>loaded.
           case loaded of
             Loaded replacement \<Rightarrow>
               bindP (load_item env obsolete_id) (\<lambda>loaded.
                 case loaded of
                   Loaded obsolete \<Rightarrow> decide replacement obsolete
                 | failed \<Rightarrow> blocked (load_failure failed))
           | failed \<Rightarrow> blocked (load_failure failed)))"

definition preview_current ::
  "supersession_env \<Rightarrow> pystr \<Rightarrow> pystr \<Rightarrow> (lifecycle_brain, supersession_result) prog" where
  "preview_current env replacement_id obsolete_id =
     preview_pair env replacement_id obsolete_id (\<lambda>replacement obsolete.
       bindP (validate_pair env replacement obsolete) (\<lambda>reason.
         if reason \<noteq> ''OK'' then ret (result_of ''blocked'' reason replacement_id obsolete_id)
         else if mi_superseded_by obsolete = Some (mi_id replacement)
           then ret (result_of ''already_applied'' ''ALREADY_APPLIED'' (mi_id replacement) (mi_id obsolete))
         else if given_text (mi_superseded_by obsolete)
           then ret (result_of ''blocked'' ''OBSOLETE_ALREADY_SUPERSEDED'' replacement_id obsolete_id)
         else ret (result_of ''ready'' ''OK'' (mi_id replacement) (mi_id obsolete))))"

definition preview_revert_current ::
  "supersession_env \<Rightarrow> pystr \<Rightarrow> pystr \<Rightarrow> (lifecycle_brain, supersession_result) prog" where
  "preview_revert_current env replacement_id obsolete_id =
     preview_pair env replacement_id obsolete_id (\<lambda>replacement obsolete.
       if mi_superseded_by obsolete = None
         then ret (result_of ''blocked'' ''SUPERSESSION_NOT_APPLIED'' (mi_id replacement) (mi_id obsolete))
       else if mi_superseded_by obsolete \<noteq> Some (mi_id replacement)
         then ret (result_of ''blocked'' ''SUPERSESSION_MISMATCH'' (mi_id replacement) (mi_id obsolete))
       else ret (result_of ''ready'' ''OK'' (mi_id replacement) (mi_id obsolete)))"

section \<open>Ledger and index\<close>

definition record_transaction ::
  "supersession_env \<Rightarrow> string \<Rightarrow> string \<Rightarrow> string \<Rightarrow> pystr \<Rightarrow> pystr \<Rightarrow> pystr option \<Rightarrow> bool
   \<Rightarrow> (lifecycle_brain, unit) prog" where
  "record_transaction env action status reason obsolete_id replacement_id snapshot preexisted =
     append_lifecycle_record (se_ledger env)
       \<lparr>rc_action = lit action, rc_timestamp = isoformat_utc (le_now (se_ledger env)), rc_status = lit status,
        rc_reason = lit reason, rc_obsolete_id = obsolete_id, rc_replacement_id = Some replacement_id,
        rc_snapshot = snapshot, rc_replacement_ref_preexisted = preexisted, rc_deferred_until = None\<rparr>"

definition record_blocked_best_effort ::
  "supersession_env \<Rightarrow> string \<Rightarrow> string \<Rightarrow> pystr \<Rightarrow> pystr \<Rightarrow> pystr option \<Rightarrow> bool
   \<Rightarrow> (lifecycle_brain, unit) prog" where
  "record_blocked_best_effort env action reason obsolete_id replacement_id snapshot preexisted =
     try_catch (record_transaction env action ''blocked'' reason obsolete_id replacement_id snapshot preexisted)
       (\<lambda>e. if e = Interrupted then raise e else ret ())"

definition upsert_index :: "sql \<Rightarrow> memory_item \<Rightarrow> pystr \<Rightarrow> (lifecycle_brain, unit) prog" where
  "upsert_index q item body =
     fs_step (\<lambda>w. case index_upsert q item body None (lb_index w) of
         Inl e \<Rightarrow> (Inl e, w)
       | Inr ix \<Rightarrow> (Inr (), w\<lparr>lb_index := ix\<rparr>))"

definition sync_index :: "supersession_env \<Rightarrow> pystr \<Rightarrow> pystr \<Rightarrow> (lifecycle_brain, bool) prog" where
  "sync_index env replacement_id obsolete_id =
     (case se_index env of
        None \<Rightarrow> ret False
      | Some q \<Rightarrow>
          try_catch
            (bindP (get_nofollow (se_codec env) obsolete_id) (\<lambda>(obsolete, obsolete_body).
             bindP (get_nofollow (se_codec env) replacement_id) (\<lambda>(replacement, replacement_body).
             bindP (upsert_index q obsolete obsolete_body) (\<lambda>_.
             bindP (upsert_index q replacement replacement_body) (\<lambda>_. ret True)))))
            (\<lambda>e. if e = Interrupted then raise e else ret False))"

definition already_applied_with_index_sync ::
  "supersession_env \<Rightarrow> supersession_result \<Rightarrow> (lifecycle_brain, supersession_result) prog" where
  "already_applied_with_index_sync env result =
     bindP (sync_index env (sr_replacement_id result) (sr_obsolete_id result)) (\<lambda>synced.
       ret (result\<lparr>sr_dry_run := False, sr_index_repair_required := \<not> synced\<rparr>))"

section \<open>The transaction\<close>

text \<open>
  \<open>apply\<close> and \<open>revert\<close> run the same protocol in two directions; what differs is the action, the value
  of \<open>superseded_by\<close>, and whether the reference to the obsolete memory is added or taken away.
\<close>

datatype direction = Supersede | Revert

fun action_name :: "direction \<Rightarrow> string" where
  "action_name Supersede = ''supersede''"
| "action_name Revert = ''revert-supersession''"

fun success_status :: "direction \<Rightarrow> string" where
  "success_status Supersede = ''applied''"
| "success_status Revert = ''reverted''"

fun superseded_update :: "direction \<Rightarrow> pystr \<Rightarrow> fields" where
  "superseded_update Supersede replacement_id = [(lit ''superseded_by'', FStr replacement_id)]"
| "superseded_update Revert replacement_id = [(lit ''superseded_by'', FNone)]"

fun prepare_reference ::
  "direction \<Rightarrow> item_codec \<Rightarrow> pystr list \<Rightarrow> pystr \<Rightarrow> pystr
   \<Rightarrow> (lifecycle_brain, prepared_mutation option) prog" where
  "prepare_reference Supersede cd ids source_id target_id = view_prepare_link cd ids source_id target_id"
| "prepare_reference Revert cd ids source_id target_id = view_prepare_unlink cd ids source_id target_id"

fun change_reference :: "direction \<Rightarrow> item_codec \<Rightarrow> pystr \<Rightarrow> pystr \<Rightarrow> (lifecycle_brain, bool) prog" where
  "change_reference Supersede cd source_id target_id = store_link_mem cd source_id target_id"
| "change_reference Revert cd source_id target_id = store_unlink_mem cd source_id target_id"

text \<open>What a transaction knows: the locked ids, the two ids, whether the reference was there, and the bytes before and after.\<close>

record transaction =
  tx_ids :: "pystr list"
  tx_direction :: direction
  tx_replacement :: pystr
  tx_obsolete :: pystr
  tx_preexisted :: bool
  tx_old_bytes :: pybytes
  tx_new_bytes :: pybytes
  tx_snapshot :: pystr
  tx_produced_old :: pybytes
  tx_produced_new :: pybytes

definition revalidate_locked_pair ::
  "supersession_env \<Rightarrow> pystr list \<Rightarrow> direction \<Rightarrow> pystr \<Rightarrow> pystr \<Rightarrow> pybytes \<Rightarrow> pybytes
   \<Rightarrow> (lifecycle_brain, bool) prog" where
  "revalidate_locked_pair env ids dir replacement_id obsolete_id replacement_bytes obsolete_bytes =
     (let cd = se_codec env
      in bindP
        (try_catch
          (bindP (view_read_bytes ids replacement_id) (\<lambda>b.
            if b \<noteq> replacement_bytes then ret None
            else bindP (view_read_bytes ids obsolete_id) (\<lambda>b.
              if b \<noteq> obsolete_bytes then ret None
              else bindP (view_get cd ids replacement_id) (\<lambda>replacement.
                   bindP (view_get cd ids obsolete_id) (\<lambda>obsolete.
                     ret (Some (fst replacement, fst obsolete)))))))
          (\<lambda>e. if is_item_read_error e then ret None else raise e)) (\<lambda>pair.
        case pair of
          None \<Rightarrow> ret False
        | Some (replacement, obsolete) \<Rightarrow>
            if mi_id replacement \<noteq> replacement_id \<or> mi_id obsolete \<noteq> obsolete_id then ret False
            else if dir = Revert then ret (mi_superseded_by obsolete = Some (mi_id replacement))
            else bindP (validate_pair env replacement obsolete) (\<lambda>reason.
                   ret (reason = ''OK'' \<and> mi_superseded_by obsolete = None))))"

definition prepared_mismatch :: py_exn where
  "prepared_mismatch = OSErr ''PREPARED_MUTATION_MISMATCH''"

definition mutate_pair :: "supersession_env \<Rightarrow> transaction \<Rightarrow> (lifecycle_brain, unit) prog" where
  "mutate_pair env tx =
     (let cd = se_codec env; ids = tx_ids tx; dir = tx_direction tx
      in bindP (store_update_frontmatter cd (tx_obsolete tx) (superseded_update dir (tx_replacement tx))) (\<lambda>_.
         bindP (view_read_bytes ids (tx_obsolete tx)) (\<lambda>b.
         bindP (check (b = tx_produced_old tx) prepared_mismatch) (\<lambda>_.
           if tx_preexisted tx then ret ()
           else bindP (change_reference dir cd (tx_replacement tx) (tx_obsolete tx)) (\<lambda>_.
                bindP (view_read_bytes ids (tx_replacement tx)) (\<lambda>b.
                  check (b = tx_produced_new tx) prepared_mismatch))))))"

definition pair_matches :: "transaction \<Rightarrow> (lifecycle_brain, bool) prog" where
  "pair_matches tx =
     try_catch
       (bindP (view_read_bytes (tx_ids tx) (tx_obsolete tx)) (\<lambda>b.
          if b \<noteq> tx_old_bytes tx then ret False
          else bindP (view_read_bytes (tx_ids tx) (tx_replacement tx)) (\<lambda>b. ret (b = tx_new_bytes tx))))
       (\<lambda>e. ret False)"

definition ignore_errors :: "('w, unit) prog \<Rightarrow> ('w, unit) prog" where
  "ignore_errors m = try_catch m (\<lambda>e. ret ())"

definition restore_pair :: "transaction \<Rightarrow> (lifecycle_brain, unit) prog" where
  "restore_pair tx =
     bindP
       (try_catch
         (bindP (view_read_bytes (tx_ids tx) (tx_obsolete tx)) (\<lambda>current_obsolete.
          bindP (view_read_bytes (tx_ids tx) (tx_replacement tx)) (\<lambda>current_replacement.
            ret (current_obsolete, current_replacement))))
         (\<lambda>e. raise RollbackFailed)) (\<lambda>(current_obsolete, current_replacement).
     if current_obsolete \<notin> {tx_old_bytes tx, tx_produced_old tx}
        \<or> current_replacement \<notin> {tx_new_bytes tx, tx_produced_new tx}
     then raise RollbackFailed
     else
       bindP (ignore_errors (store_restore_raw (tx_obsolete tx) (tx_old_bytes tx))) (\<lambda>_.
       bindP (ignore_errors (store_restore_raw (tx_replacement tx) (tx_new_bytes tx))) (\<lambda>_.
       bindP (pair_matches tx) (\<lambda>restored.
         if restored then ret ()
         else
           bindP (ignore_errors (restore_pair_snapshot (tx_snapshot tx) (tx_obsolete tx) (tx_replacement tx))) (\<lambda>_.
           bindP (pair_matches tx) (\<lambda>restored.
             if restored then ret () else raise RollbackFailed))))))"

definition rollback_result ::
  "supersession_env \<Rightarrow> transaction \<Rightarrow> (lifecycle_brain, supersession_result option) prog" where
  "rollback_result env tx =
     try_catch (bindP (restore_pair tx) (\<lambda>_. ret None))
       (\<lambda>e. if e = RollbackFailed
         then bindP (record_blocked_best_effort env (action_name (tx_direction tx)) ''ROLLBACK_FAILED''
                (tx_obsolete tx) (tx_replacement tx) (Some (tx_snapshot tx)) (tx_preexisted tx)) (\<lambda>_.
              ret (Some (blocked_run ''ROLLBACK_FAILED'' (tx_replacement tx) (tx_obsolete tx)
                (Some (tx_snapshot tx)))))
         else raise e)"

text \<open>The two steps that can be rolled back; a result means that the transaction ended there.\<close>

definition update_markdown ::
  "supersession_env \<Rightarrow> transaction \<Rightarrow> (lifecycle_brain, supersession_result option) prog" where
  "update_markdown env tx =
     try_catch (bindP (mutate_pair env tx) (\<lambda>_. ret None)) (\<lambda>e.
       bindP (rollback_result env tx) (\<lambda>rolled.
         case rolled of
           Some result \<Rightarrow> if e = Interrupted then raise e else ret (Some result)
         | None \<Rightarrow>
             bindP (record_blocked_best_effort env (action_name (tx_direction tx)) ''MARKDOWN_UPDATE_FAILED''
               (tx_obsolete tx) (tx_replacement tx) (Some (tx_snapshot tx)) (tx_preexisted tx)) (\<lambda>_.
             if e = Interrupted then raise e
             else ret (Some (blocked_run ''MARKDOWN_UPDATE_FAILED'' (tx_replacement tx) (tx_obsolete tx)
                    (Some (tx_snapshot tx)))))))"

definition write_record ::
  "supersession_env \<Rightarrow> transaction \<Rightarrow> (lifecycle_brain, supersession_result option) prog" where
  "write_record env tx =
     try_catch
       (bindP (record_transaction env (action_name (tx_direction tx)) (success_status (tx_direction tx)) ''OK''
          (tx_obsolete tx) (tx_replacement tx) (Some (tx_snapshot tx)) (tx_preexisted tx)) (\<lambda>_. ret None))
       (\<lambda>e. bindP (rollback_result env tx) (\<lambda>rolled.
         if e = Interrupted then raise e
         else ret (Some (case rolled of
             Some result \<Rightarrow> result
           | None \<Rightarrow> blocked_run ''LEDGER_WRITE_FAILED'' (tx_replacement tx) (tx_obsolete tx)
               (Some (tx_snapshot tx))))))"

definition commit_pair ::
  "supersession_env \<Rightarrow> transaction \<Rightarrow> (lifecycle_brain, supersession_result) prog" where
  "commit_pair env tx =
     bindP (update_markdown env tx) (\<lambda>ended.
       case ended of
         Some result \<Rightarrow> ret result
       | None \<Rightarrow>
           bindP (write_record env tx) (\<lambda>ended.
             case ended of
               Some result \<Rightarrow> ret result
             | None \<Rightarrow>
                 bindP (sync_index env (tx_replacement tx) (tx_obsolete tx)) (\<lambda>synced.
                   ret ((result_of (success_status (tx_direction tx)) ''OK'' (tx_replacement tx) (tx_obsolete tx))
                     \<lparr>sr_dry_run := False, sr_snapshot := Some (tx_snapshot tx),
                      sr_index_repair_required := \<not> synced\<rparr>))))"

text \<open>From a pair found ready to the commit: snapshot, second validation, prepared bytes.\<close>

definition prepare_and_commit ::
  "supersession_env \<Rightarrow> pystr list \<Rightarrow> direction \<Rightarrow> pystr \<Rightarrow> pystr \<Rightarrow> bool \<Rightarrow> pybytes \<Rightarrow> pybytes \<Rightarrow> pystr
   \<Rightarrow> (lifecycle_brain, supersession_result) prog" where
  "prepare_and_commit env ids dir replacement_id obsolete_id preexisted old_bytes new_bytes s =
     bindP (view_prepare_update (se_codec env) ids obsolete_id (superseded_update dir replacement_id)) (\<lambda>prepared_old.
     bindP (if preexisted then ret None
            else prepare_reference dir (se_codec env) ids replacement_id obsolete_id) (\<lambda>prepared_new.
     commit_pair env
       \<lparr>tx_ids = ids, tx_direction = dir, tx_replacement = replacement_id, tx_obsolete = obsolete_id,
        tx_preexisted = preexisted, tx_old_bytes = old_bytes, tx_new_bytes = new_bytes,
        tx_snapshot = s, tx_produced_old = pm_data prepared_old,
        tx_produced_new = (case prepared_new of None \<Rightarrow> new_bytes | Some p \<Rightarrow> pm_data p)\<rparr>))"

definition transact_saved ::
  "supersession_env \<Rightarrow> pystr list \<Rightarrow> direction \<Rightarrow> pystr \<Rightarrow> pystr \<Rightarrow> bool \<Rightarrow> pybytes \<Rightarrow> pybytes \<Rightarrow> pystr
   \<Rightarrow> (lifecycle_brain, supersession_result) prog" where
  "transact_saved env ids dir replacement_id obsolete_id preexisted old_bytes new_bytes s =
     bindP (revalidate_locked_pair env ids dir replacement_id obsolete_id new_bytes old_bytes) (\<lambda>valid.
       if \<not> valid then
         bindP (record_blocked_best_effort env (action_name dir) ''CONCURRENT_MODIFICATION''
           obsolete_id replacement_id (Some s) preexisted) (\<lambda>_.
         ret (blocked_run ''CONCURRENT_MODIFICATION'' replacement_id obsolete_id (Some s)))
       else prepare_and_commit env ids dir replacement_id obsolete_id preexisted old_bytes new_bytes s)"

definition save_pair ::
  "supersession_env \<Rightarrow> pystr \<Rightarrow> pybytes \<Rightarrow> pystr \<Rightarrow> pybytes \<Rightarrow> (lifecycle_brain, pystr option) prog" where
  "save_pair env obsolete_id old_bytes replacement_id new_bytes =
     try_catch
       (bindP (snapshot_pair env obsolete_id old_bytes replacement_id new_bytes) (\<lambda>s. ret (Some s)))
       (\<lambda>e. if e = SnapshotError then ret None else raise e)"

definition transact ::
  "supersession_env \<Rightarrow> pystr list \<Rightarrow> direction \<Rightarrow> pystr \<Rightarrow> pystr \<Rightarrow> bool
   \<Rightarrow> (lifecycle_brain, supersession_result) prog" where
  "transact env ids dir replacement_id obsolete_id preexisted =
     bindP (view_read_bytes ids obsolete_id) (\<lambda>old_bytes.
     bindP (view_read_bytes ids replacement_id) (\<lambda>new_bytes.
     bindP (save_pair env obsolete_id old_bytes replacement_id new_bytes) (\<lambda>snapshot.
       case snapshot of
         None \<Rightarrow> ret (blocked_run ''SNAPSHOT_FAILED'' replacement_id obsolete_id None)
       | Some s \<Rightarrow> transact_saved env ids dir replacement_id obsolete_id preexisted old_bytes new_bytes s)))"

text \<open>The locks of the transaction, of the catalog and of the two items.\<close>

definition acquire_locks :: "(lifecycle_brain, unit) prog" where
  "acquire_locks = bindP (fs_step (ret ())) (\<lambda>_. bindP (fs_step (ret ())) (\<lambda>_. fs_step (ret ())))"

definition apply_supersession ::
  "supersession_env \<Rightarrow> pystr \<Rightarrow> pystr \<Rightarrow> bool \<Rightarrow> (lifecycle_brain, supersession_result) prog" where
  "apply_supersession env replacement_id obsolete_id apply_now =
     (let preview = preview_current env replacement_id obsolete_id; ids = [replacement_id, obsolete_id]
      in if \<not> apply_now then preview
         else if \<not> (is_valid_memory_item_id replacement_id \<and> is_valid_memory_item_id obsolete_id)
           then bindP preview (\<lambda>result. ret (executed result))
         else if \<not> se_capable env
           then ret (executed (result_of ''blocked'' ''PLATFORM_UNSUPPORTED'' replacement_id obsolete_id))
         else
           bindP acquire_locks (\<lambda>_.
           bindP preview (\<lambda>previewed.
           if sr_status previewed = lit ''already_applied'' then already_applied_with_index_sync env previewed
           else if sr_status previewed \<noteq> lit ''ready'' then ret (executed previewed)
           else bindP preview (\<lambda>current.
             if sr_status current = lit ''already_applied'' then already_applied_with_index_sync env current
             else if sr_status current \<noteq> lit ''ready'' then ret (executed current)
             else
               bindP (view_get (se_codec env) ids replacement_id) (\<lambda>replacement.
               bindP (view_get (se_codec env) ids obsolete_id) (\<lambda>obsolete.
                 transact env ids Supersede (mi_id (fst replacement)) (mi_id (fst obsolete))
                   (mi_id (fst obsolete) \<in> set (rf_mems (mi_refs (fst replacement))))))))))"

definition revert_supersession ::
  "supersession_env \<Rightarrow> pystr \<Rightarrow> pystr \<Rightarrow> bool \<Rightarrow> (lifecycle_brain, supersession_result) prog" where
  "revert_supersession env replacement_id obsolete_id apply_now =
     (let preview = preview_revert_current env replacement_id obsolete_id; ids = [replacement_id, obsolete_id]
      in if \<not> apply_now then preview
         else if \<not> (is_valid_memory_item_id replacement_id \<and> is_valid_memory_item_id obsolete_id)
           then bindP preview (\<lambda>result. ret (executed result))
         else if \<not> se_capable env
           then ret (executed (result_of ''blocked'' ''PLATFORM_UNSUPPORTED'' replacement_id obsolete_id))
         else
           bindP acquire_locks (\<lambda>_.
           bindP preview (\<lambda>previewed.
           if sr_status previewed \<noteq> lit ''ready'' then ret (executed previewed)
           else bindP preview (\<lambda>current.
             if sr_status current \<noteq> lit ''ready'' then ret (executed current)
             else
               bindP (view_get (se_codec env) ids replacement_id) (\<lambda>replacement.
               bindP (view_get (se_codec env) ids obsolete_id) (\<lambda>obsolete.
               bindP (latest_applied_supersession_record (se_ledger env)
                        (mi_id (fst replacement)) (mi_id (fst obsolete))) (\<lambda>applied.
                 transact env ids Revert (mi_id (fst replacement)) (mi_id (fst obsolete))
                   (case applied of None \<Rightarrow> True | Some r \<Rightarrow> rc_replacement_ref_preexisted r))))))))"

end
