(* ===== verification/SupersessionLaws.thy ===== *)
theory SupersessionLaws imports Supersession begin

text \<open>
  What a supersession transaction guarantees. \<open>keeps R m\<close> says that every run of \<open>m\<close> takes a state to one
  related by \<open>R\<close>; the collections \<open>keeps_rules\<close> and \<open>frame_rules\<close> take a program apart and say which files it
  may touch while no other program edits them. On top of these the phases of the transaction have one
  lemma each, and the properties of \<open>apply\<close> and \<open>revert\<close> follow from the phases.
\<close>

section \<open>Frames\<close>

definition keeps :: "('w \<Rightarrow> 'w \<Rightarrow> bool) \<Rightarrow> ('w, 'a) prog \<Rightarrow> bool" where
  "keeps R m \<longleftrightarrow> (\<forall>w. R w (snd (m w)))"

definition preorder :: "('w \<Rightarrow> 'w \<Rightarrow> bool) \<Rightarrow> bool" where
  "preorder R \<longleftrightarrow> reflp R \<and> transp R"

named_theorems keeps_rules \<open>programs that keep a preorder\<close>
named_theorems frame_rules \<open>file accesses of programs\<close>

lemma keepsD: "keeps R m \<Longrightarrow> m w = (r, w') \<Longrightarrow> R w w'"
  unfolding keeps_def by (metis snd_conv)

lemma keeps_pure:
  assumes "preorder R"
  shows "keeps R (ret a)" "keeps R (raise e)" "keeps R (lift_result r)" "keeps R (asks f)" "keeps R (check b e)"
  using assms by (auto simp: keeps_def preorder_def reflp_def)

lemma keeps_bindP:
  assumes "preorder R" "keeps R m" "\<And>a w w'. m w = (Inr a, w') \<Longrightarrow> keeps R (f a)"
  shows "keeps R (bindP m f)"
  unfolding keeps_def
proof
  fix w
  obtain r w' where run: "m w = (r, w')" by fastforce
  have first: "R w w'" by (rule keepsD [OF assms(2) run])
  show "R w (snd (bindP m f w))"
  proof (cases r)
    case (Inr a)
    then have "R w' (snd (f a w'))" using assms(3) run by (simp add: keeps_def)
    then show ?thesis using first assms(1) run Inr by (auto simp: bindP_def preorder_def dest: transpD)
  qed (use first run in \<open>simp add: bindP_def\<close>)
qed

lemma keeps_try:
  assumes "preorder R" "keeps R m" "\<And>e. keeps R (h e)"
  shows "keeps R (try_catch m h)"
  unfolding keeps_def
proof
  fix w
  show "R w (snd (try_catch m h w))"
    using assms by (cases "m w"; cases "fst (m w)")
      (auto simp: try_catch_def keeps_def preorder_def split: sum.splits dest: transpD, (metis snd_conv transpD)+)
qed

lemma bindP_assoc: "bindP (bindP m f) g = bindP m (\<lambda>a. bindP (f a) g)"
  by (rule ext) (simp add: bindP_def split: prod.splits sum.splits)

lemma keeps_if: "(b \<Longrightarrow> keeps R m) \<Longrightarrow> (\<not> b \<Longrightarrow> keeps R n) \<Longrightarrow> keeps R (if b then m else n)"
  by simp

lemma keeps_mapP:
  assumes "preorder R" "\<And>x. x \<in> set xs \<Longrightarrow> keeps R (f x)"
  shows "keeps R (mapP f xs)"
  using assms(2) by (induction xs) (auto intro!: keeps_pure keeps_bindP assms(1))

text \<open>No other program edits the items while the script lasts.\<close>

definition undisturbed :: "'z brain_scheme \<Rightarrow> bool" where
  "undisturbed w \<longleftrightarrow> list_all (\<lambda>e. fe_edits e = []) (br_script w)"

text \<open>How many calls of the file system still fail.\<close>

definition faults :: "'z brain_scheme \<Rightarrow> nat" where
  "faults w = length (filter (\<lambda>e. fe_outcome e \<noteq> Proceeds) (br_script w))"

text \<open>
  Only the files in \<open>S\<close> differ, and the ledger only if \<open>L\<close>; the history and the index may. No fault is added.
\<close>

definition only_files :: "pystr set \<Rightarrow> bool \<Rightarrow> 'z ledger_brain_scheme \<Rightarrow> 'z ledger_brain_scheme \<Rightarrow> bool" where
  "only_files S L w w' \<longleftrightarrow>
     (undisturbed w \<longrightarrow> undisturbed w' \<and> (\<forall>i. i \<notin> S \<longrightarrow> item_file i w' = item_file i w))
     \<and> (\<not> L \<longrightarrow> ledger_of w' = ledger_of w) \<and> faults w' \<le> faults w"

lemma preorder_only_files [simp, intro]: "preorder (only_files S L)"
  unfolding preorder_def by (auto simp: only_files_def intro!: reflpI transpI)

lemma only_files_mono: "only_files S L w w' \<Longrightarrow> S \<subseteq> T \<Longrightarrow> only_files T L w w'"
  unfolding only_files_def by blast

lemma keeps_mono: "keeps (only_files S L) m \<Longrightarrow> S \<subseteq> T \<Longrightarrow> keeps (only_files T L) m"
  unfolding keeps_def using only_files_mono by blast

lemmas only_files_pure [keeps_rules] = keeps_pure [OF preorder_only_files]
lemmas only_files_bindP [keeps_rules] = keeps_bindP [OF preorder_only_files]
lemmas only_files_try [keeps_rules] = keeps_try [OF preorder_only_files]
lemmas only_files_mapP [keeps_rules] = keeps_mapP [OF preorder_only_files]

declare keeps_if [keeps_rules]

lemma next_event_quiet:
  assumes "undisturbed w" "next_event w = (event, w')"
  shows "undisturbed w'" "br_items w' = br_items w" "item_file i w' = item_file i w"
  using assms by (auto simp: next_event_def undisturbed_def item_file_def split: list.splits)

lemma next_event_faults:
  "next_event w = (event, w') \<Longrightarrow> faults w' + (if fe_outcome event = Proceeds then 0 else 1) = faults w"
  by (auto simp: next_event_def faults_def no_event_def split: list.splits)

lemma next_event_ledger: "next_event w = (event, w') \<Longrightarrow> ledger_of w' = ledger_of w"
  by (auto simp: next_event_def ledger_of_def split: list.splits)

lemma keeps_fs_step [keeps_rules]:
  fixes m :: "('z ledger_brain_scheme, 'a) prog"
  assumes "keeps (only_files S L) m"
  shows "keeps (only_files S L) (fs_step m)"
  unfolding keeps_def
proof
  fix w :: "'z ledger_brain_scheme"
  obtain event and w' :: "'z ledger_brain_scheme" where ev: "next_event w = (event, w')" by fastforce
  have "only_files S L w' (snd (m w'))" using assms by (simp add: keeps_def)
  then show "only_files S L w (snd (fs_step m w))"
    using next_event_quiet [OF _ ev] next_event_ledger [OF ev] next_event_faults [OF ev]
    by (auto simp: fs_step_def ev only_files_def split: fs_outcome.splits prod.splits sum.splits)
qed

lemma keeps_same:
  "(\<And>w. br_items (snd (m w)) = br_items w \<and> br_script (snd (m w)) = br_script w \<and> ledger_of (snd (m w)) = ledger_of w)
    \<Longrightarrow> keeps (only_files S L) m"
  by (simp add: keeps_def only_files_def undisturbed_def item_file_def faults_def)

section \<open>The store\<close>

lemma keeps_read [keeps_rules]: "keeps (only_files S L) (read_item_file i)"
  unfolding read_item_file_def by (intro keeps_fs_step keeps_same) simp

lemma keeps_write [keeps_rules]:
  assumes "i \<in> S"
  shows "keeps (only_files S L) (atomic_write i data create_missing)"
  unfolding atomic_write_def
proof (rule keeps_fs_step)
  show "keeps (only_files S L) (\<lambda>w. let put = (Inr (), w\<lparr>br_items := AList.update i (Regular data) (br_items w)\<rparr>)
       in case item_file i w of
            None \<Rightarrow> if create_missing then put else (Inl FileNotFound, w)
          | Some Unsafe \<Rightarrow> (Inl (OSErr ''UNSAFE_ATOMIC_WRITE_TARGET''), w)
          | Some (Regular _) \<Rightarrow> put)"
    using assms
    by (auto simp: keeps_def only_files_def undisturbed_def item_file_def ledger_of_def faults_def Let_def update_conv'
        split: option.splits item_entry.splits)
qed

lemma keeps_view_read [keeps_rules]: "keeps (only_files S L) (view_read_bytes ids i)"
  unfolding view_read_bytes_def require_locked_def by (intro keeps_rules)

lemma keeps_view_get [keeps_rules]: "keeps (only_files S L) (view_get cd ids i)"
  unfolding view_get_def by (intro keeps_rules)

lemma keeps_prepare_update [keeps_rules]: "keeps (only_files S L) (view_prepare_update cd ids i updates)"
  unfolding view_prepare_update_def by (intro keeps_rules)

lemma keeps_apply_prepared [keeps_rules]: "pm_item_id p \<in> S \<Longrightarrow> keeps (only_files S L) (view_apply_prepared ids p)"
  unfolding view_apply_prepared_def require_locked_def by (intro keeps_rules)

lemma keeps_restore_raw [keeps_rules]: "i \<in> S \<Longrightarrow> keeps (only_files S L) (store_restore_raw i data)"
  unfolding store_restore_raw_def view_restore_raw_def require_locked_def by (intro keeps_rules)

lemma keeps_prepare_link [keeps_rules]: "keeps (only_files S L) (view_prepare_link cd ids i j)"
  unfolding view_prepare_link_def split_def by (intro keeps_rules)

lemma keeps_prepare_unlink [keeps_rules]: "keeps (only_files S L) (view_prepare_unlink cd ids i j)"
  unfolding view_prepare_unlink_def split_def by (intro keeps_rules)

lemma keeps_prepare_reference [keeps_rules]: "keeps (only_files S L) (prepare_reference dir cd ids i j)"
  by (cases dir) (auto intro: keeps_rules)

lemma keeps_get_nofollow [keeps_rules]: "keeps (only_files S L) (get_nofollow cd i)"
  unfolding get_nofollow_def read_bytes_nofollow_def by (intro keeps_rules)

lemma prepared_id:
  "view_prepare_update cd ids i updates w = (Inr p, w') \<Longrightarrow> pm_item_id p = i"
  by (auto simp: view_prepare_update_def bindP_Inr_iff prepare_from_def rendered_def bindR_Inr_iff)

lemma prepared_link_id:
  "view_prepare_link cd ids i j w = (Inr (Some p), w') \<Longrightarrow> pm_item_id p = i"
  "view_prepare_unlink cd ids i j w = (Inr (Some p), w') \<Longrightarrow> pm_item_id p = i"
  by (auto simp: view_prepare_link_def view_prepare_unlink_def bindP_Inr_iff dest: prepared_id split: prod.splits if_splits)

lemma keeps_update_frontmatter [keeps_rules]:
  "i \<in> S \<Longrightarrow> keeps (only_files S L) (store_update_frontmatter cd i updates)"
  unfolding store_update_frontmatter_def view_update_frontmatter_def
  by (intro keeps_rules) (simp add: prepared_id)

lemma keeps_apply_optional:
  assumes "\<And>p. prepared = Some p \<Longrightarrow> pm_item_id p \<in> S"
  shows "keeps (only_files S L) (apply_optional ids prepared)"
  using assms by (auto simp: apply_optional_def intro!: keeps_rules split: option.splits)

lemma keeps_change_reference [keeps_rules]:
  assumes "i \<in> S"
  shows "keeps (only_files S L) (change_reference dir cd i j)"
proof (cases dir)
  case Supersede
  then show ?thesis
    unfolding Supersede change_reference.simps store_link_mem_def view_link_mem_def
    using assms by (intro keeps_rules keeps_apply_optional) (auto dest: prepared_link_id(1))
next
  case Revert
  have some: "pm_item_id p = i"
    if "try_catch (bindP (view_prepare_unlink cd [i] i j) (\<lambda>p. ret (Some p)))
      (\<lambda>e. if e = FileNotFound then ret None else raise e) w = (Inr (Some (Some p)), w')" for p w w'
    using that by (auto simp: try_catch_def bindP_def split: prod.splits sum.splits if_splits dest: prepared_link_id(2))
  show ?thesis
    unfolding Revert change_reference.simps store_unlink_mem_def view_unlink_mem_def
  proof (intro keeps_rules)
    fix a w w'
    assume run: "try_catch (bindP (view_prepare_unlink cd [i] i j) (\<lambda>p. ret (Some p)))
      (\<lambda>e. if e = FileNotFound then ret None else raise e) w = (Inr a, w')"
    show "keeps (only_files S L) (case a of None \<Rightarrow> ret False | Some p \<Rightarrow> apply_optional [i] p)"
      using assms some run by (cases a) (auto intro!: keeps_rules keeps_apply_optional)
  qed
qed

section \<open>Ledger, snapshots and index\<close>

lemma keeps_ledger_write [keeps_rules]: "keeps (only_files S True) (write_ledger env r)"
  unfolding keeps_def
proof
  fix w :: "'a ledger_brain_scheme"
  obtain event and w1 :: "'a ledger_brain_scheme" where ev: "next_event w = (event, w1)" by fastforce
  have put: "only_files S True w w1 \<Longrightarrow> only_files S True w (put_ledger l w1)" for l and w w1 :: "'a ledger_brain_scheme"
    by (simp add: only_files_def put_ledger_def undisturbed_def item_file_def faults_def)
  have one: "only_files S True w w1" if "next_event w = (event, w1)" for event and w w1 :: "'a ledger_brain_scheme"
    using next_event_quiet [OF _ that] next_event_faults [OF that] by (simp add: only_files_def)
  have "only_files S True w1 (snd (truncate_ledger env r k e w1))" for k e
    using one put by (auto simp: truncate_ledger_def Let_def split: prod.splits fs_outcome.splits)
  then have "only_files S True w (snd (truncate_ledger env r k e w1))" for k e
    using one [OF ev] preorder_only_files [of S] by (auto simp: preorder_def dest: transpD)
  then show "only_files S True w (snd (write_ledger env r w))"
    using one [OF ev] put by (auto simp: write_ledger_def ev Let_def split: fs_outcome.splits)
qed

lemma keeps_record [keeps_rules]:
  "keeps (only_files S True) (record_transaction env action status reason o_id r_id snap pre)"
  unfolding record_transaction_def append_lifecycle_record_def by (intro keeps_rules)

lemma keeps_record_blocked [keeps_rules]:
  "keeps (only_files S True) (record_blocked_best_effort env action reason o_id r_id snap pre)"
  unfolding record_blocked_best_effort_def by (intro keeps_rules)

lemma keeps_latest [keeps_rules]: "keeps (only_files S L) (latest_applied_supersession_record env r_id o_id)"
  unfolding latest_applied_supersession_record_def by (intro keeps_rules keeps_same) simp_all

lemma keeps_snapshot_error [keeps_rules]: "keeps (only_files S L) (snapshot_error e)"
  unfolding snapshot_error_def by (intro keeps_rules)

lemma keeps_snapshot [keeps_rules]: "keeps (only_files S L) (snapshot_pair env i a j b)"
  unfolding snapshot_pair_def snapshot_items_def Let_def
  by (intro keeps_rules keeps_same) (auto simp: Let_def ledger_of_def)

lemma keeps_restore_items [keeps_rules]:
  assumes "set ids \<subseteq> S"
  shows "keeps (only_files S L) (restore_items snapshot ids)"
  unfolding restore_items_def Let_def
proof (intro keeps_rules)
  show "keeps (only_files S L) (read_snapshot snapshot (sort (dedup ids)))"
    unfolding read_snapshot_def by (intro keeps_rules keeps_same) simp
  fix tree w and w' :: lifecycle_brain and x
  assume "read_snapshot snapshot (sort (dedup ids)) w = (Inr tree, w')" "x \<in> set tree"
  then have "map fst tree = sort (dedup ids)" "x \<in> set tree"
    by (auto simp: read_snapshot_def fs_step_def split: prod.splits fs_outcome.splits option.splits if_splits)
  then have "fst x \<in> S"
    using assms by (metis image_eqI image_set set_dedup set_sort subsetD)
  then show "keeps (only_files S L) (case x of (i, data) \<Rightarrow> atomic_write i data True)"
    by (auto intro: keeps_rules split: prod.splits)
qed (auto intro!: keeps_rules split: prod.splits)

lemma keeps_restore_snapshot [keeps_rules]:
  "i \<in> S \<Longrightarrow> j \<in> S \<Longrightarrow> keeps (only_files S L) (restore_pair_snapshot snapshot i j)"
  unfolding restore_pair_snapshot_def by (intro keeps_rules) simp_all

lemma keeps_load_item [keeps_rules]: "keeps (only_files S L) (load_item env i)"
  unfolding load_item_def split_def by (intro keeps_rules)

lemma keeps_walk [keeps_rules]: "keeps (only_files S L) (walk_chain env fuel cursor seen)"
proof (induction fuel arbitrary: cursor seen)
  case 0
  then show ?case
    by (subst walk_chain.simps) (auto intro!: keeps_rules split: option.splits)
next
  case (Suc k)
  then show ?case
    by (subst walk_chain.simps) (auto intro!: keeps_rules split: option.splits item_load.splits)
qed

lemma keeps_validate_pair [keeps_rules]: "keeps (only_files S L) (validate_pair env a b)"
  unfolding validate_pair_def by (intro keeps_rules)

lemma keeps_preview_pair:
  assumes "\<And>a b. keeps (only_files S L) (decide a b)"
  shows "keeps (only_files S L) (preview_pair env r_id o_id decide)"
  unfolding preview_pair_def Let_def using assms
  by (auto intro!: keeps_rules split: item_load.splits)

lemma keeps_previews [keeps_rules]:
  "keeps (only_files S L) (preview_current env r_id o_id)"
  "keeps (only_files S L) (preview_revert_current env r_id o_id)"
  unfolding preview_current_def preview_revert_current_def
  by (intro keeps_preview_pair keeps_rules)+

lemma keeps_upsert [keeps_rules]: "keeps (only_files S L) (upsert_index q item body)"
  unfolding upsert_index_def by (intro keeps_rules keeps_same) (simp add: ledger_of_def split: sum.splits)

lemma keeps_sync [keeps_rules]: "keeps (only_files S L) (sync_index env r_id o_id)"
  unfolding sync_index_def split_def by (auto intro!: keeps_rules split: option.splits)

lemma keeps_revalidate [keeps_rules]:
  "keeps (only_files S L) (revalidate_locked_pair env ids dir r_id o_id b c)"
  unfolding revalidate_locked_pair_def Let_def
  by (auto intro!: keeps_rules split: option.splits prod.splits)

section \<open>What accesses say of the files\<close>

lemma wp_keeps:
  assumes "keeps (only_files S L) m" "undisturbed w"
    and "\<And>a w'. m w = (Inr a, w') \<Longrightarrow> undisturbed w' \<Longrightarrow> \<forall>i. i \<notin> S \<longrightarrow> item_file i w' = item_file i w \<Longrightarrow> Q a w'"
    and "\<And>e w'. m w = (Inl e, w') \<Longrightarrow> undisturbed w' \<Longrightarrow> \<forall>i. i \<notin> S \<longrightarrow> item_file i w' = item_file i w \<Longrightarrow> E e w'"
  shows "wp m Q E w"
proof -
  obtain r w' where run: "m w = (r, w')" by fastforce
  have "only_files S L w w'" by (rule keepsD [OF assms(1) run])
  then show ?thesis using assms(2-) run by (cases r) (auto simp: wp_def only_files_def)
qed

lemma read_item_result:
  assumes "undisturbed w" "read_item_file i w = (Inr b, w')"
  shows "item_file i w = Some (Regular b)"
proof -
  obtain event w1 where ev: "next_event w = (event, w1)" by fastforce
  have "item_file i w1 = Some (Regular b)"
    using assms(2) by (auto simp: read_item_file_def fs_step_def ev
        split: fs_outcome.splits option.splits item_entry.splits)
  then show ?thesis using next_event_quiet(3) [OF assms(1) ev] by simp
qed

lemma view_read_result:
  "undisturbed w \<Longrightarrow> view_read_bytes ids i w = (Inr b, w') \<Longrightarrow> item_file i w = Some (Regular b)"
  by (cases "i \<in> set ids") (auto simp: view_read_bytes_def require_locked_def dest: read_item_result)

lemma view_get_result:
  "undisturbed w \<Longrightarrow> view_get cd ids i w = (Inr x, w') \<Longrightarrow>
    \<exists>b. item_file i w = Some (Regular b) \<and> parse_item_bytes cd b = Inr x"
  by (auto simp: view_get_def bindP_Inr_iff dest: view_read_result)

lemma prepare_update_result:
  "undisturbed w \<Longrightarrow> view_prepare_update cd ids i updates w = (Inr p, w') \<Longrightarrow>
    \<exists>b. item_file i w = Some (Regular b) \<and> bindR (parse_item_bytes cd b) (prepare_from cd i updates) = Inr p"
  by (auto simp: view_prepare_update_def bindP_Inr_iff bindR_Inr_iff dest!: view_get_result)

lemma load_item_result:
  "undisturbed w \<Longrightarrow> load_item env i w = (Inr (Loaded item), w') \<Longrightarrow>
    mi_id item = i \<and> (\<exists>b body. item_file i w = Some (Regular b) \<and> parse_item_bytes (se_codec env) b = Inr (item, body))"
  by (auto simp: load_item_def try_catch_def get_nofollow_def read_bytes_nofollow_def bindP_def
      split: prod.splits sum.splits if_splits dest!: read_item_result)

text \<open>The bytes that change the reference of the replacement, if it has to change.\<close>

fun reference_update :: "direction \<Rightarrow> memory_item \<Rightarrow> pystr \<Rightarrow> fields option" where
  "reference_update Supersede item target_id =
     (if target_id \<in> set (rf_mems (mi_refs item)) then None else Some [(lit ''refs'', linked_refs item target_id)])"
| "reference_update Revert item target_id =
     (if target_id \<notin> set (rf_mems (mi_refs item)) then None else Some [(lit ''refs'', unlinked_refs item target_id)])"

definition referenced_bytes ::
  "direction \<Rightarrow> item_codec \<Rightarrow> pystr \<Rightarrow> pystr \<Rightarrow> pybytes \<Rightarrow> pybytes result" where
  "referenced_bytes dir cd source_id target_id data =
     bindR (parse_item_bytes cd data) (\<lambda>loaded.
       case reference_update dir (fst loaded) target_id of
         None \<Rightarrow> Inr data
       | Some updates \<Rightarrow> bindR (prepare_from cd source_id updates loaded) (\<lambda>p. Inr (pm_data p)))"

definition superseded_bytes :: "direction \<Rightarrow> item_codec \<Rightarrow> pystr \<Rightarrow> pystr \<Rightarrow> pybytes \<Rightarrow> pybytes result" where
  "superseded_bytes dir cd source_id target_id data =
     bindR (parse_item_bytes cd data) (\<lambda>loaded.
     bindR (prepare_from cd target_id (superseded_update dir source_id) loaded) (\<lambda>p. Inr (pm_data p)))"

lemma prepare_reference_result:
  assumes "undisturbed w" "prepare_reference dir cd ids i j w = (Inr q, w')"
  shows "\<exists>b. item_file i w = Some (Regular b)
    \<and> referenced_bytes dir cd i j b = Inr (case q of None \<Rightarrow> b | Some p \<Rightarrow> pm_data p)"
proof -
  define f where "f = (\<lambda>item. case dir of Supersede \<Rightarrow> linked_refs item j | Revert \<Rightarrow> unlinked_refs item j)"
  have none [simp]: "((if P then None else Some x) = None) \<longleftrightarrow> P" for P and x :: fields by simp
  have "bindP (view_get cd ids i) (\<lambda>(item, body).
      if reference_update dir item j = None then ret None
      else bindP (view_prepare_update cd ids i [(lit ''refs'', f item)]) (\<lambda>p. ret (Some p))) w = (Inr q, w')"
    using assms(2) none
    by (cases dir) (simp_all add: view_prepare_link_def view_prepare_unlink_def f_def cong: if_cong)
  then obtain item body w1 where get: "view_get cd ids i w = (Inr (item, body), w1)"
    and rest: "(if reference_update dir item j = None then ret None
      else bindP (view_prepare_update cd ids i [(lit ''refs'', f item)]) (\<lambda>p. ret (Some p))) w1 = (Inr q, w')"
    by (auto simp: bindP_Inr_iff split: prod.splits)
  obtain b where b: "item_file i w = Some (Regular b)" "parse_item_bytes cd b = Inr (item, body)"
    using view_get_result [OF assms(1) get] by blast
  have "only_files {} False w w1" by (rule keepsD [OF keeps_view_get get])
  then have w1: "undisturbed w1" "item_file i w1 = Some (Regular b)" using assms(1) b by (simp_all add: only_files_def)
  show ?thesis
  proof (cases "reference_update dir item j")
    case None
    then show ?thesis using rest b by (simp add: referenced_bytes_def)
  next
    case (Some updates)
    then have u: "updates = [(lit ''refs'', f item)]" by (cases dir) (auto simp: f_def split: if_splits)
    obtain p where p: "view_prepare_update cd ids i updates w1 = (Inr p, w')" "q = Some p"
      using rest Some by (auto simp: bindP_Inr_iff u)
    then show ?thesis
      using prepare_update_result [OF w1(1) p(1)] b w1(2) Some by (auto simp: referenced_bytes_def bindR_Inr_iff)
  qed
qed

section \<open>The phases\<close>

definition others_same :: "pystr set \<Rightarrow> 'z ledger_brain_scheme \<Rightarrow> 'z ledger_brain_scheme \<Rightarrow> bool" where
  "others_same S w w' \<longleftrightarrow> (\<forall>i. i \<notin> S \<longrightarrow> item_file i w' = item_file i w)"

lemma others_same_trans: "others_same S w w' \<Longrightarrow> others_same S w' w'' \<Longrightarrow> others_same S w w''"
  by (simp add: others_same_def)

lemma others_same_refl [simp]: "others_same S w w"
  by (simp add: others_same_def)

lemma only_files_others: "only_files S L w w' \<Longrightarrow> undisturbed w \<Longrightarrow> undisturbed w' \<and> others_same S w w'"
  by (simp add: only_files_def others_same_def)

definition tx_files :: "transaction \<Rightarrow> pystr set" where
  "tx_files tx = {tx_obsolete tx, tx_replacement tx}"

definition holds_pair :: "transaction \<Rightarrow> pybytes \<Rightarrow> pybytes \<Rightarrow> 'z ledger_brain_scheme \<Rightarrow> bool" where
  "holds_pair tx old new w \<longleftrightarrow>
     item_file (tx_obsolete tx) w = Some (Regular old) \<and> item_file (tx_replacement tx) w = Some (Regular new)"

lemma pair_matches_result:
  assumes "undisturbed w" "pair_matches tx w = (Inr True, w')"
  shows "holds_pair tx (tx_old_bytes tx) (tx_new_bytes tx) w'"
proof -
  have "bindP (view_read_bytes (tx_ids tx) (tx_obsolete tx)) (\<lambda>b.
          if b \<noteq> tx_old_bytes tx then ret False
          else bindP (view_read_bytes (tx_ids tx) (tx_replacement tx)) (\<lambda>b. ret (b = tx_new_bytes tx))) w = (Inr True, w')"
    using assms(2) by (auto simp: pair_matches_def try_catch_def split: prod.splits sum.splits)
  then obtain w1 where one: "view_read_bytes (tx_ids tx) (tx_obsolete tx) w = (Inr (tx_old_bytes tx), w1)"
    and two: "view_read_bytes (tx_ids tx) (tx_replacement tx) w1 = (Inr (tx_new_bytes tx), w')"
    by (auto simp: bindP_Inr_iff split: if_splits)
  have "only_files {} False w w1" "only_files {} False w1 w'"
    by (rule keepsD [OF keeps_view_read one], rule keepsD [OF keeps_view_read two])
  then show ?thesis
    using view_read_result [OF assms(1) one] view_read_result [OF _ two] assms(1)
    by (simp add: holds_pair_def only_files_def)
qed

lemma keeps_pair_matches [keeps_rules]: "keeps (only_files S L) (pair_matches tx)"
  unfolding pair_matches_def by (intro keeps_rules)

lemma keeps_restore_pair [keeps_rules]: "keeps (only_files (tx_files tx) L) (restore_pair tx)"
  unfolding restore_pair_def ignore_errors_def split_def tx_files_def
  by (intro keeps_rules) simp_all

lemma restore_pair_result:
  assumes "undisturbed w" "restore_pair tx w = (Inr u, w')"
  shows "holds_pair tx (tx_old_bytes tx) (tx_new_bytes tx) w'"
proof -
  obtain w1 where "undisturbed w1" "pair_matches tx w1 = (Inr True, w')"
  proof -
    define before where "before = try_catch
         (bindP (view_read_bytes (tx_ids tx) (tx_obsolete tx)) (\<lambda>current_obsolete.
          bindP (view_read_bytes (tx_ids tx) (tx_replacement tx)) (\<lambda>current_replacement.
            ret (current_obsolete, current_replacement))))
         (\<lambda>e. raise RollbackFailed :: (lifecycle_brain, pybytes \<times> pybytes) prog)"
    define one where "one = bindP (ignore_errors (store_restore_raw (tx_obsolete tx) (tx_old_bytes tx)))
         (\<lambda>_. ignore_errors (store_restore_raw (tx_replacement tx) (tx_new_bytes tx)) :: (lifecycle_brain, unit) prog)"
    define two where "two = ignore_errors (restore_pair_snapshot (tx_snapshot tx) (tx_obsolete tx) (tx_replacement tx))"
    have "keeps (only_files (tx_files tx) False) before" "keeps (only_files (tx_files tx) False) one"
        "keeps (only_files (tx_files tx) False) two"
      unfolding before_def one_def two_def ignore_errors_def tx_files_def by (intro keeps_rules; simp)+
    then have q: "before w = (a, x) \<Longrightarrow> undisturbed w \<Longrightarrow> undisturbed x" "one w = (b, x) \<Longrightarrow> undisturbed w \<Longrightarrow> undisturbed x"
        "two w = (b, x) \<Longrightarrow> undisturbed w \<Longrightarrow> undisturbed x" "pair_matches tx w = (c, x) \<Longrightarrow> undisturbed w \<Longrightarrow> undisturbed x"
      for w x a b c
      by (auto dest!: keepsD keepsD [OF keeps_pair_matches [of "{}" False]] simp: only_files_def)
    have "bindP before (\<lambda>(current_obsolete, current_replacement).
       if current_obsolete \<notin> {tx_old_bytes tx, tx_produced_old tx}
          \<or> current_replacement \<notin> {tx_new_bytes tx, tx_produced_new tx}
       then raise RollbackFailed
       else bindP one (\<lambda>_. bindP (pair_matches tx) (\<lambda>restored.
         if restored then ret ()
         else bindP two (\<lambda>_. bindP (pair_matches tx) (\<lambda>restored.
           if restored then ret () else raise RollbackFailed))))) w = (Inr u, w')"
      using assms(2)
      by (simp add: restore_pair_def before_def one_def two_def bindP_assoc cong: if_cong)
    then show ?thesis
      using that assms(1) by (auto simp: bindP_Inr_iff split: prod.splits if_splits dest: q) (metis q)+
  qed
  then show ?thesis by (rule pair_matches_result)
qed

definition failed_rollback :: "supersession_result \<Rightarrow> bool" where
  "failed_rollback x \<longleftrightarrow> sr_status x = lit ''blocked'' \<and> sr_reason x = lit ''ROLLBACK_FAILED''"

lemma blocked_run_fields [simp]:
  "sr_status (blocked_run reason r_id o_id snap) = lit ''blocked''"
  "sr_reason (blocked_run reason r_id o_id snap) = lit reason"
  by (simp_all add: blocked_run_def result_of_def)

lemma keeps_rollback [keeps_rules]: "keeps (only_files (tx_files tx) True) (rollback_result env tx)"
  unfolding rollback_result_def by (intro keeps_rules)

lemma rollback_result_spec:
  assumes "undisturbed w" "rollback_result env tx w = (Inr x, w')"
  shows "case x of None \<Rightarrow> holds_pair tx (tx_old_bytes tx) (tx_new_bytes tx) w' | Some result \<Rightarrow> failed_rollback result"
proof -
  obtain r w1 where run: "restore_pair tx w = (r, w1)" by fastforce
  show ?thesis
  proof (cases r)
    case (Inl e)
    then show ?thesis using assms(2) run
      by (auto simp: rollback_result_def try_catch_def bindP_Inr_iff failed_rollback_def bindP_run split: if_splits)
  next
    case (Inr u)
    then show ?thesis using assms(2) run restore_pair_result [OF assms(1)]
      by (auto simp: rollback_result_def try_catch_def bindP_run)
  qed
qed

lemma keeps_mutate [keeps_rules]: "keeps (only_files (tx_files tx) L) (mutate_pair env tx)"
  unfolding mutate_pair_def Let_def tx_files_def by (intro keeps_rules) simp_all

lemma keeps_update_markdown [keeps_rules]: "keeps (only_files (tx_files tx) True) (update_markdown env tx)"
  unfolding update_markdown_def by (auto intro!: keeps_rules split: option.splits)

lemma mutate_result:
  assumes w: "undisturbed w" "item_file (tx_replacement tx) w = Some (Regular (tx_new_bytes tx))"
    and tx: "tx_obsolete tx \<noteq> tx_replacement tx" "tx_preexisted tx \<Longrightarrow> tx_produced_new tx = tx_new_bytes tx"
    and run: "mutate_pair env tx w = (Inr u, w')"
  shows "holds_pair tx (tx_produced_old tx) (tx_produced_new tx) w'"
proof -
  let ?o = "tx_obsolete tx" and ?r = "tx_replacement tx"
  obtain x w1 b w2 where update: "store_update_frontmatter (se_codec env) ?o (superseded_update (tx_direction tx) ?r) w = (Inr x, w1)"
    and read: "view_read_bytes (tx_ids tx) ?o w1 = (Inr b, w2)" and b: "b = tx_produced_old tx"
    and rest: "(if tx_preexisted tx then ret ()
      else bindP (change_reference (tx_direction tx) (se_codec env) ?r ?o) (\<lambda>_.
        bindP (view_read_bytes (tx_ids tx) ?r) (\<lambda>b. check (b = tx_produced_new tx) prepared_mismatch))) w2 = (Inr u, w')"
    using run by (auto simp: mutate_pair_def Let_def bindP_Inr_iff split: if_splits)
  have "only_files {?o} True w w1" by (rule keepsD [OF keeps_update_frontmatter update]) simp
  then have w1: "undisturbed w1" "item_file ?r w1 = Some (Regular (tx_new_bytes tx))"
    using w tx(1) by (simp_all add: only_files_def)
  have "only_files {} False w1 w2" by (rule keepsD [OF keeps_view_read read])
  then have w2: "undisturbed w2" "item_file ?r w2 = Some (Regular (tx_new_bytes tx))" "item_file ?o w2 = Some (Regular (tx_produced_old tx))"
    using w1 view_read_result [OF w1(1) read] b by (simp_all add: only_files_def)
  show ?thesis
  proof (cases "tx_preexisted tx")
    case True
    then show ?thesis using rest w2 tx(2) by (simp add: holds_pair_def)
  next
    case False
    then obtain y w3 c where change: "change_reference (tx_direction tx) (se_codec env) ?r ?o w2 = (Inr y, w3)"
      and read': "view_read_bytes (tx_ids tx) ?r w3 = (Inr c, w')" and c: "c = tx_produced_new tx"
      using rest by (auto simp: bindP_Inr_iff split: if_splits)
    have "only_files {?r} True w2 w3" by (rule keepsD [OF keeps_change_reference change]) simp
    then have w3: "undisturbed w3" "item_file ?o w3 = Some (Regular (tx_produced_old tx))"
      using w2 tx(1) by (simp_all add: only_files_def)
    have "only_files {} False w3 w'" by (rule keepsD [OF keeps_view_read read'])
    then show ?thesis using w3 view_read_result [OF w3(1) read'] c by (simp add: only_files_def holds_pair_def)
  qed
qed

lemma update_markdown_result:
  assumes w: "undisturbed w" "item_file (tx_replacement tx) w = Some (Regular (tx_new_bytes tx))"
    and tx: "tx_obsolete tx \<noteq> tx_replacement tx" "tx_preexisted tx \<Longrightarrow> tx_produced_new tx = tx_new_bytes tx"
    and run: "update_markdown env tx w = (Inr x, w')"
  shows "case x of
      None \<Rightarrow> holds_pair tx (tx_produced_old tx) (tx_produced_new tx) w' \<and> ledger_of w' = ledger_of w
    | Some result \<Rightarrow> sr_status result = lit ''blocked''
        \<and> (failed_rollback result \<or> holds_pair tx (tx_old_bytes tx) (tx_new_bytes tx) w')"
proof -
  obtain m w1 where mutate: "mutate_pair env tx w = (m, w1)" by fastforce
  have frame: "only_files (tx_files tx) False w w1" by (rule keepsD [OF keeps_mutate mutate])
  then have q1: "undisturbed w1" using w by (simp add: only_files_def)
  show ?thesis
  proof (cases m)
    case (Inr u)
    then show ?thesis using run mutate mutate_result [OF w tx mutate [unfolded Inr]] frame
      by (auto simp: update_markdown_def try_catch_def bindP_run only_files_def)
  next
    case (Inl e)
    then obtain y w2 where rolled: "rollback_result env tx w1 = (Inr y, w2)"
      and rest: "(case y of
           Some result \<Rightarrow> if e = Interrupted then raise e else ret (Some result)
         | None \<Rightarrow>
             bindP (record_blocked_best_effort env (action_name (tx_direction tx)) ''MARKDOWN_UPDATE_FAILED''
               (tx_obsolete tx) (tx_replacement tx) (Some (tx_snapshot tx)) (tx_preexisted tx)) (\<lambda>_.
             if e = Interrupted then raise e
             else ret (Some (blocked_run ''MARKDOWN_UPDATE_FAILED'' (tx_replacement tx) (tx_obsolete tx)
                    (Some (tx_snapshot tx)))))) w2 = (Inr x, w')"
      using run mutate by (auto simp: update_markdown_def try_catch_def bindP_run bindP_Inr_iff)
    note spec = rollback_result_spec [OF q1 rolled]
    have q2: "undisturbed w2" using keepsD [OF keeps_rollback rolled] q1 by (simp add: only_files_def)
    show ?thesis
    proof (cases y)
      case (Some result)
      then show ?thesis using rest spec by (auto simp: failed_rollback_def split: if_splits)
    next
      case None
      then obtain v where logged: "record_blocked_best_effort env (action_name (tx_direction tx)) ''MARKDOWN_UPDATE_FAILED''
               (tx_obsolete tx) (tx_replacement tx) (Some (tx_snapshot tx)) (tx_preexisted tx) w2 = (Inr v, w')"
        and x: "x = Some (blocked_run ''MARKDOWN_UPDATE_FAILED'' (tx_replacement tx) (tx_obsolete tx) (Some (tx_snapshot tx)))"
        using rest by (auto simp: bindP_Inr_iff split: if_splits)
      have "only_files {} True w2 w'" by (rule keepsD [OF keeps_record_blocked logged])
      then show ?thesis using x spec None q2 by (simp add: only_files_def holds_pair_def)
    qed
  qed
qed

text \<open>The record of a transaction that went through.\<close>

definition transaction_record :: "supersession_env \<Rightarrow> transaction \<Rightarrow> ledger_record" where
  "transaction_record env tx =
     \<lparr>rc_action = lit (action_name (tx_direction tx)), rc_timestamp = isoformat_utc (le_now (se_ledger env)),
      rc_status = lit (success_status (tx_direction tx)), rc_reason = lit ''OK'',
      rc_obsolete_id = tx_obsolete tx, rc_replacement_id = Some (tx_replacement tx),
      rc_snapshot = Some (tx_snapshot tx), rc_replacement_ref_preexisted = tx_preexisted tx,
      rc_deferred_until = None\<rparr>"

lemma append_result:
  assumes "append_lifecycle_record env r w = (Inr u, w')"
  shows "valid_record (le_fromisoformat env) r" "ledger_of w' = extend_ledger env r (le_payload_length env r) (ledger_of w)"
proof -
  have put: "ledger_of (put_ledger l w) = l" for l and w :: "'a ledger_brain_scheme"
    by (simp add: ledger_of_def put_ledger_def)
  have truncate: "truncate_ledger env r k e w \<noteq> (Inr u, w')" for k e w u and w' :: "'a ledger_brain_scheme"
    by (auto simp: truncate_ledger_def Let_def split: prod.splits fs_outcome.splits)
  obtain v w1 where open0: "fs_step (ret ()) w = (Inr v, w1)" and write0: "write_ledger env r w1 = (Inr u, w')"
    and valid: "valid_record (le_fromisoformat env) r"
    using assms by (auto simp: append_lifecycle_record_def bindP_Inr_iff split: if_splits)
  have "ledger_of w1 = ledger_of w"
    using open0 by (auto simp: fs_step_def dest: next_event_ledger split: prod.splits fs_outcome.splits)
  then show "ledger_of w' = extend_ledger env r (le_payload_length env r) (ledger_of w)"
    using write0 truncate
    by (auto simp: write_ledger_def Let_def put dest: next_event_ledger split: prod.splits fs_outcome.splits)
  show "valid_record (le_fromisoformat env) r" by (rule valid)
qed

lemma keeps_write_record [keeps_rules]: "keeps (only_files (tx_files tx) True) (write_record env tx)"
  unfolding write_record_def by (auto intro!: keeps_rules split: option.splits)

lemma write_record_result:
  assumes w: "undisturbed w" and run: "write_record env tx w = (Inr x, w')"
  shows "case x of
      None \<Rightarrow> (\<forall>i. item_file i w' = item_file i w) \<and> undisturbed w'
        \<and> valid_record (le_fromisoformat (se_ledger env)) (transaction_record env tx)
        \<and> ledger_of w' = extend_ledger (se_ledger env) (transaction_record env tx)
            (le_payload_length (se_ledger env) (transaction_record env tx)) (ledger_of w)
    | Some result \<Rightarrow> sr_status result = lit ''blocked''
        \<and> (failed_rollback result \<or> holds_pair tx (tx_old_bytes tx) (tx_new_bytes tx) w')"
proof -
  define logging where "logging = record_transaction env (action_name (tx_direction tx)) (success_status (tx_direction tx)) ''OK''
          (tx_obsolete tx) (tx_replacement tx) (Some (tx_snapshot tx)) (tx_preexisted tx)"
  have append: "logging = append_lifecycle_record (se_ledger env) (transaction_record env tx)"
    by (simp add: logging_def record_transaction_def transaction_record_def)
  obtain m w1 where rec: "logging w = (m, w1)" by fastforce
  have frame: "only_files {} True w w1"
    using keepsD [OF keeps_record rec [unfolded logging_def]] .
  then have q1: "undisturbed w1" using w by (simp add: only_files_def)
  show ?thesis
  proof (cases m)
    case (Inr u)
    then show ?thesis
      using run rec frame w append_result [OF rec [unfolded append Inr]]
      by (auto simp: write_record_def try_catch_def bindP_run only_files_def simp flip: logging_def)
  next
    case (Inl e)
    then obtain y w2 where rolled: "rollback_result env tx w1 = (Inr y, w2)"
      and x: "w' = w2" "x = Some (case y of Some result \<Rightarrow> result
           | None \<Rightarrow> blocked_run ''LEDGER_WRITE_FAILED'' (tx_replacement tx) (tx_obsolete tx) (Some (tx_snapshot tx)))"
      using run rec by (auto simp: write_record_def try_catch_def bindP_run bindP_Inr_iff simp flip: logging_def split: if_splits)
    show ?thesis using rollback_result_spec [OF q1 rolled] x by (auto simp: failed_rollback_def split: option.splits)
  qed
qed

definition success :: "direction \<Rightarrow> supersession_result \<Rightarrow> bool" where
  "success dir x \<longleftrightarrow> sr_status x = lit (success_status dir) \<and> sr_reason x = lit ''OK''"

lemma keeps_commit [keeps_rules]: "keeps (only_files (tx_files tx) True) (commit_pair env tx)"
  unfolding commit_pair_def by (auto intro!: keeps_rules split: option.splits)

lemma commit_result:
  assumes w: "undisturbed w" "item_file (tx_replacement tx) w = Some (Regular (tx_new_bytes tx))"
    and tx: "tx_obsolete tx \<noteq> tx_replacement tx" "tx_preexisted tx \<Longrightarrow> tx_produced_new tx = tx_new_bytes tx"
    and run: "commit_pair env tx w = (Inr x, w')"
  shows "sr_status x = lit ''blocked'' \<and> (failed_rollback x \<or> holds_pair tx (tx_old_bytes tx) (tx_new_bytes tx) w')
    \<or> success (tx_direction tx) x \<and> holds_pair tx (tx_produced_old tx) (tx_produced_new tx) w'
      \<and> valid_record (le_fromisoformat (se_ledger env)) (transaction_record env tx)
      \<and> ledger_of w' = extend_ledger (se_ledger env) (transaction_record env tx)
          (le_payload_length (se_ledger env) (transaction_record env tx)) (ledger_of w)"
proof -
  obtain y w1 where update: "update_markdown env tx w = (Inr y, w1)"
    and rest: "(case y of Some result \<Rightarrow> ret result
       | None \<Rightarrow> bindP (write_record env tx) (\<lambda>ended.
             case ended of
               Some result \<Rightarrow> ret result
             | None \<Rightarrow>
                 bindP (sync_index env (tx_replacement tx) (tx_obsolete tx)) (\<lambda>synced.
                   ret ((result_of (success_status (tx_direction tx)) ''OK'' (tx_replacement tx) (tx_obsolete tx))
                     \<lparr>sr_dry_run := False, sr_snapshot := Some (tx_snapshot tx),
                      sr_index_repair_required := \<not> synced\<rparr>)))) w1 = (Inr x, w')"
    using run by (auto simp: commit_pair_def bindP_Inr_iff)
  note markdown = update_markdown_result [OF w tx update]
  have q1: "undisturbed w1" using keepsD [OF keeps_update_markdown update] w by (simp add: only_files_def)
  show ?thesis
  proof (cases y)
    case (Some result)
    then show ?thesis using rest markdown by auto
  next
    case None
    then obtain z w2 where written: "write_record env tx w1 = (Inr z, w2)"
      and rest2: "(case z of Some result \<Rightarrow> ret result
         | None \<Rightarrow> bindP (sync_index env (tx_replacement tx) (tx_obsolete tx)) (\<lambda>synced.
                   ret ((result_of (success_status (tx_direction tx)) ''OK'' (tx_replacement tx) (tx_obsolete tx))
                     \<lparr>sr_dry_run := False, sr_snapshot := Some (tx_snapshot tx),
                      sr_index_repair_required := \<not> synced\<rparr>))) w2 = (Inr x, w')"
      using rest by (auto simp: bindP_Inr_iff)
    note logged = write_record_result [OF q1 written]
    show ?thesis
    proof (cases z)
      case (Some result)
      then show ?thesis using rest2 logged by auto
    next
      case no_result: None
      then obtain synced where sync: "sync_index env (tx_replacement tx) (tx_obsolete tx) w2 = (Inr synced, w')"
        and x: "x = (result_of (success_status (tx_direction tx)) ''OK'' (tx_replacement tx) (tx_obsolete tx))
                     \<lparr>sr_dry_run := False, sr_snapshot := Some (tx_snapshot tx), sr_index_repair_required := \<not> synced\<rparr>"
        using rest2 by (auto simp: bindP_Inr_iff)
      have "only_files {} False w2 w'" by (rule keepsD [OF keeps_sync sync])
      then show ?thesis
        using x logged markdown None no_result
        by (simp add: only_files_def holds_pair_def success_def result_of_def)
    qed
  qed
qed

text \<open>
  A committed transaction: both files hold the prepared bytes, computed from what they held, and the
  ledger got the record of the transaction. A supersession found the pair valid, and the obsolete
  memory not superseded.
\<close>

definition committed ::
  "supersession_env \<Rightarrow> direction \<Rightarrow> pystr \<Rightarrow> pystr \<Rightarrow> bool \<Rightarrow> lifecycle_brain \<Rightarrow> lifecycle_brain \<Rightarrow> bool" where
  "committed env dir r_id o_id preexisted w w' \<longleftrightarrow>
     (\<exists>old new produced_old produced_new snapshot.
        item_file o_id w = Some (Regular old) \<and> item_file r_id w = Some (Regular new)
        \<and> superseded_bytes dir (se_codec env) r_id o_id old = Inr produced_old
        \<and> (if preexisted then produced_new = new
           else referenced_bytes dir (se_codec env) r_id o_id new = Inr produced_new)
        \<and> item_file o_id w' = Some (Regular produced_old) \<and> item_file r_id w' = Some (Regular produced_new)
        \<and> (let entry = \<lparr>rc_action = lit (action_name dir), rc_timestamp = isoformat_utc (le_now (se_ledger env)),
              rc_status = lit (success_status dir), rc_reason = lit ''OK'', rc_obsolete_id = o_id,
              rc_replacement_id = Some r_id, rc_snapshot = Some snapshot,
              rc_replacement_ref_preexisted = preexisted, rc_deferred_until = None\<rparr>
           in valid_record (le_fromisoformat (se_ledger env)) entry
              \<and> ledger_of w' = extend_ledger (se_ledger env) entry
                  (le_payload_length (se_ledger env) entry) (ledger_of w)))"

definition pair_validated ::
  "supersession_env \<Rightarrow> direction \<Rightarrow> pystr \<Rightarrow> pystr \<Rightarrow> lifecycle_brain \<Rightarrow> bool" where
  "pair_validated env dir r_id o_id w \<longleftrightarrow>
     (\<exists>old new replacement obsolete body body' v v'.
        item_file o_id w = Some (Regular old) \<and> item_file r_id w = Some (Regular new)
        \<and> parse_item_bytes (se_codec env) new = Inr (replacement, body)
        \<and> parse_item_bytes (se_codec env) old = Inr (obsolete, body')
        \<and> mi_id replacement = r_id \<and> mi_id obsolete = o_id
        \<and> (if dir = Revert then mi_superseded_by obsolete = Some r_id
           else mi_superseded_by obsolete = None \<and> undisturbed v \<and> (\<forall>i. item_file i v = item_file i w)
             \<and> validate_pair env replacement obsolete v = (Inr ''OK'', v')))"

lemma revalidate_result:
  assumes "undisturbed w" "revalidate_locked_pair env ids dir r_id o_id new old w = (Inr True, w')"
  shows "pair_validated env dir r_id o_id w"
proof -
  define reads :: "(lifecycle_brain, (memory_item \<times> memory_item) option) prog" where "reads =
          bindP (view_read_bytes ids r_id) (\<lambda>b.
            if b \<noteq> new then ret None
            else bindP (view_read_bytes ids o_id) (\<lambda>b.
              if b \<noteq> old then ret None
              else bindP (view_get (se_codec env) ids r_id) (\<lambda>replacement.
                   bindP (view_get (se_codec env) ids o_id) (\<lambda>obsolete.
                     ret (Some (fst replacement, fst obsolete))))))"
  obtain pair w1 where "try_catch reads (\<lambda>e. if is_item_read_error e then ret None else raise e) w = (Inr pair, w1)"
    and rest: "(case pair of
          None \<Rightarrow> ret False
        | Some (replacement, obsolete) \<Rightarrow>
            if mi_id replacement \<noteq> r_id \<or> mi_id obsolete \<noteq> o_id then ret False
            else if dir = Revert then ret (mi_superseded_by obsolete = Some (mi_id replacement))
            else bindP (validate_pair env replacement obsolete) (\<lambda>reason.
                   ret (reason = ''OK'' \<and> mi_superseded_by obsolete = None))) w1 = (Inr True, w')"
    using assms(2) unfolding revalidate_locked_pair_def Let_def reads_def [symmetric] bindP_Inr_iff by blast
  then obtain replacement obsolete where run: "reads w = (Inr (Some (replacement, obsolete)), w1)"
    and pair: "pair = Some (replacement, obsolete)"
    by (auto simp: try_catch_def split: option.splits prod.splits sum.splits if_splits)
  obtain a w2 b w3 rep w4 obs where
    r: "view_read_bytes ids r_id w = (Inr a, w2)" "view_read_bytes ids o_id w2 = (Inr b, w3)"
       "view_get (se_codec env) ids r_id w3 = (Inr rep, w4)" "view_get (se_codec env) ids o_id w4 = (Inr obs, w1)"
    and items: "replacement = fst rep" "obsolete = fst obs"
    using run by (auto simp: reads_def bindP_Inr_iff split: if_splits)
  have frames: "only_files {} False w w2" "only_files {} False w2 w3" "only_files {} False w3 w4" "only_files {} False w4 w1"
    by (rule keepsD [OF keeps_view_read r(1)] keepsD [OF keeps_view_read r(2)]
        keepsD [OF keeps_view_get r(3)] keepsD [OF keeps_view_get r(4)])+
  then have q: "undisturbed w3" "undisturbed w4" "undisturbed w1" and same: "item_file i w3 = item_file i w"
      "item_file i w4 = item_file i w" "item_file i w1 = item_file i w" for i
    using assms(1) by (simp_all add: only_files_def)
  obtain new' old' where f: "item_file r_id w = Some (Regular new')" "parse_item_bytes (se_codec env) new' = Inr rep"
      "item_file o_id w = Some (Regular old')" "parse_item_bytes (se_codec env) old' = Inr obs"
    using view_get_result [OF q(1) r(3)] view_get_result [OF q(2) r(4)] same by auto
  have ids: "mi_id replacement = r_id" "mi_id obsolete = o_id"
    using rest pair by (auto split: if_splits)
  show ?thesis
    unfolding pair_validated_def
  proof (intro exI conjI)
    show "item_file o_id w = Some (Regular old')" "item_file r_id w = Some (Regular new')" using f by simp_all
    show "parse_item_bytes (se_codec env) new' = Inr (replacement, snd rep)"
      "parse_item_bytes (se_codec env) old' = Inr (obsolete, snd obs)" using f items by simp_all
    show "mi_id replacement = r_id" "mi_id obsolete = o_id" by (rule ids)+
    show "if dir = Revert then mi_superseded_by obsolete = Some r_id
           else mi_superseded_by obsolete = None \<and> undisturbed w1 \<and> (\<forall>i. item_file i w1 = item_file i w)
             \<and> validate_pair env replacement obsolete w1 = (Inr ''OK'', w')"
      using rest pair ids q same by (auto simp: bindP_Inr_iff)
  qed
qed


lemma keeps_prepare_and_commit [keeps_rules]:
  "keeps (only_files {o_id, r_id} True) (prepare_and_commit env ids dir r_id o_id pre old new s)"
proof -
  have "keeps (only_files {o_id, r_id} True) (commit_pair env tx)"
    if "tx_obsolete tx = o_id" "tx_replacement tx = r_id" for tx
    using keeps_commit [of tx env] that by (simp add: tx_files_def)
  then show ?thesis
    unfolding prepare_and_commit_def by (auto intro!: keeps_rules)
qed

lemma keeps_transact_saved [keeps_rules]:
  "keeps (only_files {o_id, r_id} True) (transact_saved env ids dir r_id o_id pre old new s)"
  unfolding transact_saved_def by (intro keeps_rules)

lemma keeps_save_pair [keeps_rules]: "keeps (only_files S L) (save_pair env i a j b)"
  unfolding save_pair_def by (intro keeps_rules)

lemma keeps_transact [keeps_rules]: "keeps (only_files {o_id, r_id} True) (transact env ids dir r_id o_id pre)"
  unfolding transact_def by (auto intro!: keeps_rules split: option.splits)

definition same_items :: "'z ledger_brain_scheme \<Rightarrow> 'z ledger_brain_scheme \<Rightarrow> bool" where
  "same_items w w' \<longleftrightarrow> (\<forall>i. item_file i w' = item_file i w)"

text \<open>How a transaction that returns can end.\<close>

definition ends_well ::
  "supersession_env \<Rightarrow> direction \<Rightarrow> pystr \<Rightarrow> pystr \<Rightarrow> bool \<Rightarrow> supersession_result \<Rightarrow> lifecycle_brain \<Rightarrow> lifecycle_brain \<Rightarrow> bool" where
  "ends_well env dir r_id o_id pre x w w' \<longleftrightarrow>
     sr_status x = lit ''blocked'' \<and> (failed_rollback x \<or> same_items w w')
     \<or> success dir x \<and> pair_validated env dir r_id o_id w \<and> committed env dir r_id o_id pre w w'"

lemma ends_well_same:
  assumes "same_items w w1" "ledger_of w1 = ledger_of w" "ends_well env dir r_id o_id pre x w1 w'"
  shows "ends_well env dir r_id o_id pre x w w'"
  using assms unfolding ends_well_def same_items_def pair_validated_def committed_def by (simp cong: if_cong)

lemma frame_unchanged: "only_files {} False w w' \<Longrightarrow> undisturbed w \<Longrightarrow> undisturbed w' \<and> same_items w w' \<and> ledger_of w' = ledger_of w"
  by (simp add: only_files_def same_items_def)

lemma commit_ends_well:
  assumes w: "undisturbed w" "o_id \<noteq> r_id" "pair_validated env dir r_id o_id w"
    and bytes: "item_file o_id w = Some (Regular old)" "item_file r_id w = Some (Regular new)"
    and produced: "superseded_bytes dir (se_codec env) r_id o_id old = Inr produced_old"
      "if pre then produced_new = new else referenced_bytes dir (se_codec env) r_id o_id new = Inr produced_new"
    and run: "commit_pair env \<lparr>tx_ids = ids, tx_direction = dir, tx_replacement = r_id, tx_obsolete = o_id,
        tx_preexisted = pre, tx_old_bytes = old, tx_new_bytes = new, tx_snapshot = s,
        tx_produced_old = produced_old, tx_produced_new = produced_new\<rparr> w = (Inr x, w')"
  shows "ends_well env dir r_id o_id pre x w w'"
proof -
  define tx where "tx = \<lparr>tx_ids = ids, tx_direction = dir, tx_replacement = r_id, tx_obsolete = o_id,
        tx_preexisted = pre, tx_old_bytes = old, tx_new_bytes = new, tx_snapshot = s,
        tx_produced_old = produced_old, tx_produced_new = produced_new\<rparr>"
  have sel: "tx_replacement tx = r_id" "tx_obsolete tx = o_id" "tx_direction tx = dir" "tx_preexisted tx = pre"
      "tx_old_bytes tx = old" "tx_new_bytes tx = new" "tx_produced_old tx = produced_old"
      "tx_produced_new tx = produced_new" "tx_snapshot tx = s"
    by (simp_all add: tx_def)
  have "only_files {o_id, r_id} True w w'"
    using keepsD [OF keeps_commit run [folded tx_def]] by (simp add: tx_files_def sel)
  then have others: "\<And>i. i \<notin> {o_id, r_id} \<Longrightarrow> item_file i w' = item_file i w"
    using w(1) by (simp add: only_files_def)
  have old: "holds_pair tx old new w' \<Longrightarrow> same_items w w'"
    using others bytes unfolding same_items_def holds_pair_def sel by (metis insertE singletonD)
  have "pre \<Longrightarrow> tx_produced_new tx = tx_new_bytes tx" using produced(2) by (simp add: sel)
  then have "sr_status x = lit ''blocked'' \<and> (failed_rollback x \<or> holds_pair tx old new w')
    \<or> success dir x \<and> holds_pair tx produced_old produced_new w'
      \<and> valid_record (le_fromisoformat (se_ledger env)) (transaction_record env tx)
      \<and> ledger_of w' = extend_ledger (se_ledger env) (transaction_record env tx)
          (le_payload_length (se_ledger env) (transaction_record env tx)) (ledger_of w)"
    using commit_result [OF w(1) _ _ _ run [folded tx_def]] bytes w(2) by (simp add: sel)
  moreover have "committed env dir r_id o_id pre w w'"
    if "holds_pair tx produced_old produced_new w'"
      "valid_record (le_fromisoformat (se_ledger env)) (transaction_record env tx)"
      "ledger_of w' = extend_ledger (se_ledger env) (transaction_record env tx)
          (le_payload_length (se_ledger env) (transaction_record env tx)) (ledger_of w)"
    unfolding committed_def
    by (rule exI [of _ old], rule exI [of _ new], rule exI [of _ produced_old], rule exI [of _ produced_new], rule exI [of _ s])
      (use that bytes produced in \<open>simp add: holds_pair_def transaction_record_def sel\<close>)
  ultimately show ?thesis unfolding ends_well_def using old w(3) by blast
qed

lemma same_items_trans [trans]: "same_items w w1 \<Longrightarrow> same_items w1 w2 \<Longrightarrow> same_items w w2"
  by (simp add: same_items_def)

lemma prepare_and_commit_ends_well:
  assumes w: "undisturbed w" "o_id \<noteq> r_id" "pair_validated env dir r_id o_id w"
    and bytes: "item_file o_id w = Some (Regular old)" "item_file r_id w = Some (Regular new)"
    and run: "prepare_and_commit env ids dir r_id o_id pre old new s w = (Inr x, w')"
  shows "ends_well env dir r_id o_id pre x w w'"
proof -
  obtain p w1 q w2 where p: "view_prepare_update (se_codec env) ids o_id (superseded_update dir r_id) w = (Inr p, w1)"
    and q: "(if pre then ret None else prepare_reference dir (se_codec env) ids r_id o_id) w1 = (Inr q, w2)"
    and commit: "commit_pair env
       \<lparr>tx_ids = ids, tx_direction = dir, tx_replacement = r_id, tx_obsolete = o_id, tx_preexisted = pre,
        tx_old_bytes = old, tx_new_bytes = new, tx_snapshot = s, tx_produced_old = pm_data p,
        tx_produced_new = (case q of None \<Rightarrow> new | Some p \<Rightarrow> pm_data p)\<rparr> w2 = (Inr x, w')"
    using run by (auto simp: prepare_and_commit_def bindP_Inr_iff)
  note f1 = frame_unchanged [OF keepsD [OF keeps_prepare_update p] w(1)]
  then have q1: "undisturbed w1" by simp
  have "keeps (only_files {} False) (if pre then ret None else prepare_reference dir (se_codec env) ids r_id o_id)"
    by (intro keeps_rules)
  then have "only_files {} False w1 w2" using q by (rule keepsD)
  note f2 = frame_unchanged [OF this q1]
  have same: "same_items w w2" "ledger_of w2 = ledger_of w" using f1 f2 by (auto intro: same_items_trans)
  have "ends_well env dir r_id o_id pre x w2 w'"
  proof (rule commit_ends_well [OF _ w(2) _ _ _ _ _ commit])
    show "undisturbed w2" using f2 by simp
    show "pair_validated env dir r_id o_id w2"
      using w(3) same by (simp add: pair_validated_def same_items_def cong: if_cong)
    show "item_file o_id w2 = Some (Regular old)" "item_file r_id w2 = Some (Regular new)"
      using bytes same by (simp_all add: same_items_def)
    show "superseded_bytes dir (se_codec env) r_id o_id old = Inr (pm_data p)"
      using prepare_update_result [OF w(1) p] bytes by (auto simp: superseded_bytes_def bindR_Inr_iff)
    show "if pre then (case q of None \<Rightarrow> new | Some p \<Rightarrow> pm_data p) = new
      else referenced_bytes dir (se_codec env) r_id o_id new = Inr (case q of None \<Rightarrow> new | Some p \<Rightarrow> pm_data p)"
      using prepare_reference_result [OF q1, of dir "se_codec env" ids r_id o_id q w2] q bytes f1
      by (auto simp: same_items_def)
  qed
  then show ?thesis by (rule ends_well_same [OF same])
qed

lemma transact_saved_ends_well:
  assumes w: "undisturbed w" "o_id \<noteq> r_id"
    and bytes: "item_file o_id w = Some (Regular old)" "item_file r_id w = Some (Regular new)"
    and run: "transact_saved env ids dir r_id o_id pre old new s w = (Inr x, w')"
  shows "ends_well env dir r_id o_id pre x w w'"
proof -
  obtain valid w1 where revalidated: "revalidate_locked_pair env ids dir r_id o_id new old w = (Inr valid, w1)"
    and rest: "(if \<not> valid then
         bindP (record_blocked_best_effort env (action_name dir) ''CONCURRENT_MODIFICATION'' o_id r_id (Some s) pre) (\<lambda>_.
         ret (blocked_run ''CONCURRENT_MODIFICATION'' r_id o_id (Some s)))
       else prepare_and_commit env ids dir r_id o_id pre old new s) w1 = (Inr x, w')"
    using run by (auto simp: transact_saved_def bindP_Inr_iff)
  note f = frame_unchanged [OF keepsD [OF keeps_revalidate revalidated] w(1)]
  then have same: "same_items w w1" "ledger_of w1 = ledger_of w" and q: "undisturbed w1" by simp_all
  show ?thesis
  proof (cases valid)
    case False
    then obtain u where "record_blocked_best_effort env (action_name dir) ''CONCURRENT_MODIFICATION'' o_id r_id (Some s) pre w1 = (Inr u, w')"
      and x: "x = blocked_run ''CONCURRENT_MODIFICATION'' r_id o_id (Some s)"
      using rest by (auto simp: bindP_Inr_iff)
    then have "only_files {} True w1 w'" by (auto dest: keepsD [OF keeps_record_blocked])
    then show ?thesis using x same q by (simp add: ends_well_def only_files_def same_items_def)
  next
    case True
    have "pair_validated env dir r_id o_id w" using revalidate_result [OF w(1)] revalidated True by simp
    then have "pair_validated env dir r_id o_id w1"
      using same by (simp add: pair_validated_def same_items_def cong: if_cong)
    then have "ends_well env dir r_id o_id pre x w1 w'"
      using prepare_and_commit_ends_well [OF q w(2)] bytes same rest True by (simp add: same_items_def)
    then show ?thesis by (rule ends_well_same [OF same])
  qed
qed

lemma transact_result:
  assumes w: "undisturbed w" "o_id \<noteq> r_id" and run: "transact env ids dir r_id o_id pre w = (Inr x, w')"
  shows "ends_well env dir r_id o_id pre x w w'"
proof -
  obtain old w1 new w2 snap w3 where old: "view_read_bytes ids o_id w = (Inr old, w1)"
    and new: "view_read_bytes ids r_id w1 = (Inr new, w2)"
    and saved: "save_pair env o_id old r_id new w2 = (Inr snap, w3)"
    and rest: "(case snap of
         None \<Rightarrow> ret (blocked_run ''SNAPSHOT_FAILED'' r_id o_id None)
       | Some s \<Rightarrow> transact_saved env ids dir r_id o_id pre old new s) w3 = (Inr x, w')"
    using run by (auto simp: transact_def bindP_Inr_iff)
  note f1 = frame_unchanged [OF keepsD [OF keeps_view_read old] w(1)]
  then have q1: "undisturbed w1" by simp
  note f2 = frame_unchanged [OF keepsD [OF keeps_view_read new] q1]
  then have q2: "undisturbed w2" by simp
  note f3 = frame_unchanged [OF keepsD [OF keeps_save_pair saved] q2]
  have same: "same_items w w3" "ledger_of w3 = ledger_of w" using f1 f2 f3 by (auto intro: same_items_trans)
  have "ends_well env dir r_id o_id pre x w3 w'"
  proof (cases snap)
    case None
    then show ?thesis using rest by (auto simp: ends_well_def same_items_def)
  next
    case (Some s)
    then show ?thesis
      using transact_saved_ends_well [of w3, OF _ w(2)] rest f3 same
        view_read_result [OF w(1) old] view_read_result [OF q1 new] f1 by (simp add: same_items_def)
  qed
  then show ?thesis by (rule ends_well_same [OF same])
qed

end
