(* ===== verification/SupersessionRuns.thy ===== *)
theory SupersessionRuns imports SupersessionLaws begin

text \<open>
  Runs of \<open>apply\<close> and \<open>revert\<close> in a state that nobody else edits: what a preview that does not block has
  read, and how a run that returns can end. The two operations are one run in two directions.
\<close>

section \<open>Runs\<close>

fun run_supersession ::
  "direction \<Rightarrow> supersession_env \<Rightarrow> pystr \<Rightarrow> pystr \<Rightarrow> bool \<Rightarrow> (lifecycle_brain, supersession_result) prog" where
  "run_supersession Supersede env r_id o_id apply_now = apply_supersession env r_id o_id apply_now"
| "run_supersession Revert env r_id o_id apply_now = revert_supersession env r_id o_id apply_now"

fun preview_of :: "direction \<Rightarrow> supersession_env \<Rightarrow> pystr \<Rightarrow> pystr \<Rightarrow> (lifecycle_brain, supersession_result) prog" where
  "preview_of Supersede env r_id o_id = preview_current env r_id o_id"
| "preview_of Revert env r_id o_id = preview_revert_current env r_id o_id"

lemma keeps_preview_of [keeps_rules]: "keeps (only_files S L) (preview_of dir env r_id o_id)"
  by (cases dir) (simp_all add: keeps_rules)

lemma result_of_fields [simp]:
  "sr_status (result_of status reason r_id o_id) = lit status"
  "sr_reason (result_of status reason r_id o_id) = lit reason"
  "sr_status (executed x) = sr_status x" "sr_reason (executed x) = sr_reason x"
  by (simp_all add: result_of_def executed_def)

text \<open>The memory under an id, if its file can be read and is its own.\<close>

definition memory_at :: "supersession_env \<Rightarrow> 'z brain_scheme \<Rightarrow> pystr \<Rightarrow> memory_item option" where
  "memory_at env w i =
     (case item_file i w of
        Some (Regular b) \<Rightarrow>
          (case parse_item_bytes (se_codec env) b of
             Inr (item, body) \<Rightarrow> if mi_id item = i then Some item else None
           | Inl _ \<Rightarrow> None)
      | _ \<Rightarrow> None)"

lemma memory_atI:
  "item_file i w = Some (Regular b) \<Longrightarrow> parse_item_bytes (se_codec env) b = Inr (item, body) \<Longrightarrow> mi_id item = i
    \<Longrightarrow> memory_at env w i = Some item"
  by (simp add: memory_at_def)

lemma memory_at_unchanged: "same_items w w' \<Longrightarrow> memory_at env w' = memory_at env w"
  by (rule ext) (simp add: memory_at_def same_items_def)

lemma load_item_memory:
  "undisturbed w \<Longrightarrow> load_item env i w = (Inr (Loaded item), w') \<Longrightarrow> memory_at env w i = Some item"
  using load_item_result [of w env i item w'] by (auto intro: memory_atI)

text \<open>A preview that does not block has read the two memories, under their own ids.\<close>

lemma preview_pair_loaded:
  assumes w: "undisturbed w" and run: "preview_pair env r_id o_id decide w = (Inr p, w')"
    and p: "sr_status p \<noteq> lit ''blocked''"
  shows "is_valid_memory_item_id r_id" "is_valid_memory_item_id o_id" "r_id \<noteq> o_id"
    "memory_at env w r_id \<noteq> None" "memory_at env w o_id \<noteq> None"
proof -
  show ids: "is_valid_memory_item_id r_id" "is_valid_memory_item_id o_id" "r_id \<noteq> o_id"
    using run p by (auto simp: preview_pair_def Let_def split: if_splits)
  obtain x w0 where x: "load_item env r_id w = (Inr x, w0)"
    and rest: "(case x of
             Loaded replacement \<Rightarrow>
               bindP (load_item env o_id) (\<lambda>loaded.
                 case loaded of
                   Loaded obsolete \<Rightarrow> decide replacement obsolete
                 | failed \<Rightarrow> ret (result_of ''blocked'' (load_failure failed) r_id o_id))
           | failed \<Rightarrow> ret (result_of ''blocked'' (load_failure failed) r_id o_id)) w0 = (Inr p, w')"
    using run ids by (auto simp: preview_pair_def Let_def bindP_Inr_iff)
  obtain replacement where a: "x = Loaded replacement" using rest p by (auto split: item_load.splits)
  obtain y w1 where y: "load_item env o_id w0 = (Inr y, w1)"
    and rest: "(case y of Loaded obsolete \<Rightarrow> decide replacement obsolete
                 | failed \<Rightarrow> ret (result_of ''blocked'' (load_failure failed) r_id o_id)) w1 = (Inr p, w')"
    using rest a by (auto simp: bindP_Inr_iff)
  obtain obsolete where b: "y = Loaded obsolete" using rest p by (auto split: item_load.splits)
  note f0 = frame_unchanged [OF keepsD [OF keeps_load_item x] w]
  then have q0: "undisturbed w0" by simp
  show "memory_at env w r_id \<noteq> None" using load_item_memory [OF w x [unfolded a]] by simp
  show "memory_at env w o_id \<noteq> None"
    using load_item_memory [OF q0 y [unfolded b]] f0 memory_at_unchanged [of w w0 env] by simp
qed

lemma preview_loaded:
  assumes "undisturbed w" "preview_of dir env r_id o_id w = (Inr p, w')" "sr_status p \<noteq> lit ''blocked''"
  shows "is_valid_memory_item_id r_id" "is_valid_memory_item_id o_id" "r_id \<noteq> o_id"
    "memory_at env w r_id \<noteq> None" "memory_at env w o_id \<noteq> None"
proof -
  obtain decide where "preview_of dir env r_id o_id = preview_pair env r_id o_id decide"
    by (cases dir) (auto simp: preview_current_def preview_revert_current_def)
  then show "is_valid_memory_item_id r_id" "is_valid_memory_item_id o_id" "r_id \<noteq> o_id"
    "memory_at env w r_id \<noteq> None" "memory_at env w o_id \<noteq> None"
    using preview_pair_loaded [OF assms(1) _ assms(3)] assms(2) by simp_all
qed

text \<open>\<open>returns P m\<close>: what \<open>m\<close> returns satisfies \<open>P\<close>, whatever the state.\<close>

definition returns :: "('a \<Rightarrow> bool) \<Rightarrow> ('w, 'a) prog \<Rightarrow> bool" where
  "returns P m \<longleftrightarrow> (\<forall>w a w'. m w = (Inr a, w') \<longrightarrow> P a)"

lemma returns_ret: "P a \<Longrightarrow> returns P (ret a)"
  by (simp add: returns_def)

lemma returns_bindP: "(\<And>a. returns P (f a)) \<Longrightarrow> returns P (bindP m f)"
  by (auto simp: returns_def bindP_Inr_iff)

lemma returns_if: "(b \<Longrightarrow> returns P m) \<Longrightarrow> (\<not> b \<Longrightarrow> returns P n) \<Longrightarrow> returns P (if b then m else n)"
  by simp

lemma returns_load: 
  "(\<And>item. x = Loaded item \<Longrightarrow> returns P (f item)) \<Longrightarrow> (x = Missing \<Longrightarrow> returns P m) \<Longrightarrow> (x = Invalid \<Longrightarrow> returns P n)
    \<Longrightarrow> returns P (case x of Loaded item \<Rightarrow> f item | Missing \<Rightarrow> m | Invalid \<Rightarrow> n)"
  by (cases x) simp_all

lemmas returns_rules = returns_if returns_load returns_bindP returns_ret

lemma load_failure_reasons: "load_failure x \<in> {''ITEM_MISSING'', ''ITEM_INVALID''}"
  by (simp add: load_failure_def)

lemma returns_preview_pair:
  assumes "\<And>a b. returns P (decide a b)"
    "\<And>reason. reason \<in> {''INVALID_ITEM_ID'', ''SELF_SUPERSESSION'', ''ITEM_MISSING'', ''ITEM_INVALID''}
      \<Longrightarrow> P (result_of ''blocked'' reason r_id o_id)"
  shows "returns P (preview_pair env r_id o_id decide)"
proof -
  have "P (result_of ''blocked'' (load_failure x) r_id o_id)" for x
    using load_failure_reasons [of x] assms(2) by blast
  then show ?thesis
    unfolding preview_pair_def Let_def using assms by (intro returns_rules) blast+
qed

lemma preview_status:
  "returns (\<lambda>p. sr_status p \<in> {lit ''blocked'', lit ''ready'', lit ''already_applied''}) (preview_current env r_id o_id)"
  unfolding preview_current_def by (rule returns_preview_pair, (intro returns_rules; simp), simp)

lemma preview_revert_status:
  "returns (\<lambda>p. sr_status p \<in> {lit ''blocked'', lit ''ready''}) (preview_revert_current env r_id o_id)"
  unfolding preview_revert_current_def by (rule returns_preview_pair, (intro returns_rules; simp), simp)

lemma preview_status_of:
  assumes "preview_of dir env r_id o_id w = (Inr p, w')"
  shows "sr_status p = lit ''blocked'' \<or> sr_status p = lit ''ready'' \<or> dir = Supersede \<and> sr_status p = lit ''already_applied''"
  using assms preview_status [of env r_id o_id] preview_revert_status [of env r_id o_id]
  unfolding returns_def by (cases dir) fastforce+

lemma preview_frame:
  "undisturbed w \<Longrightarrow> preview_of dir env r_id o_id w = (x, w') \<Longrightarrow> undisturbed w' \<and> same_items w w' \<and> ledger_of w' = ledger_of w"
  by (rule frame_unchanged [OF keepsD [OF keeps_preview_of]])

lemma locks_frame: "undisturbed w \<Longrightarrow> acquire_locks w = (x, w') \<Longrightarrow> undisturbed w' \<and> same_items w w' \<and> ledger_of w' = ledger_of w"
  by (rule frame_unchanged [OF keepsD [of _ acquire_locks]]) (simp_all add: acquire_locks_def keeps_rules)

section \<open>How runs end\<close>

text \<open>The reading of the pair that a transaction starts from; the transaction knows whether the reference was there.\<close>

definition transact_pair ::
  "direction \<Rightarrow> supersession_env \<Rightarrow> pystr \<Rightarrow> pystr \<Rightarrow> (lifecycle_brain, supersession_result) prog" where
  "transact_pair dir env r_id o_id =
     bindP (view_get (se_codec env) [r_id, o_id] r_id) (\<lambda>replacement.
     bindP (view_get (se_codec env) [r_id, o_id] o_id) (\<lambda>obsolete.
       case dir of
         Supersede \<Rightarrow> transact env [r_id, o_id] Supersede (mi_id (fst replacement)) (mi_id (fst obsolete))
           (mi_id (fst obsolete) \<in> set (rf_mems (mi_refs (fst replacement))))
       | Revert \<Rightarrow>
           bindP (latest_applied_supersession_record (se_ledger env)
                    (mi_id (fst replacement)) (mi_id (fst obsolete))) (\<lambda>applied.
             transact env [r_id, o_id] Revert (mi_id (fst replacement)) (mi_id (fst obsolete))
               (case applied of None \<Rightarrow> True | Some r \<Rightarrow> rc_replacement_ref_preexisted r))))"

definition after_preview ::
  "direction \<Rightarrow> supersession_env \<Rightarrow> (lifecycle_brain, supersession_result) prog \<Rightarrow> supersession_result
   \<Rightarrow> (lifecycle_brain, supersession_result) prog" where
  "after_preview dir env proceed p =
     (if dir = Supersede \<and> sr_status p = lit ''already_applied'' then already_applied_with_index_sync env p
      else if sr_status p \<noteq> lit ''ready'' then ret (executed p)
      else proceed)"

lemma run_supersession_eq:
  "run_supersession dir env r_id o_id True =
     (if \<not> (is_valid_memory_item_id r_id \<and> is_valid_memory_item_id o_id)
        then bindP (preview_of dir env r_id o_id) (\<lambda>p. ret (executed p))
      else if \<not> se_capable env then ret (executed (result_of ''blocked'' ''PLATFORM_UNSUPPORTED'' r_id o_id))
      else bindP acquire_locks (\<lambda>_. bindP (preview_of dir env r_id o_id) (after_preview dir env
             (bindP (preview_of dir env r_id o_id) (after_preview dir env (transact_pair dir env r_id o_id))))))"
  by (cases dir)
    (simp_all add: apply_supersession_def revert_supersession_def Let_def after_preview_def [abs_def] transact_pair_def
      cong: if_cong)

lemma keeps_already_applied [keeps_rules]: "keeps (only_files S L) (already_applied_with_index_sync env p)"
  unfolding already_applied_with_index_sync_def by (intro keeps_rules)

lemma already_applied_status:
  "already_applied_with_index_sync env p w = (Inr x, w') \<Longrightarrow> sr_status x = sr_status p"
  by (auto simp: already_applied_with_index_sync_def bindP_Inr_iff)

lemma after_preview_ends:
  assumes w: "undisturbed w" and p: "preview_of dir env r_id o_id w0 = (Inr p, w)"
    and run: "after_preview dir env proceed p w = (Inr x, w')"
  shows "same_items w w' \<and> ledger_of w' = ledger_of w
      \<and> (sr_status x = lit ''blocked'' \<or> dir = Supersede \<and> sr_status x = lit ''already_applied'')
    \<or> sr_status p = lit ''ready'' \<and> proceed w = (Inr x, w')"
proof (cases "dir = Supersede \<and> sr_status p = lit ''already_applied''")
  case True
  then have sync: "already_applied_with_index_sync env p w = (Inr x, w')" using run by (simp add: after_preview_def)
  then show ?thesis
    using frame_unchanged [OF keepsD [OF keeps_already_applied sync] w] already_applied_status [OF sync] True by simp
next
  case False
  then show ?thesis
    using run preview_status_of [OF p] by (auto simp: after_preview_def same_items_def split: if_splits)
qed

lemma run_cases:
  assumes w: "undisturbed w" and run: "run_supersession dir env r_id o_id True w = (Inr x, w')"
  shows "same_items w w' \<and> ledger_of w' = ledger_of w
      \<and> (sr_status x = lit ''blocked'' \<or> dir = Supersede \<and> sr_status x = lit ''already_applied'')
    \<or> (\<exists>p w0 w1. preview_of dir env r_id o_id w0 = (Inr p, w1) \<and> sr_status p = lit ''ready'' \<and> undisturbed w0 \<and> same_items w w0
      \<and> undisturbed w1 \<and> same_items w w1 \<and> ledger_of w1 = ledger_of w \<and> transact_pair dir env r_id o_id w1 = (Inr x, w'))"
proof -
  consider (invalid) "\<not> (is_valid_memory_item_id r_id \<and> is_valid_memory_item_id o_id)"
    | (incapable) "is_valid_memory_item_id r_id \<and> is_valid_memory_item_id o_id" "\<not> se_capable env"
    | (locked) "is_valid_memory_item_id r_id \<and> is_valid_memory_item_id o_id" "se_capable env" by blast
  then show ?thesis
  proof cases
    case invalid
    then obtain p where p: "preview_of dir env r_id o_id w = (Inr p, w')" and x: "x = executed p"
      using run by (auto simp: run_supersession_eq bindP_Inr_iff)
    then have "sr_status p = lit ''blocked''" using preview_loaded(1,2) [OF w p] invalid by blast
    then show ?thesis using preview_frame [OF w p] x by simp
  next
    case incapable
    then show ?thesis using run by (auto simp: run_supersession_eq same_items_def)
  next
    case locked
    obtain u w1 p w2 where locks: "acquire_locks w = (Inr u, w1)" and p: "preview_of dir env r_id o_id w1 = (Inr p, w2)"
      and rest: "after_preview dir env
             (bindP (preview_of dir env r_id o_id) (after_preview dir env (transact_pair dir env r_id o_id))) p w2 = (Inr x, w')"
      using run locked by (auto simp: run_supersession_eq bindP_Inr_iff)
    note f1 = locks_frame [OF w locks]
    then have q1: "undisturbed w1" by simp
    note f2 = preview_frame [OF q1 p]
    then have q2: "undisturbed w2" by simp
    have s2: "same_items w w2" "ledger_of w2 = ledger_of w" using f1 f2 by (auto intro: same_items_trans)
    from after_preview_ends [OF q2 p rest] show ?thesis
    proof
      assume "same_items w2 w' \<and> ledger_of w' = ledger_of w2
        \<and> (sr_status x = lit ''blocked'' \<or> dir = Supersede \<and> sr_status x = lit ''already_applied'')"
      then show ?thesis using s2 by (auto intro: same_items_trans)
    next
      assume "sr_status p = lit ''ready'' \<and>
        bindP (preview_of dir env r_id o_id) (after_preview dir env (transact_pair dir env r_id o_id)) w2 = (Inr x, w')"
      then obtain c w3 where c: "preview_of dir env r_id o_id w2 = (Inr c, w3)"
        and rest: "after_preview dir env (transact_pair dir env r_id o_id) c w3 = (Inr x, w')"
        by (auto simp: bindP_Inr_iff)
      note f3 = preview_frame [OF q2 c]
      then have q3: "undisturbed w3" by simp
      have s3: "same_items w w3" "ledger_of w3 = ledger_of w" using s2 f3 by (auto intro: same_items_trans)
      from after_preview_ends [OF q3 c rest] show ?thesis
        using s3 c q2 q3 s2 by (auto intro: same_items_trans)
    qed
  qed
qed

text \<open>
  \<open>pre\<close> is whether the reference was there before the supersession: as the replacement says; a reversal
  takes the reference away only when the ledger's last record of the pair says that it was not.
\<close>

definition preexisted :: "direction \<Rightarrow> supersession_env \<Rightarrow> pystr \<Rightarrow> pystr \<Rightarrow> lifecycle_brain \<Rightarrow> bool \<Rightarrow> bool" where
  "preexisted dir env r_id o_id w pre \<longleftrightarrow>
     (case dir of
        Supersede \<Rightarrow> \<exists>item. memory_at env w r_id = Some item \<and> pre = (o_id \<in> set (rf_mems (mi_refs item)))
      | Revert \<Rightarrow> pre \<or> (\<exists>r. latest_applied (le_fromisoformat (se_ledger env)) r_id o_id (rev (lb_ledger w)) = Some r
            \<and> \<not> rc_replacement_ref_preexisted r))"

lemma latest_result:
  assumes "latest_applied_supersession_record env r_id o_id w = (Inr (Some r), w')"
  shows "latest_applied (le_fromisoformat env) r_id o_id (rev (lb_ledger w)) = Some r"
proof -
  have "lb_ledger w1 = lb_ledger w" if "next_event w = (event, w1)" for event w1
    using next_event_ledger [OF that] by (simp add: ledger_of_def)
  then show ?thesis
    using assms
    by (auto simp: latest_applied_supersession_record_def try_catch_def fs_step_def
        split: prod.splits fs_outcome.splits sum.splits if_splits)
qed

lemma view_get_memory:
  assumes "undisturbed w" "memory_at env w i \<noteq> None" "view_get (se_codec env) ids i w = (Inr x, w')"
  shows "memory_at env w i = Some (fst x)" "mi_id (fst x) = i"
  using assms(2) view_get_result [OF assms(1,3)]
  by (auto simp: memory_at_def split: option.splits item_entry.splits sum.splits if_splits prod.splits)

lemma transact_pair_result:
  assumes w: "undisturbed w" "r_id \<noteq> o_id" "memory_at env w r_id \<noteq> None" "memory_at env w o_id \<noteq> None"
    and run: "transact_pair dir env r_id o_id w = (Inr x, w')"
  shows "\<exists>pre. preexisted dir env r_id o_id w pre \<and> ends_well env dir r_id o_id pre x w w' \<and> others_same {o_id, r_id} w w'"
proof -
  obtain a w1 b w2 where a: "view_get (se_codec env) [r_id, o_id] r_id w = (Inr a, w1)"
    and b: "view_get (se_codec env) [r_id, o_id] o_id w1 = (Inr b, w2)"
    and rest: "(case dir of
         Supersede \<Rightarrow> transact env [r_id, o_id] Supersede (mi_id (fst a)) (mi_id (fst b))
           (mi_id (fst b) \<in> set (rf_mems (mi_refs (fst a))))
       | Revert \<Rightarrow>
           bindP (latest_applied_supersession_record (se_ledger env) (mi_id (fst a)) (mi_id (fst b))) (\<lambda>applied.
             transact env [r_id, o_id] Revert (mi_id (fst a)) (mi_id (fst b))
               (case applied of None \<Rightarrow> True | Some r \<Rightarrow> rc_replacement_ref_preexisted r))) w2 = (Inr x, w')"
    using run by (auto simp: transact_pair_def bindP_Inr_iff)
  note f1 = frame_unchanged [OF keepsD [OF keeps_view_get a] w(1)]
  then have q1: "undisturbed w1" by simp
  note f2 = frame_unchanged [OF keepsD [OF keeps_view_get b] q1]
  then have q2: "undisturbed w2" by simp
  have s2: "same_items w w2" "ledger_of w2 = ledger_of w" using f1 f2 by (auto intro: same_items_trans)
  have ra: "memory_at env w r_id = Some (fst a)" "mi_id (fst a) = r_id" by (rule view_get_memory [OF w(1,3) a])+
  have rb: "mi_id (fst b) = o_id"
    using view_get_memory(2) [OF q1 _ b] w(4) f1 memory_at_unchanged [of w w1 env] by simp
  have transacted: "ends_well env dir r_id o_id pre x w w' \<and> others_same {o_id, r_id} w w'"
    if "transact env [r_id, o_id] dir r_id o_id pre v = (Inr x, w')" "undisturbed v" "same_items w v" "ledger_of v = ledger_of w" for pre v
    using ends_well_same [OF that(3,4) transact_result [OF that(2) _ that(1)]] w(2)
      only_files_others [OF keepsD [OF keeps_transact that(1)] that(2)] that(3)
    by (auto simp: others_same_def same_items_def)
  show ?thesis
  proof (cases dir)
    case Supersede
    then show ?thesis using rest ra rb transacted [OF _ q2 s2] by (auto simp: preexisted_def)
  next
    case Revert
    then obtain applied w3 where latest: "latest_applied_supersession_record (se_ledger env) r_id o_id w2 = (Inr applied, w3)"
      and rest: "transact env [r_id, o_id] Revert r_id o_id
               (case applied of None \<Rightarrow> True | Some r \<Rightarrow> rc_replacement_ref_preexisted r) w3 = (Inr x, w')"
      using rest ra rb by (auto simp: bindP_Inr_iff)
    note f3 = frame_unchanged [OF keepsD [OF keeps_latest latest] q2]
    have s3: "same_items w w3" "ledger_of w3 = ledger_of w" using s2 f3 by (auto intro: same_items_trans)
    moreover have "lb_ledger w2 = lb_ledger w" using s2 by (simp add: ledger_of_def)
    then have "preexisted Revert env r_id o_id w (case applied of None \<Rightarrow> True | Some r \<Rightarrow> rc_replacement_ref_preexisted r)"
      using latest_result [of "se_ledger env" r_id o_id w2 _ w3] latest by (auto simp: preexisted_def split: option.splits)
    ultimately show ?thesis using transacted rest f3 Revert by auto
  qed
qed

lemma run_result:
  assumes w: "undisturbed w" and run: "run_supersession dir env r_id o_id True w = (Inr x, w')"
  shows "others_same {o_id, r_id} w w'
    \<and> (same_items w w' \<and> ledger_of w' = ledger_of w \<and> dir = Supersede \<and> sr_status x = lit ''already_applied''
       \<or> sr_status x = lit ''blocked'' \<and> (failed_rollback x \<or> same_items w w')
       \<or> success dir x \<and> r_id \<noteq> o_id \<and> is_valid_memory_item_id r_id \<and> is_valid_memory_item_id o_id
         \<and> (\<exists>pre. preexisted dir env r_id o_id w pre \<and> pair_validated env dir r_id o_id w \<and> committed env dir r_id o_id pre w w'))"
  using run_cases [OF w run]
proof
  assume "same_items w w' \<and> ledger_of w' = ledger_of w
      \<and> (sr_status x = lit ''blocked'' \<or> dir = Supersede \<and> sr_status x = lit ''already_applied'')"
  then show ?thesis by (auto simp: others_same_def same_items_def)
next
  assume "\<exists>p w0 w1. preview_of dir env r_id o_id w0 = (Inr p, w1) \<and> sr_status p = lit ''ready'' \<and> undisturbed w0 \<and> same_items w w0
      \<and> undisturbed w1 \<and> same_items w w1 \<and> ledger_of w1 = ledger_of w \<and> transact_pair dir env r_id o_id w1 = (Inr x, w')"
  then obtain p w0 w1 where p: "preview_of dir env r_id o_id w0 = (Inr p, w1)" "sr_status p = lit ''ready''" "undisturbed w0"
    and w1: "undisturbed w1" "same_items w w0" "same_items w w1" "ledger_of w1 = ledger_of w"
    and pair: "transact_pair dir env r_id o_id w1 = (Inr x, w')" by blast
  have "sr_status p \<noteq> lit ''blocked''" using p(2) by simp
  note loaded = preview_loaded [OF p(3,1) this]
  have "memory_at env w1 = memory_at env w0" using memory_at_unchanged w1 by metis
  then obtain pre where pre: "preexisted dir env r_id o_id w1 pre" "ends_well env dir r_id o_id pre x w1 w'" "others_same {o_id, r_id} w1 w'"
    using transact_pair_result [OF w1(1) loaded(3) _ _ pair] loaded by auto
  have "ends_well env dir r_id o_id pre x w w'" by (rule ends_well_same [OF w1(3,4) pre(2)])
  moreover have "preexisted dir env r_id o_id w pre"
    using pre(1) memory_at_unchanged [OF w1(3), of env] w1(4) by (simp add: preexisted_def ledger_of_def cong: direction.case_cong)
  moreover have "others_same {o_id, r_id} w w'"
    using pre(3) w1(3) by (simp add: others_same_def same_items_def)
  ultimately show ?thesis using loaded unfolding ends_well_def by blast
qed

end
