(* ===== verification/SupersessionFaults.thy ===== *)
theory SupersessionFaults imports SupersessionRuns begin

text \<open>
  Transactions under faults. \<open>faults\<close> counts the calls of the file system that still fail. The rules of
  this theory say of a program when it returns and when it fails: it fails only by using up a fault.
  A transaction in which at most one call fails leaves both files as they were or both as prepared,
  and without faults it goes through.
\<close>

section \<open>Steps\<close>

text \<open>The files and the ledger of a state in which nobody else edits and at most \<open>n\<close> calls will fail.\<close>

definition stands ::
  "(pystr \<Rightarrow> item_entry option) \<Rightarrow> ledger_line list \<times> bool \<Rightarrow> nat \<Rightarrow> 'z ledger_brain_scheme \<Rightarrow> bool" where
  "stands f l n w \<longleftrightarrow> undisturbed w \<and> (\<forall>i. item_file i w = f i) \<and> ledger_of w = l \<and> faults w \<le> n"

named_theorems fault_rules \<open>when accesses return and when they fail\<close>

lemma stands_mono: "stands f l n w \<Longrightarrow> n \<le> k \<Longrightarrow> stands f l k w"
  by (simp add: stands_def)

lemma next_event_stands:
  assumes "stands f l n w" "next_event w = (event, w')"
  shows "stands f l n w'" "fe_outcome event \<noteq> Proceeds \<Longrightarrow> 0 < n \<and> stands f l (n - 1) w'"
proof -
  have w: "undisturbed w" "ledger_of w = l" "faults w \<le> n" using assms(1) by (simp_all add: stands_def)
  have "item_file i w' = f i" for i
    using next_event_quiet(3) [OF w(1) assms(2)] assms(1) by (simp add: stands_def)
  moreover note next_event_faults [OF assms(2)]
  ultimately show "stands f l n w'" "fe_outcome event \<noteq> Proceeds \<Longrightarrow> 0 < n \<and> stands f l (n - 1) w'"
    using w next_event_quiet(1) [OF w(1) assms(2)] next_event_ledger [OF assms(2)]
    by (auto simp: stands_def split: if_splits)
qed

lemma wp_fs_step:
  assumes "stands f l n w"
    and "\<And>w'. stands f l n w' \<Longrightarrow> wp m Q E w'"
    and "\<And>e w'. 0 < n \<Longrightarrow> stands f l (n - 1) w' \<Longrightarrow> E e w' \<and> wp m (\<lambda>a. E e) E w'"
  shows "wp (fs_step m) Q E w"
proof -
  obtain event w1 where ev: "next_event w = (event, w1)" by fastforce
  note one = next_event_stands [OF assms(1) ev]
  show ?thesis
    using assms(2) [OF one(1)] assms(3) one(2)
    by (auto simp: wp_def fs_step_def ev split: fs_outcome.splits prod.splits sum.splits) fastforce+
qed

lemma wp_read [fault_rules]:
  assumes "stands f l n w" "f i = Some (Regular b)"
    and "\<And>w'. stands f l n w' \<Longrightarrow> Q b w'" "\<And>e w'. 0 < n \<Longrightarrow> stands f l (n - 1) w' \<Longrightarrow> E e w'"
  shows "wp (read_item_file i) Q E w"
  unfolding read_item_file_def
  by (rule wp_fs_step [OF assms(1)]) (use assms(2-) in \<open>simp_all add: wp_def stands_def\<close>)

lemma wp_write [fault_rules]:
  assumes "stands f l n w" "f i = Some (Regular b)"
    and "\<And>w'. stands (f(i := Some (Regular d))) l n w' \<Longrightarrow> Q () w'"
    and "\<And>e w'. 0 < n \<Longrightarrow> stands f l (n - 1) w' \<or> stands (f(i := Some (Regular d))) l (n - 1) w' \<Longrightarrow> E e w'"
  shows "wp (atomic_write i d c) Q E w"
  unfolding atomic_write_def
proof (rule wp_fs_step [OF assms(1)])
  have put: "stands (f(i := Some (Regular d))) l k (w\<lparr>br_items := AList.update i (Regular d) (br_items w)\<rparr>)"
    if "stands f l k w" for w :: "'a ledger_brain_scheme" and k
    using that by (auto simp: stands_def undisturbed_def item_file_def ledger_of_def faults_def update_conv')
  fix w' :: "'a ledger_brain_scheme" assume w': "stands f l n w'"
  then show "wp (\<lambda>w. let put = (Inr (), w\<lparr>br_items := AList.update i (Regular d) (br_items w)\<rparr>)
       in case item_file i w of
            None \<Rightarrow> if c then put else (Inl FileNotFound, w)
          | Some Unsafe \<Rightarrow> (Inl (OSErr ''UNSAFE_ATOMIC_WRITE_TARGET''), w)
          | Some (Regular _) \<Rightarrow> put) Q E w'"
    using assms(2,3) put [OF w'] by (simp add: wp_def stands_def Let_def)
next
  have put: "stands (f(i := Some (Regular d))) l k (w\<lparr>br_items := AList.update i (Regular d) (br_items w)\<rparr>)"
    if "stands f l k w" for w :: "'a ledger_brain_scheme" and k
    using that by (auto simp: stands_def undisturbed_def item_file_def ledger_of_def faults_def update_conv')
  fix e and w' :: "'a ledger_brain_scheme" assume n: "0 < n" and w': "stands f l (n - 1) w'"
  then show "E e w' \<and> wp (\<lambda>w. let put = (Inr (), w\<lparr>br_items := AList.update i (Regular d) (br_items w)\<rparr>)
       in case item_file i w of
            None \<Rightarrow> if c then put else (Inl FileNotFound, w)
          | Some Unsafe \<Rightarrow> (Inl (OSErr ''UNSAFE_ATOMIC_WRITE_TARGET''), w)
          | Some (Regular _) \<Rightarrow> put) (\<lambda>a. E e) E w'"
    using assms(2,4) put [OF w'] by (simp add: wp_def stands_def Let_def)
qed

lemma wp_view_read [fault_rules]:
  assumes "i \<in> set ids" "stands f l n w" "f i = Some (Regular b)"
    and "\<And>w'. stands f l n w' \<Longrightarrow> Q b w'" "\<And>e w'. 0 < n \<Longrightarrow> stands f l (n - 1) w' \<Longrightarrow> E e w'"
  shows "wp (view_read_bytes ids i) Q E w"
  using wp_read [of f l n w i b Q E] assms by (simp add: view_read_bytes_def require_locked_def)

lemma wp_view_get [fault_rules]:
  assumes "i \<in> set ids" "stands f l n w" "f i = Some (Regular b)" "parse_item_bytes cd b = Inr x"
    and "\<And>w'. stands f l n w' \<Longrightarrow> Q x w'" "\<And>e w'. 0 < n \<Longrightarrow> stands f l (n - 1) w' \<Longrightarrow> E e w'"
  shows "wp (view_get cd ids i) Q E w"
  unfolding view_get_def by (intro wp_rules wp_view_read [OF assms(1-3)]) (use assms in auto)

lemma wp_prepare_update [fault_rules]:
  assumes "i \<in> set ids" "stands f l n w" "f i = Some (Regular b)" "bindR (parse_item_bytes cd b) (prepare_from cd i updates) = Inr p"
    and "\<And>w'. stands f l n w' \<Longrightarrow> Q p w'" "\<And>e w'. 0 < n \<Longrightarrow> stands f l (n - 1) w' \<Longrightarrow> E e w'"
  shows "wp (view_prepare_update cd ids i updates) Q E w"
proof -
  obtain x where x: "parse_item_bytes cd b = Inr x" "prepare_from cd i updates x = Inr p"
    using assms(4) by (auto simp: bindR_Inr_iff)
  show ?thesis
    unfolding view_prepare_update_def by (intro wp_rules wp_view_get [OF assms(1-3) x(1)]) (use assms x in auto)
qed

section \<open>The change of the pair\<close>

lemma wp_superseded:
  assumes "stands f l n w" "f i = Some (Regular old)" "superseded_bytes dir cd j i old = Inr produced"
    and "\<And>x w'. stands (f(i := Some (Regular produced))) l n w' \<Longrightarrow> Q x w'"
    and "\<And>e w'. 0 < n \<Longrightarrow> stands f l (n - 1) w' \<or> stands (f(i := Some (Regular produced))) l (n - 1) w' \<Longrightarrow> E e w'"
  shows "wp (store_update_frontmatter cd i (superseded_update dir j)) Q E w"
proof -
  obtain p where p: "bindR (parse_item_bytes cd old) (prepare_from cd i (superseded_update dir j)) = Inr p"
    and bytes: "pm_data p = produced" "pm_item_id p = i"
    using assms(3) by (auto simp: superseded_bytes_def bindR_Inr_iff prepare_from_def rendered_def)
  show ?thesis
    unfolding store_update_frontmatter_def view_update_frontmatter_def view_apply_prepared_def require_locked_def
    by (intro wp_rules wp_prepare_update [OF _ assms(1,2) p])
      (use assms bytes in \<open>auto intro!: wp_write wp_ret\<close>)
qed

lemma wp_prepare_reference:
  assumes "i \<in> set ids" "stands f l n w" "f i = Some (Regular b)" "referenced_bytes dir cd i j b = Inr produced"
    and "\<And>q w'. stands f l n w' \<Longrightarrow> (case q of None \<Rightarrow> b | Some p \<Rightarrow> pm_data p) = produced
      \<Longrightarrow> (\<And>p. q = Some p \<Longrightarrow> pm_item_id p = i) \<Longrightarrow> Q q w'"
    and "\<And>e w'. 0 < n \<Longrightarrow> stands f l (n - 1) w' \<Longrightarrow> E e w'"
  shows "wp (prepare_reference dir cd ids i j) Q E w"
proof -
  obtain x where x: "parse_item_bytes cd b = Inr x"
    using assms(4) by (auto simp: referenced_bytes_def bindR_Inr_iff)
  obtain item body where pair: "x = (item, body)" by fastforce
  define g where "g = (\<lambda>item. case dir of Supersede \<Rightarrow> linked_refs item j | Revert \<Rightarrow> unlinked_refs item j)"
  have none [simp]: "((if P then None else Some x) = None) \<longleftrightarrow> P" for P and x :: fields by simp
  have eq: "prepare_reference dir cd ids i j =
     bindP (view_get cd ids i) (\<lambda>(item, body).
      if reference_update dir item j = None then ret None
      else bindP (view_prepare_update cd ids i [(lit ''refs'', g item)]) (\<lambda>p. ret (Some p)))"
    using none by (cases dir) (simp_all add: view_prepare_link_def view_prepare_unlink_def g_def cong: if_cong)
  show ?thesis
    unfolding eq
  proof (intro wp_bindP wp_view_get [OF assms(1,2,3) x])
    fix w' :: lifecycle_brain assume w': "stands f l n w'"
    show "wp (case x of (item, body) \<Rightarrow> if reference_update dir item j = None then ret None
      else bindP (view_prepare_update cd ids i [(lit ''refs'', g item)]) (\<lambda>p. ret (Some p))) Q E w'"
    proof (cases "reference_update dir item j")
      case None
      then show ?thesis
        using assms(4) assms(5) [of w' None] w' x pair by (auto simp: referenced_bytes_def intro!: wp_ret)
    next
      case (Some updates)
      then have u: "updates = [(lit ''refs'', g item)]" by (cases dir) (auto simp: g_def split: if_splits)
      obtain p where p: "bindR (parse_item_bytes cd b) (prepare_from cd i updates) = Inr p" "pm_data p = produced" "pm_item_id p = i"
        using assms(4) x pair Some by (auto simp: referenced_bytes_def bindR_Inr_iff prepare_from_def rendered_def)
      have "wp (bindP (view_prepare_update cd ids i [(lit ''refs'', g item)]) (\<lambda>p. ret (Some p))) Q E w'"
        by (intro wp_bindP wp_ret wp_prepare_update [OF assms(1) w' assms(3) p(1) [unfolded u]] assms(5,6)) (use p in auto)
      then show ?thesis using pair Some by simp
    qed
  qed (use assms in auto)
qed

lemma wp_change_reference:
  assumes "stands f l n w" "f i = Some (Regular b)" "referenced_bytes dir cd i j b = Inr produced"
    and "\<And>x w'. stands (f(i := Some (Regular produced))) l n w' \<or> 0 < n \<and> stands f l (n - 1) w' \<Longrightarrow> Q x w'"
    and "\<And>e w'. 0 < n \<Longrightarrow> stands f l (n - 1) w' \<or> stands (f(i := Some (Regular produced))) l (n - 1) w' \<Longrightarrow> E e w'"
  shows "wp (change_reference dir cd i j) Q E w"
proof -
  have apply_it: "wp (apply_optional [i] q) Q E w'"
    if "stands f l n w'" "(case q of None \<Rightarrow> b | Some p \<Rightarrow> pm_data p) = produced" "\<And>p. q = Some p \<Longrightarrow> pm_item_id p = i"
    for q w'
    using that assms(2,4,5)
    by (cases q) (auto simp: apply_optional_def view_apply_prepared_def require_locked_def fun_upd_idem intro!: wp_bindP wp_ret wp_write)
  show ?thesis
  proof (cases dir)
    case Supersede
    have "wp (bindP (prepare_reference Supersede cd [i] i j) (apply_optional [i])) Q E w"
      by (intro wp_bindP wp_prepare_reference [OF _ assms(1,2) assms(3) [unfolded Supersede]])
        (use apply_it assms(5) in auto)
    then show ?thesis by (simp add: Supersede store_link_mem_def view_link_mem_def)
  next
    case Revert
    have "wp (bindP
       (try_catch (bindP (prepare_reference Revert cd [i] i j) (\<lambda>p. ret (Some p)))
          (\<lambda>e. if e = FileNotFound then ret None else raise e)) (\<lambda>prepared.
     case prepared of None \<Rightarrow> ret False | Some p \<Rightarrow> apply_optional [i] p)) Q E w"
      by (intro wp_bindP wp_try_catch wp_prepare_reference [OF _ assms(1,2) assms(3) [unfolded Revert]])
        (use apply_it assms(4,5) in \<open>auto intro!: wp_ret wp_raise wp_if\<close>)
    then show ?thesis by (simp add: Revert store_unlink_mem_def view_unlink_mem_def)
  qed
qed

text \<open>Each of the two files is as it was or as prepared.\<close>

definition between :: "(pystr \<Rightarrow> item_entry option) \<Rightarrow> transaction \<Rightarrow> (pystr \<Rightarrow> item_entry option) \<Rightarrow> bool" where
  "between f tx g \<longleftrightarrow>
     (\<forall>i. i \<notin> tx_files tx \<longrightarrow> g i = f i)
     \<and> g (tx_obsolete tx) \<in> {Some (Regular (tx_old_bytes tx)), Some (Regular (tx_produced_old tx))}
     \<and> g (tx_replacement tx) \<in> {Some (Regular (tx_new_bytes tx)), Some (Regular (tx_produced_new tx))}"

definition after_files :: "(pystr \<Rightarrow> item_entry option) \<Rightarrow> transaction \<Rightarrow> pystr \<Rightarrow> item_entry option" where
  "after_files f tx = f(tx_obsolete tx := Some (Regular (tx_produced_old tx)),
     tx_replacement tx := Some (Regular (tx_produced_new tx)))"

text \<open>A transaction with what it has prepared, on the files \<open>f\<close>.\<close>

definition prepared_on :: "supersession_env \<Rightarrow> (pystr \<Rightarrow> item_entry option) \<Rightarrow> transaction \<Rightarrow> bool" where
  "prepared_on env f tx \<longleftrightarrow>
     tx_obsolete tx \<noteq> tx_replacement tx
     \<and> tx_obsolete tx \<in> set (tx_ids tx) \<and> tx_replacement tx \<in> set (tx_ids tx)
     \<and> is_valid_memory_item_id (tx_obsolete tx) \<and> is_valid_memory_item_id (tx_replacement tx)
     \<and> f (tx_obsolete tx) = Some (Regular (tx_old_bytes tx)) \<and> f (tx_replacement tx) = Some (Regular (tx_new_bytes tx))
     \<and> superseded_bytes (tx_direction tx) (se_codec env) (tx_replacement tx) (tx_obsolete tx) (tx_old_bytes tx)
         = Inr (tx_produced_old tx)
     \<and> (if tx_preexisted tx then tx_produced_new tx = tx_new_bytes tx
        else referenced_bytes (tx_direction tx) (se_codec env) (tx_replacement tx) (tx_obsolete tx) (tx_new_bytes tx)
          = Inr (tx_produced_new tx))"

lemma wp_mutate_pair:
  assumes tx: "prepared_on env f tx" and w: "stands f l n w"
    and Q: "\<And>w'. stands (after_files f tx) l n w' \<Longrightarrow> Q () w'"
    and E: "\<And>e g w'. 0 < n \<Longrightarrow> between f tx g \<Longrightarrow> stands g l (n - 1) w' \<Longrightarrow> E e w'"
  shows "wp (mutate_pair env tx) Q E w"
proof -
  let ?o = "tx_obsolete tx" and ?r = "tx_replacement tx"
  define f1 where "f1 = f(?o := Some (Regular (tx_produced_old tx)))"
  have diff: "?o \<noteq> ?r" "?o \<in> set (tx_ids tx)" "?r \<in> set (tx_ids tx)"
    and bytes: "f ?o = Some (Regular (tx_old_bytes tx))" "f ?r = Some (Regular (tx_new_bytes tx))"
    and produced: "superseded_bytes (tx_direction tx) (se_codec env) ?r ?o (tx_old_bytes tx) = Inr (tx_produced_old tx)"
    using tx by (simp_all add: prepared_on_def)
  have upd: "after_files f tx = f1(?r := Some (Regular (tx_produced_new tx)))"
    by (simp add: after_files_def f1_def)
  have mid: "between f tx f" "between f tx f1" "between f tx (after_files f tx)"
    using diff bytes by (auto simp: between_def after_files_def tx_files_def f1_def)
  have fail: "E e w'" if "0 < n" "stands f l (n - 1) w' \<or> stands f1 l (n - 1) w' \<or> stands (after_files f tx) l (n - 1) w'" for e w'
    using that E mid by blast
  have rest: "wp (if tx_preexisted tx then ret ()
           else bindP (change_reference (tx_direction tx) (se_codec env) ?r ?o) (\<lambda>_.
                bindP (view_read_bytes (tx_ids tx) ?r) (\<lambda>b. check (b = tx_produced_new tx) prepared_mismatch))) Q E w'"
    if w': "stands f1 l n w'" for w'
  proof (cases "tx_preexisted tx")
    case True
    then have "after_files f tx = f1" using tx bytes diff by (auto simp: after_files_def prepared_on_def f1_def)
    then show ?thesis using True Q w' by (auto intro!: wp_ret)
  next
    case False
    then have ref: "referenced_bytes (tx_direction tx) (se_codec env) ?r ?o (tx_new_bytes tx) = Inr (tx_produced_new tx)"
      using tx by (simp add: prepared_on_def)
    have b1: "f1 ?r = Some (Regular (tx_new_bytes tx))" using bytes diff by (simp add: f1_def)
    have read: "wp (bindP (view_read_bytes (tx_ids tx) ?r) (\<lambda>b. check (b = tx_produced_new tx) prepared_mismatch)) Q E v"
      if "stands (after_files f tx) l n v \<or> 0 < n \<and> stands f1 l (n - 1) v" for v
      using that
    proof
      assume v: "stands (after_files f tx) l n v"
      have "after_files f tx ?r = Some (Regular (tx_produced_new tx))" by (simp add: after_files_def)
      then show ?thesis
        by (intro wp_bindP wp_view_read [OF diff(3) v] wp_check) (use Q fail in auto)
    next
      assume v: "0 < n \<and> stands f1 l (n - 1) v"
      have same: "tx_new_bytes tx = tx_produced_new tx \<Longrightarrow> after_files f tx = f1"
        using bytes diff by (auto simp: after_files_def f1_def)
      have less: "E e u" if "stands f1 l (n - 1 - 1) u" for e u
        using fail v stands_mono [OF that, of "n - 1"] by simp
      have same_n: "Q () u" if "stands f1 l (n - 1) u" "tx_new_bytes tx = tx_produced_new tx" for u
        using Q same [OF that(2)] stands_mono [OF that(1), of n] by simp
      show ?thesis
        by (intro wp_bindP wp_view_read [OF diff(3) conjunct2 [OF v] b1] wp_check)
          (use v less same_n fail in auto)
    qed
    show ?thesis
      using False
      by (auto intro!: wp_bindP wp_change_reference [OF w' b1 ref] read fail simp: upd)
  qed
  show ?thesis
    unfolding mutate_pair_def Let_def
    by (intro wp_bindP wp_superseded [OF w bytes(1) produced] wp_view_read [OF diff(2)] wp_check rest)
      (use fail in \<open>auto simp: f1_def\<close>)
qed


section \<open>The rollback\<close>

text \<open>Without faults left, a rollback from anywhere in between restores both files.\<close>

lemma wp_restore_raw:
  assumes "is_valid_memory_item_id i" "stands g l 0 w" "g i = Some (Regular b)"
    "\<And>w'. stands (g(i := Some (Regular d))) l 0 w' \<Longrightarrow> Q () w'"
  shows "wp (ignore_errors (store_restore_raw i d)) Q E w"
  unfolding ignore_errors_def store_restore_raw_def view_restore_raw_def require_locked_def
  by (intro wp_rules wp_write [OF assms(2,3)]) (use assms in auto)

lemma wp_pair_matches:
  assumes "tx_obsolete tx \<in> set (tx_ids tx)" "tx_replacement tx \<in> set (tx_ids tx)" "stands g l 0 w"
    "g (tx_obsolete tx) = Some (Regular (tx_old_bytes tx))" "g (tx_replacement tx) = Some (Regular (tx_new_bytes tx))"
    "\<And>w'. stands g l 0 w' \<Longrightarrow> Q True w'"
  shows "wp (pair_matches tx) Q E w"
  unfolding pair_matches_def
  by (intro wp_rules wp_view_read [OF assms(1,3,4)] wp_view_read [where i = "tx_replacement tx" and f = g, OF assms(2)]) (use assms in auto)

lemma wp_restore_pair:
  assumes tx: "prepared_on env f tx" and w: "stands g l 0 w" and g: "between f tx g"
    and Q: "\<And>w'. stands f l 0 w' \<Longrightarrow> Q () w'"
  shows "wp (restore_pair tx) Q E w"
proof -
  let ?o = "tx_obsolete tx" and ?r = "tx_replacement tx"
  have diff: "?o \<noteq> ?r" "?o \<in> set (tx_ids tx)" "?r \<in> set (tx_ids tx)" "is_valid_memory_item_id ?o" "is_valid_memory_item_id ?r"
    and bytes: "f ?o = Some (Regular (tx_old_bytes tx))" "f ?r = Some (Regular (tx_new_bytes tx))"
    using tx by (simp_all add: prepared_on_def)
  obtain a b where ab: "g ?o = Some (Regular a)" "g ?r = Some (Regular b)"
      "a \<in> {tx_old_bytes tx, tx_produced_old tx}" "b \<in> {tx_new_bytes tx, tx_produced_new tx}"
    using g by (auto simp: between_def)
  define g1 where "g1 = g(?o := Some (Regular (tx_old_bytes tx)))"
  have g1: "g1 ?r = Some (Regular b)" using diff ab by (simp add: g1_def)
  have undone: "g1(?r := Some (Regular (tx_new_bytes tx))) = f"
    using g bytes by (auto simp: g1_def between_def tx_files_def fun_eq_iff)
  have matches: "wp (bindP (pair_matches tx) (\<lambda>restored. if restored then ret () else h)) Q E v" if "stands f l 0 v" for v h
    by (intro wp_bindP wp_pair_matches [OF diff(2,3) that bytes]) (auto intro!: wp_ret Q)
  have second: "wp (bindP (ignore_errors (store_restore_raw ?r (tx_new_bytes tx)))
      (\<lambda>_. bindP (pair_matches tx) (\<lambda>restored. if restored then ret () else h))) Q E v" if "stands g1 l 0 v" for v h
    by (rule wp_bindP, rule wp_restore_raw [OF diff(5) that g1]) (simp add: undone matches)
  have first: "wp (bindP (ignore_errors (store_restore_raw ?o (tx_old_bytes tx)))
      (\<lambda>_. bindP (ignore_errors (store_restore_raw ?r (tx_new_bytes tx)))
      (\<lambda>_. bindP (pair_matches tx) (\<lambda>restored. if restored then ret () else h)))) Q E v" if "stands g l 0 v" for v h
    by (rule wp_bindP, rule wp_restore_raw [OF diff(4) that ab(1)]) (simp add: second flip: g1_def)
  show ?thesis
    unfolding restore_pair_def
    by (intro wp_bindP [of "try_catch x y" for x y] wp_try_catch)
      (use ab first in \<open>auto intro!: wp_bindP [of "view_read_bytes x y" for x y] wp_ret wp_view_read [OF diff(2) w ab(1)]
        wp_view_read [where i = ?r and f = g, OF diff(3)]\<close>)
qed

lemma wp_rollback_result:
  assumes "prepared_on env f tx" "stands g l 0 w" "between f tx g" "\<And>w'. stands f l 0 w' \<Longrightarrow> Q None w'"
  shows "wp (rollback_result env tx) Q E w"
  unfolding rollback_result_def
  by (intro wp_rules wp_restore_pair [OF assms(1-3)]) (rule assms(4))

section \<open>The ledger\<close>

lemma stands_put: "stands f l n w \<Longrightarrow> stands f k n (put_ledger k w)"
  by (simp add: stands_def put_ledger_def undisturbed_def item_file_def ledger_of_def faults_def)

lemma wp_truncate:
  assumes "stands f l 0 w" "\<And>e w'. stands f l 0 w' \<Longrightarrow> E e w'"
  shows "wp (truncate_ledger env r k e) Q E w"
proof -
  obtain event and w1 where ev: "next_event w = (event, w1)" by fastforce
  show ?thesis
    using next_event_stands [OF assms(1) ev] assms(2)
    by (auto simp: wp_def truncate_ledger_def ev Let_def split: fs_outcome.splits)
qed

definition extended :: "ledger_env \<Rightarrow> ledger_record \<Rightarrow> ledger_line list \<times> bool \<Rightarrow> ledger_line list \<times> bool" where
  "extended env r l = extend_ledger env r (le_payload_length env r) l"

lemma wp_append:
  assumes w: "stands f l n w" "n \<le> 1"
    and Q: "\<And>w'. valid_record (le_fromisoformat env) r \<Longrightarrow> stands f (extended env r l) n w' \<Longrightarrow> Q () w'"
    and E: "\<And>e w'. valid_record (le_fromisoformat env) r \<Longrightarrow> 0 < n \<Longrightarrow> stands f l 0 w' \<Longrightarrow> E e w'"
    and bad: "\<not> valid_record (le_fromisoformat env) r \<Longrightarrow> E (TypeError (lit ''INVALID_LIFECYCLE_LEDGER_RECORD'')) w"
  shows "wp (append_lifecycle_record env r) Q E w"
  unfolding append_lifecycle_record_def
proof (intro wp_bindP wp_check)
  assume valid: "valid_record (le_fromisoformat env) r"
  have fail: "E e w'" if "0 < n" "stands f l (n - 1) w'" for e w'
    using E [OF valid that(1)] that(2) w(2) by simp
  have written: "wp (write_ledger env r) Q E v" if v: "stands f l n v" for v
  proof -
    obtain event and v1 where ev: "next_event v = (event, v1)" by fastforce
    note one = next_event_stands [OF v ev]
    have "wp (truncate_ledger env r k e) Q E v1" if "fe_outcome event \<noteq> Proceeds" for k e
      using one(2) [OF that] w(2) fail by (auto intro: wp_truncate)
    then show ?thesis
      using Q [OF valid] stands_put [OF one(1), of "extended env r l"] one(1)
      by (auto simp: wp_def write_ledger_def ev Let_def extended_def stands_def split: fs_outcome.splits)
  qed
  show "wp (fs_step (ret ())) (\<lambda>a. wp (write_ledger env r) Q E) E w"
    by (rule wp_fs_step [OF w(1)]) (auto intro!: wp_ret written fail)
qed (rule bad)

text \<open>At most the record of a blocked transaction has been added.\<close>

definition logged :: "ledger_env \<Rightarrow> ledger_line list \<times> bool \<Rightarrow> ledger_line list \<times> bool \<Rightarrow> bool" where
  "logged env l l' \<longleftrightarrow> l' = l \<or> (\<exists>r. rc_status r = lit ''blocked'' \<and> l' = extended env r l)"

lemma logged_refl [simp]: "logged env l l"
  by (simp add: logged_def)

lemma loggedI: "rc_status r = lit ''blocked'' \<Longrightarrow> logged env l (extended env r l)"
  unfolding logged_def by blast

lemma wp_record_blocked:
  assumes "stands f l n w" "n \<le> 1" "\<And>w' l'. logged (se_ledger env) l l' \<Longrightarrow> stands f l' n w' \<Longrightarrow> Q () w'"
    and "\<And>w'. 0 < n \<Longrightarrow> stands f l 0 w' \<Longrightarrow> E Interrupted w'"
  shows "wp (record_blocked_best_effort env action reason o_id r_id snap pre) Q E w"
  unfolding record_blocked_best_effort_def record_transaction_def
proof (intro wp_try_catch wp_append [OF assms(1,2)] wp_if wp_raise wp_ret)
  fix w' :: lifecycle_brain assume "stands f l 0 w'"
  then show "Q () w'" using assms(3) [of l] stands_mono by fastforce
next
  show "Q () w" by (rule assms(3) [OF logged_refl assms(1)])
next
  fix w' :: lifecycle_brain and r :: ledger_record
  assume "stands f (extended (se_ledger env) \<lparr>rc_action = lit action, rc_timestamp = isoformat_utc (le_now (se_ledger env)),
      rc_status = lit ''blocked'', rc_reason = lit reason, rc_obsolete_id = o_id, rc_replacement_id = Some r_id,
      rc_snapshot = snap, rc_replacement_ref_preexisted = pre, rc_deferred_until = None\<rparr> l) n w'"
  then show "Q () w'" by (rule assms(3) [rotated]) (rule loggedI, simp)
qed (use assms in \<open>auto simp: Interrupted_def\<close>)

section \<open>The commit\<close>

text \<open>How a commit ends in which at most one call fails: as if nothing had been done, or done.\<close>

definition undone ::
  "supersession_env \<Rightarrow> (pystr \<Rightarrow> item_entry option) \<Rightarrow> ledger_line list \<times> bool \<Rightarrow> lifecycle_brain \<Rightarrow> bool" where
  "undone env f l w \<longleftrightarrow> (\<exists>l'. logged (se_ledger env) l l' \<and> stands f l' 0 w)"

definition kept_blocked :: "supersession_result \<Rightarrow> bool" where
  "kept_blocked x \<longleftrightarrow> sr_status x = lit ''blocked'' \<and> \<not> failed_rollback x"

lemma undoneI: "logged (se_ledger env) l l' \<Longrightarrow> stands f l' 0 w \<Longrightarrow> undone env f l w"
  unfolding undone_def by blast

lemma kept_blocked_run: "reason \<noteq> ''ROLLBACK_FAILED'' \<Longrightarrow> kept_blocked (blocked_run reason r_id o_id snap)"
  by (simp add: kept_blocked_def failed_rollback_def)

lemma stands_zero: "n \<le> 1 \<Longrightarrow> stands f l (n - 1) w \<Longrightarrow> stands f l 0 w"
  by simp

lemma wp_update_markdown:
  assumes tx: "prepared_on env f tx" and w: "stands f l n w" "n \<le> 1"
    and done0: "\<And>w'. stands (after_files f tx) l n w' \<Longrightarrow> Q None w'"
    and stopped: "\<And>x w'. 0 < n \<Longrightarrow> kept_blocked x \<Longrightarrow> undone env f l w' \<Longrightarrow> Q (Some x) w'"
    and E: "\<And>e w'. 0 < n \<Longrightarrow> undone env f l w' \<Longrightarrow> E e w'"
  shows "wp (update_markdown env tx) Q E w"
proof -
  have after_rollback: "wp (bindP (rollback_result env tx) (\<lambda>rolled.
         case rolled of
           Some result \<Rightarrow> if e = Interrupted then raise e else ret (Some result)
         | None \<Rightarrow>
             bindP (record_blocked_best_effort env (action_name (tx_direction tx)) ''MARKDOWN_UPDATE_FAILED''
               (tx_obsolete tx) (tx_replacement tx) (Some (tx_snapshot tx)) (tx_preexisted tx)) (\<lambda>_.
             if e = Interrupted then raise e
             else ret (Some (blocked_run ''MARKDOWN_UPDATE_FAILED'' (tx_replacement tx) (tx_obsolete tx)
                    (Some (tx_snapshot tx))))))) Q E w'"
    if "0 < n" "between f tx g" "stands g l (n - 1) w'" for e g w'
  proof (rule wp_bindP, rule wp_rollback_result [OF tx stands_zero [OF w(2) that(3)] that(2)])
    fix v :: lifecycle_brain assume v: "stands f l 0 v"
    show "wp (case None of
           Some result \<Rightarrow> if e = Interrupted then raise e else ret (Some result)
         | None \<Rightarrow>
             bindP (record_blocked_best_effort env (action_name (tx_direction tx)) ''MARKDOWN_UPDATE_FAILED''
               (tx_obsolete tx) (tx_replacement tx) (Some (tx_snapshot tx)) (tx_preexisted tx)) (\<lambda>_.
             if e = Interrupted then raise e
             else ret (Some (blocked_run ''MARKDOWN_UPDATE_FAILED'' (tx_replacement tx) (tx_obsolete tx)
                    (Some (tx_snapshot tx)))))) Q E v"
      unfolding option.case
      by (intro wp_bindP wp_record_blocked [OF v] wp_if wp_raise wp_ret)
        (use that(1) in \<open>auto intro!: E stopped kept_blocked_run intro: undoneI\<close>)
  qed
  show ?thesis
    unfolding update_markdown_def
    by (intro wp_try_catch wp_bindP [of "mutate_pair x y" for x y] wp_mutate_pair [OF tx w(1)] wp_ret)
      (use done0 after_rollback in auto)
qed

lemma wp_write_record:
  assumes tx: "prepared_on env f tx" and w: "stands (after_files f tx) l n w" "n \<le> 1"
    and valid: "valid_record (le_fromisoformat (se_ledger env)) (transaction_record env tx)"
    and done0: "\<And>w'. stands (after_files f tx) (extended (se_ledger env) (transaction_record env tx) l) n w' \<Longrightarrow> Q None w'"
    and stopped: "\<And>x w'. 0 < n \<Longrightarrow> kept_blocked x \<Longrightarrow> undone env f l w' \<Longrightarrow> Q (Some x) w'"
    and E: "\<And>e w'. 0 < n \<Longrightarrow> undone env f l w' \<Longrightarrow> E e w'"
  shows "wp (write_record env tx) Q E w"
proof -
  have after: "between f tx (after_files f tx)"
    using tx by (auto simp: between_def after_files_def tx_files_def prepared_on_def)
  have rolled: "wp (bindP (rollback_result env tx) (\<lambda>rolled.
         if e = Interrupted then raise e
         else ret (Some (case rolled of
             Some result \<Rightarrow> result
           | None \<Rightarrow> blocked_run ''LEDGER_WRITE_FAILED'' (tx_replacement tx) (tx_obsolete tx)
               (Some (tx_snapshot tx)))))) Q E w'"
    if "0 < n" "stands (after_files f tx) l 0 w'" for e w'
    by (rule wp_bindP, rule wp_rollback_result [OF tx that(2) after], intro wp_if wp_raise wp_ret)
      (use that(1) in \<open>auto intro!: E stopped kept_blocked_run intro: undoneI [OF logged_refl]\<close>)
  show ?thesis
    unfolding write_record_def record_transaction_def
    by (intro wp_try_catch wp_bindP [of "append_lifecycle_record x y" for x y] wp_append [OF w] wp_ret)
      (use done0 rolled valid in \<open>auto simp: transaction_record_def\<close>)
qed

lemma wp_frame:
  assumes "keeps (only_files {} False) m" "stands f l n w"
    and "\<And>a w'. m w = (Inr a, w') \<Longrightarrow> stands f l n w' \<Longrightarrow> Q a w'" "\<And>e w'. m w = (Inl e, w') \<Longrightarrow> stands f l n w' \<Longrightarrow> E e w'"
  shows "wp m Q E w"
proof -
  obtain r w' where run: "m w = (r, w')" by fastforce
  have "only_files {} False w w'" by (rule keepsD [OF assms(1) run])
  then have "stands f l n w'" using assms(2) by (auto simp: only_files_def stands_def)
  then show ?thesis using assms(3,4) run by (cases r) (auto simp: wp_def)
qed

lemma wp_commit_pair:
  assumes tx: "prepared_on env f tx" and w: "stands f l n w" "n \<le> 1"
    and valid: "valid_record (le_fromisoformat (se_ledger env)) (transaction_record env tx)"
    and done0: "\<And>x w'. success (tx_direction tx) x
      \<Longrightarrow> stands (after_files f tx) (extended (se_ledger env) (transaction_record env tx) l) n w' \<Longrightarrow> Q x w'"
    and interrupted: "\<And>e v w'. sync_index env (tx_replacement tx) (tx_obsolete tx) v = (Inl e, w')
      \<Longrightarrow> stands (after_files f tx) (extended (se_ledger env) (transaction_record env tx) l) n v
      \<Longrightarrow> stands (after_files f tx) (extended (se_ledger env) (transaction_record env tx) l) n w' \<Longrightarrow> E e w'"
    and stopped: "\<And>x w'. 0 < n \<Longrightarrow> kept_blocked x \<Longrightarrow> undone env f l w' \<Longrightarrow> Q x w'"
    and E: "\<And>e w'. 0 < n \<Longrightarrow> undone env f l w' \<Longrightarrow> E e w'"
  shows "wp (commit_pair env tx) Q E w"
proof -
  have synced: "wp (bindP (sync_index env (tx_replacement tx) (tx_obsolete tx)) (\<lambda>synced.
                   ret ((result_of (success_status (tx_direction tx)) ''OK'' (tx_replacement tx) (tx_obsolete tx))
                     \<lparr>sr_dry_run := False, sr_snapshot := Some (tx_snapshot tx), sr_index_repair_required := \<not> synced\<rparr>))) Q E v"
    if v: "stands (after_files f tx) (extended (se_ledger env) (transaction_record env tx) l) n v" for v
    by (rule wp_bindP, rule wp_frame [OF keeps_sync v], rule wp_ret)
      (use done0 interrupted v in \<open>auto simp: success_def result_of_def\<close>)
  show ?thesis
    unfolding commit_pair_def
    by (rule wp_bindP, rule wp_update_markdown [OF tx w])
      (auto intro!: wp_bindP [of "write_record x y" for x y] wp_write_record [OF tx _ w(2) valid] wp_ret synced stopped E)
qed


section \<open>The transaction\<close>

text \<open>The clock's timestamps are what the ledger accepts.\<close>

definition clock_ok :: "ledger_env \<Rightarrow> bool" where
  "clock_ok env \<longleftrightarrow>
     \<not> has_control (isoformat_utc (le_now env)) \<and> length (isoformat_utc (le_now env)) \<le> 64
     \<and> utc_time (le_fromisoformat env) (isoformat_utc (le_now env)) \<noteq> None"

lemma valid_transaction_record:
  assumes "clock_ok (se_ledger env)" "validate_item_ids [tx_obsolete tx, tx_replacement tx]" "is_git_object_id (tx_snapshot tx)"
  shows "valid_record (le_fromisoformat (se_ledger env)) (transaction_record env tx)"
proof -
  have id_length: "length i \<le> 240" if "is_valid_memory_item_id i" for i
    using that by (auto simp: is_valid_memory_item_id_def)
  have git: "\<not> has_control s" if "is_git_object_id s" for s
    using that by (auto simp: is_git_object_id_def has_control_def list_ex_iff list_all_iff)
  have names: "\<not> has_control (lit (action_name d)) \<and> \<not> has_control (lit (success_status d)) \<and> \<not> has_control (lit ''OK'')
      \<and> length (lit (action_name d)) \<le> 32 \<and> length (lit (success_status d)) \<le> 24 \<and> length (lit ''OK'') \<le> 40
      \<and> (lit (action_name d), lit (success_status d), lit ''OK'') \<in> set allowed_record_states
      \<and> lit (action_name d) \<notin> {lit ''defer'', lit ''keep-active''}" for d
    by (cases d) (simp_all add: has_control_def lit_def allowed_record_states_def)
  show ?thesis
    using assms names [of "tx_direction tx"] id_length git
    by (auto simp: valid_record_def transaction_record_def clock_ok_def validate_item_ids_def if_given_def
        split: option.splits)
qed

lemma try_catch_Inr:
  assumes "try_catch m h w = (Inr a, w')" "\<And>e v v'. h e v \<noteq> (Inr a, v')"
  shows "m w = (Inr a, w')"
  using assms by (auto simp: try_catch_def split: prod.splits sum.splits)

lemma snapshot_items_git:
  assumes "snapshot_items env items w = (Inr s, w')"
  shows "is_git_object_id s"
proof -
  have "bindP (check (validate_item_ids (map fst (sort_key fst items))) SnapshotError) (\<lambda>_.
          fs_step (\<lambda>w.
            let commit = se_commit_id env (lb_history w) (sort_key fst items)
            in if is_git_object_id commit
               then (Inr commit, w\<lparr>lb_history := (commit, sort_key fst items) # lb_history w\<rparr>)
               else (Inl SnapshotError, w))) w = (Inr s, w')"
    using assms unfolding snapshot_items_def Let_def
    by (rule try_catch_Inr) (simp add: snapshot_error_def)
  then obtain v where "fs_step (\<lambda>w.
            let commit = se_commit_id env (lb_history w) (sort_key fst items)
            in if is_git_object_id commit
               then (Inr commit, w\<lparr>lb_history := (commit, sort_key fst items) # lb_history w\<rparr>)
               else (Inl SnapshotError, w)) v = (Inr s, w')"
    by (auto simp only: bindP_Inr_iff)
  then show ?thesis
    by (auto simp: fs_step_def Let_def split: prod.splits fs_outcome.splits if_splits)
qed

lemma saved_pair:
  assumes "save_pair env i a j b w = (Inr (Some s), w')"
  shows "validate_item_ids [i, j]" "is_git_object_id s"
proof -
  have "bindP (snapshot_pair env i a j b) (\<lambda>s. ret (Some s)) w = (Inr (Some s), w')"
    using assms unfolding save_pair_def by (rule try_catch_Inr) simp
  then obtain v where saved: "snapshot_pair env i a j b w = (Inr s, v)" by (auto simp: bindP_Inr_iff)
  then show "validate_item_ids [i, j]"
    by (auto simp: snapshot_pair_def bindP_Inr_iff split: if_splits)
  show "is_git_object_id s"
    using saved by (auto simp: snapshot_pair_def bindP_Inr_iff split: if_splits dest: snapshot_items_git)
qed

text \<open>The state before, and what is left of it when nothing has been done but to log a blocked transaction.\<close>

definition untouched ::
  "supersession_env \<Rightarrow> (pystr \<Rightarrow> item_entry option) \<Rightarrow> ledger_line list \<times> bool \<Rightarrow> lifecycle_brain \<Rightarrow> bool" where
  "untouched env f l w \<longleftrightarrow> (\<exists>l' n. logged (se_ledger env) l l' \<and> stands f l' n w)"

lemma undone_untouched: "undone env f l w \<Longrightarrow> untouched env f l w"
  by (auto simp: undone_def untouched_def)

lemma stands_untouched: "stands f l n w \<Longrightarrow> untouched env f l w"
  unfolding untouched_def by (intro exI conjI) (rule logged_refl)

definition applied_on ::
  "supersession_env \<Rightarrow> direction \<Rightarrow> pystr \<Rightarrow> pystr \<Rightarrow> bool \<Rightarrow> (pystr \<Rightarrow> item_entry option) \<Rightarrow> ledger_line list \<times> bool
   \<Rightarrow> lifecycle_brain \<Rightarrow> bool" where
  "applied_on env dir r_id o_id pre f l w \<longleftrightarrow>
     (\<exists>tx n. tx_direction tx = dir \<and> tx_replacement tx = r_id \<and> tx_obsolete tx = o_id \<and> tx_preexisted tx = pre
        \<and> prepared_on env f tx \<and> valid_record (le_fromisoformat (se_ledger env)) (transaction_record env tx)
        \<and> stands (after_files f tx) (extended (se_ledger env) (transaction_record env tx) l) n w)"

lemma applied_on_committed:
  assumes "applied_on env dir r_id o_id pre (\<lambda>i. item_file i w) (ledger_of w) w'"
  shows "committed env dir r_id o_id pre w w'"
proof -
  obtain tx n where tx: "tx_direction tx = dir" "tx_replacement tx = r_id" "tx_obsolete tx = o_id" "tx_preexisted tx = pre"
    and p: "prepared_on env (\<lambda>i. item_file i w) tx"
    and r: "valid_record (le_fromisoformat (se_ledger env)) (transaction_record env tx)"
    and s: "stands (after_files (\<lambda>i. item_file i w) tx) (extended (se_ledger env) (transaction_record env tx) (ledger_of w)) n w'"
    using assms unfolding applied_on_def by blast
  have files: "item_file o_id w' = Some (Regular (tx_produced_old tx))" "item_file r_id w' = Some (Regular (tx_produced_new tx))"
    using p s tx by (auto simp: prepared_on_def stands_def after_files_def)
  have ledger: "ledger_of w' = extended (se_ledger env) (transaction_record env tx) (ledger_of w)"
    using s by (simp add: stands_def)
  show ?thesis
    unfolding committed_def Let_def
    by (rule exI [of _ "tx_old_bytes tx"], rule exI [of _ "tx_new_bytes tx"], rule exI [of _ "tx_produced_old tx"],
        rule exI [of _ "tx_produced_new tx"], rule exI [of _ "tx_snapshot tx"], intro conjI)
      (use tx p r files ledger [unfolded extended_def] in \<open>simp_all add: prepared_on_def transaction_record_def cong: if_cong\<close>)
qed

lemma wp_prepare_and_commit:
  assumes pair: "o_id \<noteq> r_id" "is_valid_memory_item_id o_id" "is_valid_memory_item_id r_id" "o_id \<in> set ids" "r_id \<in> set ids"
    and w: "stands f l n w" "n \<le> 1" and bytes: "f o_id = Some (Regular old)" "f r_id = Some (Regular new)"
    and ok: "clock_ok (se_ledger env)" "validate_item_ids [o_id, r_id]" "is_git_object_id s"
    and done0: "\<And>x w'. success dir x \<Longrightarrow> applied_on env dir r_id o_id pre f l w' \<Longrightarrow> Q x w'"
    and interrupted: "\<And>e w'. applied_on env dir r_id o_id pre f l w' \<Longrightarrow> E e w'"
    and stopped: "\<And>x w'. kept_blocked x \<Longrightarrow> untouched env f l w' \<Longrightarrow> Q x w'"
    and E: "\<And>e w'. untouched env f l w' \<Longrightarrow> E e w'"
  shows "wp (prepare_and_commit env ids dir r_id o_id pre old new s) Q E w"
  unfolding prepare_and_commit_def
proof (rule wp_bindP, rule wp_frame [OF keeps_prepare_update w(1)])
  fix p and w1 :: lifecycle_brain
  assume p: "view_prepare_update (se_codec env) ids o_id (superseded_update dir r_id) w = (Inr p, w1)" and w1: "stands f l n w1"
  have q: "undisturbed w" "undisturbed w1" "item_file o_id w = Some (Regular old)" "item_file r_id w1 = Some (Regular new)"
    using w w1 bytes by (simp_all add: stands_def)
  have old: "superseded_bytes dir (se_codec env) r_id o_id old = Inr (pm_data p)"
    using prepare_update_result [OF q(1) p] q(3) by (auto simp: superseded_bytes_def bindR_Inr_iff)
  define tx where "tx = (\<lambda>prepared_new :: prepared_mutation option. \<lparr>tx_ids = ids, tx_direction = dir, tx_replacement = r_id, tx_obsolete = o_id,
        tx_preexisted = pre, tx_old_bytes = old, tx_new_bytes = new, tx_snapshot = s, tx_produced_old = pm_data p,
        tx_produced_new = (case prepared_new of None \<Rightarrow> new | Some p \<Rightarrow> pm_data p)\<rparr>)"
  have sel: "tx_direction (tx q) = dir" "tx_replacement (tx q) = r_id" "tx_obsolete (tx q) = o_id"
      "tx_preexisted (tx q) = pre" "tx_snapshot (tx q) = s" for q
    by (simp_all add: tx_def)
  have commit: "wp (commit_pair env (tx q)) Q E w2"
    if q: "if pre then q = None else referenced_bytes dir (se_codec env) r_id o_id new
        = Inr (case q of None \<Rightarrow> new | Some p \<Rightarrow> pm_data p)" and w2: "stands f l n w2" for q w2
  proof -
    have prepared: "prepared_on env f (tx q)"
      using q pair bytes old by (auto simp: prepared_on_def tx_def split: if_splits)
    have valid: "valid_record (le_fromisoformat (se_ledger env)) (transaction_record env (tx q))"
      by (rule valid_transaction_record) (use ok in \<open>simp_all add: sel\<close>)
    have applied: "applied_on env dir r_id o_id pre f l w'"
      if "stands (after_files f (tx q)) (extended (se_ledger env) (transaction_record env (tx q)) l) n w'" for w'
      unfolding applied_on_def by (rule exI [of _ "tx q"], rule exI [of _ n]) (use that prepared valid sel in simp)
    show ?thesis
      by (rule wp_commit_pair [OF prepared w2 w(2) valid])
        (use applied done0 interrupted stopped E undone_untouched sel in auto)
  qed
  show "wp (bindP (if pre then ret None else prepare_reference dir (se_codec env) ids r_id o_id) (\<lambda>prepared_new.
     commit_pair env
       \<lparr>tx_ids = ids, tx_direction = dir, tx_replacement = r_id, tx_obsolete = o_id,
        tx_preexisted = pre, tx_old_bytes = old, tx_new_bytes = new,
        tx_snapshot = s, tx_produced_old = pm_data p,
        tx_produced_new = (case prepared_new of None \<Rightarrow> new | Some p \<Rightarrow> pm_data p)\<rparr>)) Q E w1"
  proof (cases pre)
    case True
    then show ?thesis using commit [of None w1] w1 by (simp add: tx_def)
  next
    case False
    have "wp (prepare_reference dir (se_codec env) ids r_id o_id) (\<lambda>q. wp (commit_pair env (tx q)) Q E) E w1"
    proof (rule wp_frame [OF keeps_prepare_reference w1])
      fix a and w' :: lifecycle_brain
      assume a: "prepare_reference dir (se_codec env) ids r_id o_id w1 = (Inr a, w')" and w': "stands f l n w'"
      show "wp (commit_pair env (tx a)) Q E w'"
        by (rule commit [OF _ w']) (use prepare_reference_result [OF q(2) a] q(4) False in auto)
    qed (use E stands_untouched in blast)
    then show ?thesis using False by (auto simp: tx_def intro: wp_bindP)
  qed
qed (use E stands_untouched in blast)


text \<open>What a run may end with: the state as it was, or applied.\<close>

definition one_of ::
  "supersession_env \<Rightarrow> direction \<Rightarrow> pystr \<Rightarrow> pystr \<Rightarrow> (pystr \<Rightarrow> item_entry option) \<Rightarrow> ledger_line list \<times> bool
   \<Rightarrow> supersession_result \<Rightarrow> lifecycle_brain \<Rightarrow> bool" where
  "one_of env dir r_id o_id f l x w \<longleftrightarrow>
     kept_blocked x \<and> untouched env f l w \<or> success dir x \<and> (\<exists>pre. applied_on env dir r_id o_id pre f l w)"

definition one_of_states ::
  "supersession_env \<Rightarrow> direction \<Rightarrow> pystr \<Rightarrow> pystr \<Rightarrow> (pystr \<Rightarrow> item_entry option) \<Rightarrow> ledger_line list \<times> bool
   \<Rightarrow> lifecycle_brain \<Rightarrow> bool" where
  "one_of_states env dir r_id o_id f l w \<longleftrightarrow>
     untouched env f l w \<or> (\<exists>pre. applied_on env dir r_id o_id pre f l w)"

lemma one_ofI: 
  "kept_blocked x \<Longrightarrow> untouched env f l w \<Longrightarrow> one_of env dir r_id o_id f l x w"
  "success dir x \<Longrightarrow> applied_on env dir r_id o_id pre f l w \<Longrightarrow> one_of env dir r_id o_id f l x w"
  "untouched env f l w \<Longrightarrow> one_of_states env dir r_id o_id f l w"
  "applied_on env dir r_id o_id pre f l w \<Longrightarrow> one_of_states env dir r_id o_id f l w"
  by (auto simp: one_of_def one_of_states_def)

abbreviation ends ::
  "supersession_env \<Rightarrow> direction \<Rightarrow> pystr \<Rightarrow> pystr \<Rightarrow> (pystr \<Rightarrow> item_entry option) \<Rightarrow> ledger_line list \<times> bool
   \<Rightarrow> (lifecycle_brain, supersession_result) prog \<Rightarrow> lifecycle_brain \<Rightarrow> bool" where
  "ends env dir r_id o_id f l m w \<equiv> wp m (one_of env dir r_id o_id f l) (\<lambda>e. one_of_states env dir r_id o_id f l) w"

lemma ends_frame:
  assumes "keeps (only_files {} False) m" "stands f l n w"
    and "\<And>a w'. m w = (Inr a, w') \<Longrightarrow> stands f l n w' \<Longrightarrow> ends env dir r_id o_id f l (g a) w'"
  shows "ends env dir r_id o_id f l (bindP m g) w"
  by (rule wp_bindP, rule wp_frame [OF assms(1,2)])
    (use assms(3) in \<open>auto intro: one_ofI stands_untouched\<close>)

lemma ends_blocked: "reason \<noteq> ''ROLLBACK_FAILED'' \<Longrightarrow> untouched env f l w \<Longrightarrow> ends env dir r_id o_id f l (ret (blocked_run reason a b s)) w"
  by (rule wp_ret) (blast intro: one_ofI kept_blocked_run)

lemma transact_saved_ends:
  assumes pair: "o_id \<noteq> r_id" "is_valid_memory_item_id o_id" "is_valid_memory_item_id r_id" "o_id \<in> set ids" "r_id \<in> set ids"
    and w: "stands f l n w" "n \<le> 1" and bytes: "f o_id = Some (Regular old)" "f r_id = Some (Regular new)"
    and ok: "clock_ok (se_ledger env)" "validate_item_ids [o_id, r_id]" "is_git_object_id s"
  shows "ends env dir r_id o_id f l (transact_saved env ids dir r_id o_id pre old new s) w"
  unfolding transact_saved_def
proof (rule ends_frame [OF keeps_revalidate w(1)])
  fix valid and w1 :: lifecycle_brain assume w1: "stands f l n w1"
  show "ends env dir r_id o_id f l (if \<not> valid then
         bindP (record_blocked_best_effort env (action_name dir) ''CONCURRENT_MODIFICATION'' o_id r_id (Some s) pre) (\<lambda>_.
         ret (blocked_run ''CONCURRENT_MODIFICATION'' r_id o_id (Some s)))
       else prepare_and_commit env ids dir r_id o_id pre old new s) w1"
  proof (rule wp_if)
    assume "\<not> valid"
    show "ends env dir r_id o_id f l (bindP (record_blocked_best_effort env (action_name dir) ''CONCURRENT_MODIFICATION'' o_id r_id (Some s) pre)
        (\<lambda>_. ret (blocked_run ''CONCURRENT_MODIFICATION'' r_id o_id (Some s)))) w1"
      by (rule wp_bindP, rule wp_record_blocked [OF w1 w(2)], rule ends_blocked)
        (auto simp: untouched_def intro: one_ofI(3) stands_untouched)
  next
    show "ends env dir r_id o_id f l (prepare_and_commit env ids dir r_id o_id pre old new s) w1"
      by (rule wp_prepare_and_commit [OF pair w1 w(2) bytes ok]) (blast intro: one_ofI)+
  qed
qed

lemma transact_ends:
  assumes pair: "o_id \<noteq> r_id" "is_valid_memory_item_id o_id" "is_valid_memory_item_id r_id" "o_id \<in> set ids" "r_id \<in> set ids"
    and w: "stands f l n w" "n \<le> 1" and ok: "clock_ok (se_ledger env)"
  shows "ends env dir r_id o_id f l (transact env ids dir r_id o_id pre) w"
  unfolding transact_def
proof (rule ends_frame [OF keeps_view_read w(1)], rule ends_frame [OF keeps_view_read], assumption,
    rule ends_frame [OF keeps_save_pair], assumption)
  fix old w1 new w2 snap and w3 :: lifecycle_brain
  assume old: "view_read_bytes ids o_id w = (Inr old, w1)" "stands f l n w1"
    and new: "view_read_bytes ids r_id w1 = (Inr new, w2)" "stands f l n w2"
    and saved: "save_pair env o_id old r_id new w2 = (Inr snap, w3)" "stands f l n w3"
  have bytes: "f o_id = Some (Regular old)" "f r_id = Some (Regular new)"
    using view_read_result [OF _ old(1)] view_read_result [OF _ new(1)] w(1) old(2) by (simp_all add: stands_def)
  show "ends env dir r_id o_id f l (case snap of
         None \<Rightarrow> ret (blocked_run ''SNAPSHOT_FAILED'' r_id o_id None)
       | Some s \<Rightarrow> transact_saved env ids dir r_id o_id pre old new s) w3"
  proof (cases snap)
    case None
    then show ?thesis using saved(2) by (auto intro!: ends_blocked stands_untouched)
  next
    case (Some s)
    then show ?thesis
      using transact_saved_ends [OF pair saved(2) w(2) bytes ok saved_pair [OF saved(1) [unfolded Some]]] by simp
  qed
qed


section \<open>Runs\<close>

lemma returns_bindP_of: "returns P m \<Longrightarrow> (\<And>a. P a \<Longrightarrow> returns Q (f a)) \<Longrightarrow> returns Q (bindP m f)"
  unfolding returns_def bindP_Inr_iff by blast

lemma returns_asks: "(\<And>a. P a) \<Longrightarrow> returns P (asks f)"
  by (simp add: returns_def)

lemma returns_raise: "returns P (raise e)"
  by (simp add: returns_def)

lemma walk_reason: "returns (\<lambda>r. r \<noteq> ''ROLLBACK_FAILED'') (walk_chain env fuel cursor seen)"
proof (induction fuel arbitrary: cursor seen)
  case 0
  show ?case
    by (subst walk_chain.simps) (auto intro!: returns_ret returns_raise split: option.splits)
next
  case (Suc k)
  then show ?case
    by (subst walk_chain.simps) (auto intro!: returns_ret returns_bindP split: option.splits item_load.splits)
qed

lemma validate_reason: "returns (\<lambda>r. r \<noteq> ''ROLLBACK_FAILED'') (validate_pair env a b)"
  unfolding validate_pair_def by (intro returns_if returns_ret returns_bindP walk_reason) simp_all

lemma preview_kept: "returns (\<lambda>p. sr_status p = lit ''blocked'' \<longrightarrow> kept_blocked p) (preview_of dir env r_id o_id)"
proof -
  have "returns (\<lambda>p. sr_status p = lit ''blocked'' \<longrightarrow> kept_blocked p)
     (bindP (validate_pair env a b) (\<lambda>reason.
         if reason \<noteq> ''OK'' then ret (result_of ''blocked'' reason r_id o_id)
         else if mi_superseded_by b = Some (mi_id a)
           then ret (result_of ''already_applied'' ''ALREADY_APPLIED'' (mi_id a) (mi_id b))
         else if given_text (mi_superseded_by b)
           then ret (result_of ''blocked'' ''OBSOLETE_ALREADY_SUPERSEDED'' r_id o_id)
         else ret (result_of ''ready'' ''OK'' (mi_id a) (mi_id b))))" for a b
    by (rule returns_bindP_of [OF validate_reason], intro returns_if returns_ret)
      (simp_all add: kept_blocked_def failed_rollback_def)
  moreover have "returns (\<lambda>p. sr_status p = lit ''blocked'' \<longrightarrow> kept_blocked p)
     (if mi_superseded_by b = None then ret (result_of ''blocked'' ''SUPERSESSION_NOT_APPLIED'' (mi_id a) (mi_id b))
       else if mi_superseded_by b \<noteq> Some (mi_id a)
         then ret (result_of ''blocked'' ''SUPERSESSION_MISMATCH'' (mi_id a) (mi_id b))
       else ret (result_of ''ready'' ''OK'' (mi_id a) (mi_id b)) :: (lifecycle_brain, supersession_result) prog)" for a b
    by (intro returns_if returns_ret) (simp_all add: kept_blocked_def failed_rollback_def)
  ultimately show ?thesis
    by (cases dir)
      (auto simp: preview_current_def preview_revert_current_def kept_blocked_def failed_rollback_def intro!: returns_preview_pair)
qed


definition run_ends ::
  "supersession_env \<Rightarrow> direction \<Rightarrow> pystr \<Rightarrow> pystr \<Rightarrow> (pystr \<Rightarrow> item_entry option) \<Rightarrow> ledger_line list \<times> bool
   \<Rightarrow> supersession_result \<Rightarrow> lifecycle_brain \<Rightarrow> bool" where
  "run_ends env dir r_id o_id f l x w \<longleftrightarrow>
     one_of env dir r_id o_id f l x w \<or> dir = Supersede \<and> sr_status x = lit ''already_applied'' \<and> untouched env f l w"

abbreviation run_wp ::
  "supersession_env \<Rightarrow> direction \<Rightarrow> pystr \<Rightarrow> pystr \<Rightarrow> (pystr \<Rightarrow> item_entry option) \<Rightarrow> ledger_line list \<times> bool
   \<Rightarrow> (lifecycle_brain, supersession_result) prog \<Rightarrow> lifecycle_brain \<Rightarrow> bool" where
  "run_wp env dir r_id o_id f l m w \<equiv> wp m (run_ends env dir r_id o_id f l) (\<lambda>e. one_of_states env dir r_id o_id f l) w"

lemma run_frame:
  assumes "keeps (only_files {} False) m" "stands f l n w"
    and "\<And>a w'. m w = (Inr a, w') \<Longrightarrow> stands f l n w' \<Longrightarrow> run_wp env dir r_id o_id f l (g a) w'"
  shows "run_wp env dir r_id o_id f l (bindP m g) w"
  by (rule wp_bindP, rule wp_frame [OF assms(1,2)])
    (use assms(3) in \<open>auto intro: one_ofI stands_untouched\<close>)

lemma memory_at_stands:
  fixes w w' :: lifecycle_brain
  shows "stands f l n w \<Longrightarrow> stands f l k w' \<Longrightarrow> memory_at env w' = memory_at env w"
  by (rule memory_at_unchanged) (simp add: same_items_def stands_def)

lemma transact_pair_ends:
  assumes pair: "r_id \<noteq> o_id" "is_valid_memory_item_id r_id" "is_valid_memory_item_id o_id"
      "memory_at env w r_id \<noteq> None" "memory_at env w o_id \<noteq> None"
    and w: "stands f l n w" "n \<le> 1" and ok: "clock_ok (se_ledger env)"
  shows "ends env dir r_id o_id f l (transact_pair dir env r_id o_id) w"
  unfolding transact_pair_def
proof (rule ends_frame [OF keeps_view_get w(1)], rule ends_frame [OF keeps_view_get], assumption)
  fix a w1 b and w2 :: lifecycle_brain
  assume a: "view_get (se_codec env) [r_id, o_id] r_id w = (Inr a, w1)" "stands f l n w1"
    and b: "view_get (se_codec env) [r_id, o_id] o_id w1 = (Inr b, w2)" and w2: "stands f l n w2"
  have q: "undisturbed w" "undisturbed w1" using w a(2) by (simp_all add: stands_def)
  have ids: "mi_id (fst a) = r_id" "mi_id (fst b) = o_id"
    using view_get_memory(2) [OF q(1) pair(4) a(1)] view_get_memory(2) [OF q(2) _ b]
      pair(5) memory_at_stands [OF w(1) a(2)] by simp_all
  have transacted: "ends env dir r_id o_id f l (transact env [r_id, o_id] dir r_id o_id pre) v" if "stands f l n v" for v pre
    by (rule transact_ends [OF _ pair(3,2) _ _ that w(2) ok]) (use pair(1) in simp_all)
  show "ends env dir r_id o_id f l (case dir of
         Supersede \<Rightarrow> transact env [r_id, o_id] Supersede (mi_id (fst a)) (mi_id (fst b))
           (mi_id (fst b) \<in> set (rf_mems (mi_refs (fst a))))
       | Revert \<Rightarrow>
           bindP (latest_applied_supersession_record (se_ledger env) (mi_id (fst a)) (mi_id (fst b))) (\<lambda>applied.
             transact env [r_id, o_id] Revert (mi_id (fst a)) (mi_id (fst b))
               (case applied of None \<Rightarrow> True | Some r \<Rightarrow> rc_replacement_ref_preexisted r))) w2"
  proof (cases dir)
    case Supersede
    then show ?thesis using transacted [OF w2] ids by simp
  next
    case Revert
    have "ends env dir r_id o_id f l (bindP (latest_applied_supersession_record (se_ledger env) r_id o_id) (\<lambda>applied.
             transact env [r_id, o_id] dir r_id o_id
               (case applied of None \<Rightarrow> True | Some r \<Rightarrow> rc_replacement_ref_preexisted r))) w2"
      by (rule ends_frame [OF keeps_latest w2]) (rule transacted)
    then show ?thesis using ids Revert by simp
  qed
qed

lemma after_preview_wp:
  assumes p: "preview_of dir env r_id o_id w0 = (Inr p, w)" and w: "stands f l n w"
    and proceed: "sr_status p = lit ''ready'' \<Longrightarrow> run_wp env dir r_id o_id f l proceed w"
  shows "run_wp env dir r_id o_id f l (after_preview dir env proceed p) w"
  unfolding after_preview_def
proof (intro wp_if)
  assume already: "dir = Supersede \<and> sr_status p = lit ''already_applied''"
  show "run_wp env dir r_id o_id f l (already_applied_with_index_sync env p) w"
    by (rule wp_frame [OF keeps_already_applied w])
      (use already in \<open>auto simp: run_ends_def dest: already_applied_status intro: one_ofI stands_untouched\<close>)
next
  assume not_already: "\<not> (dir = Supersede \<and> sr_status p = lit ''already_applied'')" and "sr_status p \<noteq> lit ''ready''"
  then have "kept_blocked p" using preview_status_of [OF p] preview_kept [of dir env r_id o_id] p unfolding returns_def by blast
  then have "kept_blocked (executed p)" by (simp add: kept_blocked_def failed_rollback_def)
  then show "run_wp env dir r_id o_id f l (ret (executed p)) w"
    by (intro wp_ret) (simp add: run_ends_def one_ofI stands_untouched [OF w])
qed (use proceed in simp)

lemma run_supersession_ends:
  assumes w: "stands f l n w" "n \<le> 1" and ok: "clock_ok (se_ledger env)"
  shows "run_wp env dir r_id o_id f l (run_supersession dir env r_id o_id True) w"
  unfolding run_supersession_eq
proof (intro wp_if)
  assume invalid: "\<not> (is_valid_memory_item_id r_id \<and> is_valid_memory_item_id o_id)"
  show "run_wp env dir r_id o_id f l (bindP (preview_of dir env r_id o_id) (\<lambda>p. ret (executed p))) w"
  proof (rule run_frame [OF keeps_preview_of w(1)])
    fix p w' assume p: "preview_of dir env r_id o_id w = (Inr p, w')" and w': "stands f l n w'"
    have "undisturbed w" using w(1) by (simp add: stands_def)
    then have "sr_status p = lit ''blocked''" using preview_loaded(1,2) [OF _ p] invalid by blast
    then have "kept_blocked (executed p)" using p preview_kept [of dir env r_id o_id]
      by (auto simp: returns_def kept_blocked_def failed_rollback_def)
    then show "run_wp env dir r_id o_id f l (ret (executed p)) w'"
      by (intro wp_ret) (simp add: run_ends_def one_ofI stands_untouched [OF w'])
  qed
next
  show "run_wp env dir r_id o_id f l (ret (executed (result_of ''blocked'' ''PLATFORM_UNSUPPORTED'' r_id o_id))) w"
    by (intro wp_ret) (simp add: run_ends_def one_of_def kept_blocked_def failed_rollback_def stands_untouched [OF w(1)])
next
  have locks: "keeps (only_files {} False) acquire_locks" by (simp add: acquire_locks_def keeps_rules)
  show "run_wp env dir r_id o_id f l (bindP acquire_locks (\<lambda>_. bindP (preview_of dir env r_id o_id) (after_preview dir env
             (bindP (preview_of dir env r_id o_id) (after_preview dir env (transact_pair dir env r_id o_id)))))) w"
  proof (rule run_frame [OF locks w(1)], rule run_frame [OF keeps_preview_of], assumption)
    fix w1 p and w2 :: lifecycle_brain
    assume p: "preview_of dir env r_id o_id w1 = (Inr p, w2)" and w2: "stands f l n w2"
    show "run_wp env dir r_id o_id f l (after_preview dir env
             (bindP (preview_of dir env r_id o_id) (after_preview dir env (transact_pair dir env r_id o_id))) p) w2"
    proof (rule after_preview_wp [OF p w2], rule run_frame [OF keeps_preview_of w2])
      fix c w3 assume c: "preview_of dir env r_id o_id w2 = (Inr c, w3)" and w3: "stands f l n w3"
      show "run_wp env dir r_id o_id f l (after_preview dir env (transact_pair dir env r_id o_id) c) w3"
      proof (rule after_preview_wp [OF c w3])
        assume "sr_status c = lit ''ready''"
        then have "sr_status c \<noteq> lit ''blocked''" by simp
        note loaded = preview_loaded [OF _ c this]
        have "undisturbed w2" using w2 by (simp add: stands_def)
        then have "ends env dir r_id o_id f l (transact_pair dir env r_id o_id) w3"
          using transact_pair_ends [OF _ _ _ _ _ w3 w(2) ok] loaded memory_at_stands [OF w2 w3] by metis
        then show "run_wp env dir r_id o_id f l (transact_pair dir env r_id o_id) w3"
          by (rule wp_mono) (auto simp: run_ends_def)
      qed
    qed
  qed
qed

lemma untouched_unchanged:
  "untouched env (\<lambda>i. item_file i w) (ledger_of w) w' \<Longrightarrow> same_items w w' \<and> logged (se_ledger env) (ledger_of w) (ledger_of w')"
  by (auto simp: untouched_def same_items_def stands_def)

end
