(* ===== verification/SupersessionProgress.thy ===== *)
theory SupersessionProgress imports SupersessionFaults begin

text \<open>
  Progress. In a state where no call will fail and nobody else edits, reading is a function of the files:
  a preview gives the same answer again. So a supersession that a dry run finds ready goes through.
\<close>

section \<open>Reading is a function of the files\<close>

definition alike :: "lifecycle_brain \<Rightarrow> lifecycle_brain \<Rightarrow> bool" where
  "alike w w' \<longleftrightarrow> undisturbed w \<and> undisturbed w' \<and> faults w = 0 \<and> faults w' = 0 \<and> br_items w' = br_items w"

definition steady :: "(lifecycle_brain, 'a) prog \<Rightarrow> bool" where
  "steady m \<longleftrightarrow> (\<forall>w w'. alike w w' \<longrightarrow> fst (m w) = fst (m w') \<and> alike w (snd (m w)))"

named_theorems steady_rules \<open>programs that read\<close>

lemma alike_sym: "alike w w' \<Longrightarrow> alike w' w"
  by (simp add: alike_def)

lemma alike_trans: "alike w v \<Longrightarrow> alike v u \<Longrightarrow> alike w u"
  by (simp add: alike_def)

lemma alike_refl: "alike w w' \<Longrightarrow> alike w w"
  by (simp add: alike_def)

lemma steadyD:
  assumes "steady m" "alike w w'" "m w = (r, v)" "m w' = (r', v')"
  shows "r' = r" "alike v v'" "alike w v"
proof -
  have "fst (m w) = fst (m w')" "alike w (snd (m w))" "alike w' (snd (m w'))"
    using assms(1,2) alike_sym [OF assms(2)] unfolding steady_def by blast+
  then have "r = r'" "alike w v" "alike w' v'" unfolding assms(3,4) by simp_all
  then show "r' = r" "alike w v" "alike v v'"
    using alike_trans [OF alike_sym [OF \<open>alike w v\<close>]] alike_trans [OF assms(2)] by blast+
qed

lemma steady_pure [steady_rules]:
  "steady (ret a)" "steady (raise e)" "steady (lift_result r)" "steady (check b e)"
  by (auto simp: steady_def alike_def)

lemma steady_bindP [steady_rules]:
  assumes m: "steady m" and f: "\<And>a. steady (f a)"
  shows "steady (bindP m f)"
  unfolding steady_def
proof (intro allI impI)
  fix w w' assume a: "alike w w'"
  obtain r v r' v' where run: "m w = (r, v)" "m w' = (r', v')" by fastforce
  note one = steadyD [OF m a run]
  show "fst (bindP m f w) = fst (bindP m f w') \<and> alike w (snd (bindP m f w))"
  proof (cases r)
    case (Inl e)
    then show ?thesis using run one by (simp add: bindP_def)
  next
    case (Inr x)
    have "fst (f x v) = fst (f x v')" "alike v (snd (f x v))" using f [of x] one(2) unfolding steady_def by blast+
    then show ?thesis using run one Inr alike_trans by (auto simp: bindP_def)
  qed
qed

lemma steady_try [steady_rules]:
  assumes m: "steady m" and h: "\<And>e. steady (h e)"
  shows "steady (try_catch m h)"
  unfolding steady_def
proof (intro allI impI)
  fix w w' assume a: "alike w w'"
  obtain r v r' v' where run: "m w = (r, v)" "m w' = (r', v')" by fastforce
  note one = steadyD [OF m a run]
  show "fst (try_catch m h w) = fst (try_catch m h w') \<and> alike w (snd (try_catch m h w))"
  proof (cases r)
    case (Inr e)
    then show ?thesis using run one by (simp add: try_catch_def)
  next
    case (Inl x)
    have "fst (h x v) = fst (h x v')" "alike v (snd (h x v))" using h [of x] one(2) unfolding steady_def by blast+
    then show ?thesis using run one Inl alike_trans by (auto simp: try_catch_def)
  qed
qed

lemma steady_if [steady_rules]: "(b \<Longrightarrow> steady m) \<Longrightarrow> (\<not> b \<Longrightarrow> steady n) \<Longrightarrow> steady (if b then m else n)"
  by simp

lemma steady_load_case [steady_rules]:
  "(\<And>item. x = Loaded item \<Longrightarrow> steady (f item)) \<Longrightarrow> (x = Missing \<Longrightarrow> steady m) \<Longrightarrow> (x = Invalid \<Longrightarrow> steady n)
    \<Longrightarrow> steady (case x of Loaded item \<Rightarrow> f item | Missing \<Rightarrow> m | Invalid \<Rightarrow> n)"
  by (cases x) simp_all

lemma steady_read [steady_rules]: "steady (read_item_file i)"
proof -
  have run: "\<exists>v. read_item_file i w = (case map_of (br_items w) i of
         None \<Rightarrow> Inl FileNotFound
       | Some Unsafe \<Rightarrow> Inl (OSErr ''UNSAFE_FILE'')
       | Some (Regular data) \<Rightarrow> Inr data, v) \<and> alike w v" if "alike w w'" for w w' :: lifecycle_brain
  proof -
    obtain event and v :: lifecycle_brain where ev: "next_event w = (event, v)" by fastforce
    have w: "undisturbed w" "faults w = 0" using that by (simp_all add: alike_def)
    have "fe_outcome event = Proceeds" "faults v = 0"
      using next_event_faults [OF ev] w by (auto split: if_splits)
    then show ?thesis
      using next_event_quiet [OF w(1) ev] w by (simp add: read_item_file_def fs_step_def ev item_file_def alike_def)
  qed
  have "fst (read_item_file i w) = fst (read_item_file i w') \<and> alike w (snd (read_item_file i w))"
    if "alike w w'" for w w' :: lifecycle_brain
    using run [OF that] run [OF alike_sym [OF that]] that by (auto simp: alike_def)
  then show ?thesis unfolding steady_def by blast
qed

lemma steady_fuel [steady_rules]: "steady (asks chain_fuel)"
proof -
  have none: "undisturbed w \<Longrightarrow> concat (map fe_edits (br_script w)) = []" for w :: lifecycle_brain
    by (auto simp: undisturbed_def list_all_iff)
  show ?thesis by (auto simp: steady_def chain_fuel_def alike_def none simp del: concat_eq_Nil_conv)
qed

lemma steady_load [steady_rules]: "steady (load_item env i)"
  unfolding load_item_def get_nofollow_def read_bytes_nofollow_def split_def by (intro steady_rules)

lemma steady_walk [steady_rules]: "steady (walk_chain env fuel cursor seen)"
proof (induction fuel arbitrary: cursor seen)
  case 0
  show ?case by (subst walk_chain.simps) (auto intro!: steady_rules split: option.splits)
next
  case (Suc k)
  then show ?case by (subst walk_chain.simps) (auto intro!: steady_rules split: option.splits)
qed

lemma steady_validate [steady_rules]: "steady (validate_pair env a b)"
  unfolding validate_pair_def by (intro steady_rules)

lemma steady_preview [steady_rules]: "steady (preview_current env r_id o_id)"
  unfolding preview_current_def preview_pair_def Let_def by (intro steady_rules)


lemma steady_view_read [steady_rules]: "steady (view_read_bytes ids i)"
  unfolding view_read_bytes_def require_locked_def by (intro steady_rules)

lemma steady_view_get [steady_rules]: "steady (view_get cd ids i)"
  unfolding view_get_def by (intro steady_rules)

text \<open>What a program read once it reads again.\<close>

lemma wp_again:
  assumes m: "steady m" "keeps (only_files {} False) m" and a: "alike w v" "stands f l 0 v" and run: "m w = (Inr x, w0)"
    and Q: "\<And>v'. alike w v' \<Longrightarrow> stands f l 0 v' \<Longrightarrow> Q x v'"
  shows "wp m Q E v"
proof -
  obtain r v' where run': "m v = (r, v')" by fastforce
  have "r = Inr x" "alike w v'"
    using steadyD [OF m(1) a(1) run run'] alike_trans by blast+
  moreover have "stands f l 0 v'"
    using keepsD [OF m(2) run'] a(2) by (auto simp: only_files_def stands_def)
  ultimately show ?thesis using Q run' by (simp add: wp_def)
qed

lemma wp_alike:
  assumes "steady m" "alike w v" "wp m (\<lambda>a v'. alike w v' \<longrightarrow> Q a v') E v"
  shows "wp m Q E v"
proof -
  obtain r v' where run: "m v = (r, v')" by fastforce
  have "alike v v'" using steadyD(3) [OF assms(1) alike_sym [OF assms(2)] run] by (cases "m w") blast
  then show ?thesis using assms(2,3) run alike_trans by (cases r) (auto simp: wp_def)
qed

section \<open>Nothing interrupts\<close>

text \<open>No call of the libraries raises an interrupt.\<close>

definition no_interrupts :: "supersession_env \<Rightarrow> bool" where
  "no_interrupts env \<longleftrightarrow>
     (\<forall>t. ic_yaml_load (se_codec env) t \<noteq> Inl Interrupted)
     \<and> (\<forall>q item body ix. se_index env = Some q \<longrightarrow> index_upsert q item body None ix \<noteq> Inl Interrupted)"

definition unicode_only :: "'a result \<Rightarrow> bool" where
  "unicode_only r \<longleftrightarrow> (\<forall>e. r = Inl e \<longrightarrow> e = unicode_error)"

lemma unicode_only_intros [simp]:
  "unicode_only (Inr a)" "unicode_only (Inl unicode_error)" "unicode_only rest \<Longrightarrow> unicode_only (utf8_cons ok c rest)"
  by (cases rest; simp add: unicode_only_def utf8_cons_def)+

lemma decode_unicode_only: "unicode_only (utf8_decode bs)"
proof (induction bs rule: length_induct)
  case (1 bs)
  show ?case
  proof (cases bs)
    case (Cons b rest)
    then have shorter: "length r \<le> length rest \<Longrightarrow> unicode_only (utf8_decode r)" for r using 1 by simp
    show ?thesis
      unfolding Cons utf8_decode.simps Let_def by (simp add: shorter split: list.split)
  qed simp
qed

lemma bindR_Inl_iff: "bindR m g = Inl e \<longleftrightarrow> m = Inl e \<or> (\<exists>a. m = Inr a \<and> g a = Inl e)"
  by (cases m) simp_all

lemma parse_error_other:
  assumes "\<And>t. ic_yaml_load cd t \<noteq> Inl (OtherError x)"
  shows "parse_item_bytes cd b \<noteq> Inl (OtherError x)"
proof -
  have validate: "model_validate cd data \<noteq> Inl (OtherError x)" for data
    by (auto simp: model_validate_def split: field_value.splits sum.splits)
  have markdown: "parse_item_markdown cd t \<noteq> Inl (OtherError x)" for t
    using validate assms(1)
    by (auto simp: parse_item_markdown_def Let_def bindR_Inl_iff split: if_splits option.splits)
  have decode: "decode_utf8_sig b \<noteq> Inl (OtherError x)"
    using decode_unicode_only by (auto simp: decode_utf8_sig_def unicode_only_def unicode_error_def)
  show ?thesis using markdown decode by (auto simp: parse_item_bytes_def bindR_Inl_iff)
qed

lemma parse_error:
  "(\<And>t. ic_yaml_load cd t \<noteq> Inl Interrupted) \<Longrightarrow> parse_item_bytes cd b = Inl e \<Longrightarrow> e \<noteq> Interrupted"
  using parse_error_other [of cd _ b] unfolding Interrupted_def by blast

lemma wp_read_any:
  assumes "stands f l 0 w" "\<And>b w'. stands f l 0 w' \<Longrightarrow> Q b w'" "\<And>e w'. stands f l 0 w' \<Longrightarrow> e \<noteq> Interrupted \<Longrightarrow> E e w'"
  shows "wp (read_item_file i) Q E w"
  unfolding read_item_file_def
  by (rule wp_fs_step [OF assms(1)])
    (use assms(2,3) in \<open>auto simp: wp_def FileNotFound_def OSErr_def Interrupted_def lit_def split: option.splits item_entry.splits\<close>)

lemma wp_get_any:
  assumes "\<And>t. ic_yaml_load cd t \<noteq> Inl Interrupted" "stands f l 0 w"
    "\<And>b w'. stands f l 0 w' \<Longrightarrow> Q b w'" "\<And>e w'. stands f l 0 w' \<Longrightarrow> e \<noteq> Interrupted \<Longrightarrow> E e w'"
  shows "wp (get_nofollow cd i) Q E w"
  unfolding get_nofollow_def read_bytes_nofollow_def
  by (intro wp_rules wp_read_any) (use assms parse_error [OF assms(1)] in \<open>auto simp: Interrupted_def\<close>)

lemma wp_upsert_any:
  assumes "\<And>ix. index_upsert q item body None ix \<noteq> Inl Interrupted" "stands f l 0 w"
    "\<And>w'. stands f l 0 w' \<Longrightarrow> Q () w'" "\<And>e w'. stands f l 0 w' \<Longrightarrow> e \<noteq> Interrupted \<Longrightarrow> E e w'"
  shows "wp (upsert_index q item body) Q E w"
proof -
  have index: "stands f l 0 (w'\<lparr>lb_index := ix\<rparr>)" if "stands f l 0 w'" for w' :: lifecycle_brain and ix
    using that by (simp add: stands_def undisturbed_def item_file_def ledger_of_def faults_def)
  show ?thesis
    unfolding upsert_index_def
    by (rule wp_fs_step [OF assms(2)]) (use assms index in \<open>auto simp: wp_def split: sum.splits intro!: assms(4)\<close>)
qed

lemma wp_sync_index:
  assumes env: "no_interrupts env" and w: "stands f l 0 w" and Q: "\<And>b w'. stands f l 0 w' \<Longrightarrow> Q b w'"
  shows "wp (sync_index env r_id o_id) Q E w"
proof (cases "se_index env")
  case None
  then show ?thesis using Q [OF w] by (simp add: sync_index_def wp_ret)
next
  case (Some q)
  have load: "ic_yaml_load (se_codec env) t \<noteq> Inl Interrupted" and up: "index_upsert q item body None ix \<noteq> Inl Interrupted"
    for t item body ix using env Some by (auto simp: no_interrupts_def)
  show ?thesis
    unfolding sync_index_def Some option.case split_def
    by (intro wp_try_catch wp_bindP wp_ret wp_get_any [OF load w] wp_get_any [OF load] wp_upsert_any [OF up])
      (auto intro!: wp_ret Q)
qed


section \<open>A ready supersession goes through\<close>

text \<open>Everything a supersession of \<open>o_id\<close> by \<open>r_id\<close> needs beside a ready preview.\<close>

definition can_prepare :: "supersession_env \<Rightarrow> pystr \<Rightarrow> pystr \<Rightarrow> 'z brain_scheme \<Rightarrow> bool" where
  "can_prepare env r_id o_id w \<longleftrightarrow>
     (case (item_file o_id w, item_file r_id w) of
        (Some (Regular old), Some (Regular new)) \<Rightarrow>
          (\<exists>a b. superseded_bytes Supersede (se_codec env) r_id o_id old = Inr a
             \<and> referenced_bytes Supersede (se_codec env) r_id o_id new = Inr b)
      | _ \<Rightarrow> False)"

definition equipped :: "supersession_env \<Rightarrow> bool" where
  "equipped env \<longleftrightarrow>
     se_capable env \<and> clock_ok (se_ledger env) \<and> no_interrupts env
     \<and> (\<forall>history tree. is_git_object_id (se_commit_id env history tree))"

lemma snapshot_items_run:
  assumes "validate_item_ids (map fst (sort_key fst items))" "next_event w = (event, v)" "fe_outcome event = Proceeds"
    "is_git_object_id (se_commit_id env (lb_history v) (sort_key fst items))"
  shows "snapshot_items env items w = (Inr (se_commit_id env (lb_history v) (sort_key fst items)),
     v\<lparr>lb_history := (se_commit_id env (lb_history v) (sort_key fst items), sort_key fst items) # lb_history v\<rparr>)"
  using assms by (simp add: snapshot_items_def Let_def try_catch_def bindP_def fs_step_def)

lemma wp_save_pair:
  assumes env: "equipped env" "validate_item_ids [o_id, r_id]" and w: "stands f l 0 w" "alike u w"
    and Q: "\<And>s w'. is_git_object_id s \<Longrightarrow> stands f l 0 w' \<Longrightarrow> alike u w' \<Longrightarrow> Q (Some s) w'"
  shows "wp (save_pair env o_id old r_id new) Q E w"
proof -
  let ?items = "[(o_id, old), (r_id, new)]"
  define tree where "tree = sort_key fst ?items"
  have tree: "validate_item_ids (map fst tree)"
    using env(2) by (auto simp: tree_def validate_item_ids_def)
  obtain event and v :: lifecycle_brain where ev: "next_event w = (event, v)" by fastforce
  note one = next_event_stands [OF w(1) ev]
  have proceeds: "fe_outcome event = Proceeds" using one(2) by blast
  define c where "c = se_commit_id env (lb_history v) tree"
  have c: "is_git_object_id c" using env(1) by (simp add: equipped_def c_def)
  have run: "save_pair env o_id old r_id new w = (Inr (Some c), v\<lparr>lb_history := (c, tree) # lb_history v\<rparr>)"
    using snapshot_items_run [OF tree [unfolded tree_def] ev proceeds, of env] c env(2)
    by (simp only: save_pair_def snapshot_pair_def try_catch_def bindP_def c_def tree_def) (simp del: sort_key_simps)
  have "stands f l 0 (v\<lparr>lb_history := (c, tree) # lb_history v\<rparr>)"
    using one(1) by (simp add: stands_def undisturbed_def item_file_def ledger_of_def faults_def)
  moreover have "alike u (v\<lparr>lb_history := (c, tree) # lb_history v\<rparr>)"
    using w(2) next_event_quiet(1,2) [OF _ ev] one(1) by (auto simp: alike_def stands_def undisturbed_def faults_def)
  ultimately show ?thesis using run Q [OF c] by (simp add: wp_def)
qed

lemma wp_revalidate:
  assumes w: "stands f l 0 w" "alike u w" and ids: "o_id \<in> set ids" "r_id \<in> set ids"
    and bytes: "f o_id = Some (Regular old)" "f r_id = Some (Regular new)"
    and items: "parse_item_bytes (se_codec env) new = Inr (replacement, body)" "mi_id replacement = r_id"
      "parse_item_bytes (se_codec env) old = Inr (obsolete, body')" "mi_id obsolete = o_id" "mi_superseded_by obsolete = None"
    and valid: "validate_pair env replacement obsolete u = (Inr ''OK'', u')"
    and Q: "\<And>w'. stands f l 0 w' \<Longrightarrow> Q True w'"
  shows "wp (revalidate_locked_pair env ids Supersede r_id o_id new old) Q E w"
proof -
  let ?cd = "se_codec env"
  have checked: "wp (validate_pair env replacement obsolete) (\<lambda>reason. wp (ret (reason = ''OK'')) Q E) E v"
    if "stands f l 0 v" "alike u v" for v
    by (rule wp_again [OF steady_validate keeps_validate_pair that(2,1) valid]) (simp add: Q wp_ret)
  have read_all: "wp (bindP (view_read_bytes ids r_id) (\<lambda>b.
            if b \<noteq> new then ret None
            else bindP (view_read_bytes ids o_id) (\<lambda>b.
              if b \<noteq> old then ret None
              else bindP (view_get ?cd ids r_id) (\<lambda>replacement.
                   bindP (view_get ?cd ids o_id) (\<lambda>obsolete.
                     ret (Some (fst replacement, fst obsolete)))))))
      (\<lambda>pair v. pair = Some (replacement, obsolete) \<and> stands f l 0 v) E' w" for E'
    by (intro wp_bindP wp_if wp_ret wp_view_read [OF ids(2) w(1) bytes(2)]
        wp_view_read [where f = f and i = o_id, OF ids(1) _ bytes(1)]
        wp_view_get [where f = f and i = r_id, OF ids(2) _ bytes(2) items(1)]
        wp_view_get [where f = f and i = o_id, OF ids(1) _ bytes(1) items(3)])
      auto
  have steady_all: "steady (bindP (view_read_bytes ids r_id) (\<lambda>b.
            if b \<noteq> new then ret None
            else bindP (view_read_bytes ids o_id) (\<lambda>b.
              if b \<noteq> old then ret None
              else bindP (view_get ?cd ids r_id) (\<lambda>replacement.
                   bindP (view_get ?cd ids o_id) (\<lambda>obsolete.
                     ret (Some (fst replacement, fst obsolete)))))))"
    by (intro steady_rules)
  show ?thesis
    unfolding revalidate_locked_pair_def Let_def
  proof (rule wp_bindP, rule wp_try_catch, rule wp_alike [OF steady_all w(2)], rule wp_mono [OF read_all])
    fix pair and v :: lifecycle_brain assume "pair = Some (replacement, obsolete) \<and> stands f l 0 v"
    then show "alike u v \<longrightarrow> wp (case pair of
          None \<Rightarrow> ret False
        | Some (replacement, obsolete) \<Rightarrow>
            if mi_id replacement \<noteq> r_id \<or> mi_id obsolete \<noteq> o_id then ret False
            else if Supersede = Revert then ret (mi_superseded_by obsolete = Some (mi_id replacement))
            else bindP (validate_pair env replacement obsolete) (\<lambda>reason.
                   ret (reason = ''OK'' \<and> mi_superseded_by obsolete = None))) Q E v"
      using checked items by (simp add: wp_bindP wp_ret)
  qed
qed


lemma wp_prepare_and_commit_calm:
  assumes env: "equipped env" and pair: "validate_item_ids [o_id, r_id]" "o_id \<in> set ids" "r_id \<in> set ids" "is_git_object_id s"
    and w: "stands f l 0 w" and bytes: "f o_id = Some (Regular old)" "f r_id = Some (Regular new)"
    and produced: "superseded_bytes Supersede (se_codec env) r_id o_id old = Inr a"
      "referenced_bytes Supersede (se_codec env) r_id o_id new = Inr b"
    and Q: "\<And>x w'. success Supersede x \<Longrightarrow> Q x w'"
  shows "wp (prepare_and_commit env ids Supersede r_id o_id pre old new s) Q E w"
proof -
  have ok: "is_valid_memory_item_id o_id" "is_valid_memory_item_id r_id" "o_id \<noteq> r_id"
    using pair(1) by (simp_all add: validate_item_ids_def)
  have commit: "wp (commit_pair env tx) Q E v"
    if "prepared_on env f tx" "stands f l 0 v" "tx_direction tx = Supersede" "tx_obsolete tx = o_id" "tx_replacement tx = r_id"
      "tx_snapshot tx = s" for tx v
  proof (rule wp_commit_pair [OF that(1,2)])
    show "valid_record (le_fromisoformat (se_ledger env)) (transaction_record env tx)"
      by (rule valid_transaction_record) (use env pair that in \<open>simp_all add: equipped_def\<close>)
    fix e u w'
    assume sync: "sync_index env (tx_replacement tx) (tx_obsolete tx) u = (Inl e, w')"
      and u: "stands (after_files f tx) (extended (se_ledger env) (transaction_record env tx) l) 0 u"
    have "wp (sync_index env (tx_replacement tx) (tx_obsolete tx)) (\<lambda>_ _. True) (\<lambda>_ _. False) u"
      by (rule wp_sync_index [OF _ u]) (use env in \<open>simp_all add: equipped_def\<close>)
    then show "E e w'" using sync by (simp add: wp_def)
  qed (use Q that in auto)
  obtain p where p: "bindR (parse_item_bytes (se_codec env) old) (prepare_from (se_codec env) o_id (superseded_update Supersede r_id)) = Inr p"
      "pm_data p = a"
    using produced(1) by (auto simp: superseded_bytes_def bindR_Inr_iff)
  show ?thesis
    unfolding prepare_and_commit_def
  proof (rule wp_bindP, rule wp_prepare_update [OF pair(2) w bytes(1) p(1)])
    fix v :: lifecycle_brain assume v: "stands f l 0 v"
    show "wp (bindP (if pre then ret None else prepare_reference Supersede (se_codec env) ids r_id o_id) (\<lambda>prepared_new.
     commit_pair env
       \<lparr>tx_ids = ids, tx_direction = Supersede, tx_replacement = r_id, tx_obsolete = o_id,
        tx_preexisted = pre, tx_old_bytes = old, tx_new_bytes = new,
        tx_snapshot = s, tx_produced_old = pm_data p,
        tx_produced_new = (case prepared_new of None \<Rightarrow> new | Some p \<Rightarrow> pm_data p)\<rparr>)) Q E v"
      by (intro wp_bindP wp_if wp_ret wp_prepare_reference [OF pair(3) v bytes(2) produced(2)] commit)
        (use v ok pair bytes produced p in \<open>auto simp: prepared_on_def\<close>)
  qed simp
qed

lemma wp_transact_calm:
  assumes env: "equipped env" and pair: "validate_item_ids [o_id, r_id]" "o_id \<in> set ids" "r_id \<in> set ids"
    and w: "stands f l 0 w" "alike u w" and bytes: "f o_id = Some (Regular old)" "f r_id = Some (Regular new)"
    and items: "parse_item_bytes (se_codec env) new = Inr (replacement, body)" "mi_id replacement = r_id"
      "parse_item_bytes (se_codec env) old = Inr (obsolete, body')" "mi_id obsolete = o_id" "mi_superseded_by obsolete = None"
    and valid: "validate_pair env replacement obsolete u = (Inr ''OK'', u')"
    and produced: "superseded_bytes Supersede (se_codec env) r_id o_id old = Inr a"
      "referenced_bytes Supersede (se_codec env) r_id o_id new = Inr b"
    and Q: "\<And>x w'. success Supersede x \<Longrightarrow> Q x w'"
  shows "wp (transact env ids Supersede r_id o_id pre) Q E w"
proof -
  have saved: "wp (transact_saved env ids Supersede r_id o_id pre old new s) Q E v"
    if "is_git_object_id s" "stands f l 0 v" "alike u v" for s v
    unfolding transact_saved_def
    by (intro wp_bindP wp_revalidate [OF that(2,3) pair(2,3) bytes items valid] wp_if)
      (auto intro!: wp_prepare_and_commit_calm [OF env pair that(1) _ bytes produced] Q)
  show ?thesis
    unfolding transact_def
    by (rule wp_bindP, rule wp_alike [OF steady_view_read w(2)], rule wp_view_read [OF pair(2) w(1) bytes(1)], rule impI,
        rule wp_bindP, rule wp_alike [OF steady_view_read], assumption, rule wp_view_read [where f = f, OF pair(3)], assumption, rule bytes(2), rule impI,
        rule wp_bindP, rule wp_save_pair [OF env pair(1)], assumption, assumption)
      (auto intro: saved)
qed


lemma preview_ready_validated:
  assumes w: "alike w w" and run: "preview_current env r_id o_id w = (Inr p, w0)" and p: "sr_status p = lit ''ready''"
  obtains replacement obsolete v v' where "memory_at env w r_id = Some replacement" "memory_at env w o_id = Some obsolete"
    "alike w v" "validate_pair env replacement obsolete v = (Inr ''OK'', v')"
proof -
  have q: "undisturbed w" using w by (simp add: alike_def)
  have ids: "is_valid_memory_item_id r_id" "is_valid_memory_item_id o_id" "r_id \<noteq> o_id"
    using preview_loaded(1-3) [of w Supersede env r_id o_id p w0] q run p by simp_all
  have unloaded: "load_failure x \<noteq> ''ready''" for x by (simp add: load_failure_def)
  define decide where "decide = (\<lambda>replacement obsolete.
       bindP (validate_pair env replacement obsolete) (\<lambda>reason.
         if reason \<noteq> ''OK'' then ret (result_of ''blocked'' reason r_id o_id)
         else if mi_superseded_by obsolete = Some (mi_id replacement)
           then ret (result_of ''already_applied'' ''ALREADY_APPLIED'' (mi_id replacement) (mi_id obsolete))
         else if given_text (mi_superseded_by obsolete)
           then ret (result_of ''blocked'' ''OBSOLETE_ALREADY_SUPERSEDED'' r_id o_id)
         else ret (result_of ''ready'' ''OK'' (mi_id replacement) (mi_id obsolete))))"
  have run': "preview_pair env r_id o_id decide w = (Inr p, w0)"
    using run by (simp add: preview_current_def decide_def)
  obtain x w1 where x: "load_item env r_id w = (Inr x, w1)"
    and rest: "(case x of
             Loaded replacement \<Rightarrow>
               bindP (load_item env o_id) (\<lambda>loaded.
                 case loaded of
                   Loaded obsolete \<Rightarrow> decide replacement obsolete
                 | failed \<Rightarrow> ret (result_of ''blocked'' (load_failure failed) r_id o_id))
           | failed \<Rightarrow> ret (result_of ''blocked'' (load_failure failed) r_id o_id)) w1 = (Inr p, w0)"
    using run' ids by (auto simp: preview_pair_def Let_def bindP_Inr_iff)
  obtain replacement where a: "x = Loaded replacement" using rest p by (auto split: item_load.splits)
  obtain y w2 where y: "load_item env o_id w1 = (Inr y, w2)"
    and rest2: "(case y of Loaded obsolete \<Rightarrow> decide replacement obsolete
                 | failed \<Rightarrow> ret (result_of ''blocked'' (load_failure failed) r_id o_id)) w2 = (Inr p, w0)"
    using rest a by (auto simp: bindP_Inr_iff)
  obtain obsolete where b: "y = Loaded obsolete" using rest2 p by (auto split: item_load.splits)
  obtain reason v' where reason: "validate_pair env replacement obsolete w2 = (Inr reason, v')" "reason = ''OK''"
    using rest2 b p by (auto simp: decide_def bindP_Inr_iff split: if_splits)
  have "alike w w1" by (rule steadyD(3) [OF steady_load w x x])
  moreover have "alike w1 w2" by (rule steadyD(3) [OF steady_load _ y y]) (use \<open>alike w w1\<close> in \<open>simp add: alike_def\<close>)
  ultimately have "alike w w2" by (rule alike_trans)
  moreover have "memory_at env w r_id = Some replacement" using load_item_memory [OF q x [unfolded a]] .
  moreover have "memory_at env w o_id = Some obsolete"
    using load_item_memory [OF _ y [unfolded b]] \<open>alike w w1\<close> by (simp add: alike_def memory_at_def item_file_def)
  ultimately show thesis using that reason by blast
qed

lemma ready_run:
  assumes env: "equipped env" and w: "undisturbed w" "faults w = 0"
    and preview: "preview_current env r_id o_id w = (Inr p, w0)" "sr_status p = lit ''ready''"
    and ids: "\<not> has_control r_id" "\<not> has_control o_id"
    and obsolete: "map_option mi_superseded_by (memory_at env w o_id) = Some None"
    and prepare: "can_prepare env r_id o_id w"
  shows "wp (apply_supersession env r_id o_id True) (\<lambda>x w'. success Supersede x) (\<lambda>_ _. False) w"
proof -
  have a: "alike w w" using w by (simp add: alike_def)
  obtain rep obs u u' where items: "memory_at env w r_id = Some rep" "memory_at env w o_id = Some obs"
    and u: "alike w u" "validate_pair env rep obs u = (Inr ''OK'', u')"
    by (rule preview_ready_validated [OF a preview])
  define f where "f = (\<lambda>i. item_file i w)"
  define l where "l = ledger_of w"
  have st: "stands f l 0 w" using w by (simp add: stands_def f_def l_def)
  have valid: "is_valid_memory_item_id r_id" "is_valid_memory_item_id o_id" "r_id \<noteq> o_id"
    using preview_loaded(1-3) [of w Supersede env r_id o_id p w0] w preview by simp_all
  then have saved_ids: "validate_item_ids [o_id, r_id]" using ids by (simp add: validate_item_ids_def)
  obtain new body where new: "f r_id = Some (Regular new)" "parse_item_bytes (se_codec env) new = Inr (rep, body)" "mi_id rep = r_id"
    using items(1) by (auto simp: memory_at_def f_def split: option.splits item_entry.splits sum.splits if_splits)
  obtain old body' where old: "f o_id = Some (Regular old)" "parse_item_bytes (se_codec env) old = Inr (obs, body')" "mi_id obs = o_id"
    using items(2) by (auto simp: memory_at_def f_def split: option.splits item_entry.splits sum.splits if_splits)
  have unlinked: "mi_superseded_by obs = None" using obsolete items(2) by simp
  obtain b c where produced: "superseded_bytes Supersede (se_codec env) r_id o_id old = Inr b"
      "referenced_bytes Supersede (se_codec env) r_id o_id new = Inr c"
    using prepare new(1) old(1) by (auto simp: can_prepare_def f_def)
  have transacted: "wp (transact env [r_id, o_id] Supersede r_id o_id pre) (\<lambda>x w'. success Supersede x) (\<lambda>_ _. False) v"
    if "stands f l 0 v" "alike w v" for v pre
    by (rule wp_transact_calm [OF env saved_ids _ _ that(1) alike_trans [OF alike_sym [OF u(1)] that(2)]
        old(1) new(1) new(2,3) old(2,3) unlinked u(2) produced]) simp_all
  have pair: "wp (transact_pair Supersede env r_id o_id) (\<lambda>x w'. success Supersede x) (\<lambda>_ _. False) v"
    if v: "stands f l 0 v" "alike w v" for v
    unfolding transact_pair_def direction.case
    by (rule wp_bindP, rule wp_alike [OF steady_view_get v(2)], rule wp_view_get [OF _ v(1) new(1,2)], simp, rule impI,
        rule wp_bindP, rule wp_alike [OF steady_view_get], assumption,
        rule wp_view_get [where f = f, OF _ _ old(1) old(2)], simp, assumption)
      (use transacted new(3) old(3) in auto)
  have previewed: "wp (bindP (preview_current env r_id o_id) (after_preview Supersede env m)) (\<lambda>x w'. success Supersede x) (\<lambda>_ _. False) v"
    if v: "stands f l 0 v" "alike w v" and m: "\<And>v. stands f l 0 v \<Longrightarrow> alike w v \<Longrightarrow> wp m (\<lambda>x w'. success Supersede x) (\<lambda>_ _. False) v" for m v
    by (rule wp_bindP, rule wp_again [OF steady_preview keeps_previews(1) v(2,1) preview(1)])
      (simp add: after_preview_def preview(2) m)
  have locks: "wp acquire_locks (\<lambda>_ v. stands f l 0 v \<and> alike w v) (\<lambda>_ _. False) w"
  proof -
    have step: "wp (fs_step (ret ())) (\<lambda>_ v. stands f l 0 v \<and> alike w v) (\<lambda>_ _. False) v" if "stands f l 0 v" "alike w v" for v
    proof -
      obtain event and v1 :: lifecycle_brain where ev: "next_event v = (event, v1)" by fastforce
      note one = next_event_stands [OF that(1) ev]
      have "fe_outcome event = Proceeds" using one(2) by blast
      then show ?thesis
        using one(1) that(2) next_event_quiet(2) [OF _ ev] by (simp add: wp_def fs_step_def ev alike_def stands_def)
    qed
    show ?thesis
      unfolding acquire_locks_def
      by (rule wp_bindP, rule wp_mono [OF step [OF st a]], rule wp_bindP, rule wp_mono [OF step]) (auto intro: step)
  qed
  have "wp (run_supersession Supersede env r_id o_id True) (\<lambda>x w'. success Supersede x) (\<lambda>_ _. False) w"
    unfolding run_supersession_eq
    using valid env
    by (auto simp: equipped_def intro!: wp_bindP [of acquire_locks] wp_mono [OF locks] previewed pair)
  then show ?thesis by simp
qed

end
