(* ===== verification/SupersessionExample.thy ===== *)
theory SupersessionExample imports SupersessionProgress begin

text \<open>
  A concrete instance: two memories, a text format that names each field by one letter, a clock and a
  history. The supersession of one by the other runs on it.
\<close>

section \<open>The format\<close>

definition old_id :: pystr where "old_id = lit ''mem-20260611-030000-old''"
definition new_id :: pystr where "new_id = lit ''mem-20260611-040000-new''"

definition small_item :: "pystr \<Rightarrow> pystr option \<Rightarrow> pystr list \<Rightarrow> memory_item" where
  "small_item i superseded mems =
     sample_item\<lparr>mi_id := i, mi_superseded_by := superseded, mi_refs := (mi_refs sample_item)\<lparr>rf_mems := mems\<rparr>\<rparr>"

definition link_field :: "pystr option \<Rightarrow> field_value" where
  "link_field s = (case s of None \<Rightarrow> FNone | Some t \<Rightarrow> FStr t)"

definition text_field :: "field_value \<Rightarrow> pystr option" where
  "text_field v = (case v of FStr t \<Rightarrow> Some t | _ \<Rightarrow> None)"

definition small_model_dump :: "memory_item \<Rightarrow> fields" where
  "small_model_dump item =
     [(lit ''id'', FStr (mi_id item)), (lit ''superseded_by'', link_field (mi_superseded_by item)),
      (lit ''refs'', refs_field (mi_refs item) (rf_mems (mi_refs item))), (lit ''confidence'', FReal (1 / 2))]"

definition field_texts :: "field_value \<Rightarrow> pystr list" where
  "field_texts v = (case v of FList vs \<Rightarrow> concat (map (\<lambda>v. case text_field v of None \<Rightarrow> [] | Some t \<Rightarrow> [t]) vs) | _ \<Rightarrow> [])"

definition small_mems :: "fields \<Rightarrow> pystr list" where
  "small_mems d = (case fget d ''refs'' FNone of FDict r \<Rightarrow> field_texts (fget r ''mems'' FNone) | _ \<Rightarrow> [])"

definition small_coerce :: "fields \<Rightarrow> memory_item validated" where
  "small_coerce d =
     (case text_field (fget d ''id'' FNone) of
        None \<Rightarrow> Inl [lit ''id: Field required'']
      | Some i \<Rightarrow> Inr (small_item i (text_field (fget d ''superseded_by'' FNone)) (small_mems d)))"

text \<open>The letters: the id, whether it is superseded by the new memory, whether it refers to the old one.\<close>

definition id_letter :: "field_value \<Rightarrow> int" where
  "id_letter v = (if v = FStr old_id then 97 else if v = FStr new_id then 98 else 63)"

definition superseded_letter :: "field_value \<Rightarrow> int" where
  "superseded_letter v = (if v = FNone then 97 else if v = FStr new_id then 98 else 63)"

definition mems_letter :: "pystr list \<Rightarrow> int" where
  "mems_letter mems = (if mems = [] then 97 else if mems = [old_id] then 98 else 63)"

definition small_dump :: "fields \<Rightarrow> pystr" where
  "small_dump d =
     [id_letter (fget d ''id'' FNone), superseded_letter (fget d ''superseded_by'' FNone), mems_letter (small_mems d), 10]"

definition small_load :: "pystr \<Rightarrow> field_value result" where
  "small_load t =
     (case t of
        [a, b, c, n] \<Rightarrow>
          if a \<in> {97, 98} \<and> b \<in> {97, 98} \<and> c \<in> {97, 98} \<and> n = 10 then
            Inr (FDict
              [(lit ''id'', FStr (if a = 97 then old_id else new_id)),
               (lit ''superseded_by'', if b = 97 then FNone else FStr new_id),
               (lit ''refs'', FDict [(lit ''mems'', FList (if c = 97 then [] else [FStr old_id]))]),
               (lit ''confidence'', FReal (1 / 2))])
          else Inl YAMLError
      | _ \<Rightarrow> Inl YAMLError)"

definition small_codec :: item_codec where
  "small_codec = \<lparr>ic_yaml_load = small_load, ic_yaml_dump = small_dump, ic_coerce = small_coerce,
     ic_model_dump = small_model_dump, ic_repr = (\<lambda>_. [])\<rparr>"

section \<open>The brain\<close>

definition small_ledger_env :: ledger_env where
  "small_ledger_env = \<lparr>le_fromisoformat = (\<lambda>_. Inr \<lparr>dt_wall = 1781150400000000, dt_offset = Some 0\<rparr>),
     le_payload_length = (\<lambda>_. 200), le_now = 0\<rparr>"

definition small_commit_id :: pystr where
  "small_commit_id = replicate 40 97"

definition small_env :: supersession_env where
  "small_env = \<lparr>se_codec = small_codec, se_ledger = small_ledger_env, se_capable = True,
     se_commit_id = (\<lambda>history tree. small_commit_id), se_index = None\<rparr>"

definition small_bytes :: "int \<Rightarrow> int \<Rightarrow> int \<Rightarrow> pybytes" where
  "small_bytes a b c = frontmatter_mark @ [a, b, c, 10] @ frontmatter_mark @ [10, 120, 10]"

definition empty_hub :: hub_index where
  "empty_hub = \<lparr>ix_meta = [], ix_fts = [], ix_vec = [], ix_graph = [], ix_dim = 0, ix_uses_sqlite_vec = False\<rparr>"

definition small_brain :: lifecycle_brain where
  "small_brain = \<lparr>br_items = [(old_id, Regular (small_bytes 97 97 97)), (new_id, Regular (small_bytes 98 97 97))],
     br_script = [], lb_ledger = [], lb_open_line = False, lb_history = [], lb_index = empty_hub\<rparr>"

section \<open>The run\<close>

lemma small_equipped: "equipped small_env"
  unfolding equipped_def
proof (intro conjI allI)
  show "clock_ok (se_ledger small_env)" by code_simp
  show "no_interrupts small_env"
    by (simp add: no_interrupts_def small_env_def small_codec_def small_load_def Interrupted_def YAMLError_def lit_def
        split: list.split)
qed (simp_all add: small_env_def small_commit_id_def is_git_object_id_def list_all_iff)

lemma small_quiet: "undisturbed small_brain" "faults small_brain = 0"
  by (simp_all add: undisturbed_def faults_def small_brain_def)

lemma small_names: "\<not> has_control new_id" "\<not> has_control old_id"
  by code_simp+

lemma small_preview: "map_sum id sr_status (fst (preview_current small_env new_id old_id small_brain)) = Inr (lit ''ready'')"
  by code_simp

lemma small_unlinked: "map_option mi_superseded_by (memory_at small_env small_brain old_id) = Some None"
  by code_simp

lemma small_produced:
  "superseded_bytes Supersede small_codec new_id old_id (small_bytes 97 97 97) = Inr (small_bytes 97 98 97)"
  "referenced_bytes Supersede small_codec new_id old_id (small_bytes 98 97 97) = Inr (small_bytes 98 97 98)"
  by code_simp+

lemma small_files:
  "item_file old_id small_brain = Some (Regular (small_bytes 97 97 97))"
  "item_file new_id small_brain = Some (Regular (small_bytes 98 97 97))"
  by code_simp+

lemma small_can_prepare: "can_prepare small_env new_id old_id small_brain"
  using small_produced by (simp add: can_prepare_def small_files small_env_def)

lemma small_run:
  obtains x w where "apply_supersession small_env new_id old_id True small_brain = (Inr x, w)" "success Supersede x"
proof -
  obtain p w0 where preview: "preview_current small_env new_id old_id small_brain = (Inr p, w0)" "sr_status p = lit ''ready''"
    using small_preview by (cases "preview_current small_env new_id old_id small_brain") (auto simp: map_sum_def split: sum.splits)
  have "wp (apply_supersession small_env new_id old_id True) (\<lambda>x w'. success Supersede x) (\<lambda>_ _. False) small_brain"
    by (rule ready_run [OF small_equipped small_quiet preview small_names small_unlinked small_can_prepare])
  then show thesis using that by (auto simp: wp_def split: prod.splits sum.splits)
qed

end
