(* ===== verification/SupersessionWrites.thy ===== *)
theory SupersessionWrites imports SupersessionFaults begin

text \<open>
  Every end of a run, whatever fails in it and however often. A run may be interrupted, and a rollback may
  fail; while nobody else edits the items, each of the two files still holds either the bytes it held or
  the new bytes computed from them. The rollback writes nothing else, because the history keeps the
  snapshot it restores from.
\<close>

section \<open>The history\<close>

definition same_history :: "lifecycle_brain \<Rightarrow> lifecycle_brain \<Rightarrow> bool" where
  "same_history w w' \<longleftrightarrow> lb_history w' = lb_history w"

named_theorems history_rules \<open>programs that leave the history as it is\<close>

lemma preorder_history: "preorder same_history"
  by (auto simp: preorder_def same_history_def intro!: reflpI transpI)

lemmas history_pure [history_rules] = keeps_pure [OF preorder_history]
lemmas history_bindP [history_rules] = keeps_bindP [OF preorder_history]
lemmas history_try [history_rules] = keeps_try [OF preorder_history]
lemmas history_mapP [history_rules] = keeps_mapP [OF preorder_history]

declare keeps_if [history_rules]

lemma keeps_option [history_rules]:
  "keeps R m \<Longrightarrow> (\<And>x. keeps R (f x)) \<Longrightarrow> keeps R (case a of None \<Rightarrow> m | Some x \<Rightarrow> f x)"
  by (cases a) simp_all

lemma next_event_history: "next_event w = (event, w') \<Longrightarrow> lb_history w' = lb_history w"
  by (auto simp: next_event_def split: list.splits)

lemma history_fs_step [history_rules]:
  assumes "keeps same_history m"
  shows "keeps same_history (fs_step m)"
  unfolding keeps_def
proof
  fix w :: lifecycle_brain
  obtain event w' where ev: "next_event w = (event, w')" by fastforce
  have "same_history w' (snd (m w'))" using assms by (simp add: keeps_def)
  then show "same_history w (snd (fs_step m w))"
    using next_event_history [OF ev]
    by (auto simp: fs_step_def ev same_history_def split: fs_outcome.splits prod.splits sum.splits)
qed

lemma history_same: "(\<And>w. lb_history (snd (m w)) = lb_history w) \<Longrightarrow> keeps same_history m"
  by (simp add: keeps_def same_history_def)

lemma history_read [history_rules]: "keeps same_history (read_item_file i)"
  unfolding read_item_file_def by (intro history_fs_step history_same) simp

lemma history_write [history_rules]: "keeps same_history (atomic_write i d c)"
  unfolding atomic_write_def
  by (intro history_fs_step history_same) (simp add: Let_def split: option.splits item_entry.splits)

lemma history_view_read [history_rules]: "keeps same_history (view_read_bytes ids i)"
  unfolding view_read_bytes_def require_locked_def by (intro history_rules)

lemma history_view_get [history_rules]: "keeps same_history (view_get cd ids i)"
  unfolding view_get_def by (intro history_rules)

lemma history_prepare [history_rules]: "keeps same_history (view_prepare_update cd ids i updates)"
  unfolding view_prepare_update_def by (intro history_rules)

lemma history_prepare_reference [history_rules]: "keeps same_history (prepare_reference dir cd ids i j)"
  by (cases dir) (simp_all add: view_prepare_link_def view_prepare_unlink_def split_def, (intro history_rules)+)

lemma history_apply [history_rules]: "keeps same_history (view_apply_prepared ids p)"
  unfolding view_apply_prepared_def require_locked_def by (intro history_rules)

lemma history_update [history_rules]: "keeps same_history (store_update_frontmatter cd i updates)"
  unfolding store_update_frontmatter_def view_update_frontmatter_def by (intro history_rules)

lemma history_change [history_rules]: "keeps same_history (change_reference dir cd i j)"
proof (cases dir)
  case Supersede
  have "keeps same_history (bindP (prepare_reference Supersede cd [i] i j) (apply_optional [i]))"
    unfolding apply_optional_def by (intro history_rules)
  then show ?thesis by (simp add: Supersede store_link_mem_def view_link_mem_def)
next
  case Revert
  have "keeps same_history (bindP
       (try_catch (bindP (prepare_reference Revert cd [i] i j) (\<lambda>p. ret (Some p)))
          (\<lambda>e. if e = FileNotFound then ret None else raise e)) (\<lambda>prepared.
     case prepared of None \<Rightarrow> ret False | Some p \<Rightarrow> apply_optional [i] p))"
    unfolding apply_optional_def by (intro history_rules)
  then show ?thesis by (simp add: Revert store_unlink_mem_def view_unlink_mem_def)
qed

lemma history_mutate [history_rules]: "keeps same_history (mutate_pair env tx)"
  unfolding mutate_pair_def Let_def by (intro history_rules)

lemma history_ledger [history_rules]: "keeps same_history (write_ledger env r)"
  by (rule history_same)
    (auto simp: write_ledger_def truncate_ledger_def Let_def put_ledger_def
      dest!: next_event_history split: prod.splits fs_outcome.splits)

lemma history_record [history_rules]:
  "keeps same_history (record_transaction env action status reason o_id r_id snap pre)"
  unfolding record_transaction_def append_lifecycle_record_def by (intro history_rules history_same) simp_all

lemma history_record_blocked [history_rules]:
  "keeps same_history (record_blocked_best_effort env action reason o_id r_id snap pre)"
  unfolding record_blocked_best_effort_def by (intro history_rules)

lemma history_get_nofollow [history_rules]: "keeps same_history (get_nofollow cd i)"
  unfolding get_nofollow_def read_bytes_nofollow_def by (intro history_rules)

lemma history_upsert [history_rules]: "keeps same_history (upsert_index q item body)"
  unfolding upsert_index_def by (intro history_fs_step history_same) (simp split: sum.splits)

lemma history_sync [history_rules]: "keeps same_history (sync_index env r_id o_id)"
  unfolding sync_index_def split_def by (intro history_rules)

lemma history_pair_matches [history_rules]: "keeps same_history (pair_matches tx)"
  unfolding pair_matches_def by (intro history_rules)

section \<open>What a rollback may write\<close>

text \<open>The files are between old and prepared, and the history has the snapshot of the old ones.\<close>

definition pair_safe :: "(pystr \<Rightarrow> item_entry option) \<Rightarrow> transaction \<Rightarrow> lifecycle_brain \<Rightarrow> bool" where
  "pair_safe f tx w \<longleftrightarrow>
     undisturbed w \<and> between f tx (\<lambda>i. item_file i w)
     \<and> map_of (lb_history w) (tx_snapshot tx)
       = Some (sort_key fst [(tx_obsolete tx, tx_old_bytes tx), (tx_replacement tx, tx_new_bytes tx)])"

definition safe_steps :: "(pystr \<Rightarrow> item_entry option) \<Rightarrow> transaction \<Rightarrow> lifecycle_brain \<Rightarrow> lifecycle_brain \<Rightarrow> bool" where
  "safe_steps f tx w w' \<longleftrightarrow> (pair_safe f tx w \<longrightarrow> pair_safe f tx w')"

named_theorems safe_rules \<open>programs that leave each file old or prepared\<close>

lemma preorder_safe: "preorder (safe_steps f tx)"
  by (auto simp: preorder_def safe_steps_def intro!: reflpI transpI)

lemmas safe_pure [safe_rules] = keeps_pure [OF preorder_safe]
lemmas safe_bindP [safe_rules] = keeps_bindP [OF preorder_safe]
lemmas safe_try [safe_rules] = keeps_try [OF preorder_safe]
lemmas safe_mapP [safe_rules] = keeps_mapP [OF preorder_safe]

declare keeps_if [safe_rules] keeps_option [safe_rules]

lemma safeD: "keeps (safe_steps f tx) m \<Longrightarrow> m w = (r, w') \<Longrightarrow> pair_safe f tx w \<Longrightarrow> pair_safe f tx w'"
  by (auto dest: keepsD simp: safe_steps_def)

text \<open>What touches neither file nor the history is safe.\<close>

lemma safe_frame:
  assumes "keeps (only_files {} True) m" "keeps same_history m"
  shows "keeps (safe_steps f tx) m"
  unfolding keeps_def safe_steps_def
proof (intro allI impI)
  fix w assume w: "pair_safe f tx w"
  have "only_files {} True w (snd (m w))" "same_history w (snd (m w))" using assms by (simp_all add: keeps_def)
  then show "pair_safe f tx (snd (m w))" using w by (simp add: pair_safe_def only_files_def same_history_def)
qed

lemma safe_fs_step:
  assumes "keeps (safe_steps f tx) m"
  shows "keeps (safe_steps f tx) (fs_step m)"
  unfolding keeps_def
proof
  fix w :: lifecycle_brain
  obtain event w' where ev: "next_event w = (event, w')" by fastforce
  have "pair_safe f tx w \<Longrightarrow> pair_safe f tx w'"
    using next_event_quiet [OF _ ev] next_event_history [OF ev] by (simp add: pair_safe_def)
  moreover have "pair_safe f tx w' \<Longrightarrow> pair_safe f tx (snd (m w'))"
    using assms by (simp add: keeps_def safe_steps_def)
  ultimately show "safe_steps f tx w (snd (fs_step m w))"
    by (auto simp: fs_step_def ev safe_steps_def split: fs_outcome.splits prod.splits sum.splits)
qed

definition old_files :: "transaction \<Rightarrow> (pystr \<times> pybytes) set" where
  "old_files tx = {(tx_obsolete tx, tx_old_bytes tx), (tx_replacement tx, tx_new_bytes tx)}"

lemma safe_write:
  assumes "(i, d) \<in> old_files tx" "tx_obsolete tx \<noteq> tx_replacement tx"
  shows "keeps (safe_steps f tx) (atomic_write i d c)"
  unfolding atomic_write_def
proof (rule safe_fs_step)
  have put: "pair_safe f tx (w\<lparr>br_items := AList.update i (Regular d) (br_items w)\<rparr>)" if "pair_safe f tx w" for w
    using that assms
    by (auto simp: pair_safe_def undisturbed_def item_file_def update_conv' old_files_def between_def tx_files_def)
  show "keeps (safe_steps f tx) (\<lambda>w. let put = (Inr (), w\<lparr>br_items := AList.update i (Regular d) (br_items w)\<rparr>)
       in case item_file i w of
            None \<Rightarrow> if c then put else (Inl FileNotFound, w)
          | Some Unsafe \<Rightarrow> (Inl (OSErr ''UNSAFE_ATOMIC_WRITE_TARGET''), w)
          | Some (Regular _) \<Rightarrow> put)"
    using put by (auto simp: keeps_def safe_steps_def Let_def split: option.splits item_entry.splits)
qed

lemma safe_restore_raw:
  "(i, d) \<in> old_files tx \<Longrightarrow> tx_obsolete tx \<noteq> tx_replacement tx
    \<Longrightarrow> keeps (safe_steps f tx) (ignore_errors (store_restore_raw i d))"
  unfolding ignore_errors_def store_restore_raw_def view_restore_raw_def require_locked_def
  by (intro safe_rules safe_write)

lemma safe_view_read [safe_rules]: "keeps (safe_steps f tx) (view_read_bytes ids i)"
  by (rule safe_frame [OF keeps_view_read history_view_read])

lemma read_snapshot_tree:
  assumes "read_snapshot s ids w = (Inr tree, w')"
  shows "map_of (lb_history w) s = Some tree"
proof -
  obtain event w1 where ev: "next_event w = (event, w1)" by fastforce
  have "map_of (lb_history w1) s = Some tree"
    using assms by (auto simp: read_snapshot_def fs_step_def ev split: fs_outcome.splits option.splits if_splits)
  then show ?thesis using next_event_history [OF ev] by simp
qed

lemma safe_restore_snapshot:
  assumes tx: "tx_obsolete tx \<noteq> tx_replacement tx"
  shows "keeps (safe_steps f tx) (ignore_errors (restore_pair_snapshot (tx_snapshot tx) (tx_obsolete tx) (tx_replacement tx)))"
proof -
  let ?ids = "sort (dedup [tx_obsolete tx, tx_replacement tx])"
  define put where "put = (\<lambda>tree. bindP (mapP (\<lambda>(i, data). atomic_write i data True) tree) (\<lambda>_.
        bindP (mapP (\<lambda>(i, data). bindP (read_item_file i) (\<lambda>found. check (found = data) SnapshotError)) tree) (\<lambda>_.
        ret () :: (lifecycle_brain, unit) prog)))"
  have read: "keeps (safe_steps f tx) (read_snapshot (tx_snapshot tx) ?ids)"
    unfolding read_snapshot_def
    by (rule safe_frame; intro keeps_fs_step keeps_same history_fs_step history_same; simp)
  have item: "keeps (safe_steps f tx) (read_item_file i)" for i
    by (rule safe_frame [OF keeps_read history_read])
  have put: "keeps (safe_steps f tx) (put tree)" if "set tree \<subseteq> old_files tx" for tree
    unfolding put_def split_def by (intro safe_rules safe_write [OF _ tx] item) (use that in auto)
  have "keeps (safe_steps f tx) (bindP (read_snapshot (tx_snapshot tx) ?ids) put)"
    unfolding keeps_def
  proof
    fix w
    obtain r w' where run: "read_snapshot (tx_snapshot tx) ?ids w = (r, w')" by fastforce
    show "safe_steps f tx w (snd (bindP (read_snapshot (tx_snapshot tx) ?ids) put w))"
      unfolding safe_steps_def
    proof
      assume w: "pair_safe f tx w"
      have w': "pair_safe f tx w'" by (rule safeD [OF read run w])
      show "pair_safe f tx (snd (bindP (read_snapshot (tx_snapshot tx) ?ids) put w))"
      proof (cases r)
        case (Inr tree)
        have "tree = sort_key fst [(tx_obsolete tx, tx_old_bytes tx), (tx_replacement tx, tx_new_bytes tx)]"
          using read_snapshot_tree [OF run [unfolded Inr]] w by (simp add: pair_safe_def)
        then have "keeps (safe_steps f tx) (put tree)" by (intro put) (simp add: old_files_def)
        then show ?thesis using w' run Inr by (auto simp: bindP_run dest: safeD intro: safeD [OF _ prod.collapse [symmetric]])
      qed (use w' run in \<open>simp add: bindP_run\<close>)
    qed
  qed
  then obtain rest where rest: "bindP (read_snapshot (tx_snapshot tx) ?ids) put = rest" "keeps (safe_steps f tx) rest" by blast
  have "keeps (safe_steps f tx) (restore_items (tx_snapshot tx) [tx_obsolete tx, tx_replacement tx])"
    unfolding restore_items_def Let_def put_def [symmetric] rest(1) snapshot_error_def by (intro safe_rules rest(2))
  then show ?thesis
    unfolding ignore_errors_def restore_pair_snapshot_def by (intro safe_rules)
qed

lemma safe_pair_matches [safe_rules]: "keeps (safe_steps f tx) (pair_matches tx)"
  by (rule safe_frame [OF keeps_pair_matches history_pair_matches])

lemma safe_record [safe_rules]:
  "keeps (safe_steps f tx) (record_transaction env action status reason o_id r_id snap pre)"
  "keeps (safe_steps f tx) (record_blocked_best_effort env action reason o_id r_id snap pre)"
  by (rule safe_frame, (rule keeps_rules history_rules)+)+

lemma safe_restore_pair: 
  assumes "tx_obsolete tx \<noteq> tx_replacement tx"
  shows "keeps (safe_steps f tx) (restore_pair tx)"
proof -
  have "(tx_obsolete tx, tx_old_bytes tx) \<in> old_files tx" "(tx_replacement tx, tx_new_bytes tx) \<in> old_files tx"
    by (simp_all add: old_files_def)
  then show ?thesis
    unfolding restore_pair_def split_def using assms
    by (intro safe_rules safe_restore_raw safe_restore_snapshot)
qed

lemma safe_rollback [safe_rules]:
  "tx_obsolete tx \<noteq> tx_replacement tx \<Longrightarrow> keeps (safe_steps f tx) (rollback_result env tx)"
  unfolding rollback_result_def by (intro safe_rules safe_restore_pair)

section \<open>The commit\<close>

lemma mutate_safe:
  assumes tx: "prepared_on env f tx" and w: "\<forall>i. item_file i w = f i" "pair_safe f tx w" and run: "mutate_pair env tx w = (r, w')"
  shows "pair_safe f tx w'"
proof -
  have diff: "tx_obsolete tx \<noteq> tx_replacement tx" using tx by (simp add: prepared_on_def)
  have after: "between f tx (after_files f tx)" using diff by (auto simp: between_def after_files_def tx_files_def)
  have s: "stands f (ledger_of w) (faults w) w" using w by (simp add: stands_def pair_safe_def)
  have "wp (mutate_pair env tx) (\<lambda>_ v. undisturbed v \<and> between f tx (\<lambda>i. item_file i v))
      (\<lambda>_ v. undisturbed v \<and> between f tx (\<lambda>i. item_file i v)) w"
    by (rule wp_mutate_pair [OF tx s]) (use after in \<open>auto simp: stands_def between_def\<close>)
  then have "undisturbed w' \<and> between f tx (\<lambda>i. item_file i w')"
    using run by (cases r) (simp_all add: wp_def)
  then show ?thesis
    using keepsD [OF history_mutate run] w(2) by (simp add: pair_safe_def same_history_def)
qed

lemma commit_safe:
  assumes tx: "prepared_on env f tx" and w: "\<forall>i. item_file i w = f i" "pair_safe f tx w" and run: "commit_pair env tx w = (r, w')"
  shows "pair_safe f tx w'"
proof -
  have diff: "tx_obsolete tx \<noteq> tx_replacement tx" using tx by (simp add: prepared_on_def)
  define handle where "handle = (\<lambda>e. bindP (rollback_result env tx) (\<lambda>rolled.
         case rolled of
           Some result \<Rightarrow> if e = Interrupted then raise e else ret (Some result)
         | None \<Rightarrow>
             bindP (record_blocked_best_effort env (action_name (tx_direction tx)) ''MARKDOWN_UPDATE_FAILED''
               (tx_obsolete tx) (tx_replacement tx) (Some (tx_snapshot tx)) (tx_preexisted tx)) (\<lambda>_.
             if e = Interrupted then raise e
             else ret (Some (blocked_run ''MARKDOWN_UPDATE_FAILED'' (tx_replacement tx) (tx_obsolete tx)
                    (Some (tx_snapshot tx)))))))"
  have handler: "keeps (safe_steps f tx) (handle e)" for e
    unfolding handle_def by (intro safe_rules diff)
  obtain m w1 where mutate: "mutate_pair env tx w = (m, w1)" by fastforce
  have w1: "pair_safe f tx w1" by (rule mutate_safe [OF tx w mutate])
  obtain u w2 where update: "update_markdown env tx w = (u, w2)" by fastforce
  have "pair_safe f tx w2"
  proof (cases m)
    case (Inl e)
    then have "handle e w1 = (u, w2)"
      using update mutate by (simp add: update_markdown_def handle_def try_catch_def bindP_run)
    then show ?thesis by (rule safeD [OF handler _ w1])
  next
    case (Inr a)
    then show ?thesis using update mutate w1 by (simp add: update_markdown_def try_catch_def bindP_run)
  qed
  note w2 = this
  have written: "keeps (safe_steps f tx) (write_record env tx)"
    unfolding write_record_def by (intro safe_rules diff)
  have synced: "keeps (safe_steps f tx) (sync_index env (tx_replacement tx) (tx_obsolete tx))"
    by (rule safe_frame [OF keeps_sync history_sync])
  show ?thesis
  proof (cases u)
    case (Inl e)
    then show ?thesis using run update w2 by (simp add: commit_pair_def bindP_run)
  next
    case (Inr ended)
    define rest where "rest = (\<lambda>ended. case ended of Some result \<Rightarrow> ret result
       | None \<Rightarrow> bindP (write_record env tx) (\<lambda>ended.
             case ended of
               Some result \<Rightarrow> ret result
             | None \<Rightarrow>
                 bindP (sync_index env (tx_replacement tx) (tx_obsolete tx)) (\<lambda>synced.
                   ret ((result_of (success_status (tx_direction tx)) ''OK'' (tx_replacement tx) (tx_obsolete tx))
                     \<lparr>sr_dry_run := False, sr_snapshot := Some (tx_snapshot tx),
                      sr_index_repair_required := \<not> synced\<rparr>))))"
    have "keeps (safe_steps f tx) (rest ended)"
      unfolding rest_def by (intro safe_rules written synced)
    moreover have "rest ended w2 = (r, w')"
      using run update Inr by (simp add: rest_def commit_pair_def bindP_run)
    ultimately show ?thesis using w2 by (rule safeD)
  qed
qed

section \<open>Runs\<close>

text \<open>
  Each of the two files holds what it held or the new bytes computed from that, and no other file has
  changed. What a run may leave: the files as they were, or such a pair, and then it had found it valid.
\<close>

definition written ::
  "supersession_env \<Rightarrow> direction \<Rightarrow> pystr \<Rightarrow> pystr \<Rightarrow> bool \<Rightarrow> lifecycle_brain \<Rightarrow> lifecycle_brain \<Rightarrow> bool" where
  "written env dir r_id o_id pre w w' \<longleftrightarrow>
     (\<exists>old new produced_old produced_new.
        item_file o_id w = Some (Regular old) \<and> item_file r_id w = Some (Regular new)
        \<and> superseded_bytes dir (se_codec env) r_id o_id old = Inr produced_old
        \<and> (if pre then produced_new = new
           else referenced_bytes dir (se_codec env) r_id o_id new = Inr produced_new)
        \<and> item_file o_id w' \<in> {Some (Regular old), Some (Regular produced_old)}
        \<and> item_file r_id w' \<in> {Some (Regular new), Some (Regular produced_new)}
        \<and> others_same {o_id, r_id} w w')"

definition partly_done :: "supersession_env \<Rightarrow> direction \<Rightarrow> pystr \<Rightarrow> pystr \<Rightarrow> lifecycle_brain \<Rightarrow> lifecycle_brain \<Rightarrow> bool" where
  "partly_done env dir r_id o_id w w' \<longleftrightarrow>
     same_items w w'
     \<or> r_id \<noteq> o_id \<and> is_valid_memory_item_id r_id \<and> is_valid_memory_item_id o_id \<and> pair_validated env dir r_id o_id w
       \<and> (\<exists>pre. preexisted dir env r_id o_id w pre \<and> written env dir r_id o_id pre w w')"

abbreviation leaves_partly ::
  "supersession_env \<Rightarrow> direction \<Rightarrow> pystr \<Rightarrow> pystr \<Rightarrow> lifecycle_brain \<Rightarrow> (lifecycle_brain, 'a) prog \<Rightarrow> lifecycle_brain \<Rightarrow> bool" where
  "leaves_partly env dir r_id o_id w0 m w \<equiv>
     wp m (\<lambda>_. partly_done env dir r_id o_id w0) (\<lambda>_. partly_done env dir r_id o_id w0) w"

abbreviation untouched_since :: "lifecycle_brain \<Rightarrow> lifecycle_brain \<Rightarrow> bool" where
  "untouched_since w0 w \<equiv> stands (\<lambda>i. item_file i w0) (ledger_of w0) (faults w0) w"

lemma partly_same: "stands (\<lambda>i. item_file i w0) l n w \<Longrightarrow> partly_done env dir r_id o_id w0 w"
  by (simp add: partly_done_def same_items_def stands_def)

lemma partly_frame:
  assumes "keeps (only_files {} False) m" "untouched_since w0 w"
    and "\<And>a w'. m w = (Inr a, w') \<Longrightarrow> untouched_since w0 w' \<Longrightarrow> leaves_partly env dir r_id o_id w0 (g a) w'"
  shows "leaves_partly env dir r_id o_id w0 (bindP m g) w"
  by (rule wp_bindP, rule wp_frame [OF assms(1,2)]) (use assms(3) partly_same in auto)

lemma partly_ret:
  assumes "keeps (only_files {} True) m" "untouched_since w0 w"
  shows "leaves_partly env dir r_id o_id w0 m w"
proof -
  obtain r w' where run: "m w = (r, w')" by fastforce
  have "only_files {} True w w'" by (rule keepsD [OF assms(1) run])
  then have "same_items w0 w'" using assms(2) by (simp add: only_files_def stands_def same_items_def)
  then show ?thesis using run by (cases r) (simp_all add: wp_def partly_done_def)
qed

lemma prepare_and_commit_partly:
  assumes pair: "o_id \<noteq> r_id" "is_valid_memory_item_id o_id" "is_valid_memory_item_id r_id" "o_id \<in> set ids" "r_id \<in> set ids"
    and w: "untouched_since w0 w" and bytes: "item_file o_id w0 = Some (Regular old)" "item_file r_id w0 = Some (Regular new)"
    and saved: "map_of (lb_history w) s = Some (sort_key fst [(o_id, old), (r_id, new)])"
    and valid: "pair_validated env dir r_id o_id w0" "preexisted dir env r_id o_id w0 pre"
  shows "leaves_partly env dir r_id o_id w0 (prepare_and_commit env ids dir r_id o_id pre old new s) w"
  unfolding prepare_and_commit_def
proof (rule partly_frame [OF keeps_prepare_update w])
  fix p and w1 :: lifecycle_brain
  assume p: "view_prepare_update (se_codec env) ids o_id (superseded_update dir r_id) w = (Inr p, w1)" and w1: "untouched_since w0 w1"
  have q: "undisturbed w" "undisturbed w1" "item_file o_id w = Some (Regular old)" "item_file r_id w1 = Some (Regular new)"
    using w w1 bytes by (simp_all add: stands_def)
  have old: "superseded_bytes dir (se_codec env) r_id o_id old = Inr (pm_data p)"
    using prepare_update_result [OF q(1) p] q(3) by (auto simp: superseded_bytes_def bindR_Inr_iff)
  have h1: "lb_history w1 = lb_history w" using keepsD [OF history_prepare p] by (simp add: same_history_def)
  define reference :: "(lifecycle_brain, prepared_mutation option) prog"
    where "reference = (if pre then ret None else prepare_reference dir (se_codec env) ids r_id o_id)"
  have frames: "keeps (only_files {} False) reference" "keeps same_history reference"
    unfolding reference_def by (intro keeps_rules, intro history_rules)
  show "leaves_partly env dir r_id o_id w0 (bindP (if pre then ret None else prepare_reference dir (se_codec env) ids r_id o_id)
      (\<lambda>prepared_new. commit_pair env
       \<lparr>tx_ids = ids, tx_direction = dir, tx_replacement = r_id, tx_obsolete = o_id,
        tx_preexisted = pre, tx_old_bytes = old, tx_new_bytes = new,
        tx_snapshot = s, tx_produced_old = pm_data p,
        tx_produced_new = (case prepared_new of None \<Rightarrow> new | Some p \<Rightarrow> pm_data p)\<rparr>)) w1"
    unfolding reference_def [symmetric]
  proof (rule partly_frame [OF frames(1) w1])
    fix a and w2 :: lifecycle_brain assume a: "reference w1 = (Inr a, w2)" and w2: "untouched_since w0 w2"
    define tx where "tx = \<lparr>tx_ids = ids, tx_direction = dir, tx_replacement = r_id, tx_obsolete = o_id,
        tx_preexisted = pre, tx_old_bytes = old, tx_new_bytes = new, tx_snapshot = s, tx_produced_old = pm_data p,
        tx_produced_new = (case a of None \<Rightarrow> new | Some p \<Rightarrow> pm_data p)\<rparr>"
    have sel: "tx_replacement tx = r_id" "tx_obsolete tx = o_id" "tx_old_bytes tx = old" "tx_new_bytes tx = new"
        "tx_produced_old tx = pm_data p" "tx_snapshot tx = s"
      by (simp_all add: tx_def)
    have produced: "if pre then tx_produced_new tx = new else referenced_bytes dir (se_codec env) r_id o_id new = Inr (tx_produced_new tx)"
    proof (cases pre)
      case True
      then show ?thesis using a by (simp add: reference_def tx_def)
    next
      case False
      then have "prepare_reference dir (se_codec env) ids r_id o_id w1 = (Inr a, w2)" using a by (simp add: reference_def)
      from prepare_reference_result [OF q(2) this] show ?thesis using q(4) False by (simp add: tx_def)
    qed
    have others: "tx_direction tx = dir" "tx_preexisted tx = pre" "tx_ids tx = ids" by (simp_all add: tx_def)
    have now: "item_file o_id w2 = Some (Regular old)" "item_file r_id w2 = Some (Regular new)"
      using w2 bytes by (simp_all add: stands_def)
    have prepared: "prepared_on env (\<lambda>i. item_file i w2) tx"
      unfolding prepared_on_def sel others by (intro conjI pair now old produced)
    have h2: "lb_history w2 = lb_history w" using keepsD [OF frames(2) a] h1 by (simp add: same_history_def)
    have "undisturbed w2" "between (\<lambda>i. item_file i w2) tx (\<lambda>i. item_file i w2)"
      using w2 now by (simp_all add: stands_def between_def sel)
    then have start: "pair_safe (\<lambda>i. item_file i w2) tx w2"
      unfolding pair_safe_def sel h2 by (intro conjI saved)
    obtain r w3 where run: "commit_pair env tx w2 = (r, w3)" by fastforce
    have safe: "pair_safe (\<lambda>i. item_file i w2) tx w3" by (rule commit_safe [OF prepared _ start run]) blast
    have files: "item_file o_id w3 \<in> {Some (Regular old), Some (Regular (pm_data p))}"
        "item_file r_id w3 \<in> {Some (Regular new), Some (Regular (tx_produced_new tx))}" "others_same {o_id, r_id} w0 w3"
      using conjunct1 [OF conjunct2 [OF safe [unfolded pair_safe_def]]] w2 by (simp_all add: between_def stands_def sel tx_files_def others_same_def)
    have "written env dir r_id o_id pre w0 w3"
      unfolding written_def
      by (rule exI [of _ old], rule exI [of _ new], rule exI [of _ "pm_data p"], rule exI [of _ "tx_produced_new tx"])
        (intro conjI bytes old produced files)
    then have "partly_done env dir r_id o_id w0 w3" using pair valid by (auto simp: partly_done_def)
    then show "leaves_partly env dir r_id o_id w0 (commit_pair env
       \<lparr>tx_ids = ids, tx_direction = dir, tx_replacement = r_id, tx_obsolete = o_id,
        tx_preexisted = pre, tx_old_bytes = old, tx_new_bytes = new,
        tx_snapshot = s, tx_produced_old = pm_data p,
        tx_produced_new = (case a of None \<Rightarrow> new | Some p \<Rightarrow> pm_data p)\<rparr>) w2"
      unfolding tx_def [symmetric] using run by (cases r) (simp_all add: wp_def)
  qed
qed

lemma history_load [history_rules]: "keeps same_history (load_item env i)"
  unfolding load_item_def split_def by (intro history_rules)

lemma history_walk [history_rules]: "keeps same_history (walk_chain env fuel cursor seen)"
proof (induction fuel arbitrary: cursor seen)
  case 0
  show ?case by (subst walk_chain.simps) (auto intro!: history_rules split: option.splits)
next
  case (Suc k)
  then show ?case by (subst walk_chain.simps) (auto intro!: history_rules split: option.splits item_load.splits)
qed

lemma history_validate [history_rules]: "keeps same_history (validate_pair env a b)"
  unfolding validate_pair_def by (intro history_rules)

lemma history_revalidate: "keeps same_history (revalidate_locked_pair env ids dir r_id o_id b c)"
  unfolding revalidate_locked_pair_def Let_def split_def by (intro history_rules)

text \<open>A snapshot that was taken is in the history.\<close>

lemma saved_history:
  assumes "save_pair env i a j b w = (Inr (Some s), w')"
  shows "map_of (lb_history w') s = Some (sort_key fst [(i, a), (j, b)])"
proof -
  let ?tree = "sort_key fst [(i, a), (j, b)]"
  define commit :: "(lifecycle_brain, pystr) prog" where "commit = fs_step (\<lambda>w.
            let commit = se_commit_id env (lb_history w) ?tree
            in if is_git_object_id commit
               then (Inr commit, w\<lparr>lb_history := (commit, ?tree) # lb_history w\<rparr>)
               else (Inl SnapshotError, w))"
  have "bindP (snapshot_pair env i a j b) (\<lambda>s. ret (Some s)) w = (Inr (Some s), w')"
    using assms unfolding save_pair_def by (rule try_catch_Inr) simp
  then have "snapshot_pair env i a j b w = (Inr s, w')" by (auto simp: bindP_Inr_iff)
  then obtain w1 where "snapshot_items env [(i, a), (j, b)] w1 = (Inr s, w')"
    unfolding snapshot_pair_def bindP_Inr_iff by blast
  then have "bindP (check (validate_item_ids (map fst ?tree)) SnapshotError) (\<lambda>_. commit) w1 = (Inr s, w')"
    unfolding snapshot_items_def Let_def [of "sort_key fst [(i, a), (j, b)]"] commit_def [symmetric]
    by (rule try_catch_Inr) (simp add: snapshot_error_def)
  then obtain w2 where run: "commit w2 = (Inr s, w')" unfolding bindP_Inr_iff by blast
  obtain event w3 where ev: "next_event w2 = (event, w3)" by fastforce
  obtain tree where tree: "?tree = tree" by blast
  show ?thesis
    using run unfolding commit_def tree by (auto simp: fs_step_def ev Let_def split: fs_outcome.splits if_splits)
qed

lemma pair_validated_unchanged: "same_items w w' \<Longrightarrow> pair_validated env dir r_id o_id w' = pair_validated env dir r_id o_id w"
  by (simp add: pair_validated_def same_items_def cong: if_cong)

lemma transact_saved_partly:
  assumes pair: "o_id \<noteq> r_id" "is_valid_memory_item_id o_id" "is_valid_memory_item_id r_id" "o_id \<in> set ids" "r_id \<in> set ids"
    and w: "untouched_since w0 w" and bytes: "item_file o_id w0 = Some (Regular old)" "item_file r_id w0 = Some (Regular new)"
    and saved: "map_of (lb_history w) s = Some (sort_key fst [(o_id, old), (r_id, new)])"
    and pre: "preexisted dir env r_id o_id w0 pre"
  shows "leaves_partly env dir r_id o_id w0 (transact_saved env ids dir r_id o_id pre old new s) w"
  unfolding transact_saved_def
proof (rule partly_frame [OF keeps_revalidate w])
  fix valid and w1 :: lifecycle_brain
  assume run: "revalidate_locked_pair env ids dir r_id o_id new old w = (Inr valid, w1)" and w1: "untouched_since w0 w1"
  have "lb_history w1 = lb_history w" using keepsD [OF history_revalidate run] by (simp add: same_history_def)
  then have saved1: "map_of (lb_history w1) s = Some (sort_key fst [(o_id, old), (r_id, new)])" using saved by metis
  have "undisturbed w" "same_items w0 w" using w by (simp_all add: stands_def same_items_def)
  then have "valid \<Longrightarrow> pair_validated env dir r_id o_id w0"
    using revalidate_result [of w env ids dir r_id o_id new old w1] run pair_validated_unchanged [of w0 w env dir r_id o_id] by simp
  then have go_on: "valid \<Longrightarrow> leaves_partly env dir r_id o_id w0 (prepare_and_commit env ids dir r_id o_id pre old new s) w1"
    using prepare_and_commit_partly [OF pair w1 bytes saved1 _ pre] by simp
  show "leaves_partly env dir r_id o_id w0 (if \<not> valid then
         bindP (record_blocked_best_effort env (action_name dir) ''CONCURRENT_MODIFICATION'' o_id r_id (Some s) pre) (\<lambda>_.
         ret (blocked_run ''CONCURRENT_MODIFICATION'' r_id o_id (Some s)))
       else prepare_and_commit env ids dir r_id o_id pre old new s) w1"
  proof (rule wp_if)
    show "leaves_partly env dir r_id o_id w0
       (bindP (record_blocked_best_effort env (action_name dir) ''CONCURRENT_MODIFICATION'' o_id r_id (Some s) pre) (\<lambda>_.
         ret (blocked_run ''CONCURRENT_MODIFICATION'' r_id o_id (Some s)))) w1"
      by (intro partly_ret [OF _ w1] keeps_rules)
  qed (use go_on in simp)
qed

lemma transact_partly:
  assumes pair: "o_id \<noteq> r_id" "is_valid_memory_item_id o_id" "is_valid_memory_item_id r_id" "o_id \<in> set ids" "r_id \<in> set ids"
    and w: "untouched_since w0 w" and pre: "preexisted dir env r_id o_id w0 pre"
  shows "leaves_partly env dir r_id o_id w0 (transact env ids dir r_id o_id pre) w"
  unfolding transact_def
proof (rule partly_frame [OF keeps_view_read w], rule partly_frame [OF keeps_view_read], assumption,
    rule partly_frame [OF keeps_save_pair], assumption)
  fix old w1 new w2 snap and w3 :: lifecycle_brain
  assume old: "view_read_bytes ids o_id w = (Inr old, w1)" "untouched_since w0 w1"
    and new: "view_read_bytes ids r_id w1 = (Inr new, w2)" "untouched_since w0 w2"
    and saved: "save_pair env o_id old r_id new w2 = (Inr snap, w3)" "untouched_since w0 w3"
  have bytes: "item_file o_id w0 = Some (Regular old)" "item_file r_id w0 = Some (Regular new)"
    using view_read_result [OF _ old(1)] view_read_result [OF _ new(1)] w old(2) by (simp_all add: stands_def)
  show "leaves_partly env dir r_id o_id w0 (case snap of
         None \<Rightarrow> ret (blocked_run ''SNAPSHOT_FAILED'' r_id o_id None)
       | Some s \<Rightarrow> transact_saved env ids dir r_id o_id pre old new s) w3"
  proof (cases snap)
    case None
    then show ?thesis by (simp only: option.case) (intro partly_ret [OF _ saved(2)] keeps_rules)
  next
    case (Some s)
    show ?thesis
      unfolding Some option.case
      by (rule transact_saved_partly [OF pair saved(2) bytes saved_history [OF saved(1) [unfolded Some]] pre])
  qed
qed

lemma transact_pair_partly:
  assumes pair: "r_id \<noteq> o_id" "is_valid_memory_item_id r_id" "is_valid_memory_item_id o_id"
      "memory_at env w0 r_id \<noteq> None" "memory_at env w0 o_id \<noteq> None"
    and w: "untouched_since w0 w"
  shows "leaves_partly env dir r_id o_id w0 (transact_pair dir env r_id o_id) w"
  unfolding transact_pair_def
proof (rule partly_frame [OF keeps_view_get w], rule partly_frame [OF keeps_view_get], assumption)
  fix a w1 b and w2 :: lifecycle_brain
  assume a: "view_get (se_codec env) [r_id, o_id] r_id w = (Inr a, w1)" "untouched_since w0 w1"
    and b: "view_get (se_codec env) [r_id, o_id] o_id w1 = (Inr b, w2)" and w2: "untouched_since w0 w2"
  have q: "undisturbed w" "undisturbed w1" and same: "same_items w0 w" "same_items w0 w1"
    using w a(2) by (simp_all add: stands_def same_items_def)
  have at_r: "memory_at env w0 r_id = Some (fst a)" "mi_id (fst a) = r_id"
    using view_get_memory [OF q(1) _ a(1)] pair(4) memory_at_unchanged [OF same(1), of env] by simp_all
  have at_o: "mi_id (fst b) = o_id"
    using view_get_memory(2) [OF q(2) _ b] pair(5) memory_at_unchanged [OF same(2), of env] by simp
  have transacted: "leaves_partly env dir r_id o_id w0 (transact env [r_id, o_id] dir r_id o_id pre) v"
    if "untouched_since w0 v" "preexisted dir env r_id o_id w0 pre" for v pre
    by (rule transact_partly [OF _ pair(3,2) _ _ that]) (use pair(1) in simp_all)
  show "leaves_partly env dir r_id o_id w0 (case dir of
         Supersede \<Rightarrow> transact env [r_id, o_id] Supersede (mi_id (fst a)) (mi_id (fst b))
           (mi_id (fst b) \<in> set (rf_mems (mi_refs (fst a))))
       | Revert \<Rightarrow>
           bindP (latest_applied_supersession_record (se_ledger env) (mi_id (fst a)) (mi_id (fst b))) (\<lambda>applied.
             transact env [r_id, o_id] Revert (mi_id (fst a)) (mi_id (fst b))
               (case applied of None \<Rightarrow> True | Some r \<Rightarrow> rc_replacement_ref_preexisted r))) w2"
  proof (cases dir)
    case Supersede
    then show ?thesis using transacted [OF w2] at_r at_o by (simp add: preexisted_def)
  next
    case Revert
    have "leaves_partly env dir r_id o_id w0 (bindP (latest_applied_supersession_record (se_ledger env) r_id o_id) (\<lambda>applied.
             transact env [r_id, o_id] dir r_id o_id
               (case applied of None \<Rightarrow> True | Some r \<Rightarrow> rc_replacement_ref_preexisted r))) w2"
    proof (rule partly_frame [OF keeps_latest w2], rule transacted)
      fix applied and w3 :: lifecycle_brain
      assume latest: "latest_applied_supersession_record (se_ledger env) r_id o_id w2 = (Inr applied, w3)"
      have "lb_ledger w2 = lb_ledger w0" using w2 by (simp add: stands_def ledger_of_def)
      then show "preexisted dir env r_id o_id w0 (case applied of None \<Rightarrow> True | Some r \<Rightarrow> rc_replacement_ref_preexisted r)"
        using latest_result [of "se_ledger env" r_id o_id w2 _ w3] latest Revert by (auto simp: preexisted_def split: option.splits)
    qed
    then show ?thesis using at_r at_o Revert by simp
  qed
qed

lemma after_preview_partly:
  assumes "untouched_since w0 w" "sr_status p = lit ''ready'' \<Longrightarrow> leaves_partly env dir r_id o_id w0 proceed w"
  shows "leaves_partly env dir r_id o_id w0 (after_preview dir env proceed p) w"
  unfolding after_preview_def by (intro wp_if partly_ret [OF _ assms(1)] keeps_rules assms(2)) simp_all

text \<open>A run that ends, by a result or by an exception, leaves the files as they were or such a pair.\<close>

lemma run_leaves_partly:
  assumes w: "undisturbed w" and run: "run_supersession dir env r_id o_id True w = (x, w')"
  shows "partly_done env dir r_id o_id w w'"
proof -
  have start: "untouched_since w w" using w by (simp add: stands_def)
  have locks: "keeps (only_files {} False) acquire_locks" by (simp add: acquire_locks_def keeps_rules)
  have "leaves_partly env dir r_id o_id w (run_supersession dir env r_id o_id True) w"
    unfolding run_supersession_eq
  proof (intro wp_if)
    show "leaves_partly env dir r_id o_id w (bindP (preview_of dir env r_id o_id) (\<lambda>p. ret (executed p))) w"
      "leaves_partly env dir r_id o_id w (ret (executed (result_of ''blocked'' ''PLATFORM_UNSUPPORTED'' r_id o_id))) w"
      by (intro partly_ret [OF _ start] keeps_rules)+
    show "leaves_partly env dir r_id o_id w (bindP acquire_locks (\<lambda>_. bindP (preview_of dir env r_id o_id) (after_preview dir env
             (bindP (preview_of dir env r_id o_id) (after_preview dir env (transact_pair dir env r_id o_id)))))) w"
    proof (rule partly_frame [OF locks start], rule partly_frame [OF keeps_preview_of], assumption,
        rule after_preview_partly, assumption, rule partly_frame [OF keeps_preview_of], assumption,
        rule after_preview_partly, assumption)
      fix w2 c and w3 :: lifecycle_brain
      assume w2: "untouched_since w w2" and c: "preview_of dir env r_id o_id w2 = (Inr c, w3)" and w3: "untouched_since w w3"
        and ready: "sr_status c = lit ''ready''"
      have "undisturbed w2" "same_items w w2" using w2 by (simp_all add: stands_def same_items_def)
      moreover have "sr_status c \<noteq> lit ''blocked''" using ready by simp
      ultimately show "leaves_partly env dir r_id o_id w (transact_pair dir env r_id o_id) w3"
        using preview_loaded [OF _ c] memory_at_unchanged [of w w2 env] by (intro transact_pair_partly w3) simp_all
    qed
  qed
  then show ?thesis using run by (cases x) (simp_all add: wp_def)
qed

lemma partly_others: "partly_done env dir r_id o_id w w' \<Longrightarrow> others_same {o_id, r_id} w w'"
  by (auto simp: partly_done_def written_def same_items_def others_same_def)

end
