(* ===== verification/SupersessionLinks.thy ===== *)
theory SupersessionLinks imports SupersessionExample SupersessionWrites begin

text \<open>
  The links from superseded memories to their replacements. A walk along them that ends well meets none
  of the memories it must not meet, so no run closes a cycle; and the walk ends, because every memory it
  loads is a new one among the files there are or may still be.
\<close>

section \<open>Links\<close>

definition link_of :: "supersession_env \<Rightarrow> 'z brain_scheme \<Rightarrow> pystr \<Rightarrow> pystr option" where
  "link_of env w i =
     (case memory_at env w i of
        None \<Rightarrow> None
      | Some item \<Rightarrow> if given_text (mi_superseded_by item) then mi_superseded_by item else None)"

definition links :: "supersession_env \<Rightarrow> 'z brain_scheme \<Rightarrow> (pystr \<times> pystr) set" where
  "links env w = {(i, j). link_of env w i = Some j}"

lemma linksI: "memory_at env w i = Some item \<Longrightarrow> mi_superseded_by item = Some j \<Longrightarrow> j \<noteq> [] \<Longrightarrow> (i, j) \<in> links env w"
  by (simp add: links_def link_of_def given_text_def)

lemma links_unchanged: "same_items w w' \<Longrightarrow> links env w' = links env w"
  using memory_at_unchanged [of w w' env] by (simp add: links_def link_of_def)

text \<open>A walk that ends well meets none of the memories it must not meet.\<close>

lemma walk_avoids:
  assumes "undisturbed w" "walk_chain env fuel cursor seen w = (Inr ''OK'', w')"
    "memory_at env w (mi_id cursor) = Some cursor" "(mi_id cursor, j) \<in> (links env w)\<^sup>+"
  shows "j \<notin> set seen"
  using assms
proof (induction fuel arbitrary: cursor seen w)
  case 0
  have "\<not> given_text (mi_superseded_by cursor)"
    using 0(2) by (subst (asm) walk_chain.simps) (auto simp: given_text_def split: option.splits if_splits)
  then have "(mi_id cursor, k) \<notin> links env w" for k using 0(3) by (simp add: links_def link_of_def)
  then show ?case using 0(4) by (meson tranclD)
next
  case (Suc k)
  obtain z where z: "(mi_id cursor, z) \<in> links env w" "(z, j) \<in> (links env w)\<^sup>*" using Suc.prems(4) by (meson tranclD)
  then have next0: "mi_superseded_by cursor = Some z" "z \<noteq> []"
    using Suc.prems(3) by (auto simp: links_def link_of_def given_text_def split: if_splits option.splits)
  then obtain loaded w1 where load: "load_item env z w = (Inr loaded, w1)" and fresh: "z \<notin> set seen"
    and rest: "(case loaded of Loaded next_item \<Rightarrow> walk_chain env k next_item (z # seen)
                  | _ \<Rightarrow> ret ''BROKEN_REPLACEMENT_CHAIN'') w1 = (Inr ''OK'', w')"
    using Suc.prems(2) by (subst (asm) walk_chain.simps) (auto simp: bindP_Inr_iff split: if_splits)
  obtain item where item: "loaded = Loaded item" using rest by (auto split: item_load.splits)
  note f = frame_unchanged [OF keepsD [OF keeps_load_item load] Suc.prems(1)]
  have at_z: "memory_at env w z = Some item" by (rule load_item_memory [OF Suc.prems(1) load [unfolded item]])
  then have id_z: "mi_id item = z" by (auto simp: memory_at_def split: option.splits item_entry.splits sum.splits if_splits)
  show ?case
  proof (cases "z = j")
    case False
    then have "(z, j) \<in> (links env w)\<^sup>+" using z(2) by (simp add: rtrancl_eq_or_trancl)
    then have "j \<notin> set (z # seen)"
      using Suc.IH [of w1 item "z # seen"] f rest item at_z id_z memory_at_unchanged [of w w1 env] links_unchanged [of w w1 env]
      by simp
    then show ?thesis by simp
  qed (use fresh in simp)
qed

section \<open>The codec and the links\<close>

text \<open>
  An id that ends in three dashes would end the frontmatter, which is cut at the first \<open>---\<close> that ends a line.
\<close>

definition ends_in_mark :: "pystr \<Rightarrow> bool" where
  "ends_in_mark i \<longleftrightarrow> take 3 (rev i) = [45, 45, 45]"

definition clean_link :: "pystr option \<Rightarrow> bool" where
  "clean_link s \<longleftrightarrow> given_text s \<longrightarrow> is_valid_memory_item_id (the s) \<and> \<not> ends_in_mark (the s)"

text \<open>
  What pydantic and YAML do with \<open>superseded_by\<close>: the field is read as it is given and dumped as it is, and of a
  dumped file that can be read the field is there as it was written or is not there.
\<close>

definition codec_keeps_links :: "item_codec \<Rightarrow> bool" where
  "codec_keeps_links cd \<longleftrightarrow>
     (\<forall>d item. ic_coerce cd d = Inr item \<longrightarrow> mi_superseded_by item = text_field (fget d ''superseded_by'' FNone))
     \<and> (\<forall>item. fget (ic_model_dump cd item) ''superseded_by'' FNone = link_field (mi_superseded_by item))
     \<and> (\<forall>item body data item' body'. clean_link (mi_superseded_by item)
          \<longrightarrow> utf8_encode (render_item_markdown cd item body) = Inr data \<longrightarrow> parse_item_bytes cd data = Inr (item', body')
          \<longrightarrow> mi_superseded_by item' \<in> {None, mi_superseded_by item})"

lemma fill_superseded [simp]: "fget (auto_fill repr_of d) ''superseded_by'' m = fget d ''superseded_by'' m"
  by (simp add: auto_fill_def fdefault_def)

lemma text_opt_field [simp]: "text_field (link_field s) = s"
  by (cases s) (simp_all add: link_field_def text_field_def)

lemma validated_superseded:
  assumes "codec_keeps_links cd" "model_validate cd (FDict d) = Inr item"
  shows "mi_superseded_by item = text_field (fget d ''superseded_by'' FNone)"
proof -
  obtain item0 where item0: "ic_coerce cd (auto_fill (ic_repr cd) d) = Inr item0" "validate_item item0 = Inr item"
    using assms(2) by (auto simp: model_validate_def make_item_def split: sum.splits)
  have "mi_superseded_by item = mi_superseded_by item0"
    using item0(2) by (auto simp: validate_item_def normalize_item_def Let_def split: if_splits)
  then show ?thesis using assms(1) item0(1) by (simp add: codec_keeps_links_def)
qed

lemma updated_superseded:
  assumes "codec_keeps_links cd" "updated_item cd item (superseded_update dir r_id) = Inr item'"
  shows "mi_superseded_by item' = (case dir of Supersede \<Rightarrow> Some r_id | Revert \<Rightarrow> None)"
proof -
  have key: "split_once [46] (lit ''superseded_by'') = None" "lit ''superseded_by'' \<noteq> lit ''summary''"
      "lit ''superseded_by'' \<noteq> lit ''context_views''" "\<not> prefix (lit ''context_views.'') (lit ''superseded_by'')"
    by code_simp+
  have "mi_superseded_by item' = text_field (fget (foldl apply_update (ic_model_dump cd item) (superseded_update dir r_id)) ''superseded_by'' FNone)"
    by (rule validated_superseded [OF assms(1)])
      (use assms(2) key in \<open>cases dir; simp add: updated_item_def Let_def\<close>)
  then show ?thesis using key by (cases dir) (simp_all add: apply_update_def fget_def update_conv' text_field_def)
qed

lemma updated_refs:
  assumes "codec_keeps_links cd" "updated_item cd item [(lit ''refs'', v)] = Inr item'"
  shows "mi_superseded_by item' = mi_superseded_by item"
proof -
  have key: "split_once [46] (lit ''refs'') = None" "lit ''refs'' \<noteq> lit ''summary''" "lit ''refs'' \<noteq> lit ''context_views''"
      "\<not> prefix (lit ''context_views.'') (lit ''refs'')" "lit ''refs'' \<noteq> lit ''superseded_by''"
    by code_simp+
  have "mi_superseded_by item' = text_field (fget (apply_update (ic_model_dump cd item) (lit ''refs'', v)) ''superseded_by'' FNone)"
    by (rule validated_superseded [OF assms(1)]) (use assms(2) key in \<open>simp add: updated_item_def Let_def\<close>)
  moreover have "fget (apply_update (ic_model_dump cd item) (lit ''refs'', v)) ''superseded_by'' FNone = link_field (mi_superseded_by item)"
    using assms(1) key by (simp add: codec_keeps_links_def apply_update_def fget_def update_conv')
  ultimately show ?thesis by simp
qed

lemma rendered_link:
  assumes cd: "codec_keeps_links cd" and p: "rendered cd i item body = Inr p" "parse_item_bytes cd (pm_data p) = Inr (item', body')"
    and clean: "clean_link (mi_superseded_by item)"
  shows "mi_superseded_by item' = None \<or> mi_superseded_by item' = mi_superseded_by item"
proof -
  have "utf8_encode (render_item_markdown cd item body) = Inr (pm_data p)"
    using p(1) by (auto simp: rendered_def bindR_Inr_iff)
  moreover have "clean_link (mi_superseded_by item) \<longrightarrow> utf8_encode (render_item_markdown cd item body) = Inr (pm_data p)
      \<longrightarrow> parse_item_bytes cd (pm_data p) = Inr (item', body') \<longrightarrow> mi_superseded_by item' \<in> {None, mi_superseded_by item}"
    using cd unfolding codec_keeps_links_def by blast
  ultimately show ?thesis using p(2) clean by simp
qed

lemma superseded_bytes_link:
  assumes cd: "codec_keeps_links cd" and bytes: "superseded_bytes dir cd r_id o_id old = Inr produced"
    and parsed: "parse_item_bytes cd produced = Inr (item', body')" and clean: "clean_link (Some r_id)"
  shows "mi_superseded_by item' = None \<or> dir = Supersede \<and> mi_superseded_by item' = Some r_id"
proof -
  obtain loaded p where p: "prepare_from cd o_id (superseded_update dir r_id) loaded = Inr p" "pm_data p = produced"
    using bytes by (auto simp: superseded_bytes_def bindR_Inr_iff)
  obtain updated where u: "updated_item cd (fst loaded) (superseded_update dir r_id) = Inr updated"
    and rendered: "rendered cd o_id updated (snd loaded) = Inr p"
    using p(1) by (auto simp: prepare_from_def bindR_Inr_iff)
  have link: "mi_superseded_by updated = (case dir of Supersede \<Rightarrow> Some r_id | Revert \<Rightarrow> None)"
    by (rule updated_superseded [OF cd u])
  then have "clean_link (mi_superseded_by updated)" using clean by (cases dir) (simp_all add: clean_link_def given_text_def)
  then show ?thesis
    using rendered_link [OF cd rendered _ , of item' body'] parsed p(2) link by (cases dir) auto
qed

lemma referenced_bytes_link:
  assumes cd: "codec_keeps_links cd" and bytes: "referenced_bytes dir cd r_id o_id new = Inr produced"
    and parsed: "parse_item_bytes cd new = Inr (item, body)" "parse_item_bytes cd produced = Inr (item', body')"
    and clean: "clean_link (mi_superseded_by item)"
  shows "mi_superseded_by item' = None \<or> mi_superseded_by item' = mi_superseded_by item"
proof (cases "reference_update dir item o_id")
  case None
  then show ?thesis using bytes parsed by (simp add: referenced_bytes_def)
next
  case (Some updates)
  then obtain v where v: "updates = [(lit ''refs'', v)]" by (cases dir) (auto split: if_splits)
  obtain p where p: "prepare_from cd r_id updates (item, body) = Inr p" "pm_data p = produced"
    using bytes parsed(1) Some by (auto simp: referenced_bytes_def bindR_Inr_iff)
  obtain updated where u: "updated_item cd item updates = Inr updated" and rendered: "rendered cd r_id updated body = Inr p"
    using p(1) by (auto simp: prepare_from_def bindR_Inr_iff)
  have link: "mi_superseded_by updated = mi_superseded_by item" by (rule updated_refs [OF cd u [unfolded v]])
  then show ?thesis using rendered_link [OF cd rendered _ , of item' body'] parsed(2) p(2) clean by auto
qed

section \<open>No cycles\<close>

definition sound_links :: "supersession_env \<Rightarrow> 'z brain_scheme \<Rightarrow> bool" where
  "sound_links env w \<longleftrightarrow> acyclic (links env w) \<and> (\<forall>i j. (i, j) \<in> links env w \<longrightarrow> clean_link (Some j))"

lemma memory_at_id: "memory_at env w i = Some item \<Longrightarrow> mi_id item = i"
  by (auto simp: memory_at_def split: option.splits item_entry.splits sum.splits if_splits)

lemma linked_clean: 
  assumes "\<And>i j. (i, j) \<in> links env w \<Longrightarrow> clean_link (Some j)" "memory_at env w i = Some item"
  shows "clean_link (mi_superseded_by item)"
proof (cases "given_text (mi_superseded_by item)")
  case True
  then have "(i, the (mi_superseded_by item)) \<in> links env w"
    using assms(2) by (auto simp: links_def link_of_def given_text_def)
  then show ?thesis using assms(1) True by (auto simp: given_text_def)
qed (simp add: clean_link_def)

lemma linksE:
  assumes "(i, j) \<in> links env w"
  obtains item where "memory_at env w i = Some item" "mi_superseded_by item = Some j" "j \<noteq> []"
  using assms by (auto simp: links_def link_of_def given_text_def split: option.splits if_splits)

text \<open>Whichever of its old and new bytes each file holds, at most the new link has been added.\<close>

lemma written_links:
  assumes cd: "codec_keeps_links (se_codec env)" and clean: "clean_link (Some r_id)"
    and sound: "\<And>i j. (i, j) \<in> links env w \<Longrightarrow> clean_link (Some j)"
    and "pair_validated env dir r_id o_id w" "written env dir r_id o_id pre w w'"
  shows "links env w' \<subseteq> (if dir = Supersede then insert (o_id, r_id) (links env w) else links env w)"
proof
  fix e assume e: "e \<in> links env w'"
  obtain i j where ij: "e = (i, j)" by fastforce
  obtain old new produced_old produced_new where c: "item_file o_id w = Some (Regular old)" "item_file r_id w = Some (Regular new)"
    "superseded_bytes dir (se_codec env) r_id o_id old = Inr produced_old"
    "if pre then produced_new = new else referenced_bytes dir (se_codec env) r_id o_id new = Inr produced_new"
    "item_file o_id w' \<in> {Some (Regular old), Some (Regular produced_old)}"
    "item_file r_id w' \<in> {Some (Regular new), Some (Regular produced_new)}" "others_same {o_id, r_id} w w'"
    using assms(5) unfolding written_def by blast
  obtain replacement body where rep: "parse_item_bytes (se_codec env) new = Inr (replacement, body)" "mi_id replacement = r_id"
    using assms(4) c(2) unfolding pair_validated_def by auto
  obtain item where item: "memory_at env w' i = Some item" "mi_superseded_by item = Some j" "j \<noteq> []"
    using e ij by (auto elim: linksE)
  have kept: "e \<in> links env w" if "item_file i w' = item_file i w"
  proof -
    have "memory_at env w i = Some item" using item(1) that by (simp add: memory_at_def)
    then show ?thesis using linksI [OF _ item(2,3)] ij by simp
  qed
  consider (same) "item_file i w' = item_file i w"
    | (old) "i = o_id" "item_file o_id w' = Some (Regular produced_old)"
    | (new) "i = r_id" "item_file r_id w' = Some (Regular produced_new)"
    using c by (cases "i \<in> {o_id, r_id}") (auto simp: others_same_def)
  then show "e \<in> (if dir = Supersede then insert (o_id, r_id) (links env w) else links env w)"
  proof cases
    case same
    then show ?thesis using kept by simp
  next
    case old
    obtain body' where "parse_item_bytes (se_codec env) produced_old = Inr (item, body')"
      using item(1) old by (auto simp: memory_at_def split: sum.splits if_splits)
    from superseded_bytes_link [OF cd c(3) this clean] show ?thesis using item ij old by auto
  next
    case new
    obtain body' where parsed: "parse_item_bytes (se_codec env) produced_new = Inr (item, body')"
      using item(1) new by (auto simp: memory_at_def split: sum.splits if_splits)
    have at_r: "memory_at env w r_id = Some replacement" by (rule memory_atI [OF c(2) rep])
    have "mi_superseded_by item = None \<or> mi_superseded_by item = mi_superseded_by replacement"
    proof (cases pre)
      case True
      then show ?thesis using c(4) parsed rep by simp
    next
      case False
      then show ?thesis using referenced_bytes_link [OF cd _ rep(1) parsed linked_clean [OF sound at_r]] c(4) by simp
    qed
    then have "mi_superseded_by replacement = Some j" using item(2) by simp
    then have "(r_id, j) \<in> links env w" by (rule linksI [OF at_r _ item(3)])
    then show ?thesis using ij new by simp
  qed
qed

lemma validated_avoids:
  assumes "pair_validated env Supersede r_id o_id w" "r_id \<noteq> o_id"
  shows "(r_id, o_id) \<notin> (links env w)\<^sup>*"
proof -
  obtain old new replacement obsolete body v v' where a: "item_file r_id w = Some (Regular new)"
    "parse_item_bytes (se_codec env) new = Inr (replacement, body)" "mi_id replacement = r_id" "mi_id obsolete = o_id"
    "undisturbed v" "\<And>i. item_file i v = item_file i w" "validate_pair env replacement obsolete v = (Inr ''OK'', v')"
    using assms(1) unfolding pair_validated_def by auto
  have same: "same_items w v" using a(6) by (simp add: same_items_def)
  have "walk_chain env (chain_fuel v) replacement [o_id] v = (Inr ''OK'', v')"
    using a(4,7) by (auto simp: validate_pair_def bindP_Inr_iff split: if_splits)
  moreover have "memory_at env v r_id = Some replacement"
    using memory_atI [OF a(1-3)] memory_at_unchanged [OF same] by simp
  ultimately have "(r_id, j) \<in> (links env v)\<^sup>+ \<Longrightarrow> j \<noteq> o_id" for j
    using walk_avoids [OF a(5), of env "chain_fuel v" replacement "[o_id]" v' j] a(3) by auto
  then show ?thesis using assms(2) links_unchanged [OF same, of env] by (auto simp: rtrancl_eq_or_trancl)
qed

text \<open>However a run ends, by a result or an exception, it leaves no cycle.\<close>

lemma run_keeps_links:
  assumes cd: "codec_keeps_links (se_codec env)" and clean: "\<not> ends_in_mark r_id" and w: "undisturbed w" and sound: "sound_links env w"
    and run: "run_supersession dir env r_id o_id True w = (x, w')"
  shows "sound_links env w'"
proof -
  have links_w: "\<And>i j. (i, j) \<in> links env w \<Longrightarrow> clean_link (Some j)" using sound by (simp add: sound_links_def)
  note partly = run_leaves_partly [OF w run]
  show ?thesis
  proof (cases "same_items w w'")
    case True
    then show ?thesis using sound links_unchanged [OF True, of env] by (simp add: sound_links_def)
  next
    case False
    then obtain pre where c: "r_id \<noteq> o_id" "is_valid_memory_item_id r_id" "pair_validated env dir r_id o_id w" "written env dir r_id o_id pre w w'"
      using partly unfolding partly_done_def by blast
    have clean: "clean_link (Some r_id)" using clean c(2) by (simp add: clean_link_def)
    have sub: "links env w' \<subseteq> (if dir = Supersede then insert (o_id, r_id) (links env w) else links env w)"
      by (rule written_links [OF cd clean links_w c(3,4)]) assumption
    have clean_new: "clean_link (Some j)" if "(i, j) \<in> links env w'" for i j
      using subsetD [OF sub that] links_w clean by (cases dir) auto
    have "acyclic (links env w')"
    proof (cases dir)
      case Supersede
      have "acyclic (insert (o_id, r_id) (links env w))"
        using sound validated_avoids [OF c(3) [unfolded Supersede] c(1)] by (simp add: sound_links_def acyclic_insert)
      moreover have "links env w' \<subseteq> insert (o_id, r_id) (links env w)" using sub Supersede by simp
      ultimately show ?thesis by (rule acyclic_subset)
    next
      case Revert
      then have "links env w' \<subseteq> links env w" using sub by simp
      moreover have "acyclic (links env w)" using sound by (simp add: sound_links_def)
      ultimately show ?thesis by (blast intro: acyclic_subset)
    qed
    then show ?thesis using clean_new unfolding sound_links_def by blast
  qed
qed

text \<open>
  An obsolete memory whose \<open>superseded_by\<close> is the empty text is found ready by a preview, which tests the
  text, but is never superseded: under the locks the field has to be absent.
\<close>

lemma empty_link_blocks:
  assumes "undisturbed w" "memory_at env w o_id = Some item" "mi_superseded_by item = Some []"
    "run_supersession Supersede env r_id o_id True w = (Inr x, w')"
  shows "\<not> success Supersede x"
proof
  assume "success Supersede x"
  then have "pair_validated env Supersede r_id o_id w"
    using run_result [OF assms(1,4)] by (auto simp: success_def)
  then obtain obsolete where "memory_at env w o_id = Some obsolete" "mi_superseded_by obsolete = None"
    unfolding pair_validated_def using memory_atI by (metis direction.distinct(1))
  then show False using assms(2,3) by simp
qed

text \<open>A line of the frontmatter that ends in three dashes ends the frontmatter.\<close>

lemma title_cuts_frontmatter:
  "split_once frontmatter_mark (lit ''title: a'' @ frontmatter_mark @ rest) = Some (lit ''title: a'', rest)"
  by (simp add: frontmatter_mark_def lit_def)

text \<open>Linking from a memory without a file raises; unlinking does not.\<close>

lemma link_of_missing:
  assumes "item_file i w = None" "br_script w = []"
  shows "store_link_mem cd i j w = (Inl FileNotFound, w)" "store_unlink_mem cd i j w = (Inr False, w)"
  using assms
  by (simp_all add: store_link_mem_def store_unlink_mem_def view_link_mem_def view_unlink_mem_def view_prepare_link_def
      view_prepare_unlink_def view_get_def view_read_bytes_def require_locked_def read_item_file_def fs_step_def
      next_event_def no_event_def bindP_def try_catch_def)

section \<open>The walk ends\<close>

text \<open>The ids that have a file or may still get one.\<close>

definition pool :: "'z brain_scheme \<Rightarrow> pystr set" where
  "pool w = set (map fst (br_items w)) \<union> set (map fst (concat (map fe_edits (br_script w))))"

lemma finite_pool [simp]: "finite (pool w)"
  by (simp add: pool_def)

lemma card_pool: "card (pool w) < chain_fuel w"
proof -
  have "card (pool w) \<le> card (set (map fst (br_items w))) + card (set (map fst (concat (map fe_edits (br_script w)))))"
    unfolding pool_def by (rule card_Un_le)
  also have "\<dots> \<le> length (br_items w) + length (concat (map fe_edits (br_script w)))"
    using card_length [of "map fst (br_items w)"] card_length [of "map fst (concat (map fe_edits (br_script w)))"] by simp
  finally show ?thesis by (simp add: chain_fuel_def)
qed

lemma edit_items_pool: "set (map fst (edit_items es files)) \<subseteq> set (map fst files) \<union> set (map fst es)"
proof (induction es files rule: edit_items.induct)
  case (2 i f es files)
  then show ?case using dom_update [of i f files] by (auto simp: dom_map_of_conv_image_fst)
next
  case (3 i es files)
  then show ?case by (auto simp: delete_keys)
qed simp

lemma next_event_pool: "next_event w = (event, w') \<Longrightarrow> pool w' \<subseteq> pool w"
proof (cases "br_script w")
  case Nil
  then show "next_event w = (event, w') \<Longrightarrow> pool w' \<subseteq> pool w" by (simp add: next_event_def)
next
  case (Cons e es)
  assume "next_event w = (event, w')"
  then have w': "w' = w\<lparr>br_items := edit_items (fe_edits e) (br_items w), br_script := es\<rparr>"
    using Cons by (auto simp: next_event_def)
  show "pool w' \<subseteq> pool w"
    unfolding w' pool_def Cons using edit_items_pool [of "fe_edits e" "br_items w"] by auto
qed

lemma item_file_pool: "item_file i w = Some x \<Longrightarrow> i \<in> pool w"
  unfolding item_file_def pool_def by (metis UnI1 image_eqI fst_conv image_set map_of_SomeD)

text \<open>A load, spelled out.\<close>

definition load_error :: "py_exn \<Rightarrow> item_load result" where
  "load_error e = (if e = FileNotFound then Inr Missing else if is_item_read_error e then Inr Invalid else Inl e)"

definition loaded_from :: "supersession_env \<Rightarrow> pystr \<Rightarrow> pybytes result \<Rightarrow> item_load result" where
  "loaded_from env i read =
     (case bindR read (parse_item_bytes (se_codec env)) of
        Inl e \<Rightarrow> load_error e
      | Inr loaded \<Rightarrow> Inr (if mi_id (fst loaded) \<noteq> i then Invalid else Loaded (fst loaded)))"

lemma load_item_run:
  "load_item env i w =
     (if is_valid_memory_item_id i then (loaded_from env i (fst (read_item_file i w)), snd (read_item_file i w))
      else (Inr Invalid, w))"
proof -
  obtain r v where "read_item_file i w = (r, v)" by fastforce
  then show ?thesis
    by (cases r)
      (auto simp: load_item_def try_catch_def get_nofollow_def read_bytes_nofollow_def bindP_def loaded_from_def load_error_def
        FileNotFound_def split: sum.splits)
qed

lemma loaded_from_Loaded: "loaded_from env i read = Inr (Loaded item) \<Longrightarrow> \<exists>b. read = Inr b"
  by (cases read) (simp_all add: loaded_from_def load_error_def split: if_splits)

lemma read_item_run:
  assumes "next_event w = (event, v)"
  shows "snd (read_item_file i w) = v" "fst (read_item_file i w) = Inr b \<Longrightarrow> item_file i v = Some (Regular b)"
  by (auto simp: read_item_file_def fs_step_def assms split: fs_outcome.splits option.splits item_entry.splits)

lemma load_item_pool:
  assumes "load_item env i w = (r, w')"
  shows "pool w' \<subseteq> pool w" "r = Inr (Loaded item) \<Longrightarrow> i \<in> pool w"
proof -
  obtain event v where ev: "next_event w = (event, v)" by fastforce
  note read = read_item_run [OF ev]
  show "pool w' \<subseteq> pool w"
    using assms read(1) next_event_pool [OF ev] by (auto simp: load_item_run split: if_splits)
  show "i \<in> pool w" if r: "r = Inr (Loaded item)"
  proof -
    have "loaded_from env i (fst (read_item_file i w)) = Inr (Loaded item)"
      using assms r by (auto simp: load_item_run split: if_splits)
    then obtain b where "fst (read_item_file i w) = Inr b" using loaded_from_Loaded by blast
    then have "i \<in> pool v" using read(2) item_file_pool by blast
    then show ?thesis using next_event_pool [OF ev] by blast
  qed
qed

text \<open>After a memory has been loaded fewer are left that have not been seen.\<close>

lemma pool_shrinks:
  assumes "load_item env z w = (Inr (Loaded item), w')" "z \<notin> set seen" "card (pool w - set seen) < Suc k"
  shows "card (pool w' - set (z # seen)) < k"
proof -
  have "z \<in> pool w - set seen" using load_item_pool(2) [OF assms(1) refl] assms(2) by simp
  then have "card (pool w - set seen - {z}) < card (pool w - set seen)" by (intro card_Diff1_less) simp_all
  moreover have "card (pool w' - set (z # seen)) \<le> card (pool w - set seen - {z})"
    using load_item_pool(1) [OF assms(1)] by (intro card_mono) auto
  ultimately show ?thesis using assms(3) by simp
qed

lemma walk_fuel_enough:
  assumes "card (pool w - set seen) < fuel" "fuel \<le> k"
  shows "walk_chain env k cursor seen w = walk_chain env fuel cursor seen w"
  using assms
proof (induction fuel arbitrary: cursor seen w k)
  case (Suc n)
  then obtain m where k: "k = Suc m" "n \<le> m" by (cases k) simp_all
  have same: "walk_chain env m next_item (z # seen) w' = walk_chain env n next_item (z # seen) w'"
    if "load_item env z w = (Inr (Loaded next_item), w')" "z \<notin> set seen" for z next_item w'
    by (rule Suc.IH [OF pool_shrinks [OF that Suc.prems(1)] k(2)])
  show ?case
    unfolding k(1) using same
    by (subst (1 2) walk_chain.simps)
      (auto simp: bindP_def split: option.splits prod.splits sum.splits item_load.splits)
qed simp

text \<open>Neither the codec nor the script raises the marker of a loop that does not end.\<close>

definition never_marks :: "supersession_env \<Rightarrow> 'z brain_scheme \<Rightarrow> bool" where
  "never_marks env w \<longleftrightarrow>
     (\<forall>t. ic_yaml_load (se_codec env) t \<noteq> Inl Diverges)
     \<and> list_all (\<lambda>e. fe_outcome e \<noteq> Fails Diverges \<and> fe_outcome e \<noteq> Fails_after Diverges) (br_script w)"

lemma load_item_marks:
  assumes "never_marks env w" "load_item env i w = (r, w')"
  shows "never_marks env w'" "r \<noteq> Inl Diverges"
proof -
  obtain event v where ev: "next_event w = (event, v)" by fastforce
  have v: "never_marks env v" "fe_outcome event \<noteq> Fails Diverges" "fe_outcome event \<noteq> Fails_after Diverges"
    using assms(1) ev by (auto simp: never_marks_def next_event_def no_event_def split: list.splits)
  have read: "snd (read_item_file i w) = v" "fst (read_item_file i w) \<noteq> Inl Diverges"
    using v(2,3) by (auto simp: read_item_file_def fs_step_def ev Diverges_def FileNotFound_def OSErr_def lit_def
        split: fs_outcome.splits option.splits item_entry.splits)
  have parse: "parse_item_bytes (se_codec env) b \<noteq> Inl Diverges" for b
    using parse_error_other assms(1) unfolding never_marks_def Diverges_def by blast
  show "never_marks env w'" using assms read(1) v(1) by (auto simp: load_item_run split: if_splits)
  have "loaded_from env i (fst (read_item_file i w)) \<noteq> Inl Diverges"
    using read(2) parse by (auto simp: loaded_from_def load_error_def bindR_Inl_iff split: sum.splits if_splits)
  then show "r \<noteq> Inl Diverges" using assms(2) by (auto simp: load_item_run split: if_splits)
qed

lemma walk_marks:
  assumes "never_marks env w" "card (pool w - set seen) < fuel"
  shows "fst (walk_chain env fuel cursor seen w) \<noteq> Inl Diverges"
  using assms
proof (induction fuel arbitrary: cursor seen w)
  case (Suc n)
  have more: "fst (walk_chain env n next_item (z # seen) w') \<noteq> Inl Diverges"
    if "load_item env z w = (Inr (Loaded next_item), w')" "z \<notin> set seen" for z next_item w'
    by (rule Suc.IH [OF load_item_marks(1) [OF Suc.prems(1) that(1)] pool_shrinks [OF that Suc.prems(2)]])
  have load: "load_item env z w \<noteq> (Inl Diverges, w')" for z w'
    using load_item_marks(2) [OF Suc.prems(1), of z] by blast
  show ?case
    using more load
    by (subst walk_chain.simps)
      (auto simp: bindP_def split: option.splits prod.splits sum.splits item_load.splits)
qed simp


section \<open>The small format keeps links\<close>

definition small_front :: "int \<Rightarrow> int \<Rightarrow> int \<Rightarrow> pybytes" where
  "small_front a b c = [45, 45, 45, 10, a, b, c, 10, 45, 45, 45, 10, 10]"

lemma decode_front:
  assumes "utf8_decode (small_front a b c @ rest) = Inr t" "a \<in> {97, 98, 63}" "b \<in> {97, 98, 63}" "c \<in> {97, 98, 63}"
  shows "\<exists>t'. t = small_front a b c @ t'"
  using assms by (cases "utf8_decode rest") (auto simp: small_front_def utf8_cons_def)

lemma unify_plain:
  assumes "list_all (\<lambda>x. x \<noteq> 13) xs"
  shows "unify_newlines (xs @ [10] @ t) = xs @ unify_newlines ([10] @ t)"
  using assms
proof (induction xs)
  case (Cons x xs)
  then show ?case by (cases xs) simp_all
qed simp

lemma unify_newline: "\<exists>u. unify_newlines (10 # t) = 10 # u"
  by (cases t) simp_all

lemma unify_front:
  assumes "a \<in> {97, 98, 63}" "b \<in> {97, 98, 63}" "c \<in> {97, 98, 63}"
  shows "\<exists>u. unify_newlines (small_front a b c @ t) = small_front a b c @ u"
proof -
  obtain u where u: "unify_newlines (10 # t) = 10 # u" using unify_newline by blast
  have "unify_newlines ([45, 45, 45, 10, a, b, c, 10, 45, 45, 45, 10] @ [10] @ t)
      = [45, 45, 45, 10, a, b, c, 10, 45, 45, 45, 10] @ unify_newlines ([10] @ t)"
    by (rule unify_plain) (use assms in auto)
  then show ?thesis using u by (auto simp: small_front_def)
qed

lemma fix_letters:
  "a \<in> {97, 98, 63} \<Longrightarrow> b \<in> {97, 98, 63} \<Longrightarrow> c \<in> {97, 98, 63} \<Longrightarrow> fix_frontmatter [a, b, c, 10] = [a, b, c, 10]"
  by (simp only: insert_iff empty_iff simp_thms, elim disjE; simp only:; code_simp)

lemma small_validated:
  assumes "model_validate small_codec (FDict d) = Inr item"
  shows "mi_superseded_by item = text_field (fget d ''superseded_by'' FNone)"
proof -
  obtain item0 where item0: "small_coerce (auto_fill (\<lambda>_. []) d) = Inr item0" "validate_item item0 = Inr item"
    using assms by (auto simp: model_validate_def make_item_def small_codec_def split: sum.splits)
  have "mi_superseded_by item = mi_superseded_by item0"
    using item0(2) by (auto simp: validate_item_def normalize_item_def Let_def split: if_splits)
  then show ?thesis using item0(1) by (auto simp: small_coerce_def small_item_def split: option.splits)
qed

lemma small_letters:
  assumes "parse_item_bytes small_codec (small_front a b c @ rest) = Inr (item, body)"
    "a \<in> {97, 98, 63}" "b \<in> {97, 98, 63}" "c \<in> {97, 98, 63}"
  shows "b = 97 \<and> mi_superseded_by item = None \<or> b = 98 \<and> mi_superseded_by item = Some new_id"
proof -
  note letters = assms(2-4)
  have "decode_utf8_sig (small_front a b c @ rest) = utf8_decode (small_front a b c @ rest)"
    by (simp add: decode_utf8_sig_def small_front_def)
  then obtain t where t: "utf8_decode (small_front a b c @ rest) = Inr t"
    and parsed: "parse_item_markdown small_codec (unify_newlines t) = Inr (item, body)"
    using assms(1) by (auto simp: parse_item_bytes_def bindR_Inr_iff)
  obtain t' where t': "t = small_front a b c @ t'" using decode_front [OF t letters] by blast
  obtain u where u: "unify_newlines t = small_front a b c @ u" using unify_front [OF letters] t' by blast
  have keep: "dropWhile (\<lambda>x. x = 65279) (small_front a b c @ u) = small_front a b c @ u"
    by (simp add: small_front_def)
  obtain v where v: "unify_newlines (small_front a b c @ u) = small_front a b c @ v" using unify_front [OF letters] by blast
  have mark: "prefix frontmatter_mark (small_front a b c @ v)"
    by (simp add: small_front_def frontmatter_mark_def)
  have split: "split_once frontmatter_mark (drop 4 (small_front a b c @ v)) = Some ([a, b, c, 10], 10 # v)"
    using letters by (auto simp: small_front_def frontmatter_mark_def)
  have eq: "parse_item_markdown small_codec (unify_newlines t) = bindR (small_load [a, b, c, 10]) (\<lambda>data.
      bindR (model_validate small_codec data) (\<lambda>item. Inr (item, dropWhile (\<lambda>c. c = 10) (10 # v))))"
    by (simp only: parse_item_markdown_def Let_def u keep v mark split fix_letters [OF letters] not_True_eq_False if_False
        option.case prod.case small_codec_def item_codec.select_convs)
  obtain data where data: "small_load [a, b, c, 10] = Inr data" "model_validate small_codec data = Inr item"
    using parsed unfolding eq by (auto simp: bindR_Inr_iff)
  have d: "data = FDict [(lit ''id'', FStr (if a = 97 then old_id else new_id)),
               (lit ''superseded_by'', if b = 97 then FNone else FStr new_id),
               (lit ''refs'', FDict [(lit ''mems'', FList (if c = 97 then [] else [FStr old_id]))]),
               (lit ''confidence'', FReal (1 / 2))]" "b \<in> {97, 98}"
    using data(1) by (auto simp: small_load_def split: if_splits)
  show ?thesis using small_validated [OF data(2) [unfolded d(1)]] d(2) by (auto simp: fget_def text_field_def)
qed

lemma small_codec_keeps_links: "codec_keeps_links small_codec"
  unfolding codec_keeps_links_def
proof (intro conjI allI impI)
  fix d item assume "ic_coerce small_codec d = Inr item"
  then show "mi_superseded_by item = text_field (fget d ''superseded_by'' FNone)"
    by (auto simp: small_codec_def small_coerce_def small_item_def split: option.splits)
next
  fix item show "fget (ic_model_dump small_codec item) ''superseded_by'' FNone = link_field (mi_superseded_by item)"
    by (simp add: small_codec_def small_model_dump_def fget_def)
next
  fix item body data item' body'
  assume data: "utf8_encode (render_item_markdown small_codec item body) = Inr data"
    and parsed: "parse_item_bytes small_codec data = Inr (item', body')"
  define d where "d = exclude_none (small_model_dump item)"
  define a where "a = id_letter (fget d ''id'' FNone)"
  define b where "b = superseded_letter (fget d ''superseded_by'' FNone)"
  define c where "c = mems_letter (small_mems d)"
  have letters: "a \<in> {97, 98, 63}" "b \<in> {97, 98, 63}" "c \<in> {97, 98, 63}"
    by (simp_all add: a_def b_def c_def id_letter_def superseded_letter_def mems_letter_def)
  have "render_item_markdown small_codec item body = small_front a b c @ rstrip_by is_space body @ [10]"
    by (simp add: render_item_markdown_def small_codec_def small_dump_def small_front_def frontmatter_mark_def a_def b_def c_def d_def)
  then have "data = small_front a b c @ concat (map utf8_char (rstrip_by is_space body @ [10]))"
    using data letters by (auto simp: utf8_encode_def small_front_def utf8_char_def split: if_splits)
  then have "b = 97 \<and> mi_superseded_by item' = None \<or> b = 98 \<and> mi_superseded_by item' = Some new_id"
    using small_letters [OF _ letters] parsed by blast
  moreover have "fget d ''superseded_by'' FNone = link_field (mi_superseded_by item)"
    by (cases "mi_superseded_by item")
      (simp_all add: d_def exclude_none_def small_model_dump_def fget_def link_field_def refs_field_def)
  ultimately show "mi_superseded_by item' \<in> {None, mi_superseded_by item}"
    by (cases "mi_superseded_by item") (auto simp: b_def superseded_letter_def link_field_def split: if_splits)
qed

lemma small_clean: "\<not> ends_in_mark new_id"
  by code_simp

lemma small_sound: "sound_links small_env small_brain"
proof -
  have "link_of small_env small_brain i = None" for i
  proof -
    have one: "map_option mi_superseded_by (memory_at small_env small_brain old_id) = Some None"
        "map_option mi_superseded_by (memory_at small_env small_brain new_id) = Some None"
      by code_simp+
    have "i \<notin> {old_id, new_id} \<Longrightarrow> memory_at small_env small_brain i = None"
      by (simp add: memory_at_def item_file_def small_brain_def)
    then show ?thesis using one by (cases "i \<in> {old_id, new_id}") (auto simp: link_of_def given_text_def)
  qed
  then show ?thesis by (simp add: sound_links_def links_def wf_acyclic)
qed

end
