(* ===== verification/SupersessionClaims.thy ===== *)
theory SupersessionClaims imports SupersessionLinks begin

text \<open>
  The properties of \<open>apply\<close> and \<open>revert\<close>. While nobody else edits the items, a run that returns without a
  failed rollback changes the two files together or not at all, and however a run ends each file holds its
  old bytes or the new ones; a run that applies found the pair valid, one failing call does no harm, the
  links of superseded memories stay free of cycles, the walk along them ends, and a ready supersession
  goes through.
\<close>

section \<open>Properties\<close>

text \<open>C6. While nobody else edits the items, a supersession or a reversal touches no file but the two,
  and however it ends, by a result, an error or an interrupt, with any number of failing calls, the files
  are as they were or each holds its old bytes or the new bytes computed from them. If it returns and the
  result does not report a failed rollback, it is all or nothing: no file has changed and the result says
  blocked or already applied, or both files hold the new bytes and the ledger has the record of the
  transaction. Only a failed rollback, reported as such when the run returns, or an exception can leave one
  file new and the other old.\<close>

theorem supersession_is_atomic:
  assumes "undisturbed w" "run_supersession dir env r_id o_id True w = (x, w')"
  shows "others_same {o_id, r_id} w w'
     \<and> (same_items w w' \<or> (\<exists>pre. preexisted dir env r_id o_id w pre \<and> written env dir r_id o_id pre w w'))
     \<and> (\<forall>result. x = Inr result \<longrightarrow>
          same_items w w' \<and> sr_status result \<in> {lit ''blocked'', lit ''already_applied''}
          \<or> failed_rollback result
          \<or> success dir result \<and> r_id \<noteq> o_id
            \<and> (\<exists>pre. preexisted dir env r_id o_id w pre \<and> committed env dir r_id o_id pre w w'))"
proof -
  note partly = run_leaves_partly [OF assms]
  have "same_items w w' \<or> (\<exists>pre. preexisted dir env r_id o_id w pre \<and> written env dir r_id o_id pre w w')"
    using partly by (auto simp: partly_done_def)
  moreover have "same_items w w' \<and> sr_status result \<in> {lit ''blocked'', lit ''already_applied''}
      \<or> failed_rollback result
      \<or> success dir result \<and> r_id \<noteq> o_id
        \<and> (\<exists>pre. preexisted dir env r_id o_id w pre \<and> committed env dir r_id o_id pre w w')" if "x = Inr result" for result
    using run_result [OF assms(1) assms(2) [unfolded that]] by auto
  ultimately show ?thesis using partly_others [OF partly] by blast
qed

lemma small_run_of: "\<exists>x w. run_supersession Supersede small_env new_id old_id True small_brain = (Inr x, w) \<and> success Supersede x"
  by (rule small_run) auto

lemma supersession_is_atomic_witness:
  "\<exists>x w. success Supersede x \<and> others_same {old_id, new_id} small_brain w
     \<and> (\<exists>pre. committed small_env Supersede new_id old_id pre small_brain w)"
proof -
  obtain x w where run: "run_supersession Supersede small_env new_id old_id True small_brain = (Inr x, w)" and x: "success Supersede x"
    using small_run_of by blast
  note atomic = supersession_is_atomic [OF small_quiet(1) run]
  have "sr_status x = lit ''applied''" using x by (simp add: success_def)
  then show ?thesis using atomic x by (auto simp: failed_rollback_def)
qed

text \<open>C9. A supersession that succeeds, while nobody else edits the items, found two different memories of one
  tenant and one project, the replacement needing no review and at most as sensitive as the obsolete one,
  which nothing superseded before; and no path of links leads from the replacement back to it.\<close>

theorem applied_supersession_is_allowed:
  assumes "undisturbed w" "apply_supersession env r_id o_id True w = (Inr x, w')" "success Supersede x"
  shows "r_id \<noteq> o_id \<and> (r_id, o_id) \<notin> (links env w)\<^sup>*
     \<and> (\<exists>replacement obsolete. memory_at env w r_id = Some replacement \<and> memory_at env w o_id = Some obsolete
         \<and> mi_tenant_id replacement = mi_tenant_id obsolete \<and> mi_project replacement = mi_project obsolete
         \<and> \<not> list_ex (\<lambda>tag. lower tag \<in> set review_required_tags) (mi_tags replacement)
         \<and> sensitivity_rank (item_sensitivity_value replacement) \<le> sensitivity_rank (item_sensitivity_value obsolete)
         \<and> mi_superseded_by obsolete = None)"
proof -
  have run: "run_supersession Supersede env r_id o_id True w = (Inr x, w')" using assms(2) by simp
  have "sr_status x = lit ''applied''" using assms(3) by (simp add: success_def)
  then have pair: "r_id \<noteq> o_id" "pair_validated env Supersede r_id o_id w"
    using run_result [OF assms(1) run] by auto
  obtain old new replacement obsolete body body' v v' where a:
    "item_file o_id w = Some (Regular old)" "item_file r_id w = Some (Regular new)"
    "parse_item_bytes (se_codec env) new = Inr (replacement, body)" "parse_item_bytes (se_codec env) old = Inr (obsolete, body')"
    "mi_id replacement = r_id" "mi_id obsolete = o_id" "mi_superseded_by obsolete = None"
    "validate_pair env replacement obsolete v = (Inr ''OK'', v')"
    using pair(2) unfolding pair_validated_def by auto
  have valid: "mi_tenant_id replacement = mi_tenant_id obsolete" "mi_project replacement = mi_project obsolete"
      "\<not> list_ex (\<lambda>tag. lower tag \<in> set review_required_tags) (mi_tags replacement)"
      "sensitivity_rank (item_sensitivity_value replacement) \<le> sensitivity_rank (item_sensitivity_value obsolete)"
    using a(8) by (auto simp: validate_pair_def split: if_splits)
  have "memory_at env w r_id = Some replacement" "memory_at env w o_id = Some obsolete"
    by (rule memory_atI [OF a(2,3,5)], rule memory_atI [OF a(1,4,6)])
  then show ?thesis using validated_avoids [OF pair(2,1)] pair(1) valid a(7) by blast
qed

lemma applied_supersession_is_allowed_witness: "(new_id, old_id) \<notin> (links small_env small_brain)\<^sup>*"
proof -
  obtain x w where "apply_supersession small_env new_id old_id True small_brain = (Inr x, w)" "success Supersede x"
    by (rule small_run)
  from applied_supersession_is_allowed [OF small_quiet(1) this] show ?thesis by blast
qed




text \<open>C13. On a capable platform whose clock gives timestamps the ledger accepts, whose git answers with object
  ids and whose index raises no interrupt, when no call fails and nobody else edits the items, a
  supersession that a dry run finds ready goes through and returns a success, provided that the ids have
  no control characters, the obsolete memory has no \<open>superseded_by\<close> at all (an empty text is previewed as
  ready and then always blocked, \<open>empty_link_blocks\<close>) and the new frontmatter validates and can be encoded.\<close>

theorem ready_supersession_applies:
  assumes "equipped env" "undisturbed w" "faults w = 0"
    and "apply_supersession env r_id o_id False w = (Inr p, w0)" "sr_status p = lit ''ready''"
    and "\<not> has_control r_id" "\<not> has_control o_id"
    and "map_option mi_superseded_by (memory_at env w o_id) = Some None" "can_prepare env r_id o_id w"
  shows "\<exists>x w'. apply_supersession env r_id o_id True w = (Inr x, w') \<and> success Supersede x"
proof -
  have "preview_current env r_id o_id w = (Inr p, w0)" using assms(4) by (simp add: apply_supersession_def Let_def)
  from ready_run [OF assms(1-3) this assms(5-9)] show ?thesis
    by (auto simp: wp_def split: prod.splits sum.splits)
qed

lemma ready_supersession_applies_witness:
  "\<exists>x w. apply_supersession small_env new_id old_id True small_brain = (Inr x, w) \<and> success Supersede x"
proof -
  obtain p w0 where preview: "apply_supersession small_env new_id old_id False small_brain = (Inr p, w0)" "sr_status p = lit ''ready''"
    using small_preview by (cases "preview_current small_env new_id old_id small_brain")
      (auto simp: apply_supersession_def Let_def map_sum_def split: sum.splits)
  show ?thesis
    by (rule ready_supersession_applies [OF small_equipped small_quiet preview small_names small_unlinked small_can_prepare])
qed

text \<open>C39. The loop along \<open>superseded_by\<close> ends: with the fuel it has, one for each file and each edit still to
  come and one more, it never runs out, and more fuel changes nothing.\<close>

theorem chain_walk_ends:
  assumes "never_marks env w"
  shows "fst (validate_pair env replacement obsolete w) \<noteq> Inl Diverges
     \<and> walk_chain env (chain_fuel w + k) replacement [mi_id obsolete] w
      = walk_chain env (chain_fuel w) replacement [mi_id obsolete] w"
proof -
  have enough: "card (pool w - set [mi_id obsolete]) < chain_fuel w"
    using card_pool [of w] card_mono [of "pool w" "pool w - set [mi_id obsolete]"] by force
  have same: "walk_chain env (chain_fuel w + k) replacement [mi_id obsolete] w
      = walk_chain env (chain_fuel w) replacement [mi_id obsolete] w"
    by (rule walk_fuel_enough [OF enough]) simp
  have "fst (validate_pair env replacement obsolete w) \<noteq> Inl Diverges"
    using walk_marks [OF assms enough, of replacement] by (auto simp: validate_pair_def bindP_run split: if_splits)
  then show ?thesis using same by blast
qed

lemma chain_walk_ends_witness: "fst (validate_pair small_env sample_item (small_item old_id None []) small_brain) \<noteq> Inl Diverges"
proof -
  have "never_marks small_env small_brain"
    by (simp add: never_marks_def small_env_def small_codec_def small_load_def small_brain_def Diverges_def YAMLError_def
        lit_def split: list.split)
  from chain_walk_ends [OF this] show ?thesis by blast
qed

text \<open>
  A run of the service on the brain: a supersession or a reversal, with any calls failing in it, that ends
  with a result or an exception. Nobody else edits the items, and the replacement's id does not end in the
  dashes that would end the frontmatter it is stored in.
\<close>

definition supersession_step :: "supersession_env \<Rightarrow> lifecycle_brain \<Rightarrow> lifecycle_brain \<Rightarrow> bool" where
  "supersession_step env w w' \<longleftrightarrow>
     (\<exists>script dir r_id o_id x. undisturbed (w\<lparr>br_script := script\<rparr>) \<and> \<not> ends_in_mark r_id
        \<and> run_supersession dir env r_id o_id True (w\<lparr>br_script := script\<rparr>) = (x, w'))"

lemma step_keeps_links:
  assumes "codec_keeps_links (se_codec env)" "sound_links env w" "supersession_step env w w'"
  shows "sound_links env w'"
proof -
  obtain script dir r_id o_id x where run: "undisturbed (w\<lparr>br_script := script\<rparr>)" "\<not> ends_in_mark r_id"
      "run_supersession dir env r_id o_id True (w\<lparr>br_script := script\<rparr>) = (x, w')"
    using assms(3) unfolding supersession_step_def by blast
  have "same_items w (w\<lparr>br_script := script\<rparr>)" by (simp add: same_items_def item_file_def)
  then have "sound_links env (w\<lparr>br_script := script\<rparr>)" using assms(2) links_unchanged [of w _ env] by (simp add: sound_links_def)
  then show ?thesis by (rule run_keeps_links [OF assms(1) run(2,1) _ run(3)])
qed

text \<open>C8. From a store whose links from superseded memories to their replacements close no cycle, and none of
  whose linked ids ends in three dashes, no sequence of supersessions and reversals leads to a cycle,
  whatever calls fail in them and however they end: returned, raised, interrupted or with a failed rollback.
  The runs are ones in which nobody else edits the items and the replacement's id does not end in three
  dashes (a line that ends so would end the frontmatter), and the codec reads a dumped \<open>superseded_by\<close> back
  as it was or not at all.\<close>

theorem superseded_links_stay_acyclic:
  assumes "codec_keeps_links (se_codec env)" "sound_links env w" "(supersession_step env)\<^sup>*\<^sup>* w w'"
  shows "acyclic (links env w')"
proof -
  have "sound_links env w'"
    using assms(3) by induction (use assms(2) step_keeps_links [OF assms(1)] in blast)+
  then show ?thesis by (simp add: sound_links_def)
qed

lemma superseded_links_stay_acyclic_witness:
  "\<exists>w x v. supersession_step small_env small_brain w \<and> supersession_step small_env w v \<and> success Supersede x
     \<and> run_supersession Supersede small_env new_id old_id True small_brain = (Inr x, w) \<and> acyclic (links small_env v)"
proof -
  obtain x w where run: "run_supersession Supersede small_env new_id old_id True small_brain = (Inr x, w)" and x: "success Supersede x"
    using small_run_of by blast
  define broken where "broken = w\<lparr>br_script := replicate 20 no_event @ [no_event\<lparr>fe_outcome := Fails_after Interrupted\<rparr>]\<rparr>"
  obtain y v where again: "run_supersession Supersede small_env new_id old_id True broken = (y, v)" by fastforce
  have "small_brain\<lparr>br_script := []\<rparr> = small_brain" by (simp add: small_brain_def)
  then have step: "supersession_step small_env small_brain w"
    unfolding supersession_step_def using small_quiet(1) small_clean run
    by (intro exI [of _ "[]"] exI [of _ Supersede] exI [of _ new_id] exI [of _ old_id] exI [of _ "Inr x"]) simp
  have "undisturbed broken" by (simp add: broken_def undisturbed_def no_event_def list_all_iff)
  then have next_step: "supersession_step small_env w v"
    unfolding supersession_step_def using small_clean again unfolding broken_def by blast
  have codec: "codec_keeps_links (se_codec small_env)" using small_codec_keeps_links by (simp add: small_env_def)
  have "(supersession_step small_env)\<^sup>*\<^sup>* small_brain v" using step next_step by (meson converse_rtranclp_into_rtranclp rtranclp.rtrancl_refl)
  from superseded_links_stay_acyclic [OF codec small_sound this] show ?thesis using step next_step run x by blast
qed

end
