(* ===== verification/Spec2Isabelle.thy ===== *)
theory Spec2Isabelle imports LoopLaws LoopOrchestrator MemoryDraft FirewallClaims RecallQuery RecallFusion RecallVectors RetrieverLaws CandidateLaws SupersessionClaims begin

text \<open>
  A verification development for Agent Memory Hub: the parts of \<open>src/agent_brain\<close> that decide which
  memories an agent sees and when the work of an agent counts as done.

  Programs and their theories. Python text is a list of code points (\<open>pystr\<close>), integers are \<open>int\<close>,
  floats are rationals rounded to binary64 after every operation, instants are microseconds with an
  offset, exceptions are values of \<open>py_exn\<close>, and a function that reads and writes the brain
  directory is a program \<open>('w, 'a) prog\<close> on an explicit state that stops at an exception.

    \<^item> Prelude: \<open>PyCore\<close> (text, JSON values, results, programs and their weakest preconditions),
      \<open>PyTime\<close> (instants and stamps), \<open>PyFloat\<close> (binary64 rounding, locale \<open>float_rounding\<close>),
      \<open>PyText\<close> (character classes, runs, words).
    \<^item> \<open>memory/loops\<close>, the ledger of agent loops: \<open>LoopTypes\<close> (loop_types.py, loop_state.py),
      \<open>LoopFeedback\<close> (loop_feedback.py), \<open>LoopContract\<close> (loop_contract.py and its validator), \<open>LoopStore\<close>
      (loop_store.py, loop_events.py: one program per operation on the record \<open>hub\<close>, which holds the
      loop files, the event log, the clock and the process runner), \<open>LoopVerifier\<close> (loop_verifier.py)
      and \<open>LoopOrchestrator\<close> (loop_orchestrator.py). \<open>LoopLedger\<close> states the abstract ledger, a step
      relation on runs, \<open>LoopInvariants\<close> the invariants of its reachable states, \<open>LoopHistory\<close> the
      histories of commands, \<open>LoopExample\<close> concrete hubs for the witnesses and \<open>LoopLaws\<close> the
      properties of every reachable hub.
    \<^item> \<open>contracts\<close>, memory items: \<open>MemoryItem\<close> (memory_enums.py, memory_item.py: records and
      validators) and \<open>MemoryDraft\<close> (the filling of a draft before validation).
    \<^item> \<open>memory/governance\<close> and \<open>memory/validity\<close>, the state of an item: \<open>SignalState\<close>
      (signal_state.py), \<open>TemporalState\<close> (temporal_state.py), \<open>Validity\<close> (types.py, policy.py,
      evaluator.py).
    \<^item> \<open>memory/governance\<close>, suggestions: \<open>SupersessionCandidates\<close> (lifecycle_candidates.py: features,
      posting masks and the ranking of replacements) and \<open>CandidateLaws\<close> (the ranking is that of a
      reference that scores and sorts everything).
    \<^item> \<open>memory/store\<close> and \<open>memory/governance\<close>, supersession: \<open>ItemStore\<close> (item_markdown.py, the operations
      of items_store.py on one item and the calls of durable_fs.py they make), \<open>LifecycleLedger\<close>
      (lifecycle_ledger.py) and \<open>Supersession\<close> (supersession.py and the snapshots of
      lifecycle_snapshot.py: preview, apply, revert and rollback, on the record \<open>lifecycle_brain\<close> of
      files, ledger, snapshots and index). \<open>SupersessionLaws\<close> holds their frames and the stages of a
      run, \<open>SupersessionRuns\<close> what a whole run does, \<open>SupersessionFaults\<close> what one failing call does,
      \<open>SupersessionWrites\<close> what any run, however it ends, leaves in the two files, \<open>SupersessionProgress\<close> that a ready run goes through, \<open>SupersessionLinks\<close> the graph of
      superseded memories, \<open>SupersessionExample\<close> a concrete brain for the witnesses, and
      \<open>SupersessionClaims\<close> the properties.
    \<^item> \<open>memory/context\<close>, injection: \<open>ContextRules\<close> (context_firewall_types.py and
      context_firewall_rules.py), \<open>ContextPacking\<close> (context_loading.py, context_packing.py),
      \<open>ContextFirewall\<close> (context_firewall.py), \<open>FirewallLaws\<close> and \<open>FirewallClaims\<close> (its properties).
    \<^item> \<open>memory/recall\<close> and \<open>retrieval\<close>, recall: \<open>RecallQuery\<close> (query_tokens.py, query_synonyms.py,
      query_expansion.py, the raw fallback query), \<open>RecallTypes\<close> (types.py, trace.py, routed_types.py,
      admission.py), \<open>RecallFusion\<close> (fusion.py, routed_fusion.py), \<open>RecallVectors\<close> (mmr.py),
      \<open>AdaptiveLearning\<close> and \<open>LearningLaws\<close> (adaptive_learning.py), \<open>RecallStages\<close> (the stages of
      the candidate pipeline: retrieval_status.py, retrieval_runtime.py, retrieval_decay.py,
      retrieval_value.py, retrieval_temporal.py, retrieval_supersession.py, retrieval_rerank.py,
      retrieval_graph.py, retrieval_hopfield.py, hopfield_memory.py) with \<open>StageLaws\<close> (what each
      stage keeps, as interpretations of locales), and \<open>Retriever\<close> (retrieval.py,
      retrieval_access.py, retrieval_budget.py) with \<open>RetrieverLaws\<close>.
    \<^item> \<open>platform/indexing\<close>, the index: \<open>HubIndex\<close> (index.py, index_writer.py, metadata_index.py,
      graph_index.py, vector_index.py: a record of tables, one function per operation) and
      \<open>IndexLaws\<close> (its step relation, invariants and searches).

  What the lemmas show. For the loop ledger: each operation refines a move of the abstract ledger,
  whose reachable states keep the invariants on steps, blockers, evidence, gates and status; from
  the refinement follow the properties of completed loops, of dependencies and of terminal states, the
  last for every history in which no creation draws the id of the loop again (a creation does not look
  whether its file exists).
  For contracts: what a run does, when it returns, and that a gated contract never completes. For
  items: what validation accepts and what filling changes. For the states of items: exact
  conditions. For the firewall: its gates split a cohort (locale \<open>decision_gate\<close>, interpreted on the
  three gates), its limits keep a subsequence, and so what is injected passed every gate, is within
  every limit and free of contradictions, and every candidate is accounted for.
  For queries: nothing of a user's text is outside quotes, and the raw fallback is bounded in its
  fragments and its bytes. For the index: every history of writes keeps ids unique, and the supersession
  edges equal to what the rows say for every pair whose edges no link operation changed since one of its
  items was written; a graph expansion finds the items within its depth, and filtered text searches are exact. For
  searches: every stage is an interpretation of \<open>candidate_stage\<close>, \<open>selecting_stage\<close>,
  \<open>keeping_stage\<close>, \<open>adding_stage\<close> or \<open>rescoring_stage\<close>; from these a result is distinct, within its limit,
  its filter and its scope, complete when it is short, and returned whatever the routes do, unless one of
  the reads outside the \<open>try\<close> blocks fails (\<open>unguarded_reads\<close>). For learning: an activation is gated by a
  replay, and a rollback restores a replaced profile that was readable and not empty. For suggestions: the masks of a query
  (locale \<open>candidate_query\<close>, interpreted on every ranker that is built) lose none of the best three.
  For supersession: each operation of the store has a frame (which files it may change) and a result in
  terms of the bytes read; while nobody else edits its items, a run leaves each of the two files as it was
  or with its new bytes, and if it returns without a failed rollback it changed both and the ledger or
  nothing, also when one call fails or is interrupted anywhere; a run that writes found the pair valid,
  so no history of runs, however they end, closes a cycle of links; and a pair found ready is applied, on
  a platform that can and if its fields are plain (the hypotheses of \<open>ready_supersession_applies\<close>).

  Parameters. Code outside of the modelled modules is an argument: the child process and the hash of
  the loop verifier (in \<open>hub\<close>), and in the record \<open>gates\<close> the analysis of queries, answerability, the
  choice of routed candidates, the compressor and SHA-256. In the record \<open>sql\<close>: FTS5 matching, the
  nearest vectors of sqlite_vec, the limit on bound variables and the rounding to C floats; in
  \<open>recall_env\<close>: the clock, the ISO parser, the markdown files, the cross encoder, what loading the
  profile gives, the order of Python sets, and which read of the index, named by its place in the code,
  raises which error (\<open>ev_failure\<close>); in \<open>float_ops\<close>: the functions of math; in \<open>item_codec\<close>: PyYAML, the
  coercions and dumps of pydantic; in \<open>ledger_env\<close>: the clock, the ISO parser and the length of a JSON
  line; in \<open>supersession_env\<close>: whether the platform can run transactions, the object ids of git and the
  index of the service, if any; in \<open>topic_unicode\<close>: NFKC and the class of a character. The Unicode
  database is a parameter of the queries; \<open>lower\<close> and \<open>casefold\<close> are exact on ASCII and Latin-1. A
  property holds for every such argument, but where a hypothesis names what it relies on.

  Bounds. Recursion is structural or has a measure, except the walk along \<open>superseded_by\<close> of
  \<open>_validate_pair\<close>, a loop over the files of the brain. Its fuel is the number of files, and of edits of
  other programs still to come, and one more; it is enough because each memory it loads is one it has not
  met, which \<open>chain_walk_ends\<close> states. Floats have no overflow: scores
  come from 53-bit numbers and bounded factors.

  Not modelled. For the loop ledger and the learned profile, file locking, atomic replacement, fsync and
  concurrent processes (a write of a file is one update of a map). For items, a call of the file system
  is one event of a script: it proceeds, or fails before or after its effect, after edits by programs that
  take no locks; the descriptors, temporary files and syncs inside such a call, the release of locks,
  the fallbacks for platforms without the capability and the scan of all items are left out. In a search, recording the
  accesses is taken to succeed (the code ignores its errors), and a JSON column holds the value it encodes. A snapshot
  is one call, without the encoding of git objects. The pending queue and the write service; network,
  cryptography and native sync; installers and user interfaces; opening, migrating and locking the SQLite file; reports,
  benchmarks and the web console; the term tables and heuristics of query analysis, answerability and
  compression, whose results are parameters.
\<close>

end
